(* ===== verification/Prelude.thy ===== *)
theory Prelude
  imports Main "HOL-Library.Sublist"
begin

text \<open>
  Shared vocabulary of the development: the result type of fallible Go functions, Go maps as
  association lists, generic list facts, and the interfaces (locales) that several components
  implement:

  \<^item> \<open>kv_store\<close>: what a client of a Go map relies on (lookup after insert and delete);
  \<^item> \<open>normalizer\<close>: a partial normalising function whose results are exactly its fixed points;
  \<^item> \<open>safe_machine\<close>: a deterministic machine run over a list of operations that keeps an
    invariant, with the lifting from one step to every run.
\<close>

section \<open>Results and named collections\<close>

named_theorems store_simps \<open>lookup laws of Go maps modelled as association lists\<close>

text \<open>
  \<open>apperr.Error\<close> (daemon/internal/apperr) carries a machine-readable code and a message in
  Chinese. The code is what callers and the wire protocol branch on, so an error is its code.
\<close>

datatype apperr = AppErr (err_code: string)

type_synonym 'a result = "apperr + 'a"

abbreviation Err :: "string \<Rightarrow> 'a result" where
  "Err c \<equiv> Inl (AppErr c)"

text \<open>Mapping a fallible function over a slice, stopping at the first error.\<close>

fun map_result :: "('a \<Rightarrow> 'b result) \<Rightarrow> 'a list \<Rightarrow> 'b list result" where
  "map_result f [] = Inr []"
| "map_result f (x # xs) =
     (case f x of
        Inl e \<Rightarrow> Inl e
      | Inr y \<Rightarrow> (case map_result f xs of Inl e \<Rightarrow> Inl e | Inr ys \<Rightarrow> Inr (y # ys)))"

lemma map_result_Inr_iff:
  "map_result f xs = Inr ys \<longleftrightarrow> list_all2 (\<lambda>x y. f x = Inr y) xs ys"
proof (induction xs arbitrary: ys)
  case Nil
  then show ?case by auto
next
  case (Cons x xs)
  have IH: "map_result f xs = Inr zs \<longleftrightarrow> list_all2 (\<lambda>x y. f x = Inr y) xs zs" for zs
    by (rule Cons.IH)
  show ?case
    by (cases "f x"; cases "map_result f xs"; cases ys) (auto simp flip: IH)
qed

lemma map_result_set:
  assumes "map_result f xs = Inr ys" and "y \<in> set ys"
  shows "\<exists>x \<in> set xs. f x = Inr y"
  using assms unfolding map_result_Inr_iff
  by (induction xs ys rule: list_all2_induct) auto

lemma map_result_length:
  "map_result f xs = Inr ys \<Longrightarrow> length ys = length xs"
  unfolding map_result_Inr_iff by (simp add: list_all2_lengthD)

section \<open>Go maps as association lists\<close>

text \<open>
  A Go map is an association list with at most one entry per key. \<open>aput\<close> is \<open>m[k] = v\<close>,
  \<open>adel\<close> is \<open>delete(m, k)\<close>, \<open>aget\<close> is \<open>m[k]\<close> with the comma-ok form. Iteration order is
  unspecified in Go; every loop of the model over a map computes a result that does not depend on
  the order, or sorts afterwards as the code does.
\<close>

type_synonym ('k, 'v) gomap = "('k \<times> 'v) list"

definition aget :: "('k, 'v) gomap \<Rightarrow> 'k \<Rightarrow> 'v option" where
  "aget m k = map_of m k"

definition adel :: "'k \<Rightarrow> ('k, 'v) gomap \<Rightarrow> ('k, 'v) gomap" where
  "adel k m = filter (\<lambda>p. fst p \<noteq> k) m"

definition aput :: "'k \<Rightarrow> 'v \<Rightarrow> ('k, 'v) gomap \<Rightarrow> ('k, 'v) gomap" where
  "aput k v m = (k, v) # adel k m"

definition awf :: "('k, 'v) gomap \<Rightarrow> bool" where
  "awf m \<longleftrightarrow> distinct (map fst m)"

lemma aget_Nil [simp]: "aget [] k = None"
  by (simp add: aget_def)

lemma aget_Cons [store_simps]:
  "aget ((k, v) # m) k' = (if k = k' then Some v else aget m k')"
  by (simp add: aget_def)

lemma aget_adel [store_simps]:
  "aget (adel k m) k' = (if k' = k then None else aget m k')"
  by (induction m) (auto simp: aget_def adel_def)

lemma aget_aput [store_simps]:
  "aget (aput k v m) k' = (if k' = k then Some v else aget m k')"
  by (simp add: aput_def aget_Cons aget_adel)

lemma aget_SomeD: "aget m k = Some v \<Longrightarrow> (k, v) \<in> set m"
  by (simp add: aget_def map_of_SomeD)

lemma aget_Some_iff: "awf m \<Longrightarrow> aget m k = Some v \<longleftrightarrow> (k, v) \<in> set m"
  by (simp add: aget_def awf_def)

lemma aget_None_iff: "aget m k = None \<longleftrightarrow> k \<notin> fst ` set m"
  by (simp add: aget_def map_of_eq_None_iff)

lemma awf_Nil [simp]: "awf []"
  by (simp add: awf_def)

lemma awf_filter: "awf m \<Longrightarrow> awf (filter P m)"
  unfolding awf_def by (induction m) auto

lemma awf_adel: "awf m \<Longrightarrow> awf (adel k m)"
  unfolding adel_def by (rule awf_filter)

lemma awf_aput: "awf m \<Longrightarrow> awf (aput k v m)"
  unfolding awf_def aput_def adel_def by (induction m) auto

lemma set_adel: "set (adel k m) = {p \<in> set m. fst p \<noteq> k}"
  by (auto simp: adel_def)

lemma set_aput: "set (aput k v m) = insert (k, v) {p \<in> set m. fst p \<noteq> k}"
  by (auto simp: aput_def set_adel)

lemma aget_filter: 
  "awf m \<Longrightarrow> aget (filter P m) k =
     (case aget m k of None \<Rightarrow> None | Some v \<Rightarrow> if P (k, v) then Some v else None)"
proof (induction m)
  case Nil
  then show ?case by simp
next
  case (Cons p m)
  obtain k' v' where p: "p = (k', v')" by (cases p)
  from Cons.prems have wf: "awf m" and fresh: "k' \<notin> fst ` set m"
    by (auto simp: awf_def p)
  from fresh have none: "aget m k' = None" by (simp add: aget_None_iff)
  show ?case
    using Cons.IH [OF wf] none by (auto simp: p aget_Cons split: option.splits)
qed

section \<open>Interfaces\<close>

text \<open>The contract of a keyed store.\<close>

locale kv_store =
  fixes empty :: "'s"
    and get :: "'s \<Rightarrow> 'k \<Rightarrow> 'v option"
    and put :: "'k \<Rightarrow> 'v \<Rightarrow> 's \<Rightarrow> 's"
    and del :: "'k \<Rightarrow> 's \<Rightarrow> 's"
  assumes get_empty: "get empty k = None"
    and get_put: "get (put k v s) k' = (if k' = k then Some v else get s k')"
    and get_del: "get (del k s) k' = (if k' = k then None else get s k')"
begin

lemma get_put_same: "get (put k v s) k = Some v"
  by (simp add: get_put)

lemma get_put_other: "k' \<noteq> k \<Longrightarrow> get (put k v s) k' = get s k'"
  by (simp add: get_put)

lemma get_del_same: "get (del k s) k = None"
  by (simp add: get_del)

lemma get_put_put: "get (put k v (put k w s)) = get (put k v s)"
  by (rule ext) (simp add: get_put)

lemma get_del_put: "get (del k (put k v s)) = get (del k s)"
  by (rule ext) (simp add: get_put get_del)

lemma get_fold_del:
  "get (fold del ks s) k = (if k \<in> set ks then None else get s k)"
  by (induction ks arbitrary: s) (auto simp: get_del)

end

interpretation gomap: kv_store "[]" aget aput adel
  by unfold_locales (simp_all add: store_simps)

text \<open>
  A partial normalising function: its results satisfy \<open>good\<close>, and a value that satisfies \<open>good\<close>
  is left alone. Everything the clients use follows from the two laws.
\<close>

locale normalizer =
  fixes norm :: "'a \<Rightarrow> 'a result"
    and good :: "'a \<Rightarrow> bool"
  assumes norm_good: "norm x = Inr y \<Longrightarrow> good y"
    and good_fixed: "good x \<Longrightarrow> norm x = Inr x"
begin

lemma norm_idem: "norm x = Inr y \<Longrightarrow> norm y = Inr y"
  by (blast intro: good_fixed norm_good)

lemma good_iff_fixed: "good x \<longleftrightarrow> norm x = Inr x"
  by (blast intro: good_fixed norm_good)

lemma norm_range: "(\<exists>x. norm x = Inr y) \<longleftrightarrow> good y"
  by (blast intro: good_fixed norm_good)

end

text \<open>
  A machine with an operation type and a step function; \<open>inv\<close> holds at the start and every
  permitted step keeps it. \<open>permitted\<close> is the assumption on the environment (fresh random
  values, a clock that does not run backwards), \<open>True\<close> where there is none.
\<close>

fun run_steps :: "('s \<Rightarrow> 'op \<Rightarrow> 's) \<Rightarrow> 's \<Rightarrow> 'op list \<Rightarrow> 's" where
  "run_steps step s [] = s"
| "run_steps step s (x # xs) = run_steps step (step s x) xs"

fun run_permitted :: "('s \<Rightarrow> 'op \<Rightarrow> bool) \<Rightarrow> ('s \<Rightarrow> 'op \<Rightarrow> 's) \<Rightarrow> 's \<Rightarrow> 'op list \<Rightarrow> bool" where
  "run_permitted perm step s [] = True"
| "run_permitted perm step s (x # xs) = (perm s x \<and> run_permitted perm step (step s x) xs)"

lemma run_steps_append:
  "run_steps step s (xs @ ys) = run_steps step (run_steps step s xs) ys"
  by (induction xs arbitrary: s) auto

locale safe_machine =
  fixes init :: "'s \<Rightarrow> bool"
    and permitted :: "'s \<Rightarrow> 'op \<Rightarrow> bool"
    and step :: "'s \<Rightarrow> 'op \<Rightarrow> 's"
    and inv :: "'s \<Rightarrow> bool"
  assumes init_inv: "init s \<Longrightarrow> inv s"
    and step_inv: "inv s \<Longrightarrow> permitted s x \<Longrightarrow> inv (step s x)"
begin

lemma run_inv_from:
  "inv s \<Longrightarrow> run_permitted permitted step s xs \<Longrightarrow> inv (run_steps step s xs)"
  by (induction xs arbitrary: s) (auto intro: step_inv)

lemma run_inv:
  "init s \<Longrightarrow> run_permitted permitted step s xs \<Longrightarrow> inv (run_steps step s xs)"
  by (rule run_inv_from [OF init_inv])

end

lemma run_permitted_append:
  "run_permitted perm step s (xs @ ys) \<longleftrightarrow>
     run_permitted perm step s xs \<and> run_permitted perm step (run_steps step s xs) ys"
  by (induction xs arbitrary: s) auto

lemma run_permitted_True [simp]: "run_permitted (\<lambda>_ _. True) step s xs"
  by (induction xs arbitrary: s) auto

end
