(* ===== verification/GoStrings.thy ===== *)
theory GoStrings
  imports Prelude
begin

text \<open>
  The part of Go's \<open>strings\<close>, \<open>strconv\<close> and \<open>unicode/utf8\<close> the program uses. A Go string is a
  sequence of bytes, so it is a \<^typ>\<open>string\<close> (a list of 8-bit characters). \<open>TrimSpace\<close> and the
  rune count follow UTF-8 (white space beyond ASCII is listed byte by byte); \<open>ToLower\<close> and
  \<open>ToUpper\<close> map the ASCII letters and leave other bytes alone, which is what Go does on ASCII
  strings (the identifiers, methods, hashes and host names the program passes to them).
\<close>

section \<open>White space\<close>

definition byte :: "char \<Rightarrow> int" where
  "byte c = of_char c"

definition ascii_space :: "char \<Rightarrow> bool" where
  "ascii_space c \<longleftrightarrow> (9 \<le> byte c \<and> byte c \<le> 13) \<or> byte c = 32"

text \<open>The two- and three-byte encodings of the white-space runes beyond ASCII.\<close>

definition space2 :: "char \<Rightarrow> char \<Rightarrow> bool" where
  "space2 a b \<longleftrightarrow> byte a = 194 \<and> (byte b = 133 \<or> byte b = 160)"

definition space3 :: "char \<Rightarrow> char \<Rightarrow> char \<Rightarrow> bool" where
  "space3 a b c \<longleftrightarrow>
     (byte a = 225 \<and> byte b = 154 \<and> byte c = 128) \<or>
     (byte a = 226 \<and> byte b = 128 \<and>
        ((128 \<le> byte c \<and> byte c \<le> 138) \<or> byte c = 168 \<or> byte c = 169 \<or> byte c = 175)) \<or>
     (byte a = 226 \<and> byte b = 129 \<and> byte c = 159) \<or>
     (byte a = 227 \<and> byte b = 128 \<and> byte c = 128)"

text \<open>The length of the white-space rune a string starts with, 0 if it starts with none.\<close>

fun space_at :: "(char \<Rightarrow> char \<Rightarrow> bool) \<Rightarrow> (char \<Rightarrow> char \<Rightarrow> char \<Rightarrow> bool) \<Rightarrow> string \<Rightarrow> nat" where
  "space_at w2 w3 (a # b # c # s) =
     (if ascii_space a then 1 else if w2 a b then 2 else if w3 a b c then 3 else 0)"
| "space_at w2 w3 [a, b] = (if ascii_space a then 1 else if w2 a b then 2 else 0)"
| "space_at w2 w3 [a] = (if ascii_space a then 1 else 0)"
| "space_at w2 w3 [] = 0"

lemma space_at_le: "space_at w2 w3 s \<le> length s"
  by (induction w2 w3 s rule: space_at.induct) auto

lemma space_at_drop:
  assumes "space_at w2 w3 s \<noteq> 0"
  shows "length (drop (space_at w2 w3 s) s) < length s"
  using assms space_at_le [of w2 w3 s] by simp

function strip :: "(char \<Rightarrow> char \<Rightarrow> bool) \<Rightarrow> (char \<Rightarrow> char \<Rightarrow> char \<Rightarrow> bool) \<Rightarrow> string \<Rightarrow> string" where
  "strip w2 w3 s =
     (if space_at w2 w3 s = 0 then s else strip w2 w3 (drop (space_at w2 w3 s) s))"
  by pat_completeness auto
termination
  by (relation "measure (\<lambda>(_, _, s). length s)") (use space_at_drop in auto)

declare strip.simps [simp del]

text \<open>\<open>strings.TrimSpace\<close>: white-space runes off the front, then off the back.\<close>

definition trim_left :: "string \<Rightarrow> string" where
  "trim_left = strip space2 space3"

definition trim_right :: "string \<Rightarrow> string" where
  "trim_right s = rev (strip (\<lambda>a b. space2 b a) (\<lambda>a b c. space3 c b a) (rev s))"

definition trim_space :: "string \<Rightarrow> string" where
  "trim_space s = trim_right (trim_left s)"

lemma strip_done: "space_at w2 w3 s = 0 \<Longrightarrow> strip w2 w3 s = s"
  by (subst strip.simps) simp

lemma space_at_strip: "space_at w2 w3 (strip w2 w3 s) = 0"
proof (induction w2 w3 s rule: strip.induct)
  case (1 w2 w3 s)
  then show ?case by (cases "space_at w2 w3 s = 0") (simp_all add: strip.simps [of w2 w3 s])
qed

lemma strip_suffix: "suffix (strip w2 w3 s) s"
proof (induction w2 w3 s rule: strip.induct)
  case (1 w2 w3 s)
  then show ?case
    by (cases "space_at w2 w3 s = 0")
      (auto simp: strip.simps [of w2 w3 s] intro: suffix_order.trans suffix_drop)
qed

lemma strip_idem: "strip w2 w3 (strip w2 w3 s) = strip w2 w3 s"
  by (rule strip_done) (rule space_at_strip)

text \<open>A prefix of a string that starts with no white space starts with none.\<close>

lemma space_at_prefix:
  assumes "space_at w2 w3 s = 0"
  shows "space_at w2 w3 (take n s) = 0"
  using assms
  by (induction w2 w3 s rule: space_at.induct)
    (auto simp: take_Cons' numeral_2_eq_2 split: if_splits)

lemma trim_right_prefix: "prefix (trim_right s) s"
  using strip_suffix [of "\<lambda>a b. space2 b a" "\<lambda>a b c. space3 c b a" "rev s"]
  by (simp add: trim_right_def suffix_to_prefix)

lemma trim_right_idem: "trim_right (trim_right s) = trim_right s"
  by (simp add: trim_right_def strip_idem)

lemma trim_left_trim_right:
  assumes "trim_left s = s"
  shows "trim_left (trim_right s) = trim_right s"
proof -
  have "space_at space2 space3 s = 0"
    using assms space_at_strip [of space2 space3 s] by (simp add: trim_left_def)
  moreover have "trim_right s = take (length (trim_right s)) s"
    by (metis append_eq_conv_conj prefixE trim_right_prefix)
  ultimately have "space_at space2 space3 (trim_right s) = 0"
    using space_at_prefix by metis
  then show ?thesis by (simp add: trim_left_def strip_done)
qed

lemma trim_space_idem [simp]: "trim_space (trim_space s) = trim_space s"
proof -
  have "trim_left (trim_left s) = trim_left s" by (simp add: trim_left_def strip_idem)
  then show ?thesis
    by (simp add: trim_space_def trim_left_trim_right trim_right_idem)
qed

lemma trim_space_Nil [simp]: "trim_space [] = []"
  by (simp add: trim_space_def trim_left_def trim_right_def strip_done)

text \<open>Bytes no white-space rune contains: strings that start and end with them have nothing to trim.\<close>

definition plain_byte :: "char \<Rightarrow> bool" where
  "plain_byte c \<longleftrightarrow> \<not> ascii_space c \<and> byte c < 128"

lemma space_at_plain:
  assumes "plain_byte c"
  shows "space_at space2 space3 (c # s) = 0" "space_at (\<lambda>a b. space2 b a) (\<lambda>a b c. space3 c b a) (c # s) = 0"
  using assms
  by (cases s; cases "tl s"; auto simp: plain_byte_def space2_def space3_def)+

lemma trim_space_plain:
  assumes "plain_byte c" and "plain_byte d" and "s = c # u" and "s = v @ [d]"
  shows "trim_space s = s"
proof -
  have "trim_left s = s" using assms(1,3) by (simp add: trim_left_def strip_done space_at_plain)
  moreover have "trim_right s = s" using assms(2,4) by (simp add: trim_right_def strip_done space_at_plain)
  ultimately show ?thesis by (simp add: trim_space_def)
qed

lemma trim_space_all_plain:
  assumes "list_all plain_byte s"
  shows "trim_space s = s"
proof (cases "s = []")
  case False
  obtain c u where cu: "s = c # u" using False by (cases s) auto
  obtain v d where vd: "s = v @ [d]" using False by (cases s rule: rev_cases) auto
  have "plain_byte c" using assms unfolding cu by simp
  moreover have "plain_byte d" using assms unfolding vd by simp
  ultimately show ?thesis by (rule trim_space_plain [OF _ _ cu vd])
qed simp

section \<open>Prefixes, letters, splitting\<close>

definition has_prefix :: "string \<Rightarrow> string \<Rightarrow> bool" where
  "has_prefix s p \<longleftrightarrow> prefix p s"

definition trim_prefix :: "string \<Rightarrow> string \<Rightarrow> string" where
  "trim_prefix s p = (if has_prefix s p then drop (length p) s else s)"

definition lower_char :: "char \<Rightarrow> char" where
  "lower_char c = (if 65 \<le> byte c \<and> byte c \<le> 90 then char_of (byte c + 32) else c)"

definition upper_char :: "char \<Rightarrow> char" where
  "upper_char c = (if 97 \<le> byte c \<and> byte c \<le> 122 then char_of (byte c - 32) else c)"

definition to_lower :: "string \<Rightarrow> string" where
  "to_lower s = map lower_char s"

definition to_upper :: "string \<Rightarrow> string" where
  "to_upper s = map upper_char s"

lemma lower_char_idem [simp]: "lower_char (lower_char c) = lower_char c"
  by (auto simp: lower_char_def byte_def)

lemma upper_char_idem [simp]: "upper_char (upper_char c) = upper_char c"
  by (auto simp: upper_char_def byte_def)

lemma to_lower_idem [simp]: "to_lower (to_lower s) = to_lower s"
  by (simp add: to_lower_def)

lemma to_upper_idem [simp]: "to_upper (to_upper s) = to_upper s"
  by (simp add: to_upper_def)

text \<open>Lower-casing does not change which bytes are white space.\<close>

lemma byte_lower: "byte (lower_char c) = (if 65 \<le> byte c \<and> byte c \<le> 90 then byte c + 32 else byte c)"
proof -
  have "byte (char_of n) = n" if "0 \<le> n" "n < 256" for n
    using that by (simp add: byte_def)
  then show ?thesis by (auto simp: lower_char_def)
qed

lemma space_lower [simp]:
  "ascii_space (lower_char a) = ascii_space a" "space2 (lower_char a) (lower_char b) = space2 a b"
  "space3 (lower_char a) (lower_char b) (lower_char c) = space3 a b c"
  unfolding ascii_space_def space2_def space3_def byte_lower by auto

lemma strip_lower:
  assumes "\<And>a b. w2 (lower_char a) (lower_char b) = w2 a b"
    and "\<And>a b c. w3 (lower_char a) (lower_char b) (lower_char c) = w3 a b c"
  shows "strip w2 w3 (map lower_char s) = map lower_char (strip w2 w3 s)"
proof -
  have at: "space_at w2 w3 (map lower_char t) = space_at w2 w3 t" for t
    using assms by (cases "(w2, w3, t)" rule: space_at.cases) auto
  show ?thesis
  proof (induction "length s" arbitrary: s rule: less_induct)
    case less
    show ?case
    proof (cases "space_at w2 w3 s = 0")
      case True
      then show ?thesis using at [of s] by (simp add: strip_done)
    next
      case False
      have "strip w2 w3 (map lower_char s) = strip w2 w3 (map lower_char (drop (space_at w2 w3 s) s))"
        using False at [of s] by (subst strip.simps) (simp add: drop_map)
      also have "\<dots> = map lower_char (strip w2 w3 (drop (space_at w2 w3 s) s))"
        by (rule less) (rule space_at_drop [OF False])
      also have "strip w2 w3 (drop (space_at w2 w3 s) s) = strip w2 w3 s"
        using False by (simp add: strip.simps [of w2 w3 s])
      finally show ?thesis .
    qed
  qed
qed

lemma trim_space_lower: "trim_space (to_lower s) = to_lower (trim_space s)"
  by (simp add: trim_space_def trim_left_def trim_right_def to_lower_def strip_lower rev_map)

text \<open>\<open>strings.Split(s, sep)\<close> for a one-byte separator: always at least one part.\<close>

fun split_on :: "char \<Rightarrow> string \<Rightarrow> string list" where
  "split_on d [] = [[]]"
| "split_on d (c # s) =
     (if c = d then [] # split_on d s
      else (case split_on d s of p # ps \<Rightarrow> (c # p) # ps | [] \<Rightarrow> [[c]]))"

text \<open>\<open>strings.Join\<close>.\<close>

fun join_with :: "string \<Rightarrow> string list \<Rightarrow> string" where
  "join_with d [] = []"
| "join_with d [p] = p"
| "join_with d (p # q # ps) = p @ d @ join_with d (q # ps)"

lemma split_on_not_Nil [simp]: "split_on d s \<noteq> []"
  by (induction s) (auto split: list.splits)

lemma join_split [simp]: "join_with [d] (split_on d s) = s"
proof (induction s)
  case Nil
  then show ?case by simp
next
  case (Cons c s)
  obtain p ps where sp: "split_on d s = p # ps" by (cases "split_on d s") auto
  show ?case using Cons by (cases ps) (auto simp: sp)
qed

lemma split_on_no_sep: "p \<in> set (split_on d s) \<Longrightarrow> d \<notin> set p"
proof (induction s arbitrary: p)
  case Nil
  then show ?case by simp
next
  case (Cons c s)
  then show ?case by (cases "split_on d s") (auto split: if_splits)
qed

lemma split_on_single: "d \<notin> set s \<Longrightarrow> split_on d s = [s]"
  by (induction s) auto

lemma split_on_append_sep:
  "d \<notin> set p \<Longrightarrow> split_on d (p @ d # s) = p # split_on d s"
  by (induction p) auto

lemma split_on_append: "split_on d (p @ d # s) = split_on d p @ split_on d s"
proof (induction p)
  case (Cons c p)
  then show ?case by (cases "split_on d p") (auto simp: Cons_eq_append_conv)
qed simp

lemma split_join:
  assumes "ps \<noteq> []" and "\<forall>p \<in> set ps. d \<notin> set p"
  shows "split_on d (join_with [d] ps) = ps"
  using assms
proof (induction ps)
  case Nil
  then show ?case by simp
next
  case (Cons p ps)
  then show ?case by (cases ps) (simp_all add: split_on_single split_on_append_sep)
qed

text \<open>\<open>strings.Contains(s, sub)\<close> and \<open>strings.ContainsRune\<close> for ASCII runes.\<close>

definition contains_str :: "string \<Rightarrow> string \<Rightarrow> bool" where
  "contains_str s sub \<longleftrightarrow> sublist sub s"

definition contains_any :: "string \<Rightarrow> string \<Rightarrow> bool" where
  "contains_any s cs \<longleftrightarrow> list_ex (\<lambda>c. c \<in> set cs) s"

definition replace_char :: "char \<Rightarrow> char \<Rightarrow> string \<Rightarrow> string" where
  "replace_char a b s = map (\<lambda>c. if c = a then b else c) s"

text \<open>
  \<open>len([]rune(s))\<close>: the number of runes of the UTF-8 decoding; a byte that starts no valid
  encoding counts as one rune (U+FFFD).
\<close>

definition cont :: "char \<Rightarrow> int \<Rightarrow> int \<Rightarrow> bool" where
  "cont c lo hi \<longleftrightarrow> lo \<le> byte c \<and> byte c \<le> hi"

definition rune_len2 :: "char \<Rightarrow> char \<Rightarrow> bool" where
  "rune_len2 a b \<longleftrightarrow> cont a 194 223 \<and> cont b 128 191"

definition rune_len3 :: "char \<Rightarrow> char \<Rightarrow> char \<Rightarrow> bool" where
  "rune_len3 a b c \<longleftrightarrow> cont c 128 191 \<and>
     (if byte a = 224 then cont b 160 191
      else if byte a = 237 then cont b 128 159
      else cont a 225 239 \<and> cont b 128 191)"

definition rune_len4 :: "char \<Rightarrow> char \<Rightarrow> char \<Rightarrow> char \<Rightarrow> bool" where
  "rune_len4 a b c d \<longleftrightarrow> cont c 128 191 \<and> cont d 128 191 \<and>
     (if byte a = 240 then cont b 144 191
      else if byte a = 244 then cont b 128 143
      else cont a 241 243 \<and> cont b 128 191)"

fun rune_count :: "string \<Rightarrow> nat" where
  "rune_count [] = 0"
| "rune_count [a] = 1"
| "rune_count [a, b] = (if rune_len2 a b then 1 else Suc (rune_count [b]))"
| "rune_count [a, b, c] =
     (if rune_len2 a b then Suc (rune_count [c])
      else if rune_len3 a b c then 1 else Suc (rune_count [b, c]))"
| "rune_count (a # b # c # d # s) =
     (if rune_len2 a b then Suc (rune_count (c # d # s))
      else if rune_len3 a b c then Suc (rune_count (d # s))
      else if rune_len4 a b c d then Suc (rune_count s)
      else Suc (rune_count (b # c # d # s)))"

lemma rune_count_le: "rune_count s \<le> length s"
  by (induction s rule: rune_count.induct) auto

text \<open>
  \<open>[]rune(s)\<close>, each rune as its UTF-8 encoding; a byte that starts no valid encoding is U+FFFD.
\<close>

definition bad_rune :: string where
  "bad_rune = [CHR 0xEF, CHR 0xBF, CHR 0xBD]"

definition one_rune :: "char \<Rightarrow> string" where
  "one_rune a = (if byte a < 128 then [a] else bad_rune)"

fun runes :: "string \<Rightarrow> string list" where
  "runes [] = []"
| "runes [a] = [one_rune a]"
| "runes [a, b] = (if rune_len2 a b then [[a, b]] else one_rune a # runes [b])"
| "runes [a, b, c] =
     (if rune_len2 a b then [a, b] # runes [c]
      else if rune_len3 a b c then [[a, b, c]] else one_rune a # runes [b, c])"
| "runes (a # b # c # d # s) =
     (if rune_len2 a b then [a, b] # runes (c # d # s)
      else if rune_len3 a b c then [a, b, c] # runes (d # s)
      else if rune_len4 a b c d then [a, b, c, d] # runes s
      else one_rune a # runes (b # c # d # s))"

lemma length_runes [simp]: "length (runes s) = rune_count s"
  by (induction s rule: runes.induct) auto

text \<open>\<open>strings.Fields\<close> and \<open>strings.Count\<close> of a one-byte substring.\<close>

function fields_from :: "string \<Rightarrow> string \<Rightarrow> string list" where
  "fields_from cur [] = (if cur = [] then [] else [cur])"
| "fields_from cur (c # s) =
     (let n = space_at space2 space3 (c # s)
      in if 0 < n then (if cur = [] then [] else [cur]) @ fields_from [] (drop n (c # s))
         else fields_from (cur @ [c]) s)"
  by pat_completeness auto
termination
  by (relation "measure (\<lambda>(_, s). length s)") auto

definition str_fields :: "string \<Rightarrow> string list" where
  "str_fields s = fields_from [] s"

definition count_char :: "char \<Rightarrow> string \<Rightarrow> int" where
  "count_char c s = int (length (filter (\<lambda>x. x = c) s))"

definition nl :: string where
  "nl = [CHR 0x0A]"

section \<open>Numbers\<close>

text \<open>
  \<open>strconv.Itoa\<close> and \<open>%d\<close>. Numbers are \<^typ>\<open>int\<close> throughout, so that witnesses compute with
  binary numerals.
\<close>

definition digit_char :: "int \<Rightarrow> char" where
  "digit_char d = char_of (48 + d)"

function digits :: "int \<Rightarrow> string" where
  "digits n = (if n < 10 then [digit_char n] else digits (n div 10) @ [digit_char (n mod 10)])"
  by pat_completeness auto
termination
  by (relation "measure nat") auto

declare digits.simps [simp del]

definition itoa :: "int \<Rightarrow> string" where
  "itoa n = (if n < 0 then CHR ''-'' # digits (- n) else digits n)"

definition is_digit :: "char \<Rightarrow> bool" where
  "is_digit c \<longleftrightarrow> 48 \<le> byte c \<and> byte c \<le> 57"

definition digit_val :: "char \<Rightarrow> int" where
  "digit_val c = byte c - 48"

lemma digit_plain: "is_digit c \<Longrightarrow> plain_byte c"
  by (auto simp: is_digit_def plain_byte_def ascii_space_def)

text \<open>\<open>strconv.Atoi\<close>: an optional sign, then decimal digits, in the range of a 64-bit integer.\<close>

definition digits_val :: "string \<Rightarrow> int" where
  "digits_val s = foldl (\<lambda>n c. 10 * n + digit_val c) 0 s"

definition atou :: "string \<Rightarrow> int option" where
  "atou s = (if s \<noteq> [] \<and> list_all is_digit s then Some (digits_val s) else None)"

definition atoi :: "string \<Rightarrow> int option" where
  "atoi s =
     (let neg = (case s of c # _ \<Rightarrow> c = CHR ''-'' | [] \<Rightarrow> False);
          plus = (case s of c # _ \<Rightarrow> c = CHR ''+'' | [] \<Rightarrow> False);
          body = (if neg \<or> plus then tl s else s)
      in case atou body of
           None \<Rightarrow> None
         | Some n \<Rightarrow>
             (let v = (if neg then - n else n)
              in if - (2 ^ 63) \<le> v \<and> v < 2 ^ 63 then Some v else None))"

lemma byte_digit_char: "0 \<le> d \<Longrightarrow> d < 10 \<Longrightarrow> byte (digit_char d) = 48 + d"
  by (simp add: digit_char_def byte_def)

lemma digit_char_digit [simp]: "0 \<le> d \<Longrightarrow> d < 10 \<Longrightarrow> is_digit (digit_char d)"
  by (simp add: is_digit_def byte_digit_char)

lemma digit_val_char [simp]: "0 \<le> d \<Longrightarrow> d < 10 \<Longrightarrow> digit_val (digit_char d) = d"
  by (simp add: digit_val_def byte_digit_char)

lemma digits_val_snoc: "digits_val (s @ [c]) = 10 * digits_val s + digit_val c"
  by (simp add: digits_val_def)

lemma digits_not_Nil [simp]: "digits n \<noteq> []"
  by (subst digits.simps) simp

lemma digits_digits: "0 \<le> n \<Longrightarrow> list_all is_digit (digits n)"
proof (induction n rule: digits.induct)
  case (1 n)
  then show ?case by (cases "n < 10") (simp_all add: digits.simps [of n])
qed

lemma digits_val_digits [simp]: "0 \<le> n \<Longrightarrow> digits_val (digits n) = n"
proof (induction n rule: digits.induct)
  case (1 n)
  show ?case
  proof (cases "n < 10")
    case True
    then show ?thesis using "1.prems" by (simp add: digits.simps [of n] digits_val_def)
  next
    case False
    then show ?thesis using "1.IH" by (simp add: digits.simps [of n] digits_val_snoc)
  qed
qed

lemma digits_inj: "0 \<le> m \<Longrightarrow> 0 \<le> n \<Longrightarrow> digits m = digits n \<Longrightarrow> m = n"
  by (metis digits_val_digits)

lemma atou_digits [simp]: "0 \<le> n \<Longrightarrow> atou (digits n) = Some n"
  by (simp add: atou_def digits_digits)

lemma atou_nonneg: "atou s = Some n \<Longrightarrow> 0 \<le> n"
proof -
  have "0 \<le> digits_val s" if "list_all is_digit s" for s
    using that
    by (induction s rule: rev_induct)
      (simp_all add: digits_val_def digit_val_def is_digit_def)
  then show "atou s = Some n \<Longrightarrow> 0 \<le> n" by (auto simp: atou_def split: if_splits)
qed

lemma atoi_itoa:
  assumes "- (2 ^ 63) \<le> n" and "n < 2 ^ 63"
  shows "atoi (itoa n) = Some n"
proof (cases "n < 0")
  case True
  then show ?thesis using assms by (simp add: atoi_def itoa_def)
next
  case False
  obtain c cs where ds: "digits n = c # cs"
    by (cases "digits n") auto
  have "is_digit c" using digits_digits [of n] False by (simp add: ds)
  then have "c \<noteq> CHR ''-''" and "c \<noteq> CHR ''+''"
    by (auto simp: is_digit_def byte_def)
  moreover have "atou (c # cs) = Some n"
    using atou_digits [of n] False by (simp add: ds)
  ultimately show ?thesis using False assms by (simp add: atoi_def itoa_def ds)
qed

end
