(* ===== verification/GoPath.thy ===== *)
theory GoPath
  imports GoStrings
begin

text \<open>
  \<open>path.Clean\<close> (and \<open>filepath.Clean\<close>, \<open>filepath.Join\<close>, \<open>filepath.IsAbs\<close> on Unix): purely lexical
  processing of slash-separated paths. Elements are pushed on a stack, \<open>.\<close> and empty elements are
  dropped and \<open>..\<close> pops the element before it.
\<close>

definition dot :: string where "dot = ''.''"

definition dotdot :: string where "dotdot = ''..''"

definition slash :: char where "slash = CHR ''/''"

definition clean_step :: "bool \<Rightarrow> string list \<Rightarrow> string \<Rightarrow> string list" where
  "clean_step rooted st p =
     (if p = [] \<or> p = dot then st
      else if p = dotdot then
        (case st of
           q # st' \<Rightarrow> if q = dotdot then p # st else st'
         | [] \<Rightarrow> if rooted then [] else [p])
      else p # st)"

definition clean_elems :: "bool \<Rightarrow> string \<Rightarrow> string list" where
  "clean_elems rooted p = rev (foldl (clean_step rooted) [] (split_on slash p))"

definition is_abs :: "string \<Rightarrow> bool" where
  "is_abs p \<longleftrightarrow> has_prefix p [slash]"

definition path_clean :: "string \<Rightarrow> string" where
  "path_clean p =
     (if p = [] then dot
      else let body = join_with [slash] (clean_elems (is_abs p) p)
           in if is_abs p then slash # body else if body = [] then dot else body)"

text \<open>\<open>filepath.Join\<close> of two elements: empty elements are skipped, the rest joined and cleaned.\<close>

definition path_join :: "string \<Rightarrow> string \<Rightarrow> string" where
  "path_join a b =
     (if a = [] then (if b = [] then [] else path_clean b)
      else if b = [] then path_clean a else path_clean (a @ [slash] @ b))"

section \<open>Clean relative paths\<close>

text \<open>
  A clean relative path stays below the directory it is taken from: it is \<open>.\<close> or a sequence of
  ordinary names.
\<close>

definition plain_name :: "string \<Rightarrow> bool" where
  "plain_name p \<longleftrightarrow> p \<noteq> [] \<and> p \<noteq> dot \<and> p \<noteq> dotdot"

definition confined :: "string \<Rightarrow> bool" where
  "confined p \<longleftrightarrow> p = dot \<or> list_all plain_name (split_on slash p)"

text \<open>The directory names a clean relative path goes through.\<close>

definition elems :: "string \<Rightarrow> string list" where
  "elems p = (if p = dot then [] else split_on slash p)"

lemma split_is_abs: "is_abs p \<longleftrightarrow> p \<noteq> [] \<and> hd (split_on slash p) = [] "
proof (cases p)
  case Nil
  then show ?thesis by (simp add: is_abs_def has_prefix_def)
next
  case (Cons c s)
  then show ?thesis
    by (cases "split_on slash s") (auto simp: is_abs_def has_prefix_def)
qed

lemma foldl_clean_step_plain:
  "dotdot \<notin> set ps \<Longrightarrow> foldl (clean_step r) st ps = rev (filter plain_name ps) @ st"
  by (induction ps arbitrary: st)
    (auto simp: clean_step_def plain_name_def dot_def dotdot_def)

lemma clean_elems_plain:
  "dotdot \<notin> set (split_on slash p) \<Longrightarrow> clean_elems r p = filter plain_name (split_on slash p)"
  by (simp add: clean_elems_def foldl_clean_step_plain)

lemma join_not_Nil: "ps \<noteq> [] \<Longrightarrow> \<forall>p \<in> set ps. p \<noteq> [] \<Longrightarrow> join_with d ps \<noteq> []"
  by (induction d ps rule: join_with.induct) auto

lemma split_join_plain:
  assumes "ps \<noteq> []" and "set ps \<subseteq> set (split_on slash q)"
  shows "split_on slash (join_with [slash] ps) = ps"
  using assms by (intro split_join) (auto dest: split_on_no_sep)

text \<open>
  Cleaning a relative path without \<open>..\<close> elements confines it, and its elements are the plain
  names of the input, in order.
\<close>

lemma path_clean_rel:
  assumes rel: "\<not> is_abs p" and nodd: "dotdot \<notin> set (split_on slash p)"
  shows "path_clean p =
    (let ps = filter plain_name (split_on slash p)
     in if ps = [] then dot else join_with [slash] ps)"
proof (cases "p = []")
  case True
  then show ?thesis by (simp add: path_clean_def plain_name_def)
next
  case False
  let ?ps = "filter plain_name (split_on slash p)"
  have "join_with [slash] ?ps = [] \<longleftrightarrow> ?ps = []"
  proof
    assume nil: "join_with [slash] ?ps = []"
    have names: "\<forall>q \<in> set ?ps. q \<noteq> []" by (simp add: plain_name_def)
    show "?ps = []"
    proof (rule ccontr)
      assume "?ps \<noteq> []"
      from join_not_Nil [OF this names, of "[slash]"] nil show False by (rule notE)
    qed
  next
    assume "?ps = []"
    then show "join_with [slash] ?ps = []" by simp
  qed
  then show ?thesis
    using False rel by (simp add: path_clean_def clean_elems_plain [OF nodd] Let_def)
qed

lemma path_clean_confined:
  assumes "\<not> is_abs p" and "dotdot \<notin> set (split_on slash p)"
  shows "confined (path_clean p)"
    and "elems (path_clean p) = filter plain_name (split_on slash p)"
proof -
  let ?ps = "filter plain_name (split_on slash p)"
  have split: "?ps \<noteq> [] \<Longrightarrow> split_on slash (join_with [slash] ?ps) = ?ps"
    using split_join_plain [of ?ps p] by auto
  have not_dot: "?ps \<noteq> [] \<Longrightarrow> join_with [slash] ?ps \<noteq> dot"
  proof
    assume ne: "?ps \<noteq> []" and "join_with [slash] ?ps = dot"
    then have "?ps = split_on slash dot" using split by simp
    then have "?ps = [dot]" by (simp add: dot_def slash_def)
    then have "dot \<in> set ?ps" by simp
    then show False by (auto simp: plain_name_def)
  qed
  show "confined (path_clean p)"
    using split by (simp add: path_clean_rel assms confined_def Let_def list_all_iff)
  show "elems (path_clean p) = ?ps"
    using split not_dot by (simp add: path_clean_rel assms elems_def Let_def)
qed

lemma confined_split:
  assumes "confined p" and "p \<noteq> dot"
  shows "list_all plain_name (split_on slash p)"
  using assms by (simp add: confined_def)

lemma confined_not_abs: "confined p \<Longrightarrow> \<not> is_abs p"
proof -
  assume c: "confined p"
  show "\<not> is_abs p"
  proof (cases "p = dot")
    case True
    then show ?thesis by (simp add: is_abs_def has_prefix_def dot_def slash_def)
  next
    case False
    then have "list_all plain_name (split_on slash p)" by (rule confined_split [OF c])
    then have "hd (split_on slash p) \<noteq> []"
      by (cases "split_on slash p") (auto simp: plain_name_def)
    then show ?thesis by (simp add: split_is_abs)
  qed
qed

lemma confined_no_dotdot: "confined p \<Longrightarrow> dotdot \<notin> set (split_on slash p)"
  by (auto simp: confined_def list_all_iff plain_name_def dot_def dotdot_def slash_def)

lemma path_clean_fixed: "confined p \<Longrightarrow> path_clean p = p"
proof -
  assume c: "confined p"
  show "path_clean p = p"
  proof (cases "p = dot")
    case True
    have "split_on slash dot = [dot]" by (simp add: dot_def slash_def)
    then have "filter plain_name (split_on slash p) = []"
      by (simp add: True plain_name_def)
    then show ?thesis
      using path_clean_rel [OF confined_not_abs confined_no_dotdot, OF c c] True by simp
  next
    case False
    then have "list_all plain_name (split_on slash p)" by (rule confined_split [OF c])
    then have "filter plain_name (split_on slash p) = split_on slash p"
      by (simp add: list_all_iff)
    then show ?thesis
      by (simp add: path_clean_rel [OF confined_not_abs confined_no_dotdot, OF c c])
  qed
qed

text \<open>
  String prefixes at a slash are prefixes of the element lists: the test
  \<open>HasPrefix(request, allowed + "/")\<close> decides directory containment.
\<close>

lemma split_on_prefix:
  "prefix (p @ [d]) s \<Longrightarrow> strict_prefix (split_on d p) (split_on d s)"
proof -
  assume "prefix (p @ [d]) s"
  then obtain t where s: "s = p @ d # t" by (auto elim: prefixE)
  have "split_on d (p @ d # t) = split_on d p @ split_on d t"
  proof (induction p)
    case Nil
    then show ?case by simp
  next
    case (Cons c p)
    then show ?case by (cases "split_on d p") (auto simp: Cons_eq_append_conv)
  qed
  then show ?thesis by (auto simp: s strict_prefix_def)
qed

lemma prefix_of_split:
  assumes "strict_prefix (split_on d p) (split_on d s)"
  shows "prefix (p @ [d]) s"
proof -
  from assms obtain ts where ts: "split_on d s = split_on d p @ ts" and ne: "ts \<noteq> []"
    by (auto simp: strict_prefix_def elim: prefixE)
  have join_app: "join_with [d] (ps @ qs) = join_with [d] ps @ d # join_with [d] qs"
    if "ps \<noteq> []" and "qs \<noteq> []" for ps qs :: "string list"
    using that
  proof (induction ps)
    case (Cons a ps)
    then show ?case by (cases ps; cases qs) auto
  qed simp
  have "s = join_with [d] (split_on d s)" by simp
  also have "\<dots> = p @ d # join_with [d] ts"
    using join_app [of "split_on d p" ts] ne by (simp add: ts del: join_split) (simp)
  finally show ?thesis by (metis append.assoc append_Cons append_Nil prefixI)
qed

lemma has_prefix_slash_iff:
  "has_prefix s (p @ [slash]) \<longleftrightarrow> strict_prefix (split_on slash p) (split_on slash s)"
  unfolding has_prefix_def using split_on_prefix prefix_of_split by blast

end
