(* ===== verification/GoNetip.thy ===== *)
theory GoNetip
  imports GoStrings "HOL-Library.Word" "HOL-Library.Product_Lexorder" "HOL-Library.List_Lexorder"
    "HOL-Library.Char_ord"
begin

text \<open>
  The part of Go's \<open>net/netip\<close> the daemon uses: addresses, prefixes, parsing, printing and
  comparison. An address is an IPv4 word or an IPv6 word with a zone (the empty zone is none).
  A parse error is \<open>None\<close>. \<open>IsLoopback\<close> unmaps an IPv4-mapped address first, as Go does since
  1.21.11 and 1.22.4.
\<close>

datatype addr = V4 (word4: "32 word") | V6 (word6: "128 word") (zone6: string)

record netprefix =
  pf_addr :: addr
  pf_bits :: nat

section \<open>Parsing\<close>

definition ipv4_octet :: "string \<Rightarrow> int option" where
  "ipv4_octet f =
     (case atou f of
        None \<Rightarrow> None
      | Some v \<Rightarrow> if v \<le> 255 \<and> \<not> (1 < length f \<and> hd f = CHR ''0'') then Some v else None)"

definition ipv4_fields :: "string \<Rightarrow> (int \<times> int \<times> int \<times> int) option" where
  "ipv4_fields s =
     (case split_on (CHR ''.'') s of
        [a, b, c, d] \<Rightarrow>
          (case (ipv4_octet a, ipv4_octet b, ipv4_octet c, ipv4_octet d) of
             (Some w, Some x, Some y, Some z) \<Rightarrow> Some (w, x, y, z)
           | _ \<Rightarrow> None)
      | _ \<Rightarrow> None)"

definition parse_ipv4 :: "string \<Rightarrow> addr option" where
  "parse_ipv4 s =
     (case ipv4_fields s of
        None \<Rightarrow> None
      | Some (a, b, c, d) \<Rightarrow> Some (V4 (word_of_int (((a * 256 + b) * 256 + c) * 256 + d))))"

definition hex_val :: "char \<Rightarrow> int option" where
  "hex_val c =
     (if is_digit c then Some (byte c - 48)
      else if 97 \<le> byte c \<and> byte c \<le> 102 then Some (byte c - 87)
      else if 65 \<le> byte c \<and> byte c \<le> 70 then Some (byte c - 55)
      else None)"

definition hex_run :: "string \<Rightarrow> string \<times> string" where
  "hex_run s = (takeWhile (\<lambda>c. hex_val c \<noteq> None) s, dropWhile (\<lambda>c. hex_val c \<noteq> None) s)"

definition hex_num :: "string \<Rightarrow> int" where
  "hex_num s = foldl (\<lambda>n c. 16 * n + the (hex_val c)) 0 s"

text \<open>
  The loop of \<open>parseIPv6\<close>: \<open>gs\<close> are the 16-bit groups read so far (the code's \<open>i\<close> is twice
  their number), \<open>ell\<close> is the position of \<open>::\<close> if one was seen, \<open>s\<close> the rest of the input. The
  result is the groups, the ellipsis and the unread rest.
\<close>

function ipv6_loop ::
  "int list \<Rightarrow> nat option \<Rightarrow> string \<Rightarrow> (int list \<times> nat option \<times> string) option" where
  "ipv6_loop gs ell s =
     (if 8 \<le> length gs then Some (gs, ell, s)
      else
        let ds = fst (hex_run s); rest = snd (hex_run s) in
        if ds = [] \<or> 4 < length ds then None
        else if rest \<noteq> [] \<and> hd rest = CHR ''.'' then
          (if ell = None \<and> length gs \<noteq> 6 then None
           else if 6 < length gs then None
           else (case ipv4_fields s of
                   None \<Rightarrow> None
                 | Some (a, b, c, d) \<Rightarrow> Some (gs @ [a * 256 + b, c * 256 + d], ell, [])))
        else
          let gs' = gs @ [hex_num ds] in
          (case rest of
             [] \<Rightarrow> Some (gs', ell, [])
           | c # t \<Rightarrow>
               if c \<noteq> CHR '':'' \<or> t = [] then None
               else if hd t = CHR '':'' then
                 (if ell \<noteq> None then None
                  else if tl t = [] then Some (gs', Some (length gs'), [])
                  else ipv6_loop gs' (Some (length gs')) (tl t))
               else ipv6_loop gs' ell t))"
  by pat_completeness auto
termination
  by (relation "measure (\<lambda>(gs, _, _). 8 - length gs)") auto

declare ipv6_loop.simps [simp del]

definition groups_word :: "int list \<Rightarrow> 128 word" where
  "groups_word gs = word_of_int (foldl (\<lambda>v g. v * 65536 + g) 0 gs)"

definition parse_ipv6_body :: "string \<Rightarrow> 128 word option" where
  "parse_ipv6_body s0 =
     (let lead = has_prefix s0 ''::'';
          s = (if lead then drop 2 s0 else s0)
      in if lead \<and> s = [] then Some 0
         else case ipv6_loop [] (if lead then Some 0 else None) s of
                None \<Rightarrow> None
              | Some (gs, ell, rest) \<Rightarrow>
                  if rest \<noteq> [] then None
                  else if length gs < 8 then
                    (case ell of
                       None \<Rightarrow> None
                     | Some e \<Rightarrow>
                         Some (groups_word (take e gs @ replicate (8 - length gs) 0 @ drop e gs)))
                  else if ell \<noteq> None then None
                  else Some (groups_word gs))"

definition parse_ipv6 :: "string \<Rightarrow> addr option" where
  "parse_ipv6 s =
     (let pre = takeWhile (\<lambda>c. c \<noteq> CHR ''%'') s; rest = dropWhile (\<lambda>c. c \<noteq> CHR ''%'') s
      in if rest \<noteq> [] \<and> tl rest = [] then None
         else map_option (\<lambda>w. V6 w (tl rest)) (parse_ipv6_body pre))"

text \<open>\<open>netip.ParseAddr\<close> dispatches on the first of \<open>.\<close>, \<open>:\<close> and \<open>%\<close>.\<close>

fun addr_kind :: "string \<Rightarrow> char option" where
  "addr_kind [] = None"
| "addr_kind (c # s) =
     (if c = CHR ''.'' \<or> c = CHR '':'' \<or> c = CHR ''%'' then Some c else addr_kind s)"

definition parse_addr :: "string \<Rightarrow> addr option" where
  "parse_addr s =
     (case addr_kind s of
        None \<Rightarrow> None
      | Some c \<Rightarrow>
          if c = CHR ''.'' then parse_ipv4 s
          else if c = CHR '':'' then parse_ipv6 s
          else None)"

section \<open>Classification and printing\<close>

definition is4 :: "addr \<Rightarrow> bool" where
  "is4 a \<longleftrightarrow> (case a of V4 _ \<Rightarrow> True | V6 _ _ \<Rightarrow> False)"

definition is4in6 :: "addr \<Rightarrow> bool" where
  "is4in6 a \<longleftrightarrow> (case a of V4 _ \<Rightarrow> False | V6 w _ \<Rightarrow> drop_bit 32 w = 65535)"

definition unmap :: "addr \<Rightarrow> addr" where
  "unmap a =
     (case a of
        V4 w \<Rightarrow> V4 w
      | V6 w z \<Rightarrow> if is4in6 a then V4 (ucast w) else V6 w z)"

definition bit_len :: "addr \<Rightarrow> nat" where
  "bit_len a = (if is4 a then 32 else 128)"

definition is_loopback :: "addr \<Rightarrow> bool" where
  "is_loopback a \<longleftrightarrow>
     (case unmap a of V4 w \<Rightarrow> drop_bit 24 w = 127 | V6 w _ \<Rightarrow> w = 1)"

definition is_unspecified :: "addr \<Rightarrow> bool" where
  "is_unspecified a \<longleftrightarrow> a = V4 0 \<or> a = V6 0 []"

definition octets :: "32 word \<Rightarrow> int list" where
  "octets w =
     (let n = uint w in [n div 16777216, n div 65536 mod 256, n div 256 mod 256, n mod 256])"

definition string4 :: "32 word \<Rightarrow> string" where
  "string4 w = join_with ''.'' (map digits (octets w))"

definition groups6 :: "128 word \<Rightarrow> int list" where
  "groups6 w = map (\<lambda>i. uint (take_bit 16 (drop_bit (16 * (7 - i)) w))) [0..<8]"

definition hex_digit :: "int \<Rightarrow> char" where
  "hex_digit d = (if d < 10 then char_of (48 + d) else char_of (87 + d))"

function hex_str :: "int \<Rightarrow> string" where
  "hex_str n = (if n < 16 then [hex_digit n] else hex_str (n div 16) @ [hex_digit (n mod 16)])"
  by pat_completeness auto
termination
  by (relation "measure nat") auto

declare hex_str.simps [simp del]

text \<open>The first longest run of at least two zero groups, as start and end.\<close>

definition zero_run_from :: "int list \<Rightarrow> nat \<Rightarrow> nat" where
  "zero_run_from gs i = length (takeWhile (\<lambda>g. g = 0) (drop i gs))"

definition best_zero_run :: "int list \<Rightarrow> (nat \<times> nat) option" where
  "best_zero_run gs =
     foldl (\<lambda>best i.
       let l = zero_run_from gs i
       in if 2 \<le> l \<and> (case best of None \<Rightarrow> True | Some (s, e) \<Rightarrow> e - s < l)
          then Some (i, i + l) else best)
     None [0..<8]"

definition string6 :: "128 word \<Rightarrow> string" where
  "string6 w =
     (let gs = groups6 w; hex = (\<lambda>xs. join_with '':'' (map hex_str xs))
      in case best_zero_run gs of
           None \<Rightarrow> hex gs
         | Some (s, e) \<Rightarrow> hex (take s gs) @ ''::'' @ hex (drop e gs))"

definition addr_string :: "addr \<Rightarrow> string" where
  "addr_string a =
     (case a of
        V4 w \<Rightarrow> string4 w
      | V6 w z \<Rightarrow>
          (if is4in6 a then ''::ffff:'' @ string4 (ucast w) else string6 w)
            @ (if z = [] then [] else CHR ''%'' # z))"

section \<open>Prefixes\<close>

definition strip_zone :: "addr \<Rightarrow> addr" where
  "strip_zone a = (case a of V4 w \<Rightarrow> V4 w | V6 w _ \<Rightarrow> V6 w [])"

definition prefix_from :: "addr \<Rightarrow> nat \<Rightarrow> netprefix" where
  "prefix_from a b = \<lparr>pf_addr = strip_zone a, pf_bits = b\<rparr>"

definition split_last :: "char \<Rightarrow> string \<Rightarrow> (string \<times> string) option" where
  "split_last d s =
     (if d \<in> set s
      then Some (rev (tl (dropWhile (\<lambda>c. c \<noteq> d) (rev s))), rev (takeWhile (\<lambda>c. c \<noteq> d) (rev s)))
      else None)"

definition parse_prefix :: "string \<Rightarrow> netprefix option" where
  "parse_prefix s =
     (case split_last (CHR ''/'') s of
        None \<Rightarrow> None
      | Some (ips, bs) \<Rightarrow>
          (case parse_addr ips of
             None \<Rightarrow> None
           | Some ip \<Rightarrow>
               if \<not> is4 ip \<and> zone6 ip \<noteq> [] then None
               else if 1 < length bs \<and> (byte (hd bs) < 49 \<or> 57 < byte (hd bs)) then None
               else (case atoi bs of
                       None \<Rightarrow> None
                     | Some b \<Rightarrow>
                         if b < 0 \<or> int (bit_len ip) < b then None
                         else Some (prefix_from ip (nat b)))))"

definition mask_addr :: "nat \<Rightarrow> addr \<Rightarrow> addr" where
  "mask_addr b a =
     (case a of
        V4 w \<Rightarrow> V4 (push_bit (32 - b) (drop_bit (32 - b) w))
      | V6 w _ \<Rightarrow> V6 (push_bit (128 - b) (drop_bit (128 - b) w)) [])"

definition masked :: "netprefix \<Rightarrow> netprefix" where
  "masked p = p\<lparr>pf_addr := mask_addr (pf_bits p) (pf_addr p)\<rparr>"

definition contains_addr :: "netprefix \<Rightarrow> addr \<Rightarrow> bool" where
  "contains_addr p a \<longleftrightarrow>
     (case (pf_addr p, a) of
        (V4 v, V4 w) \<Rightarrow> drop_bit (32 - pf_bits p) v = drop_bit (32 - pf_bits p) w
      | (V6 v _, V6 w z) \<Rightarrow>
          z = [] \<and> drop_bit (128 - pf_bits p) v = drop_bit (128 - pf_bits p) w
      | _ \<Rightarrow> False)"

definition prefix_string :: "netprefix \<Rightarrow> string" where
  "prefix_string p = addr_string (pf_addr p) @ CHR ''/'' # digits (int (pf_bits p))"

text \<open>\<open>Addr.Compare\<close> as a key: bit length, then value, then zone.\<close>

definition addr_key :: "addr \<Rightarrow> int \<times> int \<times> string" where
  "addr_key a = (case a of V4 w \<Rightarrow> (32, uint w, []) | V6 w z \<Rightarrow> (128, uint w, z))"

section \<open>Facts\<close>

lemma addr_key_inj: "addr_key a = addr_key b \<Longrightarrow> a = b"
  by (cases a; cases b) (auto simp: addr_key_def word_eq_iff_unsigned [where 'a = int])

lemma contains_addr_self_masked:
  "contains_addr (masked p) a \<longleftrightarrow> contains_addr p a"
proof -
  have id4: "drop_bit k (push_bit k (drop_bit k w)) = drop_bit k w" for w :: "32 word" and k
    by (rule bit_eqI) (auto simp: bit_simps exp_eq_zero_iff dest: bit_imp_le_length)
  have id6: "drop_bit k (push_bit k (drop_bit k w)) = drop_bit k w" for w :: "128 word" and k
    by (rule bit_eqI) (auto simp: bit_simps exp_eq_zero_iff dest: bit_imp_le_length)
  show ?thesis
    by (cases "pf_addr p"; cases a) (simp_all add: contains_addr_def masked_def mask_addr_def id4 id6)
qed

text \<open>A prefix that contains the address of a longer prefix contains all of it.\<close>

lemma drop_bit_coarser:
  fixes v w :: "'a::len word"
  assumes "drop_bit k v = drop_bit k w" and "k \<le> j"
  shows "drop_bit j v = drop_bit j w"
proof -
  have "drop_bit j v = drop_bit (j - k) (drop_bit k v)" using assms(2) by simp
  also have "\<dots> = drop_bit (j - k) (drop_bit k w)" by (simp only: assms(1))
  also have "\<dots> = drop_bit j w" using assms(2) by simp
  finally show ?thesis .
qed

lemma contains_addr_trans:
  assumes "contains_addr p (pf_addr q)" and "contains_addr q a" and "pf_bits p \<le> pf_bits q"
  shows "contains_addr p a"
proof (cases "pf_addr p")
  case (V4 v)
  then obtain u w where "pf_addr q = V4 u" and "a = V4 w"
    using assms(1,2) by (auto simp: contains_addr_def split: addr.splits)
  then show ?thesis
    using assms V4 drop_bit_coarser [of "32 - pf_bits q" u w "32 - pf_bits p"]
    by (simp add: contains_addr_def)
next
  case (V6 v z)
  then obtain u y w where "pf_addr q = V6 u y" and "a = V6 w []"
    using assms(1,2) by (auto simp: contains_addr_def split: addr.splits)
  then show ?thesis
    using assms V6 drop_bit_coarser [of "128 - pf_bits q" u w "128 - pf_bits p"]
    by (simp add: contains_addr_def)
qed

end
