(* ===== verification/GoBase64.thy ===== *)
theory GoBase64
  imports GoStrings
begin

text \<open>
  \<open>base64.RawURLEncoding\<close> (the URL alphabet without padding) and \<open>hex.EncodeToString\<close>: what the
  program turns random bytes into. Bytes are characters. The decoder skips carriage returns and
  line feeds and ignores the unused low bits of the last symbol, as Go's non-strict decoder does.
\<close>

section \<open>Alphabet\<close>

definition b64_sym :: "int \<Rightarrow> char" where
  "b64_sym v =
     (if v < 26 then char_of (65 + v)
      else if v < 52 then char_of (97 + (v - 26))
      else if v < 62 then char_of (48 + (v - 52))
      else if v = 62 then CHR ''-'' else CHR ''_'')"

definition b64_val :: "char \<Rightarrow> int option" where
  "b64_val c =
     (if 65 \<le> byte c \<and> byte c \<le> 90 then Some (byte c - 65)
      else if 97 \<le> byte c \<and> byte c \<le> 122 then Some (byte c - 71)
      else if 48 \<le> byte c \<and> byte c \<le> 57 then Some (byte c + 4)
      else if c = CHR ''-'' then Some 62
      else if c = CHR ''_'' then Some 63 else None)"

lemma b64_val_sym: "0 \<le> v \<Longrightarrow> v < 64 \<Longrightarrow> b64_val (b64_sym v) = Some v"
  by (auto simp: b64_val_def b64_sym_def byte_def)

section \<open>Encoding and decoding\<close>

text \<open>Three bytes as a 24-bit value, its four 6-bit digits, and the bytes back.\<close>

definition word24 :: "char \<Rightarrow> char \<Rightarrow> char \<Rightarrow> int" where
  "word24 a b c = (byte a * 256 + byte b) * 256 + byte c"

definition sextets :: "int \<Rightarrow> int list" where
  "sextets v = [v div 262144, v div 4096 mod 64, v div 64 mod 64, v mod 64]"

definition from_sextets :: "int \<Rightarrow> int \<Rightarrow> int \<Rightarrow> int \<Rightarrow> int" where
  "from_sextets w x y z = w * 262144 + x * 4096 + y * 64 + z"

definition bytes24 :: "int \<Rightarrow> string" where
  "bytes24 v = [char_of (v div 65536), char_of (v div 256 mod 256), char_of (v mod 256)]"

fun b64_encode :: "string \<Rightarrow> string" where
  "b64_encode (a # b # c # s) = map b64_sym (sextets (word24 a b c)) @ b64_encode s"
| "b64_encode [a, b] = map b64_sym (take 3 (sextets (word24 a b (CHR 0x00))))"
| "b64_encode [a] = map b64_sym (take 2 (sextets (word24 a (CHR 0x00) (CHR 0x00))))"
| "b64_encode [] = []"

fun b64_groups :: "int list \<Rightarrow> string option" where
  "b64_groups (w # x # y # z # vs) =
     map_option ((@) (bytes24 (from_sextets w x y z))) (b64_groups vs)"
| "b64_groups [w, x, y] = Some (take 2 (bytes24 (from_sextets w x y 0)))"
| "b64_groups [w, x] = Some (take 1 (bytes24 (from_sextets w x 0 0)))"
| "b64_groups [w] = None"
| "b64_groups [] = Some []"

definition b64_symbols :: "string \<Rightarrow> string" where
  "b64_symbols s = filter (\<lambda>c. byte c \<noteq> 10 \<and> byte c \<noteq> 13) s"

definition b64_decode :: "string \<Rightarrow> string option" where
  "b64_decode s =
     (let vs = map b64_val (b64_symbols s)
      in if None \<in> set vs then None else b64_groups (map the vs))"

definition hex_lower :: "int \<Rightarrow> char" where
  "hex_lower d = (if d < 10 then char_of (48 + d) else char_of (87 + d))"

definition hex_encode :: "string \<Rightarrow> string" where
  "hex_encode s = concat (map (\<lambda>c. [hex_lower (byte c div 16), hex_lower (byte c mod 16)]) s)"

section \<open>Round trip\<close>

lemma char_of_byte [simp]: "char_of (byte c) = c"
  by (simp add: byte_def)

lemma byte_bounds: "0 \<le> byte c" "byte c < 256"
proof -
  have "byte c = of_char c mod 256" by (simp add: byte_def)
  then show "0 \<le> byte c" "byte c < 256"
    by (simp_all add: byte_def) (metis of_char_mod_256 pos_mod_bound zero_less_numeral
      of_char_mod_256 pos_mod_sign)+
qed

lemma b64_sym_not_newline:
  assumes "0 \<le> v" and "v < 64"
  shows "byte (b64_sym v) \<noteq> 10 \<and> byte (b64_sym v) \<noteq> 13"
  using assms by (auto simp: b64_sym_def byte_def)

lemma word24_bounds: "0 \<le> word24 a b c" "word24 a b c < 16777216"
  using byte_bounds [of a] byte_bounds [of b] byte_bounds [of c] by (simp_all add: word24_def)

lemma sextets_range: "v \<in> set (sextets (word24 a b c)) \<Longrightarrow> 0 \<le> v \<and> v < 64"
  using word24_bounds [of a b c] by (auto simp: sextets_def)

lemma from_sextets_value:
  "from_sextets (v div 262144) (v div 4096 mod 64) (v div 64 mod 64) (v mod 64) = v"
proof -
  have q1: "v div 4096 div 64 = v div 262144" and q2: "v div 64 div 64 = v div 4096"
    by (simp_all add: zdiv_zmult2_eq [symmetric])
  have "v div 4096 = v div 262144 * 64 + v div 4096 mod 64"
    unfolding q1 [symmetric] by (rule div_mult_mod_eq [symmetric])
  moreover have "v div 64 = v div 4096 * 64 + v div 64 mod 64"
    unfolding q2 [symmetric] by (rule div_mult_mod_eq [symmetric])
  moreover have "v = v div 64 * 64 + v mod 64"
    by (rule div_mult_mod_eq [symmetric])
  ultimately show ?thesis unfolding from_sextets_def by linarith
qed

lemma base256:
  fixes q r :: int
  assumes "0 \<le> r" and "r < 256"
  shows "(q * 256 + r) div 256 = q" and "(q * 256 + r) mod 256 = r"
  using assms by auto

lemma bytes24_word24 [simp]: "bytes24 (word24 a b c) = [a, b, c]"
proof -
  let ?v = "word24 a b c"
  have hi: "?v div 256 = byte a * 256 + byte b" and lo: "?v mod 256 = byte c"
    unfolding word24_def by (rule base256 [OF byte_bounds])+
  have mid: "?v div 256 mod 256 = byte b" unfolding hi by (rule base256 [OF byte_bounds])
  have "?v div 65536 = ?v div 256 div 256" by (simp add: zdiv_zmult2_eq [symmetric])
  also have "\<dots> = byte a" unfolding hi by (rule base256 [OF byte_bounds])
  finally show ?thesis unfolding bytes24_def mid lo by simp
qed

text \<open>The digits dropped for a short tail are zero.\<close>

lemma byte_NUL [simp]: "byte (CHR 0x00) = 0"
  by (simp add: byte_def)

lemma word24_tail2: "word24 a b (CHR 0x00) mod 64 = 0"
proof -
  have "word24 a b (CHR 0x00) = (byte a * 256 + byte b) * 4 * 64" by (simp add: word24_def)
  then show ?thesis by (simp only: mod_mult_self2_is_0)
qed

lemma word24_tail1: "word24 a (CHR 0x00) (CHR 0x00) div 64 mod 64 = 0"
proof -
  have "word24 a (CHR 0x00) (CHR 0x00) = byte a * 16 * 64 * 64" by (simp add: word24_def)
  then have "word24 a (CHR 0x00) (CHR 0x00) div 64 = byte a * 16 * 64"
    by simp
  then show ?thesis by (simp only: mod_mult_self2_is_0)
qed

definition b64_vals :: "string \<Rightarrow> int list" where
  "b64_vals s = map (the \<circ> b64_val) (b64_encode s)"

lemma b64_val_syms:
  assumes "\<forall>v \<in> set vs. 0 \<le> v \<and> v < 64"
  shows "map (the \<circ> b64_val) (map b64_sym vs) = vs"
    and "map b64_val (map b64_sym vs) = map Some vs"
  using assms by (induction vs) (simp_all add: b64_val_sym)

lemma b64_encode_syms:
  "\<exists>vs. b64_encode s = map b64_sym vs \<and> (\<forall>v \<in> set vs. 0 \<le> v \<and> v < 64)"
proof (induction s rule: b64_encode.induct)
  case (1 a b c s)
  then obtain vs where "b64_encode s = map b64_sym vs" "\<forall>v \<in> set vs. 0 \<le> v \<and> v < 64"
    by blast
  then show ?case
    by (intro exI [of _ "sextets (word24 a b c) @ vs"]) (auto dest: sextets_range)
next
  case (2 a b)
  then show ?case
    by (intro exI [of _ "take 3 (sextets (word24 a b (CHR 0x00)))"])
      (auto dest!: in_set_takeD sextets_range)
next
  case (3 a)
  then show ?case
    by (intro exI [of _ "take 2 (sextets (word24 a (CHR 0x00) (CHR 0x00)))"])
      (auto dest!: in_set_takeD sextets_range)
qed simp

lemma b64_symbols_encode: "b64_symbols (b64_encode s) = b64_encode s"
proof -
  obtain vs where "b64_encode s = map b64_sym vs" "\<forall>v \<in> set vs. 0 \<le> v \<and> v < 64"
    using b64_encode_syms by blast
  then show ?thesis
    using b64_sym_not_newline by (simp add: b64_symbols_def filter_id_conv)
qed

lemma map_b64_val_encode: "map b64_val (b64_encode s) = map Some (b64_vals s)"
proof -
  obtain vs where "b64_encode s = map b64_sym vs" "\<forall>v \<in> set vs. 0 \<le> v \<and> v < 64"
    using b64_encode_syms by blast
  then show ?thesis using b64_val_syms [of vs] by (simp only: b64_vals_def)
qed

lemma b64_groups_vals: "b64_groups (b64_vals s) = Some s"
proof (induction s rule: b64_encode.induct)
  case (1 a b c s)
  have "b64_vals (a # b # c # s) = sextets (word24 a b c) @ b64_vals s"
    using b64_val_syms [of "sextets (word24 a b c)"] sextets_range
    by (simp add: b64_vals_def)
  then have "b64_groups (b64_vals (a # b # c # s)) =
      map_option ((@) (bytes24 (word24 a b c))) (b64_groups (b64_vals s))"
    by (simp only: sextets_def append_Cons append_Nil b64_groups.simps from_sextets_value)
  then show ?case by (simp add: "1.IH")
next
  case (2 a b)
  have "b64_vals [a, b] = take 3 (sextets (word24 a b (CHR 0x00)))"
    using b64_val_syms [of "take 3 (sextets (word24 a b (CHR 0x00)))"] sextets_range in_set_takeD
    by (simp add: b64_vals_def) fast
  moreover have "from_sextets (word24 a b (CHR 0x00) div 262144)
      (word24 a b (CHR 0x00) div 4096 mod 64) (word24 a b (CHR 0x00) div 64 mod 64) 0
      = word24 a b (CHR 0x00)"
    using from_sextets_value [of "word24 a b (CHR 0x00)"] by (simp only: word24_tail2)
  ultimately show ?case by (simp add: sextets_def)
next
  case (3 a)
  have tail: "word24 a (CHR 0x00) (CHR 0x00) mod 64 = 0" by (rule word24_tail2)
  have "b64_vals [a] = take 2 (sextets (word24 a (CHR 0x00) (CHR 0x00)))"
    using b64_val_syms [of "take 2 (sextets (word24 a (CHR 0x00) (CHR 0x00)))"]
      sextets_range in_set_takeD
    by (simp add: b64_vals_def) fast
  moreover have "from_sextets (word24 a (CHR 0x00) (CHR 0x00) div 262144)
      (word24 a (CHR 0x00) (CHR 0x00) div 4096 mod 64) 0 0 = word24 a (CHR 0x00) (CHR 0x00)"
    using from_sextets_value [of "word24 a (CHR 0x00) (CHR 0x00)"]
    by (simp only: word24_tail1 tail)
  ultimately show ?case by (simp add: sextets_def)
qed (simp add: b64_vals_def)

lemma b64_roundtrip [simp]: "b64_decode (b64_encode s) = Some s"
proof -
  have vals: "map b64_val (b64_symbols (b64_encode s)) = map Some (b64_vals s)"
    by (simp only: b64_symbols_encode map_b64_val_encode)
  have "None \<notin> set (map Some (b64_vals s))" by auto
  moreover have "map the (map Some (b64_vals s)) = b64_vals s" by (simp add: comp_def)
  ultimately show ?thesis
    unfolding b64_decode_def vals Let_def by (simp only: if_False b64_groups_vals)
qed

lemma b64_encode_inj: "b64_encode s = b64_encode t \<Longrightarrow> s = t"
  by (metis b64_roundtrip option.inject)

end
