(* ===== verification/Ticket.thy ===== *)
theory Ticket
  imports GoPath GoNetip GoBase64
begin

text \<open>
  The ticket manager of the daemon, \<open>daemon/internal/ticket/manager.go\<close>: short-lived bearer
  tokens that authorise one direct request (an upload, a download, a console) of a browser to the
  daemon. \<open>Manager\<close> holds two maps of pointers to the same \<open>Ticket\<close> objects, by token and by id;
  a use is counted through the pointer. The model keeps the sharing: the tickets live in a heap
  (a list that only grows) and the maps hold addresses.

  Each exported operation takes the manager's mutex, so it is one step. The clock and the random
  values an operation reads are its arguments: a time is a count of nanoseconds, a random value
  the bytes \<open>rand.Read\<close> filled in, \<open>None\<close> where it failed.
\<close>

section \<open>Data\<close>

record ticket =
  tk_id :: string
  tk_token :: string
  tk_scope :: string
  tk_instance :: string
  tk_expires :: int
  tk_max_uses :: int
  tk_sha256 :: string
  tk_version :: string
  tk_max_bytes :: int
  tk_rtype :: string
  tk_rid :: string
  tk_path :: string
  tk_paths :: "string list"
  tk_path_prefix :: bool
  tk_method :: string
  tk_operation :: string
  tk_overwrite :: bool
  tk_recursive :: bool
  tk_client_ip :: string
  tk_session :: string
  tk_uses :: int

record ticket_options =
  to_client_ip :: string
  to_session :: string

record restricted_options =
  ro_scope :: string
  ro_rtype :: string
  ro_rid :: string
  ro_path :: string
  ro_paths :: "string list"
  ro_path_prefix :: bool
  ro_method :: string
  ro_operation :: string
  ro_overwrite :: bool
  ro_recursive :: bool
  ro_max_bytes :: int
  ro_sha256 :: string
  ro_version :: string
  ro_ttl :: int
  ro_max_uses :: int
  ro_client_ip :: string
  ro_session :: string

record manager =
  heap :: "ticket list"
  by_token :: "(string, nat) gomap"
  by_id :: "(string, nat) gomap"

definition new_manager :: manager where
  "new_manager = \<lparr>heap = [], by_token = [], by_id = []\<rparr>"

definition second :: int where "second = 1000000000"

definition minute :: int where "minute = 60 * second"

section \<open>Pure helpers\<close>

definition random_value :: "string option \<Rightarrow> string option" where
  "random_value r = map_option b64_encode r"

definition normalize_client_ip :: "string \<Rightarrow> string result" where
  "normalize_client_ip value =
     (let v = trim_space value
      in if v = [] then Inr []
         else case parse_addr v of
                None \<Rightarrow> Err ''INVALID_TICKET''
              | Some a \<Rightarrow> Inr (addr_string (unmap a)))"

definition normalize_path :: "string \<Rightarrow> string result" where
  "normalize_path value =
     (let v0 = replace_char (CHR 0x5C) slash (trim_space value);
          v = (if v0 = [] then dot else v0)
      in if CHR 0x00 \<in> set v \<or> has_prefix v [slash] then Err ''PATH_ESCAPE''
         else if dotdot \<in> set (split_on slash v) then Err ''PATH_ESCAPE''
         else let clean = path_clean v
              in if clean = dotdot \<or> has_prefix clean (dotdot @ [slash]) then Err ''PATH_ESCAPE''
                 else Inr clean)"

definition validate_source :: "ticket \<Rightarrow> string \<Rightarrow> unit result" where
  "validate_source t src =
     (if tk_client_ip t = [] \<or> tk_client_ip t = src then Inr () else Err ''PERMISSION_DENIED'')"

definition ticket_path_allowed :: "ticket \<Rightarrow> string \<Rightarrow> bool" where
  "ticket_path_allowed t req \<longleftrightarrow>
     list_ex (\<lambda>allowed. allowed = req) (tk_paths t) \<or>
     (tk_path_prefix t \<and>
       (tk_path t = dot \<or> req = tk_path t \<or> has_prefix req (tk_path t @ [slash])))"

definition allows_path :: "ticket \<Rightarrow> string \<Rightarrow> bool" where
  "allows_path t req =
     (case normalize_path req of Inl _ \<Rightarrow> False | Inr clean \<Rightarrow> ticket_path_allowed t clean)"

section \<open>Operations\<close>

text \<open>\<open>removeExpiredLocked\<close>: drop every expired ticket from both maps.\<close>

definition expired :: "int \<Rightarrow> manager \<Rightarrow> nat \<Rightarrow> bool" where
  "expired now m a \<longleftrightarrow> tk_expires (heap m ! a) < now"

definition drop_entries :: "(nat \<Rightarrow> bool) \<Rightarrow> manager \<Rightarrow> manager" where
  "drop_entries p m =
     m\<lparr>by_token := filter (\<lambda>(_, a). \<not> p a) (by_token m),
       by_id := fold (\<lambda>(_, a). adel (tk_id (heap m ! a))) (filter (\<lambda>(_, a). p a) (by_token m)) (by_id m)\<rparr>"

definition remove_expired :: "int \<Rightarrow> manager \<Rightarrow> manager" where
  "remove_expired now m = drop_entries (expired now m) m"

definition create_with_options ::
  "int \<Rightarrow> string option \<Rightarrow> string option \<Rightarrow> string \<Rightarrow> string \<Rightarrow> int \<Rightarrow> int \<Rightarrow> ticket_options
    \<Rightarrow> manager \<Rightarrow> ticket result \<times> manager" where
  "create_with_options now rid rtok scope inst ttl max_uses opts m =
     (if ttl \<le> 0 \<or> 15 * minute < ttl then (Err ''INVALID_TICKET'', m)
      else
        let max_uses = (if max_uses \<le> 0 then 1 else max_uses) in
        case normalize_client_ip (to_client_ip opts) of
          Inl e \<Rightarrow> (Inl e, m)
        | Inr client_ip \<Rightarrow>
            (case random_value rid of
               None \<Rightarrow> (Err ''INTERNAL'', m)
             | Some i \<Rightarrow>
                 (case random_value rtok of
                    None \<Rightarrow> (Err ''INTERNAL'', m)
                  | Some tok \<Rightarrow>
                      let item = \<lparr>tk_id = i, tk_token = tok, tk_scope = scope, tk_instance = inst,
                            tk_expires = now + ttl, tk_max_uses = max_uses, tk_sha256 = [],
                            tk_version = [], tk_max_bytes = 0, tk_rtype = [], tk_rid = [],
                            tk_path = [], tk_paths = [], tk_path_prefix = False, tk_method = [],
                            tk_operation = [], tk_overwrite = False, tk_recursive = False,
                            tk_client_ip = client_ip, tk_session = trim_space (to_session opts),
                            tk_uses = 0\<rparr>;
                          a = length (heap m);
                          m1 = remove_expired now m;
                          m2 = m1\<lparr>heap := heap m1 @ [item],
                                  by_token := aput tok a (by_token m1),
                                  by_id := aput i a (by_id m1)\<rparr>
                      in (Inr item, m2))))"

definition create :: "int \<Rightarrow> string option \<Rightarrow> string option \<Rightarrow> string \<Rightarrow> string \<Rightarrow> int \<Rightarrow> int
    \<Rightarrow> manager \<Rightarrow> ticket result \<times> manager" where
  "create now rid rtok scope inst ttl max_uses m =
     create_with_options now rid rtok scope inst ttl max_uses
       \<lparr>to_client_ip = [], to_session = []\<rparr> m"

text \<open>
  \<open>CreateRestricted\<close> takes the mutex twice: \<open>restricted_create\<close> stores the ticket, and
  \<open>restrict_stored\<close> writes the restricted fields through \<open>byID[item.ID]\<close> without asking whether the
  entry is still there. A missing entry is a nil dereference, the result \<open>PANIC\<close>.
  \<open>create_restricted\<close> is the two halves with nothing between them.
\<close>

definition restrict_ticket :: "restricted_options \<Rightarrow> string \<Rightarrow> string list \<Rightarrow> ticket \<Rightarrow> ticket" where
  "restrict_ticket o1 clean cleans t =
     t\<lparr>tk_rtype := ro_rtype o1, tk_rid := ro_rid o1, tk_path := clean, tk_paths := cleans,
       tk_path_prefix := ro_path_prefix o1, tk_method := to_upper (ro_method o1),
       tk_operation := ro_operation o1, tk_overwrite := ro_overwrite o1,
       tk_recursive := ro_recursive o1, tk_max_bytes := ro_max_bytes o1,
       tk_sha256 := to_lower (ro_sha256 o1),
       tk_version := to_lower (trim_space (ro_version o1))\<rparr>"

definition write_ticket :: "nat \<Rightarrow> ticket \<Rightarrow> manager \<Rightarrow> manager" where
  "write_ticket a t m = m\<lparr>heap := (heap m)[a := t]\<rparr>"

definition restrict_stored :: "restricted_options \<Rightarrow> string \<Rightarrow> string list \<Rightarrow> string
    \<Rightarrow> manager \<Rightarrow> ticket result \<times> manager" where
  "restrict_stored o1 clean cleans i m =
     (case aget (by_id m) i of
        None \<Rightarrow> (Err ''PANIC'', m)
      | Some a \<Rightarrow>
          let stored = restrict_ticket o1 clean cleans (heap m ! a)
          in (Inr stored, write_ticket a stored m))"

definition restricted_paths :: "restricted_options \<Rightarrow> (string \<times> string list) result" where
  "restricted_paths o1 =
     (if ro_rtype o1 \<noteq> ''instance'' \<and> ro_rtype o1 \<noteq> ''image'' \<and> ro_rtype o1 \<noteq> ''daemon''
      then Err ''INVALID_TICKET''
      else if trim_space (ro_rid o1) = [] \<or> trim_space (ro_method o1) = []
      then Err ''INVALID_TICKET''
      else
        case normalize_path (ro_path o1) of
          Inl e \<Rightarrow> Inl e
        | Inr clean \<Rightarrow>
            (case map_result normalize_path (ro_paths o1) of
               Inl e \<Rightarrow> Inl e
             | Inr cs \<Rightarrow> Inr (clean, if cs = [] then [clean] else cs)))"

definition restricted_create :: "int \<Rightarrow> string option \<Rightarrow> string option \<Rightarrow> restricted_options
    \<Rightarrow> manager \<Rightarrow> ticket result \<times> manager" where
  "restricted_create now rid rtok o1 m =
     create_with_options now rid rtok (ro_scope o1) (ro_rid o1) (ro_ttl o1) (ro_max_uses o1)
       \<lparr>to_client_ip = ro_client_ip o1, to_session = ro_session o1\<rparr> m"

definition create_restricted :: "int \<Rightarrow> string option \<Rightarrow> string option \<Rightarrow> restricted_options
    \<Rightarrow> manager \<Rightarrow> ticket result \<times> manager" where
  "create_restricted now rid rtok o1 m =
     (case restricted_paths o1 of
        Inl e \<Rightarrow> (Inl e, m)
      | Inr (clean, cleans) \<Rightarrow>
          (case restricted_create now rid rtok o1 m of
             (Inl e, m') \<Rightarrow> (Inl e, m')
           | (Inr item, m') \<Rightarrow> restrict_stored o1 clean cleans (tk_id item) m'))"

text \<open>\<open>CreateUpload\<close> has the same two halves, and does ask: without the entry it returns the
  ticket as it was created.\<close>

definition upload_stored :: "string \<Rightarrow> int \<Rightarrow> ticket \<Rightarrow> manager \<Rightarrow> ticket \<times> manager" where
  "upload_stored sha max_bytes item m =
     (case aget (by_id m) (tk_id item) of
        None \<Rightarrow> (item, m)
      | Some a \<Rightarrow>
          let stored = (heap m ! a)\<lparr>tk_sha256 := sha, tk_max_bytes := max_bytes\<rparr>
          in (stored, write_ticket a stored m))"

definition create_upload :: "int \<Rightarrow> string option \<Rightarrow> string option \<Rightarrow> string \<Rightarrow> string \<Rightarrow> string
    \<Rightarrow> int \<Rightarrow> int \<Rightarrow> manager \<Rightarrow> ticket result \<times> manager" where
  "create_upload now rid rtok scope rsrc sha max_bytes ttl m =
     (if sha = [] \<or> max_bytes \<le> 0 then (Err ''INVALID_TICKET'', m)
      else
        case create now rid rtok scope rsrc ttl 1 m of
          (Inl e, m') \<Rightarrow> (Inl e, m')
        | (Inr item, m') \<Rightarrow> apfst Inr (upload_stored sha max_bytes item m'))"

text \<open>\<open>activeTicketLocked\<close>: the live ticket of a token; an expired one is dropped on sight.\<close>

definition active_ticket :: "int \<Rightarrow> string \<Rightarrow> manager \<Rightarrow> nat result \<times> manager" where
  "active_ticket now tok m =
     (case aget (by_token m) tok of
        None \<Rightarrow> (Err ''UNAUTHENTICATED'', m)
      | Some a \<Rightarrow>
          let item = heap m ! a
          in if tk_expires item < now
             then (Err ''TICKET_EXPIRED'',
                   m\<lparr>by_token := adel (tk_token item) (by_token m),
                     by_id := adel (tk_id item) (by_id m)\<rparr>)
             else (Inr a, m))"

definition consume_ticket :: "nat \<Rightarrow> manager \<Rightarrow> ticket result \<times> manager" where
  "consume_ticket a m =
     (let item = heap m ! a
      in if tk_max_uses item \<le> tk_uses item then (Err ''UNAUTHENTICATED'', m)
         else let item' = item\<lparr>tk_uses := tk_uses item + 1\<rparr>
              in (Inr item', write_ticket a item' m))"

definition consume_from :: "int \<Rightarrow> string \<Rightarrow> string \<Rightarrow> string \<Rightarrow> string
    \<Rightarrow> manager \<Rightarrow> ticket result \<times> manager" where
  "consume_from now tok scope inst src m =
     (case normalize_client_ip src of
        Inl e \<Rightarrow> (Inl e, m)
      | Inr client_ip \<Rightarrow>
          (case active_ticket now tok m of
             (Inl e, m') \<Rightarrow> (Inl e, m')
           | (Inr a, m') \<Rightarrow>
               let item = heap m' ! a
               in if tk_scope item \<noteq> scope \<or> tk_instance item \<noteq> inst
                  then (Err ''PERMISSION_DENIED'', m')
                  else (case validate_source item client_ip of
                          Inl e \<Rightarrow> (Inl e, m')
                        | Inr _ \<Rightarrow> consume_ticket a m')))"

definition consume :: "int \<Rightarrow> string \<Rightarrow> string \<Rightarrow> string \<Rightarrow> manager \<Rightarrow> ticket result \<times> manager" where
  "consume now tok scope inst m = consume_from now tok scope inst [] m"

definition consume_restricted_from :: "int \<Rightarrow> string \<Rightarrow> string \<Rightarrow> string \<Rightarrow> string \<Rightarrow> string
    \<Rightarrow> string \<Rightarrow> string \<Rightarrow> manager \<Rightarrow> ticket result \<times> manager" where
  "consume_restricted_from now tok scope rtype rid req meth src m =
     (case normalize_path req of
        Inl e \<Rightarrow> (Inl e, m)
      | Inr clean \<Rightarrow>
          (case normalize_client_ip src of
             Inl e \<Rightarrow> (Inl e, m)
           | Inr client_ip \<Rightarrow>
               (case active_ticket now tok m of
                  (Inl e, m') \<Rightarrow> (Inl e, m')
                | (Inr a, m') \<Rightarrow>
                    let item = heap m' ! a
                    in if tk_scope item \<noteq> scope \<or> tk_rtype item \<noteq> rtype \<or> tk_rid item \<noteq> rid \<or>
                          tk_method item \<noteq> to_upper meth \<or> \<not> ticket_path_allowed item clean
                       then (Err ''PERMISSION_DENIED'', m')
                       else (case validate_source item client_ip of
                               Inl e \<Rightarrow> (Inl e, m')
                             | Inr _ \<Rightarrow> consume_ticket a m'))))"

definition consume_restricted :: "int \<Rightarrow> string \<Rightarrow> string \<Rightarrow> string \<Rightarrow> string \<Rightarrow> string
    \<Rightarrow> string \<Rightarrow> manager \<Rightarrow> ticket result \<times> manager" where
  "consume_restricted now tok scope rtype rid req meth m =
     consume_restricted_from now tok scope rtype rid req meth [] m"

definition revoke :: "string \<Rightarrow> manager \<Rightarrow> manager" where
  "revoke i m =
     (case aget (by_id m) i of
        None \<Rightarrow> m
      | Some a \<Rightarrow>
          m\<lparr>by_id := adel (tk_id (heap m ! a)) (by_id m),
            by_token := adel (tk_token (heap m ! a)) (by_token m)\<rparr>)"

definition revoke_session :: "string \<Rightarrow> manager \<Rightarrow> manager" where
  "revoke_session sid m =
     (let s = trim_space sid
      in if s = [] then m else drop_entries (\<lambda>a. tk_session (heap m ! a) = s) m)"

end
