(* ===== verification/Ticket_Laws.thy ===== *)
theory Ticket_Laws
  imports Ticket
begin

text \<open>
  The laws of the ticket manager: the two maps always index the same set of live tickets, a
  ticket is never used more often than it allows, and what a successful use, a revocation and an
  expiry guarantee.
\<close>

section \<open>Paths\<close>

definition unescape :: "string \<Rightarrow> string" where
  "unescape value =
     (let v = replace_char (CHR 0x5C) slash (trim_space value) in if v = [] then dot else v)"

definition escapes :: "string \<Rightarrow> bool" where
  "escapes v \<longleftrightarrow> CHR 0x00 \<in> set v \<or> is_abs v \<or> dotdot \<in> set (split_on slash v)"

lemma confined_no_escape: "confined p \<Longrightarrow> p \<noteq> dotdot \<and> \<not> has_prefix p (dotdot @ [slash])"
proof -
  assume "confined p"
  then have no: "dotdot \<notin> set (split_on slash p)" by (rule confined_no_dotdot)
  have dd: "split_on slash dotdot = [dotdot]" by (simp add: dotdot_def slash_def)
  have "\<not> prefix [dotdot] (split_on slash p)" using no by (auto simp: prefix_def)
  then show ?thesis using no by (auto simp: has_prefix_slash_iff dd strict_prefix_def)
qed

lemma normalize_path_eq:
  "normalize_path value =
     (if escapes (unescape value) then Err ''PATH_ESCAPE'' else Inr (path_clean (unescape value)))"
proof (cases "escapes (unescape value)")
  case True
  then show ?thesis
    by (auto simp: normalize_path_def unescape_def escapes_def is_abs_def Let_def)
next
  case False
  then have "confined (path_clean (unescape value))"
    by (intro path_clean_confined(1)) (simp_all add: escapes_def)
  from confined_no_escape [OF this] show ?thesis
    using False by (auto simp: normalize_path_def unescape_def escapes_def is_abs_def Let_def)
qed

lemma normalize_path_confined:
  assumes "normalize_path q = Inr p"
  shows "confined p" and "elems p = filter plain_name (split_on slash (unescape q))"
  using assms path_clean_confined [of "unescape q"]
  by (auto simp: normalize_path_eq escapes_def split: if_splits)

text \<open>On confined paths the string test of a prefix ticket is containment of element lists.\<close>

lemma allowed_prefix:
  assumes a: "confined a" and r: "confined r"
  shows "(a = dot \<or> r = a \<or> has_prefix r (a @ [slash])) \<longleftrightarrow> prefix (elems a) (elems r)"
proof (cases "a = dot \<or> r = dot")
  case True
  have "\<not> has_prefix dot (a @ [slash])"
    by (cases a) (auto simp: has_prefix_def dot_def slash_def)
  then show ?thesis using True by (auto simp: elems_def)
next
  case False
  have "split_on slash r = split_on slash a \<longleftrightarrow> r = a" by (metis join_split)
  then show ?thesis
    using False by (auto simp: elems_def has_prefix_slash_iff strict_prefix_def)
qed

section \<open>The index invariant\<close>

text \<open>A ticket is used within its limit, and what paths it grants are confined.\<close>

definition paths_ok :: "ticket \<Rightarrow> bool" where
  "paths_ok t \<longleftrightarrow> list_all confined (tk_paths t) \<and> (tk_path_prefix t \<longrightarrow> confined (tk_path t))"

definition ticket_ok :: "ticket \<Rightarrow> bool" where
  "ticket_ok t \<longleftrightarrow>
     0 \<le> tk_uses t \<and> tk_uses t \<le> tk_max_uses t \<and> 1 \<le> tk_max_uses t \<and> paths_ok t"

text \<open>Both maps index exactly the live addresses \<open>L\<close>.\<close>

definition indexed :: "nat set \<Rightarrow> manager \<Rightarrow> bool" where
  "indexed L m \<longleftrightarrow>
     L \<subseteq> {..<length (heap m)} \<and>
     (\<forall>t a. aget (by_token m) t = Some a \<longleftrightarrow> a \<in> L \<and> tk_token (heap m ! a) = t) \<and>
     (\<forall>i a. aget (by_id m) i = Some a \<longleftrightarrow> a \<in> L \<and> tk_id (heap m ! a) = i)"

definition mgr_inv :: "manager \<Rightarrow> bool" where
  "mgr_inv m \<longleftrightarrow>
     awf (by_token m) \<and> list_all ticket_ok (heap m) \<and>
     distinct (map tk_token (heap m)) \<and> distinct (map tk_id (heap m)) \<and> (\<exists>L. indexed L m)"

lemma mgr_invE:
  assumes "mgr_inv m"
  obtains L where "indexed L m" "awf (by_token m)" "list_all ticket_ok (heap m)"
    "distinct (map tk_token (heap m))" "distinct (map tk_id (heap m))"
  using assms by (auto simp: mgr_inv_def)

lemma indexed_live: "indexed L m \<Longrightarrow> a \<in> L \<Longrightarrow> a < length (heap m)"
  by (auto simp: indexed_def)

lemma indexed_token: "indexed L m \<Longrightarrow> aget (by_token m) t = Some a \<longleftrightarrow> a \<in> L \<and> tk_token (heap m ! a) = t"
  by (simp add: indexed_def)

lemma indexed_id: "indexed L m \<Longrightarrow> aget (by_id m) i = Some a \<longleftrightarrow> a \<in> L \<and> tk_id (heap m ! a) = i"
  by (simp add: indexed_def)

lemma indexed_id_inj:
  assumes "indexed L m" and "a \<in> L" and "b \<in> L" and "tk_id (heap m ! a) = tk_id (heap m ! b)"
  shows "a = b"
proof -
  have "aget (by_id m) (tk_id (heap m ! a)) = Some a"
    and "aget (by_id m) (tk_id (heap m ! b)) = Some b"
    using assms(2,3) by (simp_all add: indexed_id [OF assms(1)])
  then show ?thesis by (metis assms(4) option.inject)
qed

lemma indexed_token_inj:
  assumes "indexed L m" and "a \<in> L" and "b \<in> L" and "tk_token (heap m ! a) = tk_token (heap m ! b)"
  shows "a = b"
proof -
  have "aget (by_token m) (tk_token (heap m ! a)) = Some a"
    and "aget (by_token m) (tk_token (heap m ! b)) = Some b"
    using assms(2,3) by (simp_all add: indexed_token [OF assms(1)])
  then show ?thesis by (metis assms(4) option.inject)
qed

text \<open>Dropping the live entries that satisfy \<open>p\<close>.\<close>

lemma drop_entries_heap [simp]: "heap (drop_entries p m) = heap m"
  by (simp add: drop_entries_def)

lemma fold_adel_map: "fold (\<lambda>(_, a). adel (f a)) xs m = fold adel (map (f \<circ> snd) xs) m"
  by (induction xs arbitrary: m) auto

lemma aget_by_token_drop:
  assumes "awf (by_token m)"
  shows "aget (by_token (drop_entries p m)) t =
    (case aget (by_token m) t of None \<Rightarrow> None | Some a \<Rightarrow> if p a then None else Some a)"
  using assms by (simp add: drop_entries_def aget_filter split: option.splits)

lemma filtered_Some_iff:
  "(case x of None \<Rightarrow> None | Some a \<Rightarrow> if p a then None else Some a) = Some b \<longleftrightarrow> x = Some b \<and> \<not> p b"
  by (auto split: option.splits)

lemma aget_by_id_drop:
  assumes wf: "awf (by_token m)" and ix: "indexed L m"
  shows "aget (by_id (drop_entries p m)) i =
    (if \<exists>a \<in> L. p a \<and> tk_id (heap m ! a) = i then None else aget (by_id m) i)"
proof -
  have live: "(t, a) \<in> set (by_token m) \<longleftrightarrow> a \<in> L \<and> tk_token (heap m ! a) = t" for t a
    using aget_Some_iff [OF wf, of t a] indexed_token [OF ix, of t a] by simp
  have "set (map ((\<lambda>a. tk_id (heap m ! a)) \<circ> snd) (filter (\<lambda>(_, a). p a) (by_token m)))
      = {tk_id (heap m ! a) |a. a \<in> L \<and> p a}"
    using live by (force simp: image_iff)
  moreover have "by_id (drop_entries p m) = fold adel
      (map ((\<lambda>a. tk_id (heap m ! a)) \<circ> snd) (filter (\<lambda>(_, a). p a) (by_token m))) (by_id m)"
    by (simp add: drop_entries_def fold_adel_map)
  ultimately show ?thesis
    unfolding gomap.get_fold_del by (auto simp: gomap.get_fold_del)
qed

lemma indexed_drop:
  assumes "awf (by_token m)" and "indexed L m"
  shows "indexed {a \<in> L. \<not> p a} (drop_entries p m)"
  unfolding indexed_def
proof (intro conjI allI)
  show "{a \<in> L. \<not> p a} \<subseteq> {..<length (heap (drop_entries p m))}"
    using assms(2) by (auto simp: indexed_def)
  show "aget (by_token (drop_entries p m)) t = Some a \<longleftrightarrow>
      a \<in> {a \<in> L. \<not> p a} \<and> tk_token (heap (drop_entries p m) ! a) = t" for t a
    by (auto simp: aget_by_token_drop [OF assms(1)] filtered_Some_iff indexed_token [OF assms(2)])
  show "aget (by_id (drop_entries p m)) i = Some a \<longleftrightarrow>
      a \<in> {a \<in> L. \<not> p a} \<and> tk_id (heap (drop_entries p m) ! a) = i" for i a
    using indexed_id [OF assms(2), of i] indexed_id_inj [OF assms(2)]
    by (auto simp: aget_by_id_drop [OF assms])
qed

lemma mgr_inv_drop: "mgr_inv m \<Longrightarrow> mgr_inv (drop_entries p m)"
  unfolding mgr_inv_def using indexed_drop
  by (fastforce simp: drop_entries_def intro: awf_filter)

text \<open>Adding a ticket with a fresh token and a fresh id.\<close>

definition add_ticket :: "ticket \<Rightarrow> manager \<Rightarrow> manager" where
  "add_ticket t m =
     m\<lparr>heap := heap m @ [t], by_token := aput (tk_token t) (length (heap m)) (by_token m),
       by_id := aput (tk_id t) (length (heap m)) (by_id m)\<rparr>"

lemma indexed_add:
  assumes ix: "indexed L m" and ft: "tk_token t \<notin> tk_token ` set (heap m)"
    and fi: "tk_id t \<notin> tk_id ` set (heap m)"
  shows "indexed (insert (length (heap m)) L) (add_ticket t m)"
proof -
  have bound: "a \<in> L \<Longrightarrow> a < length (heap m)" for a using ix by (rule indexed_live)
  have nt: "a \<in> L \<Longrightarrow> tk_token (heap m ! a) \<noteq> tk_token t" for a
    using ft bound by (metis image_eqI nth_mem)
  have ni: "a \<in> L \<Longrightarrow> tk_id (heap m ! a) \<noteq> tk_id t" for a
    using fi bound by (metis image_eqI nth_mem)
  have at: "a \<in> L \<Longrightarrow> (heap m @ [t]) ! a = heap m ! a" for a
    using bound by (simp add: nth_append)
  have "length (heap m) \<notin> L" using bound by blast
  then show ?thesis
    unfolding indexed_def using bound nt ni at indexed_token [OF ix] indexed_id [OF ix]
    by (auto simp: add_ticket_def aget_aput less_Suc_eq)
qed

lemma mgr_inv_add:
  assumes "mgr_inv m" and "ticket_ok t" and "tk_token t \<notin> tk_token ` set (heap m)"
    and "tk_id t \<notin> tk_id ` set (heap m)"
  shows "mgr_inv (add_ticket t m)"
proof -
  from assms(1) obtain L where "indexed L m" by (rule mgr_invE)
  from indexed_add [OF this assms(3,4)] show ?thesis
    using assms by (auto simp: mgr_inv_def add_ticket_def awf_aput)
qed

text \<open>Writing a ticket back under the same token and id, and deleting one.\<close>

lemma nth_update_same:
  assumes "f x = f (xs ! a)" and "b < length xs"
  shows "f (xs[a := x] ! b) = f (xs ! b)"
  using assms by (cases "a = b") simp_all

lemma map_update_same:
  assumes "f x = f (xs ! a)"
  shows "map f (xs[a := x]) = map f xs"
  by (rule nth_equalityI) (simp_all add: nth_update_same [OF assms])

lemma indexed_write:
  assumes ix: "indexed L m" and tok: "tk_token t = tk_token (heap m ! a)"
    and id: "tk_id t = tk_id (heap m ! a)"
  shows "indexed L (write_ticket a t m)"
proof -
  have "b \<in> L \<Longrightarrow> tk_token ((heap m)[a := t] ! b) = tk_token (heap m ! b)" for b
    by (rule nth_update_same [OF tok indexed_live [OF ix]])
  moreover have "b \<in> L \<Longrightarrow> tk_id ((heap m)[a := t] ! b) = tk_id (heap m ! b)" for b
    by (rule nth_update_same [OF id indexed_live [OF ix]])
  ultimately show ?thesis
    using ix by (auto simp: indexed_def write_ticket_def)
qed

lemma mgr_inv_write:
  assumes "mgr_inv m" and "ticket_ok t"
    and "tk_token t = tk_token (heap m ! a)" and "tk_id t = tk_id (heap m ! a)"
  shows "mgr_inv (write_ticket a t m)"
proof -
  from assms(1) obtain L where "indexed L m" by (rule mgr_invE)
  from indexed_write [OF this assms(3,4)] show ?thesis
    using assms map_update_same [of tk_token t "heap m" a] map_update_same [of tk_id t "heap m" a]
      set_update_subset_insert [of "heap m" a t]
    by (auto simp: mgr_inv_def write_ticket_def list_all_iff)
qed

definition forget :: "nat \<Rightarrow> manager \<Rightarrow> manager" where
  "forget a m =
     m\<lparr>by_token := adel (tk_token (heap m ! a)) (by_token m),
       by_id := adel (tk_id (heap m ! a)) (by_id m)\<rparr>"

lemma indexed_forget:
  assumes "indexed L m" and "a \<in> L"
  shows "indexed (L - {a}) (forget a m)"
  using assms indexed_id_inj [OF assms(1)] indexed_token_inj [OF assms(1)]
  by (auto simp: indexed_def forget_def aget_adel)

lemma mgr_inv_forget:
  assumes "mgr_inv m" and "\<And>L. indexed L m \<Longrightarrow> a \<in> L"
  shows "mgr_inv (forget a m)"
proof -
  from assms(1) obtain L where ix: "indexed L m" by (rule mgr_invE)
  from indexed_forget [OF ix assms(2) [OF ix]] show ?thesis
    using assms(1) by (auto simp: mgr_inv_def forget_def awf_adel)
qed

section \<open>The manager as a machine\<close>

text \<open>
  One step per critical section. \<open>Create\<close> is the section of \<open>CreateWithOptions\<close>, which the two
  other creations share; \<open>RestrictStored\<close> and \<open>UploadStored\<close> are their second sections, which may
  run at any later time, after any number of other operations.
\<close>

datatype ticket_op =
    Create int "string option" "string option" string string int int ticket_options
  | RestrictStored restricted_options string "string list" string
  | UploadStored string int ticket
  | Consume int string string string string
  | ConsumeRestricted int string string string string string string string
  | Revoke string
  | RevokeSession string

text \<open>An operation's result (none for the two revocations) and the manager after it.\<close>

fun ticket_apply :: "manager \<Rightarrow> ticket_op \<Rightarrow> ticket result option \<times> manager" where
  "ticket_apply m (Create now rid rtok scope inst ttl mx opts) =
     apfst Some (create_with_options now rid rtok scope inst ttl mx opts m)"
| "ticket_apply m (RestrictStored o1 clean cleans i) =
     apfst Some (restrict_stored o1 clean cleans i m)"
| "ticket_apply m (UploadStored sha mx item) =
     apfst (Some \<circ> Inr) (upload_stored sha mx item m)"
| "ticket_apply m (Consume now tok scope inst src) =
     apfst Some (consume_from now tok scope inst src m)"
| "ticket_apply m (ConsumeRestricted now tok scope rtype rid req meth src) =
     apfst Some (consume_restricted_from now tok scope rtype rid req meth src m)"
| "ticket_apply m (Revoke i) = (None, revoke i m)"
| "ticket_apply m (RevokeSession sid) = (None, revoke_session sid m)"

definition ticket_step :: "manager \<Rightarrow> ticket_op \<Rightarrow> manager" where
  "ticket_step m x = snd (ticket_apply m x)"

text \<open>
  The environment's part: the random id and token of a creation were never drawn before (they have
  128 and 256 bits); and \<open>CreateRestricted\<close> reaches its second section with the paths it normalised.
\<close>

definition fresh_values :: "manager \<Rightarrow> string option \<Rightarrow> string option \<Rightarrow> bool" where
  "fresh_values m rid rtok \<longleftrightarrow>
     (case random_value rid of None \<Rightarrow> True | Some i \<Rightarrow> i \<notin> tk_id ` set (heap m)) \<and>
     (case random_value rtok of None \<Rightarrow> True | Some t \<Rightarrow> t \<notin> tk_token ` set (heap m))"

fun ticket_permitted :: "manager \<Rightarrow> ticket_op \<Rightarrow> bool" where
  "ticket_permitted m (Create _ rid rtok _ _ _ _ _) = fresh_values m rid rtok"
| "ticket_permitted m (RestrictStored o1 clean cleans _) =
     (restricted_paths o1 = Inr (clean, cleans))"
| "ticket_permitted m _ = True"

section \<open>Each operation in terms of the primitive changes\<close>

text \<open>A creation fails and changes nothing, or purges and adds one unused ticket.\<close>

lemma create_with_options_cases:
  obtains (Fail) e where "create_with_options now rid rtok scope inst ttl mx opts m = (Inl e, m)"
  | (Ok) t where "create_with_options now rid rtok scope inst ttl mx opts m
        = (Inr t, add_ticket t (remove_expired now m))"
      and "tk_uses t = 0" and "1 \<le> tk_max_uses t" and "paths_ok t"
      and "random_value rid = Some (tk_id t)" and "random_value rtok = Some (tk_token t)"
      and "tk_expires t = now + ttl" and "0 < ttl" and "ttl \<le> 15 * minute"
      and "tk_scope t = scope" and "tk_instance t = inst"
      and "tk_session t = trim_space (to_session opts)"
      and "normalize_client_ip (to_client_ip opts) = Inr (tk_client_ip t)"
proof (cases "fst (create_with_options now rid rtok scope inst ttl mx opts m)")
  case (Inl e)
  then have "create_with_options now rid rtok scope inst ttl mx opts m = (Inl e, m)"
    by (auto simp: create_with_options_def Let_def split: if_splits sum.splits option.splits)
  then show ?thesis by (rule Fail)
next
  case (Inr t)
  then show ?thesis
    by (intro Ok [of t])
      (auto simp: create_with_options_def Let_def add_ticket_def remove_expired_def paths_ok_def
         split: if_splits sum.splits option.splits)
qed

lemma mgr_inv_create_with_options:
  assumes "mgr_inv m" and "fresh_values m rid rtok"
  shows "mgr_inv (snd (create_with_options now rid rtok scope inst ttl mx opts m))"
proof (cases rule: create_with_options_cases
    [of now rid rtok scope inst ttl mx opts m, case_names Fail Ok])
  case (Fail e)
  then show ?thesis using assms(1) by simp
next
  case (Ok t)
  have "mgr_inv (remove_expired now m)"
    unfolding remove_expired_def by (rule mgr_inv_drop [OF assms(1)])
  then have "mgr_inv (add_ticket t (remove_expired now m))"
    using Ok assms(2)
    by (intro mgr_inv_add) (auto simp: ticket_ok_def fresh_values_def remove_expired_def)
  then show ?thesis using Ok by simp
qed

lemma added_entry [simp]:
  "aget (by_id (add_ticket t m)) (tk_id t) = Some (length (heap m))"
  "heap (add_ticket t m) ! length (heap m) = t"
  "heap (add_ticket t m) = heap m @ [t]"
  by (simp_all add: add_ticket_def aget_aput)

lemma remove_expired_heap [simp]: "heap (remove_expired now m) = heap m"
  by (simp add: remove_expired_def)

lemma restrict_ticket_simps [simp]:
  "tk_id (restrict_ticket o1 c cs t) = tk_id t"
  "tk_token (restrict_ticket o1 c cs t) = tk_token t"
  "tk_uses (restrict_ticket o1 c cs t) = tk_uses t"
  "tk_max_uses (restrict_ticket o1 c cs t) = tk_max_uses t"
  "tk_session (restrict_ticket o1 c cs t) = tk_session t"
  "tk_expires (restrict_ticket o1 c cs t) = tk_expires t"
  by (simp_all add: restrict_ticket_def)

text \<open>A successful use increments the counter of the token's live ticket and nothing else.\<close>

lemma active_ticket_cases:
  assumes "indexed L m"
  obtains (Unknown) "active_ticket now tok m = (Err ''UNAUTHENTICATED'', m)"
      and "aget (by_token m) tok = None"
  | (Expired) a where "active_ticket now tok m = (Err ''TICKET_EXPIRED'', forget a m)"
      and "a \<in> L" and "tk_token (heap m ! a) = tok" and "tk_expires (heap m ! a) < now"
  | (Active) a where "active_ticket now tok m = (Inr a, m)"
      and "a \<in> L" and "tk_token (heap m ! a) = tok" and "now \<le> tk_expires (heap m ! a)"
proof (cases "aget (by_token m) tok")
  case None
  then show ?thesis by (intro Unknown) (simp_all add: active_ticket_def)
next
  case (Some a)
  have "a \<in> L" and tok: "tk_token (heap m ! a) = tok"
    using Some indexed_token [OF assms] by auto
  show ?thesis
  proof (cases "tk_expires (heap m ! a) < now")
    case True
    show ?thesis
      by (rule Expired [of a])
        (use Some True tok \<open>a \<in> L\<close> in \<open>simp_all add: active_ticket_def forget_def Let_def\<close>)
  next
    case False
    show ?thesis
      by (rule Active [of a])
        (use Some False tok \<open>a \<in> L\<close> in \<open>simp_all add: active_ticket_def Let_def\<close>)
  qed
qed

definition used :: "nat \<Rightarrow> manager \<Rightarrow> ticket" where
  "used a m = (heap m ! a)\<lparr>tk_uses := tk_uses (heap m ! a) + 1\<rparr>"

lemma used_simps [simp]:
  "tk_id (used a m) = tk_id (heap m ! a)" "tk_token (used a m) = tk_token (heap m ! a)"
  "tk_uses (used a m) = tk_uses (heap m ! a) + 1"
  "tk_max_uses (used a m) = tk_max_uses (heap m ! a)"
  "paths_ok (used a m) = paths_ok (heap m ! a)"
  by (simp_all add: used_def paths_ok_def)

lemma consume_ticket_Inr:
  "consume_ticket a m = (Inr t, m') \<longleftrightarrow>
     tk_uses (heap m ! a) < tk_max_uses (heap m ! a) \<and> t = used a m \<and> m' = write_ticket a (used a m) m"
  by (auto simp: consume_ticket_def used_def Let_def)

lemma consume_ticket_Inl: "consume_ticket a m = (Inl e, m') \<Longrightarrow> m' = m"
  by (auto simp: consume_ticket_def Let_def split: if_splits)

text \<open>How a use can end: refused, with at most an expired ticket dropped, or granted.\<close>

definition refused :: "nat set \<Rightarrow> manager \<Rightarrow> manager \<Rightarrow> bool" where
  "refused L m m' \<longleftrightarrow> m' = m \<or> (\<exists>a \<in> L. m' = forget a m)"

definition granted :: "nat set \<Rightarrow> int \<Rightarrow> string \<Rightarrow> string \<Rightarrow> manager \<Rightarrow> nat \<Rightarrow> bool" where
  "granted L now tok src m a \<longleftrightarrow>
     a \<in> L \<and> tk_token (heap m ! a) = tok \<and> now \<le> tk_expires (heap m ! a) \<and>
     tk_uses (heap m ! a) < tk_max_uses (heap m ! a) \<and>
     (tk_client_ip (heap m ! a) = [] \<or> normalize_client_ip src = Inr (tk_client_ip (heap m ! a)))"

lemma consume_from_Inl:
  assumes "indexed L m" and "consume_from now tok scope inst src m = (Inl e, m')"
  shows "refused L m m'"
  using assms
  by (cases rule: active_ticket_cases [OF assms(1), of now tok, case_names Unknown Expired Active])
    (auto simp: consume_from_def refused_def Let_def dest: consume_ticket_Inl
       split: sum.splits if_splits)

lemma consume_from_Inr:
  assumes "indexed L m" and "consume_from now tok scope inst src m = (Inr t, m')"
  shows "\<exists>a. granted L now tok src m a \<and> tk_scope (heap m ! a) = scope \<and>
    tk_instance (heap m ! a) = inst \<and> t = used a m \<and> m' = write_ticket a t m"
  using assms
  by (cases rule: active_ticket_cases [OF assms(1), of now tok, case_names Unknown Expired Active])
    (auto simp: consume_from_def granted_def validate_source_def consume_ticket_Inr Let_def
       split: sum.splits if_splits)

lemma consume_restricted_from_Inl:
  assumes "indexed L m"
    and "consume_restricted_from now tok scope rtype rid req meth src m = (Inl e, m')"
  shows "refused L m m'"
  using assms
  by (cases rule: active_ticket_cases [OF assms(1), of now tok, case_names Unknown Expired Active])
    (auto simp: consume_restricted_from_def refused_def Let_def dest: consume_ticket_Inl
       split: sum.splits if_splits)

lemma consume_restricted_from_Inr:
  assumes "indexed L m"
    and "consume_restricted_from now tok scope rtype rid req meth src m = (Inr t, m')"
  shows "\<exists>a clean. granted L now tok src m a \<and> normalize_path req = Inr clean \<and>
    tk_scope (heap m ! a) = scope \<and> tk_rtype (heap m ! a) = rtype \<and>
    tk_rid (heap m ! a) = rid \<and> tk_method (heap m ! a) = to_upper meth \<and>
    ticket_path_allowed (heap m ! a) clean \<and> t = used a m \<and> m' = write_ticket a t m"
  using assms
  by (cases rule: active_ticket_cases [OF assms(1), of now tok, case_names Unknown Expired Active])
    (auto simp: consume_restricted_from_def granted_def validate_source_def consume_ticket_Inr Let_def
       split: sum.splits if_splits)

section \<open>The invariant of the machine\<close>

lemma mgr_inv_new: "mgr_inv new_manager"
proof -
  have "indexed {} new_manager" by (simp add: indexed_def new_manager_def)
  then show ?thesis by (auto simp: mgr_inv_def new_manager_def)
qed

lemma mgr_inv_refused:
  assumes "mgr_inv m" and "\<And>L. indexed L m \<Longrightarrow> refused L m m'"
  shows "mgr_inv m'"
proof -
  from assms(1) obtain L where ix: "indexed L m" by (rule mgr_invE)
  from assms(2) [OF ix] consider "m' = m" | a where "a \<in> L" "m' = forget a m"
    by (auto simp: refused_def)
  then show ?thesis
  proof cases
    case 1
    then show ?thesis using assms(1) by simp
  next
    case (2 a)
    from indexed_forget [OF ix 2(1)] show ?thesis
      using assms(1) 2(2) by (auto simp: mgr_inv_def forget_def awf_adel)
  qed
qed

lemma mgr_inv_used:
  assumes "mgr_inv m" and "granted L now tok src m a" and "indexed L m"
  shows "mgr_inv (write_ticket a (used a m) m)"
proof (rule mgr_inv_write [OF assms(1)])
  have "a < length (heap m)"
    using assms(2,3) by (auto simp: granted_def intro: indexed_live)
  then have "ticket_ok (heap m ! a)"
    using assms(1) by (auto simp: mgr_inv_def list_all_length)
  then show "ticket_ok (used a m)"
    using assms(2) by (auto simp: ticket_ok_def granted_def)
qed simp_all

lemma mgr_inv_revoke: "mgr_inv m \<Longrightarrow> mgr_inv (revoke i m)"
proof -
  assume inv: "mgr_inv m"
  then obtain L where ix: "indexed L m" by (rule mgr_invE)
  show ?thesis
  proof (cases "aget (by_id m) i")
    case None
    then show ?thesis using inv by (simp add: revoke_def)
  next
    case (Some a)
    then have "revoke i m = forget a m"
      by (simp add: revoke_def forget_def)
    moreover have "a \<in> L" using Some by (simp add: indexed_id [OF ix])
    ultimately show ?thesis
      using inv Some by (auto intro!: mgr_inv_forget simp: indexed_id)
  qed
qed

lemma mgr_inv_rewrite:
  assumes inv: "mgr_inv m" and live: "aget (by_id m) i = Some a"
    and same: "tk_token t = tk_token (heap m ! a)" "tk_id t = tk_id (heap m ! a)"
      "tk_uses t = tk_uses (heap m ! a)" "tk_max_uses t = tk_max_uses (heap m ! a)"
    and paths: "paths_ok (heap m ! a) \<Longrightarrow> paths_ok t"
  shows "mgr_inv (write_ticket a t m)"
proof (rule mgr_inv_write [OF inv _ same(1,2)])
  from inv obtain L where ix: "indexed L m" by (rule mgr_invE)
  have "a < length (heap m)" using live indexed_id [OF ix] indexed_live [OF ix] by blast
  then have "ticket_ok (heap m ! a)" using inv by (auto simp: mgr_inv_def list_all_length)
  then show "ticket_ok t" using same paths by (simp add: ticket_ok_def)
qed

lemma restricted_paths_confined:
  assumes "restricted_paths o1 = Inr (clean, cleans)"
  shows "confined clean" and "\<forall>p \<in> set cleans. confined p" and "normalize_path (ro_path o1) = Inr clean"
proof -
  from assms obtain cs where *: "normalize_path (ro_path o1) = Inr clean"
    "map_result normalize_path (ro_paths o1) = Inr cs" "cleans = (if cs = [] then [clean] else cs)"
    by (auto simp: restricted_paths_def split: if_splits sum.splits)
  show "confined clean" by (rule normalize_path_confined [OF *(1)])
  show "normalize_path (ro_path o1) = Inr clean" by (rule *(1))
  show "\<forall>p \<in> set cleans. confined p"
    using *(1,3) map_result_set [OF *(2)] normalize_path_confined(1) by auto
qed

lemma mgr_inv_restrict_stored:
  assumes "mgr_inv m" and "restricted_paths o1 = Inr (clean, cleans)"
  shows "mgr_inv (snd (restrict_stored o1 clean cleans i m))"
proof -
  have "paths_ok (restrict_ticket o1 clean cleans t)" for t
    using restricted_paths_confined [OF assms(2)]
    by (simp add: restrict_ticket_def paths_ok_def list_all_iff)
  then show ?thesis
    using assms(1) mgr_inv_rewrite [OF assms(1)]
    by (auto simp: restrict_stored_def Let_def split: option.splits)
qed

lemma mgr_inv_upload_stored:
  assumes "mgr_inv m"
  shows "mgr_inv (snd (upload_stored sha mx item m))"
  using assms mgr_inv_rewrite [OF assms]
  by (auto simp: upload_stored_def paths_ok_def Let_def split: option.splits)

lemma mgr_inv_consume_from:
  assumes inv: "mgr_inv m"
  shows "mgr_inv (snd (consume_from now tok scope inst src m))"
proof -
  from inv obtain L where ix: "indexed L m" by (rule mgr_invE)
  obtain r m' where r: "consume_from now tok scope inst src m = (r, m')" by fastforce
  show ?thesis
  proof (cases r)
    case (Inl e)
    have "mgr_inv m'"
      by (rule mgr_inv_refused [OF inv]) (rule consume_from_Inl [OF _ r [unfolded Inl]])
    then show ?thesis by (simp add: r)
  next
    case (Inr t)
    with consume_from_Inr [OF ix r [unfolded Inr]] mgr_inv_used [OF inv _ ix]
    show ?thesis by (auto simp: r)
  qed
qed

lemma mgr_inv_consume_restricted_from:
  assumes inv: "mgr_inv m"
  shows "mgr_inv (snd (consume_restricted_from now tok scope rtype rid req meth src m))"
proof -
  from inv obtain L where ix: "indexed L m" by (rule mgr_invE)
  obtain r m' where r: "consume_restricted_from now tok scope rtype rid req meth src m = (r, m')"
    by fastforce
  show ?thesis
  proof (cases r)
    case (Inl e)
    have "mgr_inv m'"
      by (rule mgr_inv_refused [OF inv]) (rule consume_restricted_from_Inl [OF _ r [unfolded Inl]])
    then show ?thesis by (simp add: r)
  next
    case (Inr t)
    with consume_restricted_from_Inr [OF ix r [unfolded Inr]] mgr_inv_used [OF inv _ ix]
    show ?thesis by (auto simp: r)
  qed
qed

lemmas mgr_inv_ops =
  mgr_inv_create_with_options mgr_inv_restrict_stored mgr_inv_upload_stored mgr_inv_consume_from
  mgr_inv_consume_restricted_from mgr_inv_revoke mgr_inv_drop

lemma mgr_inv_step: "mgr_inv m \<Longrightarrow> ticket_permitted m x \<Longrightarrow> mgr_inv (ticket_step m x)"
  by (cases x) (simp_all add: ticket_step_def revoke_session_def Let_def mgr_inv_ops)

interpretation tickets: safe_machine "\<lambda>m. m = new_manager" ticket_permitted ticket_step mgr_inv
  by unfold_locales (auto intro: mgr_inv_new mgr_inv_step)

end
