(* ===== verification/Ticket_Props.thy ===== *)
theory Ticket_Props
  imports Ticket_Laws
begin

text \<open>
  The properties of the ticket manager over whole runs: how the heap changes in a step, the use
  limit, what a granted use is worth, and that a revoked or expired ticket stays unusable.
\<close>

section \<open>What a step does to the tickets\<close>

text \<open>The token an operation was granted a use of, if it was.\<close>

fun used_token :: "manager \<Rightarrow> ticket_op \<Rightarrow> string option" where
  "used_token m (Consume now tok scope inst src) =
     (case fst (consume_from now tok scope inst src m) of Inl _ \<Rightarrow> None | Inr _ \<Rightarrow> Some tok)"
| "used_token m (ConsumeRestricted now tok scope rtype rid req meth src) =
     (case fst (consume_restricted_from now tok scope rtype rid req meth src m) of
        Inl _ \<Rightarrow> None | Inr _ \<Rightarrow> Some tok)"
| "used_token m _ = None"

fun successes :: "string \<Rightarrow> manager \<Rightarrow> ticket_op list \<Rightarrow> int" where
  "successes tok m [] = 0"
| "successes tok m (x # xs) =
     (if used_token m x = Some tok then 1 else 0) + successes tok (ticket_step m x) xs"

definition same_ticket :: "ticket \<Rightarrow> ticket \<Rightarrow> bool" where
  "same_ticket t u \<longleftrightarrow>
     tk_token t = tk_token u \<and> tk_id t = tk_id u \<and> tk_uses t = tk_uses u \<and>
     tk_max_uses t = tk_max_uses u \<and> tk_session t = tk_session u \<and> tk_expires t = tk_expires u"

inductive heap_change :: "manager \<Rightarrow> string option \<Rightarrow> manager \<Rightarrow> bool" where
  same: "heap m' = heap m \<Longrightarrow> heap_change m None m'"
| new: "heap m' = heap m @ [t] \<Longrightarrow> tk_uses t = 0 \<Longrightarrow> tk_token t \<notin> tk_token ` set (heap m) \<Longrightarrow>
    heap_change m None m'"
| rewrite: "heap m' = (heap m)[a := t] \<Longrightarrow> a < length (heap m) \<Longrightarrow> same_ticket t (heap m ! a) \<Longrightarrow>
    heap_change m None m'"
| use: "heap m' = (heap m)[a := used a m] \<Longrightarrow> a < length (heap m) \<Longrightarrow>
    heap_change m (Some (tk_token (heap m ! a))) m'"

lemma refused_heap: "refused L m m' \<Longrightarrow> heap m' = heap m"
  by (auto simp: refused_def forget_def)

lemma heap_change_consume:
  assumes ix: "indexed L m"
  shows "heap_change m (used_token m (Consume now tok scope inst src))
           (snd (consume_from now tok scope inst src m))"
proof -
  obtain r m' where r: "consume_from now tok scope inst src m = (r, m')" by fastforce
  show ?thesis
  proof (cases r)
    case (Inl e)
    with refused_heap [OF consume_from_Inl [OF ix r [unfolded Inl]]] show ?thesis
      by (simp add: r same)
  next
    case (Inr t)
    from consume_from_Inr [OF ix r [unfolded Inr]] obtain a
      where g: "granted L now tok src m a" and "m' = write_ticket a (used a m) m" by blast
    moreover from g have "a < length (heap m)" "tk_token (heap m ! a) = tok"
      using indexed_live [OF ix] by (auto simp: granted_def)
    ultimately show ?thesis using use [of m' m a] by (simp add: r Inr write_ticket_def)
  qed
qed

lemma heap_change_consume_restricted:
  assumes ix: "indexed L m"
  shows "heap_change m (used_token m (ConsumeRestricted now tok scope rtype rid req meth src))
           (snd (consume_restricted_from now tok scope rtype rid req meth src m))"
proof -
  obtain r m' where r: "consume_restricted_from now tok scope rtype rid req meth src m = (r, m')"
    by fastforce
  show ?thesis
  proof (cases r)
    case (Inl e)
    with refused_heap [OF consume_restricted_from_Inl [OF ix r [unfolded Inl]]] show ?thesis
      by (simp add: r same)
  next
    case (Inr t)
    from consume_restricted_from_Inr [OF ix r [unfolded Inr]] obtain a
      where g: "granted L now tok src m a" and "m' = write_ticket a (used a m) m" by blast
    moreover from g have "a < length (heap m)" "tk_token (heap m ! a) = tok"
      using indexed_live [OF ix] by (auto simp: granted_def)
    ultimately show ?thesis using use [of m' m a] by (simp add: r Inr write_ticket_def)
  qed
qed

lemma heap_change_write:
  assumes "indexed L m" and "aget (by_id m) i = Some a" and "same_ticket t (heap m ! a)"
  shows "heap_change m None (write_ticket a t m)"
  using assms indexed_live [OF assms(1)] indexed_id [OF assms(1)]
  by (intro rewrite [of _ _ a t]) (auto simp: write_ticket_def)

lemma revoke_heap [simp]: "heap (revoke i m) = heap m"
  by (simp add: revoke_def split: option.split)

lemma revoke_session_heap [simp]: "heap (revoke_session s m) = heap m"
  by (simp add: revoke_session_def Let_def)

lemma heap_change_create:
  assumes "fresh_values m rid rtok"
  shows "heap_change m None (snd (create_with_options now rid rtok scope inst ttl mx opts m))"
proof (cases rule: create_with_options_cases
    [of now rid rtok scope inst ttl mx opts m, case_names Fail Ok])
  case (Fail e)
  then show ?thesis by (simp add: same)
next
  case (Ok t)
  with assms show ?thesis by (intro new [of _ _ t]) (simp_all add: fresh_values_def)
qed

lemma heap_change_step:
  assumes inv: "mgr_inv m" and perm: "ticket_permitted m x"
  shows "heap_change m (used_token m x) (ticket_step m x)"
proof -
  from inv obtain L where ix: "indexed L m" by (rule mgr_invE)
  show ?thesis
  proof (cases x)
    case (RestrictStored o1 clean cleans i)
    then show ?thesis
      using heap_change_write [OF ix, of i] same [of m m]
      by (auto simp: ticket_step_def restrict_stored_def Let_def same_ticket_def split: option.split)
  next
    case (UploadStored sha mx item)
    then show ?thesis
      using heap_change_write [OF ix, of "tk_id item"] same [of m m]
      by (auto simp: ticket_step_def upload_stored_def Let_def same_ticket_def split: option.split)
  qed (use perm in \<open>simp_all add: ticket_step_def heap_change_create heap_change_consume [OF ix]
        heap_change_consume_restricted [OF ix] same del: used_token.simps(1,2)\<close>)
qed

section \<open>The use limit\<close>

text \<open>The uses counted on the tickets with a given token.\<close>

definition uses_of :: "string \<Rightarrow> ticket list \<Rightarrow> int" where
  "uses_of tok ts = sum_list (map (\<lambda>t. if tk_token t = tok then tk_uses t else 0) ts)"

lemma uses_of_update:
  "a < length ts \<Longrightarrow> tk_token t = tk_token (ts ! a) \<Longrightarrow>
     uses_of tok (ts[a := t]) =
       uses_of tok ts + (if tk_token t = tok then tk_uses t - tk_uses (ts ! a) else 0)"
proof (induction ts arbitrary: a)
  case (Cons u ts)
  then show ?case by (cases a) (simp_all add: uses_of_def)
qed (simp add: uses_of_def)

lemma uses_of_change:
  "heap_change m u m' \<Longrightarrow>
     uses_of tok (heap m') = uses_of tok (heap m) + (if u = Some tok then 1 else 0)"
  by (induction rule: heap_change.induct)
    (auto simp: uses_of_update same_ticket_def, simp_all add: uses_of_def)

lemma successes_uses:
  "mgr_inv m \<Longrightarrow> run_permitted ticket_permitted ticket_step m xs \<Longrightarrow>
     uses_of tok (heap (run_steps ticket_step m xs)) = uses_of tok (heap m) + successes tok m xs"
proof (induction xs arbitrary: m)
  case (Cons x xs)
  then have "heap_change m (used_token m x) (ticket_step m x)" and "mgr_inv (ticket_step m x)"
    by (simp_all add: heap_change_step mgr_inv_step)
  with Cons show ?case by (simp add: uses_of_change)
qed simp

lemma uses_of_distinct:
  "distinct (map tk_token ts) \<Longrightarrow> t \<in> set ts \<Longrightarrow> uses_of (tk_token t) ts = tk_uses t"
proof (induction ts)
  case (Cons u ts)
  have other: "tok \<notin> tk_token ` set ts \<Longrightarrow> uses_of tok ts = 0" for tok
    unfolding uses_of_def by (induction ts) auto
  from Cons.prems consider "t = u" "tk_token u \<notin> tk_token ` set ts"
    | "t \<in> set ts" "tk_token u \<noteq> tk_token t" by (auto simp: rev_image_eqI)
  then show ?case
    using Cons other [of "tk_token u"] by cases (simp_all add: uses_of_def)
qed simp

text \<open>A ticket keeps its token, limit, session and expiry for good.\<close>

definition fixed_part :: "ticket \<Rightarrow> string \<times> int \<times> string \<times> int" where
  "fixed_part t = (tk_token t, tk_max_uses t, tk_session t, tk_expires t)"

lemma fixed_part_change:
  "heap_change m u m' \<Longrightarrow> fixed_part ` set (heap m) \<subseteq> fixed_part ` set (heap m')"
proof (induction rule: heap_change.induct)
  case (rewrite m' m a t)
  then have "map fixed_part (heap m') = map fixed_part (heap m)"
    by (simp add: map_update_same fixed_part_def same_ticket_def)
  then show ?case by (metis list.set_map order_refl)
next
  case (use m' m a)
  then have "map fixed_part (heap m') = map fixed_part (heap m)"
    by (simp add: map_update_same fixed_part_def used_def)
  then show ?case by (metis list.set_map order_refl)
qed auto

lemma fixed_part_run:
  "mgr_inv m \<Longrightarrow> run_permitted ticket_permitted ticket_step m xs \<Longrightarrow>
     fixed_part ` set (heap m) \<subseteq> fixed_part ` set (heap (run_steps ticket_step m xs))"
proof (induction xs arbitrary: m)
  case (Cons x xs)
  then have "heap_change m (used_token m x) (ticket_step m x)" and "mgr_inv (ticket_step m x)"
    by (simp_all add: heap_change_step mgr_inv_step)
  with Cons fixed_part_change show ?case by fastforce
qed simp

lemma successes_limit:
  assumes inv: "mgr_inv m" and run: "run_permitted ticket_permitted ticket_step m xs"
    and t: "t \<in> set (heap m)"
  shows "tk_uses t + successes (tk_token t) m xs \<le> tk_max_uses t"
proof -
  let ?m = "run_steps ticket_step m xs"
  have inv': "mgr_inv ?m" by (rule tickets.run_inv_from [OF inv run])
  from fixed_part_run [OF inv run] t obtain t' where t': "t' \<in> set (heap ?m)"
    "tk_token t' = tk_token t" "tk_max_uses t' = tk_max_uses t"
    by (force simp: fixed_part_def)
  have "uses_of (tk_token t) (heap m) = tk_uses t" and "uses_of (tk_token t) (heap ?m) = tk_uses t'"
    using inv inv' t t' uses_of_distinct [of "heap ?m" t'] by (auto simp: mgr_inv_def uses_of_distinct)
  then have "tk_uses t + successes (tk_token t) m xs = tk_uses t'"
    using successes_uses [OF inv run, of "tk_token t"] by simp
  also have "\<dots> \<le> tk_max_uses t" using inv' t' by (auto simp: mgr_inv_def list_all_iff ticket_ok_def)
  finally show ?thesis .
qed

section \<open>Dead tokens\<close>

text \<open>A token that was issued and is no longer indexed is never indexed or used again.\<close>

definition dead :: "string \<Rightarrow> manager \<Rightarrow> bool" where
  "dead tok m \<longleftrightarrow> tok \<in> tk_token ` set (heap m) \<and> aget (by_token m) tok = None"

lemma dead_unused:
  assumes "dead tok m" shows "used_token m x \<noteq> Some tok"
  using assms
  by (cases x) (auto simp: dead_def consume_from_def consume_restricted_from_def active_ticket_def
      split: sum.splits)

lemma adel_None: "aget m k = None \<Longrightarrow> aget (adel k' m) k = None"
  by (simp add: aget_adel)

lemma drop_None:
  "aget (by_token m) tok = None \<Longrightarrow> aget (by_token (drop_entries p m)) tok = None"
  by (auto simp: drop_entries_def aget_None_iff)

lemma refused_None:
  "refused L m m' \<Longrightarrow> aget (by_token m) tok = None \<Longrightarrow> aget (by_token m') tok = None"
  by (auto simp: refused_def forget_def adel_None)

lemma consume_None:
  assumes "aget (by_token m) tok = None"
  shows "aget (by_token (snd (consume_from now tok' scope inst src m))) tok = None"
    and "aget (by_token (snd (consume_restricted_from now tok' scope rtype rid req meth src m))) tok = None"
  using assms
  by (auto simp: consume_from_def consume_restricted_from_def active_ticket_def consume_ticket_def
      write_ticket_def Let_def adel_None split: sum.splits option.splits if_splits)

lemma create_None:
  assumes "dead tok m" and "fresh_values m rid rtok"
  shows "aget (by_token (snd (create_with_options now rid rtok scope inst ttl mx opts m))) tok = None"
proof (cases rule: create_with_options_cases
    [of now rid rtok scope inst ttl mx opts m, case_names Fail Ok])
  case (Fail e)
  then show ?thesis using assms by (simp add: dead_def)
next
  case (Ok t)
  have "tok \<in> tk_token ` set (heap m)" and "tk_token t \<notin> tk_token ` set (heap m)"
    using assms Ok by (simp_all add: dead_def fresh_values_def)
  then have "tok \<noteq> tk_token t" by metis
  then show ?thesis
    using assms(1) Ok by (simp add: dead_def add_ticket_def aget_aput remove_expired_def drop_None)
qed

lemma dead_step:
  assumes inv: "mgr_inv m" and perm: "ticket_permitted m x" and dead: "dead tok m"
  shows "dead tok (ticket_step m x)"
proof -
  have "aget (by_token (ticket_step m x)) tok = None"
    using perm dead create_None [OF dead]
    by (cases x) (auto simp: dead_def ticket_step_def restrict_stored_def upload_stored_def Let_def
        write_ticket_def revoke_def revoke_session_def adel_None drop_None consume_None
        split: option.splits)
  moreover have "tok \<in> tk_token ` set (heap (ticket_step m x))"
    using fixed_part_change [OF heap_change_step [OF inv perm]] dead
    by (force simp: dead_def fixed_part_def)
  ultimately show ?thesis by (simp add: dead_def)
qed

lemma dead_run:
  "mgr_inv m \<Longrightarrow> run_permitted ticket_permitted ticket_step m xs \<Longrightarrow> dead tok m \<Longrightarrow>
     successes tok m xs = 0"
proof (induction xs arbitrary: m)
  case (Cons x xs)
  then have "dead tok (ticket_step m x)" and "mgr_inv (ticket_step m x)"
    by (simp_all add: dead_step mgr_inv_step)
  with Cons dead_unused [OF Cons.prems(3), of x] show ?case by simp
qed simp

lemma revoke_dead:
  assumes inv: "mgr_inv m" and t: "t \<in> set (heap m)"
  shows "dead (tk_token t) (revoke (tk_id t) m)"
proof -
  from inv obtain L where ix: "indexed L m" by (rule mgr_invE)
  have live: "a < length (heap m) \<Longrightarrow> tk_token (heap m ! a) = tk_token t \<Longrightarrow> heap m ! a = t" for a
    using inv t by (auto simp: mgr_inv_def distinct_map inj_on_def)
  have "aget (by_token (revoke (tk_id t) m)) (tk_token t) = None"
  proof (cases "aget (by_token m) (tk_token t)")
    case None
    then show ?thesis by (simp add: revoke_def adel_None split: option.split)
  next
    case (Some a)
    then have "a \<in> L" "heap m ! a = t"
      using indexed_token [OF ix] indexed_live [OF ix] live by auto
    then have "aget (by_id m) (tk_id t) = Some a" by (simp add: indexed_id [OF ix])
    then show ?thesis using \<open>heap m ! a = t\<close> by (simp add: revoke_def aget_adel)
  qed
  then show ?thesis using t by (simp add: dead_def)
qed

lemma revoke_session_dead:
  assumes inv: "mgr_inv m" and t: "t \<in> set (heap m)" "tk_session t = trim_space s" "trim_space s \<noteq> []"
  shows "dead (tk_token t) (revoke_session s m)"
proof -
  from inv obtain L where ix: "indexed L m" and wf: "awf (by_token m)" by (rule mgr_invE)
  have live: "a < length (heap m) \<Longrightarrow> tk_token (heap m ! a) = tk_token t \<Longrightarrow> heap m ! a = t" for a
    using inv t by (auto simp: mgr_inv_def distinct_map inj_on_def)
  have "heap m ! a = t" if "aget (by_token m) (tk_token t) = Some a" for a
    using that live indexed_token [OF ix] indexed_live [OF ix] by auto
  then have "aget (by_token (revoke_session s m)) (tk_token t) = None"
    using t by (auto simp: revoke_session_def Let_def aget_by_token_drop [OF wf] split: option.split)
  then show ?thesis using t by (simp add: dead_def)
qed

section \<open>Properties\<close>

lemma reachable_inv:
  "run_permitted ticket_permitted ticket_step new_manager xs \<Longrightarrow>
     mgr_inv (run_steps ticket_step new_manager xs)"
  by (rule tickets.run_inv) simp

lemma created_in_heap:
  assumes "fst (create_with_options now rid rtok scope inst ttl mx opts m) = Inr t"
  shows "t \<in> set (heap (snd (create_with_options now rid rtok scope inst ttl mx opts m)))"
    and "tk_uses t = 0"
  using assms
  by (cases rule: create_with_options_cases
      [of now rid rtok scope inst ttl mx opts m, case_names Fail Ok]; simp)+

text \<open>
  C1: a ticket is never granted more uses than it allows. Take any history of the manager from its
  creation, in which random values never repeat, and any ticket created in it: over everything
  that happens afterwards (uses of either kind from any source, further creations, the delayed
  second halves of restricted creations, revocations), the operations that presented its token
  and were granted number at most its limit.
\<close>

theorem ticket_use_limit:
  assumes "run_permitted ticket_permitted ticket_step new_manager
      (xs @ Create now rid rtok scope inst ttl mx opts # ys)"
    and "m = run_steps ticket_step new_manager xs"
    and "create_with_options now rid rtok scope inst ttl mx opts m = (Inr t, m')"
  shows "successes (tk_token t) m' ys \<le> tk_max_uses t"
proof -
  from assms have perm: "ticket_permitted m (Create now rid rtok scope inst ttl mx opts)"
    and m': "m' = ticket_step m (Create now rid rtok scope inst ttl mx opts)"
    and run: "run_permitted ticket_permitted ticket_step m' ys" and inv: "mgr_inv m"
    by (auto simp: run_permitted_append ticket_step_def reachable_inv)
  have "mgr_inv m'" unfolding m' by (rule mgr_inv_step [OF inv perm])
  from successes_limit [OF this run, of t]
  show ?thesis using created_in_heap [of now rid rtok scope inst ttl mx opts m t] assms(3) by simp
qed

text \<open>
  C2: what a granted restricted use proves. When \<open>ConsumeRestrictedFrom\<close> succeeds in any reachable
  manager, the token is that of one ticket that has not expired, has a use left, was made for
  this scope, resource and method, and for any source or for this very one; the request path
  normalises to a path without \<open>..\<close> or absolute parts that is one of the ticket's paths or, for a
  prefix ticket, lies under its directory element by element; and the result is that ticket with
  one more use counted.
\<close>

theorem restricted_use_sound:
  assumes run: "run_permitted ticket_permitted ticket_step new_manager xs"
    and m: "m = run_steps ticket_step new_manager xs"
    and use: "consume_restricted_from now tok scope rtype rid req meth src m = (Inr t, m')"
  shows "\<exists>u \<in> set (heap m). \<exists>p. tk_token u = tok \<and> now \<le> tk_expires u \<and> tk_uses u < tk_max_uses u \<and>
    tk_scope u = scope \<and> tk_rtype u = rtype \<and> tk_rid u = rid \<and> tk_method u = to_upper meth \<and>
    (tk_client_ip u = [] \<or> normalize_client_ip src = Inr (tk_client_ip u)) \<and>
    normalize_path req = Inr p \<and> confined p \<and>
    (p \<in> set (tk_paths u) \<or> tk_path_prefix u \<and> prefix (elems (tk_path u)) (elems p)) \<and>
    t = u\<lparr>tk_uses := tk_uses u + 1\<rparr>"
proof -
  have inv: "mgr_inv m" unfolding m by (rule reachable_inv [OF run])
  then obtain L where ix: "indexed L m" by (rule mgr_invE)
  from consume_restricted_from_Inr [OF ix use] obtain a p where
    g: "granted L now tok src m a" and p: "normalize_path req = Inr p"
    and ok: "ticket_path_allowed (heap m ! a) p" and t: "t = used a m"
    and eqs: "tk_scope (heap m ! a) = scope" "tk_rtype (heap m ! a) = rtype"
      "tk_rid (heap m ! a) = rid" "tk_method (heap m ! a) = to_upper meth" by blast
  let ?u = "heap m ! a"
  have u: "?u \<in> set (heap m)" using g indexed_live [OF ix] by (auto simp: granted_def)
  with inv have "paths_ok ?u" by (simp add: mgr_inv_def list_all_iff ticket_ok_def)
  with ok allowed_prefix [of "tk_path ?u" p] normalize_path_confined(1) [OF p]
  have "p \<in> set (tk_paths ?u) \<or> tk_path_prefix ?u \<and> prefix (elems (tk_path ?u)) (elems p)"
    by (auto simp: ticket_path_allowed_def paths_ok_def list_ex_iff)
  with g p eqs normalize_path_confined(1) [OF p] u show ?thesis
    unfolding t used_def granted_def by blast
qed

text \<open>
  a plain use is sound in the same way. When \<open>ConsumeFrom\<close> succeeds the token is that of one
  live ticket of this scope and instance with a use left, and its source is right; a refusal
  never counts a use: every ticket is as it was.
\<close>

theorem plain_use_sound:
  assumes run: "run_permitted ticket_permitted ticket_step new_manager xs"
    and m: "m = run_steps ticket_step new_manager xs"
    and use: "consume_from now tok scope inst src m = (r, m')"
  shows "(\<forall>t. r = Inr t \<longrightarrow> (\<exists>u \<in> set (heap m). tk_token u = tok \<and> now \<le> tk_expires u \<and>
      tk_uses u < tk_max_uses u \<and> tk_scope u = scope \<and> tk_instance u = inst \<and>
      (tk_client_ip u = [] \<or> normalize_client_ip src = Inr (tk_client_ip u)) \<and>
      t = u\<lparr>tk_uses := tk_uses u + 1\<rparr>)) \<and>
    (\<forall>e. r = Inl e \<longrightarrow> heap m' = heap m)"
proof -
  have inv: "mgr_inv m" unfolding m by (rule reachable_inv [OF run])
  then obtain L where ix: "indexed L m" by (rule mgr_invE)
  show ?thesis
  proof (intro conjI allI impI)
    fix t assume "r = Inr t"
    with consume_from_Inr [OF ix, of now tok scope inst src t m'] use obtain a
      where g: "granted L now tok src m a" and eqs: "tk_scope (heap m ! a) = scope"
        "tk_instance (heap m ! a) = inst" and t: "t = used a m" by blast
    have "heap m ! a \<in> set (heap m)" using g indexed_live [OF ix] by (auto simp: granted_def)
    with g eqs show "\<exists>u \<in> set (heap m). tk_token u = tok \<and> now \<le> tk_expires u \<and>
      tk_uses u < tk_max_uses u \<and> tk_scope u = scope \<and> tk_instance u = inst \<and>
      (tk_client_ip u = [] \<or> normalize_client_ip src = Inr (tk_client_ip u)) \<and>
      t = u\<lparr>tk_uses := tk_uses u + 1\<rparr>"
      unfolding t used_def granted_def by blast
  next
    fix e assume "r = Inl e"
    with consume_from_Inl [OF ix, of now tok scope inst src e m'] use
    show "heap m' = heap m" using refused_heap by blast
  qed
qed

text \<open>
  revoking a session is final. After \<open>RevokeSession(s)\<close> no ticket created for session \<open>s\<close> is ever
  granted again, whatever runs afterwards.
\<close>

theorem revoke_session_final:
  assumes "run_permitted ticket_permitted ticket_step new_manager (xs @ RevokeSession s # ys)"
    and "m = run_steps ticket_step new_manager xs"
    and "t \<in> set (heap m)" and "tk_session t = trim_space s" and "trim_space s \<noteq> []"
  shows "successes (tk_token t) (revoke_session s m) ys = 0"
proof -
  from assms have inv: "mgr_inv m"
    and run: "run_permitted ticket_permitted ticket_step (revoke_session s m) ys"
    by (auto simp: run_permitted_append reachable_inv ticket_step_def)
  have "mgr_inv (revoke_session s m)"
    using inv by (simp add: revoke_session_def Let_def mgr_inv_drop)
  from dead_run [OF this run revoke_session_dead [OF inv assms(3-5)]] show ?thesis .
qed

text \<open>revoking a ticket by its id is final: its token is never granted again.\<close>

theorem revoke_final:
  assumes "run_permitted ticket_permitted ticket_step new_manager (xs @ Revoke (tk_id t) # ys)"
    and "m = run_steps ticket_step new_manager xs" and "t \<in> set (heap m)"
  shows "successes (tk_token t) (revoke (tk_id t) m) ys = 0"
proof -
  from assms have inv: "mgr_inv m"
    and run: "run_permitted ticket_permitted ticket_step (revoke (tk_id t) m) ys"
    by (auto simp: run_permitted_append reachable_inv ticket_step_def)
  from dead_run [OF mgr_inv_revoke [OF inv] run revoke_dead [OF inv assms(3)]] show ?thesis .
qed

text \<open>
  \<open>normalizePath\<close> in full. A value is refused exactly when, trimmed and with back slashes
  turned, it holds a NUL byte, is absolute or has a \<open>..\<close> element; otherwise the result is a
  confined path whose elements are the ordinary names of the value in their order.
\<close>

theorem normalize_path_spec:
  "(escapes (unescape q) \<and> normalize_path q = Err ''PATH_ESCAPE'') \<or>
   (\<not> escapes (unescape q) \<and>
     (\<exists>p. normalize_path q = Inr p \<and> confined p \<and>
          elems p = filter plain_name (split_on slash (unescape q))))"
  using normalize_path_confined [of q] by (auto simp: normalize_path_eq)

lemma create_restricted_Inr:
  assumes "create_restricted now rid rtok o1 m = (Inr t, m')"
  obtains u clean cleans where "restricted_paths o1 = Inr (clean, cleans)"
    and "create_with_options now rid rtok (ro_scope o1) (ro_rid o1) (ro_ttl o1) (ro_max_uses o1)
      \<lparr>to_client_ip = ro_client_ip o1, to_session = ro_session o1\<rparr> m
      = (Inr u, add_ticket u (remove_expired now m))"
    and "t = restrict_ticket o1 clean cleans u" and "tk_uses u = 0" and "1 \<le> tk_max_uses u"
    and "tk_scope u = ro_scope o1"
    and "m' = write_ticket (length (heap m)) t (add_ticket u (remove_expired now m))"
proof -
  let ?c = "create_with_options now rid rtok (ro_scope o1) (ro_rid o1) (ro_ttl o1) (ro_max_uses o1)
      \<lparr>to_client_ip = ro_client_ip o1, to_session = ro_session o1\<rparr> m"
  from assms obtain clean cleans where p: "restricted_paths o1 = Inr (clean, cleans)"
    by (auto simp: create_restricted_def split: sum.splits)
  show thesis
  proof (cases rule: create_with_options_cases [of now rid rtok "ro_scope o1" "ro_rid o1" "ro_ttl o1"
        "ro_max_uses o1" "\<lparr>to_client_ip = ro_client_ip o1, to_session = ro_session o1\<rparr>" m,
        case_names Fail Ok])
    case (Fail e)
    with assms p show thesis by (simp add: create_restricted_def restricted_create_def)
  next
    case (Ok u)
    with assms p added_entry(1,2) [of u "remove_expired now m"]
    have "t = restrict_ticket o1 clean cleans u"
      "m' = write_ticket (length (heap m)) t (add_ticket u (remove_expired now m))"
      by (auto simp: create_restricted_def restricted_create_def restrict_stored_def Let_def)
    with p Ok show thesis by (intro that) auto
  qed
qed

text \<open>
  a restricted ticket works. The ticket \<open>CreateRestricted\<close> returns in any reachable manager is
  granted to a request that presents its token before it expires, for its scope, resource and
  method, from an allowed source and for one of its paths.
\<close>

theorem restricted_ticket_works:
  assumes run: "run_permitted ticket_permitted ticket_step new_manager xs"
    and m: "m = run_steps ticket_step new_manager xs"
    and fresh: "fresh_values m rid rtok"
    and made: "create_restricted now rid rtok o1 m = (Inr t, m')"
    and time: "now' \<le> tk_expires t"
    and path: "normalize_path req = Inr p" "p \<in> set (tk_paths t)"
    and meth: "to_upper meth = to_upper (ro_method o1)"
    and ip: "normalize_client_ip src = Inr ip" "tk_client_ip t = [] \<or> tk_client_ip t = ip"
  shows "fst (consume_restricted_from now' (tk_token t) (ro_scope o1) (ro_rtype o1) (ro_rid o1)
      req meth src m') = Inr (t\<lparr>tk_uses := 1\<rparr>)"
  using made
proof (cases rule: create_restricted_Inr)
  case (1 u clean cleans)
  have at: "heap m' ! length (heap m) = t" using 1 by (simp add: write_ticket_def)
  have "aget (by_token m') (tk_token t) = Some (length (heap m))"
    using 1 by (simp add: write_ticket_def add_ticket_def aget_aput)
  then have "active_ticket now' (tk_token t) m' = (Inr (length (heap m)), m')"
    using time by (simp add: active_ticket_def at)
  moreover have "ticket_path_allowed t p"
    using path by (auto simp: ticket_path_allowed_def list_ex_iff)
  moreover have "validate_source t ip = Inr ()" using ip by (auto simp: validate_source_def)
  moreover have "tk_scope t = ro_scope o1" "tk_rtype t = ro_rtype o1" "tk_rid t = ro_rid o1"
    "tk_method t = to_upper meth" "tk_uses t = 0" "1 \<le> tk_max_uses t"
    using 1 meth by (simp_all add: restrict_ticket_def)
  ultimately show ?thesis
    using path(1) ip(1) by (simp add: consume_restricted_from_def at consume_ticket_def Let_def)
qed

text \<open>
  C40: the gap between the two halves of \<open>CreateRestricted\<close>. If the session a restricted ticket is
  being created for is revoked after the ticket is stored and before its fields are written (a
  log-out that meets a request for a ticket), the second half dereferences a nil pointer, while
  the second half of \<open>CreateUpload\<close> in the same place returns normally.
\<close>

theorem revoke_between_halves_panics:
  assumes run: "run_permitted ticket_permitted ticket_step new_manager xs"
    and m: "m = run_steps ticket_step new_manager xs" and fresh: "fresh_values m rid rtok"
    and made: "create_with_options now rid rtok scope inst ttl mx opts m = (Inr t, m')"
    and s: "trim_space s = tk_session t" "tk_session t \<noteq> []"
  shows "fst (restrict_stored o1 clean cleans (tk_id t) (revoke_session s m')) = Err ''PANIC'' \<and>
    fst (upload_stored sha mb t (revoke_session s m')) = t"
proof -
  have inv: "mgr_inv m'"
    using mgr_inv_create_with_options [OF reachable_inv [OF run], of rid rtok now scope inst ttl mx opts]
      fresh made m by simp
  have t: "t \<in> set (heap m')"
    using created_in_heap(1) [of now rid rtok scope inst ttl mx opts m t] made by simp
  from inv obtain L where ix: "indexed L m'" and wf: "awf (by_token m')" by (rule mgr_invE)
  have only: "a < length (heap m') \<Longrightarrow> tk_id (heap m' ! a) = tk_id t \<Longrightarrow> heap m' ! a = t" for a
    using inv t by (auto simp: mgr_inv_def distinct_map inj_on_def)
  have "aget (by_id (revoke_session s m')) (tk_id t) = None"
  proof (cases "aget (by_id m') (tk_id t)")
    case None
    then show ?thesis
      using s by (simp add: revoke_session_def aget_by_id_drop [OF wf ix])
  next
    case (Some a)
    then have "a \<in> L" "heap m' ! a = t" using indexed_id [OF ix] indexed_live [OF ix] only by auto
    then show ?thesis
      using s by (auto simp: revoke_session_def aget_by_id_drop [OF wf ix])
  qed
  then show ?thesis
    by (simp add: restrict_stored_def upload_stored_def)
qed

section \<open>Instances\<close>

text \<open>A small history on which the properties are exercised.\<close>

definition opts_ex :: ticket_options where
  "opts_ex = \<lparr>to_client_ip = ''127.0.0.1'', to_session = ''s1''\<rparr>"

definition create_ex :: ticket_op where
  "create_ex = Create 0 (Some ''abc'') (Some ''xyz'') ''console'' ''i1'' minute 1 opts_ex"

definition ticket_ex :: ticket where
  "ticket_ex = \<lparr>tk_id = ''YWJj'', tk_token = ''eHl6'', tk_scope = ''console'', tk_instance = ''i1'',
     tk_expires = minute, tk_max_uses = 1, tk_sha256 = [], tk_version = [], tk_max_bytes = 0,
     tk_rtype = [], tk_rid = [], tk_path = [], tk_paths = [], tk_path_prefix = False,
     tk_method = [], tk_operation = [], tk_overwrite = False, tk_recursive = False,
     tk_client_ip = ''127.0.0.1'', tk_session = ''s1'', tk_uses = 0\<rparr>"

definition manager_ex :: manager where
  "manager_ex = \<lparr>heap = [ticket_ex], by_token = [(''eHl6'', 0)], by_id = [(''YWJj'', 0)]\<rparr>"

lemma create_ex_run:
  "create_with_options 0 (Some ''abc'') (Some ''xyz'') ''console'' ''i1'' minute 1 opts_ex new_manager
     = (Inr ticket_ex, manager_ex)"
  by code_simp

lemma create_ex_permitted: "ticket_permitted new_manager create_ex"
  by code_simp

lemma ex_permitted:
  "fresh_values new_manager (Some ''abc'') (Some ''xyz'')"
  by code_simp

lemma ex_step:
  "run_steps ticket_step new_manager [create_ex] = manager_ex"
  by (simp add: create_ex_def ticket_step_def create_ex_run)

definition use_ex :: ticket_op where
  "use_ex = Consume 1 ''eHl6'' ''console'' ''i1'' ''::ffff:127.0.0.1''"

lemma ticket_use_limit_witness:
  "successes ''eHl6'' manager_ex [use_ex, use_ex, use_ex] \<le> 1 \<and>
   successes ''eHl6'' manager_ex [use_ex, use_ex, use_ex] = 1"
proof
  show "successes ''eHl6'' manager_ex [use_ex, use_ex, use_ex] \<le> 1"
    using ticket_use_limit [of "[]" 0 "Some ''abc''" "Some ''xyz''" "''console''" "''i1''" minute 1
        opts_ex "[use_ex, use_ex, use_ex]" new_manager ticket_ex manager_ex]
      create_ex_run ex_permitted
    by (simp add: use_ex_def ticket_ex_def)
  show "successes ''eHl6'' manager_ex [use_ex, use_ex, use_ex] = 1" by code_simp
qed

definition restricted_ex :: restricted_options where
  "restricted_ex = \<lparr>ro_scope = ''file'', ro_rtype = ''instance'', ro_rid = ''i1'', ro_path = ''world'' @ [CHR 0x5C],
     ro_paths = [], ro_path_prefix = True, ro_method = ''put'', ro_operation = ''o'',
     ro_overwrite = False, ro_recursive = False, ro_max_bytes = 10, ro_sha256 = [], ro_version = [],
     ro_ttl = minute, ro_max_uses = 0, ro_client_ip = [], ro_session = ''s1''\<rparr>"

definition restricted_run_ex :: "ticket_op list" where
  "restricted_run_ex =
     [Create 0 (Some ''abc'') (Some ''xyz'') ''file'' ''i1'' minute 0
        \<lparr>to_client_ip = [], to_session = ''s1''\<rparr>,
      RestrictStored restricted_ex ''world'' [''world''] ''YWJj'']"

lemma restricted_run_permitted:
  "run_permitted ticket_permitted ticket_step new_manager restricted_run_ex"
proof -
  have "restricted_paths restricted_ex = Inr (''world'', [''world''])" by code_simp
  then show ?thesis using ex_permitted by (simp add: restricted_run_ex_def)
qed

lemma restricted_use_sound_witness:
  "\<exists>t m'. consume_restricted_from 1 ''eHl6'' ''file'' ''instance'' ''i1'' ''world/./region'' ''PUT'' []
       (run_steps ticket_step new_manager restricted_run_ex) = (Inr t, m') \<and>
     (\<exists>u \<in> set (heap (run_steps ticket_step new_manager restricted_run_ex)). \<exists>p. tk_token u = ''eHl6'' \<and>
        normalize_path ''world/./region'' = Inr p \<and> confined p \<and>
        (p \<in> set (tk_paths u) \<or> tk_path_prefix u \<and> prefix (elems (tk_path u)) (elems p)))"
proof -
  let ?m = "run_steps ticket_step new_manager restricted_run_ex"
  let ?r = "consume_restricted_from 1 ''eHl6'' ''file'' ''instance'' ''i1'' ''world/./region'' ''PUT'' [] ?m"
  have "\<not> Option.is_none (case fst ?r of Inl _ \<Rightarrow> None | Inr t \<Rightarrow> Some t)" by code_simp
  then obtain t where "fst ?r = Inr t" by (auto split: sum.splits)
  then obtain m' where r: "?r = (Inr t, m')" by (cases ?r) auto
  from restricted_use_sound [OF restricted_run_permitted refl r] r show ?thesis by blast
qed

lemma plain_use_sound_witness:
  "\<exists>t m'. consume_from 1 ''eHl6'' ''console'' ''i1'' ''127.0.0.1'' manager_ex = (Inr t, m') \<and>
     (\<exists>u \<in> set (heap manager_ex). tk_token u = ''eHl6'' \<and> tk_uses u < tk_max_uses u \<and>
        t = u\<lparr>tk_uses := tk_uses u + 1\<rparr>)"
proof -
  let ?r = "consume_from 1 ''eHl6'' ''console'' ''i1'' ''127.0.0.1'' manager_ex"
  have "\<not> Option.is_none (case fst ?r of Inl _ \<Rightarrow> None | Inr t \<Rightarrow> Some t)" by code_simp
  then obtain t where "fst ?r = Inr t" by (auto split: sum.splits)
  then obtain m' where r: "?r = (Inr t, m')" by (cases ?r) auto
  have run: "run_permitted ticket_permitted ticket_step new_manager [create_ex]"
    using create_ex_permitted by simp
  from plain_use_sound [OF run ex_step [symmetric] r] r show ?thesis by blast
qed

lemma revoke_session_final_witness:
  "successes ''eHl6'' (revoke_session ''s1 '' manager_ex) [use_ex, use_ex] = 0"
proof -
  have s: "trim_space ''s1 '' = ''s1''" by code_simp
  have run: "run_permitted ticket_permitted ticket_step new_manager
      ([create_ex] @ RevokeSession ''s1 '' # [use_ex, use_ex])"
    using create_ex_permitted by (simp add: use_ex_def)
  from revoke_session_final [OF run ex_step [symmetric], of ticket_ex] s show ?thesis
    by (simp add: manager_ex_def ticket_ex_def)
qed

lemma revoke_final_witness:
  "successes ''eHl6'' (revoke ''YWJj'' manager_ex) [use_ex, use_ex] = 0"
proof -
  have run: "run_permitted ticket_permitted ticket_step new_manager
      ([create_ex] @ Revoke (tk_id ticket_ex) # [use_ex, use_ex])"
    using create_ex_permitted by (simp add: use_ex_def)
  from revoke_final [OF run ex_step [symmetric]] show ?thesis
    by (simp add: manager_ex_def ticket_ex_def)
qed

lemma restricted_ticket_works_witness:
  "\<exists>t m'. create_restricted 0 (Some ''abc'') (Some ''xyz'') restricted_ex new_manager = (Inr t, m') \<and>
     fst (consume_restricted_from 5 (tk_token t) ''file'' ''instance'' ''i1'' ''./world'' ''Put'' [] m')
       = Inr (t\<lparr>tk_uses := 1\<rparr>)"
proof -
  let ?c = "create_restricted 0 (Some ''abc'') (Some ''xyz'') restricted_ex new_manager"
  have "case fst ?c of Inl _ \<Rightarrow> False | Inr t \<Rightarrow>
      5 \<le> tk_expires t \<and> tk_paths t = [''world''] \<and> tk_client_ip t = []" by code_simp
  then obtain t where t: "fst ?c = Inr t" "5 \<le> tk_expires t" "''world'' \<in> set (tk_paths t)"
    "tk_client_ip t = []" by (auto split: sum.splits)
  then obtain m' where c: "?c = (Inr t, m')" by (cases ?c) auto
  have n: "normalize_path ''./world'' = Inr ''world''" by code_simp
  have up: "to_upper ''Put'' = to_upper (ro_method restricted_ex)" by code_simp
  have ip: "normalize_client_ip [] = Inr []" by code_simp
  have run: "run_permitted ticket_permitted ticket_step new_manager []" by simp
  from restricted_ticket_works [OF run _ ex_permitted c t(2) n t(3) up ip] t(4) c
  show ?thesis by (force simp: restricted_ex_def)
qed

lemma revoke_between_halves_panics_witness:
  "fst (restrict_stored restricted_ex [] [] ''YWJj'' (revoke_session ''s1'' manager_ex)) = Err ''PANIC'' \<and>
   fst (upload_stored ''aa'' 1 ticket_ex (revoke_session ''s1'' manager_ex)) = ticket_ex"
proof -
  have s: "trim_space ''s1'' = tk_session ticket_ex" "tk_session ticket_ex \<noteq> []" by code_simp+
  have run: "run_permitted ticket_permitted ticket_step new_manager []" by simp
  from revoke_between_halves_panics [OF run _ ex_permitted create_ex_run s] show ?thesis
    by (simp add: ticket_ex_def)
qed

end
