(* ===== verification/ServerModel.thy ===== *)
theory ServerModel
  imports GoPath
begin

text \<open>
  Server configurations, \<open>daemon/internal/model/server.go\<close>: their normalisation and validation and
  the instances a server expands to. A standalone server is one instance; a mirror server is
  \<open>InstanceCount\<close> numbered copies below its root directory.

  \<open>Validate\<close> returns plain Go errors; an error is modelled by its message. Paths are Unix paths.
\<close>

section \<open>Data\<close>

record process_config =
  pc_start :: string
  pc_stop :: string
  pc_timeout :: int
  pc_auto_start :: bool
  pc_auto_restart :: bool

record exclude_entry =
  ex_path :: string
  ex_type :: string

record server_config =
  sc_schema :: int
  sc_type :: string
  sc_platform :: string
  sc_id :: string
  sc_name :: string
  sc_workspace :: string
  sc_port :: int
  sc_root :: string
  sc_image :: string
  sc_count :: int
  sc_ports :: "int list"
  sc_exclude :: "exclude_entry list"
  sc_process :: process_config
  sc_encoding :: string

record instance_config =
  ic_id :: string
  ic_server :: string
  ic_slot :: int
  ic_type :: string
  ic_platform :: string
  ic_name :: string
  ic_workspace :: string
  ic_port :: int
  ic_process :: process_config
  ic_encoding :: string

section \<open>Validation\<close>

definition normalize_encoding :: "string \<Rightarrow> string" where
  "normalize_encoding value =
     (let v = to_lower (trim_space value)
      in if v = [] \<or> v = ''utf8'' \<or> v = ''utf-8'' then ''utf-8''
         else if v = ''gbk'' then ''gbk'' else v)"

definition normalize_server :: "server_config \<Rightarrow> server_config" where
  "normalize_server s =
     (let p = sc_process s;
          p1 = (if pc_stop p = [] then p\<lparr>pc_stop := ''stop''\<rparr> else p);
          p2 = (if pc_timeout p1 = 0 then p1\<lparr>pc_timeout := 60\<rparr> else p1)
      in s\<lparr>sc_platform := (if sc_platform s = [] then ''paper'' else sc_platform s),
           sc_process := p2, sc_encoding := normalize_encoding (sc_encoding s)\<rparr>)"

definition supported_platform :: "string \<Rightarrow> bool" where
  "supported_platform p \<longleftrightarrow> p \<in> set [''paper'', ''spigot'', ''velocity'', ''bungee'']"

definition proxy_platform :: "string \<Rightarrow> bool" where
  "proxy_platform p \<longleftrightarrow> p = ''velocity'' \<or> p = ''bungee''"

definition plugin_type_for :: "string \<Rightarrow> string" where
  "plugin_type_for p = (if proxy_platform p then p else ''spigot'')"

definition validate_port :: "int \<Rightarrow> string option" where
  "validate_port p =
     (if p < 1 \<or> 65535 < p then Some (''port '' @ itoa p @ '' is outside 1-65535'') else None)"

definition validate_relative_path :: "string \<Rightarrow> string option" where
  "validate_relative_path p =
     (if p = [] \<or> is_abs p then Some ''must be a non-empty relative path''
      else let clean = path_clean p
           in if clean = dot \<or> clean = dotdot \<or> has_prefix clean (dotdot @ [slash])
              then Some ''path escapes its root'' else None)"

text \<open>\<open>^[a-z0-9_-]+$\<close>\<close>

definition id_char :: "char \<Rightarrow> bool" where
  "id_char c \<longleftrightarrow> (97 \<le> byte c \<and> byte c \<le> 122) \<or> is_digit c \<or> c = CHR ''_'' \<or> c = CHR ''-''"

definition server_id_ok :: "string \<Rightarrow> bool" where
  "server_id_ok s \<longleftrightarrow> s \<noteq> [] \<and> list_all id_char s"

text \<open>The first error of a list of checks; \<open>s.Ports[:n]\<close> is \<open>take\<close>, with \<open>n \<le> len\<close> checked before.\<close>

fun first_error :: "string option list \<Rightarrow> string option" where
  "first_error [] = None"
| "first_error (e # es) = (case e of Some m \<Rightarrow> Some m | None \<Rightarrow> first_error es)"

definition validate_exclude :: "exclude_entry \<Rightarrow> string option" where
  "validate_exclude e =
     (if ex_type e \<noteq> ''file'' \<and> ex_type e \<noteq> ''directory''
      then Some ''exclude.type must be file or directory''
      else map_option (\<lambda>m. ''exclude path '' @ ex_path e @ '': '' @ m) (validate_relative_path (ex_path e)))"

definition validate_server :: "server_config \<Rightarrow> string option" where
  "validate_server s =
     (let start = pc_start (sc_process s); stop = pc_stop (sc_process s)
      in if sc_schema s \<noteq> 2 then Some (''unsupported schema_version '' @ itoa (sc_schema s))
      else if \<not> server_id_ok (sc_id s) then Some (''server_id must contain only lowercase letters, digits, '-' and '_'' @ [CHR 0x27])
      else if sc_name s = [] then Some ''name cannot be empty''
      else if sc_type s \<noteq> ''standalone'' \<and> sc_type s \<noteq> ''mirror'' then Some ''type must be standalone or mirror''
      else if \<not> supported_platform (sc_platform s) then Some ''platform must be paper, spigot, velocity or bungee''
      else if sc_type s = ''mirror'' \<and> proxy_platform (sc_platform s)
        then Some ''mirror servers only support paper or spigot''
      else if trim_space start = [] then Some ''process.start_command cannot be empty''
      else if 32768 < length start \<or> CHR 0x00 \<in> set start
        then Some ''process.start_command is invalid or too long''
      else if trim_space stop = [] then Some ''process.stop_command cannot be empty''
      else if 8192 < length stop \<or> contains_any stop [CHR 0x00, CHR 0x0D, CHR 0x0A]
        then Some ''process.stop_command is invalid or too long''
      else if pc_timeout (sc_process s) \<le> 0 then Some ''process.stop_timeout_seconds must be positive''
      else if sc_encoding s \<noteq> ''utf-8'' \<and> sc_encoding s \<noteq> ''gbk''
        then Some ''console.encoding must be utf-8 or gbk''
      else if sc_type s = ''standalone'' then
        (if \<not> is_abs (sc_workspace s) then Some ''workspace must be an absolute path''
         else validate_port (sc_port s))
      else if \<not> is_abs (sc_root s) then Some ''root_path must be an absolute path''
      else case validate_relative_path (sc_image s) of
        Some m \<Rightarrow> Some (''image_directory: '' @ m)
      | None \<Rightarrow>
          if sc_count s \<le> 0 then Some ''instance_count must be positive''
          else if int (length (sc_ports s)) < sc_count s
            then Some ''ports must contain at least instance_count entries''
          else first_error (map validate_port (take (nat (sc_count s)) (sc_ports s)) @
                            map validate_exclude (sc_exclude s)))"

section \<open>Instances\<close>

definition mirror_instance_id :: "server_config \<Rightarrow> int \<Rightarrow> string" where
  "mirror_instance_id s slot = sc_id s @ ''_'' @ itoa slot"

definition mirror_instance :: "server_config \<Rightarrow> int \<Rightarrow> instance_config" where
  "mirror_instance s slot =
     \<lparr>ic_id = mirror_instance_id s slot, ic_server = sc_id s, ic_slot = slot, ic_type = sc_type s,
       ic_platform = sc_platform s, ic_name = sc_name s @ '' #'' @ itoa slot,
       ic_workspace = path_join (sc_root s) (mirror_instance_id s slot),
       ic_port = sc_ports s ! nat (slot - 1),
       ic_process = sc_process s, ic_encoding = sc_encoding s\<rparr>"

definition instances :: "server_config \<Rightarrow> instance_config list" where
  "instances s =
     (if sc_type s = ''standalone'' then
        [\<lparr>ic_id = sc_id s, ic_server = sc_id s, ic_slot = 0, ic_type = sc_type s,
          ic_platform = sc_platform s, ic_name = sc_name s,
          ic_workspace = path_clean (sc_workspace s), ic_port = sc_port s,
          ic_process = sc_process s, ic_encoding = sc_encoding s\<rparr>]
      else map (mirror_instance s) [1..sc_count s])"

section \<open>Facts\<close>

lemma first_error_None: "first_error es = None \<longleftrightarrow> (\<forall>e \<in> set es. e = None)"
  by (induction es) (auto split: option.splits)

lemma validate_port_None: "validate_port p = None \<longleftrightarrow> 1 \<le> p \<and> p \<le> 65535"
  by (auto simp: validate_port_def)

lemma check_None: "(if c then Some m else x) = None \<longleftrightarrow> \<not> c \<and> x = None"
  by simp

lemma check_relative_None:
  "(case r of Some m \<Rightarrow> Some (f m) | None \<Rightarrow> x) = None \<longleftrightarrow> r = None \<and> x = None"
  by (cases r) simp_all

lemma validate_exclude_None:
  "validate_exclude e = None \<longleftrightarrow>
     (ex_type e = ''file'' \<or> ex_type e = ''directory'') \<and> validate_relative_path (ex_path e) = None"
  by (auto simp: validate_exclude_def)

text \<open>The configurations \<open>Validate\<close> accepts, in its two forms.\<close>

definition process_ok :: "server_config \<Rightarrow> bool" where
  "process_ok s \<longleftrightarrow>
     server_id_ok (sc_id s) \<and> sc_name s \<noteq> [] \<and> supported_platform (sc_platform s) \<and>
     trim_space (pc_start (sc_process s)) \<noteq> [] \<and> trim_space (pc_stop (sc_process s)) \<noteq> [] \<and>
     \<not> contains_any (pc_stop (sc_process s)) [CHR 0x00, CHR 0x0D, CHR 0x0A] \<and>
     0 < pc_timeout (sc_process s) \<and> (sc_encoding s = ''utf-8'' \<or> sc_encoding s = ''gbk'')"

lemma validate_server_common:
  assumes "validate_server s = None"
  shows "process_ok s" and "sc_type s = ''standalone'' \<or> sc_type s = ''mirror''"
proof -
  from assms show "process_ok s"
    unfolding validate_server_def Let_def check_None process_ok_def not_le by blast
  from assms show "sc_type s = ''standalone'' \<or> sc_type s = ''mirror''"
    unfolding validate_server_def Let_def check_None by blast
qed

lemma validate_server_standalone:
  assumes "validate_server s = None" and "sc_type s = ''standalone''"
  shows "is_abs (sc_workspace s)" and "1 \<le> sc_port s \<and> sc_port s \<le> 65535"
proof -
  have "(if \<not> is_abs (sc_workspace s) then Some ''workspace must be an absolute path''
         else validate_port (sc_port s)) = None"
    using assms(1) unfolding validate_server_def Let_def check_None if_P [OF assms(2)] by blast
  then show "is_abs (sc_workspace s)" and "1 \<le> sc_port s \<and> sc_port s \<le> 65535"
    unfolding check_None validate_port_None by blast+
qed

lemma validate_server_mirror:
  assumes "validate_server s = None" and "sc_type s = ''mirror''"
  shows "is_abs (sc_root s)" and "0 < sc_count s" and "sc_count s \<le> int (length (sc_ports s))"
    and "\<forall>p \<in> set (take (nat (sc_count s)) (sc_ports s)). 1 \<le> p \<and> p \<le> 65535"
    and "validate_relative_path (sc_image s) = None"
    and "\<forall>e \<in> set (sc_exclude s). validate_relative_path (ex_path e) = None"
    and "\<not> proxy_platform (sc_platform s)"
proof -
  have ns: "sc_type s \<noteq> ''standalone''" using assms(2) by simp
  note * = assms(1) [unfolded validate_server_def Let_def check_None if_not_P [OF ns]
      check_relative_None first_error_None set_append set_map ball_Un]
  from * show "is_abs (sc_root s)" by blast
  from * have "\<not> sc_count s \<le> 0" and "\<not> int (length (sc_ports s)) < sc_count s" by blast+
  then show "0 < sc_count s" and "sc_count s \<le> int (length (sc_ports s))" by simp_all
  from * show "validate_relative_path (sc_image s) = None" by blast
  from * assms(2) show "\<not> proxy_platform (sc_platform s)" by blast
  have ports: "\<forall>e \<in> validate_port ` set (take (nat (sc_count s)) (sc_ports s)). e = None"
    using * by (elim conjE)
  have excl: "\<forall>e \<in> validate_exclude ` set (sc_exclude s). e = None"
    using * by (elim conjE)
  show "\<forall>p \<in> set (take (nat (sc_count s)) (sc_ports s)). 1 \<le> p \<and> p \<le> 65535"
  proof
    fix p assume "p \<in> set (take (nat (sc_count s)) (sc_ports s))"
    then have "validate_port p = None" using ports by blast
    then show "1 \<le> p \<and> p \<le> 65535" by (simp only: validate_port_None)
  qed
  from excl have "\<forall>e \<in> set (sc_exclude s). validate_exclude e = None" by blast
  then show "\<forall>e \<in> set (sc_exclude s). validate_relative_path (ex_path e) = None"
    by (simp add: validate_exclude_None)
qed

lemma normalize_encoding_fixed:
  "v = ''utf-8'' \<or> v = ''gbk'' \<Longrightarrow> normalize_encoding v = v"
proof (elim disjE)
  have "normalize_encoding ''utf-8'' = ''utf-8''" and "normalize_encoding ''gbk'' = ''gbk''"
    by code_simp+
  then show "v = ''utf-8'' \<Longrightarrow> normalize_encoding v = v" and "v = ''gbk'' \<Longrightarrow> normalize_encoding v = v"
    by simp_all
qed

lemma normalize_server_fixed:
  assumes "validate_server s = None"
  shows "normalize_server s = s"
proof -
  have ok: "process_ok s" by (rule validate_server_common [OF assms])
  have "sc_platform s \<noteq> []"
    using ok unfolding process_ok_def supported_platform_def by (elim conjE) auto
  moreover have "pc_stop (sc_process s) \<noteq> []"
    using ok unfolding process_ok_def by (metis trim_space_Nil)
  moreover have "pc_timeout (sc_process s) \<noteq> 0"
    using ok unfolding process_ok_def by (elim conjE) simp
  moreover have "normalize_encoding (sc_encoding s) = sc_encoding s"
    using ok unfolding process_ok_def by (intro normalize_encoding_fixed) blast
  ultimately show ?thesis by (simp add: normalize_server_def Let_def)
qed

lemma normalize_encoding_idem: "normalize_encoding (normalize_encoding v) = normalize_encoding v"
proof -
  have fixed: "normalize_encoding ''utf-8'' = ''utf-8''" "normalize_encoding ''gbk'' = ''gbk''"
    using normalize_encoding_fixed by blast+
  define w where "w = to_lower (trim_space v)"
  have "to_lower (trim_space w) = w" by (simp add: w_def trim_space_lower)
  then show ?thesis
    using fixed unfolding normalize_encoding_def [of v] w_def [symmetric] Let_def
    by (simp add: normalize_encoding_def Let_def)
qed

lemma normalize_server_idem: "normalize_server (normalize_server s) = normalize_server s"
  by (simp add: normalize_server_def Let_def normalize_encoding_idem)

section \<open>Relative paths\<close>

text \<open>
  A relative path may hold \<open>..\<close>; cleaning collects the ones that lead out of the root at the front,
  followed by ordinary names.
\<close>

definition rel_stack :: "string list \<Rightarrow> bool" where
  "rel_stack st \<longleftrightarrow> (\<exists>k ps. st = ps @ replicate k dotdot \<and> list_all plain_name ps)"

lemma dotdot_not_plain: "\<not> plain_name dotdot"
  by (simp add: plain_name_def)

lemma rel_stack_step: "rel_stack st \<Longrightarrow> rel_stack (clean_step False st p)"
proof -
  assume "rel_stack st"
  then obtain k ps where st: "st = ps @ replicate k dotdot" "list_all plain_name ps"
    by (auto simp: rel_stack_def)
  consider "p = [] \<or> p = dot" | "p = dotdot" | "plain_name p" by (auto simp: plain_name_def)
  then show ?thesis
  proof cases
    case 1
    then show ?thesis using \<open>rel_stack st\<close> by (auto simp: clean_step_def)
  next
    case 2
    have ne: "dotdot \<noteq> []" "dotdot \<noteq> dot" by (simp_all add: dotdot_def dot_def)
    show ?thesis
    proof (cases ps)
      case Nil
      then have "clean_step False st p = replicate (Suc k) dotdot"
        using st 2 ne by (cases k) (auto simp: clean_step_def)
      then show ?thesis
        unfolding rel_stack_def by (intro exI [of _ "Suc k"] exI [of _ "[]"]) simp
    next
      case (Cons q qs)
      then have "clean_step False st p = qs @ replicate k dotdot" "list_all plain_name qs"
        using st 2 ne dotdot_not_plain by (auto simp: clean_step_def)
      then show ?thesis unfolding rel_stack_def by blast
    qed
  next
    case 3
    then have "clean_step False st p = (p # ps) @ replicate k dotdot"
      using st by (auto simp: clean_step_def plain_name_def)
    moreover have "list_all plain_name (p # ps)" using 3 st(2) by simp
    ultimately show ?thesis unfolding rel_stack_def by blast
  qed
qed

lemma rel_stack_clean: "rel_stack (foldl (clean_step False) st ps)" if "rel_stack st"
  using that by (induction ps arbitrary: st) (auto intro: rel_stack_step)

lemma clean_elems_rel:
  "\<exists>k ps. clean_elems False p = replicate k dotdot @ ps \<and> list_all plain_name ps"
proof -
  have "rel_stack []" unfolding rel_stack_def by (intro exI [of _ 0] exI [of _ "[]"]) simp
  then have "rel_stack (foldl (clean_step False) [] (split_on slash p))" by (rule rel_stack_clean)
  then obtain k ps where "foldl (clean_step False) [] (split_on slash p) = ps @ replicate k dotdot"
    "list_all plain_name ps" by (auto simp: rel_stack_def)
  then show ?thesis
    by (intro exI [of _ k] exI [of _ "rev ps"]) (simp add: clean_elems_def list_all_rev)
qed

lemma foldl_clean_elems:
  "set (foldl (clean_step r) st ps) \<subseteq> set st \<union> set ps"
proof (induction ps arbitrary: st)
  case (Cons p ps)
  have "set (clean_step r st p) \<subseteq> insert p (set st)"
    by (auto simp: clean_step_def split: list.splits if_splits)
  with Cons show ?case by fastforce
qed simp

lemma clean_elems_no_slash: "q \<in> set (clean_elems r p) \<Longrightarrow> slash \<notin> set q"
  using foldl_clean_elems [of r "[]" "split_on slash p"] split_on_no_sep [of q slash p]
  by (auto simp: clean_elems_def)

lemma path_clean_split:
  assumes "\<not> is_abs p" and "clean_elems False p \<noteq> []" and "p \<noteq> []"
  shows "split_on slash (path_clean p) = clean_elems False p"
proof -
  have split: "split_on slash (join_with [slash] (clean_elems False p)) = clean_elems False p"
    using assms(2) clean_elems_no_slash by (intro split_join) auto
  obtain k ps where e: "clean_elems False p = replicate k dotdot @ ps" "list_all plain_name ps"
    using clean_elems_rel by blast
  have "join_with [slash] (clean_elems False p) \<noteq> []"
  proof
    assume "join_with [slash] (clean_elems False p) = []"
    then have "clean_elems False p = [[]]" using split by simp
    then show False using e by (cases k) (auto simp: plain_name_def dotdot_def Cons_eq_append_conv)
  qed
  then show ?thesis using assms split by (simp add: path_clean_def Let_def)
qed

lemma validate_relative_path_confined:
  "validate_relative_path p = None \<longleftrightarrow>
     p \<noteq> [] \<and> \<not> is_abs p \<and> path_clean p \<noteq> dot \<and> confined (path_clean p)"
proof (cases "p = [] \<or> is_abs p")
  case True
  then show ?thesis by (auto simp: validate_relative_path_def)
next
  case False
  show ?thesis
  proof (cases "clean_elems False p = []")
    case True
    then have "path_clean p = dot" using False by (simp add: path_clean_def)
    then show ?thesis by (simp add: validate_relative_path_def)
  next
    case ne: False
    then have split: "split_on slash (path_clean p) = clean_elems False p"
      using False by (intro path_clean_split) auto
    obtain k ps where e: "clean_elems False p = replicate k dotdot @ ps" "list_all plain_name ps"
      using clean_elems_rel by blast
    have dd: "split_on slash dotdot = [dotdot]" and d: "split_on slash dot = [dot]"
      by (simp_all add: dotdot_def dot_def slash_def)
    have "path_clean p = dotdot \<or> has_prefix (path_clean p) (dotdot @ [slash]) \<longleftrightarrow>
        prefix [dotdot] (clean_elems False p)"
      unfolding has_prefix_slash_iff split dd strict_prefix_def
      using split dd by (metis join_split prefix_order.refl)
    also have "\<dots> \<longleftrightarrow> \<not> list_all plain_name (clean_elems False p)"
      unfolding e using e(2) dotdot_not_plain
      by (cases k; cases ps) (auto simp: prefix_def)
    finally show ?thesis
      using False split by (auto simp: validate_relative_path_def confined_def Let_def)
  qed
qed

section \<open>Instance facts\<close>

lemma id_char_plain:
  assumes "list_all id_char p" and "p \<noteq> []"
  shows "plain_name p" and "slash \<notin> set p"
proof -
  have nd: "\<not> id_char (CHR ''.'')" and ns: "\<not> id_char slash"
    by (simp_all add: id_char_def is_digit_def byte_def slash_def)
  show "plain_name p" using assms nd by (auto simp: plain_name_def dot_def dotdot_def)
  show "slash \<notin> set p" using assms(1) ns by (auto simp: list_all_iff)
qed

lemma itoa_id_char: "0 \<le> n \<Longrightarrow> list_all id_char (itoa n)"
  using digits_digits [of n] by (auto simp: itoa_def id_char_def list_all_iff)

lemma mirror_id_plain:
  assumes "server_id_ok (sc_id s)" and "0 \<le> slot"
  shows "plain_name (mirror_instance_id s slot)" and "slash \<notin> set (mirror_instance_id s slot)"
proof -
  have "list_all id_char (mirror_instance_id s slot)"
    using assms itoa_id_char [of slot]
    by (simp add: mirror_instance_id_def server_id_ok_def id_char_def)
  moreover have "mirror_instance_id s slot \<noteq> []" by (simp add: mirror_instance_id_def)
  ultimately show "plain_name (mirror_instance_id s slot)" and "slash \<notin> set (mirror_instance_id s slot)"
    by (rule id_char_plain)+
qed

lemma mirror_id_inj:
  "0 \<le> i \<Longrightarrow> 0 \<le> j \<Longrightarrow> mirror_instance_id s i = mirror_instance_id s j \<Longrightarrow> i = j"
  using digits_inj by (simp add: mirror_instance_id_def itoa_def)

text \<open>Joining a plain name to an absolute root adds it as the last element.\<close>

definition path_elems :: "string \<Rightarrow> string list" where
  "path_elems p = clean_elems (is_abs p) p"

lemma path_elems_child:
  assumes "is_abs root" and "plain_name c" and "slash \<notin> set c"
  shows "path_elems (root @ [slash] @ c) = path_elems root @ [c]"
proof -
  have "is_abs (root @ [slash] @ c)" using assms(1) by (auto simp: is_abs_def has_prefix_def prefix_def)
  moreover have "clean_step True st c = c # st" for st
    using assms(2) by (simp add: clean_step_def plain_name_def)
  ultimately show ?thesis
    using assms by (simp add: path_elems_def clean_elems_def split_on_append split_on_single)
qed

lemma path_join_child:
  assumes "is_abs root" and "plain_name c" and "slash \<notin> set c"
  shows "path_join root c = slash # join_with [slash] (path_elems root @ [c])"
proof -
  have "is_abs (root @ [slash] @ c)" using assms(1) by (auto simp: is_abs_def has_prefix_def prefix_def)
  moreover have "root \<noteq> []" "c \<noteq> []"
    using assms by (auto simp: is_abs_def has_prefix_def plain_name_def)
  ultimately show ?thesis
    using path_elems_child [OF assms] by (simp add: path_join_def path_clean_def path_elems_def)
qed

lemma path_join_child_inj:
  assumes "is_abs root" and "plain_name c" "slash \<notin> set c" and "plain_name d" "slash \<notin> set d"
    and "path_join root c = path_join root d"
  shows "c = d"
proof -
  have ns: "\<forall>q \<in> set (path_elems root). slash \<notin> set q"
    using clean_elems_no_slash by (auto simp: path_elems_def)
  have "split_on slash (join_with [slash] (path_elems root @ [c])) = path_elems root @ [c]"
    and "split_on slash (join_with [slash] (path_elems root @ [d])) = path_elems root @ [d]"
    using ns assms by (intro split_join; auto)+
  moreover have "join_with [slash] (path_elems root @ [c]) = join_with [slash] (path_elems root @ [d])"
    using assms(6) unfolding path_join_child [OF assms(1-3)] path_join_child [OF assms(1,4,5)] by simp
  ultimately have "path_elems root @ [c] = path_elems root @ [d]" by metis
  then show ?thesis by simp
qed

lemma instances_mirror: "sc_type s = ''mirror'' \<Longrightarrow> instances s = map (mirror_instance s) [1..sc_count s]"
  by (simp add: instances_def)

section \<open>Properties\<close>

text \<open>
  The normal form \<open>Create\<close> and \<open>Update\<close> store: normalise, then validate. A configuration that
  validates is its own normal form.
\<close>

definition normalize_validate :: "server_config \<Rightarrow> server_config result" where
  "normalize_validate s =
     (case validate_server (normalize_server s) of
        None \<Rightarrow> Inr (normalize_server s) | Some _ \<Rightarrow> Err ''INVALID_CONFIG'')"

interpretation servers: normalizer normalize_validate "\<lambda>s. validate_server s = None"
  by unfold_locales (auto simp: normalize_validate_def normalize_server_fixed split: option.splits)

text \<open>
  normalising a configuration and validating it is a projection onto the valid
  configurations: the accepted results are exactly the valid configurations, and each of them is
  left as it is, so that saving, loading and normalising again changes nothing.
\<close>

theorem server_normal_form:
  "(normalize_validate s = Inr t \<longrightarrow> validate_server t = None \<and> normalize_validate t = Inr t) \<and>
   (validate_server t = None \<longleftrightarrow> (\<exists>s. normalize_validate s = Inr t))"
  using servers.norm_good servers.norm_idem servers.norm_range by blast

text \<open>The ports and the workspaces of the instances of a valid mirror server.\<close>

lemma mirror_ports:
  assumes "validate_server s = None" and mirror: "sc_type s = ''mirror''" and i: "i \<in> set (instances s)"
  shows "1 \<le> ic_port i \<and> ic_port i \<le> 65535"
proof -
  note v = validate_server_mirror [OF assms(1) mirror]
  from i obtain k where k: "1 \<le> k" "k \<le> sc_count s" "i = mirror_instance s k"
    by (auto simp: instances_mirror [OF mirror])
  then have "nat (k - 1) < nat (sc_count s)" and "nat (k - 1) < length (sc_ports s)"
    using v(3) by auto
  then have "sc_ports s ! nat (k - 1) \<in> set (take (nat (sc_count s)) (sc_ports s))"
    by (metis in_set_conv_nth length_take min_less_iff_conj nth_take)
  then show ?thesis using v(4) k by (simp add: mirror_instance_def)
qed

lemma mirror_children:
  assumes "validate_server s = None" and mirror: "sc_type s = ''mirror''" and id_ok: "server_id_ok (sc_id s)"
    and i: "i \<in> set (instances s)"
  shows "\<exists>c. plain_name c \<and> slash \<notin> set c \<and>
    ic_workspace i = slash # join_with [slash] (path_elems (sc_root s) @ [c])"
proof -
  note v = validate_server_mirror [OF assms(1) mirror]
  from i obtain k where "1 \<le> k" "i = mirror_instance s k"
    by (auto simp: instances_mirror [OF mirror])
  then show ?thesis
    using mirror_id_plain [OF id_ok, of k] path_join_child [OF v(1)] by (auto simp: mirror_instance_def)
qed

text \<open>
  C33: the instances of a valid server are well formed. Their ids are pairwise distinct, every port
  is in range, each instance belongs to the server; a standalone server is one instance in the
  cleaned workspace; a mirror server has one instance per slot from 1, and their workspaces are
  pairwise distinct direct children of the root directory.
\<close>

theorem instances_well_formed:
  assumes "validate_server s = None"
  shows "distinct (map ic_id (instances s)) \<and> distinct (map ic_workspace (instances s)) \<and>
    (\<forall>i \<in> set (instances s). ic_server i = sc_id s \<and> 1 \<le> ic_port i \<and> ic_port i \<le> 65535) \<and>
    (sc_type s = ''mirror'' \<longrightarrow> map ic_slot (instances s) = [1..sc_count s] \<and>
      (\<forall>i \<in> set (instances s). \<exists>c. plain_name c \<and> slash \<notin> set c \<and>
         ic_workspace i = slash # join_with [slash] (path_elems (sc_root s) @ [c])))"
proof (cases "sc_type s = ''standalone''")
  case True
  from validate_server_standalone [OF assms True] show ?thesis
    by (simp add: instances_def True)
next
  case False
  with validate_server_common(2) [OF assms] have mirror: "sc_type s = ''mirror''" by blast
  note v = validate_server_mirror [OF assms mirror]
  have id_ok: "server_id_ok (sc_id s)"
    using validate_server_common(1) [OF assms] by (simp add: process_ok_def)
  note plain = mirror_id_plain [OF id_ok]
  let ?slots = "[1..sc_count s]"
  have ids: "distinct (map ic_id (instances s))"
    by (auto simp: instances_mirror [OF mirror] distinct_map inj_on_def mirror_instance_def
        dest: mirror_id_inj [rotated 2])
  have ws_inj: "i = j" if "1 \<le> i" "1 \<le> j"
    and "path_join (sc_root s) (mirror_instance_id s i) = path_join (sc_root s) (mirror_instance_id s j)" for i j
    using that path_join_child_inj [OF v(1) plain [of i] plain [of j]] by (intro mirror_id_inj [of i j s]) auto
  have ws: "distinct (map ic_workspace (instances s))"
    using ws_inj by (auto simp: instances_mirror [OF mirror] distinct_map inj_on_def mirror_instance_def)
  note port = mirror_ports [OF assms mirror] and child = mirror_children [OF assms mirror id_ok]
  have slots: "map ic_slot (instances s) = [1..sc_count s]"
    by (simp add: instances_mirror [OF mirror] comp_def mirror_instance_def)
  have "\<forall>i \<in> set (instances s). ic_server i = sc_id s"
    by (auto simp: instances_mirror [OF mirror] mirror_instance_def)
  with ids ws port child slots show ?thesis by blast
qed

text \<open>
  a relative path passes validation exactly when it is relative, names something below the
  root and its cleaned form has no \<open>..\<close> element, so that joined to the root it stays inside.
\<close>

theorem relative_path_confined:
  "validate_relative_path p = None \<longleftrightarrow>
     \<not> is_abs p \<and> p \<noteq> [] \<and> path_clean p \<noteq> dot \<and> confined (path_clean p)"
  using validate_relative_path_confined by blast

definition mirror_ex :: server_config where
  "mirror_ex = \<lparr>sc_schema = 2, sc_type = ''mirror'', sc_platform = [], sc_id = ''lobby'',
     sc_name = ''Lobby'', sc_workspace = [], sc_port = 0, sc_root = ''/srv//lobby/.'',
     sc_image = ''image/../img'', sc_count = 2, sc_ports = [25565, 25566, 0],
     sc_exclude = [\<lparr>ex_path = ''world'', ex_type = ''directory''\<rparr>],
     sc_process = \<lparr>pc_start = ''java'', pc_stop = [], pc_timeout = 0, pc_auto_start = False,
       pc_auto_restart = True\<rparr>, sc_encoding = '' UTF8''\<rparr>"

lemma mirror_ex_valid: "validate_server (normalize_server mirror_ex) = None"
  by code_simp

lemma instances_well_formed_witness:
  "map ic_id (instances (normalize_server mirror_ex)) = [''lobby_1'', ''lobby_2''] \<and>
   map ic_workspace (instances (normalize_server mirror_ex)) = [''/srv/lobby/lobby_1'', ''/srv/lobby/lobby_2''] \<and>
   distinct (map ic_workspace (instances (normalize_server mirror_ex)))"
proof -
  from instances_well_formed [OF mirror_ex_valid]
  have "distinct (map ic_workspace (instances (normalize_server mirror_ex)))" by blast
  moreover have "map ic_id (instances (normalize_server mirror_ex)) = [''lobby_1'', ''lobby_2'']"
    by code_simp
  moreover have "map ic_workspace (instances (normalize_server mirror_ex))
      = [''/srv/lobby/lobby_1'', ''/srv/lobby/lobby_2'']" by code_simp
  ultimately show ?thesis by blast
qed

lemma server_normal_form_witness:
  "normalize_validate mirror_ex = Inr (normalize_server mirror_ex) \<and>
   normalize_validate (normalize_server mirror_ex) = Inr (normalize_server mirror_ex)"
proof -
  have ok: "normalize_validate mirror_ex = Inr (normalize_server mirror_ex)"
    by (simp add: normalize_validate_def mirror_ex_valid)
  with server_normal_form [of mirror_ex "normalize_server mirror_ex"] show ?thesis by blast
qed

end
