(* ===== verification/Firewall.thy ===== *)
theory Firewall
  imports GoNetip GoBase64
begin

text \<open>
  The network white list of the daemon, \<open>daemon/internal/firewall\<close>: rules that open ports to listed
  sources and close them to everybody else, and the protection of the daemon's own port. This
  theory holds the data (\<open>types.go\<close>), the normalisation and validation of rules (\<open>service.go\<close>) and
  the generation of the nftables script (\<open>renderer.go\<close>).

  The script is generated in two steps: the list of chain rules \<open>chain_of\<close>, and the text of each
  rule \<open>print_rule\<close>. The code writes the text of each rule as it goes, in the same order.
\<close>

section \<open>Data\<close>

record port_range =
  pr_from :: int
  pr_to :: int

record rule_input =
  ri_enabled :: bool
  ri_protocols :: "string list"
  ri_ports :: "port_range list"
  ri_sources :: "string list"
  ri_note :: string

record rule =
  ru_id :: string
  ru_enabled :: bool
  ru_protocols :: "string list"
  ru_ports :: "port_range list"
  ru_sources :: "string list"
  ru_note :: string
  ru_created :: int
  ru_updated :: int

record system_access =
  sa_enabled :: bool
  sa_controls :: "string list"
  sa_ttl :: int

record system_input =
  si_enabled :: bool
  si_controls :: "string list"
  si_ttl :: int
  si_caller :: bool

record grant =
  gr_source :: string
  gr_session :: string
  gr_ticket :: string
  gr_expires :: int

text \<open>The state saved in \<open>firewall.json\<close>; \<open>AppliedAt\<close> is a pointer.\<close>

record fw_state =
  fw_schema :: int
  fw_revision :: int
  fw_rules :: "rule list"
  fw_system :: system_access
  fw_applied_hash :: string
  fw_applied_at :: "int option"

section \<open>Ports\<close>

definition range_key :: "port_range \<Rightarrow> int \<times> int" where
  "range_key r = (pr_from r, pr_to r)"

definition sort_port_ranges :: "port_range list \<Rightarrow> port_range list" where
  "sort_port_ranges rs = sort_key range_key rs"

text \<open>\<open>merged\<close> is kept in reverse, so that its last element is the head.\<close>

fun merge_step :: "port_range list \<Rightarrow> port_range \<Rightarrow> port_range list" where
  "merge_step [] c = [c]"
| "merge_step (m # ms) c =
     (if pr_to m + 1 < pr_from c then c # m # ms
      else if pr_to m < pr_to c then m\<lparr>pr_to := pr_to c\<rparr> # ms
      else m # ms)"

definition merge_port_ranges :: "port_range list \<Rightarrow> port_range list" where
  "merge_port_ranges rs = (if length rs < 2 then rs else rev (foldl merge_step [] rs))"

definition format_ports :: "port_range list \<Rightarrow> string" where
  "format_ports rs = join_with '', ''
     (map (\<lambda>r. if pr_from r = pr_to r then itoa (pr_from r)
               else itoa (pr_from r) @ ''-'' @ itoa (pr_to r)) rs)"

section \<open>Protocols and sources\<close>

definition normalize_protocols :: "string list \<Rightarrow> string list" where
  "normalize_protocols vs =
     (let ws = map (\<lambda>v. to_lower (trim_space v)) vs
      in filter (\<lambda>p. p \<in> set ws) [''tcp'', ''udp''])"

definition source_prefix :: "string \<Rightarrow> netprefix result" where
  "source_prefix v =
     (case parse_addr v of
        Some a \<Rightarrow> (let u = unmap a in Inr (prefix_from u (bit_len u)))
      | None \<Rightarrow>
          (case parse_prefix v of
             None \<Rightarrow> Err ''INVALID_FIREWALL_SOURCE''
           | Some p \<Rightarrow> Inr (masked p)))"

definition normalize_source :: "bool \<Rightarrow> string \<Rightarrow> string result" where
  "normalize_source reject_global v =
     (case source_prefix v of
        Inl e \<Rightarrow> Inl e
      | Inr p \<Rightarrow>
          if is_loopback (pf_addr p) \<or> is_unspecified (pf_addr p) then Err ''INVALID_FIREWALL_SOURCE''
          else if reject_global \<and> pf_bits p = 0 then Err ''INVALID_FIREWALL_SOURCE''
          else Inr (prefix_string p))"

definition normalize_sources :: "string list \<Rightarrow> bool \<Rightarrow> string list result" where
  "normalize_sources vs reject_global =
     (case map_result (normalize_source reject_global) (filter (\<lambda>v. v \<noteq> []) (map trim_space vs)) of
        Inl e \<Rightarrow> Inl e
      | Inr ps \<Rightarrow> Inr (sort (remdups ps)))"

section \<open>Rules\<close>

definition port_error :: "int \<Rightarrow> port_range \<Rightarrow> string option" where
  "port_error port r =
     (if pr_from r < 1 \<or> 65535 < pr_from r \<or> pr_to r < pr_from r \<or> 65535 < pr_to r
      then Some ''INVALID_FIREWALL_RULE''
      else if pr_from r \<le> port \<and> port \<le> pr_to r then Some ''FIREWALL_PROTECTED_PORT''
      else None)"

fun check_ports :: "int \<Rightarrow> port_range list \<Rightarrow> unit result" where
  "check_ports port [] = Inr ()"
| "check_ports port (r # rs) =
     (case port_error port r of Some c \<Rightarrow> Err c | None \<Rightarrow> check_ports port rs)"

definition normalize_rule :: "int \<Rightarrow> string \<Rightarrow> rule_input \<Rightarrow> rule result" where
  "normalize_rule port i inp =
     (if trim_space i = [] then Err ''INVALID_FIREWALL_RULE''
      else
        let protocols = normalize_protocols (ri_protocols inp) in
        if protocols = [] then Err ''INVALID_FIREWALL_RULE''
        else if ri_ports inp = [] then Err ''INVALID_FIREWALL_RULE''
        else case check_ports port (ri_ports inp) of
          Inl e \<Rightarrow> Inl e
        | Inr _ \<Rightarrow>
            let ports = merge_port_ranges (sort_port_ranges (ri_ports inp)) in
            (case normalize_sources (ri_sources inp) True of
               Inl e \<Rightarrow> Inl e
             | Inr sources \<Rightarrow>
                 if sources = [] then Err ''INVALID_FIREWALL_RULE''
                 else let note = trim_space (ri_note inp)
                      in if 300 < rune_count note then Err ''INVALID_FIREWALL_RULE''
                         else Inr \<lparr>ru_id = i, ru_enabled = ri_enabled inp, ru_protocols = protocols,
                                    ru_ports = ports, ru_sources = sources, ru_note = note,
                                    ru_created = 0, ru_updated = 0\<rparr>))"

definition rule_as_input :: "rule \<Rightarrow> rule_input" where
  "rule_as_input r =
     \<lparr>ri_enabled = ru_enabled r, ri_protocols = ru_protocols r, ri_ports = ru_ports r,
       ri_sources = ru_sources r, ri_note = ru_note r\<rparr>"

text \<open>The ports of the enabled rules for one protocol, in rule order: \<open>byProtocol[protocol]\<close>.\<close>

definition ports_of :: "string \<Rightarrow> rule list \<Rightarrow> port_range list" where
  "ports_of proto rs =
     concat (map (\<lambda>r. if ru_enabled r
                      then concat (map (\<lambda>p. if p = proto then ru_ports r else []) (ru_protocols r))
                      else []) rs)"

fun overlapping :: "port_range list \<Rightarrow> bool" where
  "overlapping (a # b # rs) = (pr_from b \<le> pr_to a \<or> overlapping (b # rs))"
| "overlapping _ = False"

fun check_rules :: "int \<Rightarrow> string list \<Rightarrow> rule list \<Rightarrow> unit result" where
  "check_rules port ids [] = Inr ()"
| "check_rules port ids (r # rs) =
     (if ru_id r = [] then Err ''INVALID_FIREWALL_RULE''
      else if ru_id r \<in> set ids then Err ''INVALID_FIREWALL_RULE''
      else case normalize_rule port (ru_id r) (rule_as_input r) of
        Inl e \<Rightarrow> Inl e
      | Inr _ \<Rightarrow> check_rules port (ru_id r # ids) rs)"

text \<open>
  The map \<open>byProtocol\<close> is walked in an unspecified order; the outcome does not depend on it, as
  every conflict is the same error.
\<close>

definition protocol_keys :: "rule list \<Rightarrow> string list" where
  "protocol_keys rs = [''tcp'', ''udp''] @ concat (map ru_protocols (filter ru_enabled rs))"

definition validate_state :: "int \<Rightarrow> fw_state \<Rightarrow> unit result" where
  "validate_state port st =
     (if fw_schema st \<noteq> 1 \<or> fw_revision st < 0 then Err ''INVALID_FIREWALL_STATE''
      else if sa_ttl (fw_system st) < 60 \<or> 3600 < sa_ttl (fw_system st)
      then Err ''INVALID_FIREWALL_SYSTEM''
      else case normalize_sources (sa_controls (fw_system st)) False of
        Inl e \<Rightarrow> Inl e
      | Inr controls \<Rightarrow>
          if sa_enabled (fw_system st) \<and> controls = [] then Err ''FIREWALL_LOCKOUT_RISK''
          else case check_rules port [] (fw_rules st) of
            Inl e \<Rightarrow> Inl e
          | Inr _ \<Rightarrow>
              if list_ex (\<lambda>p. overlapping (sort_port_ranges (ports_of p (fw_rules st))))
                   (protocol_keys (fw_rules st))
              then Err ''FIREWALL_RULE_CONFLICT'' else Inr ())"

definition state_active :: "fw_state \<Rightarrow> bool" where
  "state_active st \<longleftrightarrow> sa_enabled (fw_system st) \<or> list_ex ru_enabled (fw_rules st)"

section \<open>The nftables script\<close>

text \<open>
  \<open>compactPrefixes\<close>: the prefixes by length, each kept unless an earlier one contains its address.
\<close>

definition prefix_key :: "netprefix \<Rightarrow> int \<times> int \<times> int \<times> string" where
  "prefix_key p = (int (pf_bits p), addr_key (pf_addr p))"

definition compact_step :: "netprefix list \<Rightarrow> netprefix \<Rightarrow> netprefix list" where
  "compact_step kept c =
     (if list_ex (\<lambda>e. contains_addr e (pf_addr c)) kept then kept else kept @ [c])"

definition compact_prefixes :: "netprefix list \<Rightarrow> netprefix list" where
  "compact_prefixes ps = foldl compact_step [] (sort_key prefix_key ps)"

definition parse_source :: "string \<Rightarrow> netprefix result" where
  "parse_source s = (case parse_prefix s of None \<Rightarrow> Err ''PARSE'' | Some p \<Rightarrow> Inr (masked p))"

definition split_prefixes :: "string list \<Rightarrow> (netprefix list \<times> netprefix list) result" where
  "split_prefixes vs =
     (case map_result parse_source vs of
        Inl e \<Rightarrow> Inl e
      | Inr ps \<Rightarrow> Inr (compact_prefixes (filter (\<lambda>p. is4 (pf_addr p)) ps),
                       compact_prefixes (filter (\<lambda>p. \<not> is4 (pf_addr p)) ps)))"

text \<open>
  \<open>formatDuration\<close>: whole seconds, rounded up, at least one. The code computes in \<open>float64\<close>, which is
  exact for the durations used (at most an hour).
\<close>

definition format_duration :: "int \<Rightarrow> string" where
  "format_duration v = itoa (max 1 (- ((- v) div 1000000000))) @ ''s''"

text \<open>
  \<open>activeGrantElements\<close>: the addresses with a grant that has not expired, each with the longest
  remaining time, in address order.
\<close>

fun remaining_grants :: "int \<Rightarrow> grant list \<Rightarrow> (addr, int) gomap \<Rightarrow> (addr, int) gomap result" where
  "remaining_grants now [] m = Inr m"
| "remaining_grants now (g # gs) m =
     (if \<not> now < gr_expires g then remaining_grants now gs m
      else case parse_addr (gr_source g) of
        None \<Rightarrow> Err ''PARSE''
      | Some a0 \<Rightarrow>
          let a = unmap a0; d = gr_expires g - now;
              old = (case aget m a of None \<Rightarrow> 0 | Some x \<Rightarrow> x)
          in remaining_grants now gs (if old < d then aput a d m else m))"

definition active_grant_elements ::
  "grant list \<Rightarrow> int \<Rightarrow> ((addr \<times> int) list \<times> (addr \<times> int) list) result" where
  "active_grant_elements gs now =
     (case remaining_grants now gs [] of
        Inl e \<Rightarrow> Inl e
      | Inr m \<Rightarrow>
          let xs = sort_key (\<lambda>p. addr_key (fst p)) m
          in Inr (filter (\<lambda>p. is4 (fst p)) xs, filter (\<lambda>p. \<not> is4 (fst p)) xs))"

definition grant_element :: "addr \<times> int \<Rightarrow> string" where
  "grant_element p = addr_string (fst p) @ '' timeout '' @ format_duration (snd p)"

definition write_set :: "string \<Rightarrow> string \<Rightarrow> string \<Rightarrow> string list \<Rightarrow> string" where
  "write_set name addr_type flags elements =
     ''  set '' @ name @ '' {'' @ nl @
     ''    type '' @ addr_type @ nl @
     flags @
     (if elements \<noteq> [] then ''    elements = { '' @ join_with '', '' elements @ '' }'' @ nl else []) @
     ''  }'' @ nl"

definition write_static_set :: "string \<Rightarrow> string \<Rightarrow> string list \<Rightarrow> string" where
  "write_static_set name addr_type elements =
     write_set name addr_type (''    flags interval'' @ nl) elements"

definition write_timeout_set :: "string \<Rightarrow> string \<Rightarrow> string list \<Rightarrow> string" where
  "write_timeout_set name addr_type elements =
     write_set name addr_type
       (''    flags timeout'' @ nl @ ''    timeout '' @ format_duration 600000000000 @ nl) elements"

datatype nft_rule =
    AcceptLoopback
  | AcceptEstablished
  | AcceptSet bool string int
  | DropDaemon int
  | AcceptFrom bool "netprefix list" string "port_range list"
  | DropPorts string "port_range list"

definition family :: "bool \<Rightarrow> string" where
  "family six = (if six then ''ip6'' else ''ip'')"

fun print_rule :: "nft_rule \<Rightarrow> string" where
  "print_rule AcceptLoopback = ''    iifname '' @ [CHR 0x22] @ ''lo'' @ [CHR 0x22] @ '' accept'' @ nl"
| "print_rule AcceptEstablished = ''    ct state established,related accept'' @ nl"
| "print_rule (AcceptSet six name port) =
     ''    '' @ family six @ '' saddr @'' @ name @ '' tcp dport '' @ itoa port @ '' accept'' @ nl"
| "print_rule (DropDaemon port) = ''    tcp dport '' @ itoa port @ '' drop'' @ nl"
| "print_rule (AcceptFrom six ps proto rs) =
     ''    '' @ family six @ '' saddr { '' @ join_with '', '' (map prefix_string ps) @ '' } '' @ proto @
     '' dport { '' @ format_ports rs @ '' } accept'' @ nl"
| "print_rule (DropPorts proto rs) =
     ''    '' @ proto @ '' dport { '' @ format_ports rs @ '' } drop'' @ nl"

definition system_chain :: "int \<Rightarrow> nft_rule list" where
  "system_chain port =
     [AcceptEstablished,
      AcceptSet False ''prismpanel_control4'' port, AcceptSet True ''prismpanel_control6'' port,
      AcceptSet False ''prismpanel_direct_grants4'' port,
      AcceptSet True ''prismpanel_direct_grants6'' port,
      DropDaemon port]"

definition rule_chain :: "rule \<Rightarrow> nft_rule list result" where
  "rule_chain r =
     (if \<not> ru_enabled r then Inr []
      else case split_prefixes (ru_sources r) of
        Inl e \<Rightarrow> Inl e
      | Inr (s4, s6) \<Rightarrow>
          Inr (concat (map (\<lambda>proto.
            (if s4 \<noteq> [] then [AcceptFrom False s4 proto (ru_ports r)] else []) @
            (if s6 \<noteq> [] then [AcceptFrom True s6 proto (ru_ports r)] else [])) (ru_protocols r))))"

definition drop_chain :: "rule list \<Rightarrow> nft_rule list" where
  "drop_chain rs =
     concat (map (\<lambda>proto. if ports_of proto rs = [] then []
                          else [DropPorts proto (merge_port_ranges (ports_of proto rs))])
       [''tcp'', ''udp''])"

definition chain_of :: "fw_state \<Rightarrow> int \<Rightarrow> nft_rule list result" where
  "chain_of st port =
     (case map_result rule_chain (fw_rules st) of
        Inl e \<Rightarrow> Inl e
      | Inr css \<Rightarrow>
          Inr (AcceptLoopback #
               (if sa_enabled (fw_system st) then system_chain port else []) @
               concat css @ drop_chain (fw_rules st)))"

definition write_sets :: "fw_state \<Rightarrow> netprefix list \<Rightarrow> netprefix list \<Rightarrow> (addr \<times> int) list
    \<Rightarrow> (addr \<times> int) list \<Rightarrow> string" where
  "write_sets st c4 c6 g4 g6 =
     (if sa_enabled (fw_system st) then
        write_static_set ''prismpanel_control4'' ''ipv4_addr'' (map prefix_string c4) @
        write_static_set ''prismpanel_control6'' ''ipv6_addr'' (map prefix_string c6) @
        write_timeout_set ''prismpanel_direct_grants4'' ''ipv4_addr'' (map grant_element g4) @
        write_timeout_set ''prismpanel_direct_grants6'' ''ipv6_addr'' (map grant_element g6)
      else [])"

definition render_script :: "fw_state \<Rightarrow> grant list \<Rightarrow> int \<Rightarrow> int \<Rightarrow> bool \<Rightarrow> string result" where
  "render_script st grants now port present =
     (let head = (if present then ''delete table inet prismpanel'' @ nl else [])
      in if \<not> state_active st then Inr head
         else case split_prefixes (sa_controls (fw_system st)) of
           Inl e \<Rightarrow> Inl e
         | Inr (c4, c6) \<Rightarrow>
             (case active_grant_elements grants now of
                Inl e \<Rightarrow> Inl e
              | Inr (g4, g6) \<Rightarrow>
                  (case chain_of st port of
                     Inl e \<Rightarrow> Inl e
                   | Inr chain \<Rightarrow>
                       Inr (head @ ''table inet prismpanel {'' @ nl @
                            write_sets st c4 c6 g4 g6 @
                            ''  chain input {'' @ nl @
                            ''    type filter hook input priority filter; policy accept;'' @ nl @
                            concat (map print_rule chain) @
                            ''  }'' @ nl @ ''}'' @ nl))))"

section \<open>The observed table\<close>

text \<open>
  \<open>normalizeObservedTable\<close> drops what changes by itself (the elements of the two grant sets) before
  the table is hashed. The two depths are the state of the loop.
\<close>

definition braces :: "string \<Rightarrow> int" where
  "braces line = count_char (CHR ''{'') line - count_char (CHR ''}'') line"

fun observe :: "int \<Rightarrow> int \<Rightarrow> string list \<Rightarrow> string list" where
  "observe dyn skip [] = []"
| "observe dyn skip (line # ls) =
     (let trimmed = trim_space line; clean = join_with '' '' (str_fields trimmed)
      in if 0 < skip then
           (let s = skip + braces line in observe dyn (if s < 1 then 0 else s) ls)
         else if 0 < dyn \<and> has_prefix trimmed ''elements'' then
           observe dyn (if 0 < braces line then braces line else skip) ls
         else if dyn = 0 \<and> (has_prefix trimmed ''set prismpanel_direct_grants4'' \<or>
                             has_prefix trimmed ''set prismpanel_direct_grants6'') then
           clean # observe (braces line) skip ls
         else if trimmed = [] then observe dyn skip ls
         else if 0 < dyn then
           (let d = dyn + braces line in clean # observe (if d < 1 then 0 else d) skip ls)
         else clean # observe dyn skip ls)"

definition normalize_observed :: "string \<Rightarrow> string" where
  "normalize_observed value = join_with nl (observe 0 0 (split_on (CHR 0x0A) value))"

end
