(* ===== verification/Firewall_Laws.thy ===== *)
theory Firewall_Laws
  imports Firewall
begin

text \<open>
  The laws of the rule level of the firewall: merging sorted ranges keeps the ports they cover and
  leaves gaps between the results; compacting prefixes keeps the addresses they contain; and the
  chain of a state, read as a packet filter, is the white list the rules describe, provided the
  port ranges of the enabled rules come in ascending order.
\<close>

section \<open>Port ranges\<close>

definition in_range :: "int \<Rightarrow> port_range \<Rightarrow> bool" where
  "in_range p r \<longleftrightarrow> pr_from r \<le> p \<and> p \<le> pr_to r"

definition covers :: "port_range list \<Rightarrow> int \<Rightarrow> bool" where
  "covers rs p \<longleftrightarrow> list_ex (in_range p) rs"

definition valid_range :: "port_range \<Rightarrow> bool" where
  "valid_range r \<longleftrightarrow> pr_from r \<le> pr_to r"

text \<open>Separated ranges, latest first: there is a gap before each.\<close>

fun separated_rev :: "port_range list \<Rightarrow> bool" where
  "separated_rev (b # a # rs) = (pr_to a + 1 < pr_from b \<and> separated_rev (a # rs))"
| "separated_rev _ = True"

lemma covers_simps [simp]:
  "covers [] p = False" "covers (r # rs) p = (in_range p r \<or> covers rs p)"
  "covers (rs @ rs') p = (covers rs p \<or> covers rs' p)" "covers (rev rs) p = covers rs p"
  by (auto simp: covers_def list_ex_iff)

lemma covers_sort [simp]: "covers (sort_port_ranges rs) p = covers rs p"
  by (simp add: covers_def sort_port_ranges_def list_ex_iff)

lemma merge_step_facts:
  assumes "list_all valid_range ms" "valid_range c" "\<forall>m \<in> set ms. pr_from m \<le> pr_from c"
  shows "covers (merge_step ms c) p \<longleftrightarrow> covers ms p \<or> in_range p c"
    and "list_all valid_range (merge_step ms c)"
    and "\<forall>m \<in> set (merge_step ms c). pr_from m \<le> pr_from c"
    and "separated_rev ms \<Longrightarrow> separated_rev (merge_step ms c)"
proof -
  show "covers (merge_step ms c) p \<longleftrightarrow> covers ms p \<or> in_range p c"
    using assms by (cases ms) (auto simp: in_range_def valid_range_def)
  show "list_all valid_range (merge_step ms c)"
    using assms by (cases ms) (auto simp: valid_range_def)
  show "\<forall>m \<in> set (merge_step ms c). pr_from m \<le> pr_from c"
    using assms by (cases ms) auto
  show "separated_rev ms \<Longrightarrow> separated_rev (merge_step ms c)"
    using assms by (cases ms; cases "tl ms") auto
qed

lemma merge_fold_facts:
  assumes "sorted (map pr_from rs)" and "list_all valid_range rs" and "list_all valid_range ms"
    and "\<forall>m \<in> set ms. \<forall>r \<in> set rs. pr_from m \<le> pr_from r"
  shows "covers (foldl merge_step ms rs) p \<longleftrightarrow> covers ms p \<or> covers rs p"
    and "separated_rev ms \<Longrightarrow> separated_rev (foldl merge_step ms rs)"
    and "list_all valid_range (foldl merge_step ms rs)"
  using assms
proof (induction rs arbitrary: ms)
  case (Cons c rs)
  {
    case 1
    then have "covers (foldl merge_step (merge_step ms c) rs) p \<longleftrightarrow>
        covers (merge_step ms c) p \<or> covers rs p"
      using merge_step_facts [of ms c] by (intro Cons.IH(1)) (fastforce intro: order_trans)+
    with 1 merge_step_facts(1) [of ms c p] show ?case by auto
  next
    case 2
    then have "separated_rev (foldl merge_step (merge_step ms c) rs)"
      using merge_step_facts [of ms c] by (intro Cons.IH(2)) (fastforce intro: order_trans)+
    then show ?case by simp
  next
    case 3
    then have "list_all valid_range (foldl merge_step (merge_step ms c) rs)"
      using merge_step_facts [of ms c] by (intro Cons.IH(3)) (fastforce intro: order_trans)+
    then show ?case by simp
  }
qed simp_all

lemma merge_fold: "merge_port_ranges rs = rev (foldl merge_step [] rs)"
  by (cases rs; cases "tl rs") (auto simp: merge_port_ranges_def)

lemma merge_covers:
  "sorted (map pr_from rs) \<Longrightarrow> list_all valid_range rs \<Longrightarrow> covers (merge_port_ranges rs) p = covers rs p"
  using merge_fold_facts(1) [of rs "[]" p] by (simp add: merge_fold)

lemma merge_separated:
  "sorted (map pr_from rs) \<Longrightarrow> list_all valid_range rs \<Longrightarrow> separated_rev (rev (merge_port_ranges rs))"
  using merge_fold_facts(2) [of rs "[]"] by (simp add: merge_fold)

lemma merge_valid:
  "sorted (map pr_from rs) \<Longrightarrow> list_all valid_range rs \<Longrightarrow> list_all valid_range (merge_port_ranges rs)"
  using merge_fold_facts(3) [of rs "[]"] by (simp add: merge_fold list_all_rev)

lemma sorted_map_mono:
  assumes "sorted (map f xs)" and "\<And>x y. f x \<le> f y \<Longrightarrow> g x \<le> g y"
  shows "sorted (map g xs)"
  using assms(1) by (induction xs) (auto intro: assms(2))

lemma sorted_from: "sorted (map pr_from (sort_port_ranges rs))"
proof -
  have "sorted (map range_key (sort_port_ranges rs))"
    by (simp add: sort_port_ranges_def)
  then show ?thesis
    by (rule sorted_map_mono) (auto simp: range_key_def less_eq_prod_def)
qed

lemma valid_sort [simp]: "list_all valid_range (sort_port_ranges rs) = list_all valid_range rs"
  by (simp add: sort_port_ranges_def list_all_iff)

lemma in_range_valid: "in_range p r \<Longrightarrow> valid_range r"
  by (simp add: in_range_def valid_range_def)

text \<open>Separated ranges are left alone by sorting and merging.\<close>

lemma separated_snoc:
  "separated_rev (rev (rs @ [a, b])) \<longleftrightarrow> pr_to a + 1 < pr_from b \<and> separated_rev (rev (rs @ [a]))"
  by simp

lemma separated_above:
  "separated_rev (b # ms) \<Longrightarrow> list_all valid_range (b # ms) \<Longrightarrow> m \<in> set ms \<Longrightarrow> pr_to m + 1 < pr_from b"
proof (induction ms arbitrary: b)
  case (Cons a ms)
  show ?case
  proof (cases "m = a")
    case False
    then have "pr_to m + 1 < pr_from a" using Cons by auto
    then show ?thesis using Cons.prems by (simp add: valid_range_def)
  qed (use Cons.prems in simp)
qed simp

lemma merge_fixed:
  assumes "separated_rev (rev rs)" and "list_all valid_range rs"
  shows "foldl merge_step [] rs = rev rs"
  using assms
proof (induction rs rule: rev_induct)
  case (snoc b rs)
  show ?case
  proof (cases "rev rs")
    case Nil
    then show ?thesis by simp
  next
    case (Cons a ms)
    then have sep: "pr_to a + 1 < pr_from b" "separated_rev (rev rs)"
      using snoc.prems by simp_all
    then show ?thesis using snoc Cons by simp
  qed
qed simp

lemma separated_sorted:
  assumes "separated_rev (rev rs)" and "list_all valid_range rs"
  shows "sorted (map range_key rs)"
  using assms
proof (induction rs rule: rev_induct)
  case (snoc b rs)
  have sep: "separated_rev (rev rs)"
    using snoc.prems(1) by (cases "rev rs") auto
  have "range_key m \<le> range_key b" if "m \<in> set rs" for m
  proof -
    have "pr_to m + 1 < pr_from b"
      using separated_above [of b "rev rs" m] snoc.prems that by (simp add: list_all_rev)
    moreover have "valid_range m" using snoc.prems(2) that by (simp add: list_all_iff)
    ultimately show ?thesis by (simp add: range_key_def valid_range_def less_eq_prod_def)
  qed
  with snoc sep show ?case by (auto simp: sorted_append)
qed simp

lemma normal_ports_fixed:
  assumes "separated_rev (rev rs)" and "list_all valid_range rs"
  shows "merge_port_ranges (sort_port_ranges rs) = rs"
proof -
  have "sort_port_ranges rs = rs"
    unfolding sort_port_ranges_def
    using separated_sorted [OF assms] by (rule sort_key_id_if_sorted)
  then show ?thesis using merge_fixed [OF assms] by (simp add: merge_fold)
qed

section \<open>Prefixes\<close>

definition in_prefixes :: "netprefix list \<Rightarrow> addr \<Rightarrow> bool" where
  "in_prefixes ps a \<longleftrightarrow> list_ex (\<lambda>p. contains_addr p a) ps"

lemma in_prefixes_simps [simp]:
  "in_prefixes [] a = False" "in_prefixes (p # ps) a = (contains_addr p a \<or> in_prefixes ps a)"
  "in_prefixes (ps @ qs) a = (in_prefixes ps a \<or> in_prefixes qs a)"
  by (auto simp: in_prefixes_def)

lemma compact_fold:
  assumes "sorted (map (\<lambda>p. int (pf_bits p)) ps)"
    and "\<forall>k \<in> set kept. \<forall>p \<in> set ps. pf_bits k \<le> pf_bits p"
  shows "in_prefixes (foldl compact_step kept ps) a \<longleftrightarrow> in_prefixes kept a \<or> in_prefixes ps a"
  using assms
proof (induction ps arbitrary: kept)
  case (Cons c ps)
  have "in_prefixes (compact_step kept c) a \<longleftrightarrow> in_prefixes kept a \<or> contains_addr c a"
  proof (cases "list_ex (\<lambda>e. contains_addr e (pf_addr c)) kept")
    case True
    then obtain e where "e \<in> set kept" "contains_addr e (pf_addr c)" by (auto simp: list_ex_iff)
    then have "contains_addr c a \<Longrightarrow> in_prefixes kept a"
      using contains_addr_trans [of e c a] Cons.prems(2) by (auto simp: in_prefixes_def list_ex_iff)
    then show ?thesis using True by (auto simp: compact_step_def)
  next
    case False
    then show ?thesis by (simp add: compact_step_def)
  qed
  moreover have "in_prefixes (foldl compact_step (compact_step kept c) ps) a \<longleftrightarrow>
      in_prefixes (compact_step kept c) a \<or> in_prefixes ps a"
    using Cons.prems by (intro Cons.IH) (auto simp: compact_step_def)
  ultimately show ?case by auto
qed simp

lemma compact_prefixes_in: "in_prefixes (compact_prefixes ps) a = in_prefixes ps a"
proof -
  have "sorted (map prefix_key (sort_key prefix_key ps))" by simp
  then have "sorted (map (\<lambda>p. int (pf_bits p)) (sort_key prefix_key ps))"
    by (rule sorted_map_mono) (auto simp: prefix_key_def less_eq_prod_def)
  from compact_fold [OF this, of "[]" a] show ?thesis
    by (simp add: compact_prefixes_def in_prefixes_def list_ex_iff)
qed

text \<open>A source list admits an address when one of its prefixes contains it.\<close>

definition admits :: "string list \<Rightarrow> addr \<Rightarrow> bool" where
  "admits sources a \<longleftrightarrow>
     list_ex (\<lambda>s. case parse_prefix s of None \<Rightarrow> False | Some p \<Rightarrow> contains_addr (masked p) a) sources"

lemma contains_family: "contains_addr p a \<Longrightarrow> is4 (pf_addr p) = is4 a"
  by (cases "pf_addr p"; cases a) (simp_all add: contains_addr_def is4_def)

lemma parsed_sources:
  "map_result parse_source vs = Inr ps \<Longrightarrow> in_prefixes ps a = admits vs a"
proof (induction vs arbitrary: ps)
  case (Cons v vs)
  then obtain p qs where p: "parse_source v = Inr p" and qs: "map_result parse_source vs = Inr qs"
    and ps: "ps = p # qs" by (auto split: sum.splits)
  from p obtain q where "parse_prefix v = Some q" "p = masked q"
    by (auto simp: parse_source_def split: option.splits)
  then show ?case using Cons.IH [OF qs] by (simp add: ps admits_def)
qed (simp add: admits_def)

lemma in_prefixes_filter:
  "in_prefixes (filter (\<lambda>p. is4 (pf_addr p) = b) ps) a \<longleftrightarrow> is4 a = b \<and> in_prefixes ps a"
  by (induction ps) (auto dest: contains_family)

lemma split_prefixes_in:
  assumes "split_prefixes vs = Inr (s4, s6)"
  shows "in_prefixes s4 a \<longleftrightarrow> is4 a \<and> admits vs a" and "in_prefixes s6 a \<longleftrightarrow> \<not> is4 a \<and> admits vs a"
proof -
  from assms obtain ps where ps: "map_result parse_source vs = Inr ps"
    "s4 = compact_prefixes (filter (\<lambda>p. is4 (pf_addr p)) ps)"
    "s6 = compact_prefixes (filter (\<lambda>p. \<not> is4 (pf_addr p)) ps)"
    by (auto simp: split_prefixes_def split: sum.splits)
  show "in_prefixes s4 a \<longleftrightarrow> is4 a \<and> admits vs a" and "in_prefixes s6 a \<longleftrightarrow> \<not> is4 a \<and> admits vs a"
    using parsed_sources [OF ps(1), of a] in_prefixes_filter [of True ps a] in_prefixes_filter [of False ps a]
    by (auto simp: ps(2,3) compact_prefixes_in)
qed

section \<open>The chain as a packet filter\<close>

text \<open>
  What the kernel does with the chain: the first rule that matches decides, and the policy accepts.
  \<open>sets\<close> is the contents of the named address sets.
\<close>

record packet =
  pk_loopback :: bool
  pk_established :: bool
  pk_src :: addr
  pk_proto :: string
  pk_port :: int

fun rule_matches :: "(string \<Rightarrow> addr \<Rightarrow> bool) \<Rightarrow> packet \<Rightarrow> nft_rule \<Rightarrow> bool" where
  "rule_matches sets k AcceptLoopback = pk_loopback k"
| "rule_matches sets k AcceptEstablished = pk_established k"
| "rule_matches sets k (AcceptSet six name port) =
     (is4 (pk_src k) = (\<not> six) \<and> sets name (pk_src k) \<and> pk_proto k = ''tcp'' \<and> pk_port k = port)"
| "rule_matches sets k (DropDaemon port) = (pk_proto k = ''tcp'' \<and> pk_port k = port)"
| "rule_matches sets k (AcceptFrom six ps proto rs) =
     (is4 (pk_src k) = (\<not> six) \<and> in_prefixes ps (pk_src k) \<and> pk_proto k = proto \<and> covers rs (pk_port k))"
| "rule_matches sets k (DropPorts proto rs) = (pk_proto k = proto \<and> covers rs (pk_port k))"

fun accepts :: "nft_rule \<Rightarrow> bool" where
  "accepts (DropDaemon _) = False"
| "accepts (DropPorts _ _) = False"
| "accepts _ = True"

fun verdict :: "(string \<Rightarrow> addr \<Rightarrow> bool) \<Rightarrow> packet \<Rightarrow> nft_rule list \<Rightarrow> bool" where
  "verdict sets k [] = True"
| "verdict sets k (r # rs) = (if rule_matches sets k r then accepts r else verdict sets k rs)"

lemma verdict_accepting:
  "list_all accepts xs \<Longrightarrow>
     verdict sets k (xs @ ys) \<longleftrightarrow> list_ex (rule_matches sets k) xs \<or> verdict sets k ys"
  by (induction xs) auto

lemma verdict_dropping:
  "list_all (\<lambda>r. \<not> accepts r) xs \<Longrightarrow> verdict sets k xs \<longleftrightarrow> \<not> list_ex (rule_matches sets k) xs"
  by (induction xs) auto

lemma verdict_unmatched:
  "\<not> list_ex (rule_matches sets k) xs \<Longrightarrow> verdict sets k (xs @ ys) = verdict sets k ys"
  by (induction xs) auto

definition rule_opens :: "packet \<Rightarrow> rule \<Rightarrow> bool" where
  "rule_opens k r \<longleftrightarrow> ru_enabled r \<and> pk_proto k \<in> set (ru_protocols r) \<and> covers (ru_ports r) (pk_port k)"

lemma rule_chain_matches:
  assumes "rule_chain r = Inr ch"
  shows "list_all accepts ch"
    and "list_ex (rule_matches sets k) ch \<longleftrightarrow> rule_opens k r \<and> admits (ru_sources r) (pk_src k)"
proof -
  show "list_all accepts ch"
    using assms by (auto simp: rule_chain_def list_all_iff split: if_splits sum.splits)
  show "list_ex (rule_matches sets k) ch \<longleftrightarrow> rule_opens k r \<and> admits (ru_sources r) (pk_src k)"
  proof (cases "ru_enabled r")
    case False
    then show ?thesis using assms by (auto simp: rule_chain_def rule_opens_def)
  next
    case True
    with assms obtain s4 s6 where s: "split_prefixes (ru_sources r) = Inr (s4, s6)"
      and ch: "ch = concat (map (\<lambda>proto.
            (if s4 \<noteq> [] then [AcceptFrom False s4 proto (ru_ports r)] else []) @
            (if s6 \<noteq> [] then [AcceptFrom True s6 proto (ru_ports r)] else [])) (ru_protocols r))"
      by (auto simp: rule_chain_def split: sum.splits)
    note in_s = split_prefixes_in [OF s, of "pk_src k"]
    have "list_ex (rule_matches sets k)
        ((if s4 \<noteq> [] then [AcceptFrom False s4 proto (ru_ports r)] else []) @
         (if s6 \<noteq> [] then [AcceptFrom True s6 proto (ru_ports r)] else [])) \<longleftrightarrow>
        pk_proto k = proto \<and> covers (ru_ports r) (pk_port k) \<and> admits (ru_sources r) (pk_src k)" for proto
      using in_s by (cases "s4 = []"; cases "s6 = []") auto
    then show ?thesis
      unfolding ch using True
      by (induction "ru_protocols r") (auto simp: rule_opens_def list_ex_iff)
  qed
qed

lemma rules_chain_matches:
  assumes "map_result rule_chain rs = Inr css"
  shows "list_all accepts (concat css)"
    and "list_ex (rule_matches sets k) (concat css) \<longleftrightarrow>
      (\<exists>r \<in> set rs. rule_opens k r \<and> admits (ru_sources r) (pk_src k))"
proof -
  from assms have all: "list_all2 (\<lambda>r ch. rule_chain r = Inr ch) rs css"
    by (simp add: map_result_Inr_iff)
  show "list_all accepts (concat css)"
    using all by (induction rule: list_all2_induct) (auto dest: rule_chain_matches(1))
  show "list_ex (rule_matches sets k) (concat css) \<longleftrightarrow>
      (\<exists>r \<in> set rs. rule_opens k r \<and> admits (ru_sources r) (pk_src k))"
    using all by (induction rule: list_all2_induct) (auto simp: rule_chain_matches(2))
qed

lemma ports_of_covers:
  "covers (ports_of proto rs) p \<longleftrightarrow>
     (\<exists>r \<in> set rs. ru_enabled r \<and> proto \<in> set (ru_protocols r) \<and> covers (ru_ports r) p)"
proof -
  have c: "covers (concat (map f xs)) p \<longleftrightarrow> (\<exists>x \<in> set xs. covers (f x) p)" for f :: "rule \<Rightarrow> port_range list" and xs
    by (induction xs) auto
  have r: "covers (if ru_enabled r then concat (map (\<lambda>q. if q = proto then ru_ports r else []) (ru_protocols r)) else []) p
      \<longleftrightarrow> ru_enabled r \<and> proto \<in> set (ru_protocols r) \<and> covers (ru_ports r) p" for r
    by (induction "ru_protocols r") (auto simp: covers_def list_ex_iff split: if_splits)
  show ?thesis by (simp only: ports_of_def c r)
qed

lemma drop_chain_matches:
  assumes "pk_proto k = ''tcp'' \<or> pk_proto k = ''udp''"
  shows "list_all (\<lambda>r. \<not> accepts r) (drop_chain rs)"
    and "list_ex (rule_matches sets k) (drop_chain rs) \<longleftrightarrow>
      covers (merge_port_ranges (ports_of (pk_proto k) rs)) (pk_port k)"
proof -
  have empty: "covers (merge_port_ranges []) p \<longleftrightarrow> False" for p by (simp add: merge_port_ranges_def)
  show "list_all (\<lambda>r. \<not> accepts r) (drop_chain rs)" by (simp add: drop_chain_def)
  show "list_ex (rule_matches sets k) (drop_chain rs) \<longleftrightarrow>
      covers (merge_port_ranges (ports_of (pk_proto k) rs)) (pk_port k)"
    using assms empty by (auto simp: drop_chain_def)
qed

lemma chain_verdict:
  assumes chain: "chain_of st port = Inr ch"
    and k: "\<not> pk_loopback k" "\<not> pk_established k" "pk_port k \<noteq> port" "pk_proto k = ''tcp'' \<or> pk_proto k = ''udp''"
  shows "verdict sets k ch \<longleftrightarrow>
    (\<exists>r \<in> set (fw_rules st). rule_opens k r \<and> admits (ru_sources r) (pk_src k)) \<or>
    \<not> covers (merge_port_ranges (ports_of (pk_proto k) (fw_rules st))) (pk_port k)"
proof -
  from chain obtain css where css: "map_result rule_chain (fw_rules st) = Inr css"
    and ch: "ch = (AcceptLoopback # (if sa_enabled (fw_system st) then system_chain port else [])) @
      concat css @ drop_chain (fw_rules st)"
    by (auto simp: chain_of_def split: sum.splits)
  have un: "\<not> list_ex (rule_matches sets k)
      (AcceptLoopback # (if sa_enabled (fw_system st) then system_chain port else []))"
    using k by (simp add: system_chain_def)
  have "verdict sets k ch = verdict sets k (concat css @ drop_chain (fw_rules st))"
    unfolding ch by (rule verdict_unmatched [OF un])
  also have "\<dots> \<longleftrightarrow> list_ex (rule_matches sets k) (concat css) \<or> verdict sets k (drop_chain (fw_rules st))"
    by (rule verdict_accepting [OF rules_chain_matches(1) [OF css]])
  finally show ?thesis
    by (simp add: rules_chain_matches(2) [OF css] drop_chain_matches(2) [OF k(4)]
        verdict_dropping [OF drop_chain_matches(1) [OF k(4)]])
qed

end
