(* ===== verification/FirewallService.thy ===== *)
theory FirewallService
  imports Firewall
begin

text \<open>
  The firewall service of the daemon, \<open>daemon/internal/firewall/service.go\<close>: rules and system access
  under optimistic concurrency (the caller names the revision it saw), short-lived source grants,
  and the comparison of the table in the kernel with the one applied last.

  The service mutex makes every operation one step. What an operation asks of its surroundings is
  the record \<open>env\<close>: the answers of the backend (\<open>nft\<close>), of the state file, of the clock and of the
  random source, at the calls the operation makes. The calls that change the kernel table are
  recorded in \<open>sv_calls\<close>, and what the state file holds in \<open>sv_disk\<close>. \<open>H\<close> is SHA-256 in hexadecimal
  (\<open>hashContents\<close>); nothing depends on which function it is.
\<close>

section \<open>Data\<close>

record backend_status =
  bs_supported :: bool
  bs_reason :: string
  bs_name :: string

datatype observation = Failed string | Absent | Present string

datatype backend_call = ApplyScript string | AddGrantCall addr int | RemoveGrantCall addr

record env =
  en_status :: backend_status
  en_inspect :: observation
  en_apply :: "string option"
  en_inspect2 :: observation
  en_persist :: "string option"
  en_add :: "string option"
  en_remove :: "string \<Rightarrow> string option"
  en_id :: "string option"
  en_now :: int
  en_now_render :: int
  en_now_applied :: int

record service =
  sv_port :: int
  sv_state :: fw_state
  sv_grants :: "(string, grant) gomap"
  sv_backend :: backend_status
  sv_observed :: string
  sv_present :: bool
  sv_drift :: bool
  sv_error :: string
  sv_disk :: "fw_state option"
  sv_calls :: "backend_call list"

record status =
  st_backend :: backend_status
  st_state :: string
  st_revision :: int
  st_desired :: string
  st_observed :: string
  st_present :: bool
  st_drift :: bool
  st_applied :: "int option"
  st_error :: string
  st_system :: system_access
  st_grants :: int

record fw_view =
  vw_status :: status
  vw_rules :: "rule list"
  vw_grants :: "grant list"

definition max_grants :: int where "max_grants = 2048"

definition default_ttl :: int where "default_ttl = 600"

section \<open>Start\<close>

definition initial_state :: fw_state where
  "initial_state = \<lparr>fw_schema = 1, fw_revision = 0, fw_rules = [],
     fw_system = \<lparr>sa_enabled = False, sa_controls = [], sa_ttl = default_ttl\<rparr>,
     fw_applied_hash = [], fw_applied_at = None\<rparr>"

definition empty_service :: "int \<Rightarrow> fw_state option \<Rightarrow> service" where
  "empty_service port disk =
     \<lparr>sv_port = port, sv_state = initial_state, sv_grants = [],
      sv_backend = \<lparr>bs_supported = False, bs_reason = [], bs_name = []\<rparr>,
      sv_observed = [], sv_present = False, sv_drift = False, sv_error = [], sv_disk = disk,
      sv_calls = []\<rparr>"

definition load_rule :: "int \<Rightarrow> rule \<Rightarrow> rule result" where
  "load_rule port r =
     (case normalize_rule port (ru_id r) (rule_as_input r) of
        Inl e \<Rightarrow> Inl e
      | Inr n \<Rightarrow> Inr (n\<lparr>ru_created := ru_created r, ru_updated := ru_updated r\<rparr>))"

text \<open>
  \<open>load\<close> on the decoded contents of the state file; a missing file is \<open>None\<close>. The errors are wrapped
  without a code of their own.
\<close>

definition load_state :: "int \<Rightarrow> fw_state \<Rightarrow> fw_state result" where
  "load_state port st0 =
     (if fw_schema st0 \<noteq> 1 then Err ''SCHEMA''
      else
        let sys0 = fw_system st0;
            ttl = (if sa_ttl sys0 = 0 then default_ttl else sa_ttl sys0)
        in case normalize_sources (sa_controls sys0) False of
          Inl e \<Rightarrow> Inl e
        | Inr controls \<Rightarrow>
            (case map_result (load_rule port) (fw_rules st0) of
               Inl e \<Rightarrow> Inl e
             | Inr rules \<Rightarrow>
                 let st = st0\<lparr>fw_rules := rules,
                              fw_system := sys0\<lparr>sa_ttl := ttl, sa_controls := controls\<rparr>\<rparr>
                 in (case validate_state port st of Inl e \<Rightarrow> Inl e | Inr _ \<Rightarrow> Inr st)))"

definition new_service :: "int \<Rightarrow> fw_state option \<Rightarrow> service result" where
  "new_service port disk =
     (if port < 1 \<or> 65535 < port then Err ''PORT''
      else case disk of
        None \<Rightarrow> Inr (empty_service port None)
      | Some st0 \<Rightarrow>
          (case load_state port st0 of
             Inl e \<Rightarrow> Inl e
           | Inr st \<Rightarrow> Inr ((empty_service port disk)\<lparr>sv_state := st\<rparr>)))"

section \<open>Observation\<close>

definition refresh_observed :: "(string \<Rightarrow> string) \<Rightarrow> observation \<Rightarrow> service \<Rightarrow> service" where
  "refresh_observed H obs s =
     (case obs of
        Failed e \<Rightarrow> s\<lparr>sv_error := e\<rparr>
      | Absent \<Rightarrow> s\<lparr>sv_error := [], sv_present := False, sv_observed := [],
                    sv_drift := state_active (sv_state s)\<rparr>
      | Present contents \<Rightarrow>
          let h = H (normalize_observed contents); a = fw_applied_hash (sv_state s)
          in s\<lparr>sv_error := [], sv_present := True, sv_observed := h, sv_drift := (a = [] \<or> a \<noteq> h)\<rparr>)"

definition prepare_backend :: "env \<Rightarrow> service \<Rightarrow> unit result \<times> service" where
  "prepare_backend e s =
     (let s1 = s\<lparr>sv_backend := en_status e\<rparr>
      in if \<not> bs_supported (en_status e) then (Err ''FIREWALL_UNSUPPORTED'', s1) else (Inr (), s1))"

definition refresh :: "(string \<Rightarrow> string) \<Rightarrow> env \<Rightarrow> service \<Rightarrow> service" where
  "refresh H e s =
     (let s1 = s\<lparr>sv_backend := en_status e\<rparr>
      in if \<not> bs_supported (en_status e) then s1\<lparr>sv_present := False, sv_drift := False\<rparr>
         else refresh_observed H (en_inspect e) s1)"

definition prepare_mutation :: "(string \<Rightarrow> string) \<Rightarrow> env \<Rightarrow> int \<Rightarrow> service \<Rightarrow> unit result \<times> service" where
  "prepare_mutation H e expected s =
     (case prepare_backend e s of
        (Inl x, s1) \<Rightarrow> (Inl x, s1)
      | (Inr _, s1) \<Rightarrow>
          let s2 = refresh_observed H (en_inspect e) s1
          in if sv_drift s2 then (Err ''FIREWALL_DRIFT'', s2)
             else if expected \<noteq> fw_revision (sv_state s2) then (Err ''FIREWALL_REVISION_CONFLICT'', s2)
             else (Inr (), s2))"

definition expire_grants :: "int \<Rightarrow> (string, grant) gomap \<Rightarrow> (string, grant) gomap" where
  "expire_grants now gs = filter (\<lambda>(_, g). now < gr_expires g) gs"

definition status_of :: "service \<Rightarrow> status" where
  "status_of s =
     \<lparr>st_backend = sv_backend s,
      st_state = (if \<not> bs_supported (sv_backend s) then ''UNSUPPORTED''
                  else if sv_error s \<noteq> [] then ''ERROR''
                  else if sv_drift s then ''DRIFT''
                  else if sv_present s then ''APPLIED'' else ''READY''),
      st_revision = fw_revision (sv_state s), st_desired = fw_applied_hash (sv_state s),
      st_observed = sv_observed s, st_present = sv_present s, st_drift = sv_drift s,
      st_applied = fw_applied_at (sv_state s), st_error = sv_error s,
      st_system = fw_system (sv_state s), st_grants = int (length (sv_grants s))\<rparr>"

definition sorted_grants :: "(string, grant) gomap \<Rightarrow> grant list" where
  "sorted_grants gs = sort_key (\<lambda>g. (gr_expires g, gr_source g)) (map snd gs)"

definition view_of :: "service \<Rightarrow> fw_view" where
  "view_of s = \<lparr>vw_status = status_of s, vw_rules = fw_rules (sv_state s),
                 vw_grants = sorted_grants (sv_grants s)\<rparr>"

definition get_status :: "(string \<Rightarrow> string) \<Rightarrow> env \<Rightarrow> service \<Rightarrow> status \<times> service" where
  "get_status H e s = (let s1 = refresh H e s in (status_of s1, s1))"

definition get_view :: "(string \<Rightarrow> string) \<Rightarrow> env \<Rightarrow> service \<Rightarrow> fw_view \<times> service" where
  "get_view H e s =
     (let s1 = refresh H e s; s2 = s1\<lparr>sv_grants := expire_grants (en_now e) (sv_grants s1)\<rparr>
      in (view_of s2, s2))"

section \<open>Applying a candidate\<close>

definition apply_candidate :: "(string \<Rightarrow> string) \<Rightarrow> env \<Rightarrow> fw_state \<Rightarrow> service \<Rightarrow> unit result \<times> service" where
  "apply_candidate H e c s =
     (case validate_state (sv_port s) c of
        Inl x \<Rightarrow> (Inl x, s)
      | Inr _ \<Rightarrow>
          (case render_script c (map snd (sv_grants s)) (en_now_render e) (sv_port s) (sv_present s) of
             Inl x \<Rightarrow> (Err ''INVALID_FIREWALL_RULE'', s)
           | Inr script \<Rightarrow>
               (case en_apply e of
                  Some x \<Rightarrow> (Err ''FIREWALL_APPLY_FAILED'', s\<lparr>sv_error := x\<rparr>)
                | None \<Rightarrow>
                    let s1 = s\<lparr>sv_calls := sv_calls s @ [ApplyScript script]\<rparr> in
                    (case en_inspect2 e of
                       Failed x \<Rightarrow> (Err ''FIREWALL_INSPECT_FAILED'', s1\<lparr>sv_error := x\<rparr>)
                     | obs \<Rightarrow>
                         let h = (case obs of Present t \<Rightarrow> H (normalize_observed t) | _ \<Rightarrow> []);
                             c1 = c\<lparr>fw_applied_hash := h, fw_applied_at := Some (en_now_applied e)\<rparr>
                         in (case en_persist e of
                               Some x \<Rightarrow> (Err ''CONFIG_WRITE_FAILED'', s1\<lparr>sv_error := x\<rparr>)
                             | None \<Rightarrow>
                                 (Inr (), s1\<lparr>sv_state := c1, sv_disk := Some c1,
                                    sv_present := (obs \<noteq> Absent), sv_observed := h,
                                    sv_drift := False, sv_error := []\<rparr>))))))"

definition initialize :: "(string \<Rightarrow> string) \<Rightarrow> env \<Rightarrow> service \<Rightarrow> unit result \<times> service" where
  "initialize H e s =
     (let s1 = refresh H e s
      in if \<not> bs_supported (en_status e) \<or> sv_error s1 \<noteq> [] then (Inr (), s1)
         else if state_active (sv_state s1) \<and> \<not> sv_present s1 then
           (case apply_candidate H e (sv_state s1) s1 of
              (Inl x, s2) \<Rightarrow> (Inl x, s2\<lparr>sv_error := err_code x\<rparr>)
            | (Inr _, s2) \<Rightarrow> (Inr (), s2))
         else (Inr (), s1))"

definition finish :: "unit result \<times> service \<Rightarrow> fw_view result \<times> service" where
  "finish r = (case r of (Inl x, s) \<Rightarrow> (Inl x, s) | (Inr _, s) \<Rightarrow> (Inr (view_of s), s))"

fun find_rule :: "string \<Rightarrow> rule list \<Rightarrow> nat option" where
  "find_rule i [] = None"
| "find_rule i (r # rs) = (if ru_id r = i then Some 0 else map_option Suc (find_rule i rs))"

definition create_rule :: "(string \<Rightarrow> string) \<Rightarrow> env \<Rightarrow> int \<Rightarrow> rule_input \<Rightarrow> service
    \<Rightarrow> fw_view result \<times> service" where
  "create_rule H e expected inp s =
     (case prepare_mutation H e expected s of
        (Inl x, s1) \<Rightarrow> (Inl x, s1)
      | (Inr _, s1) \<Rightarrow>
          (case en_id e of
             None \<Rightarrow> (Err ''INTERNAL'', s1)
           | Some bytes \<Rightarrow>
               (case normalize_rule (sv_port s1) (hex_encode bytes) inp of
                  Inl x \<Rightarrow> (Inl x, s1)
                | Inr r \<Rightarrow>
                    let r1 = r\<lparr>ru_created := en_now e, ru_updated := en_now e\<rparr>;
                        c = (sv_state s1)\<lparr>fw_revision := fw_revision (sv_state s1) + 1,
                                           fw_rules := fw_rules (sv_state s1) @ [r1]\<rparr>
                    in finish (apply_candidate H e c s1))))"

definition update_rule :: "(string \<Rightarrow> string) \<Rightarrow> env \<Rightarrow> int \<Rightarrow> string \<Rightarrow> rule_input \<Rightarrow> service
    \<Rightarrow> fw_view result \<times> service" where
  "update_rule H e expected i inp s =
     (case prepare_mutation H e expected s of
        (Inl x, s1) \<Rightarrow> (Inl x, s1)
      | (Inr _, s1) \<Rightarrow>
          let rs = fw_rules (sv_state s1) in
          (case find_rule i rs of
             None \<Rightarrow> (Err ''FIREWALL_RULE_NOT_FOUND'', s1)
           | Some k \<Rightarrow>
               (case normalize_rule (sv_port s1) i inp of
                  Inl x \<Rightarrow> (Inl x, s1)
                | Inr r \<Rightarrow>
                    let r1 = r\<lparr>ru_created := ru_created (rs ! k), ru_updated := en_now e\<rparr>;
                        c = (sv_state s1)\<lparr>fw_rules := rs[k := r1],
                                           fw_revision := fw_revision (sv_state s1) + 1\<rparr>
                    in finish (apply_candidate H e c s1))))"

definition delete_rule :: "(string \<Rightarrow> string) \<Rightarrow> env \<Rightarrow> int \<Rightarrow> string \<Rightarrow> service
    \<Rightarrow> fw_view result \<times> service" where
  "delete_rule H e expected i s =
     (case prepare_mutation H e expected s of
        (Inl x, s1) \<Rightarrow> (Inl x, s1)
      | (Inr _, s1) \<Rightarrow>
          let rs = fw_rules (sv_state s1) in
          (case find_rule i rs of
             None \<Rightarrow> (Err ''FIREWALL_RULE_NOT_FOUND'', s1)
           | Some k \<Rightarrow>
               let c = (sv_state s1)\<lparr>fw_rules := take k rs @ drop (k + 1) rs,
                                      fw_revision := fw_revision (sv_state s1) + 1\<rparr>
               in finish (apply_candidate H e c s1)))"

definition configure_system :: "(string \<Rightarrow> string) \<Rightarrow> env \<Rightarrow> string \<Rightarrow> int \<Rightarrow> system_input \<Rightarrow> service
    \<Rightarrow> fw_view result \<times> service" where
  "configure_system H e caller expected inp s =
     (case prepare_mutation H e expected s of
        (Inl x, s1) \<Rightarrow> (Inl x, s1)
      | (Inr _, s1) \<Rightarrow>
          let controls0 = si_controls inp @
                (if si_caller inp \<and> trim_space caller \<noteq> [] then [caller] else []) in
          (case normalize_sources controls0 False of
             Inl x \<Rightarrow> (Inl x, s1)
           | Inr controls \<Rightarrow>
               let ttl = (if si_ttl inp = 0 then default_ttl else si_ttl inp) in
               if ttl < 60 \<or> 3600 < ttl then (Err ''INVALID_FIREWALL_SYSTEM'', s1)
               else if si_enabled inp \<and> controls = [] then (Err ''FIREWALL_LOCKOUT_RISK'', s1)
               else
                 let c = (sv_state s1)\<lparr>fw_system := \<lparr>sa_enabled = si_enabled inp,
                            sa_controls = controls, sa_ttl = ttl\<rparr>,
                            fw_revision := fw_revision (sv_state s1) + 1\<rparr>
                 in (case apply_candidate H e c s1 of
                       (Inl x, s2) \<Rightarrow> (Inl x, s2)
                     | (Inr _, s2) \<Rightarrow>
                         let s3 = (if \<not> si_enabled inp then s2\<lparr>sv_grants := []\<rparr> else s2)
                         in (Inr (view_of s3), s3))))"

section \<open>Grants\<close>

text \<open>The common start of the two grant operations: the table must be ours and as applied.\<close>

definition prepare_grant :: "(string \<Rightarrow> string) \<Rightarrow> env \<Rightarrow> service \<Rightarrow> unit result \<times> service" where
  "prepare_grant H e s =
     (case prepare_backend e s of
        (Inl x, s1) \<Rightarrow> (Inl x, s1)
      | (Inr _, s1) \<Rightarrow>
          let s2 = refresh_observed H (en_inspect e) s1
          in if sv_error s2 \<noteq> [] then (Err ''FIREWALL_INSPECT_FAILED'', s2)
             else if sv_drift s2 then (Err ''FIREWALL_DRIFT'', s2)
             else (Inr (), s2))"

definition grant_key :: "string \<Rightarrow> string \<Rightarrow> string \<Rightarrow> string" where
  "grant_key source session ticket = source @ [CHR 0x00] @ session @ [CHR 0x00] @ ticket"

definition grant_direct :: "(string \<Rightarrow> string) \<Rightarrow> env \<Rightarrow> string \<Rightarrow> string \<Rightarrow> string \<Rightarrow> service
    \<Rightarrow> unit result \<times> service" where
  "grant_direct H e source session ticket s =
     (if \<not> sa_enabled (fw_system (sv_state s)) then (Inr (), s)
      else case prepare_grant H e s of
        (Inl x, s1) \<Rightarrow> (Inl x, s1)
      | (Inr _, s1) \<Rightarrow>
          (case parse_addr (trim_space source) of
             None \<Rightarrow> (Err ''INVALID_SOURCE_IP'', s1)
           | Some a0 \<Rightarrow>
               if is_unspecified a0 then (Err ''INVALID_SOURCE_IP'', s1)
               else
                 let a = unmap a0 in
                 if is_loopback a then (Inr (), s1)
                 else
                   let s2 = s1\<lparr>sv_grants := expire_grants (en_now e) (sv_grants s1)\<rparr>;
                       key = grant_key (addr_string a) session ticket in
                   if aget (sv_grants s2) key = None \<and> max_grants \<le> int (length (sv_grants s2))
                   then (Err ''TOO_MANY_REQUESTS'', s2)
                   else
                     let ttl = sa_ttl (fw_system (sv_state s2)) * 1000000000 in
                     (case en_add e of
                        Some x \<Rightarrow> (Err ''FIREWALL_APPLY_FAILED'', s2\<lparr>sv_error := x\<rparr>)
                      | None \<Rightarrow>
                          (Inr (), s2\<lparr>sv_calls := sv_calls s2 @ [AddGrantCall a ttl],
                             sv_grants := aput key \<lparr>gr_source = addr_string a, gr_session = session,
                               gr_ticket = ticket, gr_expires = en_now e + ttl\<rparr> (sv_grants s2)\<rparr>))))"

text \<open>
  The sources of the grants a revocation removes, each with its parsed address; a map, so each
  source once. The removals stop at the first failure.
\<close>

definition removed_sources :: "string \<Rightarrow> (string, grant) gomap \<Rightarrow> (string \<times> addr) list" where
  "removed_sources session gs =
     (let ss = remdups (map (\<lambda>(_, g). gr_source g) (filter (\<lambda>(_, g). gr_session g = session) gs))
      in concat (map (\<lambda>src. case parse_addr src of None \<Rightarrow> [] | Some a \<Rightarrow> [(src, a)]) ss))"

definition has_grant_for :: "(string, grant) gomap \<Rightarrow> string \<Rightarrow> bool" where
  "has_grant_for gs source \<longleftrightarrow> list_ex (\<lambda>(_, g). gr_source g = source) gs"

fun remove_sources :: "env \<Rightarrow> (string \<times> addr) list \<Rightarrow> service \<Rightarrow> unit result \<times> service" where
  "remove_sources e [] s = (Inr (), s)"
| "remove_sources e ((src, a) # rest) s =
     (case en_remove e src of
        Some x \<Rightarrow> (Err ''FIREWALL_APPLY_FAILED'', s\<lparr>sv_error := x\<rparr>)
      | None \<Rightarrow> remove_sources e rest (s\<lparr>sv_calls := sv_calls s @ [RemoveGrantCall a]\<rparr>))"

definition revoke_session_grants :: "(string \<Rightarrow> string) \<Rightarrow> env \<Rightarrow> string \<Rightarrow> service
    \<Rightarrow> unit result \<times> service" where
  "revoke_session_grants H e session s =
     (if session = [] then (Inr (), s)
      else
        let s1 = s\<lparr>sv_grants := expire_grants (en_now e) (sv_grants s)\<rparr>;
            kept = filter (\<lambda>(_, g). gr_session g \<noteq> session) (sv_grants s1);
            removed = removed_sources session (sv_grants s1) in
        if \<not> sa_enabled (fw_system (sv_state s1)) then (Inr (), s1\<lparr>sv_grants := kept\<rparr>)
        else case prepare_grant H e s1 of
          (Inl x, s2) \<Rightarrow> (Inl x, s2)
        | (Inr _, s2) \<Rightarrow>
            (case remove_sources e (filter (\<lambda>(src, _). \<not> has_grant_for kept src) removed) s2 of
               (Inl x, s3) \<Rightarrow> (Inl x, s3)
             | (Inr _, s3) \<Rightarrow> (Inr (), s3\<lparr>sv_grants := kept\<rparr>)))"

end
