(* ===== verification/Firewall_Props.thy ===== *)
theory Firewall_Props
  imports Firewall_Laws FirewallService
begin

text \<open>
  The properties of the firewall: what a normalised rule and a validated state guarantee, the
  white list the chain implements and where it fails to, optimistic concurrency of the mutations,
  and the invariant of the service over every run.
\<close>

section \<open>Normalised rules and validated states\<close>

lemma check_ports_ok:
  "check_ports port rs = Inr () \<longleftrightarrow>
     list_all (\<lambda>r. 1 \<le> pr_from r \<and> pr_from r \<le> pr_to r \<and> pr_to r \<le> 65535 \<and> \<not> in_range port r) rs"
  by (induction rs) (auto simp: port_error_def in_range_def split: option.splits if_splits)

lemma normalize_rule_ports:
  assumes "normalize_rule port i inp = Inr r"
  shows "check_ports port (ri_ports inp) = Inr ()" and "ri_ports inp \<noteq> []"
    and "ru_ports r = merge_port_ranges (sort_port_ranges (ri_ports inp))"
    and "ru_id r = i" and "ru_enabled r = ri_enabled inp"
    and "ru_protocols r = normalize_protocols (ri_protocols inp)" and "ru_protocols r \<noteq> []"
  using assms by (auto simp: normalize_rule_def Let_def split: if_splits sum.splits)

lemma checked_valid: "check_ports port rs = Inr () \<Longrightarrow> list_all valid_range rs"
  unfolding check_ports_ok by (auto simp: list_all_iff valid_range_def)

lemma covers_checked:
  "check_ports port rs = Inr () \<Longrightarrow> covers rs p \<Longrightarrow> 1 \<le> p \<and> p \<le> 65535 \<and> p \<noteq> port"
  unfolding check_ports_ok by (fastforce simp: covers_def list_ex_iff list_all_iff in_range_def)

lemma covers_normal:
  assumes "list_all valid_range rs"
  shows "covers (merge_port_ranges (sort_port_ranges rs)) p = covers rs p"
  using merge_covers [OF sorted_from [of rs], of p] assms by simp

lemma check_rules_member:
  "check_rules port ids rs = Inr () \<Longrightarrow> r \<in> set rs \<Longrightarrow>
     \<exists>n. normalize_rule port (ru_id r) (rule_as_input r) = Inr n"
  by (induction port ids rs rule: check_rules.induct) (auto split: if_splits sum.splits)

lemma check_rules_ids:
  "check_rules port ids rs = Inr () \<Longrightarrow> distinct (map ru_id rs) \<and> set ids \<inter> ru_id ` set rs = {}"
  by (induction port ids rs rule: check_rules.induct) (auto split: if_splits sum.splits)

lemma validate_state_ok:
  assumes "validate_state port st = Inr ()"
  shows "check_rules port [] (fw_rules st) = Inr ()" and "60 \<le> sa_ttl (fw_system st)"
    and "sa_ttl (fw_system st) \<le> 3600"
    and "sa_enabled (fw_system st) \<Longrightarrow> \<exists>cs. normalize_sources (sa_controls (fw_system st)) False = Inr cs \<and> cs \<noteq> []"
    and "p \<in> set (protocol_keys (fw_rules st)) \<Longrightarrow> \<not> overlapping (sort_port_ranges (ports_of p (fw_rules st)))"
    and "0 \<le> fw_revision st"
  using assms by (auto simp: validate_state_def list_ex_iff split: if_splits sum.splits)

lemma validated_rule_ports:
  assumes "validate_state port st = Inr ()" and "r \<in> set (fw_rules st)"
  shows "check_ports port (ru_ports r) = Inr ()"
  using check_rules_member [OF validate_state_ok(1) [OF assms(1)] assms(2)]
    normalize_rule_ports(1) by (fastforce simp: rule_as_input_def)


section \<open>Properties of rules\<close>

text \<open>
  the normal form of a rule. Its port ranges cover exactly the ports that were asked for, all of
  them between 1 and 65535 and none of them the port of the daemon; they are separated by gaps;
  and normalising them again changes nothing.
\<close>

theorem normalized_rule_ports:
  assumes "normalize_rule port i inp = Inr r"
  shows "(\<forall>p. covers (ru_ports r) p = covers (ri_ports inp) p) \<and>
    (\<forall>p. covers (ru_ports r) p \<longrightarrow> 1 \<le> p \<and> p \<le> 65535 \<and> p \<noteq> port) \<and>
    separated_rev (rev (ru_ports r)) \<and>
    merge_port_ranges (sort_port_ranges (ru_ports r)) = ru_ports r"
proof -
  note n = normalize_rule_ports [OF assms]
  have valid: "list_all valid_range (ri_ports inp)" by (rule checked_valid [OF n(1)])
  then have cov: "covers (ru_ports r) p = covers (ri_ports inp) p" for p
    by (simp add: n(3) covers_normal)
  have sep: "separated_rev (rev (ru_ports r))" and ok: "list_all valid_range (ru_ports r)"
    using merge_separated [OF sorted_from] merge_valid [OF sorted_from] valid by (simp_all add: n(3))
  show ?thesis
    using cov covers_checked [OF n(1)] sep normal_ports_fixed [OF sep ok] by simp
qed


text \<open>Two enabled rules in descending port order.\<close>

definition leak_rule :: "string \<Rightarrow> int \<Rightarrow> rule" where
  "leak_rule i p = \<lparr>ru_id = i, ru_enabled = True, ru_protocols = [''tcp''],
     ru_ports = [\<lparr>pr_from = p, pr_to = p\<rparr>], ru_sources = [''10.0.0.0/8''], ru_note = [],
     ru_created = 0, ru_updated = 0\<rparr>"

definition leak_state :: fw_state where
  "leak_state = \<lparr>fw_schema = 1, fw_revision = 2, fw_rules = [leak_rule ''a'' 8080, leak_rule ''b'' 80],
     fw_system = \<lparr>sa_enabled = False, sa_controls = [], sa_ttl = 600\<rparr>,
     fw_applied_hash = [], fw_applied_at = None\<rparr>"

definition leak_packet :: packet where
  "leak_packet = \<lparr>pk_loopback = False, pk_established = False, pk_src = V4 (word_of_int 134744072),
     pk_proto = ''tcp'', pk_port = 80\<rparr>"

lemma leak_valid: "validate_state 24444 leak_state = Inr ()"
  by code_simp

lemma leak_chain: "\<exists>ch. chain_of leak_state 24444 = Inr ch"
proof -
  have "\<not> Option.is_none (case chain_of leak_state 24444 of Inl _ \<Rightarrow> None | Inr ch \<Rightarrow> Some ch)"
    by code_simp
  then show ?thesis by (auto split: sum.splits)
qed

text \<open>
  C19: without the order the white list leaks. There is a validated state with two enabled rules, the
  second on a lower port, in whose chain the drop rule misses the second port: a packet to it from
  an address its rule does not list is accepted.
\<close>

theorem whitelist_leak:
  "\<exists>st ch k r. validate_state 24444 st = Inr () \<and> chain_of st 24444 = Inr ch \<and>
     \<not> pk_loopback k \<and> \<not> pk_established k \<and> r \<in> set (fw_rules st) \<and> rule_opens k r \<and>
     list_all (\<lambda>r'. \<not> admits (ru_sources r') (pk_src k)) (fw_rules st) \<and> (\<forall>sets. verdict sets k ch)"
proof -
  obtain ch where ch: "chain_of leak_state 24444 = Inr ch" using leak_chain by blast
  have k: "\<not> pk_loopback leak_packet" "\<not> pk_established leak_packet" "pk_port leak_packet \<noteq> 24444"
    "pk_proto leak_packet = ''tcp'' \<or> pk_proto leak_packet = ''udp''"
    by (simp_all add: leak_packet_def)
  have drop: "\<not> covers (merge_port_ranges (ports_of (pk_proto leak_packet) (fw_rules leak_state)))
      (pk_port leak_packet)" by code_simp
  have opens: "rule_opens leak_packet (leak_rule ''b'' 80)" by code_simp
  have closed: "list_all (\<lambda>r'. \<not> admits (ru_sources r') (pk_src leak_packet)) (fw_rules leak_state)"
    by code_simp
  have "verdict sets leak_packet ch" for sets
    using chain_verdict [OF ch k] drop by blast
  moreover have "leak_rule ''b'' 80 \<in> set (fw_rules leak_state)" by (simp add: leak_state_def)
  ultimately show ?thesis
    using leak_valid ch k opens closed by blast
qed

section \<open>The service as a machine\<close>

datatype fw_mutation =
    CreateRule env int rule_input
  | UpdateRule env int string rule_input
  | DeleteRule env int string
  | ConfigureSystem env string int system_input

fun expected_revision :: "fw_mutation \<Rightarrow> int" where
  "expected_revision (CreateRule _ x _) = x"
| "expected_revision (UpdateRule _ x _ _) = x"
| "expected_revision (DeleteRule _ x _) = x"
| "expected_revision (ConfigureSystem _ _ x _) = x"

fun mutate :: "(string \<Rightarrow> string) \<Rightarrow> service \<Rightarrow> fw_mutation \<Rightarrow> fw_view result \<times> service" where
  "mutate H s (CreateRule e x inp) = create_rule H e x inp s"
| "mutate H s (UpdateRule e x i inp) = update_rule H e x i inp s"
| "mutate H s (DeleteRule e x i) = delete_rule H e x i s"
| "mutate H s (ConfigureSystem e caller x inp) = configure_system H e caller x inp s"

datatype fw_op =
    Mutate fw_mutation
  | GrantDirect env string string string
  | RevokeGrants env string
  | Initialize env
  | GetStatus env
  | GetView env

fun fw_step :: "(string \<Rightarrow> string) \<Rightarrow> service \<Rightarrow> fw_op \<Rightarrow> service" where
  "fw_step H s (Mutate m) = snd (mutate H s m)"
| "fw_step H s (GrantDirect e source session ticket) = snd (grant_direct H e source session ticket s)"
| "fw_step H s (RevokeGrants e session) = snd (revoke_session_grants H e session s)"
| "fw_step H s (Initialize e) = snd (initialize H e s)"
| "fw_step H s (GetStatus e) = snd (get_status H e s)"
| "fw_step H s (GetView e) = snd (get_view H e s)"

text \<open>What only a successful mutation or a grant operation may change.\<close>

definition config_of :: "service \<Rightarrow> int \<times> fw_state \<times> fw_state option \<times> (string, grant) gomap" where
  "config_of s = (sv_port s, sv_state s, sv_disk s, sv_grants s)"

definition service_inv :: "service \<Rightarrow> bool" where
  "service_inv s \<longleftrightarrow>
     validate_state (sv_port s) (sv_state s) = Inr () \<and> int (length (sv_grants s)) \<le> max_grants"

lemma refresh_config [simp]:
  "config_of (refresh_observed H obs s) = config_of s"
  "config_of (refresh H e s) = config_of s"
  by (auto simp: refresh_observed_def refresh_def config_of_def Let_def split: observation.splits)

lemma prepare_config:
  "config_of (snd (prepare_backend e s)) = config_of s"
  "config_of (snd (prepare_mutation H e x s)) = config_of s"
  "config_of (snd (prepare_grant H e s)) = config_of s"
  by (auto simp: prepare_backend_def prepare_mutation_def prepare_grant_def Let_def
      refresh_observed_def config_of_def split: observation.splits)

lemma prepare_mutation_Inr:
  "prepare_mutation H e x s = (Inr (), s1) \<Longrightarrow>
     config_of s1 = config_of s \<and> x = fw_revision (sv_state s)"
  using prepare_config(2) [of H e x s]
  by (auto simp: prepare_mutation_def Let_def config_of_def split: sum.splits if_splits prod.splits)

lemma validate_applied [simp]:
  "validate_state port (c\<lparr>fw_applied_hash := h, fw_applied_at := t\<rparr>) = validate_state port c"
  by (simp add: validate_state_def cong: sum.case_cong if_cong)

lemma apply_candidate_Inl:
  "apply_candidate H e c s = (Inl x, s') \<Longrightarrow> config_of s' = config_of s"
  by (auto simp: apply_candidate_def config_of_def Let_def split: sum.splits option.splits observation.splits)

lemma apply_candidate_Inr:
  assumes "apply_candidate H e c s = (Inr u, s')"
  shows "validate_state (sv_port s) c = Inr ()" and "sv_disk s' = Some (sv_state s')"
    and "sv_state s' = c\<lparr>fw_applied_hash := fw_applied_hash (sv_state s'),
           fw_applied_at := fw_applied_at (sv_state s')\<rparr>"
    and "sv_port s' = sv_port s" and "sv_grants s' = sv_grants s"
    and "sv_drift s' = False" and "sv_error s' = []" and "sv_observed s' = fw_applied_hash (sv_state s')"
    and "\<exists>script. render_script c (map snd (sv_grants s)) (en_now_render e) (sv_port s) (sv_present s)
           = Inr script \<and> sv_calls s' = sv_calls s @ [ApplyScript script]"
  using assms
  by (auto simp: apply_candidate_def Let_def split: sum.splits option.splits observation.splits)

text \<open>
  Every mutation prepares, builds a candidate of the next revision and applies it; a refusal on
  the way changes nothing that is configured.
\<close>

definition applied :: "service \<Rightarrow> fw_state \<Rightarrow> service \<Rightarrow> service \<Rightarrow> bool" where
  "applied s c s1 s' \<longleftrightarrow>
     config_of s1 = config_of s \<and> fw_revision c = fw_revision (sv_state s) + 1 \<and>
     validate_state (sv_port s) c = Inr () \<and> sv_disk s' = Some (sv_state s') \<and>
     sv_state s' = c\<lparr>fw_applied_hash := fw_applied_hash (sv_state s'),
                     fw_applied_at := fw_applied_at (sv_state s')\<rparr> \<and>
     sv_port s' = sv_port s \<and> sv_grants s' = sv_grants s \<and> sv_drift s' = False \<and> sv_error s' = [] \<and>
     (\<exists>script. sv_calls s' = sv_calls s1 @ [ApplyScript script])"

lemma finish_apply:
  assumes "finish (apply_candidate H e c s1) = (r, s')" and "config_of s1 = config_of s"
    and "fw_revision c = fw_revision (sv_state s1) + 1"
  shows "(\<exists>x. r = Inl x) \<and> config_of s' = config_of s \<or> r = Inr (view_of s') \<and> applied s c s1 s'"
proof -
  obtain q t where q: "apply_candidate H e c s1 = (q, t)" by fastforce
  show ?thesis
  proof (cases q)
    case (Inl x)
    then show ?thesis using assms apply_candidate_Inl [of H e c s1 x t] q by (auto simp: finish_def)
  next
    case (Inr u)
    note a = apply_candidate_Inr [OF q [unfolded Inr]]
    have "r = Inr (view_of s')" "t = s'" using assms(1) q Inr by (auto simp: finish_def)
    moreover have "applied s c s1 t"
      unfolding applied_def using a(1,2,4-7,9) assms(2,3) a(3)
      by (auto simp: config_of_def)
    ultimately show ?thesis by blast
  qed
qed

lemma prepare_calls: "sv_calls (snd (prepare_mutation H e x s)) = sv_calls s"
  by (auto simp: prepare_mutation_def prepare_backend_def refresh_observed_def Let_def
      split: observation.splits)

lemma config_eqD:
  "config_of s = config_of t \<Longrightarrow>
     sv_port s = sv_port t \<and> sv_state s = sv_state t \<and> sv_disk s = sv_disk t \<and> sv_grants s = sv_grants t"
  by (simp add: config_of_def)

definition outcome :: "service \<Rightarrow> int \<Rightarrow> fw_view result \<Rightarrow> service \<Rightarrow> bool" where
  "outcome s x r s' \<longleftrightarrow>
     (\<exists>e. r = Inl e) \<and> config_of s' = config_of s \<or>
     r = Inr (view_of s') \<and> x = fw_revision (sv_state s) \<and>
     (\<exists>c s1 t. sv_calls s1 = sv_calls s \<and> applied s c s1 t \<and>
        (s' = t \<or> s' = t\<lparr>sv_grants := []\<rparr> \<and> \<not> sa_enabled (fw_system c)))"

lemma outcome_prepared:
  assumes "prepare_mutation H e x s = (Inr (), s1)"
    and "finish (apply_candidate H e c s1) = (r, s')" and "fw_revision c = fw_revision (sv_state s1) + 1"
  shows "outcome s x r s'"
  using prepare_mutation_Inr [OF assms(1)] finish_apply [OF assms(2) _ assms(3), of s]
    prepare_calls [of H e x s] assms(1) unfolding outcome_def by fastforce

lemma outcome_refused:
  assumes "prepare_mutation H e x s = (q, s1)" and "r = Inl y" and "s' = s1"
  shows "outcome s x r s'"
  using assms prepare_config(2) [of H e x s] by (simp add: outcome_def)

lemma outcome_body:
  assumes "(case prepare_mutation H e x s of (Inl y, s1) \<Rightarrow> (Inl y, s1) | (Inr _, s1) \<Rightarrow> body s1) = (r, s')"
    and "\<And>s1. body s1 = (r, s') \<Longrightarrow> (\<exists>y. r = Inl y \<and> s' = s1) \<or>
      (\<exists>c. finish (apply_candidate H e c s1) = (r, s') \<and> fw_revision c = fw_revision (sv_state s1) + 1)"
  shows "outcome s x r s'"
proof -
  obtain q s1 where p: "prepare_mutation H e x s = (q, s1)" by fastforce
  show ?thesis
  proof (cases q)
    case (Inl y)
    then have "r = Inl y" "s' = s1" using assms(1) p by auto
    then show ?thesis by (rule outcome_refused [OF p])
  next
    case (Inr u)
    with assms(1) p have "body s1 = (r, s')" by simp
    from assms(2) [OF this] show ?thesis
      using outcome_refused [OF p] outcome_prepared p Inr by (auto simp: unit_eq)
  qed
qed

lemma create_outcome: "create_rule H e x inp s = (r, s') \<Longrightarrow> outcome s x r s'"
  unfolding create_rule_def Let_def
  by (erule outcome_body) (fastforce split: option.splits sum.splits)

lemma update_outcome: "update_rule H e x i inp s = (r, s') \<Longrightarrow> outcome s x r s'"
  unfolding update_rule_def Let_def
  by (erule outcome_body) (fastforce split: option.splits sum.splits)

lemma delete_outcome: "delete_rule H e x i s = (r, s') \<Longrightarrow> outcome s x r s'"
  unfolding delete_rule_def Let_def
  by (erule outcome_body) (fastforce split: option.splits)

lemma configure_outcome:
  assumes "configure_system H e caller x inp s = (r, s')"
  shows "outcome s x r s'"
proof -
  obtain q s1 where p: "prepare_mutation H e x s = (q, s1)" by fastforce
  show ?thesis
  proof (cases q)
    case (Inl y)
    then show ?thesis
      using outcome_refused [OF p, of r y s'] assms p by (simp add: configure_system_def)
  next
    case (Inr u)
    show ?thesis
    proof (cases "\<exists>y. r = Inl y \<and> s' = s1")
      case True
      then show ?thesis using outcome_refused [OF p] by blast
    next
      case False
      with assms p Inr obtain controls ttl c where
        c: "c = (sv_state s1)\<lparr>fw_system := \<lparr>sa_enabled = si_enabled inp, sa_controls = controls, sa_ttl = ttl\<rparr>,
              fw_revision := fw_revision (sv_state s1) + 1\<rparr>"
        and body: "(case apply_candidate H e c s1 of (Inl y, s2) \<Rightarrow> (Inl y, s2)
            | (Inr _, s2) \<Rightarrow> let s3 = (if \<not> si_enabled inp then s2\<lparr>sv_grants := []\<rparr> else s2)
                             in (Inr (view_of s3), s3)) = (r, s')"
        by (auto simp: configure_system_def Let_def split: sum.splits if_splits)
      obtain q2 s2 where ap: "apply_candidate H e c s1 = (q2, s2)" by fastforce
      have rev: "fw_revision c = fw_revision (sv_state s1) + 1" and en: "sa_enabled (fw_system c) = si_enabled inp"
        by (simp_all add: c)
      show ?thesis
      proof (cases q2)
        case (Inl y)
        then show ?thesis
          using apply_candidate_Inl [OF ap [unfolded Inl]] body ap prepare_config(2) [of H e x s] p
          by (auto simp: outcome_def)
      next
        case q2: (Inr v)
        have "finish (apply_candidate H e c s1) = (Inr (view_of s2), s2)"
          using ap q2 by (simp add: finish_def)
        from outcome_prepared [OF _ this rev, of x s] p Inr
        have "x = fw_revision (sv_state s)" and "applied s c s1 s2"
          using finish_apply [OF \<open>finish _ = _\<close> _ rev, of s] prepare_mutation_Inr [of H e x s s1] by auto
        moreover have "sv_calls s1 = sv_calls s" using prepare_calls [of H e x s] p by simp
        ultimately show ?thesis
          using body ap q2 en unfolding outcome_def by (auto simp: Let_def split: if_splits)
      qed
    qed
  qed
qed

lemma mutate_outcome: "mutate H s m = (r, s') \<Longrightarrow> outcome s (expected_revision m) r s'"
  by (cases m) (auto intro: create_outcome update_outcome delete_outcome configure_outcome)

section \<open>The invariant of the service\<close>

lemma service_inv_config: "config_of s' = config_of s \<Longrightarrow> service_inv s \<Longrightarrow> service_inv s'"
  by (drule config_eqD) (simp add: service_inv_def)

lemma service_inv_applied: "service_inv s \<Longrightarrow> applied s c s1 s' \<Longrightarrow> service_inv s'"
  unfolding applied_def service_inv_def using validate_applied by metis

lemma service_inv_outcome: "service_inv s \<Longrightarrow> outcome s x r s' \<Longrightarrow> service_inv s'"
  unfolding outcome_def
proof (elim disjE conjE exE)
  fix e assume "service_inv s" "config_of s' = config_of s"
  then show ?thesis by (simp add: service_inv_config)
next
  fix c s1 t assume inv: "service_inv s" and ap: "applied s c s1 t" and "s' = t"
  then show ?thesis by (simp add: service_inv_applied)
next
  fix c s1 t assume inv: "service_inv s" and ap: "applied s c s1 t" and "s' = t\<lparr>sv_grants := []\<rparr>"
  then show ?thesis using service_inv_applied [OF inv ap] by (simp add: service_inv_def max_grants_def)
qed

lemma expire_length: "length (expire_grants now gs) \<le> length gs"
  by (simp add: expire_grants_def)

lemma service_inv_grants:
  assumes "service_inv s" and "int (length gs) \<le> max_grants"
    and "sv_port s' = sv_port s" "sv_state s' = sv_state s" "sv_grants s' = gs"
  shows "service_inv s'"
  using assms by (simp add: service_inv_def)

lemma length_aput: "length (aput k v m) \<le> Suc (length m)"
  by (simp add: aput_def adel_def le_SucI)

lemma length_aput_present: "aget m k \<noteq> None \<Longrightarrow> length (aput k v m) \<le> length m"
proof -
  assume "aget m k \<noteq> None"
  then have "\<exists>p \<in> set m. \<not> fst p \<noteq> k" by (auto simp: aget_None_iff)
  then have "length (adel k m) < length m"
    unfolding adel_def by (auto intro: length_filter_less)
  then show ?thesis by (simp add: aput_def)
qed

text \<open>How a grant request ends.\<close>

lemma grant_direct_cases:
  assumes "grant_direct H e source session ticket s = (r, s')"
  obtains (Same) "config_of s' = config_of s"
  | (Expired) "sv_port s' = sv_port s" "sv_state s' = sv_state s" "sv_disk s' = sv_disk s"
      "sv_grants s' = expire_grants (en_now e) (sv_grants s)" "r \<noteq> Inr ()"
  | (Granted) a0 where "r = Inr ()" "parse_addr (trim_space source) = Some a0"
      "\<not> is_unspecified a0" "\<not> is_loopback (unmap a0)" "sa_enabled (fw_system (sv_state s))"
      "sv_port s' = sv_port s" "sv_state s' = sv_state s" "sv_disk s' = sv_disk s"
      "sv_calls s' = sv_calls s @ [AddGrantCall (unmap a0) (sa_ttl (fw_system (sv_state s)) * 1000000000)]"
      "sv_grants s' = aput (grant_key (addr_string (unmap a0)) session ticket)
        \<lparr>gr_source = addr_string (unmap a0), gr_session = session, gr_ticket = ticket,
          gr_expires = en_now e + sa_ttl (fw_system (sv_state s)) * 1000000000\<rparr>
        (expire_grants (en_now e) (sv_grants s))"
      "aget (expire_grants (en_now e) (sv_grants s)) (grant_key (addr_string (unmap a0)) session ticket) \<noteq> None
        \<or> int (length (expire_grants (en_now e) (sv_grants s))) < max_grants"
proof (cases "sa_enabled (fw_system (sv_state s))")
  case False
  then show thesis using assms Same by (simp add: grant_direct_def)
next
  case enabled: True
  obtain q s1 where p: "prepare_grant H e s = (q, s1)" by fastforce
  have cfg: "config_of s1 = config_of s" using prepare_config(3) [of H e s] p by simp
  note eqs = config_eqD [OF cfg]
  have calls: "sv_calls s1 = sv_calls s"
    using p by (auto simp: prepare_grant_def prepare_backend_def refresh_observed_def Let_def
        split: if_splits observation.splits)
  show thesis
  proof (cases q)
    case (Inl x)
    then show thesis using assms Same cfg p enabled by (simp add: grant_direct_def)
  next
    case (Inr u)
    consider "config_of s' = config_of s1"
      | "s' = s1\<lparr>sv_grants := expire_grants (en_now e) (sv_grants s1)\<rparr>" "r \<noteq> Inr ()"
      | x where "s' = s1\<lparr>sv_grants := expire_grants (en_now e) (sv_grants s1), sv_error := x\<rparr>" "r \<noteq> Inr ()"
      | a0 where "r = Inr ()" "parse_addr (trim_space source) = Some a0"
        "\<not> is_unspecified a0" "\<not> is_loopback (unmap a0)"
        "s' = s1\<lparr>sv_calls := sv_calls s1 @ [AddGrantCall (unmap a0) (sa_ttl (fw_system (sv_state s1)) * 1000000000)],
          sv_grants := aput (grant_key (addr_string (unmap a0)) session ticket)
            \<lparr>gr_source = addr_string (unmap a0), gr_session = session, gr_ticket = ticket,
              gr_expires = en_now e + sa_ttl (fw_system (sv_state s1)) * 1000000000\<rparr>
            (expire_grants (en_now e) (sv_grants s1))\<rparr>"
        "aget (expire_grants (en_now e) (sv_grants s1)) (grant_key (addr_string (unmap a0)) session ticket) \<noteq> None
          \<or> int (length (expire_grants (en_now e) (sv_grants s1))) < max_grants"
      using assms p Inr enabled
      by (auto simp: grant_direct_def Let_def not_le split: option.splits if_splits)
    then show thesis
    proof cases
      case 1
      then show thesis using Same cfg by simp
    next
      case 2
      then show thesis using Expired eqs by simp
    next
      case 3
      then show thesis using Expired eqs by simp
    next
      case (4 a0)
      show thesis by (rule Granted [of a0]) (use 4 eqs enabled calls in \<open>simp_all\<close>)
    qed
  qed
qed

lemma service_inv_grant:
  assumes "service_inv s"
  shows "service_inv (snd (grant_direct H e source session ticket s))"
proof -
  obtain r s' where g: "grant_direct H e source session ticket s = (r, s')" by fastforce
  have len: "int (length (expire_grants (en_now e) (sv_grants s))) \<le> max_grants"
    using assms expire_length [of "en_now e" "sv_grants s"] by (simp add: service_inv_def)
  from g have "service_inv s'"
  proof (cases rule: grant_direct_cases)
    case Same
    then show ?thesis using assms by (rule service_inv_config)
  next
    case Expired
    then show ?thesis using assms len by (intro service_inv_grants [OF assms len]) simp_all
  next
    case (Granted a0)
    let ?gs = "expire_grants (en_now e) (sv_grants s)"
    have "int (length (sv_grants s')) \<le> max_grants"
      using Granted(11)
    proof
      assume "aget ?gs (grant_key (addr_string (unmap a0)) session ticket) \<noteq> None"
      from length_aput_present [OF this] len show ?thesis
        unfolding Granted(10) by (meson of_nat_mono order_trans)
    next
      assume lt: "int (length ?gs) < max_grants"
      have "length (sv_grants s') \<le> Suc (length ?gs)" unfolding Granted(10) by (rule length_aput)
      then show ?thesis using lt by linarith
    qed
    then show ?thesis using assms Granted by (intro service_inv_grants [OF assms]) simp_all
  qed
  then show ?thesis by (simp add: g)
qed

lemma remove_sources_config:
  "config_of (snd (remove_sources e xs s)) = config_of s"
  by (induction e xs s rule: remove_sources.induct) (auto simp: config_of_def split: option.splits)

lemma remove_sources_calls:
  "remove_sources e xs s = (Inr u, s') \<Longrightarrow>
     sv_calls s' = sv_calls s @ map (\<lambda>(_, a). RemoveGrantCall a) xs"
  by (induction e xs s arbitrary: u rule: remove_sources.induct) (auto split: option.splits)

text \<open>How a revocation of a session's grants ends.\<close>

lemma revoke_grants_cases:
  assumes "revoke_session_grants H e session s = (r, s')" and "session \<noteq> []"
  obtains (Refused) "r \<noteq> Inr ()" "sv_port s' = sv_port s" "sv_state s' = sv_state s"
      "sv_grants s' = expire_grants (en_now e) (sv_grants s)"
  | (Revoked) "r = Inr ()" "sv_port s' = sv_port s" "sv_state s' = sv_state s"
      "sv_grants s' = filter (\<lambda>(_, g). gr_session g \<noteq> session) (expire_grants (en_now e) (sv_grants s))"
      "sa_enabled (fw_system (sv_state s)) \<Longrightarrow> sv_calls s' = sv_calls s @ map (\<lambda>(_, a). RemoveGrantCall a)
         (filter (\<lambda>(src, _). \<not> has_grant_for (sv_grants s') src)
           (removed_sources session (expire_grants (en_now e) (sv_grants s))))"
proof -
  let ?s1 = "s\<lparr>sv_grants := expire_grants (en_now e) (sv_grants s)\<rparr>"
  let ?kept = "filter (\<lambda>(_, g). gr_session g \<noteq> session) (sv_grants ?s1)"
  let ?gone = "filter (\<lambda>(src, _). \<not> has_grant_for ?kept src) (removed_sources session (sv_grants ?s1))"
  show thesis
  proof (cases "sa_enabled (fw_system (sv_state s))")
    case False
    then show thesis using assms Revoked by (auto simp: revoke_session_grants_def Let_def)
  next
    case enabled: True
    obtain q s2 where p: "prepare_grant H e ?s1 = (q, s2)" by fastforce
    have cfg: "config_of s2 = config_of ?s1" using prepare_config(3) [of H e ?s1] p by simp
    have calls: "sv_calls s2 = sv_calls s"
      using p by (auto simp: prepare_grant_def prepare_backend_def refresh_observed_def Let_def
          split: if_splits observation.splits)
    show thesis
    proof (cases q)
      case (Inl x)
      then have "r = Inl x" "s' = s2"
        using assms p enabled by (auto simp: revoke_session_grants_def Let_def)
      then show thesis using Refused config_eqD [OF cfg] by simp
    next
      case (Inr u)
      obtain q3 s3 where r3: "remove_sources e ?gone s2 = (q3, s3)" by fastforce
      have cfg3: "config_of s3 = config_of ?s1"
        using remove_sources_config [of e ?gone s2] r3 cfg by simp
      show thesis
      proof (cases q3)
        case (Inl x)
        then have "r = Inl x" "s' = s3"
          using assms p r3 Inr enabled by (auto simp: revoke_session_grants_def Let_def)
        then show thesis using Refused config_eqD [OF cfg3] by simp
      next
        case q3: (Inr v)
        then have "r = Inr ()" "s' = s3\<lparr>sv_grants := ?kept\<rparr>"
          using assms p r3 Inr enabled by (auto simp: revoke_session_grants_def Let_def)
        then show thesis
          using Revoked config_eqD [OF cfg3] remove_sources_calls [OF r3 [unfolded q3]] calls by simp
      qed
    qed
  qed
qed

lemma service_inv_revoke_grants:
  assumes "service_inv s"
  shows "service_inv (snd (revoke_session_grants H e session s))"
proof (cases "session = []")
  case True
  then show ?thesis using assms by (simp add: revoke_session_grants_def)
next
  case False
  obtain r s' where g: "revoke_session_grants H e session s = (r, s')" by fastforce
  have len: "int (length (expire_grants (en_now e) (sv_grants s))) \<le> max_grants"
    using assms expire_length [of "en_now e" "sv_grants s"] by (simp add: service_inv_def)
  have flen: "int (length (filter P (expire_grants (en_now e) (sv_grants s)))) \<le> max_grants" for P
    using len length_filter_le [of P "expire_grants (en_now e) (sv_grants s)"] by linarith
  from g False have "service_inv s'"
  proof (cases rule: revoke_grants_cases)
    case Refused
    then show ?thesis using len by (intro service_inv_grants [OF assms len]) simp_all
  next
    case Revoked
    then show ?thesis by (intro service_inv_grants [OF assms flen]) simp_all
  qed
  then show ?thesis by (simp add: g)
qed

lemma service_inv_initialize: "service_inv s \<Longrightarrow> service_inv (snd (initialize H e s))"
proof -
  assume inv: "service_inv s"
  let ?s1 = "refresh H e s"
  have inv1: "service_inv ?s1" by (rule service_inv_config [OF _ inv]) simp
  obtain q s2 where ap: "apply_candidate H e (sv_state ?s1) ?s1 = (q, s2)" by fastforce
  have "service_inv (s2\<lparr>sv_error := x\<rparr>) \<and> service_inv s2" for x
  proof (cases q)
    case (Inl y)
    from service_inv_config [OF apply_candidate_Inl [OF ap [unfolded Inl]] inv1]
    show ?thesis by (simp add: service_inv_def)
  next
    case (Inr u)
    note a = apply_candidate_Inr [OF ap [unfolded Inr]]
    have "validate_state (sv_port s2) (sv_state s2) = Inr ()"
      using a(1,3,4) validate_applied by metis
    then show ?thesis using a(5) inv1 by (simp add: service_inv_def)
  qed
  then show ?thesis
    using inv1 ap by (auto simp: initialize_def Let_def split: sum.splits)
qed

lemma service_inv_step: "service_inv s \<Longrightarrow> service_inv (fw_step H s x)"
proof (cases x)
  case (Mutate m)
  assume inv: "service_inv s"
  obtain r s' where "mutate H s m = (r, s')" by fastforce
  then show ?thesis using service_inv_outcome [OF inv mutate_outcome] Mutate by simp
next
  case (GetView e)
  assume inv: "service_inv s"
  have inv1: "service_inv (refresh H e s)" by (rule service_inv_config [OF _ inv]) simp
  then have "int (length (expire_grants (en_now e) (sv_grants (refresh H e s)))) \<le> max_grants"
    using expire_length [of "en_now e" "sv_grants (refresh H e s)"] by (simp add: service_inv_def)
  then show ?thesis using GetView inv1 by (simp add: get_view_def Let_def service_inv_def)
qed (auto simp: get_status_def Let_def intro: service_inv_grant service_inv_revoke_grants
    service_inv_initialize service_inv_config [rotated])

lemma service_inv_new: "new_service port disk = Inr s \<Longrightarrow> service_inv s"
proof -
  assume new: "new_service port disk = Inr s"
  have "validate_state p initial_state = Inr ()" for p
    by (simp add: validate_state_def initial_state_def default_ttl_def normalize_sources_def
        protocol_keys_def ports_of_def sort_port_ranges_def)
  then show ?thesis
    using new by (auto simp: new_service_def service_inv_def empty_service_def load_state_def Let_def
        max_grants_def split: if_splits option.splits sum.splits)
qed

interpretation firewall: safe_machine "\<lambda>s. \<exists>port disk. new_service port disk = Inr s" "\<lambda>_ _. True"
    "fw_step H" service_inv for H
  by unfold_locales (auto intro: service_inv_new service_inv_step)

section \<open>Properties of the service\<close>

text \<open>
  C22: the state is always safe to enforce. In every state a service reaches from its start (from a
  missing or a saved state file) by any operations with any answers of the backend: no rule opens
  the port of the daemon or a port out of range, rule ids are distinct, the enabled rules of a
  protocol do not overlap, a protected daemon port has at least one control source, the lifetime
  of grants is between 60 and 3600 seconds and there are at most 2048 grants.
\<close>

theorem firewall_invariant:
  assumes "new_service port disk = Inr s0" and "s = run_steps (fw_step H) s0 ops"
  shows "(\<forall>r \<in> set (fw_rules (sv_state s)). \<forall>p. covers (ru_ports r) p \<longrightarrow> 1 \<le> p \<and> p \<le> 65535 \<and> p \<noteq> sv_port s) \<and>
    distinct (map ru_id (fw_rules (sv_state s))) \<and>
    (\<forall>proto \<in> {''tcp'', ''udp''}. \<not> overlapping (sort_port_ranges (ports_of proto (fw_rules (sv_state s))))) \<and>
    (sa_enabled (fw_system (sv_state s)) \<longrightarrow>
      (\<exists>cs. normalize_sources (sa_controls (fw_system (sv_state s))) False = Inr cs \<and> cs \<noteq> [])) \<and>
    60 \<le> sa_ttl (fw_system (sv_state s)) \<and> sa_ttl (fw_system (sv_state s)) \<le> 3600 \<and>
    int (length (sv_grants s)) \<le> 2048"
proof -
  have "service_inv s"
    unfolding assms(2) by (rule firewall.run_inv) (use assms(1) in auto)
  then have v: "validate_state (sv_port s) (sv_state s) = Inr ()" and "int (length (sv_grants s)) \<le> 2048"
    by (simp_all add: service_inv_def max_grants_def)
  moreover have "\<forall>r \<in> set (fw_rules (sv_state s)). \<forall>p. covers (ru_ports r) p \<longrightarrow>
      1 \<le> p \<and> p \<le> 65535 \<and> p \<noteq> sv_port s"
    using covers_checked validated_rule_ports [OF v] by blast
  moreover have "distinct (map ru_id (fw_rules (sv_state s)))"
    using check_rules_ids [OF validate_state_ok(1) [OF v]] by simp
  moreover have "\<forall>proto \<in> {''tcp'', ''udp''}.
      \<not> overlapping (sort_port_ranges (ports_of proto (fw_rules (sv_state s))))"
    using validate_state_ok(5) [OF v] by (auto simp: protocol_keys_def)
  ultimately show ?thesis using validate_state_ok(2-4) [OF v] by blast
qed

text \<open>
  C25: mutations are optimistic and all or nothing. A mutation succeeds only against the revision its
  caller named, moves to the next revision, has applied exactly one script, has written the new
  state to disk before making it current, and leaves no drift; the view it returns is that of the
  new state. When it fails, the rules, the system access, the revision, the grants and the state
  file are as they were.
\<close>

theorem mutation_atomic:
  assumes "mutate H s m = (r, s')"
  shows "(\<exists>e. r = Inl e) \<and> sv_state s' = sv_state s \<and> sv_disk s' = sv_disk s \<and> sv_grants s' = sv_grants s \<or>
    r = Inr (view_of s') \<and> expected_revision m = fw_revision (sv_state s) \<and>
    fw_revision (sv_state s') = fw_revision (sv_state s) + 1 \<and> sv_disk s' = Some (sv_state s') \<and>
    \<not> sv_drift s' \<and> sv_error s' = [] \<and> (\<exists>script. sv_calls s' = sv_calls s @ [ApplyScript script])"
proof -
  from mutate_outcome [OF assms] consider (Fail) "\<exists>e. r = Inl e" "config_of s' = config_of s"
    | (Ok) c s1 t where "r = Inr (view_of s')" "expected_revision m = fw_revision (sv_state s)"
      "sv_calls s1 = sv_calls s" "applied s c s1 t" "s' = t \<or> s' = t\<lparr>sv_grants := []\<rparr>"
    unfolding outcome_def by blast
  then show ?thesis
  proof cases
    case Fail
    then show ?thesis using config_eqD by blast
  next
    case Ok
    then have "sv_state s' = sv_state t \<and> sv_disk s' = sv_disk t \<and> sv_drift s' = sv_drift t \<and>
        sv_error s' = sv_error t \<and> sv_calls s' = sv_calls t" by auto
    moreover have "fw_revision (sv_state t) = fw_revision (sv_state s) + 1"
    proof -
      have "sv_state t = c\<lparr>fw_applied_hash := fw_applied_hash (sv_state t),
           fw_applied_at := fw_applied_at (sv_state t)\<rparr>" and "fw_revision c = fw_revision (sv_state s) + 1"
        using Ok(4) by (simp_all add: applied_def)
      then show ?thesis by (metis fw_state.select_convs(2) fw_state.surjective fw_state.update_convs(5,6))
    qed
    ultimately show ?thesis using Ok by (simp add: applied_def)
  qed
qed

text \<open>
  revoking the grants of a session leaves none of them. On success no grant of the session is
  left, every other grant that has not expired is kept, and with system access enabled the kernel
  was asked to remove exactly the parsable sources that no remaining grant still needs. On failure
  only expired grants are forgotten.
\<close>

theorem revoke_grants_spec:
  assumes "revoke_session_grants H e session s = (r, s')" and "session \<noteq> []"
  shows "(r = Inr () \<longrightarrow>
      (\<forall>k g. (k, g) \<in> set (sv_grants s') \<longleftrightarrow>
        (k, g) \<in> set (sv_grants s) \<and> en_now e < gr_expires g \<and> gr_session g \<noteq> session) \<and>
      (sa_enabled (fw_system (sv_state s)) \<longrightarrow>
        (\<forall>k g a. (k, g) \<in> set (sv_grants s) \<longrightarrow> gr_session g = session \<longrightarrow> en_now e < gr_expires g \<longrightarrow>
           parse_addr (gr_source g) = Some a \<longrightarrow> \<not> has_grant_for (sv_grants s') (gr_source g) \<longrightarrow>
           RemoveGrantCall a \<in> set (sv_calls s')))) \<and>
    (r \<noteq> Inr () \<longrightarrow> sv_grants s' = expire_grants (en_now e) (sv_grants s))"
  using assms
proof (cases rule: revoke_grants_cases)
  case Refused
  then show ?thesis by simp
next
  case Revoked
  have gone: "RemoveGrantCall a \<in> set (sv_calls s')"
    if "sa_enabled (fw_system (sv_state s))" "(k, g) \<in> set (sv_grants s)" "gr_session g = session"
      "en_now e < gr_expires g" "parse_addr (gr_source g) = Some a"
      "\<not> has_grant_for (sv_grants s') (gr_source g)" for k g a
  proof -
    have "(gr_source g, a) \<in> set (removed_sources session (expire_grants (en_now e) (sv_grants s)))"
      unfolding removed_sources_def Let_def expire_grants_def
      using that(2-5) by (force simp: image_iff)
    then have "(gr_source g, a) \<in> set (filter (\<lambda>(src, _). \<not> has_grant_for (sv_grants s') src)
        (removed_sources session (expire_grants (en_now e) (sv_grants s))))" using that(6) by simp
    then show ?thesis unfolding Revoked(5) [OF that(1)] by force
  qed
  then show ?thesis using Revoked(1,4) by (auto simp: expire_grants_def)
qed

text \<open>
  a direct-access grant is bounded in time. Whenever a grant request succeeds with system access
  enabled for an address that is not loopback, the kernel set and the recorded grant get the same
  address and the configured lifetime, which a reachable service keeps between a minute and an hour.
\<close>

theorem grant_bounded:
  assumes "service_inv s" and "grant_direct H e source session ticket s = (r, s')"
    and "config_of s' \<noteq> config_of s" and "r = Inr ()"
  shows "\<exists>a ttl. sv_calls s' = sv_calls s @ [AddGrantCall a ttl] \<and>
    60 * 1000000000 \<le> ttl \<and> ttl \<le> 3600 * 1000000000 \<and> \<not> is_loopback a \<and>
    aget (sv_grants s') (grant_key (addr_string a) session ticket) =
      Some \<lparr>gr_source = addr_string a, gr_session = session, gr_ticket = ticket,
            gr_expires = en_now e + ttl\<rparr>"
  using assms(2)
proof (cases rule: grant_direct_cases)
  case Same
  then show ?thesis using assms(3) by simp
next
  case Expired
  then show ?thesis using assms(4) by simp
next
  case (Granted a0)
  have "60 \<le> sa_ttl (fw_system (sv_state s)) \<and> sa_ttl (fw_system (sv_state s)) \<le> 3600"
    using validate_state_ok(2,3) assms(1) unfolding service_inv_def by blast
  then show ?thesis
    using Granted
    by (intro exI [of _ "unmap a0"] exI [of _ "sa_ttl (fw_system (sv_state s)) * 1000000000"])
      (simp add: aget_aput)
qed

section \<open>Instances\<close>

definition input_ex :: rule_input where
  "input_ex = \<lparr>ri_enabled = True, ri_protocols = [''TCP''],
     ri_ports = [\<lparr>pr_from = 90, pr_to = 95\<rparr>, \<lparr>pr_from = 80, pr_to = 89\<rparr>],
     ri_sources = ['' 10.1.2.3/8''], ri_note = []\<rparr>"

definition rule_ex :: rule where
  "rule_ex = \<lparr>ru_id = ''61'', ru_enabled = True, ru_protocols = [''tcp''],
     ru_ports = [\<lparr>pr_from = 80, pr_to = 95\<rparr>], ru_sources = [''10.0.0.0/8''], ru_note = [],
     ru_created = 0, ru_updated = 0\<rparr>"

lemma input_ex_normal: "normalize_rule 24444 ''61'' input_ex = Inr rule_ex"
  by code_simp

lemma normalized_rule_ports_witness:
  "normalize_rule 24444 ''61'' input_ex = Inr rule_ex \<and> covers (ri_ports input_ex) 92 \<and>
   separated_rev (rev (ru_ports rule_ex)) \<and> covers (ru_ports rule_ex) 92"
  using normalized_rule_ports [OF input_ex_normal] input_ex_normal
  by (simp add: input_ex_def in_range_def)




definition env_ex :: env where
  "env_ex = \<lparr>en_status = \<lparr>bs_supported = True, bs_reason = [], bs_name = ''nftables''\<rparr>,
     en_inspect = Absent, en_apply = None, en_inspect2 = Present ''table inet prismpanel {'',
     en_persist = None, en_add = None, en_remove = (\<lambda>_. None), en_id = Some ''a'',
     en_now = 0, en_now_render = 0, en_now_applied = 0\<rparr>"

definition H_ex :: "string \<Rightarrow> string" where
  "H_ex s = ''h'' @ s"

definition enable_ex :: fw_mutation where
  "enable_ex = ConfigureSystem env_ex [] 0 \<lparr>si_enabled = True, si_controls = [''1.2.3.4''], si_ttl = 60, si_caller = False\<rparr>"

definition enabled_ex :: service where
  "enabled_ex = snd (mutate H_ex (empty_service 24444 None) enable_ex)"

lemma enable_ex_ok: "case fst (mutate H_ex (empty_service 24444 None) enable_ex) of Inl _ \<Rightarrow> False | Inr _ \<Rightarrow> True"
  by code_simp

lemma new_ex: "new_service 24444 None = Inr (empty_service 24444 None)"
  by (simp add: new_service_def)

lemma firewall_invariant_witness:
  "sa_enabled (fw_system (sv_state enabled_ex)) \<and>
   (\<exists>cs. normalize_sources (sa_controls (fw_system (sv_state enabled_ex))) False = Inr cs \<and> cs \<noteq> [])"
proof -
  have run: "enabled_ex = run_steps (fw_step H_ex) (empty_service 24444 None) [Mutate enable_ex]"
    by (simp add: enabled_ex_def)
  have "sa_enabled (fw_system (sv_state enabled_ex))" by code_simp
  with firewall_invariant [OF new_ex run] show ?thesis by blast
qed

lemma mutation_atomic_witness:
  "fw_revision (sv_state enabled_ex) = 1 \<and> sv_disk enabled_ex = Some (sv_state enabled_ex)"
proof -
  obtain r s' where r: "mutate H_ex (empty_service 24444 None) enable_ex = (r, s')" by fastforce
  then have "s' = enabled_ex" and ok: "\<exists>v. r = Inr v"
    using enable_ex_ok by (auto simp: enabled_ex_def split: sum.splits)
  with mutation_atomic [OF r] show ?thesis
    by (auto simp: empty_service_def initial_state_def)
qed

definition later_ex :: env where
  "later_ex = env_ex\<lparr>en_inspect := Present ''table inet prismpanel {'', en_now := 5\<rparr>"

definition granted_ex :: service where
  "granted_ex = snd (grant_direct H_ex later_ex ''9.9.9.9'' ''s1'' ''t1'' enabled_ex)"

lemma grant_ex_ok:
  "fst (grant_direct H_ex later_ex ''9.9.9.9'' ''s1'' ''t1'' enabled_ex) = Inr ()"
  by code_simp

lemma grant_ex_new: "sv_grants granted_ex \<noteq> []" "sv_grants enabled_ex = []"
  by code_simp+

lemma grant_bounded_witness:
  "\<exists>a ttl. sv_calls granted_ex = sv_calls enabled_ex @ [AddGrantCall a ttl] \<and> ttl \<le> 3600 * 1000000000"
proof -
  have inv: "service_inv enabled_ex"
    using firewall.run_inv [of "empty_service 24444 None" H_ex "[Mutate enable_ex]"] new_ex
    by (auto simp: enabled_ex_def)
  have g: "grant_direct H_ex later_ex ''9.9.9.9'' ''s1'' ''t1'' enabled_ex = (Inr (), granted_ex)"
    using grant_ex_ok by (simp add: granted_ex_def prod_eq_iff)
  have "config_of granted_ex \<noteq> config_of enabled_ex" using grant_ex_new by (auto simp: config_of_def)
  from grant_bounded [OF inv g this] show ?thesis by blast
qed

lemma revoke_grants_spec_witness:
  "\<exists>s'. revoke_session_grants H_ex later_ex ''s1'' granted_ex = (Inr (), s') \<and>
     (\<forall>k g. (k, g) \<in> set (sv_grants s') \<longrightarrow> gr_session g \<noteq> ''s1'')"
proof -
  have "fst (revoke_session_grants H_ex later_ex ''s1'' granted_ex) = Inr ()" by code_simp
  then obtain s' where r: "revoke_session_grants H_ex later_ex ''s1'' granted_ex = (Inr (), s')"
    by (metis prod.collapse)
  from revoke_grants_spec [OF r] r show ?thesis by blast
qed

end
