(* ===== verification/Instance.thy ===== *)
theory Instance
  imports ServerModel "HOL-Library.List_Lexorder" "HOL-Library.Char_ord"
begin

text \<open>
  One supervised server process, \<open>daemon/internal/supervisor\<close>: the console ring and its subscribers,
  the instance record of \<open>types.go\<close>, the critical sections of the life cycle (\<open>lifecycle.go\<close>,
  \<open>deployment.go\<close>, \<open>session_recover.go\<close>, \<open>session_detach.go\<close>) and of the plugin link (\<open>plugin.go\<close>).

  An \<open>instance\<close> has two mutexes. \<open>mu\<close> guards the fields, so each stretch of code under it is one
  function here. \<open>op\<close> is held over a whole life-cycle operation and only ever taken with \<open>TryLock\<close>
  by the operations; it is the field \<open>in_op\<close>. A session connection is a number, with what the code
  reads of it in a record. The fields that only mirror measurements for display (CPU, memory, the
  plugin's report, the two synchronisation states) are left out.
\<close>

section \<open>The console\<close>

record console_line =
  cl_type :: string
  cl_instance :: string
  cl_session :: string
  cl_seq :: int
  cl_stream :: string
  cl_time :: int
  cl_content :: string

record ring =
  rg_capacity :: int
  rg_lines :: "console_line list"

definition new_ring :: "int \<Rightarrow> ring" where
  "new_ring capacity = \<lparr>rg_capacity = capacity, rg_lines = []\<rparr>"

text \<open>\<open>copy(lines, lines[1:])\<close> and an assignment to the last place drop the oldest line.\<close>

definition ring_add :: "console_line \<Rightarrow> ring \<Rightarrow> ring" where
  "ring_add l r =
     (if int (length (rg_lines r)) = rg_capacity r
      then r\<lparr>rg_lines := tl (rg_lines r) @ [l]\<rparr>
      else r\<lparr>rg_lines := rg_lines r @ [l]\<rparr>)"

definition ring_clear :: "ring \<Rightarrow> ring" where
  "ring_clear r = r\<lparr>rg_lines := []\<rparr>"

definition ring_after :: "int \<Rightarrow> ring \<Rightarrow> console_line list" where
  "ring_after s r = filter (\<lambda>l. s < cl_seq l) (rg_lines r)"

section \<open>The instance\<close>

datatype istate = Stopped | Starting | Running | Stopping | Deploying | FailedState

record client =
  ct_id :: nat
  ct_pid :: int
  ct_session :: string

text \<open>A plugin connection, as far as it decides whether the plugin may speak for the instance.\<close>

record connection =
  cn_session :: string
  cn_generation :: int
  cn_platform :: string
  cn_capabilities :: "string list"

record inst =
  in_cfg :: instance_config
  in_op :: bool
  in_managed :: bool
  in_state :: istate
  in_client :: "client option"
  in_expected :: bool
  in_session :: string
  in_seq :: int
  in_console :: ring
  in_subs :: "(int, console_line list) gomap"
  in_next_sub :: int
  in_pid :: int
  in_runtime_port :: "int option"
  in_runtime_encoding :: string
  in_started :: "int option"
  in_error :: string
  in_restarts :: "int list"
  in_token_hash :: string
  in_token_set :: bool
  in_generation :: int
  in_connected :: bool
  in_last_seen :: "int option"
  in_capabilities :: "string list"
  in_connection :: "connection option"
  in_pending_restart :: bool
  in_mismatch :: bool
  in_files_changed :: bool
  in_deploy_locked :: bool

definition new_instance :: "instance_config \<Rightarrow> int \<Rightarrow> inst" where
  "new_instance cfg capacity =
     \<lparr>in_cfg = cfg, in_op = False, in_managed = True, in_state = Stopped, in_client = None,
      in_expected = False, in_session = [], in_seq = 0, in_console = new_ring capacity, in_subs = [],
      in_next_sub = 0, in_pid = 0, in_runtime_port = None, in_runtime_encoding = [],
      in_started = None, in_error = [], in_restarts = [], in_token_hash = [], in_token_set = False,
      in_generation = 0, in_connected = False, in_last_seen = None, in_capabilities = [],
      in_connection = None, in_pending_restart = False, in_mismatch = False,
      in_files_changed = False, in_deploy_locked = False\<rparr>"

text \<open>
  A subscriber is a channel of capacity 256, modelled by the lines it holds. A line that finds a
  channel full closes and removes it.
\<close>

definition channel_capacity :: int where "channel_capacity = 256"

definition offer :: "console_line \<Rightarrow> (int, console_line list) gomap \<Rightarrow> (int, console_line list) gomap" where
  "offer l subs =
     map (\<lambda>(k, q). (k, q @ [l])) (filter (\<lambda>(_, q). int (length q) < channel_capacity) subs)"

definition publish_console :: "console_line \<Rightarrow> inst \<Rightarrow> inst" where
  "publish_console l i = i\<lparr>in_console := ring_add l (in_console i), in_subs := offer l (in_subs i)\<rparr>"

definition add_console :: "int \<Rightarrow> string \<Rightarrow> string \<Rightarrow> inst \<Rightarrow> inst" where
  "add_console now stream content i =
     (let i1 = i\<lparr>in_seq := in_seq i + 1\<rparr>
      in publish_console \<lparr>cl_type = ''console.line'', cl_instance = ic_id (in_cfg i1),
           cl_session = in_session i1, cl_seq = in_seq i1, cl_stream = stream, cl_time = now,
           cl_content = content\<rparr> i1)"

definition reset_console :: "int \<Rightarrow> string \<Rightarrow> inst \<Rightarrow> inst" where
  "reset_console now sid i =
     (let i1 = i\<lparr>in_session := sid, in_seq := in_seq i + 1, in_console := ring_clear (in_console i)\<rparr>
      in publish_console \<lparr>cl_type = ''console.reset'', cl_instance = ic_id (in_cfg i1),
           cl_session = sid, cl_seq = in_seq i1, cl_stream = ''system'', cl_time = now,
           cl_content = []\<rparr> i1)"

definition subscribe :: "int \<Rightarrow> inst \<Rightarrow> console_line list \<times> int \<times> inst" where
  "subscribe after i =
     (let a = (if in_seq i < after then 0 else after);
          k = in_next_sub i + 1
      in (ring_after a (in_console i), k,
          i\<lparr>in_next_sub := k, in_subs := aput k [] (in_subs i)\<rparr>))"

definition unsubscribe :: "int \<Rightarrow> inst \<Rightarrow> inst" where
  "unsubscribe k i = i\<lparr>in_subs := adel k (in_subs i)\<rparr>"

text \<open>The two restart flags of a snapshot.\<close>

definition plugin_restart_pending :: "inst \<Rightarrow> bool" where
  "plugin_restart_pending i \<longleftrightarrow>
     in_pending_restart i \<or> in_mismatch i \<or> (in_state i = Running \<and> in_files_changed i)"

definition restart_pending :: "inst \<Rightarrow> bool" where
  "restart_pending i \<longleftrightarrow>
     plugin_restart_pending i \<or>
     (case in_runtime_port i of
        None \<Rightarrow> False
      | Some p \<Rightarrow> p \<noteq> ic_port (in_cfg i) \<or> in_runtime_encoding i \<noteq> ic_encoding (in_cfg i))"

section \<open>Life cycle\<close>

definition deployment_lock_error :: "inst \<Rightarrow> unit result" where
  "deployment_lock_error i = (if in_deploy_locked i then Err ''INSTANCE_BUSY'' else Inr ())"

text \<open>\<open>TryLock\<close> and the check for a deployment lock, which releases \<open>op\<close> again.\<close>

definition try_lock :: "inst \<Rightarrow> unit result \<times> inst" where
  "try_lock i = (if in_op i then (Err ''INSTANCE_BUSY'', i) else (Inr (), i\<lparr>in_op := True\<rparr>))"

definition unlock_op :: "inst \<Rightarrow> inst" where
  "unlock_op i = i\<lparr>in_op := False\<rparr>"

definition acquire :: "inst \<Rightarrow> unit result \<times> inst" where
  "acquire i =
     (case try_lock i of
        (Inl e, j) \<Rightarrow> (Inl e, j)
      | (Inr _, j) \<Rightarrow>
          (case deployment_lock_error j of
             Inl e \<Rightarrow> (Inl e, unlock_op j)
           | Inr _ \<Rightarrow> (Inr (), j)))"

text \<open>
  \<open>startLocked\<close> up to the hook: refused, already running, or to go on.
\<close>

datatype start_check = Refuse string | AlreadyRunning | GoOn

definition start_check :: "bool \<Rightarrow> inst \<Rightarrow> start_check" where
  "start_check closing i =
     (if closing then Refuse ''INVALID_STATE''
      else if in_state i = Running then AlreadyRunning
      else if in_state i = Starting \<or> in_state i = Stopping then Refuse ''INSTANCE_BUSY''
      else GoOn)"

definition mark_start_failed :: "int \<Rightarrow> string \<Rightarrow> inst \<Rightarrow> inst" where
  "mark_start_failed now err i =
     add_console now ''system'' (''process start failed: '' @ err)
       (i\<lparr>in_state := FailedState, in_error := err\<rparr>)"

definition mark_starting :: "inst \<Rightarrow> inst" where
  "mark_starting i = i\<lparr>in_state := Starting, in_error := []\<rparr>"

text \<open>The binding \<open>ensureSession\<close> returns.\<close>

record binding =
  bd_client :: client
  bd_session :: string
  bd_token :: string
  bd_created :: bool

definition start_bound :: "(string \<Rightarrow> string) \<Rightarrow> int \<Rightarrow> binding \<Rightarrow> inst \<Rightarrow> inst" where
  "start_bound H now b i0 =
     (let i = (if bd_created b then reset_console now (bd_session b) i0 else i0);
          j = i\<lparr>in_client := Some (bd_client b), in_expected := False, in_session := bd_session b,
                in_pid := ct_pid (bd_client b), in_runtime_port := Some (ic_port (in_cfg i)),
                in_runtime_encoding := ic_encoding (in_cfg i),
                in_token_hash := H (bd_token b), in_token_set := True,
                in_generation := in_generation i + 1, in_connected := False, in_last_seen := None,
                in_capabilities := [], in_pending_restart := False, in_mismatch := False,
                in_files_changed := False, in_started := Some now, in_state := Running\<rparr>
      in add_console now ''system'' (''process started with pid '' @ itoa (ct_pid (bd_client b))) j)"

text \<open>\<open>RecoverSessions\<close> for one listed session, once it is attached.\<close>

definition recover_bound :: "(string \<Rightarrow> string) \<Rightarrow> int \<Rightarrow> client \<Rightarrow> string \<Rightarrow> int \<Rightarrow> inst \<Rightarrow> inst" where
  "recover_bound H now c token started i =
     (let i1 = i\<lparr>in_client := Some c, in_expected := False, in_session := ct_session c,
                in_pid := ct_pid c, in_runtime_port := Some (ic_port (in_cfg i)),
                in_runtime_encoding := ic_encoding (in_cfg i)\<rparr>;
          i2 = (if token \<noteq> [] then i1\<lparr>in_token_hash := H token, in_token_set := True\<rparr> else i1);
          i3 = i2\<lparr>in_generation := in_generation i2 + 1, in_connected := False, in_last_seen := None,
                  in_capabilities := [], in_started := Some (if started \<noteq> 0 then started else now),
                  in_state := Running, in_error := []\<rparr>
      in add_console now ''system'' (''reattached existing session pid '' @ itoa (ct_pid c)) i3)"

definition five_minutes :: int where "five_minutes = 300000000000"

definition allow_auto_restart :: "int \<Rightarrow> inst \<Rightarrow> bool \<times> inst" where
  "allow_auto_restart now i =
     (let recent = filter (\<lambda>t. now - five_minutes < t) (in_restarts i)
      in if 3 \<le> length recent
         then (False, i\<lparr>in_restarts := recent, in_error := ''automatic restart limit reached''\<rparr>)
         else (True, i\<lparr>in_restarts := recent @ [now]\<rparr>))"

text \<open>
  \<open>waitSession\<close>, once the connection is done: \<open>err\<close> is the exit error's text. The result tells
  whether an automatic restart is to follow. A connection that is no longer the instance's own
  changes nothing.
\<close>

definition wait_session :: "int \<Rightarrow> nat \<Rightarrow> bool \<Rightarrow> string option \<Rightarrow> inst \<Rightarrow> bool \<times> inst" where
  "wait_session now c detached err i =
     (if map_option ct_id (in_client i) \<noteq> Some c \<or> detached then (False, i)
      else
        let expected = in_expected i;
            i1 = i\<lparr>in_client := None, in_pid := 0, in_runtime_port := None, in_runtime_encoding := [],
                   in_token_hash := [], in_token_set := False, in_connection := None,
                   in_generation := in_generation i + 1, in_connected := False, in_capabilities := []\<rparr>;
            i2 = (if expected then i1\<lparr>in_state := Stopped, in_error := []\<rparr>
                  else i1\<lparr>in_state := FailedState,
                          in_error := (case err of Some e \<Rightarrow> e | None \<Rightarrow> ''process exited unexpectedly'')\<rparr>);
            (restart, i3) = (if \<not> expected \<and> in_managed i2 \<and> pc_auto_restart (ic_process (in_cfg i2))
                             then allow_auto_restart now i2 else (False, i2));
            i4 = add_console now ''system''
                   (case err of Some e \<Rightarrow> ''process exited: '' @ e | None \<Rightarrow> ''process exited'') i3
        in (restart, i4))"

text \<open>
  \<open>stopLocked\<close> up to the wait: with no session the instance is stopped at once; otherwise the stop
  command is sent (\<open>encode\<close> and \<open>write\<close> are its possible errors) and the connection to wait for
  is returned.
\<close>

definition stop_begin :: "int \<Rightarrow> string option \<Rightarrow> string option \<Rightarrow> inst \<Rightarrow> client option \<times> inst" where
  "stop_begin now encode write i =
     (case in_client i of
        None \<Rightarrow> (None, i\<lparr>in_state := Stopped, in_error := []\<rparr>)
      | Some c \<Rightarrow>
          let i1 = i\<lparr>in_state := Stopping, in_expected := True\<rparr>
          in (Some c,
              (case encode of
                 Some e \<Rightarrow> add_console now ''system'' (''stop command failed: '' @ e) i1
               | None \<Rightarrow>
                   (case write of
                      Some e \<Rightarrow> add_console now ''system'' (''stop command failed: '' @ e) i1
                    | None \<Rightarrow> i1))))"

definition stop_timeout :: "int \<Rightarrow> inst \<Rightarrow> inst" where
  "stop_timeout now i = add_console now ''system'' ''stop timeout reached, killing process tree'' i"

definition kill_begin :: "inst \<Rightarrow> client option \<times> inst" where
  "kill_begin i =
     (case in_client i of
        None \<Rightarrow> (None, i\<lparr>in_state := Stopped, in_error := []\<rparr>)
      | Some c \<Rightarrow> (Some c, i\<lparr>in_state := Stopping, in_expected := True\<rparr>))"

text \<open>\<open>Command\<close>: the checks before the instance, then those under its mutex.\<close>

definition command_text_ok :: "string \<Rightarrow> bool" where
  "command_text_ok c \<longleftrightarrow>
     c \<noteq> [] \<and> length c \<le> 8192 \<and> \<not> contains_any c [CHR 0x00, CHR 0x0D, CHR 0x0A]"

definition command_check :: "inst \<Rightarrow> unit result" where
  "command_check i =
     (if in_deploy_locked i then Err ''INSTANCE_BUSY''
      else if in_state i \<noteq> Running \<or> in_client i = None then Err ''INVALID_STATE''
      else Inr ())"

text \<open>\<open>DeployInstance\<close> around its callback.\<close>

definition deploy_check :: "inst \<Rightarrow> unit result" where
  "deploy_check i =
     (if in_state i = Starting \<or> in_state i = Stopping \<or> in_state i = Deploying
      then Err ''INSTANCE_BUSY'' else Inr ())"

definition was_running :: "inst \<Rightarrow> bool" where
  "was_running i \<longleftrightarrow> in_client i \<noteq> None \<and> in_state i = Running"

definition deploy_apply :: "inst \<Rightarrow> inst" where
  "deploy_apply i = i\<lparr>in_state := Deploying, in_error := []\<rparr>"

definition deploy_applied :: "string option \<Rightarrow> bool \<Rightarrow> inst \<Rightarrow> inst" where
  "deploy_applied err cancelled i =
     (case err of
        Some e \<Rightarrow> if \<not> cancelled then i\<lparr>in_state := FailedState, in_error := e\<rparr>
                  else i\<lparr>in_state := Stopped, in_error := []\<rparr>
      | None \<Rightarrow> i\<lparr>in_state := Stopped, in_error := []\<rparr>)"

definition detach :: "inst \<Rightarrow> inst" where
  "detach i = i\<lparr>in_client := None\<rparr>"

section \<open>The plugin link\<close>

definition normalize_capabilities :: "string list \<Rightarrow> string list" where
  "normalize_capabilities vs =
     sort (remdups (filter (\<lambda>v. v \<noteq> []) (map (\<lambda>v. to_lower (trim_space v)) vs)))"

text \<open>
  \<open>RegisterPlugin\<close> under the mutex. \<open>in_tree pid root\<close> is the operating system's answer to whether
  process \<open>pid\<close> descends from \<open>root\<close>.
\<close>

definition register_plugin :: "(string \<Rightarrow> string) \<Rightarrow> (int \<Rightarrow> int \<Rightarrow> bool) \<Rightarrow> int \<Rightarrow> string \<Rightarrow> string \<Rightarrow> int
    \<Rightarrow> string \<Rightarrow> string list \<Rightarrow> inst \<Rightarrow> connection result \<times> inst" where
  "register_plugin H in_tree now sid token pid platform caps i =
     (if in_state i \<noteq> Running \<or> in_pid i = 0 then (Err ''UNAUTHENTICATED'', i)
      else if in_session i \<noteq> sid \<or> \<not> in_tree pid (in_pid i) \<or> \<not> in_token_set i \<or>
              H token \<noteq> in_token_hash i
      then (Err ''UNAUTHENTICATED'', i)
      else
        let p = to_lower (trim_space platform) in
        if p \<noteq> plugin_type_for (ic_platform (in_cfg i)) then (Err ''UNAUTHENTICATED'', i)
        else
          let declared = normalize_capabilities caps;
              g = in_generation i + 1;
              c = \<lparr>cn_session = sid, cn_generation = g, cn_platform = p, cn_capabilities = declared\<rparr>
          in (Inr c, i\<lparr>in_generation := g, in_connected := True, in_capabilities := declared,
                       in_last_seen := Some now, in_connection := Some c\<rparr>))"

definition connection_live :: "connection \<Rightarrow> inst \<Rightarrow> bool" where
  "connection_live c i \<longleftrightarrow>
     in_session i = cn_session c \<and> in_generation i = cn_generation c \<and> in_connected i"

definition heartbeat :: "int \<Rightarrow> connection \<Rightarrow> inst \<Rightarrow> unit result \<times> inst" where
  "heartbeat now c i =
     (if \<not> connection_live c i then (Err ''UNAUTHENTICATED'', i)
      else (Inr (), i\<lparr>in_last_seen := Some now\<rparr>))"

definition close_plugin :: "connection \<Rightarrow> inst \<Rightarrow> inst" where
  "close_plugin c i =
     (if in_session i = cn_session c \<and> in_generation i = cn_generation c
      then i\<lparr>in_connected := False, in_capabilities := [], in_connection := None\<rparr> else i)"

definition capability_for :: "string \<Rightarrow> string" where
  "capability_for t =
     (if t = ''proxy.backends.replace'' then ''proxy.backends''
      else if t = ''player.transfer'' then ''player.transfer''
      else if t = ''operators.replace'' then ''operators.sync'' else [])"

definition has_capability :: "string \<Rightarrow> connection \<Rightarrow> bool" where
  "has_capability x c \<longleftrightarrow> x = [] \<or> x \<in> set (cn_capabilities c)"

text \<open>The three flag setters; the result is whether the new state is published.\<close>

definition set_pending_restart :: "bool \<Rightarrow> inst \<Rightarrow> bool \<times> inst" where
  "set_pending_restart b i = (in_pending_restart i \<noteq> b, i\<lparr>in_pending_restart := b\<rparr>)"

definition set_files_changed :: "bool \<Rightarrow> inst \<Rightarrow> bool \<times> inst" where
  "set_files_changed b i = (in_files_changed i \<noteq> b, i\<lparr>in_files_changed := b\<rparr>)"

definition set_runtime_mismatch :: "bool \<Rightarrow> inst \<Rightarrow> bool \<times> inst" where
  "set_runtime_mismatch b i = (in_mismatch i \<noteq> b, i\<lparr>in_mismatch := b\<rparr>)"

end
