(* ===== verification/Instance_Run.thy ===== *)
theory Instance_Run
  imports Instance
begin

text \<open>
  The life cycle of one instance as a machine. A life-cycle operation holds \<open>op\<close> from its start to
  its end and gives up the processor in between: while the hook runs, while the session is bound,
  while it waits for the process to exit, while a deployment is applied. \<open>pc\<close> says where the
  operation that holds \<open>op\<close> is. Everything else (the goroutine that waits for the exit, plugin
  messages, console traffic, further operations, shutdown) runs at any of these points.
\<close>

section \<open>The machine\<close>

text \<open>What follows a stop: nothing (\<open>Stop\<close>, \<open>Kill\<close>), the start of \<open>Restart\<close>, a deployment.\<close>

datatype after_stop = ThenReturn | ThenStart | ThenDeploy

datatype pc = Idle | AtHook | AtSession | AtWait after_stop | AtKill after_stop | AtApply bool

record life =
  lf_pc :: pc
  lf_inst :: inst
  lf_closing :: bool
  lf_applied :: "unit result"

datatype life_event =
    StartOp
  | StopOp int "string option" "string option"
  | KillOp
  | RestartOp int "string option" "string option"
  | DeployOp int "string option" "string option"
  | HookDone int "string option"
  | SessionBound int binding
  | SessionFailed int string
  | WaitDone
  | WaitTimeout int
  | KillTimeout
  | ApplyDone "string option" bool bool
  | ExitSeen int nat bool "string option"
  | Reserve
  | Release
  | Detach
  | Recover int client string int
  | ConsoleLine int string string
  | Subscribe int
  | Unsubscribe int
  | Register "int \<Rightarrow> int \<Rightarrow> bool" int string string int string "string list"
  | Heartbeat int connection
  | ClosePlugin connection
  | SetPending bool
  | SetFiles bool
  | SetMismatch bool

text \<open>
  The end of an operation. A deployment that starts the instance again returns the error of its
  callback (\<open>lf_applied\<close>), whatever comes of the start; \<open>errors.Join\<close> puts that error first.
\<close>

definition return_op :: "unit result \<Rightarrow> life \<Rightarrow> unit result option \<times> life" where
  "return_op r l =
     (Some (case lf_applied l of Inl e \<Rightarrow> Inl e | Inr _ \<Rightarrow> r),
      l\<lparr>lf_pc := Idle, lf_inst := unlock_op (lf_inst l), lf_applied := Inr ()\<rparr>)"

definition goto :: "pc \<Rightarrow> inst \<Rightarrow> life \<Rightarrow> unit result option \<times> life" where
  "goto p i l = (None, l\<lparr>lf_pc := p, lf_inst := i\<rparr>)"

definition start_locked :: "life \<Rightarrow> unit result option \<times> life" where
  "start_locked l =
     (case start_check (lf_closing l) (lf_inst l) of
        Refuse c \<Rightarrow> return_op (Err c) l
      | AlreadyRunning \<Rightarrow> return_op (Inr ()) l
      | GoOn \<Rightarrow> goto AtHook (lf_inst l) l)"

definition continue :: "after_stop \<Rightarrow> bool \<Rightarrow> life \<Rightarrow> unit result option \<times> life" where
  "continue k running l =
     (case k of
        ThenReturn \<Rightarrow> return_op (Inr ()) l
      | ThenStart \<Rightarrow> start_locked l
      | ThenDeploy \<Rightarrow> goto (AtApply running) (deploy_apply (lf_inst l)) l)"

definition stop_locked :: "int \<Rightarrow> string option \<Rightarrow> string option \<Rightarrow> after_stop \<Rightarrow> life
    \<Rightarrow> unit result option \<times> life" where
  "stop_locked now encode write k l =
     (case stop_begin now encode write (lf_inst l) of
        (None, i) \<Rightarrow> continue k True (l\<lparr>lf_inst := i\<rparr>)
      | (Some _, i) \<Rightarrow> goto (AtWait k) i l)"

text \<open>An operation takes \<open>op\<close> or is refused, then runs its body.\<close>

definition with_op :: "(life \<Rightarrow> unit result option \<times> life) \<Rightarrow> life \<Rightarrow> unit result option \<times> life" where
  "with_op body l =
     (case acquire (lf_inst l) of
        (Inl e, i) \<Rightarrow> (Some (Inl e), l\<lparr>lf_inst := i\<rparr>)
      | (Inr _, i) \<Rightarrow> body (l\<lparr>lf_inst := i\<rparr>))"

definition with_lock :: "(life \<Rightarrow> unit result option \<times> life) \<Rightarrow> life \<Rightarrow> unit result option \<times> life" where
  "with_lock body l =
     (case try_lock (lf_inst l) of
        (Inl e, i) \<Rightarrow> (Some (Inl e), l\<lparr>lf_inst := i\<rparr>)
      | (Inr _, i) \<Rightarrow> body (l\<lparr>lf_inst := i\<rparr>))"

definition deploy_body :: "int \<Rightarrow> string option \<Rightarrow> string option \<Rightarrow> life \<Rightarrow> unit result option \<times> life" where
  "deploy_body now encode write l =
     (case deploy_check (lf_inst l) of
        Inl e \<Rightarrow> return_op (Inl e) l
      | Inr _ \<Rightarrow>
          if was_running (lf_inst l) then stop_locked now encode write ThenDeploy l
          else continue ThenDeploy False l)"

definition kill_body :: "life \<Rightarrow> unit result option \<times> life" where
  "kill_body l =
     (case kill_begin (lf_inst l) of
        (None, i) \<Rightarrow> return_op (Inr ()) (l\<lparr>lf_inst := i\<rparr>)
      | (Some _, i) \<Rightarrow> goto (AtKill ThenReturn) i l)"

text \<open>
  \<open>ReserveDeployment\<close> for one instance: under \<open>op\<close>, and only if no other reservation is held and no
  transition is under way; \<open>op\<close> is released at once. \<open>Release\<close> waits for \<open>op\<close>.
\<close>

definition reserve :: "inst \<Rightarrow> unit result \<times> inst" where
  "reserve i =
     (if in_op i then (Err ''INSTANCE_BUSY'', i)
      else if in_deploy_locked i \<or> in_state i = Starting \<or> in_state i = Stopping \<or> in_state i = Deploying
      then (Err ''INSTANCE_BUSY'', i)
      else (Inr (), i\<lparr>in_deploy_locked := True\<rparr>))"

definition release :: "inst \<Rightarrow> inst" where
  "release i = i\<lparr>in_deploy_locked := False\<rparr>"

definition upd :: "(inst \<Rightarrow> inst) \<Rightarrow> life \<Rightarrow> unit result option \<times> life" where
  "upd f l = (None, l\<lparr>lf_inst := f (lf_inst l)\<rparr>)"

definition stay :: "life \<Rightarrow> unit result option \<times> life" where
  "stay l = (None, l)"

text \<open>
  One event. The result is that of the operation that ends with it, if one does. An event that
  the program counter does not wait for leaves everything as it is. The kill that follows a stop
  timeout has the same two outcomes as \<open>Kill\<close>.
\<close>

fun life_apply :: "(string \<Rightarrow> string) \<Rightarrow> life \<Rightarrow> life_event \<Rightarrow> unit result option \<times> life" where
  "life_apply H l StartOp = with_op start_locked l"
| "life_apply H l (StopOp now encode write) = with_op (stop_locked now encode write ThenReturn) l"
| "life_apply H l KillOp = with_op kill_body l"
| "life_apply H l (RestartOp now encode write) = with_op (stop_locked now encode write ThenStart) l"
| "life_apply H l (DeployOp now encode write) = with_lock (deploy_body now encode write) l"
| "life_apply H l (HookDone now err) =
     (if lf_pc l \<noteq> AtHook then stay l
      else case err of
        Some e \<Rightarrow> return_op (Err ''PLUGIN_OPERATION_FAILED'')
                    (l\<lparr>lf_inst := mark_start_failed now e (lf_inst l)\<rparr>)
      | None \<Rightarrow> goto AtSession (mark_starting (lf_inst l)) l)"
| "life_apply H l (SessionBound now b) =
     (if lf_pc l \<noteq> AtSession then stay l
      else return_op (Inr ()) (l\<lparr>lf_inst := start_bound H now b (lf_inst l)\<rparr>))"
| "life_apply H l (SessionFailed now e) =
     (if lf_pc l \<noteq> AtSession then stay l
      else return_op (Err ''PROCESS_START_FAILED'')
             (l\<lparr>lf_inst := mark_start_failed now e (lf_inst l)\<rparr>))"
| "life_apply H l WaitDone =
     (case lf_pc l of
        AtWait k \<Rightarrow> continue k True l
      | AtKill k \<Rightarrow> continue k True l
      | _ \<Rightarrow> stay l)"
| "life_apply H l (WaitTimeout now) =
     (case lf_pc l of AtWait k \<Rightarrow> goto (AtKill k) (stop_timeout now (lf_inst l)) l | _ \<Rightarrow> stay l)"
| "life_apply H l KillTimeout =
     (case lf_pc l of AtKill k \<Rightarrow> return_op (Err ''PROCESS_STOP_FAILED'') l | _ \<Rightarrow> stay l)"
| "life_apply H l (ApplyDone err cancelled restore) =
     (case lf_pc l of
        AtApply running \<Rightarrow>
          (let l1 = l\<lparr>lf_inst := deploy_applied err cancelled (lf_inst l),
                      lf_applied := (case err of Some e \<Rightarrow> Err e | None \<Rightarrow> Inr ())\<rparr>
           in if running \<and> restore then start_locked l1 else return_op (Inr ()) l1)
      | _ \<Rightarrow> stay l)"
| "life_apply H l (ExitSeen now c detached err) = upd (\<lambda>i. snd (wait_session now c detached err i)) l"
| "life_apply H l Reserve = (case reserve (lf_inst l) of (r, i) \<Rightarrow> (Some r, l\<lparr>lf_inst := i\<rparr>))"
| "life_apply H l Release = (if in_op (lf_inst l) then stay l else upd release l)"
| "life_apply H l Detach = (None, l\<lparr>lf_closing := True, lf_inst := detach (lf_inst l)\<rparr>)"
| "life_apply H l (Recover now c token started) = upd (recover_bound H now c token started) l"
| "life_apply H l (ConsoleLine now stream content) = upd (add_console now stream content) l"
| "life_apply H l (Subscribe after) = upd (\<lambda>i. snd (snd (subscribe after i))) l"
| "life_apply H l (Unsubscribe k) = upd (unsubscribe k) l"
| "life_apply H l (Register in_tree now sid token pid platform caps) =
     upd (\<lambda>i. snd (register_plugin H in_tree now sid token pid platform caps i)) l"
| "life_apply H l (Heartbeat now c) = upd (\<lambda>i. snd (heartbeat now c i)) l"
| "life_apply H l (ClosePlugin c) = upd (close_plugin c) l"
| "life_apply H l (SetPending b) = upd (\<lambda>i. snd (set_pending_restart b i)) l"
| "life_apply H l (SetFiles b) = upd (\<lambda>i. snd (set_files_changed b i)) l"
| "life_apply H l (SetMismatch b) = upd (\<lambda>i. snd (set_runtime_mismatch b i)) l"

definition life_step :: "(string \<Rightarrow> string) \<Rightarrow> life \<Rightarrow> life_event \<Rightarrow> life" where
  "life_step H l x = snd (life_apply H l x)"

definition new_life :: "instance_config \<Rightarrow> int \<Rightarrow> life" where
  "new_life cfg capacity = \<lparr>lf_pc = Idle, lf_inst = new_instance cfg capacity, lf_closing = False,
      lf_applied = Inr ()\<rparr>"

section \<open>The invariant\<close>

text \<open>The lines of the ring carry consecutive numbers up to the current one.\<close>

definition ring_ok :: "inst \<Rightarrow> bool" where
  "ring_ok i \<longleftrightarrow>
     0 < rg_capacity (in_console i) \<and> 0 \<le> in_seq i \<and>
     int (length (rg_lines (in_console i))) \<le> rg_capacity (in_console i) \<and>
     map cl_seq (rg_lines (in_console i)) =
       [in_seq i - int (length (rg_lines (in_console i))) + 1 .. in_seq i]"

definition link_ok :: "inst \<Rightarrow> bool" where
  "link_ok i \<longleftrightarrow>
     (in_connected i \<longrightarrow>
        in_token_set i \<and> (\<exists>c. in_connection i = Some c \<and> connection_live c i))"

definition inst_ok :: "bool \<Rightarrow> inst \<Rightarrow> bool" where
  "inst_ok closing i \<longleftrightarrow>
     ring_ok i \<and> link_ok i \<and> (in_state i = Running \<longrightarrow> in_client i \<noteq> None \<or> closing)"

definition life_inv :: "life \<Rightarrow> bool" where
  "life_inv l \<longleftrightarrow>
     inst_ok (lf_closing l) (lf_inst l) \<and> (in_op (lf_inst l) \<longleftrightarrow> lf_pc l \<noteq> Idle) \<and>
     (in_state (lf_inst l) = Starting \<longrightarrow> lf_pc l = AtSession) \<and>
     (in_state (lf_inst l) = Deploying \<longrightarrow> (\<exists>b. lf_pc l = AtApply b)) \<and>
     (lf_pc l \<notin> {AtHook, AtSession} \<longrightarrow> lf_applied l = Inr ())"

text \<open>Everything but the console is untouched by a console line.\<close>

lemma publish_fields [simp]:
  "in_state (publish_console l i) = in_state i" "in_client (publish_console l i) = in_client i"
  "in_op (publish_console l i) = in_op i" "in_connected (publish_console l i) = in_connected i"
  "in_token_set (publish_console l i) = in_token_set i" "in_session (publish_console l i) = in_session i"
  "in_connection (publish_console l i) = in_connection i"
  "in_generation (publish_console l i) = in_generation i" "in_seq (publish_console l i) = in_seq i"
  "rg_lines (in_console (publish_console l i)) = rg_lines (ring_add l (in_console i))"
  "in_restarts (publish_console l i) = in_restarts i"
  by (simp_all add: publish_console_def)

lemma add_console_fields [simp]:
  "in_state (add_console now s c i) = in_state i" "in_client (add_console now s c i) = in_client i"
  "in_op (add_console now s c i) = in_op i" "in_connected (add_console now s c i) = in_connected i"
  "in_token_set (add_console now s c i) = in_token_set i" "in_session (add_console now s c i) = in_session i"
  "in_connection (add_console now s c i) = in_connection i"
  "in_generation (add_console now s c i) = in_generation i"
  "in_restarts (add_console now s c i) = in_restarts i"
  by (simp_all add: add_console_def Let_def)

lemma reset_console_fields [simp]:
  "in_state (reset_console now s i) = in_state i" "in_client (reset_console now s i) = in_client i"
  "in_op (reset_console now s i) = in_op i" "in_generation (reset_console now s i) = in_generation i"
  "in_connection (reset_console now s i) = in_connection i"
  by (simp_all add: reset_console_def Let_def)

lemma upto_snoc: "a \<le> b + 1 \<Longrightarrow> [a .. b + 1] = [a .. b] @ [b + 1]" for a b :: int
  using upto_rec2 [of a "b + 1"] by simp

lemma upto_tl: "tl [a .. b] = [a + 1 .. b]" for a b :: int
  by (cases "a \<le> b") (simp_all add: upto_rec1)

lemma ring_add_seqs:
  assumes "map cl_seq (rg_lines r) = [s - int (length (rg_lines r)) + 1 .. s]" and "0 < rg_capacity r"
    and "int (length (rg_lines r)) \<le> rg_capacity r" and "cl_seq l = s + 1"
  shows "map cl_seq (rg_lines (ring_add l r)) =
      [s + 1 - int (length (rg_lines (ring_add l r))) + 1 .. s + 1]"
    and "int (length (rg_lines (ring_add l r))) \<le> rg_capacity r"
    and "rg_capacity (ring_add l r) = rg_capacity r"
proof -
  show "map cl_seq (rg_lines (ring_add l r)) =
      [s + 1 - int (length (rg_lines (ring_add l r))) + 1 .. s + 1]"
  proof (cases "int (length (rg_lines r)) = rg_capacity r")
    case True
    then have ne: "0 < length (rg_lines r)" using assms(2) by linarith
    then have len: "length (rg_lines (ring_add l r)) = length (rg_lines r)"
      using True by (auto simp: ring_add_def)
    have "map cl_seq (rg_lines (ring_add l r)) = tl (map cl_seq (rg_lines r)) @ [s + 1]"
      using True assms(4) by (simp add: ring_add_def map_tl)
    also have "\<dots> = [s - int (length (rg_lines r)) + 1 + 1 .. s] @ [s + 1]"
      by (simp only: assms(1) upto_tl)
    also have "\<dots> = [s - int (length (rg_lines r)) + 1 + 1 .. s + 1]"
      using ne by (intro upto_snoc [symmetric]) linarith
    finally show ?thesis by (simp add: len algebra_simps)
  next
    case False
    then have "map cl_seq (rg_lines (ring_add l r)) = [s - int (length (rg_lines r)) + 1 .. s] @ [s + 1]"
      using assms by (simp add: ring_add_def)
    also have "\<dots> = [s - int (length (rg_lines r)) + 1 .. s + 1]"
      by (intro upto_snoc [symmetric]) simp
    finally show ?thesis using False by (simp add: ring_add_def)
  qed
  show "int (length (rg_lines (ring_add l r))) \<le> rg_capacity r"
    using assms(2,3) by (auto simp: ring_add_def)
  show "rg_capacity (ring_add l r) = rg_capacity r" by (simp add: ring_add_def)
qed

lemma ring_ok_add: "ring_ok i \<Longrightarrow> ring_ok (add_console now s c i)"
  unfolding ring_ok_def add_console_def Let_def publish_console_def
  by (elim conjE, intro conjI) (simp_all add: ring_add_seqs [of "in_console i" "in_seq i"])

lemma ring_ok_reset: "ring_ok i \<Longrightarrow> ring_ok (reset_console now sid i)"
  by (simp add: ring_ok_def reset_console_def Let_def publish_console_def ring_add_def ring_clear_def)

lemma ring_ok_same: "in_console j = in_console i \<Longrightarrow> in_seq j = in_seq i \<Longrightarrow> ring_ok i \<Longrightarrow> ring_ok j"
  by (simp add: ring_ok_def)

lemma inst_okI:
  assumes "ring_ok i" and "link_ok i" and "in_state i = Running \<Longrightarrow> in_client i \<noteq> None \<or> closing"
  shows "inst_ok closing i"
  using assms by (simp add: inst_ok_def)

text \<open>A change of fields the invariant does not look at.\<close>

lemma inst_ok_same:
  assumes "inst_ok closing i" and "in_console j = in_console i" "in_seq j = in_seq i"
    "in_connected j = in_connected i" "in_token_set j = in_token_set i" "in_connection j = in_connection i"
    "in_session j = in_session i" "in_generation j = in_generation i"
    and "in_state j = Running \<Longrightarrow> in_state i = Running \<and> in_client j = in_client i \<or> closing \<or> in_client j \<noteq> None"
  shows "inst_ok closing j"
  using assms ring_ok_same [of j i] by (auto simp: inst_ok_def link_ok_def connection_live_def)

lemma link_ok_console [simp]: "link_ok (add_console now s c i) = link_ok i"
  by (simp add: link_ok_def connection_live_def)

lemma inst_ok_console: "inst_ok closing i \<Longrightarrow> inst_ok closing (add_console now s c i)"
  by (simp add: inst_ok_def ring_ok_add)

lemma link_ok_off: "\<not> in_connected i \<Longrightarrow> link_ok i"
  by (simp add: link_ok_def)

lemma inst_ok_failed: "inst_ok closing i \<Longrightarrow> inst_ok closing (mark_start_failed now e i)"
  unfolding mark_start_failed_def by (intro inst_ok_console) (erule inst_ok_same; simp)

lemma inst_ok_bound:
  assumes "inst_ok closing i" shows "inst_ok closing (start_bound H now b i)"
proof -
  have "ring_ok (if bd_created b then reset_console now (bd_session b) i else i)"
    using assms ring_ok_reset by (simp add: inst_ok_def)
  then show ?thesis
    unfolding start_bound_def Let_def
    by (intro inst_okI ring_ok_add) (simp_all add: ring_ok_def link_ok_def)
qed

lemma inst_ok_recover:
  assumes "inst_ok closing i" shows "inst_ok closing (recover_bound H now c t st i)"
  using assms unfolding recover_bound_def Let_def
  by (intro inst_okI ring_ok_add) (simp_all add: inst_ok_def ring_ok_def link_ok_def)

lemma allow_fields [simp]:
  "in_state (snd (allow_auto_restart now i)) = in_state i"
  "in_client (snd (allow_auto_restart now i)) = in_client i"
  "in_op (snd (allow_auto_restart now i)) = in_op i"
  "in_connected (snd (allow_auto_restart now i)) = in_connected i"
  "in_token_set (snd (allow_auto_restart now i)) = in_token_set i"
  "in_session (snd (allow_auto_restart now i)) = in_session i"
  "in_connection (snd (allow_auto_restart now i)) = in_connection i"
  "in_generation (snd (allow_auto_restart now i)) = in_generation i"
  "in_seq (snd (allow_auto_restart now i)) = in_seq i"
  "in_console (snd (allow_auto_restart now i)) = in_console i"
  by (simp_all add: allow_auto_restart_def Let_def)

text \<open>What the exit of the instance's own connection leaves behind.\<close>

lemma wait_session_cases:
  obtains (Stale) "snd (wait_session now c det err i) = i"
      "map_option ct_id (in_client i) \<noteq> Some c \<or> det"
  | (Exit) "in_client (snd (wait_session now c det err i)) = None"
      "in_state (snd (wait_session now c det err i)) = (if in_expected i then Stopped else FailedState)"
      "in_connected (snd (wait_session now c det err i)) = False"
      "in_op (snd (wait_session now c det err i)) = in_op i"
      "in_generation (snd (wait_session now c det err i)) = in_generation i + 1"
      "ring_ok i \<Longrightarrow> ring_ok (snd (wait_session now c det err i))"
      "map_option ct_id (in_client i) = Some c" "\<not> det"
proof (cases "map_option ct_id (in_client i) \<noteq> Some c \<or> det")
  case True
  then show ?thesis by (intro Stale) (auto simp: wait_session_def)
next
  case False
  have *: "\<exists>j content. snd (wait_session now c det err i) = add_console now ''system'' content j \<and>
      in_client j = None \<and> in_state j = (if in_expected i then Stopped else FailedState) \<and>
      \<not> in_connected j \<and> in_op j = in_op i \<and> in_generation j = in_generation i + 1 \<and>
      in_console j = in_console i \<and> in_seq j = in_seq i"
    using False
    by (cases "in_expected i") (auto simp: wait_session_def Let_def split_beta intro!: exI)
  then obtain j content where j: "snd (wait_session now c det err i) = add_console now ''system'' content j"
    "in_client j = None" "in_state j = (if in_expected i then Stopped else FailedState)"
    "\<not> in_connected j" "in_op j = in_op i" "in_generation j = in_generation i + 1"
    "in_console j = in_console i" "in_seq j = in_seq i" by blast
  show ?thesis
    by (rule Exit) (use False j ring_ok_same [of j i] in \<open>simp_all add: ring_ok_add\<close>)
qed

lemma inst_ok_exit:
  assumes "inst_ok closing i" shows "inst_ok closing (snd (wait_session now c det err i))"
proof (cases rule: wait_session_cases [of now c det err i, case_names Stale Exit])
  case Stale
  then show ?thesis using assms by simp
next
  case Exit
  then show ?thesis using assms by (intro inst_okI link_ok_off) (simp_all add: inst_ok_def split: if_splits)
qed

lemma inst_ok_stop:
  assumes "inst_ok closing i" shows "inst_ok closing (snd (stop_begin now en wr i))"
proof -
  have "inst_ok closing (i\<lparr>in_state := Stopping, in_expected := True\<rparr>)"
    and "inst_ok closing (i\<lparr>in_state := Stopped, in_error := []\<rparr>)"
    using assms by (auto elim: inst_ok_same)
  then show ?thesis
    by (auto simp: stop_begin_def Let_def intro: inst_ok_console split: option.splits)
qed

lemma inst_ok_kill: "inst_ok closing i \<Longrightarrow> inst_ok closing (snd (kill_begin i))"
  by (auto simp: kill_begin_def elim: inst_ok_same split: option.splits)

lemma inst_ok_applied: "inst_ok closing i \<Longrightarrow> inst_ok closing (deploy_applied err can i)"
  by (auto simp: deploy_applied_def elim: inst_ok_same split: option.splits)

lemma inst_ok_register:
  assumes "inst_ok closing i"
  shows "inst_ok closing (snd (register_plugin H tr now sid tok p plat caps i))"
  using assms
  by (auto simp: register_plugin_def Let_def inst_ok_def link_ok_def connection_live_def ring_ok_def)

lemma inst_ok_close: "inst_ok closing i \<Longrightarrow> inst_ok closing (close_plugin c i)"
  by (auto simp: close_plugin_def inst_ok_def link_ok_def connection_live_def ring_ok_def)

lemma inst_ok_simple:
  assumes "inst_ok closing i"
  shows "inst_ok closing (i\<lparr>in_op := b\<rparr>)" "inst_ok closing (mark_starting i)"
    "inst_ok closing (deploy_apply i)" "inst_ok closing (i\<lparr>in_deploy_locked := b\<rparr>)"
    "inst_ok closing (snd (heartbeat now c i))" "inst_ok closing (snd (set_pending_restart b i))"
    "inst_ok closing (snd (set_files_changed b i))" "inst_ok closing (snd (set_runtime_mismatch b i))"
    "inst_ok closing (snd (snd (subscribe after i)))" "inst_ok closing (unsubscribe k i)"
    "inst_ok True (detach i)" "inst_ok closing (i\<lparr>in_op := b, in_state := Stopped\<rparr>)"
  using assms
  by (auto simp: mark_starting_def deploy_apply_def heartbeat_def set_pending_restart_def detach_def
      set_files_changed_def set_runtime_mismatch_def subscribe_def unsubscribe_def Let_def
      inst_ok_def link_ok_def connection_live_def ring_ok_def)

section \<open>Every step keeps the invariant\<close>

definition quiet :: "inst \<Rightarrow> bool" where
  "quiet i \<longleftrightarrow> in_state i \<noteq> Starting \<and> in_state i \<noteq> Deploying"

definition at_rest :: "life \<Rightarrow> bool" where
  "at_rest l \<longleftrightarrow> inst_ok (lf_closing l) (lf_inst l) \<and> quiet (lf_inst l)"

lemma life_inv_return: "at_rest l \<Longrightarrow> life_inv (snd (return_op r l))"
  by (simp add: at_rest_def life_inv_def return_op_def unlock_op_def quiet_def inst_ok_simple)

lemma life_inv_goto:
  assumes "inst_ok (lf_closing l) i" and "in_op i" and "p \<noteq> Idle"
    and "in_state i = Starting \<Longrightarrow> p = AtSession" and "in_state i = Deploying \<Longrightarrow> \<exists>b. p = AtApply b"
    and "p \<in> {AtHook, AtSession} \<or> lf_applied l = Inr ()"
  shows "life_inv (snd (goto p i l))"
  using assms by (auto simp: goto_def life_inv_def)

lemma life_inv_start: "at_rest l \<Longrightarrow> in_op (lf_inst l) \<Longrightarrow> life_inv (snd (start_locked l))"
  by (auto simp: start_locked_def at_rest_def quiet_def intro!: life_inv_return life_inv_goto
      split: start_check.splits)

lemma life_inv_continue:
  "at_rest l \<Longrightarrow> in_op (lf_inst l) \<Longrightarrow> lf_applied l = Inr () \<Longrightarrow> life_inv (snd (continue k running l))"
  by (cases k) (auto simp: continue_def intro!: life_inv_return life_inv_start life_inv_goto,
      auto simp: at_rest_def inst_ok_simple deploy_apply_def [symmetric], simp_all add: deploy_apply_def)

lemma stop_begin_fields:
  "in_op (snd (stop_begin now en wr i)) = in_op i" "quiet (snd (stop_begin now en wr i))"
  by (auto simp: stop_begin_def Let_def quiet_def split: option.splits)

lemma life_inv_stop:
  assumes "at_rest l" and "in_op (lf_inst l)" and "lf_applied l = Inr ()"
  shows "life_inv (snd (stop_locked now en wr k l))"
proof -
  obtain c i where s: "stop_begin now en wr (lf_inst l) = (c, i)" by fastforce
  have ok: "inst_ok (lf_closing l) i" "in_op i" "quiet i"
    using inst_ok_stop [of "lf_closing l" "lf_inst l" now en wr] stop_begin_fields [of now en wr "lf_inst l"]
      assms s by (auto simp: at_rest_def)
  show ?thesis
  proof (cases c)
    case None
    then show ?thesis
      using ok s assms(3) life_inv_continue [of "l\<lparr>lf_inst := i\<rparr>" k True] by (simp add: stop_locked_def at_rest_def)
  next
    case (Some x)
    then show ?thesis
      using ok s assms(3) by (auto simp: stop_locked_def quiet_def intro!: life_inv_goto)
  qed
qed

lemma life_inv_kill:
  assumes "at_rest l" and "in_op (lf_inst l)" and "lf_applied l = Inr ()"
  shows "life_inv (snd (kill_body l))"
proof -
  obtain c i where s: "kill_begin (lf_inst l) = (c, i)" by fastforce
  have ok: "inst_ok (lf_closing l) i"
    using inst_ok_kill [of "lf_closing l" "lf_inst l"] assms s by (simp add: at_rest_def)
  have more: "in_op i" "quiet i"
    using s assms by (auto simp: kill_begin_def quiet_def split: option.splits)
  show ?thesis
    using ok more s assms(3) by (cases c)
      (auto simp: kill_body_def quiet_def at_rest_def intro!: life_inv_goto life_inv_return)
qed

lemma life_inv_deploy:
  assumes "at_rest l" and "in_op (lf_inst l)" and "lf_applied l = Inr ()"
  shows "life_inv (snd (deploy_body now en wr l))"
  using assms life_inv_return life_inv_stop life_inv_continue
  by (auto simp: deploy_body_def split: sum.splits)

lemma life_inv_idle:
  assumes "life_inv l" and "\<not> in_op (lf_inst l)"
  shows "at_rest (l\<lparr>lf_inst := (lf_inst l)\<lparr>in_op := True\<rparr>\<rparr>)" and "lf_applied l = Inr ()"
  using assms by (auto simp: life_inv_def at_rest_def quiet_def inst_ok_simple)

lemma life_inv_with_lock:
  assumes inv: "life_inv l"
    and body: "\<And>m. at_rest m \<Longrightarrow> in_op (lf_inst m) \<Longrightarrow> lf_applied m = Inr () \<Longrightarrow> life_inv (snd (body m))"
  shows "life_inv (snd (with_lock body l))"
proof (cases "in_op (lf_inst l)")
  case True
  then show ?thesis using inv by (simp add: with_lock_def try_lock_def)
next
  case False
  with body [OF life_inv_idle(1) [OF inv False]] life_inv_idle(2) [OF inv False] show ?thesis
    by (simp add: with_lock_def try_lock_def)
qed

lemma inst_op_undo: "\<not> in_op i \<Longrightarrow> i\<lparr>in_op := False\<rparr> = i"
  by (cases i) simp

lemma life_same: "l\<lparr>lf_inst := lf_inst l\<rparr> = l"
  by simp

lemma life_inv_with_op:
  assumes inv: "life_inv l"
    and body: "\<And>m. at_rest m \<Longrightarrow> in_op (lf_inst m) \<Longrightarrow> lf_applied m = Inr () \<Longrightarrow> life_inv (snd (body m))"
  shows "life_inv (snd (with_op body l))"
proof (cases "in_op (lf_inst l)")
  case True
  then show ?thesis using inv by (simp add: with_op_def acquire_def try_lock_def)
next
  case False
  show ?thesis
  proof (cases "in_deploy_locked (lf_inst l)")
    case True
    have "snd (with_op body l) = l\<lparr>lf_inst := lf_inst l\<lparr>in_op := False\<rparr>\<rparr>"
      using False True by (simp add: with_op_def acquire_def try_lock_def deployment_lock_error_def unlock_op_def)
    also have "\<dots> = l" by (simp only: inst_op_undo [OF False] life_same)
    finally show ?thesis using inv by (simp only:)
  next
    case unlocked: False
    with body [OF life_inv_idle(1) [OF inv False]] life_inv_idle(2) [OF inv False] False show ?thesis
      by (simp add: with_op_def acquire_def try_lock_def deployment_lock_error_def)
  qed
qed

lemma life_inv_upd:
  assumes "life_inv l" and "inst_ok closing i" and "in_op i = in_op (lf_inst l)"
    and "in_state i = in_state (lf_inst l) \<or> quiet i"
  shows "life_inv (l\<lparr>lf_inst := i, lf_closing := closing\<rparr>)"
  using assms by (auto simp: life_inv_def quiet_def)

lemma life_inv_upd_same:
  assumes "life_inv l" and "inst_ok (lf_closing l) i" and "in_op i = in_op (lf_inst l)"
    and "in_state i = in_state (lf_inst l) \<or> quiet i"
  shows "life_inv (l\<lparr>lf_inst := i\<rparr>)"
  using life_inv_upd [OF assms(1,2,3,4)] by simp

lemma life_inv_upd_fun:
  assumes "life_inv l" and "inst_ok (lf_closing l) (f (lf_inst l))" and "in_op (f (lf_inst l)) = in_op (lf_inst l)"
    and "in_state (f (lf_inst l)) = in_state (lf_inst l) \<or> quiet (f (lf_inst l))"
  shows "life_inv (snd (upd f l))"
  using life_inv_upd_same [OF assms] by (simp add: upd_def)

lemma state_or_quiet:
  "in_state (start_bound H now b i) = Running" "in_op (start_bound H now b i) = in_op i"
  "in_state (recover_bound H now cl tok st i) = Running" "in_op (recover_bound H now cl tok st i) = in_op i"
  "in_state (mark_start_failed now e i) = FailedState" "in_op (mark_start_failed now e i) = in_op i"
  "in_op (deploy_applied err can i) = in_op i" "quiet (deploy_applied err can i)"
  "in_op (stop_timeout now i) = in_op i" "in_state (stop_timeout now i) = in_state i"
  "in_op (snd (snd (subscribe a i))) = in_op i" "in_state (snd (snd (subscribe a i))) = in_state i"
  "in_op (unsubscribe k i) = in_op i" "in_state (unsubscribe k i) = in_state i"
  "in_op (snd (register_plugin H tr now sid tok p plat caps i)) = in_op i"
  "in_state (snd (register_plugin H tr now sid tok p plat caps i)) = in_state i"
  "in_op (snd (heartbeat now c i)) = in_op i" "in_state (snd (heartbeat now c i)) = in_state i"
  "in_op (close_plugin c i) = in_op i" "in_state (close_plugin c i) = in_state i"
  "in_op (snd (set_pending_restart x i)) = in_op i" "in_state (snd (set_pending_restart x i)) = in_state i"
  "in_op (snd (set_files_changed x i)) = in_op i" "in_state (snd (set_files_changed x i)) = in_state i"
  "in_op (snd (set_runtime_mismatch x i)) = in_op i" "in_state (snd (set_runtime_mismatch x i)) = in_state i"
  by (simp_all add: start_bound_def recover_bound_def mark_start_failed_def deploy_applied_def quiet_def
      stop_timeout_def subscribe_def unsubscribe_def register_plugin_def heartbeat_def close_plugin_def
      set_pending_restart_def set_files_changed_def set_runtime_mismatch_def Let_def split: option.split)

lemma life_inv_exit:
  assumes "life_inv l"
  shows "life_inv (snd (upd (\<lambda>i. snd (wait_session now c det err i)) l))"
proof (rule life_inv_upd_fun [OF assms])
  show "inst_ok (lf_closing l) (snd (wait_session now c det err (lf_inst l)))"
    using assms by (simp add: life_inv_def inst_ok_exit)
  show "in_op (snd (wait_session now c det err (lf_inst l))) = in_op (lf_inst l)"
    by (cases rule: wait_session_cases [of now c det err "lf_inst l", case_names Stale Exit]) simp_all
  show "in_state (snd (wait_session now c det err (lf_inst l))) = in_state (lf_inst l) \<or>
      quiet (snd (wait_session now c det err (lf_inst l)))"
    by (cases rule: wait_session_cases [of now c det err "lf_inst l", case_names Stale Exit])
      (simp_all add: quiet_def)
qed

lemma life_inv_detach:
  assumes "life_inv l"
  shows "life_inv (l\<lparr>lf_closing := True, lf_inst := detach (lf_inst l)\<rparr>)"
  using assms inst_ok_simple(11) [of "lf_closing l" "lf_inst l"]
  by (auto simp: life_inv_def detach_def)

lemma life_inv_rest: "life_inv l \<Longrightarrow> lf_pc l \<notin> range AtApply \<union> {AtSession} \<Longrightarrow> at_rest l"
  by (auto simp: life_inv_def at_rest_def quiet_def)

lemma life_inv_hook:
  assumes "life_inv l"
  shows "life_inv (snd (life_apply H l (HookDone now err)))"
proof (cases "lf_pc l = AtHook")
  case True
  then have "inst_ok (lf_closing l) (lf_inst l)" "in_op (lf_inst l)"
    using assms by (simp_all add: life_inv_def)
  then show ?thesis
    using True by (cases err) (auto intro!: life_inv_return life_inv_goto
        simp: at_rest_def state_or_quiet quiet_def inst_ok_failed inst_ok_simple, simp_all add: mark_starting_def)
qed (use assms in \<open>simp add: stay_def\<close>)

lemma life_inv_session:
  assumes "life_inv l"
  shows "life_inv (snd (life_apply H l (SessionBound now b)))"
    and "life_inv (snd (life_apply H l (SessionFailed now e)))"
proof -
  have "at_rest (l\<lparr>lf_inst := start_bound H now b (lf_inst l)\<rparr>)"
    and "at_rest (l\<lparr>lf_inst := mark_start_failed now e (lf_inst l)\<rparr>)"
    using assms
    by (simp_all add: at_rest_def state_or_quiet quiet_def inst_ok_failed inst_ok_bound life_inv_def)
  then show "life_inv (snd (life_apply H l (SessionBound now b)))"
    and "life_inv (snd (life_apply H l (SessionFailed now e)))"
    using assms by (simp_all add: stay_def life_inv_return)
qed

lemma life_inv_waits:
  assumes "life_inv l"
  shows "life_inv (snd (life_apply H l WaitDone))"
    and "life_inv (snd (life_apply H l (WaitTimeout now)))"
    and "life_inv (snd (life_apply H l KillTimeout))"
proof -
  have rest: "at_rest l" "in_op (lf_inst l)" "lf_applied l = Inr ()" if "lf_pc l = AtWait k \<or> lf_pc l = AtKill k" for k
    using assms that by (auto simp: life_inv_def at_rest_def quiet_def)
  show "life_inv (snd (life_apply H l WaitDone))"
    using assms rest by (auto simp: stay_def intro: life_inv_continue split: pc.split)
  show "life_inv (snd (life_apply H l (WaitTimeout now)))"
    using assms rest
    by (auto simp: stay_def state_or_quiet at_rest_def quiet_def stop_timeout_def inst_ok_console
        intro!: life_inv_goto split: pc.split)
  show "life_inv (snd (life_apply H l KillTimeout))"
    using assms rest by (auto simp: stay_def intro: life_inv_return split: pc.split)
qed

lemma life_inv_applied:
  assumes "life_inv l"
  shows "life_inv (snd (life_apply H l (ApplyDone err can restore)))"
proof (cases "\<exists>b. lf_pc l = AtApply b")
  case True
  have "at_rest (l\<lparr>lf_inst := deploy_applied err can (lf_inst l), lf_applied := r\<rparr>) \<and>
      in_op (deploy_applied err can (lf_inst l))" for r
    using assms True by (auto simp: life_inv_def at_rest_def state_or_quiet inst_ok_applied)
  then show ?thesis
    using True by (auto simp: Let_def intro!: life_inv_start life_inv_return)
next
  case False
  then show ?thesis using assms by (auto simp: stay_def split: pc.split)
qed

theorem life_inv_step:
  assumes inv: "life_inv l"
  shows "life_inv (life_step H l x)"
proof -
  have ok: "inst_ok (lf_closing l) (lf_inst l)" using inv by (simp add: life_inv_def)
  note upd = life_inv_upd_fun [OF inv]
  show ?thesis
  proof (cases x)
    case Reserve
    then show ?thesis
      using inv inst_ok_simple(4) [OF ok]
      by (auto simp: life_step_def reserve_def life_inv_def split: if_splits)
  next
    case Release
    then show ?thesis
      using inv by (auto simp: life_step_def stay_def release_def intro!: upd inst_ok_simple ok)
  next
    case Detach
    then show ?thesis using life_inv_detach [OF inv] by (simp add: life_step_def)
  next
    case (HookDone now err)
    then show ?thesis using life_inv_hook [OF inv] by (simp only: life_step_def)
  next
    case (SessionBound now b)
    then show ?thesis using life_inv_session [OF inv] by (simp only: life_step_def)
  next
    case (SessionFailed now e)
    then show ?thesis using life_inv_session [OF inv] by (simp only: life_step_def)
  next
    case WaitDone
    then show ?thesis using life_inv_waits [OF inv] by (simp only: life_step_def)
  next
    case (WaitTimeout now)
    then show ?thesis using life_inv_waits [OF inv] by (simp only: life_step_def)
  next
    case KillTimeout
    then show ?thesis using life_inv_waits [OF inv] by (simp only: life_step_def)
  next
    case (ApplyDone err can restore)
    then show ?thesis using life_inv_applied [OF inv] by (simp only: life_step_def)
  next
    case (ExitSeen now c det err)
    then show ?thesis using life_inv_exit [OF inv] by (simp only: life_step_def life_apply.simps)
  qed (use ok in \<open>auto simp: life_step_def state_or_quiet quiet_def
      intro!: life_inv_with_op [OF inv] life_inv_with_lock [OF inv] life_inv_start life_inv_stop
        life_inv_kill life_inv_deploy upd
      intro: inst_ok_recover inst_ok_console inst_ok_register inst_ok_close inst_ok_simple\<close>)
qed

end
