(* ===== verification/Instance_Frame.thy ===== *)
theory Instance_Frame
  imports Instance_Run
begin

text \<open>
  What a step of the life cycle leaves alone. A relation between instances that every part of an
  operation respects (\<open>op_frame\<close>) is respected by every event that belongs to an operation; if the
  steps that bind, record or drop a session and a plugin respect it too (\<open>life_frame\<close>), by every
  event.
\<close>

locale op_frame =
  fixes same :: "inst \<Rightarrow> inst \<Rightarrow> bool"
  assumes same_refl: "same i i"
    and same_trans: "same i j \<Longrightarrow> same j k \<Longrightarrow> same i k"
    and same_lock: "same i (i\<lparr>in_op := b\<rparr>)"
    and same_reserve: "same i (i\<lparr>in_deploy_locked := b\<rparr>)"
    and same_console: "same i (add_console now s c i)"
    and same_failed: "same i (mark_start_failed now e i)"
    and same_starting: "same i (mark_starting i)"
    and same_stop: "same i (snd (stop_begin now en wr i))"
    and same_kill: "same i (snd (kill_begin i))"
    and same_deploy: "same i (deploy_apply i)"
    and same_applied: "same i (deploy_applied err can i)"
    and same_detach: "same i (detach i)"
    and same_subscribe: "same i (snd (snd (subscribe a i)))"
    and same_unsubscribe: "same i (unsubscribe u i)"
    and same_heartbeat: "same i (snd (heartbeat t cn i))"
    and same_pending: "same i (snd (set_pending_restart b i))"
    and same_files: "same i (snd (set_files_changed b i))"
    and same_mismatch: "same i (snd (set_runtime_mismatch b i))"
begin

definition lsame :: "life \<Rightarrow> life \<Rightarrow> bool" where
  "lsame l m = same (lf_inst l) (lf_inst m)"

lemma lsame_inst: "same (lf_inst l) i \<Longrightarrow> lsame (l\<lparr>lf_inst := i, lf_applied := r\<rparr>) m \<Longrightarrow> lsame l m"
  "same (lf_inst l) i \<Longrightarrow> lsame (l\<lparr>lf_inst := i\<rparr>) m \<Longrightarrow> lsame l m"
  by (auto simp: lsame_def intro: same_trans)

lemma lsame_refl: "lsame l l"
  by (simp add: lsame_def same_refl)

lemma lsame_return: "lsame l (snd (return_op r l))"
  by (simp add: lsame_def return_op_def unlock_op_def same_lock)

lemma lsame_goto: "same (lf_inst l) i \<Longrightarrow> lsame l (snd (goto p i l))"
  by (simp add: lsame_def goto_def)

lemma lsame_start: "lsame l (snd (start_locked l))"
  by (auto simp: start_locked_def intro: lsame_return lsame_goto same_refl split: start_check.split)

lemma lsame_continue: "lsame l (snd (continue k r l))"
  by (auto simp: continue_def intro: lsame_return lsame_goto lsame_start same_deploy split: after_stop.split)

lemma lsame_stop: "lsame l (snd (stop_locked now en wr k l))"
proof -
  obtain c i where s: "stop_begin now en wr (lf_inst l) = (c, i)" by fastforce
  have "same (lf_inst l) i" using same_stop [of "lf_inst l" now en wr] s by simp
  then show ?thesis
    using lsame_inst(2) [OF _ lsame_continue] s
    by (cases c) (simp_all add: stop_locked_def lsame_goto)
qed

lemma lsame_kill: "lsame l (snd (kill_body l))"
proof -
  obtain c i where s: "kill_begin (lf_inst l) = (c, i)" by fastforce
  have "same (lf_inst l) i" using same_kill [of "lf_inst l"] s by simp
  then show ?thesis
    using lsame_inst(2) [OF _ lsame_return] s
    by (cases c) (simp_all add: kill_body_def lsame_goto)
qed

lemma lsame_deploy: "lsame l (snd (deploy_body now en wr l))"
  by (auto simp: deploy_body_def intro: lsame_return lsame_stop lsame_continue split: sum.split)

lemma same_lock_unlock: "same i (i\<lparr>in_op := True, in_op := False\<rparr>)"
  using same_lock [of i False] by simp

lemma lsame_with_lock:
  assumes "\<And>m. lsame m (snd (body m))"
  shows "lsame l (snd (with_lock body l))"
proof -
  have "lsame l (snd (body (l\<lparr>lf_inst := (lf_inst l)\<lparr>in_op := True\<rparr>\<rparr>)))"
    by (rule lsame_inst(2) [OF same_lock assms])
  then show ?thesis by (simp add: with_lock_def try_lock_def lsame_refl)
qed

lemma lsame_with_op:
  assumes "\<And>m. lsame m (snd (body m))"
  shows "lsame l (snd (with_op body l))"
proof -
  have body: "lsame l (snd (body (l\<lparr>lf_inst := (lf_inst l)\<lparr>in_op := True\<rparr>\<rparr>)))"
    by (rule lsame_inst(2) [OF same_lock assms])
  have "lsame l (l\<lparr>lf_inst := (lf_inst l)\<lparr>in_op := False\<rparr>\<rparr>)"
    by (simp add: lsame_def same_lock)
  with body show ?thesis
    by (simp add: with_op_def acquire_def try_lock_def deployment_lock_error_def unlock_op_def lsame_refl)
qed

lemma lsame_apply: "lsame l (snd (life_apply H l (ApplyDone err can restore)))"
  using lsame_inst(1) [OF same_applied lsame_start] lsame_inst(1) [OF same_applied lsame_return]
  by (simp add: Let_def stay_def lsame_refl split: pc.split)

text \<open>The events of the operations and the calls that only touch flags or the console.\<close>

definition op_event :: "life_event \<Rightarrow> bool" where
  "op_event x \<longleftrightarrow>
     (case x of SessionBound _ _ \<Rightarrow> False | ExitSeen _ _ _ _ \<Rightarrow> False | Recover _ _ _ _ \<Rightarrow> False
      | Register _ _ _ _ _ _ _ \<Rightarrow> False | ClosePlugin _ \<Rightarrow> False | _ \<Rightarrow> True)"

lemma lsame_hook: "lsame l (snd (life_apply H l (HookDone now err)))"
  using lsame_inst(2) [OF same_failed lsame_return]
  by (auto simp: stay_def lsame_refl intro: lsame_goto same_starting split: option.split)

lemma lsame_failed: "lsame l (snd (life_apply H l (SessionFailed now e)))"
  using lsame_inst(2) [OF same_failed lsame_return] by (simp add: stay_def lsame_refl)

lemma lsame_waits:
  "lsame l (snd (life_apply H l WaitDone))" "lsame l (snd (life_apply H l (WaitTimeout now)))"
  "lsame l (snd (life_apply H l KillTimeout))"
  by (auto simp: stay_def lsame_refl stop_timeout_def
      intro: lsame_continue lsame_goto same_console lsame_return split: pc.split)

lemma lsame_upd: "same (lf_inst l) (f (lf_inst l)) \<Longrightarrow> lsame l (snd (upd f l))"
  by (simp add: upd_def lsame_def)

lemma lsame_op_step:
  assumes "op_event x"
  shows "lsame l (life_step H l x)"
proof (cases x)
  case Reserve
  then show ?thesis
    by (simp add: life_step_def reserve_def lsame_def same_refl same_reserve)
next
  case Release
  then show ?thesis
    by (simp add: life_step_def stay_def upd_def release_def lsame_def same_refl same_reserve)
next
  case Detach
  then show ?thesis by (simp add: life_step_def lsame_def same_detach)
next
  case (ApplyDone err can restore)
  then show ?thesis using lsame_apply by (simp only: life_step_def)
next
  case (HookDone now err)
  then show ?thesis using lsame_hook by (simp only: life_step_def)
next
  case (SessionFailed now e)
  then show ?thesis using lsame_failed by (simp only: life_step_def)
next
  case WaitDone
  then show ?thesis using lsame_waits by (simp only: life_step_def)
next
  case (WaitTimeout now)
  then show ?thesis using lsame_waits by (simp only: life_step_def)
next
  case KillTimeout
  then show ?thesis using lsame_waits by (simp only: life_step_def)
qed (use assms in \<open>auto simp: op_event_def life_step_def intro!: lsame_with_op lsame_with_lock lsame_start
    lsame_stop lsame_kill lsame_deploy lsame_upd same_console same_subscribe same_unsubscribe
    same_heartbeat same_pending same_files same_mismatch\<close>)

end

locale life_frame = op_frame +
  assumes same_bound: "same i (start_bound H now bd i)"
    and same_exit: "same i (snd (wait_session now ct det err i))"
    and same_recover: "same i (recover_bound H now cl tok st i)"
    and same_register: "same i (snd (register_plugin H tr now sid tok p plat caps i))"
    and same_close: "same i (close_plugin cn i)"
begin

lemma lsame_step: "lsame l (life_step H l x)"
proof (cases "op_event x")
  case True
  then show ?thesis by (rule lsame_op_step)
next
  case False
  have "lsame l (snd (life_apply H l (SessionBound now b)))" for now b
    using lsame_inst(2) [OF same_bound lsame_return] by (simp add: stay_def lsame_refl)
  with False show ?thesis
    by (cases x) (auto simp: op_event_def life_step_def intro!: lsame_upd same_exit same_recover
        same_register same_close)
qed

end

end
