(* ===== verification/Supervisor.thy ===== *)
theory Supervisor
  imports Instance_Frame
begin

text \<open>
  The supervisor (\<open>daemon/internal/supervisor/manager.go\<close>, \<open>deployment_lock.go\<close>): the map of
  instances, each with the state of its life cycle, and the operations over several of them. Go
  visits a map in any order; where an operation's result can depend on it the order is an argument.
  \<open>ApplyServer\<close>, \<open>RemoveServer\<close> and \<open>ReserveDeployment\<close> run under the manager's mutex or hold the
  \<open>op\<close> mutexes they took to their end, so each is one step.
\<close>

record manager =
  mg_port :: int
  mg_buffer :: int
  mg_closing :: bool
  mg_lives :: "(string, life) gomap"

abbreviation life_cfg :: "life \<Rightarrow> instance_config" where
  "life_cfg l \<equiv> in_cfg (lf_inst l)"

definition upd_life :: "string \<Rightarrow> (life \<Rightarrow> life) \<Rightarrow> manager \<Rightarrow> manager" where
  "upd_life iid f m = m\<lparr>mg_lives := map (\<lambda>(k, l). (k, if k = iid then f l else l)) (mg_lives m)\<rparr>"

definition upd_inst :: "string \<Rightarrow> (inst \<Rightarrow> inst) \<Rightarrow> manager \<Rightarrow> manager" where
  "upd_inst iid f = upd_life iid (\<lambda>l. l\<lparr>lf_inst := f (lf_inst l)\<rparr>)"

definition lookup :: "string \<Rightarrow> manager \<Rightarrow> life result" where
  "lookup iid m =
     (case aget (mg_lives m) iid of
        None \<Rightarrow> Err ''INSTANCE_NOT_FOUND''
      | Some l \<Rightarrow> if in_managed (lf_inst l) then Inr l else Err ''INSTANCE_NOT_FOUND'')"

section \<open>Validation\<close>

fun check_existing :: "string \<Rightarrow> instance_config \<Rightarrow> (string \<times> life) list \<Rightarrow> unit result" where
  "check_existing replacing c [] = Inr ()"
| "check_existing replacing c ((iid, l) # ls) =
     (if ic_server (life_cfg l) = replacing then check_existing replacing c ls
      else if iid = ic_id c then Err ''INVALID_CONFIG''
      else if ic_port (life_cfg l) = ic_port c then Err ''PORT_CONFLICT''
      else check_existing replacing c ls)"

fun check_candidates :: "manager \<Rightarrow> string \<Rightarrow> instance_config list \<Rightarrow> unit result" where
  "check_candidates m replacing [] = Inr ()"
| "check_candidates m replacing (c # cs) =
     (if ic_port c = mg_port m then Err ''PORT_CONFLICT''
      else case check_existing replacing c (mg_lives m) of
        Inl e \<Rightarrow> Inl e
      | Inr _ \<Rightarrow> check_candidates m replacing cs)"

definition validate_server_locked :: "manager \<Rightarrow> string \<Rightarrow> server_config \<Rightarrow> unit result" where
  "validate_server_locked m replacing s =
     (case check_candidates m replacing (instances s) of
        Inl e \<Rightarrow> Inl e
      | Inr _ \<Rightarrow>
          if distinct (map ic_port (instances s)) then Inr () else Err ''PORT_CONFLICT'')"

definition check_server :: "manager \<Rightarrow> string \<Rightarrow> server_config \<Rightarrow> unit result" where
  "check_server m replacing server =
     (let s = normalize_server server
      in case validate_server s of
           Some _ \<Rightarrow> Err ''INVALID_CONFIG''
         | None \<Rightarrow> validate_server_locked m replacing s)"

section \<open>The set of instances\<close>

definition add_instance :: "instance_config \<Rightarrow> manager \<Rightarrow> manager" where
  "add_instance c m = 
     m\<lparr>mg_lives := aput (ic_id c) ((new_life c (mg_buffer m))\<lparr>lf_closing := mg_closing m\<rparr>) (mg_lives m)\<rparr>"

fun build_manager :: "server_config list \<Rightarrow> manager \<Rightarrow> manager result" where
  "build_manager [] m = Inr m"
| "build_manager (server # ss) m =
     (let s = normalize_server server
      in case validate_server_locked m [] s of
           Inl e \<Rightarrow> Inl e
         | Inr _ \<Rightarrow> build_manager ss (fold add_instance (instances s) m))"

definition new_supervisor :: "int \<Rightarrow> int \<Rightarrow> server_config list \<Rightarrow> manager result" where
  "new_supervisor port buffer servers =
     build_manager servers \<lparr>mg_port = port, mg_buffer = buffer, mg_closing = False, mg_lives = []\<rparr>"

text \<open>
  The locking loop of \<open>ApplyServer\<close>, over the instances in the order \<open>ids\<close>. A busy instance gives up
  the locks taken so far; a reserved one does not. The result is the list of the locked instances.
\<close>

fun lock_server :: "string \<Rightarrow> string list \<Rightarrow> string list \<Rightarrow> manager \<Rightarrow> string list result \<times> manager" where
  "lock_server sid [] locked m = (Inr locked, m)"
| "lock_server sid (iid # ids) locked m =
     (case aget (mg_lives m) iid of
        None \<Rightarrow> lock_server sid ids locked m
      | Some l \<Rightarrow>
          if ic_server (life_cfg l) \<noteq> sid then lock_server sid ids locked m
          else case try_lock (lf_inst l) of
            (Inl e, _) \<Rightarrow> (Inl e, fold (\<lambda>k. upd_inst k unlock_op) locked m)
          | (Inr _, i) \<Rightarrow>
              (let m1 = upd_inst iid (\<lambda>_. i) m
               in case deployment_lock_error i of
                    Inl e \<Rightarrow> (Inl e, m1)
                  | Inr _ \<Rightarrow> lock_server sid ids (locked @ [iid]) m1))"

text \<open>An order in which a loop visits the map: any permutation of its keys, as the argument says.\<close>

definition visit :: "string list \<Rightarrow> manager \<Rightarrow> string list" where
  "visit order m = remdups (filter (\<lambda>k. k \<in> fst ` set (mg_lives m)) order @ map fst (mg_lives m))"

definition place_instance :: "instance_config \<Rightarrow> manager \<Rightarrow> manager" where
  "place_instance c m =
     (case aget (mg_lives m) (ic_id c) of
        None \<Rightarrow> add_instance c m
      | Some _ \<Rightarrow> upd_inst (ic_id c) (\<lambda>i. i\<lparr>in_cfg := c, in_managed := True\<rparr>) m)"

text \<open>
  \<open>port_write c\<close> is the error of writing the port into \<open>server.properties\<close>, if the workspace is a
  directory and the write fails.
\<close>

definition port_warning :: "(instance_config \<Rightarrow> string option) \<Rightarrow> instance_config \<Rightarrow> string list" where
  "port_warning port_write c =
     (if proxy_platform (ic_platform c) then []
      else case port_write c of None \<Rightarrow> [] | Some e \<Rightarrow> [ic_id c @ '': '' @ e])"

text \<open>An instance the server no longer has: dropped if stopped, otherwise no longer managed.\<close>

definition retire :: "string \<Rightarrow> string list \<Rightarrow> manager \<Rightarrow> manager" where
  "retire sid targets m =
     (let old = (\<lambda>(iid, l). ic_server (life_cfg l) = sid \<and> iid \<notin> set targets);
          kept = filter (\<lambda>p. \<not> (old p \<and> in_state (lf_inst (snd p)) = Stopped)) (mg_lives m)
      in m\<lparr>mg_lives := map (\<lambda>(iid, l). (iid,
              if old (iid, l) then l\<lparr>lf_inst := (lf_inst l)\<lparr>in_managed := False\<rparr>\<rparr> else l)) kept\<rparr>)"

definition apply_server :: "(instance_config \<Rightarrow> string option) \<Rightarrow> string list \<Rightarrow> server_config \<Rightarrow> manager
    \<Rightarrow> string list result \<times> manager" where
  "apply_server port_write order server m =
     (let s = normalize_server server
      in case validate_server_locked m (sc_id s) s of
           Inl e \<Rightarrow> (Inl e, m)
         | Inr _ \<Rightarrow>
             (case lock_server (sc_id s) (visit order m) [] m of
                (Inl e, m1) \<Rightarrow> (Inl e, m1)
              | (Inr locked, m1) \<Rightarrow>
                  (let m2 = fold place_instance (instances s) m1;
                       m3 = retire (sc_id s) (map ic_id (instances s)) m2
                   in (Inr (concat (map (port_warning port_write) (instances s))),
                       fold (\<lambda>k. upd_inst k unlock_op) locked m3))))"

definition remove_server :: "string \<Rightarrow> manager \<Rightarrow> unit result \<times> manager" where
  "remove_server sid m =
     (if list_ex (\<lambda>(iid, l). ic_server (life_cfg l) = sid \<and>
            (in_state (lf_inst l) \<noteq> Stopped \<or> in_deploy_locked (lf_inst l))) (mg_lives m)
      then (Err ''INSTANCE_BUSY'', m)
      else (Inr (), m\<lparr>mg_lives := filter (\<lambda>(iid, l). ic_server (life_cfg l) \<noteq> sid) (mg_lives m)\<rparr>))"

definition list_instances :: "manager \<Rightarrow> (string \<times> inst) list" where
  "list_instances m =
     sort_key fst (map (\<lambda>(iid, l). (iid, lf_inst l)) (filter (\<lambda>(iid, l). in_managed (lf_inst l)) (mg_lives m)))"

definition get_instance :: "string \<Rightarrow> manager \<Rightarrow> inst result" where
  "get_instance iid m = map_sum (\<lambda>e. e) lf_inst (lookup iid m)"

text \<open>
  \<open>withFileMutation\<close>: the workspace the mutation is given, or the refusal. \<open>op\<close> is held from the
  check to the end of the mutation.
\<close>

definition with_file_mutation :: "bool \<Rightarrow> string \<Rightarrow> manager \<Rightarrow> string result" where
  "with_file_mutation require_stopped iid m =
     (case lookup iid m of
        Inl e \<Rightarrow> Inl e
      | Inr l \<Rightarrow>
          (case acquire (lf_inst l) of
             (Inl e, _) \<Rightarrow> Inl e
           | (Inr _, i) \<Rightarrow>
               if require_stopped \<and> in_state i \<noteq> Stopped \<and> in_state i \<noteq> FailedState
               then Err ''INVALID_STATE'' else Inr (ic_workspace (in_cfg i))))"

section \<open>Reserving several instances for a deployment\<close>

definition unlock_operations :: "string list \<Rightarrow> manager \<Rightarrow> manager" where
  "unlock_operations ids m = fold (\<lambda>k. upd_inst k unlock_op) (rev ids) m"

definition in_transition :: "inst \<Rightarrow> bool" where
  "in_transition i \<longleftrightarrow> in_state i = Starting \<or> in_state i = Stopping \<or> in_state i = Deploying"

fun lock_operations :: "string list \<Rightarrow> string list \<Rightarrow> manager \<Rightarrow> string list result \<times> manager" where
  "lock_operations [] items m = (Inr items, m)"
| "lock_operations (iid # ids) items m =
     (case lookup iid m of
        Inl e \<Rightarrow> (Inl e, unlock_operations items m)
      | Inr l \<Rightarrow>
          (case try_lock (lf_inst l) of
             (Inl e, _) \<Rightarrow> (Err ''INSTANCE_BUSY'', unlock_operations items m)
           | (Inr _, i) \<Rightarrow>
               (let m1 = upd_inst iid (\<lambda>_. i) m; items1 = items @ [iid]
                in if in_deploy_locked i \<or> in_transition i
                   then (Err ''INSTANCE_BUSY'', unlock_operations items1 m1)
                   else lock_operations ids items1 m1)))"

definition reserve_deployment :: "string list \<Rightarrow> manager \<Rightarrow> string list result \<times> manager" where
  "reserve_deployment instance_ids m =
     (case lock_operations (sort instance_ids) [] m of
        (Inl e, m1) \<Rightarrow> (Inl e, m1)
      | (Inr items, m1) \<Rightarrow>
          (Inr items,
           unlock_operations items
             (fold (\<lambda>k. upd_inst k (\<lambda>i. i\<lparr>in_deploy_locked := True\<rparr>)) items m1)))"

text \<open>The function it returns, once every \<open>op\<close> can be taken.\<close>

definition release_deployment :: "string list \<Rightarrow> manager \<Rightarrow> manager" where
  "release_deployment items m = fold (\<lambda>k. upd_inst k release) items m"

section \<open>Operations on one instance\<close>

text \<open>
  The events that belong to a call naming the instance go through \<open>lookup\<close>; the others belong to
  a goroutine or a connection that already has it.
\<close>

definition by_name :: "life_event \<Rightarrow> bool" where
  "by_name x \<longleftrightarrow>
     (case x of
        StartOp \<Rightarrow> True | StopOp _ _ _ \<Rightarrow> True | KillOp \<Rightarrow> True | RestartOp _ _ _ \<Rightarrow> True
      | DeployOp _ _ _ \<Rightarrow> True | Subscribe _ \<Rightarrow> True | Recover _ _ _ _ \<Rightarrow> True
      | Register _ _ _ _ _ _ _ \<Rightarrow> True | SetPending _ \<Rightarrow> True | SetFiles _ \<Rightarrow> True
      | SetMismatch _ \<Rightarrow> True | _ \<Rightarrow> False)"

definition instance_event :: "(string \<Rightarrow> string) \<Rightarrow> string \<Rightarrow> life_event \<Rightarrow> manager
    \<Rightarrow> unit result option \<times> manager" where
  "instance_event H iid x m =
     (case (if by_name x then lookup iid m
            else case aget (mg_lives m) iid of None \<Rightarrow> Err ''INSTANCE_NOT_FOUND'' | Some l \<Rightarrow> Inr l) of
        Inl e \<Rightarrow> (Some (Inl e), m)
      | Inr l \<Rightarrow> (case life_apply H l x of (r, l') \<Rightarrow> (r, upd_life iid (\<lambda>_. l') m)))"

text \<open>\<open>Command\<close>; \<open>encode\<close> and \<open>write\<close> are the possible errors of the encoder and the pipe.\<close>

definition command :: "string \<Rightarrow> string \<Rightarrow> string option \<Rightarrow> string option \<Rightarrow> manager \<Rightarrow> unit result" where
  "command iid line encode write m =
     (if \<not> command_text_ok line then Err ''INVALID_COMMAND''
      else case lookup iid m of
        Inl e \<Rightarrow> Inl e
      | Inr l \<Rightarrow>
          (case command_check (lf_inst l) of
             Inl e \<Rightarrow> Inl e
           | Inr _ \<Rightarrow> if encode \<noteq> None \<or> write \<noteq> None then Err ''PROCESS_INPUT_FAILED'' else Inr ()))"

definition auto_start_ids :: "manager \<Rightarrow> string list" where
  "auto_start_ids m =
     sort (map fst (filter (\<lambda>(iid, l). pc_auto_start (ic_process (life_cfg l))) (mg_lives m)))"

definition start_auto :: "(string \<Rightarrow> string) \<Rightarrow> int \<Rightarrow> manager \<Rightarrow> manager" where
  "start_auto H now m =
     foldl (\<lambda>m iid.
        case instance_event H iid StartOp m of
          (Some (Inl e), m1) \<Rightarrow>
            (case lookup iid m1 of
               Inl _ \<Rightarrow> m1
             | Inr _ \<Rightarrow> upd_inst iid (add_console now ''system'' (''automatic start failed: '' @ err_code e)) m1)
        | (_, m1) \<Rightarrow> m1) m (auto_start_ids m)"

definition detach_running_sessions :: "manager \<Rightarrow> manager" where
  "detach_running_sessions m =
     m\<lparr>mg_closing := True,
       mg_lives := map (\<lambda>(iid, l). (iid, l\<lparr>lf_closing := True, lf_inst := detach (lf_inst l)\<rparr>)) (mg_lives m)\<rparr>"

text \<open>
  \<open>RecoverSessions\<close>: \<open>attach\<close> is what dialling a listed session gives, with the plugin token and the
  start time of its greeting.
\<close>

record listed_session =
  ls_instance :: string
  ls_socket :: string
  ls_token :: string
  ls_plugin_token :: string

definition recover_sessions :: "(string \<Rightarrow> string) \<Rightarrow> int
    \<Rightarrow> (listed_session \<Rightarrow> (client \<times> string \<times> int) option) \<Rightarrow> listed_session list option \<Rightarrow> manager \<Rightarrow> manager" where
  "recover_sessions H now attach reply m =
     (case reply of
        None \<Rightarrow> m
      | Some sessions \<Rightarrow>
          foldl (\<lambda>m s.
            if ls_instance s = [] \<or> ls_socket s = [] then m
            else case attach s of
              None \<Rightarrow> m
            | Some (c, hello_token, started) \<Rightarrow>
                snd (instance_event H (ls_instance s)
                  (Recover now c (if hello_token \<noteq> [] then hello_token else ls_plugin_token s) started) m))
            m sessions)"

end
