(* ===== verification/ServerService.thy ===== *)
theory ServerService
  imports Supervisor
begin

text \<open>
  The server service (\<open>daemon/internal/server/service.go\<close>) over the supervisor and the store of
  configuration files (\<open>daemon/internal/store/server_store.go\<close>). A file is what \<open>LoadAll\<close> makes of it;
  whether a write or a delete succeeds, the answers of the file system, and the orders in which Go
  visits the instances are the fields of a record \<open>service_env\<close>.
\<close>

section \<open>The workspace\<close>

datatype lstat = RealDir | OtherEntry | NoEntry | StatFailed

definition abs_path :: "string list \<Rightarrow> string" where
  "abs_path es = slash # join_with [slash] es"

text \<open>
  The walk up from the target to the first existing directory, on the elements of the cleaned path
  in reverse: the elements below it that are missing, innermost last.
\<close>

fun probe :: "(string \<Rightarrow> lstat) \<Rightarrow> (string \<Rightarrow> string option) \<Rightarrow> string list \<Rightarrow> string list
    \<Rightarrow> (string list \<times> string list) result" where
  "probe stat resolve r missing =
     (case stat (abs_path (rev r)) of
        RealDir \<Rightarrow>
          if resolve (abs_path (rev r)) = Some (abs_path (rev r)) then Inr (rev r, missing)
          else Err ''PATH_ESCAPE''
      | OtherEntry \<Rightarrow> Err ''PATH_ESCAPE''
      | StatFailed \<Rightarrow> Err ''FILE_WRITE_FAILED''
      | NoEntry \<Rightarrow>
          (case r of [] \<Rightarrow> Err ''INVALID_CONFIG'' | e # r' \<Rightarrow> probe stat resolve r' (e # missing)))"

text \<open>The directories made one below the other; \<open>mkdir\<close> tells whether one can be made.\<close>

fun make_dirs :: "(string \<Rightarrow> bool) \<Rightarrow> string list \<Rightarrow> string list \<Rightarrow> unit result" where
  "make_dirs mkdir base [] = Inr ()"
| "make_dirs mkdir base (e # es) =
     (if mkdir (abs_path (base @ [e])) then make_dirs mkdir (base @ [e]) es else Err ''FILE_WRITE_FAILED'')"

definition ensure_server_workspace :: "(string \<Rightarrow> lstat) \<Rightarrow> (string \<Rightarrow> string option) \<Rightarrow> (string \<Rightarrow> bool)
    \<Rightarrow> server_config \<Rightarrow> unit result" where
  "ensure_server_workspace stat resolve mkdir cfg =
     (let target = (if sc_type cfg = ''mirror'' then path_join (sc_root cfg) (sc_image cfg) else sc_workspace cfg)
      in if \<not> is_abs target then Err ''INVALID_CONFIG''
         else case probe stat resolve (rev (path_elems target)) [] of
           Inl e \<Rightarrow> Inl e
         | Inr (base, missing) \<Rightarrow> make_dirs mkdir base missing)"

section \<open>The store\<close>

type_synonym server_files = "(string, server_config) gomap"

definition store_save :: "bool \<Rightarrow> server_config \<Rightarrow> server_files \<Rightarrow> server_files option" where
  "store_save write_ok cfg0 files =
     (let cfg = normalize_server cfg0
      in if validate_server cfg \<noteq> None \<or> \<not> write_ok then None else Some (aput (sc_id cfg) cfg files))"

definition store_delete :: "bool \<Rightarrow> string \<Rightarrow> server_files \<Rightarrow> server_files option" where
  "store_delete ok sid files = (if aget files sid = None \<or> ok then Some (adel sid files) else None)"

text \<open>
  \<open>LoadAll\<close> on the directory: a file is its name with what decoding gives (nothing if it cannot be
  read or decoded). The rejected ones are reported by name.
\<close>

definition load_entry :: "string \<times> server_config option \<Rightarrow> server_config option" where
  "load_entry e =
     (case snd e of
        None \<Rightarrow> None
      | Some cfg0 \<Rightarrow>
          let cfg = normalize_server cfg0
          in if validate_server cfg \<noteq> None \<or> fst e \<noteq> sc_id cfg @ ''.json'' then None else Some cfg)"

definition load_all :: "(string \<times> server_config option) list \<Rightarrow> server_config list \<times> string list" where
  "load_all entries =
     (let es = filter (\<lambda>e. suffix ''.json'' (to_lower (fst e))) entries
      in (sort_key sc_id (List.map_filter load_entry es),
          map fst (filter (\<lambda>e. load_entry e = None) es)))"

section \<open>The service\<close>

record server_service =
  sv_manager :: manager
  sv_servers :: "(string, server_config) gomap"
  sv_files :: server_files

record service_env =
  ev_order :: "string list"
  ev_rollback_order :: "string list"
  ev_port_write :: "instance_config \<Rightarrow> string option"
  ev_stat :: "string \<Rightarrow> lstat"
  ev_resolve :: "string \<Rightarrow> string option"
  ev_mkdir :: "string \<Rightarrow> bool"
  ev_store :: bool

definition new_server_service :: "manager \<Rightarrow> server_config list \<Rightarrow> server_files \<Rightarrow> server_service" where
  "new_server_service m configs files =
     \<lparr>sv_manager = m, sv_servers = fold (\<lambda>c. aput (sc_id c) c) configs [], sv_files = files\<rparr>"

definition list_servers :: "server_service \<Rightarrow> server_config list \<times> (string \<times> inst) list" where
  "list_servers s = (sort_key sc_id (map snd (sv_servers s)), list_instances (sv_manager s))"

definition get_server :: "string \<Rightarrow> server_service \<Rightarrow> server_config result" where
  "get_server sid s = (case aget (sv_servers s) sid of None \<Rightarrow> Err ''SERVER_NOT_FOUND'' | Some c \<Rightarrow> Inr c)"

definition apply_env :: "service_env \<Rightarrow> server_config \<Rightarrow> manager \<Rightarrow> string list result \<times> manager" where
  "apply_env e cfg m = apply_server (ev_port_write e) (ev_order e) cfg m"

definition rollback :: "service_env \<Rightarrow> server_config \<Rightarrow> manager \<Rightarrow> manager" where
  "rollback e old m = snd (apply_server (ev_port_write e) (ev_rollback_order e) old m)"

definition create_server :: "service_env \<Rightarrow> server_config \<Rightarrow> server_service \<Rightarrow> string list result \<times> server_service" where
  "create_server e cfg0 s =
     (let cfg = normalize_server cfg0; sid = sc_id cfg
      in if aget (sv_servers s) sid \<noteq> None then (Err ''SERVER_ID_CONFLICT'', s)
      else case check_server (sv_manager s) [] cfg of
        Inl x \<Rightarrow> (Inl x, s)
      | Inr _ \<Rightarrow>
          (case apply_env e cfg (sv_manager s) of
             (Inl x, m1) \<Rightarrow> (Inl x, s\<lparr>sv_manager := m1\<rparr>)
           | (Inr warnings, m1) \<Rightarrow>
               (case ensure_server_workspace (ev_stat e) (ev_resolve e) (ev_mkdir e) cfg of
                  Inl x \<Rightarrow> (Inl x, s\<lparr>sv_manager := snd (remove_server sid m1)\<rparr>)
                | Inr _ \<Rightarrow>
                    (case store_save (ev_store e) cfg (sv_files s) of
                       None \<Rightarrow> (Err ''CONFIG_WRITE_FAILED'', s\<lparr>sv_manager := snd (remove_server sid m1)\<rparr>)
                     | Some files \<Rightarrow>
                         (Inr warnings, s\<lparr>sv_manager := m1, sv_servers := aput sid cfg (sv_servers s),
                                          sv_files := files\<rparr>)))))"

definition update_server :: "service_env \<Rightarrow> string \<Rightarrow> server_config \<Rightarrow> server_service
    \<Rightarrow> string list result \<times> server_service" where
  "update_server e sid cfg0 s =
     (let cfg = normalize_server cfg0
      in if sc_id cfg \<noteq> sid then (Err ''SERVER_ID_IMMUTABLE'', s)
      else case aget (sv_servers s) sid of
        None \<Rightarrow> (Err ''SERVER_NOT_FOUND'', s)
      | Some old \<Rightarrow>
          (case check_server (sv_manager s) sid cfg of
             Inl x \<Rightarrow> (Inl x, s)
           | Inr _ \<Rightarrow>
               (case apply_env e cfg (sv_manager s) of
                  (Inl x, m1) \<Rightarrow> (Inl x, s\<lparr>sv_manager := m1\<rparr>)
                | (Inr warnings, m1) \<Rightarrow>
                    (case store_save (ev_store e) cfg (sv_files s) of
                       None \<Rightarrow> (Err ''CONFIG_WRITE_FAILED'', s\<lparr>sv_manager := rollback e old m1\<rparr>)
                     | Some files \<Rightarrow>
                         (Inr warnings, s\<lparr>sv_manager := m1, sv_servers := aput sid cfg (sv_servers s),
                                          sv_files := files\<rparr>)))))"

definition delete_server :: "service_env \<Rightarrow> string \<Rightarrow> server_service \<Rightarrow> unit result \<times> server_service" where
  "delete_server e sid s =
     (case aget (sv_servers s) sid of
        None \<Rightarrow> (Err ''SERVER_NOT_FOUND'', s)
      | Some old \<Rightarrow>
          (case remove_server sid (sv_manager s) of
             (Inl x, m1) \<Rightarrow> (Inl x, s\<lparr>sv_manager := m1\<rparr>)
           | (Inr _, m1) \<Rightarrow>
               (case store_delete (ev_store e) sid (sv_files s) of
                  None \<Rightarrow> (Err ''CONFIG_WRITE_FAILED'', s\<lparr>sv_manager := rollback e old m1\<rparr>)
                | Some files \<Rightarrow>
                    (Inr (), s\<lparr>sv_manager := m1, sv_servers := adel sid (sv_servers s),
                               sv_files := files\<rparr>))))"

text \<open>The service among everything else that happens to the instances.\<close>

datatype service_op =
    CreateServer service_env server_config
  | UpdateServer service_env string server_config
  | DeleteServer service_env string
  | InstanceEvent string life_event
  | ReserveDeployment "string list"
  | ReleaseDeployment "string list"
  | StartAuto int
  | Shutdown

definition on_manager :: "(manager \<Rightarrow> manager) \<Rightarrow> server_service \<Rightarrow> server_service" where
  "on_manager f s = s\<lparr>sv_manager := f (sv_manager s)\<rparr>"

fun service_step :: "(string \<Rightarrow> string) \<Rightarrow> server_service \<Rightarrow> service_op \<Rightarrow> server_service" where
  "service_step H s (CreateServer e cfg) = snd (create_server e cfg s)"
| "service_step H s (UpdateServer e sid cfg) = snd (update_server e sid cfg s)"
| "service_step H s (DeleteServer e sid) = snd (delete_server e sid s)"
| "service_step H s (InstanceEvent iid x) = on_manager (\<lambda>m. snd (instance_event H iid x m)) s"
| "service_step H s (ReserveDeployment ids) = on_manager (\<lambda>m. snd (reserve_deployment ids m)) s"
| "service_step H s (ReleaseDeployment ids) = on_manager (release_deployment ids) s"
| "service_step H s (StartAuto now) = on_manager (start_auto H now) s"
| "service_step H s Shutdown = on_manager detach_running_sessions s"

end
