(* ===== verification/Supervisor_Laws.thy ===== *)
theory Supervisor_Laws
  imports ServerService
begin

text \<open>
  Laws of the supervisor and the server service. What decides about ids, ports and servers is the
  \<open>view\<close> of a manager: for each key the configuration of the instance and whether it is managed.
  Each operation is a change of the view, and the invariant is stated on it.
\<close>

section \<open>The view\<close>

definition view :: "manager \<Rightarrow> string \<Rightarrow> (instance_config \<times> bool) option" where
  "view m k = map_option (\<lambda>l. (life_cfg l, in_managed (lf_inst l))) (aget (mg_lives m) k)"

definition cfg_same :: "inst \<Rightarrow> inst \<Rightarrow> bool" where
  "cfg_same i j \<longleftrightarrow> in_cfg j = in_cfg i \<and> in_managed j = in_managed i"

lemma aget_map_values:
  "aget (map (\<lambda>(k, v). (k, f k v)) m) k = map_option (f k) (aget m k)"
  by (induction m) (auto simp: aget_def)

lemma awf_map_values: "awf (map (\<lambda>(k, v). (k, f k v)) m) = awf m"
  by (simp add: awf_def comp_def split_beta)

lemma aget_upd_life:
  "aget (mg_lives (upd_life i f m)) k = map_option (\<lambda>l. if k = i then f l else l) (aget (mg_lives m) k)"
  by (simp add: upd_life_def aget_map_values)

lemma upd_life_fields [simp]:
  "mg_port (upd_life i f m) = mg_port m" "mg_buffer (upd_life i f m) = mg_buffer m"
  "mg_closing (upd_life i f m) = mg_closing m" "awf (mg_lives (upd_life i f m)) = awf (mg_lives m)"
  by (simp_all add: upd_life_def awf_map_values)

lemma upd_inst_fields [simp]:
  "mg_port (upd_inst i f m) = mg_port m" "mg_buffer (upd_inst i f m) = mg_buffer m"
  "mg_closing (upd_inst i f m) = mg_closing m" "awf (mg_lives (upd_inst i f m)) = awf (mg_lives m)"
  by (simp_all add: upd_inst_def)

lemma aget_upd_inst:
  "aget (mg_lives (upd_inst i f m)) k =
     map_option (\<lambda>l. if k = i then l\<lparr>lf_inst := f (lf_inst l)\<rparr> else l) (aget (mg_lives m) k)"
  by (simp add: upd_inst_def aget_upd_life)

lemma view_upd_life:
  assumes "\<And>l. aget (mg_lives m) i = Some l \<Longrightarrow> cfg_same (lf_inst l) (lf_inst (f l))"
  shows "view (upd_life i f m) = view m"
proof
  fix k
  show "view (upd_life i f m) k = view m k"
    using assms by (cases "aget (mg_lives m) k"; cases "k = i") (simp_all add: view_def aget_upd_life cfg_same_def)
qed

lemma view_upd_inst:
  assumes "\<And>j. cfg_same j (f j)"
  shows "view (upd_inst i f m) = view m"
  unfolding upd_inst_def by (rule view_upd_life) (simp add: assms)

lemma fold_upd_inst:
  assumes "\<And>j. cfg_same j (f j)"
  shows "view (fold (\<lambda>k. upd_inst k f) ks m) = view m \<and> mg_port (fold (\<lambda>k. upd_inst k f) ks m) = mg_port m \<and>
    awf (mg_lives (fold (\<lambda>k. upd_inst k f) ks m)) = awf (mg_lives m)"
  by (induction ks arbitrary: m) (simp_all add: view_upd_inst [OF assms])

lemma aget_fold_upd_inst:
  assumes "distinct ks"
  shows "aget (mg_lives (fold (\<lambda>k. upd_inst k f) ks m)) k =
     map_option (\<lambda>l. if k \<in> set ks then l\<lparr>lf_inst := f (lf_inst l)\<rparr> else l) (aget (mg_lives m) k)"
  using assms
  by (induction ks arbitrary: m)
    (auto simp: aget_upd_inst option.map_comp comp_def option.map_ident intro!: option.map_cong0 ext)

section \<open>Events do not change the view\<close>

lemma cfg_same_fields:
  "cfg_same i (i\<lparr>in_op := b\<rparr>)" "cfg_same i (i\<lparr>in_deploy_locked := b\<rparr>)" "cfg_same i (unlock_op i)"
  "cfg_same i (release i)" "cfg_same i (add_console now s c i)"
  by (simp_all add: cfg_same_def unlock_op_def release_def add_console_def publish_console_def Let_def)

interpretation config: life_frame cfg_same
proof unfold_locales
  show "cfg_same i (snd (stop_begin now en wr i))" for now en wr i
    by (auto simp: stop_begin_def cfg_same_def add_console_def publish_console_def Let_def split: option.split)
  show "cfg_same i (snd (wait_session now ct det err i))" for now ct det err i
    by (cases "in_expected i") (auto simp: wait_session_def Let_def split_beta cfg_same_def add_console_def
        publish_console_def allow_auto_restart_def)
qed (auto simp: cfg_same_def mark_start_failed_def mark_starting_def kill_begin_def
    add_console_def publish_console_def Let_def deploy_apply_def deploy_applied_def detach_def subscribe_def
    unsubscribe_def heartbeat_def set_pending_restart_def set_files_changed_def set_runtime_mismatch_def
    start_bound_def recover_bound_def reset_console_def register_plugin_def close_plugin_def
    split: option.split)

lemma view_event: 
  "view (snd (instance_event H iid x m)) = view m"
  "mg_port (snd (instance_event H iid x m)) = mg_port m"
  "awf (mg_lives (snd (instance_event H iid x m))) = awf (mg_lives m)"
proof -
  have *: "view (upd_life iid (\<lambda>_. snd (life_apply H l x)) m) = view m" if "aget (mg_lives m) iid = Some l" for l
    using that config.lsame_step [of l H x] by (intro view_upd_life) (simp add: config.lsame_def life_step_def)
  have found: "aget (mg_lives m) iid = Some l" if "lookup iid m = Inr l" for l
    using that by (auto simp: lookup_def split: option.splits if_splits)
  show "view (snd (instance_event H iid x m)) = view m"
    using * found by (auto simp: instance_event_def split_beta split: sum.split option.split if_splits)
  show "mg_port (snd (instance_event H iid x m)) = mg_port m"
    "awf (mg_lives (snd (instance_event H iid x m))) = awf (mg_lives m)"
    by (auto simp: instance_event_def split_beta split: sum.split)
qed

text \<open>Two managers that agree on everything the invariant looks at.\<close>

definition agree :: "manager \<Rightarrow> manager \<Rightarrow> bool" where
  "agree m n \<longleftrightarrow> view n = view m \<and> mg_port n = mg_port m \<and> (awf (mg_lives m) \<longrightarrow> awf (mg_lives n))"

lemma agree_refl [simp]: "agree m m"
  by (simp add: agree_def)

lemma agree_trans: "agree m n \<Longrightarrow> agree n p \<Longrightarrow> agree m p"
  by (simp add: agree_def)

lemma agree_upd_inst: "(\<And>j. cfg_same j (f j)) \<Longrightarrow> agree m (upd_inst k f m)"
  by (simp add: agree_def view_upd_inst)

lemma agree_fold_upd: "(\<And>j. cfg_same j (f j)) \<Longrightarrow> agree m (fold (\<lambda>k. upd_inst k f) ks m)"
  using fold_upd_inst [of f ks m] by (simp add: agree_def)

lemma agree_unlock: "agree m (unlock_operations ids m)"
  by (simp add: unlock_operations_def agree_fold_upd cfg_same_fields)

lemma agree_event: "agree m (snd (instance_event H iid x m))"
  by (simp add: agree_def view_event)

lemma agree_lock:
  assumes "aget (mg_lives m) iid = Some l" and "try_lock (lf_inst l) = (Inr x, i)"
  shows "agree m (upd_inst iid (\<lambda>_. i) m)"
proof -
  have "i = (lf_inst l)\<lparr>in_op := True\<rparr>" using assms(2) by (auto simp: try_lock_def split: if_splits)
  then show ?thesis
    using assms(1) by (auto simp: agree_def upd_inst_def cfg_same_def intro!: view_upd_life)
qed

lemma lookup_Inr: "lookup iid m = Inr l \<longleftrightarrow> aget (mg_lives m) iid = Some l \<and> in_managed (lf_inst l)"
  by (auto simp: lookup_def split: option.splits if_splits)

lemma agree_lock_operations: "agree m (snd (lock_operations ids items m))"
proof (induction ids items m rule: lock_operations.induct)
  case (1 items m)
  then show ?case by simp
next
  case (2 iid ids items m)
  show ?case
  proof (cases "lookup iid m")
    case (Inl e)
    then show ?thesis by (simp add: agree_unlock)
  next
    case (Inr l)
    then have l: "aget (mg_lives m) iid = Some l" by (simp add: lookup_Inr)
    show ?thesis
    proof (cases "try_lock (lf_inst l)")
      case (Pair r i)
      show ?thesis
      proof (cases r)
        case (Inl e)
        then show ?thesis using \<open>lookup iid m = Inr l\<close> Pair by (simp add: agree_unlock)
      next
        case (Inr u)
        note step = agree_lock [OF l Pair [unfolded Inr]]
        show ?thesis
        proof (cases "in_deploy_locked i \<or> in_transition i")
          case True
          then show ?thesis
            using agree_trans [OF step agree_unlock] \<open>lookup iid m = Inr l\<close> Pair Inr by (simp add: Let_def)
        next
          case False
          then show ?thesis
            using agree_trans [OF step 2 [OF \<open>lookup iid m = Inr l\<close> Pair [symmetric] Inr refl refl False]]
              \<open>lookup iid m = Inr l\<close> Pair Inr
            by (simp add: Let_def)
        qed
      qed
    qed
  qed
qed

lemma agree_reserve: "agree m (snd (reserve_deployment ids m))"
proof -
  obtain r n where l: "lock_operations (sort ids) [] m = (r, n)" by fastforce
  then have "agree m n" using agree_lock_operations [of m "sort ids" "[]"] by simp
  then show ?thesis
    using agree_trans [OF _ agree_trans [OF agree_fold_upd agree_unlock]] cfg_same_fields(2)
    by (cases r) (simp_all add: reserve_deployment_def l)
qed

lemma agree_release: "agree m (release_deployment ids m)"
  by (simp add: release_deployment_def agree_fold_upd cfg_same_fields)

lemma agree_detach: "agree m (detach_running_sessions m)"
proof -
  have "view (detach_running_sessions m) k = view m k" for k
    by (cases "aget (mg_lives m) k")
      (simp_all add: view_def detach_running_sessions_def aget_map_values detach_def)
  then show ?thesis
    by (simp add: agree_def fun_eq_iff) (simp add: detach_running_sessions_def awf_map_values)
qed

lemma agree_start_auto: "agree m (start_auto H now m)"
proof -
  have step: "agree n (case instance_event H iid StartOp n of
      (Some (Inl e), m1) \<Rightarrow>
        (case lookup iid m1 of Inl _ \<Rightarrow> m1
         | Inr _ \<Rightarrow> upd_inst iid (add_console now ''system'' (''automatic start failed: '' @ err_code e)) m1)
      | (_, m1) \<Rightarrow> m1)" for n iid
  proof -
    obtain r p where e: "instance_event H iid StartOp n = (r, p)" by fastforce
    then have "agree n p" using agree_event [of n H iid StartOp] by simp
    moreover have "agree p (upd_inst iid (add_console now ''system'' s) p)" for s
      by (rule agree_upd_inst) (simp add: cfg_same_fields)
    ultimately show ?thesis
      using agree_trans by (auto simp: e split: option.split sum.split)
  qed
  have "agree n (foldl (\<lambda>m iid. case instance_event H iid StartOp m of
      (Some (Inl e), m1) \<Rightarrow>
        (case lookup iid m1 of Inl _ \<Rightarrow> m1
         | Inr _ \<Rightarrow> upd_inst iid (add_console now ''system'' (''automatic start failed: '' @ err_code e)) m1)
      | (_, m1) \<Rightarrow> m1) n ids)" for n ids
    by (induction ids arbitrary: n) (auto intro: agree_trans [OF step])
  then show ?thesis by (simp only: start_auto_def)
qed

section \<open>Locking the instances of a server\<close>

abbreviation life_of :: "manager \<Rightarrow> string \<Rightarrow> life option" where
  "life_of m k \<equiv> aget (mg_lives m) k"

definition free :: "manager \<Rightarrow> string \<Rightarrow> bool" where
  "free m sid \<longleftrightarrow> (\<forall>k l. life_of m k = Some l \<longrightarrow> ic_server (life_cfg l) = sid \<longrightarrow>
     \<not> in_op (lf_inst l) \<and> \<not> in_deploy_locked (lf_inst l))"

definition op_taken :: "string \<Rightarrow> string list \<Rightarrow> string \<Rightarrow> life \<Rightarrow> life" where
  "op_taken sid ids k l =
     (if k \<in> set ids \<and> ic_server (life_cfg l) = sid then l\<lparr>lf_inst := (lf_inst l)\<lparr>in_op := True\<rparr>\<rparr> else l)"

lemma visit_props: "distinct (visit order m)" "set (visit order m) = fst ` set (mg_lives m)"
  by (auto simp: visit_def)

lemma in_visit: "life_of m k = Some l \<Longrightarrow> k \<in> set (visit order m)"
  using aget_SomeD [of "mg_lives m" k l] by (force simp: visit_props)

lemma agree_lock_server: "agree m (snd (lock_server sid ids locked m))"
proof (induction sid ids locked m rule: lock_server.induct)
  case (1 sid locked m)
  then show ?case by simp
next
  case (2 sid iid ids locked m)
  show ?case
  proof (cases "\<exists>l. life_of m iid = Some l \<and> ic_server (life_cfg l) = sid")
    case False
    then show ?thesis using 2(1,2) by (auto split: option.split)
  next
    case True
    then obtain l where l: "life_of m iid = Some l" "ic_server (life_cfg l) = sid" by blast
    obtain r i where t: "try_lock (lf_inst l) = (r, i)" by fastforce
    show ?thesis
    proof (cases r)
      case (Inl e)
      then show ?thesis using l t by (simp add: agree_fold_upd cfg_same_fields)
    next
      case (Inr u)
      note step = agree_lock [OF l(1) t [unfolded Inr]]
      have "agree (upd_inst iid (\<lambda>_. i) m) (snd (lock_server sid ids (locked @ [iid]) (upd_inst iid (\<lambda>_. i) m)))"
        if "deployment_lock_error i = Inr v" for v
        using 2(3) [OF l(1) _ t [symmetric] Inr refl that] l(2) by simp
      then show ?thesis
        using l t Inr step agree_trans [OF step] by (auto simp: Let_def split: sum.split)
    qed
  qed
qed

lemma lock_server_ok:
  assumes "lock_server sid ids locked m = (Inr out, n)" and "distinct ids"
  shows "set out = set locked \<union> {k \<in> set ids. \<exists>l. life_of m k = Some l \<and> ic_server (life_cfg l) = sid} \<and>
     (\<forall>k. life_of n k = map_option (op_taken sid ids k) (life_of m k)) \<and>
     (\<forall>k \<in> set ids. \<forall>l. life_of m k = Some l \<longrightarrow> ic_server (life_cfg l) = sid \<longrightarrow>
        \<not> in_op (lf_inst l) \<and> \<not> in_deploy_locked (lf_inst l)) \<and>
     (distinct locked \<longrightarrow> set locked \<inter> set ids = {} \<longrightarrow> distinct out)"
  using assms
proof (induction sid ids locked m rule: lock_server.induct)
  case (1 sid locked m)
  then show ?case by (auto simp: op_taken_def option.map_ident)
next
  case (2 sid iid ids locked m)
  show ?case
  proof (cases "\<exists>l. life_of m iid = Some l \<and> ic_server (life_cfg l) = sid")
    case False
    then have rest: "lock_server sid ids locked m = (Inr out, n)"
      using 2(4) by (auto split: option.splits)
    have "map_option (op_taken sid (iid # ids) k) (life_of m k) = map_option (op_taken sid ids k) (life_of m k)" for k
      using False by (auto simp: op_taken_def intro!: map_option_cong)
    moreover note IH = 2(1) [OF _ rest] 2(2) [OF _ _ rest]
    ultimately show ?thesis
      using False 2(5) by (cases "life_of m iid") auto
  next
    case True
    then obtain l where l: "life_of m iid = Some l" "ic_server (life_cfg l) = sid" by blast
    obtain r i where t: "try_lock (lf_inst l) = (r, i)" by fastforce
    from 2(4) l t obtain u where r: "r = Inr u" by (cases r) auto
    let ?m = "upd_inst iid (\<lambda>_. i) m"
    from 2(4) l t r obtain v where d: "deployment_lock_error i = Inr v"
      and rest: "lock_server sid ids (locked @ [iid]) ?m = (Inr out, n)"
      by (cases "deployment_lock_error i") (auto simp: Let_def)
    have i: "i = (lf_inst l)\<lparr>in_op := True\<rparr>" "\<not> in_op (lf_inst l)" "\<not> in_deploy_locked (lf_inst l)"
      using t r d by (auto simp: try_lock_def deployment_lock_error_def split: if_splits)
    have get: "life_of ?m k = (if k = iid then Some (l\<lparr>lf_inst := i\<rparr>) else life_of m k)" for k
      using l(1) by (simp add: aget_upd_inst option.map_ident)
    have taken: "map_option (op_taken sid ids k) (life_of ?m k) =
        map_option (op_taken sid (iid # ids) k) (life_of m k)" for k
      unfolding get using l i(1) 2(5) by (cases "k = iid") (auto simp: op_taken_def intro!: map_option_cong)
    have same: "(\<exists>x. life_of ?m k = Some x \<and> ic_server (life_cfg x) = sid) \<longleftrightarrow>
        (\<exists>x. life_of m k = Some x \<and> ic_server (life_cfg x) = sid)" for k
      unfolding get using l i(1) by auto
    from 2(3) [OF l(1) _ t [symmetric] r refl d rest] l(2) 2(5)
    have IH: "set out = set (locked @ [iid]) \<union> {k \<in> set ids. \<exists>x. life_of ?m k = Some x \<and> ic_server (life_cfg x) = sid}"
      "\<forall>k. life_of n k = map_option (op_taken sid ids k) (life_of ?m k)"
      "\<forall>k \<in> set ids. \<forall>x. life_of ?m k = Some x \<longrightarrow> ic_server (life_cfg x) = sid \<longrightarrow>
        \<not> in_op (lf_inst x) \<and> \<not> in_deploy_locked (lf_inst x)"
      "distinct (locked @ [iid]) \<longrightarrow> set (locked @ [iid]) \<inter> set ids = {} \<longrightarrow> distinct out"
      by auto
    have "set out = set locked \<union> {k \<in> set (iid # ids). \<exists>x. life_of m k = Some x \<and> ic_server (life_cfg x) = sid}"
      using IH(1) l unfolding same by auto
    moreover have "\<forall>k \<in> set (iid # ids). \<forall>x. life_of m k = Some x \<longrightarrow> ic_server (life_cfg x) = sid \<longrightarrow>
        \<not> in_op (lf_inst x) \<and> \<not> in_deploy_locked (lf_inst x)"
      using IH(3) [unfolded get] l i 2(5) by (auto split: if_splits)
    moreover have "distinct locked \<longrightarrow> set locked \<inter> set (iid # ids) = {} \<longrightarrow> distinct out"
      using IH(4) 2(5) by auto
    ultimately show ?thesis using IH(2) taken by simp
  qed
qed

lemma lock_server_free:
  assumes "\<forall>k \<in> set ids. \<forall>l. life_of m k = Some l \<longrightarrow> ic_server (life_cfg l) = sid \<longrightarrow>
      \<not> in_op (lf_inst l) \<and> \<not> in_deploy_locked (lf_inst l)" and "distinct ids"
  shows "\<exists>out. fst (lock_server sid ids locked m) = Inr out"
  using assms
proof (induction ids arbitrary: locked m)
  case Nil
  then show ?case by simp
next
  case (Cons iid ids)
  show ?case
  proof (cases "\<exists>l. life_of m iid = Some l \<and> ic_server (life_cfg l) = sid")
    case False
    then show ?thesis using Cons by (auto split: option.split)
  next
    case True
    then obtain l where l: "life_of m iid = Some l" "ic_server (life_cfg l) = sid" by blast
    with Cons.prems have f: "\<not> in_op (lf_inst l)" "\<not> in_deploy_locked (lf_inst l)" by auto
    have "\<exists>out. fst (lock_server sid ids (locked @ [iid]) (upd_inst iid (\<lambda>_. (lf_inst l)\<lparr>in_op := True\<rparr>) m)) = Inr out"
      using Cons.prems by (intro Cons.IH) (auto simp: aget_upd_inst)
    then show ?thesis
      using l f by (simp add: Let_def try_lock_def deployment_lock_error_def)
  qed
qed

section \<open>Applying and removing a server\<close>

lemma life_of_add:
  "life_of (add_instance c m) k =
     (if k = ic_id c then Some ((new_life c (mg_buffer m))\<lparr>lf_closing := mg_closing m\<rparr>) else life_of m k)"
  by (simp add: add_instance_def aget_aput)

lemma view_add: "view (add_instance c m) = (view m)(ic_id c \<mapsto> (c, True))"
  by (simp add: view_def life_of_add fun_eq_iff new_life_def new_instance_def)

lemma place_fields [simp]:
  "mg_port (place_instance c m) = mg_port m" "mg_closing (place_instance c m) = mg_closing m"
  "awf (mg_lives m) \<Longrightarrow> awf (mg_lives (place_instance c m))"
  by (simp_all add: place_instance_def add_instance_def awf_aput split: option.split)

lemma view_place: "view (place_instance c m) = (view m)(ic_id c \<mapsto> (c, True))"
  by (cases "life_of m (ic_id c)")
    (auto simp: place_instance_def view_add view_def aget_upd_inst fun_eq_iff option.map_ident)

lemma life_of_place:
  "life_of (place_instance c m) k = Some l \<Longrightarrow>
     (if k = ic_id c then life_cfg l = c \<and>
        (life_of m k = None \<and> \<not> in_op (lf_inst l) \<and> \<not> in_deploy_locked (lf_inst l) \<and>
           in_state (lf_inst l) = Stopped \<or>
         (\<exists>l'. life_of m k = Some l' \<and> in_op (lf_inst l) = in_op (lf_inst l') \<and>
             in_deploy_locked (lf_inst l) = in_deploy_locked (lf_inst l') \<and>
             in_state (lf_inst l) = in_state (lf_inst l')))
      else life_of m k = Some l)"
  by (cases "life_of m (ic_id c)")
    (auto simp: place_instance_def life_of_add aget_upd_inst new_life_def new_instance_def)

lemma fold_place:
  "view (fold place_instance cs m) = view m ++ map_of (rev (map (\<lambda>c. (ic_id c, (c, True))) cs)) \<and>
   mg_port (fold place_instance cs m) = mg_port m \<and>
   (awf (mg_lives m) \<longrightarrow> awf (mg_lives (fold place_instance cs m)))"
  by (induction cs arbitrary: m) (auto simp: view_place)

lemma fold_place_life:
  "life_of (fold place_instance cs m) k = Some l \<Longrightarrow>
     (\<not> in_op (lf_inst l) \<and> \<not> in_deploy_locked (lf_inst l) \<and> in_state (lf_inst l) = Stopped) \<or>
     (\<exists>l'. life_of m k = Some l' \<and> in_op (lf_inst l) = in_op (lf_inst l') \<and>
             in_deploy_locked (lf_inst l) = in_deploy_locked (lf_inst l') \<and>
             in_state (lf_inst l) = in_state (lf_inst l'))"
proof (induction cs arbitrary: m l)
  case Nil
  then show ?case by auto
next
  case (Cons c cs)
  from Cons.IH [of "place_instance c m" l] Cons.prems show ?case
    using life_of_place [of c m k] by (force split: if_splits)
qed

text \<open>The instances of a server as the view shows them.\<close>

definition targets :: "server_config \<Rightarrow> string \<Rightarrow> (instance_config \<times> bool) option" where
  "targets s = map_of (rev (map (\<lambda>c. (ic_id c, (c, True))) (instances s)))"

lemma targets_Some:
  assumes "distinct (map ic_id (instances s))"
  shows "targets s k = Some x \<longleftrightarrow> (\<exists>c \<in> set (instances s). ic_id c = k \<and> x = (c, True))"
proof -
  have "distinct (map fst (rev (map (\<lambda>c. (ic_id c, (c, True))) (instances s))))"
    using assms by (simp add: rev_map comp_def distinct_map)
  from map_of_eq_Some_iff [OF this] show ?thesis by (auto simp: targets_def)
qed

lemma targets_None: "targets s k = None \<longleftrightarrow> k \<notin> ic_id ` set (instances s)"
  by (force simp: targets_def map_of_eq_None_iff)

lemma life_of_retire:
  assumes "awf (mg_lives m)"
  shows "life_of (retire sid ts m) k =
    (case life_of m k of
       None \<Rightarrow> None
     | Some l \<Rightarrow>
         if ic_server (life_cfg l) = sid \<and> k \<notin> set ts
         then (if in_state (lf_inst l) = Stopped then None
               else Some (l\<lparr>lf_inst := (lf_inst l)\<lparr>in_managed := False\<rparr>\<rparr>))
         else Some l)"
  by (simp add: retire_def Let_def aget_map_values aget_filter [OF assms] split: option.split)

lemma retire_fields [simp]:
  "mg_port (retire sid ts m) = mg_port m" "awf (mg_lives m) \<Longrightarrow> awf (mg_lives (retire sid ts m))"
  by (simp_all add: retire_def Let_def awf_map_values awf_filter)

text \<open>What a successful \<open>ApplyServer\<close> makes of the manager.\<close>

definition applied :: "server_config \<Rightarrow> manager \<Rightarrow> manager \<Rightarrow> bool" where
  "applied s m n \<longleftrightarrow>
     mg_port n = mg_port m \<and> awf (mg_lives n) \<and> free n (sc_id s) \<and>
     (\<forall>k l. life_of n k = Some l \<longrightarrow> ic_server (life_cfg l) = sc_id s \<longrightarrow> view m k = None \<longrightarrow>
        in_state (lf_inst l) = Stopped) \<and>
     (\<forall>k. case targets s k of
        Some x \<Rightarrow> view n k = Some x
      | None \<Rightarrow>
          (case view m k of
             None \<Rightarrow> view n k = None
           | Some (c, b) \<Rightarrow>
               if ic_server c = sc_id s then view n k = None \<or> view n k = Some (c, False)
               else view n k = Some (c, b)))"

definition own_ids :: "server_config \<Rightarrow> manager \<Rightarrow> bool" where
  "own_ids s m \<longleftrightarrow>
     (\<forall>c \<in> set (instances s). \<forall>l. life_of m (ic_id c) = Some l \<longrightarrow> ic_server (life_cfg l) = sc_id s)"

lemma apply_server_Inr:
  assumes "apply_server pw order cfg m = (Inr w, n)" and "s = normalize_server cfg"
    and wf: "awf (mg_lives m)" and ids: "distinct (map ic_id (instances s))"
    and own: "own_ids s m"
  shows "applied s m n"
proof -
  obtain locked m1 where lk: "lock_server (sc_id s) (visit order m) [] m = (Inr locked, m1)"
    and n: "n = fold (\<lambda>k. upd_inst k unlock_op) locked
      (retire (sc_id s) (map ic_id (instances s)) (fold place_instance (instances s) m1))"
    using assms(1) unfolding apply_server_def assms(2) [symmetric] Let_def
    by (auto split: sum.splits prod.splits)
  note ok = lock_server_ok [OF lk visit_props(1)]
  have dist: "distinct locked" using ok by simp
  have in_locked: "k \<in> set locked \<longleftrightarrow> (\<exists>l. life_of m k = Some l \<and> ic_server (life_cfg l) = sc_id s)" for k
    using ok in_visit by auto
  have unlocked: "\<not> in_deploy_locked (lf_inst l)" if "life_of m k = Some l" "ic_server (life_cfg l) = sc_id s" for k l
    using ok that in_visit by blast
  have m1: "life_of m1 k = map_option (op_taken (sc_id s) (visit order m) k) (life_of m k)" for k
    using ok by blast
  have ag: "agree m m1" using agree_lock_server [of m "sc_id s" "visit order m" "[]"] lk by simp
  define m2 where "m2 = fold place_instance (instances s) m1"
  define m3 where "m3 = retire (sc_id s) (map ic_id (instances s)) m2"
  have m2: "view m2 = view m ++ targets s" "mg_port m2 = mg_port m" "awf (mg_lives m2)"
    using fold_place [of "instances s" m1] ag wf by (auto simp: m2_def agree_def targets_def)
  note m3 = life_of_retire [OF m2(3), of "sc_id s" "map ic_id (instances s)", folded m3_def]
  have n': "n = fold (\<lambda>k. upd_inst k unlock_op) locked m3" by (simp add: n m3_def m2_def)
  have ag3: "agree m3 n" unfolding n' by (rule agree_fold_upd) (simp add: cfg_same_fields)
  have view3: "view m3 k = (case view m2 k of None \<Rightarrow> None | Some (c, b) \<Rightarrow>
      if ic_server c = sc_id s \<and> k \<notin> ic_id ` set (instances s)
      then (if in_state (lf_inst (the (life_of m2 k))) = Stopped then None else Some (c, False))
      else Some (c, b))" for k
    by (cases "life_of m2 k") (auto simp: view_def m3)
  have vn: "view n = view m3" using ag3 by (simp add: agree_def)
  have both: "(\<not> in_op (lf_inst l) \<and> \<not> in_deploy_locked (lf_inst l)) \<and>
      (view m k = None \<longrightarrow> in_state (lf_inst l) = Stopped)"
    if l: "life_of n k = Some l" and sid: "ic_server (life_cfg l) = sc_id s" for k l
  proof -
    from l dist obtain l3 where l3: "life_of m3 k = Some l3"
      "l = (if k \<in> set locked then l3\<lparr>lf_inst := unlock_op (lf_inst l3)\<rparr> else l3)"
      by (auto simp: n' aget_fold_upd_inst)
    then have sid3: "ic_server (life_cfg l3) = sc_id s" using sid by (auto simp: unlock_op_def split: if_splits)
    from l3(1) obtain l2 where l2: "life_of m2 k = Some l2" "in_op (lf_inst l3) = in_op (lf_inst l2)"
      "in_deploy_locked (lf_inst l3) = in_deploy_locked (lf_inst l2)" "life_cfg l3 = life_cfg l2"
      "in_state (lf_inst l3) = in_state (lf_inst l2)"
      by (auto simp: m3 split: option.splits if_splits)
    from fold_place_life [OF l2(1) [unfolded m2_def]] show ?thesis
    proof
      assume "\<not> in_op (lf_inst l2) \<and> \<not> in_deploy_locked (lf_inst l2) \<and> in_state (lf_inst l2) = Stopped"
      then show ?thesis using l3(2) l2 by (auto simp: unlock_op_def)
    next
      assume "\<exists>l'. life_of m1 k = Some l' \<and> in_op (lf_inst l2) = in_op (lf_inst l') \<and>
        in_deploy_locked (lf_inst l2) = in_deploy_locked (lf_inst l') \<and> in_state (lf_inst l2) = in_state (lf_inst l')"
      then obtain l1 where l1: "life_of m1 k = Some l1" "in_deploy_locked (lf_inst l2) = in_deploy_locked (lf_inst l1)"
        by blast
      then obtain l0 where l0: "life_of m k = Some l0" "l1 = op_taken (sc_id s) (visit order m) k l0"
        by (auto simp: m1)
      have "ic_server (life_cfg l0) = sc_id s"
      proof (cases "k \<in> ic_id ` set (instances s)")
        case True
        then show ?thesis using own l0(1) by (auto simp: own_ids_def)
      next
        case False
        then have "targets s k = None" by (simp add: targets_None)
        then have "view m2 k = view m k" by (simp add: m2 map_add_def)
        then show ?thesis using l0(1) l2(1,4) sid3 by (simp add: view_def)
      qed
      then show ?thesis
        using l0 l1(2) l2(3) l3(2) in_locked [of k] unlocked [of k l0]
        by (auto simp: unlock_op_def op_taken_def view_def)
    qed
  qed
  then have "free n (sc_id s)" by (simp add: free_def)
  moreover note both
  moreover have "case targets s k of
        Some x \<Rightarrow> view n k = Some x
      | None \<Rightarrow>
          (case view m k of
             None \<Rightarrow> view n k = None
           | Some (c, b) \<Rightarrow>
               if ic_server c = sc_id s then view n k = None \<or> view n k = Some (c, False)
               else view n k = Some (c, b))" for k
  proof (cases "targets s k")
    case None
    then have "k \<notin> ic_id ` set (instances s)" by (simp add: targets_None)
    moreover have "view m2 k = view m k" using None by (simp add: m2 map_add_def)
    ultimately show ?thesis using None by (auto simp: vn view3 split: option.split)
  next
    case (Some x)
    then have "k \<in> ic_id ` set (instances s)" "view m2 k = Some x"
      using targets_None [of s k] by (auto simp: m2 map_add_def)
    with Some show ?thesis by (auto simp: vn view3 split: option.split)
  qed
  moreover have "mg_port n = mg_port m" "awf (mg_lives n)"
    using ag3 m2 by (simp_all add: agree_def m3_def)
  ultimately show ?thesis by (simp add: applied_def)
qed

lemma apply_server_Inl:
  assumes "apply_server pw order cfg m = (Inl e, n)"
  shows "agree m n"
proof -
  let ?s = "normalize_server cfg"
  have "agree m (snd (lock_server (sc_id ?s) (visit order m) [] m))" by (rule agree_lock_server)
  then show ?thesis
    using assms by (auto simp: apply_server_def Let_def split: sum.splits prod.splits)
qed

lemma apply_server_succeeds:
  assumes "validate_server_locked m (sc_id (normalize_server cfg)) (normalize_server cfg) = Inr u"
    and "free m (sc_id (normalize_server cfg))"
  shows "\<exists>w n. apply_server pw order cfg m = (Inr w, n)"
proof -
  obtain out n where "lock_server (sc_id (normalize_server cfg)) (visit order m) [] m = (Inr out, n)"
    using lock_server_free [OF _ visit_props(1) [of order m], of m "sc_id (normalize_server cfg)" "[]"] assms(2)
    by (cases "lock_server (sc_id (normalize_server cfg)) (visit order m) [] m") (force simp: free_def)
  then show ?thesis using assms(1) by (simp add: apply_server_def Let_def)
qed

lemma view_remove:
  assumes "remove_server sid m = (Inr u, n)" and "awf (mg_lives m)"
  shows "view n k = (case view m k of None \<Rightarrow> None | Some (c, b) \<Rightarrow> if ic_server c = sid then None else Some (c, b))"
    and "mg_port n = mg_port m" and "awf (mg_lives n)"
proof -
  have n: "n = m\<lparr>mg_lives := filter (\<lambda>(iid, l). ic_server (life_cfg l) \<noteq> sid) (mg_lives m)\<rparr>"
    using assms(1) by (auto simp: remove_server_def split: if_splits)
  show "mg_port n = mg_port m" and "awf (mg_lives n)" using assms(2) by (simp_all add: n awf_filter)
  show "view n k = (case view m k of None \<Rightarrow> None | Some (c, b) \<Rightarrow> if ic_server c = sid then None else Some (c, b))"
    by (simp add: n view_def aget_filter [OF assms(2)] split: option.split)
qed

lemma remove_server_Inl: "remove_server sid m = (Inl e, n) \<Longrightarrow> n = m"
  by (auto simp: remove_server_def split: if_splits)

lemma validate_locked_Inr:
  "validate_server_locked m sid s = Inr u \<longleftrightarrow>
     distinct (map ic_port (instances s)) \<and>
     (\<forall>c \<in> set (instances s). ic_port c \<noteq> mg_port m \<and>
        (\<forall>(k, l) \<in> set (mg_lives m). ic_server (life_cfg l) \<noteq> sid \<longrightarrow> k \<noteq> ic_id c \<and> ic_port (life_cfg l) \<noteq> ic_port c))"
proof -
  have ex: "check_existing r c ls = Inr v \<longleftrightarrow>
      (\<forall>(k, l) \<in> set ls. ic_server (life_cfg l) \<noteq> r \<longrightarrow> k \<noteq> ic_id c \<and> ic_port (life_cfg l) \<noteq> ic_port c)" for r c ls v
    by (induction r c ls rule: check_existing.induct) auto
  have cand: "check_candidates m r cs = Inr v \<longleftrightarrow> (\<forall>c \<in> set cs. ic_port c \<noteq> mg_port m \<and>
      (\<forall>(k, l) \<in> set (mg_lives m). ic_server (life_cfg l) \<noteq> r \<longrightarrow> k \<noteq> ic_id c \<and> ic_port (life_cfg l) \<noteq> ic_port c))" for r cs v
  proof (induction cs)
    case Nil
    then show ?case by simp
  next
    case (Cons c cs)
    show ?case
      using ex [of r c "mg_lives m"] Cons by (cases "check_existing r c (mg_lives m)") (auto split: sum.splits)
  qed
  show ?thesis
    unfolding cand [symmetric, where v = "()"] validate_server_locked_def
    by (cases "check_candidates m sid (instances s)") auto
qed

section \<open>Consistency of the instances with the servers\<close>

text \<open>
  The servers \<open>S\<close> and the view \<open>v\<close> agree except for the servers in \<open>X\<close>: the managed instances are
  the instances of the servers, no instance has the port of the daemon, and instances of different
  servers, or both managed, have different ports.
\<close>

definition consistent :: "int \<Rightarrow> (string \<Rightarrow> (instance_config \<times> bool) option)
    \<Rightarrow> (string \<Rightarrow> server_config option) \<Rightarrow> string set \<Rightarrow> bool" where
  "consistent p v S X \<longleftrightarrow>
     (\<forall>sid c. S sid = Some c \<longrightarrow> sc_id c = sid \<and> validate_server c = None) \<and>
     (\<forall>k c b. v k = Some (c, b) \<longrightarrow> ic_id c = k \<and> ic_port c \<noteq> p \<and> (ic_server c \<notin> X \<longrightarrow> S (ic_server c) \<noteq> None)) \<and>
     (\<forall>k c. ic_server c \<notin> X \<longrightarrow>
        (v k = Some (c, True) \<longleftrightarrow> (\<exists>cfg. S (ic_server c) = Some cfg \<and> c \<in> set (instances cfg) \<and> ic_id c = k))) \<and>
     (\<forall>k c b k' c' b'. v k = Some (c, b) \<longrightarrow> v k' = Some (c', b') \<longrightarrow> k \<noteq> k' \<longrightarrow>
        ic_server c \<noteq> ic_server c' \<or> b \<and> b' \<longrightarrow> ic_port c \<noteq> ic_port c')"

definition admissible :: "int \<Rightarrow> (string \<Rightarrow> (instance_config \<times> bool) option) \<Rightarrow> server_config \<Rightarrow> bool" where
  "admissible p v s \<longleftrightarrow>
     distinct (map ic_port (instances s)) \<and>
     (\<forall>c \<in> set (instances s). ic_port c \<noteq> p \<and>
        (\<forall>k c' b. v k = Some (c', b) \<longrightarrow> ic_server c' \<noteq> sc_id s \<longrightarrow> k \<noteq> ic_id c \<and> ic_port c' \<noteq> ic_port c))"

definition installed :: "(string \<Rightarrow> (instance_config \<times> bool) option) \<Rightarrow> server_config
    \<Rightarrow> (string \<Rightarrow> (instance_config \<times> bool) option) \<Rightarrow> bool" where
  "installed v s v' \<longleftrightarrow>
     (\<forall>k. case targets s k of
        Some x \<Rightarrow> v' k = Some x
      | None \<Rightarrow>
          (case v k of
             None \<Rightarrow> v' k = None
           | Some (c, b) \<Rightarrow>
               if ic_server c = sc_id s then v' k = None \<or> v' k = Some (c, False) else v' k = Some (c, b)))"

lemma instances_server: "c \<in> set (instances s) \<Longrightarrow> ic_server c = sc_id s"
  by (auto simp: instances_def mirror_instance_def split: if_splits)

lemma instances_ids:
  assumes "validate_server s = None"
  shows "distinct (map ic_id (instances s))"
proof (cases "sc_type s = ''standalone''")
  case True
  then show ?thesis by (simp add: instances_def)
next
  case False
  with validate_server_common(2) [OF assms] have mirror: "sc_type s = ''mirror''" by blast
  then show ?thesis
    by (auto simp: instances_mirror [OF mirror] distinct_map inj_on_def mirror_instance_def
        dest: mirror_id_inj [rotated 2])
qed

lemma validate_admissible:
  assumes "awf (mg_lives m)"
  shows "validate_server_locked m (sc_id s) s = Inr u \<longleftrightarrow> admissible (mg_port m) (view m) s"
proof -
  have "(\<forall>(k, l) \<in> set (mg_lives m). P k l) \<longleftrightarrow> (\<forall>k l. life_of m k = Some l \<longrightarrow> P k l)" for P
    using aget_Some_iff [OF assms] by auto
  then show ?thesis
    by (simp add: validate_locked_Inr admissible_def view_def) blast
qed

end
