(* ===== verification/Service_Props.thy ===== *)
theory Service_Props
  imports Supervisor_Laws
begin

text \<open>
  The server service keeps three things in step: the configurations it serves, the files of the
  store and the instances of the supervisor, whatever fails on the way.
\<close>

section \<open>One server at a time\<close>

lemma consistent_known:
  "consistent p v S X \<Longrightarrow> v k = Some (c, b) \<Longrightarrow>
     ic_id c = k \<and> ic_port c \<noteq> p \<and> (ic_server c \<notin> X \<longrightarrow> S (ic_server c) \<noteq> None)"
  unfolding consistent_def by blast

lemma consistent_weaken: "consistent p v S {} \<Longrightarrow> consistent p v S X"
  by (simp add: consistent_def)

lemma installed_Some:
  assumes "installed v s v'" and "targets s k = Some x"
  shows "v' k = Some x"
  using assms(1) [unfolded installed_def, THEN spec, of k] assms(2) by simp

lemma installed_None:
  assumes "installed v s v'" and "targets s k = None"
  shows "case v k of None \<Rightarrow> v' k = None
    | Some (c, b) \<Rightarrow>
        if ic_server c = sc_id s then v' k = None \<or> v' k = Some (c, False) else v' k = Some (c, b)"
  using assms(1) [unfolded installed_def, THEN spec, of k] unfolding assms(2) option.case .

lemma consistent_install:
  assumes C: "consistent p v S {sc_id s}" and A: "admissible p v s" and ok: "validate_server s = None"
    and I: "installed v s v'"
  shows "consistent p v' (S(sc_id s \<mapsto> s)) {}"
proof -
  note ids = instances_ids [OF ok]
  have target: "v' k = Some (c, True)" if "c \<in> set (instances s)" "ic_id c = k" for c k
  proof -
    have "targets s k = Some (c, True)" using that targets_Some [OF ids] by auto
    then show ?thesis by (rule installed_Some [OF I])
  qed
  have entry: "(c \<in> set (instances s) \<and> ic_id c = k \<and> b) \<or>
      (v k = Some (c, b) \<and> ic_server c \<noteq> sc_id s) \<or>
      (\<exists>b'. v k = Some (c, b') \<and> ic_server c = sc_id s \<and> \<not> b)" if "v' k = Some (c, b)" for k c b
  proof (cases "targets s k")
    case None
    from installed_None [OF I None]
    show ?thesis using that by (auto split: option.splits if_splits)
  next
    case (Some x)
    then have "v' k = Some x" by (rule installed_Some [OF I])
    then show ?thesis using that Some targets_Some [OF ids] by auto
  qed
  have other: "v' k = Some (c, b)" if "v k = Some (c, b)" "ic_server c \<noteq> sc_id s" for k c b
  proof -
    have "k \<notin> ic_id ` set (instances s)"
      using A that by (auto simp: admissible_def)
    then have "targets s k = None" by (simp add: targets_None)
    from installed_None [OF I this] show ?thesis using that by simp
  qed
  note C' = C [unfolded consistent_def]
  have cfgs: "sc_id c = sid \<and> validate_server c = None" if "(S(sc_id s \<mapsto> s)) sid = Some c" for sid c
    using that C' ok by (auto split: if_splits)
  have known: "ic_id c = k \<and> ic_port c \<noteq> p \<and> (S(sc_id s \<mapsto> s)) (ic_server c) \<noteq> None"
    if "v' k = Some (c, b)" for k c b
    using entry [OF that]
  proof (elim disjE)
    assume "c \<in> set (instances s) \<and> ic_id c = k \<and> b"
    then show ?thesis using A by (auto simp: admissible_def instances_server)
  next
    assume "v k = Some (c, b) \<and> ic_server c \<noteq> sc_id s"
    then show ?thesis using consistent_known [OF C, of k c b] by simp
  next
    assume "\<exists>b'. v k = Some (c, b') \<and> ic_server c = sc_id s \<and> \<not> b"
    then show ?thesis using consistent_known [OF C, of k c] by auto
  qed
  have managed: "v' k = Some (c, True) \<longleftrightarrow>
      (\<exists>cfg. (S(sc_id s \<mapsto> s)) (ic_server c) = Some cfg \<and> c \<in> set (instances cfg) \<and> ic_id c = k)" for k c
  proof (cases "ic_server c = sc_id s")
    case True
    then show ?thesis using entry [of k c True] target by auto
  next
    case False
    then have "v' k = Some (c, True) \<longleftrightarrow> v k = Some (c, True)"
      using entry [of k c True] other [of k c True] instances_server by auto
    then show ?thesis using False C' by simp
  qed
  have ports: "ic_port c \<noteq> ic_port c'"
    if "v' k = Some (c, b)" "v' k' = Some (c', b')" "k \<noteq> k'" "ic_server c \<noteq> ic_server c' \<or> b \<and> b'"
    for k c b k' c' b'
  proof -
    have sep: "ic_port x \<noteq> ic_port y" if "v i = Some (x, bx)" "v j = Some (y, by)" "i \<noteq> j"
      "ic_server x \<noteq> ic_server y \<or> bx \<and> by" for i j x y bx "by"
      using C' that by blast
    have tt: "ic_port x \<noteq> ic_port y" if "x \<in> set (instances s)" "y \<in> set (instances s)" "ic_id x \<noteq> ic_id y" for x y
      using A that by (auto simp: admissible_def distinct_map inj_on_def)
    have to: "ic_port y \<noteq> ic_port x" if "x \<in> set (instances s)" "v j = Some (y, by)" "ic_server y \<noteq> sc_id s" for x y j "by"
      using A that by (auto simp: admissible_def)
    show ?thesis
      using entry [OF that(1)] entry [OF that(2)] that(3,4)
      by (elim disjE conjE exE) (use tt to sep instances_server in \<open>metis\<close>)+
  qed
  show ?thesis
    unfolding consistent_def using cfgs known managed ports by blast
qed

lemma consistent_remove:
  assumes C: "consistent p v S {}" and v': "\<And>k. v' k = (case v k of None \<Rightarrow> None
      | Some (c, b) \<Rightarrow> if ic_server c = sid then None else Some (c, b))"
  shows "consistent p v' (S(sid := None)) {}"
proof -
  have entry: "v' k = Some (c, b) \<longleftrightarrow> v k = Some (c, b) \<and> ic_server c \<noteq> sid" for k c b
    by (auto simp: v' split: option.splits if_splits)
  note C' = C [unfolded consistent_def]
  have known: "ic_id c = k \<and> ic_port c \<noteq> p \<and> (S(sid := None)) (ic_server c) \<noteq> None" if "v' k = Some (c, b)" for k c b
    using that consistent_known [OF C, of k c b] unfolding entry fun_upd_apply by simp
  have managed: "v' k = Some (c, True) \<longleftrightarrow>
      (\<exists>cfg. (S(sid := None)) (ic_server c) = Some cfg \<and> c \<in> set (instances cfg) \<and> ic_id c = k)" for k c
    using C' unfolding entry by simp
  show ?thesis
    unfolding consistent_def using C' known managed by (auto simp: entry split: if_splits)
qed

text \<open>A server that was installed can be installed again while the others stay as they are.\<close>

lemma consistent_admissible:
  assumes C: "consistent p v S {}" and s: "S sid = Some s"
    and others: "\<And>k c b. v' k = Some (c, b) \<Longrightarrow> ic_server c \<noteq> sid \<Longrightarrow> v k = Some (c, b)"
  shows "admissible p v' s"
proof -
  note C' = C [unfolded consistent_def]
  have sid: "sc_id s = sid" and ok: "validate_server s = None" using C' s by blast+
  have mine: "v (ic_id c) = Some (c, True)" if "c \<in> set (instances s)" for c
    using C' that s sid instances_server [OF that] by auto
  have "distinct (map ic_port (instances s))"
    unfolding distinct_map
  proof
    show "distinct (instances s)" using instances_ids [OF ok] by (simp add: distinct_map)
    show "inj_on ic_port (set (instances s))"
    proof (rule inj_onI)
      fix x y assume xy: "x \<in> set (instances s)" "y \<in> set (instances s)" "ic_port x = ic_port y"
      then have "ic_id x = ic_id y" using mine [of x] mine [of y] C' by metis
      then show "x = y" using xy instances_ids [OF ok] by (auto simp: distinct_map inj_on_def)
    qed
  qed
  moreover have "ic_port c \<noteq> p" if "c \<in> set (instances s)" for c
    using mine [OF that] C' by blast
  moreover have "k \<noteq> ic_id c \<and> ic_port c' \<noteq> ic_port c"
    if "c \<in> set (instances s)" "v' k = Some (c', b)" "ic_server c' \<noteq> sc_id s" for c k c' b
  proof -
    have v: "v k = Some (c', b)" using others that(2,3) sid by simp
    have m: "v (ic_id c) = Some (c, True)" by (rule mine [OF that(1)])
    have "ic_server c = sc_id s" by (rule instances_server [OF that(1)])
    with v m that(3) have "k \<noteq> ic_id c" by auto
    moreover from this have "ic_port c' \<noteq> ic_port c"
      using v m that(3) C' \<open>ic_server c = sc_id s\<close> by metis
    ultimately show ?thesis ..
  qed
  ultimately show ?thesis by (simp add: admissible_def)
qed

section \<open>The invariant of the service\<close>

abbreviation svc_view :: "server_service \<Rightarrow> string \<Rightarrow> (instance_config \<times> bool) option" where
  "svc_view s \<equiv> view (sv_manager s)"

definition service_ok :: "server_service \<Rightarrow> bool" where
  "service_ok s \<longleftrightarrow>
     awf (mg_lives (sv_manager s)) \<and>
     consistent (mg_port (sv_manager s)) (svc_view s) (aget (sv_servers s)) {} \<and>
     aget (sv_files s) = aget (sv_servers s)"

lemma apply_installed: "applied s m n \<Longrightarrow> installed (view m) s (view n)"
  by (simp add: applied_def installed_def)

lemma admissible_own:
  assumes "awf (mg_lives m)" and "admissible p (view m) s"
  shows "own_ids s m"
proof -
  have "ic_server (life_cfg l) = sc_id s" if "c \<in> set (instances s)" "life_of m (ic_id c) = Some l" for c l
  proof -
    have "view m (ic_id c) = Some (life_cfg l, in_managed (lf_inst l))" using that(2) by (simp add: view_def)
    then show ?thesis using assms(2) that(1) by (auto simp: admissible_def)
  qed
  then show ?thesis by (simp add: own_ids_def)
qed

text \<open>\<open>ApplyServer\<close> on a consistent manager, and again on the result.\<close>

lemma apply_server_consistent:
  assumes wf: "awf (mg_lives m)" and C: "consistent (mg_port m) (view m) S {sc_id cfg}"
    and ok: "validate_server cfg = None" and norm: "normalize_server cfg = cfg"
    and A: "apply_server pw order cfg m = (Inr w, n)"
  shows "applied cfg m n" and "consistent (mg_port n) (view n) (S(sc_id cfg \<mapsto> cfg)) {}"
    and "own_ids cfg m"
proof -
  have v: "validate_server_locked m (sc_id cfg) cfg = Inr ()"
    using A unfolding apply_server_def norm Let_def by (auto split: sum.splits)
  then have adm: "admissible (mg_port m) (view m) cfg" by (simp add: validate_admissible [OF wf])
  show "own_ids cfg m" by (rule admissible_own [OF wf adm])
  show ap: "applied cfg m n"
    using apply_server_Inr [OF A norm [symmetric] wf instances_ids [OF ok] admissible_own [OF wf adm]] .
  show "consistent (mg_port n) (view n) (S(sc_id cfg \<mapsto> cfg)) {}"
    using consistent_install [OF C adm ok apply_installed [OF ap]] ap by (simp add: applied_def)
qed

lemma apply_server_succeeds':
  assumes wf: "awf (mg_lives m)" and norm: "normalize_server cfg = cfg"
    and "admissible (mg_port m) (view m) cfg" and "free m (sc_id cfg)"
  shows "\<exists>w n. apply_server pw order cfg m = (Inr w, n)"
  using apply_server_succeeds [of m cfg "()"] validate_admissible [OF wf] assms by simp

lemma rollback_consistent:
  assumes C: "consistent p (view m) S {}" and wf: "awf (mg_lives n)" and old: "S sid = Some old"
    and C': "consistent (mg_port n) (view n) S' {}" and S': "S'(sid \<mapsto> old) = S"
    and p: "mg_port n = p" and free: "free n sid"
    and others: "\<And>k c b. view n k = Some (c, b) \<Longrightarrow> ic_server c \<noteq> sid \<Longrightarrow> view m k = Some (c, b)"
  shows "awf (mg_lives (rollback e old n)) \<and> mg_port (rollback e old n) = p \<and>
    consistent p (view (rollback e old n)) S {}"
proof -
  have sid: "sc_id old = sid" and ok: "validate_server old = None"
    using C old by (auto simp: consistent_def)
  have norm: "normalize_server old = old" by (rule normalize_server_fixed [OF ok])
  have adm: "admissible (mg_port n) (view n) old"
    unfolding p by (rule consistent_admissible [OF C old others])
  obtain w q where A: "apply_server (ev_port_write e) (ev_rollback_order e) old n = (Inr w, q)"
    using apply_server_succeeds' [OF wf norm adm] free sid by blast
  note res = apply_server_consistent [OF wf consistent_weaken [OF C'] ok norm A]
  show ?thesis
    using res S' p sid A by (simp add: rollback_def applied_def)
qed

lemma applied_others:
  assumes "applied s m n" and "view n k = Some (c, b)" and "ic_server c \<noteq> sc_id s"
  shows "view m k = Some (c, b)"
proof (cases "targets s k")
  case None
  from installed_None [OF apply_installed [OF assms(1)] None] show ?thesis
    using assms(2,3) by (auto split: option.splits if_splits)
next
  case (Some x)
  then have "x \<in> snd ` set (map (\<lambda>c. (ic_id c, (c, True))) (instances s))"
    unfolding targets_def by (force dest: map_of_SomeD)
  with installed_Some [OF apply_installed [OF assms(1)] Some] show ?thesis
    using assms(2,3) instances_server by auto
qed

lemma check_server_Inr:
  "check_server m sid cfg = Inr u \<Longrightarrow> validate_server (normalize_server cfg) = None"
  by (auto simp: check_server_def Let_def split: option.splits)

text \<open>Removing a server that was just created.\<close>

lemma undo_create:
  assumes C: "consistent p (view m) S {}" and new: "S (sc_id cfg) = None" and ap: "applied cfg m n"
    and own: "own_ids cfg m"
    and C': "consistent p (view n) (S(sc_id cfg \<mapsto> cfg)) {}" and p: "mg_port m = p"
  shows "awf (mg_lives (snd (remove_server (sc_id cfg) n))) \<and> mg_port (snd (remove_server (sc_id cfg) n)) = p \<and>
    consistent p (view (snd (remove_server (sc_id cfg) n))) S {}"
proof -
  have wf: "awf (mg_lives n)" and port: "mg_port n = p" using ap p by (simp_all add: applied_def)
  have none: "ic_server c \<noteq> sc_id cfg" if "view m k = Some (c, b)" for k c b
    using consistent_known [OF C that] new by auto
  have stopped: "in_state (lf_inst l) = Stopped \<and> \<not> in_deploy_locked (lf_inst l)"
    if l: "life_of n k = Some l" and sid: "ic_server (life_cfg l) = sc_id cfg" for k l
  proof -
    have vn: "view n k = Some (life_cfg l, in_managed (lf_inst l))" using l by (simp add: view_def)
    have "view m k = None"
    proof (cases "targets cfg k")
      case None
      from installed_None [OF apply_installed [OF ap] None] vn sid none show ?thesis
        by (auto split: option.splits if_splits)
    next
      case (Some x)
      then have t: "k \<in> ic_id ` set (instances cfg)" using targets_None [of cfg k] by auto
      show ?thesis
      proof (rule ccontr)
        assume "view m k \<noteq> None"
        then obtain l' where l': "life_of m k = Some l'" by (auto simp: view_def)
        then have "view m k = Some (life_cfg l', in_managed (lf_inst l'))" by (simp add: view_def)
        moreover have "ic_server (life_cfg l') = sc_id cfg" using own t l' by (auto simp: own_ids_def)
        ultimately show False using none by blast
      qed
    qed
    then show ?thesis using ap l sid by (auto simp: applied_def free_def)
  qed
  have "\<not> list_ex (\<lambda>(iid, l). ic_server (life_cfg l) = sc_id cfg \<and>
      (in_state (lf_inst l) \<noteq> Stopped \<or> in_deploy_locked (lf_inst l))) (mg_lives n)"
    using stopped aget_Some_iff [OF wf] by (auto simp: list_ex_iff)
  then obtain q where rm: "remove_server (sc_id cfg) n = (Inr (), q)"
    by (simp add: remove_server_def)
  note v = view_remove [OF rm wf]
  have "consistent p (view q) ((S(sc_id cfg \<mapsto> cfg))(sc_id cfg := None)) {}"
    by (rule consistent_remove [OF C' v(1)])
  moreover have "(S(sc_id cfg \<mapsto> cfg))(sc_id cfg := None) = S" using new by auto
  ultimately show ?thesis using v(2,3) port rm by simp
qed

lemma aget_aput_fun: "aget (aput k v m) = (aget m)(k \<mapsto> v)"
  by (simp add: fun_eq_iff aget_aput)

lemma aget_adel_fun: "aget (adel k m) = (aget m)(k := None)"
  by (simp add: fun_eq_iff aget_adel)

lemma store_save_Some:
  assumes "store_save ok cfg files = Some files'" and "normalize_server cfg = cfg"
  shows "aget files' = (aget files)(sc_id cfg \<mapsto> cfg)"
  using assms by (auto simp: store_save_def Let_def aget_aput_fun split: if_splits)

lemma service_ok_create:
  assumes ok: "service_ok s"
  shows "service_ok (snd (create_server e cfg0 s))"
proof -
  define cfg where "cfg = normalize_server cfg0"
  let ?m = "sv_manager s" and ?S = "aget (sv_servers s)"
  have norm: "normalize_server cfg = cfg" by (simp add: cfg_def normalize_server_idem)
  have wf: "awf (mg_lives ?m)" and C: "consistent (mg_port ?m) (view ?m) ?S {}" and stored: "aget (sv_files s) = ?S"
    using ok by (simp_all add: service_ok_def)
  show ?thesis
  proof (cases "?S (sc_id cfg) \<noteq> None \<or> isl (check_server ?m [] cfg)")
    case True
    then show ?thesis
      using ok by (cases "check_server ?m [] cfg") (auto simp: create_server_def Let_def cfg_def [symmetric])
  next
    case False
    then have new: "?S (sc_id cfg) = None" and chk: "check_server ?m [] cfg = Inr ()"
      by (cases "check_server ?m [] cfg"; simp)+
    have v: "validate_server cfg = None" using check_server_Inr [OF chk] norm by simp
    obtain r m1 where A: "apply_env e cfg ?m = (r, m1)" by fastforce
    show ?thesis
    proof (cases r)
      case (Inl x)
      then have "agree ?m m1" using A apply_server_Inl by (simp add: apply_env_def)
      then show ?thesis
        using ok new chk A Inl
        by (simp add: create_server_def Let_def cfg_def [symmetric] service_ok_def agree_def)
    next
      case (Inr w)
      note res = apply_server_consistent [OF wf consistent_weaken [OF C] v norm A [unfolded apply_env_def Inr]]
      have wf1: "awf (mg_lives m1)" and port: "mg_port m1 = mg_port ?m" using res(1) by (simp_all add: applied_def)
      note undo = undo_create [OF C new res(1,3) res(2) [unfolded port] refl]
      have undone: "service_ok (s\<lparr>sv_manager := snd (remove_server (sc_id cfg) m1)\<rparr>)"
        using undo stored by (simp add: service_ok_def)
      have kept: "service_ok (s\<lparr>sv_manager := m1, sv_servers := aput (sc_id cfg) cfg (sv_servers s),
          sv_files := files'\<rparr>)" if "store_save (ev_store e) cfg (sv_files s) = Some files'" for files'
        using res(2) wf1 store_save_Some [OF that norm] stored
        by (simp add: service_ok_def aget_aput_fun)
      show ?thesis
        using new chk A Inr undone kept
        by (auto simp: create_server_def Let_def cfg_def [symmetric] split: sum.split option.split)
    qed
  qed
qed

lemma service_ok_update:
  assumes ok: "service_ok s"
  shows "service_ok (snd (update_server e sid cfg0 s))"
proof -
  define cfg where "cfg = normalize_server cfg0"
  let ?m = "sv_manager s" and ?S = "aget (sv_servers s)"
  have norm: "normalize_server cfg = cfg" by (simp add: cfg_def normalize_server_idem)
  have wf: "awf (mg_lives ?m)" and C: "consistent (mg_port ?m) (view ?m) ?S {}" and stored: "aget (sv_files s) = ?S"
    using ok by (simp_all add: service_ok_def)
  show ?thesis
  proof (cases "sc_id cfg \<noteq> sid \<or> ?S sid = None \<or> isl (check_server ?m sid cfg)")
    case True
    then show ?thesis
      using ok by (cases "check_server ?m sid cfg"; cases "?S sid")
        (auto simp: update_server_def Let_def cfg_def [symmetric])
  next
    case False
    then obtain old where sid: "sc_id cfg = sid" and old: "?S sid = Some old" and chk: "check_server ?m sid cfg = Inr ()"
      by (cases "check_server ?m sid cfg") auto
    have v: "validate_server cfg = None" using check_server_Inr [OF chk] norm by simp
    obtain r m1 where A: "apply_env e cfg ?m = (r, m1)" by fastforce
    show ?thesis
    proof (cases r)
      case (Inl x)
      then have "agree ?m m1" using A apply_server_Inl by (simp add: apply_env_def)
      then show ?thesis
        using ok sid old chk A Inl
        by (simp add: update_server_def Let_def cfg_def [symmetric] service_ok_def agree_def)
    next
      case (Inr w)
      note res = apply_server_consistent [OF wf consistent_weaken [OF C] v norm A [unfolded apply_env_def Inr]]
      have wf1: "awf (mg_lives m1)" and port: "mg_port m1 = mg_port ?m" and free: "free m1 sid"
        using res(1) sid by (simp_all add: applied_def)
      have S': "(?S(sc_id cfg \<mapsto> cfg))(sid \<mapsto> old) = ?S" using sid old by auto
      note undo = rollback_consistent [OF C wf1 old res(2) S' port free applied_others [OF res(1), unfolded sid]]
      have undone: "service_ok (s\<lparr>sv_manager := rollback e old m1\<rparr>)"
        using undo stored by (simp add: service_ok_def)
      have kept: "service_ok (s\<lparr>sv_manager := m1, sv_servers := aput sid cfg (sv_servers s),
          sv_files := files'\<rparr>)" if "store_save (ev_store e) cfg (sv_files s) = Some files'" for files'
        using res(2) wf1 store_save_Some [OF that norm] stored sid
        by (simp add: service_ok_def aget_aput_fun)
      show ?thesis
        using sid old chk A Inr undone kept
        by (auto simp: update_server_def Let_def cfg_def [symmetric] split: sum.split option.split)
    qed
  qed
qed

lemma service_ok_delete:
  assumes ok: "service_ok s"
  shows "service_ok (snd (delete_server e sid s))"
proof -
  let ?m = "sv_manager s" and ?S = "aget (sv_servers s)"
  have wf: "awf (mg_lives ?m)" and C: "consistent (mg_port ?m) (view ?m) ?S {}" and stored: "aget (sv_files s) = ?S"
    using ok by (simp_all add: service_ok_def)
  show ?thesis
  proof (cases "?S sid")
    case None
    then show ?thesis using ok by (simp add: delete_server_def)
  next
    case (Some old)
    obtain r m1 where R: "remove_server sid ?m = (r, m1)" by fastforce
    show ?thesis
    proof (cases r)
      case (Inl x)
      then have "m1 = ?m" using R remove_server_Inl by simp
      then show ?thesis using ok Some R Inl by (simp add: delete_server_def)
    next
      case (Inr u)
      note v = view_remove [OF R [unfolded Inr] wf]
      have C1: "consistent (mg_port m1) (view m1) (?S(sid := None)) {}"
        unfolding v(2) by (rule consistent_remove [OF C v(1)])
      have entry: "view ?m k = Some (c, b) \<and> ic_server c \<noteq> sid" if "view m1 k = Some (c, b)" for k c b
        using that v(1) [of k] by (auto split: option.splits if_splits)
      have "free m1 sid"
        unfolding free_def
      proof (intro allI impI)
        fix k l assume "life_of m1 k = Some l" "ic_server (life_cfg l) = sid"
        then show "\<not> in_op (lf_inst l) \<and> \<not> in_deploy_locked (lf_inst l)"
          using entry [of k "life_cfg l" "in_managed (lf_inst l)"] by (simp add: view_def)
      qed
      moreover have "(?S(sid := None))(sid \<mapsto> old) = ?S" using Some by auto
      ultimately have "service_ok (s\<lparr>sv_manager := rollback e old m1\<rparr>)"
        using rollback_consistent [OF C v(3) Some C1 _ v(2)] entry stored by (simp add: service_ok_def)
      moreover have "service_ok (s\<lparr>sv_manager := m1, sv_servers := adel sid (sv_servers s), sv_files := adel sid (sv_files s)\<rparr>)"
        using C1 v(3) stored by (simp add: service_ok_def aget_adel_fun)
      ultimately show ?thesis
        using Some R Inr by (simp add: delete_server_def store_delete_def)
    qed
  qed
qed

lemma service_ok_agree:
  "service_ok s \<Longrightarrow> agree (sv_manager s) (f (sv_manager s)) \<Longrightarrow> service_ok (on_manager f s)"
  by (simp add: service_ok_def agree_def on_manager_def)

lemma service_ok_step: "service_ok s \<Longrightarrow> service_ok (service_step H s x)"
  by (cases x) (simp_all add: service_ok_create service_ok_update service_ok_delete service_ok_agree
      agree_event agree_reserve agree_release agree_start_auto agree_detach)

section \<open>The start\<close>

definition server_map :: "server_config list \<Rightarrow> (string, server_config) gomap" where
  "server_map configs = fold (\<lambda>c. aput (sc_id c) c) configs []"

lemma aget_fold_aput:
  "aget (fold (\<lambda>c. aput (sc_id c) c) configs m) = fold (\<lambda>c S. S(sc_id c \<mapsto> c)) configs (aget m)"
  by (induction configs arbitrary: m) (simp_all add: aget_aput_fun)

lemma fold_add:
  "view (fold add_instance cs m) = view m ++ map_of (rev (map (\<lambda>c. (ic_id c, (c, True))) cs)) \<and>
   mg_port (fold add_instance cs m) = mg_port m \<and>
   (awf (mg_lives m) \<longrightarrow> awf (mg_lives (fold add_instance cs m)))"
  by (induction cs arbitrary: m) (auto simp: view_add, auto simp: add_instance_def awf_aput)

lemma build_consistent:
  assumes "build_manager configs m = Inr n" and "awf (mg_lives m)"
    and "consistent p (view m) S {}" and "mg_port m = p"
    and "list_all (\<lambda>c. validate_server c = None) configs" and "distinct (map sc_id configs)"
    and "\<forall>c \<in> set configs. S (sc_id c) = None"
  shows "awf (mg_lives n) \<and> mg_port n = p \<and> consistent p (view n) (fold (\<lambda>c S. S(sc_id c \<mapsto> c)) configs S) {}"
  using assms
proof (induction configs arbitrary: m S)
  case Nil
  then show ?case by simp
next
  case (Cons c cs)
  have ok: "validate_server c = None" using Cons.prems(5) by simp
  note norm = normalize_server_fixed [OF ok]
  obtain u where v: "validate_server_locked m [] c = Inr u"
    and rest: "build_manager cs (fold add_instance (instances c) m) = Inr n"
    using Cons.prems(1) by (auto simp: norm Let_def split: sum.splits)
  let ?m = "fold add_instance (instances c) m"
  have new: "ic_server x \<noteq> sc_id c \<and> ic_server x \<noteq> []" if e: "view m k = Some (x, b)" for k x b
  proof -
    obtain y where "S (ic_server x) = Some y" using consistent_known [OF Cons.prems(3) e] by auto
    moreover from this have "sc_id y = ic_server x" "validate_server y = None"
      using Cons.prems(3) unfolding consistent_def by blast+
    ultimately show ?thesis
      using Cons.prems(7) validate_server_common(1) [of y] by (auto simp: process_ok_def server_id_ok_def)
  qed
  have adm: "admissible p (view m) c"
    unfolding admissible_def
  proof (intro conjI ballI allI impI)
    show "distinct (map ic_port (instances c))" using v by (simp add: validate_locked_Inr)
  next
    fix x assume "x \<in> set (instances c)"
    then show "ic_port x \<noteq> p" using v Cons.prems(4) by (simp add: validate_locked_Inr)
  next
    fix x k c' b assume x: "x \<in> set (instances c)" and e: "view m k = Some (c', b)"
    then obtain l where l: "life_of m k = Some l" "life_cfg l = c'" by (auto simp: view_def)
    then have "(k, l) \<in> set (mg_lives m)" by (simp add: aget_SomeD)
    then show "k \<noteq> ic_id x" "ic_port c' \<noteq> ic_port x"
      using v x new [OF e] l(2) by (auto simp: validate_locked_Inr)
  qed
  have "installed (view m) c (view ?m)"
    using new fold_add [of "instances c" m]
    by (auto simp: installed_def targets_def map_add_def split: option.split)
  then have C: "consistent p (view ?m) (S(sc_id c \<mapsto> c)) {}"
    by (intro consistent_install [OF consistent_weaken [OF Cons.prems(3)] adm ok])
  have "awf (mg_lives ?m)" "mg_port ?m = p" using fold_add [of "instances c" m] Cons.prems(2,4) by simp_all
  moreover have "\<forall>x \<in> set cs. (S(sc_id c \<mapsto> c)) (sc_id x) = None"
    using Cons.prems(6,7) by (simp, metis imageI)
  ultimately have "awf (mg_lives n) \<and> mg_port n = p \<and>
      consistent p (view n) (fold (\<lambda>c S. S(sc_id c \<mapsto> c)) cs (S(sc_id c \<mapsto> c))) {}"
    using Cons.prems(5,6) by (intro Cons.IH [OF rest _ C]) auto
  then show ?case by (simp only: fold_Cons o_apply)
qed

definition service_start :: "server_service \<Rightarrow> bool" where
  "service_start s \<longleftrightarrow>
     (\<exists>port buffer configs m. distinct (map sc_id configs) \<and>
        list_all (\<lambda>c. validate_server c = None) configs \<and> new_supervisor port buffer configs = Inr m \<and>
        s = new_server_service m configs (server_map configs))"

lemma service_ok_start:
  assumes "service_start s"
  shows "service_ok s"
proof -
  obtain port buffer configs m where *: "distinct (map sc_id configs)"
    "list_all (\<lambda>c. validate_server c = None) configs" "new_supervisor port buffer configs = Inr m"
    "s = new_server_service m configs (server_map configs)"
    using assms by (auto simp: service_start_def)
  have empty: "aget [] = (\<lambda>_. None)" by (rule ext) simp
  have "consistent port (view \<lparr>mg_port = port, mg_buffer = buffer, mg_closing = False, mg_lives = []\<rparr>)
      (\<lambda>_. None) {}"
    by (simp add: consistent_def view_def)
  from build_consistent [OF *(3) [unfolded new_supervisor_def] _ this _ *(2,1)]
  have "awf (mg_lives m) \<and> mg_port m = port \<and> consistent port (view m) (aget (server_map configs)) {}"
    by (simp add: server_map_def aget_fold_aput empty)
  then show ?thesis
    by (simp add: *(4) service_ok_def new_server_service_def server_map_def)
qed

interpretation services: safe_machine service_start "\<lambda>_ _. True" "service_step H" service_ok for H
  by unfold_locales (auto intro: service_ok_start service_ok_step)

section \<open>Properties\<close>


text \<open>
  C4: no two instances fight for a port. In every reachable state an instance that can be looked up
  does not use the port of the daemon, and two different ones never have the same port, across all
  servers; their workspaces belong to valid configurations.
\<close>

theorem ports_separate:
  assumes "service_start s"
  shows "let m = sv_manager (run_steps (service_step H) s ops) in
    lookup iid m = Inr l \<longrightarrow>
      in_managed (lf_inst l) \<and> ic_id (in_cfg (lf_inst l)) = iid \<and> ic_port (in_cfg (lf_inst l)) \<noteq> mg_port m \<and>
      (lookup iid' m = Inr l' \<longrightarrow> iid \<noteq> iid' \<longrightarrow> ic_port (in_cfg (lf_inst l)) \<noteq> ic_port (in_cfg (lf_inst l')))"
proof -
  define t where "t = run_steps (service_step H) s ops"
  have "service_ok t" unfolding t_def by (rule services.run_inv [OF assms]) simp
  then have C: "consistent (mg_port (sv_manager t)) (svc_view t) (aget (sv_servers t)) {}"
    by (simp add: service_ok_def)
  have v: "svc_view t k = Some (life_cfg x, True)" if "lookup k (sv_manager t) = Inr x" for k x
    using that by (simp add: lookup_Inr view_def)
  show ?thesis
    unfolding t_def [symmetric] Let_def
  proof (intro impI conjI)
    assume l: "lookup iid (sv_manager t) = Inr l"
    show "in_managed (lf_inst l)" using l by (simp add: lookup_Inr)
    show "ic_id (life_cfg l) = iid" "ic_port (life_cfg l) \<noteq> mg_port (sv_manager t)"
      using consistent_known [OF C v [OF l]] by simp_all
    assume "lookup iid' (sv_manager t) = Inr l'" "iid \<noteq> iid'"
    with v [OF l] v [of iid' l'] C show "ic_port (life_cfg l) \<noteq> ic_port (life_cfg l')"
      unfolding consistent_def by blast
  qed
qed

text \<open>Two servers to evaluate the properties on: a mirror server with two instances and a proxy.\<close>

definition proxy_ex :: server_config where
  "proxy_ex = \<lparr>sc_schema = 2, sc_type = ''standalone'', sc_platform = ''velocity'', sc_id = ''proxy'',
     sc_name = ''Proxy'', sc_workspace = ''/srv/proxy'', sc_port = 25577, sc_root = [], sc_image = [],
     sc_count = 0, sc_ports = [], sc_exclude = [],
     sc_process = \<lparr>pc_start = ''java'', pc_stop = ''end'', pc_timeout = 30, pc_auto_start = True,
       pc_auto_restart = False\<rparr>, sc_encoding = ''utf-8''\<rparr>"

definition start_ex :: server_service where
  "start_ex = new_server_service
     (case new_supervisor 8443 100 [proxy_ex] of Inr m \<Rightarrow> m | Inl _ \<Rightarrow> undefined) [proxy_ex] (server_map [proxy_ex])"


lemma start_ex_start: "service_start start_ex"
proof -
  have "\<not> isl (new_supervisor 8443 100 [proxy_ex])" and "validate_server proxy_ex = None" by code_simp+
  then show ?thesis
    unfolding service_start_def start_ex_def
    by (intro exI [of _ 8443] exI [of _ 100] exI [of _ "[proxy_ex]"]) (auto split: sum.splits)
qed


lemma ports_separate_witness:
  "let m = sv_manager (run_steps (service_step id) start_ex []) in
   \<not> isl (lookup ''proxy'' m) \<and> ic_port (in_cfg (lf_inst (projr (lookup ''proxy'' m)))) \<noteq> 8443"
proof -
  let ?m = "sv_manager (run_steps (service_step id) start_ex [])"
  have port: "mg_port ?m = 8443" and "\<not> isl (lookup ''proxy'' ?m)" by code_simp+
  from this(2) obtain l where l: "lookup ''proxy'' ?m = Inr l" by (cases "lookup ''proxy'' ?m") simp_all
  have "ic_port (life_cfg l) \<noteq> mg_port ?m"
    using ports_separate [OF start_ex_start, of id "[]" "''proxy''" l "''proxy''" l] l unfolding Let_def by blast
  then show ?thesis unfolding Let_def l port by simp
qed

end
