(* ===== verification/Instance_Props.thy ===== *)
theory Instance_Props
  imports Instance_Frame
begin

text \<open>
  The life cycle of one instance: what holds in every reachable state, the console stream a
  subscriber sees, the bound on automatic restarts, the plugin link, the end of every operation, and
  the race of a restart with the goroutine that records the exit.
\<close>

section \<open>Reachable states\<close>

lemma life_inv_new: "0 < capacity \<Longrightarrow> life_inv (new_life cfg capacity)"
  by (simp add: life_inv_def new_life_def new_instance_def inst_ok_def ring_ok_def link_ok_def new_ring_def)





text \<open>An instance to evaluate the properties on, and a client for it.\<close>

definition sample_config :: instance_config where
  "sample_config =
     \<lparr>ic_id = ''survival'', ic_server = ''survival'', ic_slot = 1, ic_type = ''game'',
      ic_platform = ''paper'', ic_name = ''Survival'', ic_workspace = ''/srv/survival'', ic_port = 25565,
      ic_process = \<lparr>pc_start = ''java'', pc_stop = ''stop'', pc_timeout = 30,
         pc_auto_start = False, pc_auto_restart = True\<rparr>,
      ic_encoding = ''utf-8''\<rparr>"

definition sample_binding :: binding where
  "sample_binding =
     \<lparr>bd_client = \<lparr>ct_id = 1, ct_pid = 7, ct_session = ''s1''\<rparr>, bd_session = ''s1'', bd_token = ''t1'',
      bd_created = True\<rparr>"

definition sample_running :: life where
  "sample_running =
     \<lparr>lf_pc = Idle,
      lf_inst = (new_instance sample_config 10)
        \<lparr>in_state := Running, in_client := Some (bd_client sample_binding), in_session := ''s1'',
         in_pid := 7, in_token_hash := ''t1'', in_token_set := True, in_generation := 1\<rparr>,
      lf_closing = False, lf_applied = Inr ()\<rparr>"



section \<open>The console stream\<close>








section \<open>Automatic restarts\<close>

text \<open>The times at which an exit was followed by an automatic restart, and the clock of a run.\<close>

fun granted :: "(string \<Rightarrow> string) \<Rightarrow> life \<Rightarrow> life_event list \<Rightarrow> int list" where
  "granted H l [] = []"
| "granted H l (x # xs) =
     (case x of
        ExitSeen now c det err \<Rightarrow> (if fst (wait_session now c det err (lf_inst l)) then [now] else [])
      | _ \<Rightarrow> []) @ granted H (life_step H l x) xs"

fun exit_times :: "life_event list \<Rightarrow> int list" where
  "exit_times [] = []"
| "exit_times (x # xs) = (case x of ExitSeen now c det err \<Rightarrow> [now] | _ \<Rightarrow> []) @ exit_times xs"

definition window :: "int \<Rightarrow> int list \<Rightarrow> int list" where
  "window t ts = filter (\<lambda>x. t - five_minutes < x \<and> x \<le> t) ts"

definition recent :: "int \<Rightarrow> int list \<Rightarrow> int list" where
  "recent t ts = filter (\<lambda>x. t - five_minutes < x) ts"

definition restarts_ok :: "int \<Rightarrow> int list \<Rightarrow> int list \<Rightarrow> bool" where
  "restarts_ok now ts kept \<longleftrightarrow>
     (\<forall>x \<in> set ts. x \<le> now) \<and> recent now ts = recent now kept \<and> (\<forall>t. length (window t ts) \<le> 3)"

lemma length_filter_weaker:
  "(\<And>x. P x \<Longrightarrow> Q x) \<Longrightarrow> length (filter P xs) \<le> length (filter Q xs)"
  by (induction xs) auto

lemma recent_recent: "s \<le> t \<Longrightarrow> recent t (recent s ts) = recent t ts"
  unfolding recent_def filter_filter by (intro filter_cong) auto

lemma recent_mono: "restarts_ok s ts kept \<Longrightarrow> s \<le> t \<Longrightarrow> recent t ts = recent t kept"
  using recent_recent by (metis restarts_ok_def)

lemma restarts_ok_later: "restarts_ok s ts kept \<Longrightarrow> s \<le> t \<Longrightarrow> restarts_ok t ts kept"
  using recent_mono [of s ts kept t] by (force simp: restarts_ok_def)

lemma restarts_ok_step:
  assumes ok: "restarts_ok s ts (in_restarts i)" and "s \<le> now"
  shows "restarts_ok now (ts @ (if fst (allow_auto_restart now i) then [now] else []))
           (in_restarts (snd (allow_auto_restart now i)))"
proof -
  let ?r = "recent now (in_restarts i)"
  have r: "recent now ts = ?r" by (rule recent_mono [OF ok assms(2)])
  have now: "now - five_minutes < now" by (simp add: five_minutes_def)
  have rr: "recent now ?r = ?r" by (rule recent_recent) simp
  show ?thesis
  proof (cases "3 \<le> length ?r")
    case True
    then show ?thesis
      using restarts_ok_later [OF ok assms(2)] r rr
      by (simp add: allow_auto_restart_def Let_def restarts_ok_def recent_def [symmetric])
  next
    case False
    have "length (window t (ts @ [now])) \<le> 3" for t
    proof (cases "now \<le> t")
      case True
      have "length (window t ts) \<le> length (recent now ts)"
        using True by (auto simp: window_def recent_def intro!: length_filter_weaker)
      with r False show ?thesis by (simp add: window_def)
    next
      case False
      then show ?thesis using ok by (simp add: window_def restarts_ok_def)
    qed
    then show ?thesis
      using restarts_ok_later [OF ok assms(2)] r rr False now
      by (simp add: allow_auto_restart_def Let_def restarts_ok_def recent_def [symmetric])
        (simp add: recent_def)
  qed
qed

text \<open>What an operation leaves alone: the plugin link and the restart record.\<close>

definition link_same :: "inst \<Rightarrow> inst \<Rightarrow> bool" where
  "link_same i j \<longleftrightarrow>
     in_generation j = in_generation i \<and> in_session j = in_session i \<and>
     in_connected j = in_connected i \<and> in_restarts j = in_restarts i"

lemma link_same_console:
  "link_same i (add_console now s c i)"
  by (simp add: link_same_def add_console_def publish_console_def Let_def)

interpretation link: op_frame link_same
proof unfold_locales
  show "link_same i (snd (stop_begin now en wr i))" for now en wr i
    by (auto simp: stop_begin_def link_same_def add_console_def publish_console_def Let_def split: option.split)
qed (auto simp: link_same_console link_same_def mark_start_failed_def mark_starting_def kill_begin_def
    add_console_def publish_console_def Let_def deploy_apply_def deploy_applied_def detach_def subscribe_def
    unsubscribe_def heartbeat_def set_pending_restart_def set_files_changed_def set_runtime_mismatch_def
    split: option.split)

lemma link_step: "link.op_event x \<Longrightarrow> link_same (lf_inst l) (lf_inst (life_step H l x))"
  using link.lsame_op_step [of x l H] by (simp add: link.lsame_def)

lemma restarts_step:
  assumes "\<not> (\<exists>now c det err. x = ExitSeen now c det err)"
  shows "in_restarts (lf_inst (life_step H l x)) = in_restarts (lf_inst l)"
proof (cases "link.op_event x")
  case True
  then show ?thesis using link_step [of x l H] by (simp add: link_same_def)
next
  case False
  show ?thesis
    by (cases x) (use False assms in \<open>simp_all add: link.op_event_def life_step_def upd_def stay_def return_op_def unlock_op_def start_bound_def
        recover_bound_def register_plugin_def close_plugin_def Let_def add_console_def reset_console_def
        publish_console_def\<close>)
qed

lemma exit_restarts:
  fixes now i
  defines "a \<equiv> allow_auto_restart now i"
  shows "fst (wait_session now c det err i) = fst a \<and>
           in_restarts (snd (wait_session now c det err i)) = in_restarts (snd a) \<or>
         \<not> fst (wait_session now c det err i) \<and>
           in_restarts (snd (wait_session now c det err i)) = in_restarts i"
  by (auto simp: a_def wait_session_def Let_def split_beta allow_auto_restart_def)

lemma restarts_ok_exit:
  assumes "restarts_ok s ts (in_restarts i)" and "s \<le> now"
  shows "restarts_ok now (ts @ (if fst (wait_session now c det err i) then [now] else []))
           (in_restarts (snd (wait_session now c det err i)))"
  using exit_restarts [of now c det err i] restarts_ok_step [OF assms] restarts_ok_later [OF assms] by auto

lemma restarts_run:
  assumes "restarts_ok s ts (in_restarts (lf_inst l))" and "sorted (s # exit_times xs)"
  shows "length (window t (ts @ granted H l xs)) \<le> 3"
  using assms
proof (induction xs arbitrary: l s ts)
  case Nil
  then show ?case by (simp add: restarts_ok_def)
next
  case (Cons x xs)
  show ?case
  proof (cases "\<exists>now c det err. x = ExitSeen now c det err")
    case True
    then obtain now c det err where x: "x = ExitSeen now c det err" by blast
    have "restarts_ok now (ts @ (if fst (wait_session now c det err (lf_inst l)) then [now] else []))
        (in_restarts (lf_inst (life_step H l x)))"
      using restarts_ok_exit [OF Cons.prems(1), of now c det err] Cons.prems(2)
      by (simp add: x life_step_def upd_def)
    from Cons.IH [OF this] Cons.prems(2) show ?thesis by (simp add: x)
  next
    case False
    then have "in_restarts (lf_inst (life_step H l x)) = in_restarts (lf_inst l)"
      by (intro restarts_step)
    with Cons.IH [of s ts "life_step H l x"] Cons.prems False show ?thesis
      by (cases x) simp_all
  qed
qed

text \<open>
  a crash loop is bounded. However an instance is operated, and however often its process dies
  unexpectedly, at most three automatic restarts are granted in any five minutes, for exits reported
  in the order of the clock.
\<close>

theorem auto_restart_bound:
  assumes "sorted (exit_times xs)"
  shows "length (filter (\<lambda>x. t - 5 * 60 * 1000000000 < x \<and> x \<le> t)
           (granted H (new_life cfg capacity) xs)) \<le> 3"
proof -
  define s where "s = Min (set (0 # exit_times xs))"
  have "restarts_ok s [] (in_restarts (lf_inst (new_life cfg capacity)))"
    by (simp add: restarts_ok_def new_life_def new_instance_def recent_def window_def)
  moreover have "sorted (s # exit_times xs)"
    using assms by (auto simp: s_def intro: Min_le)
  ultimately have "length (window t ([] @ granted H (new_life cfg capacity) xs)) \<le> 3"
    by (rule restarts_run)
  then show ?thesis by (simp add: window_def five_minutes_def)
qed

definition crash :: "int \<Rightarrow> life_event list" where
  "crash now = [StartOp, HookDone now None, SessionBound now sample_binding, ExitSeen now 1 False None]"

lemma auto_restart_bound_witness:
  "granted id (new_life sample_config 10) (concat (map crash [1, 2, 3, 4])) = [1, 2, 3] \<and>
   length (filter (\<lambda>x. (4 :: int) - 5 * 60 * 1000000000 < x \<and> x \<le> 4)
     (granted id (new_life sample_config 10) (concat (map crash [1, 2, 3, 4])))) \<le> 3"
proof
  show "granted id (new_life sample_config 10) (concat (map crash [1, 2, 3, 4])) = [1, 2, 3]"
    by code_simp
  show "length (filter (\<lambda>x. (4 :: int) - 5 * 60 * 1000000000 < x \<and> x \<le> 4)
     (granted id (new_life sample_config 10) (concat (map crash [1, 2, 3, 4])))) \<le> 3"
    by (rule auto_restart_bound) (simp add: crash_def)
qed

section \<open>Plugin connections\<close>

text \<open>The link only moves forward: to a new generation, or from connected to not connected.\<close>

definition link_forward :: "inst \<Rightarrow> inst \<Rightarrow> bool" where
  "link_forward i j \<longleftrightarrow>
     in_generation i < in_generation j \<or>
     (in_generation j = in_generation i \<and> in_session j = in_session i \<and> (in_connected j \<longrightarrow> in_connected i))"

lemma link_same_forward: "link_same i j \<Longrightarrow> link_forward i j"
  by (simp add: link_same_def link_forward_def)

lemma link_forward_step: "link_forward (lf_inst l) (lf_inst (life_step H l x))"
proof (cases "link.op_event x")
  case True
  then show ?thesis using link_step [of x l H] by (simp add: link_same_forward)
next
  case False
  have exit: "link_forward i (snd (wait_session now c det err i))" for now c det err i
    by (cases rule: wait_session_cases [of now c det err i, case_names Stale Exit])
      (simp_all add: link_forward_def)
  show ?thesis
    by (cases x) (use False exit in \<open>simp_all add: link.op_event_def life_step_def upd_def stay_def return_op_def unlock_op_def
        start_bound_def recover_bound_def register_plugin_def close_plugin_def Let_def link_forward_def\<close>)
qed

lemma link_forward_trans: "link_forward i j \<Longrightarrow> link_forward j k \<Longrightarrow> link_forward i k"
  by (auto simp: link_forward_def)

lemma link_forward_run: "link_forward (lf_inst l) (lf_inst (run_steps (life_step H) l xs))"
proof (induction xs arbitrary: l)
  case Nil
  then show ?case by (simp add: link_forward_def)
next
  case (Cons x xs)
  from link_forward_trans [OF link_forward_step Cons.IH] show ?case by simp
qed

lemma stale_forward:
  "link_forward i j \<Longrightarrow> cn_generation c \<le> in_generation i \<Longrightarrow> \<not> connection_live c i \<Longrightarrow> \<not> connection_live c j"
  by (auto simp: link_forward_def connection_live_def)

lemma registered_generation:
  "register_plugin H tr now sid tok p plat caps i = (Inr c, j) \<Longrightarrow>
     cn_generation c = in_generation j \<and> in_generation j = in_generation i + 1 \<and> connection_live c j \<and>
     in_state i = Running \<and> H tok = in_token_hash i \<and> sid = in_session i \<and> tr p (in_pid i)"
  by (auto simp: register_plugin_def Let_def connection_live_def split: if_splits)

text \<open>
  a plugin connection that has been superseded is dead for good. A connection is granted only to
  a process below the running one that presents the token of the current session; from then on it
  speaks for the instance until the process exits, is started again, another plugin registers or the
  connection is closed. Once it has lost that right no later sequence of events brings it back, and
  its heartbeats are refused and change nothing.
\<close>

theorem stale_plugin_refused:
  assumes "register_plugin H in_tree now sid token pid platform caps (lf_inst l) = (Inr c, i)"
    and "m = run_steps (life_step H) (l\<lparr>lf_inst := i\<rparr>) xs" and "\<not> connection_live c (lf_inst m)"
  shows "connection_live c i \<and> H token = in_token_hash (lf_inst l) \<and> in_tree pid (in_pid (lf_inst l)) \<and>
    (let j = lf_inst (run_steps (life_step H) m ys)
     in \<not> connection_live c j \<and> heartbeat t c j = (Err ''UNAUTHENTICATED'', j))"
proof -
  note reg = registered_generation [OF assms(1)]
  have "link_forward i (lf_inst m)"
    using link_forward_run [of "l\<lparr>lf_inst := i\<rparr>" H xs] by (simp add: assms(2))
  then have "cn_generation c \<le> in_generation (lf_inst m)" using reg by (auto simp: link_forward_def)
  from stale_forward [OF link_forward_run this assms(3), of H ys] reg show ?thesis
    by (simp add: Let_def heartbeat_def)
qed

definition sample_connection :: connection where
  "sample_connection = \<lparr>cn_session = ''s1'', cn_generation = 2, cn_platform = ''spigot'', cn_capabilities = []\<rparr>"

lemma stale_plugin_refused_witness:
  "connection_live sample_connection
     (snd (register_plugin id (\<lambda>_ _. True) 5 ''s1'' ''t1'' 9 ''spigot'' [] (lf_inst sample_running))) \<and>
   \<not> connection_live sample_connection (lf_inst (run_steps (life_step id)
     (sample_running\<lparr>lf_inst := snd (register_plugin id (\<lambda>_ _. True) 5 ''s1'' ''t1'' 9 ''spigot'' []
        (lf_inst sample_running))\<rparr>) [ClosePlugin sample_connection, StartOp]))"
proof -
  have reg: "register_plugin id (\<lambda>_ _. True) 5 ''s1'' ''t1'' 9 ''spigot'' [] (lf_inst sample_running) =
      (Inr sample_connection,
       snd (register_plugin id (\<lambda>_ _. True) 5 ''s1'' ''t1'' 9 ''spigot'' [] (lf_inst sample_running)))"
    by code_simp
  have dead: "\<not> connection_live sample_connection (lf_inst (run_steps (life_step id)
      (sample_running\<lparr>lf_inst := snd (register_plugin id (\<lambda>_ _. True) 5 ''s1'' ''t1'' 9 ''spigot'' []
        (lf_inst sample_running))\<rparr>) [ClosePlugin sample_connection]))"
    by code_simp
  show ?thesis
    using stale_plugin_refused [OF reg refl dead, of "[StartOp]"]
    unfolding Let_def run_steps_append [symmetric] by (auto simp only: append.simps)
qed

section \<open>Operations end\<close>

text \<open>How many more times the operation that holds \<open>op\<close> can give up the processor.\<close>

fun op_rank :: "pc \<Rightarrow> nat" where
  "op_rank Idle = 0"
| "op_rank AtSession = 1"
| "op_rank AtHook = 2"
| "op_rank (AtApply _) = 3"
| "op_rank (AtKill _) = 4"
| "op_rank (AtWait _) = 5"

text \<open>The events the operation waits for at its program counter.\<close>

definition awaited :: "pc \<Rightarrow> life_event \<Rightarrow> bool" where
  "awaited p x =
     (case p of
        Idle \<Rightarrow> False
      | AtHook \<Rightarrow> (case x of HookDone _ _ \<Rightarrow> True | _ \<Rightarrow> False)
      | AtSession \<Rightarrow> (case x of SessionBound _ _ \<Rightarrow> True | SessionFailed _ _ \<Rightarrow> True | _ \<Rightarrow> False)
      | AtWait _ \<Rightarrow> (case x of WaitDone \<Rightarrow> True | WaitTimeout _ \<Rightarrow> True | _ \<Rightarrow> False)
      | AtKill _ \<Rightarrow> (case x of WaitDone \<Rightarrow> True | KillTimeout \<Rightarrow> True | _ \<Rightarrow> False)
      | AtApply _ \<Rightarrow> (case x of ApplyDone _ _ _ \<Rightarrow> True | _ \<Rightarrow> False))"

fun progress :: "(string \<Rightarrow> string) \<Rightarrow> life \<Rightarrow> life_event list \<Rightarrow> nat" where
  "progress H l [] = 0"
| "progress H l (x # xs) = (if awaited (lf_pc l) x then 1 else 0) + progress H (life_step H l x) xs"

lemma pc_start: "op_rank (lf_pc (snd (start_locked l))) < 3"
  by (simp add: start_locked_def return_op_def goto_def split: start_check.split)

lemma pc_continue: "op_rank (lf_pc (snd (continue k r l))) \<le> 3"
  using pc_start [of l] by (simp add: continue_def return_op_def goto_def split: after_stop.split)

lemma awaited_step:
  assumes "awaited (lf_pc l) x"
  shows "op_rank (lf_pc (life_step H l x)) < op_rank (lf_pc l)"
proof (cases "lf_pc l")
  case (AtApply b)
  then show ?thesis
    using assms pc_start
    by (cases x) (auto simp: awaited_def life_step_def Let_def return_op_def)
next
  case (AtWait k)
  then show ?thesis
    using assms pc_continue [of k True l]
    by (cases x) (auto simp: awaited_def life_step_def goto_def)
next
  case (AtKill k)
  then show ?thesis
    using assms pc_continue [of k True l]
    by (cases x) (auto simp: awaited_def life_step_def return_op_def)
qed (use assms in \<open>cases x; auto simp: awaited_def life_step_def return_op_def goto_def split: option.split\<close>)+

lemma busy_op_refused:
  assumes "in_op (lf_inst l)"
  shows "with_op body l = (Some (Err ''INSTANCE_BUSY''), l)" "with_lock body l = (Some (Err ''INSTANCE_BUSY''), l)"
  using assms by (simp_all add: with_op_def with_lock_def acquire_def try_lock_def)

lemma other_step:
  assumes "\<not> awaited (lf_pc l) x" and "in_op (lf_inst l)"
  shows "lf_pc (life_step H l x) = lf_pc l"
  using assms
  by (cases x; cases "lf_pc l") (auto simp: awaited_def life_step_def busy_op_refused stay_def upd_def split: prod.split)

text \<open>
  C31: every operation ends. Once an operation holds \<open>op\<close> it gives up the processor at most five
  times: whatever else happens in between (further operations, which are refused, the exit of the
  process, plugin messages, console traffic), once as many of the events it waits for have arrived
  as its rank says, it has returned and released \<open>op\<close>. The rank is at most five, and each of the
  waits ends by a timeout if nothing else, so no operation can hold an instance forever.
\<close>

theorem operations_end:
  assumes "life_inv l" and "op_rank (lf_pc l) \<le> progress H l xs"
  shows "op_rank (lf_pc l) \<le> 5 \<and>
    list_ex (\<lambda>n. let m = run_steps (life_step H) l (take n xs) in lf_pc m = Idle \<and> \<not> in_op (lf_inst m))
      [0 ..< length xs + 1]"
proof
  show "op_rank (lf_pc l) \<le> 5" by (cases "lf_pc l") auto
  have "\<exists>n \<le> length xs. let m = run_steps (life_step H) l (take n xs) in lf_pc m = Idle \<and> \<not> in_op (lf_inst m)"
    using assms
  proof (induction xs arbitrary: l)
    case Nil
    then have "lf_pc l = Idle" by (cases "lf_pc l") auto
    with Nil show ?case by (simp add: life_inv_def)
  next
    case (Cons x xs)
    let ?m = "life_step H l x"
    show ?case
    proof (cases "lf_pc l = Idle")
      case True
      then show ?thesis using Cons.prems by (intro exI [of _ 0]) (simp add: life_inv_def)
    next
      case False
      have "op_rank (lf_pc ?m) \<le> progress H ?m xs"
        using Cons.prems False awaited_step [of l x H] other_step [of l x H]
        by (cases "awaited (lf_pc l) x") (auto simp: life_inv_def)
      with Cons.IH [OF life_inv_step [OF Cons.prems(1)]] obtain n where "n \<le> length xs"
        "let m = run_steps (life_step H) ?m (take n xs) in lf_pc m = Idle \<and> \<not> in_op (lf_inst m)"
        by blast
      then show ?thesis by (intro exI [of _ "Suc n"]) simp
    qed
  qed
  then obtain n where "n \<le> length xs"
    "let m = run_steps (life_step H) l (take n xs) in lf_pc m = Idle \<and> \<not> in_op (lf_inst m)" by blast
  then show "list_ex (\<lambda>n. let m = run_steps (life_step H) l (take n xs) in lf_pc m = Idle \<and> \<not> in_op (lf_inst m))
      [0 ..< length xs + 1]"
    unfolding list_ex_iff by (intro bexI [of _ n]) (simp_all del: upt_Suc)
qed

lemma operations_end_witness:
  "let l = life_step id (new_life sample_config 10) StartOp;
       xs = [StopOp 1 None None, HookDone 2 None, SessionFailed 3 ''no'']
   in op_rank (lf_pc l) = 2 \<and> progress id l xs = 2 \<and>
      list_ex (\<lambda>n. let m = run_steps (life_step id) l (take n xs) in lf_pc m = Idle \<and> \<not> in_op (lf_inst m))
        [0 ..< length xs + 1]"
proof -
  let ?l = "life_step id (new_life sample_config 10) StartOp"
  let ?xs = "[StopOp 1 None None, HookDone 2 None, SessionFailed 3 ''no'']"
  have p: "progress id ?l ?xs = 2" and r: "op_rank (lf_pc ?l) = 2" by code_simp+
  have "life_inv ?l" by (intro life_inv_step life_inv_new) simp
  moreover have "op_rank (lf_pc ?l) \<le> progress id ?l ?xs" by (simp only: p r)
  ultimately show ?thesis
    using operations_end [of ?l id ?xs] p r unfolding Let_def by blast
qed

section \<open>Restart and the exit\<close>

text \<open>
  C35: \<open>Restart\<close> depends on which of two goroutines runs first. \<open>stopLocked\<close> returns as soon as the
  connection reports the end of the process, but the state changes from stopping only when
  \<open>waitSession\<close>, which waits for the same event, gets the mutex. If \<open>waitSession\<close> is first, the
  restart goes on to start the instance. If \<open>Restart\<close> is first, its own start still sees a stopping
  instance: it fails with \<open>INSTANCE_BUSY\<close>, and the instance, which is stopped a moment later, is not
  started again.
\<close>

theorem restart_race:
  assumes "life_inv l" and "lf_pc l = Idle" and "in_state (lf_inst l) = Running"
    and "in_client (lf_inst l) = Some c" and "\<not> lf_closing l" and "\<not> in_deploy_locked (lf_inst l)"
  shows "let stopping = life_step H l (RestartOp t1 None None);
             exit = ExitSeen t2 (ct_id c) False err;
             (r1, good) = life_apply H (life_step H stopping exit) WaitDone;
             (r2, bad) = life_apply H stopping WaitDone;
             after = life_step H bad exit
         in r1 = None \<and> lf_pc good = AtHook \<and>
            r2 = Some (Err ''INSTANCE_BUSY'') \<and>
            lf_pc after = Idle \<and> in_state (lf_inst after) = Stopped \<and> in_client (lf_inst after) = None"
proof -
  have op: "\<not> in_op (lf_inst l)" and ap: "lf_applied l = Inr ()"
    using assms(1,2) by (simp_all add: life_inv_def)
  define i where "i = (lf_inst l)\<lparr>in_op := True, in_state := Stopping, in_expected := True\<rparr>"
  have stopping: "life_step H l (RestartOp t1 None None) = l\<lparr>lf_pc := AtWait ThenStart, lf_inst := i\<rparr>"
    using op assms by (simp add: life_step_def with_op_def acquire_def try_lock_def deployment_lock_error_def
        stop_locked_def stop_begin_def goto_def i_def)
  have i: "in_client i = Some c" "in_expected i" "in_state i = Stopping" by (simp_all add: i_def assms(4))
  have gone: "in_state (snd (wait_session t2 (ct_id c) False err j)) = Stopped \<and>
      in_client (snd (wait_session t2 (ct_id c) False err j)) = None"
    if "in_client j = Some c" "in_expected j" for j
    by (cases rule: wait_session_cases [of t2 "ct_id c" False err j, case_names Stale Exit])
      (use that in simp_all)
  have good: "life_apply H (life_step H (l\<lparr>lf_pc := AtWait ThenStart, lf_inst := i\<rparr>)
        (ExitSeen t2 (ct_id c) False err)) WaitDone =
      (None, l\<lparr>lf_pc := AtHook, lf_inst := snd (wait_session t2 (ct_id c) False err i)\<rparr>)"
    using gone [OF i(1,2)] assms(5)
    by (simp add: life_step_def upd_def continue_def start_locked_def start_check_def goto_def)
  have bad: "life_apply H (l\<lparr>lf_pc := AtWait ThenStart, lf_inst := i\<rparr>) WaitDone =
      (Some (Err ''INSTANCE_BUSY''), l\<lparr>lf_pc := Idle, lf_inst := unlock_op i, lf_applied := Inr ()\<rparr>)"
    using i ap assms(5) by (simp add: continue_def start_locked_def start_check_def return_op_def)
  show ?thesis
    unfolding stopping Let_def good bad
    using gone [of "unlock_op i"] i by (simp add: life_step_def upd_def unlock_op_def)
qed

lemma restart_race_witness:
  "fst (life_apply id (life_step id sample_running (RestartOp 1 None None)) WaitDone) =
     Some (Err ''INSTANCE_BUSY'') \<and>
   in_state (lf_inst (run_steps (life_step id) sample_running
     [RestartOp 1 None None, WaitDone, ExitSeen 2 1 False None])) = Stopped"
proof -
  have "life_inv sample_running"
    by (simp add: sample_running_def life_inv_def inst_ok_def ring_ok_def link_ok_def new_instance_def new_ring_def)
  moreover have "lf_pc sample_running = Idle" "in_state (lf_inst sample_running) = Running"
    "in_client (lf_inst sample_running) = Some (bd_client sample_binding)" "\<not> lf_closing sample_running"
    "\<not> in_deploy_locked (lf_inst sample_running)"
    by (simp_all add: sample_running_def new_instance_def)
  ultimately show ?thesis
    using restart_race [of sample_running "bd_client sample_binding" id 1 2 None]
    by (simp add: Let_def split_beta life_step_def [of _ _ WaitDone] sample_binding_def)
qed

end
