(* ===== verification/Supervisor_Props.thy ===== *)
theory Supervisor_Props
  imports Service_Props Instance_Props
begin

text \<open>
  Operations over several instances: a reservation takes all of its instances or none; and two ways
  in which the locks of the supervisor go wrong.
\<close>

section \<open>Reservations\<close>

definition locked_as :: "bool \<Rightarrow> string list \<Rightarrow> manager \<Rightarrow> manager \<Rightarrow> bool" where
  "locked_as b items m0 m \<longleftrightarrow>
     (\<forall>k. life_of m k = map_option (\<lambda>l. if k \<in> set items then l\<lparr>lf_inst := (lf_inst l)\<lparr>in_op := b\<rparr>\<rparr> else l) (life_of m0 k))"

definition unlocked_in :: "string list \<Rightarrow> manager \<Rightarrow> bool" where
  "unlocked_in items m \<longleftrightarrow> (\<forall>k \<in> set items. \<forall>l. life_of m k = Some l \<longrightarrow> \<not> in_op (lf_inst l))"

lemma set_op_same: "\<not> in_op (lf_inst l) \<Longrightarrow> l\<lparr>lf_inst := (lf_inst l)\<lparr>in_op := False\<rparr>\<rparr> = l"
  using inst_op_undo [of "lf_inst l"] by (cases l) simp

lemma unlock_restores:
  assumes "locked_as True items m0 m" and "unlocked_in items m0" and "distinct items"
  shows "life_of (unlock_operations items m) k = life_of m0 k"
proof -
  have "life_of (unlock_operations items m) k =
      map_option (\<lambda>l. if k \<in> set items then l\<lparr>lf_inst := unlock_op (lf_inst l)\<rparr> else l) (life_of m k)"
    using assms(3) by (simp add: unlock_operations_def aget_fold_upd_inst)
  also have "\<dots> = life_of m0 k"
    using assms(1,2) set_op_same
    by (cases "life_of m0 k") (auto simp: locked_as_def unlocked_in_def unlock_op_def)
  finally show ?thesis .
qed

definition reservable :: "manager \<Rightarrow> string \<Rightarrow> bool" where
  "reservable m k \<longleftrightarrow>
     (\<exists>l. lookup k m = Inr l \<and> \<not> in_op (lf_inst l) \<and> \<not> in_deploy_locked (lf_inst l) \<and> \<not> in_transition (lf_inst l))"

lemma lock_operations_spec:
  assumes "lock_operations ids items m = (r, n)" and "locked_as True items m0 m" and "unlocked_in items m0"
    and "distinct items" and "list_all (reservable m0) items"
  shows "case r of
      Inl e \<Rightarrow> \<forall>k. life_of n k = life_of m0 k
    | Inr out \<Rightarrow> out = items @ ids \<and> distinct out \<and> locked_as True out m0 n \<and> unlocked_in out m0 \<and>
        list_all (reservable m0) out"
  using assms
proof (induction ids items m rule: lock_operations.induct)
  case (1 items m)
  then show ?case by auto
next
  case (2 iid ids items m)
  note restore = unlock_restores [OF 2(3,4,5)]
  show ?case
  proof (cases "lookup iid m")
    case (Inl e)
    then show ?thesis using 2(2) restore by auto
  next
    case (Inr l)
    then have l: "life_of m iid = Some l" "in_managed (lf_inst l)" by (simp_all add: lookup_Inr)
    show ?thesis
    proof (cases "in_op (lf_inst l)")
      case True
      then show ?thesis using 2(2) Inr restore by (auto simp: try_lock_def)
    next
      case False
      let ?i = "(lf_inst l)\<lparr>in_op := True\<rparr>"
      let ?m = "upd_inst iid (\<lambda>_. ?i) m"
      have t: "try_lock (lf_inst l) = (Inr (), ?i)" using False by (simp add: try_lock_def)
      obtain l0 where l0: "life_of m0 iid = Some l0"
        "l = (if iid \<in> set items then l0\<lparr>lf_inst := (lf_inst l0)\<lparr>in_op := True\<rparr>\<rparr> else l0)"
        using l(1) 2(3) by (auto simp: locked_as_def)
      have fresh: "iid \<notin> set items" using l0 False by auto
      then have ll: "l = l0" using l0 by simp
      have la: "locked_as True (items @ [iid]) m0 ?m"
        unfolding locked_as_def
      proof
        fix k
        show "life_of ?m k = map_option (\<lambda>l. if k \<in> set (items @ [iid]) then l\<lparr>lf_inst := (lf_inst l)\<lparr>in_op := True\<rparr>\<rparr> else l)
            (life_of m0 k)"
          using 2(3) l0(1) l(1) ll fresh
          by (cases "k = iid") (auto simp: aget_upd_inst locked_as_def option.map_comp comp_def intro!: map_option_cong)
      qed
      have un: "unlocked_in (items @ [iid]) m0" using 2(4) l0(1) ll False by (auto simp: unlocked_in_def)
      have di: "distinct (items @ [iid])" using 2(5) fresh by simp
      show ?thesis
      proof (cases "in_deploy_locked ?i \<or> in_transition ?i")
        case True
        then show ?thesis
          using 2(2) Inr t unlock_restores [OF la un di] by (auto simp: Let_def)
      next
        case ok: False
        then have "reservable m0 iid"
          using l0(1) ll l(2) False by (auto simp: reservable_def lookup_Inr in_transition_def)
        with 2(6) have "list_all (reservable m0) (items @ [iid])" by simp
        moreover have "lock_operations ids (items @ [iid]) ?m = (r, n)"
          using 2(2) Inr t ok by (simp add: Let_def)
        ultimately show ?thesis
          using 2(1) [OF Inr t [symmetric] refl refl refl ok _ la un di] by (cases r) auto
      qed
    qed
  qed
qed

lemma marked_life:
  assumes out: "locked_as True items m m1" "unlocked_in items m" "distinct items"
  shows "life_of (unlock_operations items
      (fold (\<lambda>k. upd_inst k (\<lambda>i. i\<lparr>in_deploy_locked := True\<rparr>)) items m1)) k =
    map_option (\<lambda>l. if k \<in> set items then l\<lparr>lf_inst := (lf_inst l)\<lparr>in_deploy_locked := True\<rparr>\<rparr> else l) (life_of m k)"
proof (cases "life_of m k")
  case None
  then show ?thesis
    using out by (simp add: unlock_operations_def aget_fold_upd_inst locked_as_def)
next
  case (Some l)
  have "k \<in> set items \<Longrightarrow> \<not> in_op (lf_inst l)" using Some out(2) by (auto simp: unlocked_in_def)
  moreover have "i\<lparr>in_op := False, in_deploy_locked := True\<rparr> = i\<lparr>in_deploy_locked := True\<rparr>" if "\<not> in_op i" for i :: inst
    using that by (cases i) simp
  ultimately show ?thesis
    using Some out(3) out(1) [unfolded locked_as_def, THEN spec, of k]
    by (simp add: unlock_operations_def aget_fold_upd_inst unlock_op_def)
qed

lemma reserved_start_refused:
  assumes "life_of n k = Some l" and "in_managed (lf_inst l)" and "\<not> in_op (lf_inst l)" and "in_deploy_locked (lf_inst l)"
  shows "fst (instance_event H k StartOp n) = Some (Err ''INSTANCE_BUSY'')"
  using assms
  by (simp add: instance_event_def by_name_def lookup_def with_op_def acquire_def try_lock_def
      deployment_lock_error_def)

text \<open>
  a reservation for a deployment takes all of its instances or none. It succeeds exactly on
  instances that are managed, idle, unreserved and in no transition, and then marks each of them and
  nothing else, with every \<open>op\<close> released again; a start of a reserved instance is refused. When it
  fails, every instance is as it was.
\<close>

theorem reserve_all_or_nothing:
  assumes "reserve_deployment ids m = (r, n)"
  shows "case r of
      Inl e \<Rightarrow> \<forall>k. aget (mg_lives n) k = aget (mg_lives m) k
    | Inr items \<Rightarrow> items = sort ids \<and> distinct ids \<and> list_all (reservable m) ids \<and>
        (\<forall>k. aget (mg_lives n) k = map_option (\<lambda>l. if k \<in> set ids
             then l\<lparr>lf_inst := (lf_inst l)\<lparr>in_deploy_locked := True\<rparr>\<rparr> else l) (aget (mg_lives m) k)) \<and>
        list_all (\<lambda>k. fst (instance_event H k StartOp n) = Some (Err ''INSTANCE_BUSY'')) ids"
proof -
  obtain r1 m1 where l: "lock_operations (sort ids) [] m = (r1, m1)" by fastforce
  have "locked_as True [] m m" "unlocked_in [] m"
    by (simp_all add: locked_as_def unlocked_in_def option.map_ident)
  note result = lock_operations_spec [OF l this]
  show ?thesis
  proof (cases r1)
    case (Inl e)
    then show ?thesis using result l assms by (auto simp: reserve_deployment_def)
  next
    case (Inr out)
    then have out: "out = sort ids" "distinct out" "locked_as True out m m1" "unlocked_in out m"
      "list_all (reservable m) out" using result by auto
    have n: "r = Inr out" "n = unlock_operations out
        (fold (\<lambda>k. upd_inst k (\<lambda>i. i\<lparr>in_deploy_locked := True\<rparr>)) out m1)"
      using assms l Inr by (simp_all add: reserve_deployment_def)
    have get: "life_of n k = map_option (\<lambda>l. if k \<in> set ids
        then l\<lparr>lf_inst := (lf_inst l)\<lparr>in_deploy_locked := True\<rparr>\<rparr> else l) (life_of m k)" for k
      using marked_life [OF out(3,4,2), of k] by (simp add: n(2) out(1))
    have "fst (instance_event H k StartOp n) = Some (Err ''INSTANCE_BUSY'')" if k: "k \<in> set ids" for k
    proof -
      have "reservable m k" using out(1,5) k by (simp add: list_all_iff)
      then obtain l0 where "life_of m k = Some l0" "in_managed (lf_inst l0)" "\<not> in_op (lf_inst l0)"
        by (auto simp: reservable_def lookup_Inr)
      then show ?thesis
        using k by (intro reserved_start_refused [of n k "l0\<lparr>lf_inst := (lf_inst l0)\<lparr>in_deploy_locked := True\<rparr>\<rparr>"])
          (simp_all add: get)
    qed
    then show ?thesis
      using n(1) out get by (auto simp: list_all_iff)
  qed
qed

definition reserve_ex :: manager where
  "reserve_ex = \<lparr>mg_port = 8443, mg_buffer = 10, mg_closing = False,
     mg_lives = [(''b'', new_life (sample_config\<lparr>ic_id := ''b''\<rparr>) 10), (''a'', new_life (sample_config\<lparr>ic_id := ''a''\<rparr>) 10)]\<rparr>"

lemma reserve_all_or_nothing_witness:
  "fst (reserve_deployment [''b'', ''a''] reserve_ex) = Inr [''a'', ''b''] \<and>
   list_all (reservable reserve_ex) [''b'', ''a'']"
proof -
  have ok: "fst (reserve_deployment [''b'', ''a''] reserve_ex) = Inr [''a'', ''b'']" by code_simp
  then have "reserve_deployment [''b'', ''a''] reserve_ex = (Inr [''a'', ''b''], snd (reserve_deployment [''b'', ''a''] reserve_ex))"
    by (metis prod.collapse)
  from reserve_all_or_nothing [OF this, of id] ok show ?thesis by simp
qed

section \<open>Two defects of the locking\<close>

text \<open>
  C38: \<open>ApplyServer\<close> forgets a lock. When it meets an instance that is reserved for a deployment it
  returns the error of \<open>deploymentLockError\<close> at once, with the \<open>op\<close> it has just taken (and those taken
  before) still locked: the function that unlocks them is deferred only after the loop. From then on
  every operation on the instance is refused with \<open>INSTANCE_BUSY\<close>, and the reservation itself, whose
  release waits for \<open>op\<close>, is never released.
\<close>

theorem apply_server_leaks_lock:
  assumes valid: "validate_server_locked m (sc_id (normalize_server cfg)) (normalize_server cfg) = Inr ()"
    and l: "aget (mg_lives m) k = Some l" and sid: "ic_server (in_cfg (lf_inst l)) = sc_id (normalize_server cfg)"
    and idle: "lf_pc l = Idle" "\<not> in_op (lf_inst l)" and reserved: "in_deploy_locked (lf_inst l)"
    and only: "list_all (\<lambda>(k', l'). ic_server (in_cfg (lf_inst l')) = sc_id (normalize_server cfg) \<longrightarrow> k' = k) (mg_lives m)"
  shows "\<exists>n. apply_server pw order cfg m = (Err ''INSTANCE_BUSY'', n) \<and>
    (case aget (mg_lives n) k of
       None \<Rightarrow> False
     | Some l' \<Rightarrow> lf_pc l' = Idle \<and> in_op (lf_inst l') \<and> life_step H l' Release = l' \<and>
         list_all (\<lambda>x. life_apply H l' x = (Some (Err ''INSTANCE_BUSY''), l'))
           [StartOp, StopOp now en wr, KillOp, RestartOp now en wr, DeployOp now en wr, Reserve])"
proof -
  define sid' where "sid' = sc_id (normalize_server cfg)"
  let ?l = "l\<lparr>lf_inst := (lf_inst l)\<lparr>in_op := True\<rparr>\<rparr>"
  let ?n = "upd_inst k (\<lambda>_. (lf_inst l)\<lparr>in_op := True\<rparr>) m"
  have lock: "lock_server sid' ids locked m = (Err ''INSTANCE_BUSY'', ?n)" if "k \<in> set ids" for ids locked
    using that
  proof (induction ids)
    case Nil
    then show ?case by simp
  next
    case (Cons i ids)
    show ?case
    proof (cases "i = k")
      case True
      then show ?thesis
        using l sid idle(2) reserved
        by (simp add: sid'_def try_lock_def deployment_lock_error_def Let_def)
    next
      case False
      have "ic_server (life_cfg x) \<noteq> sid'" if "life_of m i = Some x" for x
        using only aget_SomeD [OF that] False by (auto simp: list_all_iff sid'_def)
      then show ?thesis using Cons False by (auto split: option.split)
    qed
  qed
  have "apply_server pw order cfg m = (Err ''INSTANCE_BUSY'', ?n)"
    using valid lock [OF in_visit [OF l]] by (simp add: apply_server_def Let_def sid'_def)
  moreover have "life_of ?n k = Some ?l" using l by (simp add: aget_upd_inst)
  ultimately show ?thesis
    using idle(1)
    by (intro exI [of _ ?n]) (simp add: life_step_def stay_def busy_op_refused reserve_def)
qed

definition leak_ex :: manager where
  "leak_ex = snd (reserve_deployment [''proxy''] (sv_manager start_ex))"

lemma apply_server_leaks_lock_witness:
  "\<exists>n. apply_server (\<lambda>_. None) [] proxy_ex leak_ex = (Err ''INSTANCE_BUSY'', n) \<and>
     map_option (\<lambda>l. in_op (lf_inst l)) (aget (mg_lives n) ''proxy'') = Some True"
proof -
  have "validate_server_locked leak_ex (sc_id (normalize_server proxy_ex)) (normalize_server proxy_ex) = Inr ()"
    and l: "aget (mg_lives leak_ex) ''proxy'' = Some (the (aget (mg_lives leak_ex) ''proxy''))"
    and "ic_server (in_cfg (lf_inst (the (aget (mg_lives leak_ex) ''proxy'')))) = sc_id (normalize_server proxy_ex)"
    and "lf_pc (the (aget (mg_lives leak_ex) ''proxy'')) = Idle"
    and "\<not> in_op (lf_inst (the (aget (mg_lives leak_ex) ''proxy'')))"
    and "in_deploy_locked (lf_inst (the (aget (mg_lives leak_ex) ''proxy'')))"
    and "list_all (\<lambda>(k', l'). ic_server (in_cfg (lf_inst l')) = sc_id (normalize_server proxy_ex) \<longrightarrow> k' = ''proxy'')
      (mg_lives leak_ex)"
    by code_simp+
  from apply_server_leaks_lock [OF this, of "\<lambda>_. None" "[]" id 0 None None] show ?thesis
    by (auto split: option.splits)
qed

text \<open>
  C39: \<open>RemoveServer\<close> can lose a process. It does not take \<open>op\<close> and looks only at the state, which is
  still stopped while a start is in its hook. An instance removed at that moment is gone from the
  supervisor, but its start goes on: the process is started and runs with nobody to stop it.
\<close>

theorem remove_during_start:
  assumes l: "aget (mg_lives m) k = Some l" and wf: "distinct (map fst (mg_lives m))"
    and hook: "lf_pc l = AtHook" and state: "in_state (lf_inst l) = Stopped"
    and quiet: "list_all (\<lambda>(k', l'). ic_server (in_cfg (lf_inst l')) = ic_server (in_cfg (lf_inst l)) \<longrightarrow>
        in_state (lf_inst l') = Stopped \<and> \<not> in_deploy_locked (lf_inst l')) (mg_lives m)"
  shows "let (r, n) = remove_server (ic_server (in_cfg (lf_inst l))) m;
             l' = run_steps (life_step H) l [HookDone t None, SessionBound t b]
         in r = Inr () \<and> lookup k n = Err ''INSTANCE_NOT_FOUND'' \<and>
            in_state (lf_inst l') = Running \<and> in_client (lf_inst l') = Some (bd_client b)"
proof -
  let ?sid = "ic_server (life_cfg l)"
  have "\<not> list_ex (\<lambda>(iid, l'). ic_server (life_cfg l') = ?sid \<and>
      (in_state (lf_inst l') \<noteq> Stopped \<or> in_deploy_locked (lf_inst l'))) (mg_lives m)"
    using quiet by (auto simp: list_ex_iff list_all_iff)
  then have rm: "remove_server ?sid m =
      (Inr (), m\<lparr>mg_lives := filter (\<lambda>(iid, l'). ic_server (life_cfg l') \<noteq> ?sid) (mg_lives m)\<rparr>)"
    by (simp add: remove_server_def)
  have "lookup k (m\<lparr>mg_lives := filter (\<lambda>(iid, l'). ic_server (life_cfg l') \<noteq> ?sid) (mg_lives m)\<rparr>) =
      Err ''INSTANCE_NOT_FOUND''"
    using l wf by (simp add: lookup_def aget_filter awf_def)
  moreover have "in_client (start_bound H t b i) = Some (bd_client b)" for i
    by (simp add: start_bound_def Let_def)
  ultimately show ?thesis
    by (simp add: rm Let_def life_step_def hook goto_def return_op_def unlock_op_def state_or_quiet)
qed

definition race_ex :: manager where
  "race_ex = snd (instance_event id ''proxy'' StartOp (sv_manager start_ex))"

lemma remove_during_start_witness:
  "fst (remove_server ''proxy'' race_ex) = Inr () \<and>
   lookup ''proxy'' (snd (remove_server ''proxy'' race_ex)) = Err ''INSTANCE_NOT_FOUND''"
proof -
  let ?l = "the (aget (mg_lives race_ex) ''proxy'')"
  have l: "aget (mg_lives race_ex) ''proxy'' = Some ?l" and "distinct (map fst (mg_lives race_ex))"
    and "lf_pc ?l = AtHook" and "in_state (lf_inst ?l) = Stopped"
    and "list_all (\<lambda>(k', l'). ic_server (in_cfg (lf_inst l')) = ic_server (in_cfg (lf_inst ?l)) \<longrightarrow>
        in_state (lf_inst l') = Stopped \<and> \<not> in_deploy_locked (lf_inst l')) (mg_lives race_ex)"
    and sid: "ic_server (in_cfg (lf_inst ?l)) = ''proxy''"
    by code_simp+
  from remove_during_start [OF this(1-5), of id 1 sample_binding] show ?thesis
    unfolding sid by (simp add: Let_def split_beta)
qed

end
