(* ===== verification/ServerProperties.thy ===== *)
theory ServerProperties
  imports ServerModel
begin

text \<open>
  The port line of \<open>server.properties\<close> (\<open>daemon/internal/supervisor/properties.go\<close>): writing the port
  into the text of the file, and reading it back. The file's text is \<open>None\<close> if there is no file;
  the checks of the workspace and the atomic write are not part of it.
\<close>

definition cr :: char where "cr = CHR 0x0D"

definition lf :: char where "lf = CHR 0x0A"

text \<open>\<open>strings.ReplaceAll(s, "\r\n", "\n")\<close>\<close>

fun drop_cr :: "string \<Rightarrow> string" where
  "drop_cr (c # d # s) = (if c = cr \<and> d = lf then lf # drop_cr s else c # drop_cr (d # s))"
| "drop_cr s = s"

definition port_key :: string where
  "port_key = ''server-port=''"

definition is_port_line :: "string \<Rightarrow> bool" where
  "is_port_line l = has_prefix (trim_space l) port_key"

definition file_lines :: "string \<Rightarrow> string list" where
  "file_lines s = split_on lf (drop_cr s)"

definition port_line :: "int \<Rightarrow> string" where
  "port_line port = port_key @ itoa port"

definition set_port_lines :: "int \<Rightarrow> string list \<Rightarrow> string list" where
  "set_port_lines port ls =
     (let ls1 = map (\<lambda>l. if is_port_line l then port_line port else l) ls
      in if list_ex is_port_line ls then ls1
         else (if ls1 \<noteq> [] \<and> last ls1 = [] then butlast ls1 else ls1) @ [port_line port, []])"

definition write_server_port :: "int \<Rightarrow> string option \<Rightarrow> string" where
  "write_server_port port file =
     (let contents = (case file of None \<Rightarrow> [] | Some c \<Rightarrow> c);
          newline = (if contains_str contents [cr, lf] then [cr, lf] else [lf])
      in join_with newline (set_port_lines port (file_lines contents)))"

definition read_server_port :: "string option \<Rightarrow> int option" where
  "read_server_port file =
     (case file of
        None \<Rightarrow> None
      | Some contents \<Rightarrow>
          (case find is_port_line (file_lines contents) of
             None \<Rightarrow> None
           | Some l \<Rightarrow> atoi (trim_space (trim_prefix (trim_space l) port_key))))"

section \<open>Lines\<close>

lemma itoa_trim:
  assumes "0 \<le> p"
  shows "trim_space (itoa p) = itoa p" "trim_space (port_line p) = port_line p"
proof -
  have all: "list_all is_digit (digits p)" by (rule digits_digits [OF assms])
  have it: "itoa p = digits p" using assms by (simp add: itoa_def)
  obtain c u where cu: "digits p = c # u" by (cases "digits p") auto
  obtain v d where vd: "digits p = v @ [d]" by (cases "digits p" rule: rev_cases) auto
  have c: "plain_byte c" using all cu by (simp add: digit_plain)
  have d: "plain_byte d" using all vd by (simp add: digit_plain)
  show "trim_space (itoa p) = itoa p"
    unfolding it by (rule trim_space_plain [OF c d cu vd])
  have "plain_byte (CHR ''s'')" by (simp add: plain_byte_def ascii_space_def byte_def)
  then show "trim_space (port_line p) = port_line p"
    by (rule trim_space_plain [OF _ d]) (simp_all add: port_line_def port_key_def it vd)
qed

lemma port_line_is: "0 \<le> p \<Longrightarrow> is_port_line (port_line p)"
  by (simp add: is_port_line_def itoa_trim(2) has_prefix_def) (simp add: port_line_def)

lemma drop_cr_id: "lf \<notin> set s \<Longrightarrow> drop_cr s = s"
  by (induction s rule: drop_cr.induct) auto

lemma drop_cr_append_crlf: "lf \<notin> set l \<Longrightarrow> drop_cr (l @ cr # lf # s) = l @ lf # drop_cr s"
proof (induction l rule: drop_cr.induct)
  case (1 c d l)
  then show ?case by auto
next
  case "2_1"
  then show ?case by simp
next
  case "2_2"
  then show ?case by (simp add: cr_def lf_def)
qed

lemma drop_cr_append_lf: "lf \<notin> set l \<Longrightarrow> \<not> suffix [cr] l \<Longrightarrow> drop_cr (l @ lf # s) = l @ lf # drop_cr s"
proof (induction l rule: drop_cr.induct)
  case (1 c d l)
  then show ?case by (auto simp: suffix_Cons)
next
  case "2_1"
  then show ?case by (cases s) (auto simp: cr_def lf_def)
next
  case "2_2"
  then show ?case by (cases s) (auto simp: cr_def lf_def)
qed

lemma drop_cr_join:
  assumes "\<forall>l \<in> set ls. lf \<notin> set l"
  shows "drop_cr (join_with [cr, lf] ls) = join_with [lf] ls"
    and "\<forall>l \<in> set (butlast ls). \<not> suffix [cr] l \<Longrightarrow> drop_cr (join_with [lf] ls) = join_with [lf] ls"
  using assms
  by (induction "[lf]" ls rule: join_with.induct)
    (auto simp: drop_cr_id drop_cr_append_crlf drop_cr_append_lf)

text \<open>Without CRLF in a text no line but the last ends in a CR.\<close>

lemma no_crlf_drop: "\<not> contains_str s [cr, lf] \<Longrightarrow> drop_cr s = s"
proof (induction s rule: drop_cr.induct)
  case (1 c d s)
  then show ?case by (auto simp: contains_str_def sublist_Cons_right)
qed auto

lemma no_crlf_lines:
  assumes "\<not> contains_str s [cr, lf]" and "l \<in> set (butlast (split_on lf s))"
  shows "\<not> suffix [cr] l"
  using assms
proof (induction s arbitrary: l)
  case Nil
  then show ?case by simp
next
  case (Cons c s)
  have tl: "\<not> contains_str s [cr, lf]" using Cons.prems(1) by (simp add: contains_str_def sublist_Cons_right)
  show ?case
  proof (cases "c = lf")
    case True
    then show ?thesis using Cons tl by auto
  next
    case False
    obtain p ps where sp: "split_on lf s = p # ps" by (cases "split_on lf s") auto
    show ?thesis
    proof (cases "ps \<noteq> [] \<and> l = c # p")
      case True
      show ?thesis
      proof (cases "p = []")
        case True
        then have "s \<noteq> [] \<and> hd s = lf" using sp \<open>ps \<noteq> [] \<and> l = c # p\<close>
          by (cases s) (auto split: if_splits list.splits)
        then have "c \<noteq> cr" using Cons.prems(1) by (cases s) (auto simp: contains_str_def)
        then show ?thesis using True \<open>ps \<noteq> [] \<and> l = c # p\<close> by (auto simp: suffix_def)
      next
        case False
        then have "\<not> suffix [cr] p" using Cons.IH [OF tl, of p] sp \<open>ps \<noteq> [] \<and> l = c # p\<close> by simp
        then show ?thesis using False \<open>ps \<noteq> [] \<and> l = c # p\<close> by (cases p) (auto simp: suffix_Cons)
      qed
    next
      case other: False
      then have "l \<in> set (butlast (split_on lf s))"
        using Cons.prems(2) sp False by (cases ps) auto
      then show ?thesis by (rule Cons.IH [OF tl])
    qed
  qed
qed

lemma crlf_drop:
  "length (drop_cr s) \<le> length s" "contains_str s [cr, lf] \<Longrightarrow> length (drop_cr s) < length s \<and> lf \<in> set (drop_cr s)"
proof -
  have "length (drop_cr s) \<le> length s \<and>
      (contains_str s [cr, lf] \<longrightarrow> length (drop_cr s) < length s \<and> lf \<in> set (drop_cr s))"
  proof (induction s rule: drop_cr.induct)
    case (1 c d s)
    then show ?case by (auto simp: contains_str_def sublist_Cons_right)
  qed (auto simp: contains_str_def sublist_Cons_right)
  then show "length (drop_cr s) \<le> length s" "contains_str s [cr, lf] \<Longrightarrow> length (drop_cr s) < length s \<and> lf \<in> set (drop_cr s)"
    by blast+
qed

lemma split_two: "d \<in> set s \<Longrightarrow> 2 \<le> length (split_on d s)"
proof (induction s)
  case Nil
  then show ?case by simp
next
  case (Cons c s)
  show ?case
  proof (cases "c = d")
    case True
    then show ?thesis by (cases "split_on d s") auto
  next
    case False
    then show ?thesis using Cons by (cases "split_on d s") auto
  qed
qed

lemma split_last_suffix: "suffix (last (split_on d s)) s"
proof (induction s)
  case Nil
  then show ?case by simp
next
  case (Cons c s)
  obtain q qs where sp: "split_on d s = q # qs" by (cases "split_on d s") auto
  have "q = s" if "qs = []"
    using join_split [of d s] that by (simp add: sp)
  then show ?case using Cons sp by (auto simp: suffix_Cons)
qed

lemma set_port_lines_props:
  assumes p: "0 \<le> p" and ls: "ls \<noteq> []" "\<forall>l \<in> set ls. lf \<notin> set l"
  shows "set_port_lines p ls \<noteq> []" "\<forall>l \<in> set (set_port_lines p ls). lf \<notin> set l"
    "find is_port_line (set_port_lines p ls) = Some (port_line p)"
    "set_port_lines p (set_port_lines p ls) = set_port_lines p ls"
    "filter (\<lambda>l. l \<noteq> [] \<and> \<not> is_port_line l) (set_port_lines p ls) = filter (\<lambda>l. l \<noteq> [] \<and> \<not> is_port_line l) ls"
    "\<forall>l \<in> set (butlast ls). \<not> suffix [cr] l \<Longrightarrow> \<not> suffix [cr] (last ls) \<Longrightarrow>
       \<forall>l \<in> set (butlast (set_port_lines p ls)). \<not> suffix [cr] l"
proof -
  have isp: "is_port_line (port_line p)" by (rule port_line_is [OF p])
  have digits: "list_all is_digit (itoa p)" using p digits_digits by (simp add: itoa_def)
  have "c \<noteq> lf \<and> c \<noteq> cr" if "c \<in> set (port_line p)" for c
    using that digits
    by (auto simp: port_line_def port_key_def lf_def cr_def list_all_iff is_digit_def byte_def)
  then have nolf: "lf \<notin> set (port_line p)" and nocr: "\<not> suffix [cr] (port_line p)"
    using set_mono_suffix [of "[cr]" "port_line p"] by auto
  define f where "f = (\<lambda>l. if is_port_line l then port_line p else l)"
  define ls1 where "ls1 = map f ls"
  define ls2 where "ls2 = (if last ls1 = [] then butlast ls1 else ls1)"
  have ne: "ls1 \<noteq> []" using ls(1) by (simp add: ls1_def)
  have empty: "\<not> is_port_line []" by (simp add: is_port_line_def has_prefix_def port_key_def)
  have eq: "set_port_lines p ls = (if list_ex is_port_line ls then ls1 else ls2 @ [port_line p, []])"
    using ne by (simp add: set_port_lines_def Let_def ls1_def ls2_def f_def)
  have ff: "f (f l) = f l" for l by (simp add: f_def isp)
  have none: "ls1 = ls" if "\<not> list_ex is_port_line ls"
    using that by (auto simp: ls1_def f_def list_ex_iff intro!: map_idI)
  have sub: "set ls2 \<subseteq> set ls1" by (auto simp: ls2_def dest: in_set_butlastD)
  have find_ex: "find is_port_line (map f xs) = Some (port_line p)" if "list_ex is_port_line xs" for xs
    using that by (induction xs) (auto simp: f_def isp)
  have find_none: "find is_port_line (xs @ ys) = find is_port_line ys" if "\<not> list_ex is_port_line xs" for xs ys
    using that by (induction xs) auto
  have ls2_none: "\<not> list_ex is_port_line ls2" if "\<not> list_ex is_port_line ls"
    using that sub none [OF that] by (auto simp: list_ex_iff)
  show "set_port_lines p ls \<noteq> []" using ne by (simp add: eq)
  show "\<forall>l \<in> set (set_port_lines p ls). lf \<notin> set l"
    using ls(2) nolf sub by (auto simp: eq ls1_def f_def split: if_splits)
  show "find is_port_line (set_port_lines p ls) = Some (port_line p)"
    using find_ex [of ls] find_none [OF ls2_none] isp by (auto simp: eq ls1_def)
  show "set_port_lines p (set_port_lines p ls) = set_port_lines p ls"
  proof (cases "list_ex is_port_line ls")
    case True
    then obtain x where "x \<in> set ls" "is_port_line x" by (auto simp: list_ex_iff)
    then have "f x \<in> set ls1" "is_port_line (f x)" by (simp_all add: ls1_def f_def isp)
    then have "list_ex is_port_line ls1" by (auto simp: list_ex_iff)
    then show ?thesis
      using True ff by (simp add: eq) (simp add: set_port_lines_def Let_def f_def [symmetric] ls1_def)
  next
    case False
    have "map f (ls2 @ [port_line p, []]) = ls2 @ [port_line p, []]"
      using ls2_none [OF False] empty by (auto simp: f_def list_ex_iff intro!: map_idI)
    then show ?thesis
      using False isp by (simp add: eq) (simp add: set_port_lines_def Let_def f_def [symmetric])
  qed
  have flt: "filter (\<lambda>l. l \<noteq> [] \<and> \<not> is_port_line l) (map f xs) = filter (\<lambda>l. l \<noteq> [] \<and> \<not> is_port_line l) xs" for xs
    by (induction xs) (auto simp: f_def isp)
  have "filter (\<lambda>l. l \<noteq> [] \<and> \<not> is_port_line l) ls2 = filter (\<lambda>l. l \<noteq> [] \<and> \<not> is_port_line l) ls1"
    using ne by (cases ls1 rule: rev_cases) (auto simp: ls2_def)
  then show "filter (\<lambda>l. l \<noteq> [] \<and> \<not> is_port_line l) (set_port_lines p ls) = filter (\<lambda>l. l \<noteq> [] \<and> \<not> is_port_line l) ls"
    using isp empty flt [of ls] by (simp add: eq ls1_def)
  show "\<forall>l \<in> set (butlast (set_port_lines p ls)). \<not> suffix [cr] l"
    if "\<forall>l \<in> set (butlast ls). \<not> suffix [cr] l" "\<not> suffix [cr] (last ls)"
  proof -
    have all: "\<not> suffix [cr] l" if l: "l \<in> set ls" for l
      using that \<open>\<forall>l \<in> set (butlast ls). _ l\<close> \<open>\<not> suffix [cr] (last ls)\<close> ls(1)
      by (cases ls rule: rev_cases) auto
    then have "\<not> suffix [cr] l" if "l \<in> set ls1" for l using that nocr by (auto simp: ls1_def f_def)
    then show ?thesis using sub nocr by (auto simp: eq butlast_append dest!: in_set_butlastD)
  qed
qed

text \<open>The lines of the file that is written.\<close>

lemma write_server_port_lines:
  assumes c_def: "c = (case file of None \<Rightarrow> [] | Some c \<Rightarrow> c)" and p: "0 \<le> p" and cr: "\<not> suffix [cr] c"
  shows "file_lines (write_server_port p file) = set_port_lines p (file_lines c) \<and>
    write_server_port p (Some (write_server_port p file)) = write_server_port p file"
proof -
  define ls where "ls = file_lines c"
  define out where "out = write_server_port p file"
  have nolf: "\<forall>l \<in> set ls. lf \<notin> set l" and ne: "ls \<noteq> []"
    by (auto simp: ls_def file_lines_def dest: split_on_no_sep)
  note props = set_port_lines_props [OF p ne nolf]
  have split: "split_on lf (join_with [lf] (set_port_lines p ls)) = set_port_lines p ls"
    by (rule split_join [OF props(1,2)])
  have both: "file_lines out = set_port_lines p ls \<and> write_server_port p (Some out) = out"
  proof (cases "contains_str c [cr, lf]")
    case True
    then have o: "out = join_with [cr, lf] (set_port_lines p ls)"
      by (simp add: out_def write_server_port_def c_def [symmetric] ls_def)
    have l: "file_lines out = set_port_lines p ls"
      using drop_cr_join(1) [OF props(2)] split by (simp add: file_lines_def o)
    have "2 \<le> length ls" using crlf_drop(2) [OF True] split_two by (simp add: ls_def file_lines_def)
    then have "2 \<le> length (set_port_lines p ls)" by (simp add: set_port_lines_def Let_def)
    then obtain a b xs where "set_port_lines p ls = a # b # xs"
      by (cases "set_port_lines p ls" rule: remdups_adj.cases) auto
    then have "contains_str out [cr, lf]"
      unfolding contains_str_def o sublist_def
      by (intro exI [of _ a] exI [of _ "join_with [cr, lf] (b # xs)"]) simp
    then show ?thesis using l props(4) o by (simp add: write_server_port_def)
  next
    case False
    then have o: "out = join_with [lf] (set_port_lines p ls)"
      by (simp add: out_def write_server_port_def c_def [symmetric] ls_def)
    have ls': "ls = split_on lf c" using no_crlf_drop [OF False] by (simp add: ls_def file_lines_def)
    have "\<forall>l \<in> set (butlast ls). \<not> suffix [cr] l" using no_crlf_lines [OF False] ls' by simp
    moreover have "\<not> suffix [cr] (last ls)"
      using split_last_suffix [of lf c] cr suffix_order.trans unfolding ls' by blast
    ultimately have d: "drop_cr out = out"
      using drop_cr_join(2) [OF props(2)] props(6) by (simp add: o)
    then have "\<not> contains_str out [cr, lf]" using crlf_drop(2) [of out] by auto
    then show ?thesis using d split props(4) by (simp add: file_lines_def o write_server_port_def)
  qed
  then show ?thesis by (simp add: out_def ls_def)
qed

text \<open>
  C32: the port written into a properties file is the port read from it, whatever the file held (no
  file at all included): every old port line is replaced, one is added at the end if there was none,
  writing again changes nothing, and every other line that is not empty is kept, in its order and
  with the line ends of the file. (A file that ends in a bare carriage return loses that byte.)
\<close>

theorem port_roundtrip:
  assumes p: "0 \<le> p" "p \<le> 65535" and cr: "\<not> suffix [cr] (case file of None \<Rightarrow> [] | Some c \<Rightarrow> c)"
  shows "read_server_port (Some (write_server_port p file)) = Some p \<and>
    write_server_port p (Some (write_server_port p file)) = write_server_port p file \<and>
    filter (\<lambda>l. l \<noteq> [] \<and> \<not> is_port_line l) (file_lines (write_server_port p file)) =
      filter (\<lambda>l. l \<noteq> [] \<and> \<not> is_port_line l) (file_lines (case file of None \<Rightarrow> [] | Some c \<Rightarrow> c))"
proof -
  define c where "c = (case file of None \<Rightarrow> [] | Some c \<Rightarrow> c)"
  define ls where "ls = file_lines c"
  define out where "out = write_server_port p file"
  have nolf: "\<forall>l \<in> set ls. lf \<notin> set l" and ne: "ls \<noteq> []"
    by (auto simp: ls_def file_lines_def dest: split_on_no_sep)
  note props = set_port_lines_props [OF p(1) ne nolf]
  have lines: "file_lines out = set_port_lines p ls" and again: "write_server_port p (Some out) = out"
    using write_server_port_lines [OF c_def p(1)] cr by (simp_all add: out_def ls_def c_def)
  have "trim_space (trim_prefix (trim_space (port_line p)) port_key) = itoa p"
    using itoa_trim [OF p(1)] by (simp add: trim_prefix_def has_prefix_def) (simp add: port_line_def)
  then have "read_server_port (Some out) = Some p"
    using props(3) p atoi_itoa [of p] by (simp add: read_server_port_def lines)
  with again lines props(5) show ?thesis by (simp add: out_def c_def [symmetric] ls_def)
qed

lemma port_roundtrip_witness:
  "write_server_port 25566 (Some (''motd=a'' @ [cr, lf] @ ''server-port=1'' @ [cr, lf])) =
     ''motd=a'' @ [cr, lf] @ ''server-port=25566'' @ [cr, lf] \<and>
   read_server_port (Some (write_server_port 25566 (Some (''motd=a'' @ [cr, lf] @ ''server-port=1'' @ [cr, lf])))) = Some 25566"
proof -
  have "write_server_port 25566 (Some (''motd=a'' @ [cr, lf] @ ''server-port=1'' @ [cr, lf])) =
     ''motd=a'' @ [cr, lf] @ ''server-port=25566'' @ [cr, lf]" by code_simp
  moreover have "\<not> suffix [cr] (''motd=a'' @ [cr, lf] @ ''server-port=1'' @ [cr, lf])" by code_simp
  ultimately show ?thesis
    using port_roundtrip [of 25566 "Some (''motd=a'' @ [cr, lf] @ ''server-port=1'' @ [cr, lf])"] by simp
qed

end
