(* ===== verification/PanelAction.thy ===== *)
theory PanelAction
  imports Prelude
begin

text \<open>
  How the panel's store (panel/internal/store) runs statements against its database, for tables of
  any type \<open>'d\<close>.

  A statement of the code is an action (\<open>dact\<close>): it takes the tables and the outcomes of the
  statements to come. An outcome is \<open>Done\<close>, \<open>Failed\<close> (an error, nothing happened) or \<open>Lost\<close>
  (the server executed the statement and the answer was lost, so the code sees an error). A
  transaction restores the tables on every error before its commit, and its commit can be lost as
  well. An exhausted list of outcomes means that all further statements succeed.

  Comparison of character columns is the server's: \<open>k_ascii\<close> and \<open>k_text\<close> are the sort keys of the
  two collations of the schema (the default one of \<open>CHARACTER SET ascii\<close>, and
  \<open>utf8mb4_unicode_ci\<close>) and \<open>k_like\<close> is \<open>column LIKE '%text%'\<close>; they are parameters of the model.
  Binary columns compare byte by byte.
\<close>

record collation =
  k_ascii :: "string \<Rightarrow> string"
  k_text :: "string \<Rightarrow> string"
  k_like :: "string \<Rightarrow> string \<Rightarrow> bool"

text \<open>\<open>column = ?\<close> on an ASCII column.\<close>

definition aeq :: "collation \<Rightarrow> string \<Rightarrow> string \<Rightarrow> bool" where
  "aeq k a b \<longleftrightarrow> k_ascii k a = k_ascii k b"

lemma aeq_refl [simp]: "aeq k a a"
  by (simp add: aeq_def)

lemma aeq_sym: "aeq k a b \<longleftrightarrow> aeq k b a"
  by (auto simp: aeq_def)

lemma aeq_trans: "aeq k a b \<Longrightarrow> aeq k b c \<Longrightarrow> aeq k a c"
  by (simp add: aeq_def)

text \<open>\<open>RowsAffected\<close>: the matched rows the statement changed.\<close>

definition affected :: "('r \<Rightarrow> bool) \<Rightarrow> ('r \<Rightarrow> 'r) \<Rightarrow> 'r list \<Rightarrow> nat" where
  "affected P f rs = length (filter (\<lambda>r. P r \<and> f r \<noteq> r) rs)"

definition update_rows :: "('r \<Rightarrow> bool) \<Rightarrow> ('r \<Rightarrow> 'r) \<Rightarrow> 'r list \<Rightarrow> 'r list" where
  "update_rows P f rs = map (\<lambda>r. if P r then f r else r) rs"

section \<open>Statements and transactions\<close>

datatype outcome = Done | Failed | Lost

type_synonym ('d, 'a) dact = "'d \<Rightarrow> outcome list \<Rightarrow> 'a result \<times> 'd \<times> outcome list"

abbreviation sql_error :: "'a result" where
  "sql_error \<equiv> Err ''ErrSQL''"

definition ret :: "'a \<Rightarrow> ('d, 'a) dact" where
  "ret x = (\<lambda>d w. (Inr x, d, w))"

definition raise :: "string \<Rightarrow> ('d, 'a) dact" where
  "raise c = (\<lambda>d w. (Err c, d, w))"

definition andthen :: "('d, 'a) dact \<Rightarrow> ('a \<Rightarrow> ('d, 'b) dact) \<Rightarrow> ('d, 'b) dact" where
  "andthen m f = (\<lambda>d w. case m d w of
     (Inl e, d', w') \<Rightarrow> (Inl e, d', w')
   | (Inr x, d', w') \<Rightarrow> f x d' w')"

text \<open>One statement; \<open>q\<close> is what the server computes: an answer and the new tables.\<close>

definition stmt :: "('d \<Rightarrow> 'a result \<times> 'd) \<Rightarrow> ('d, 'a) dact" where
  "stmt q = (\<lambda>d w. case w of
     Failed # w' \<Rightarrow> (sql_error, d, w')
   | Lost # w' \<Rightarrow> (sql_error, snd (q d), w')
   | _ \<Rightarrow> (fst (q d), snd (q d), tl w))"

definition query :: "('d \<Rightarrow> 'a) \<Rightarrow> ('d, 'a) dact" where
  "query q = stmt (\<lambda>d. (Inr (q d), d))"

definition exec :: "('d \<Rightarrow> 'd) \<Rightarrow> ('d, unit) dact" where
  "exec u = stmt (\<lambda>d. (Inr (), u d))"

text \<open>A statement the server refuses (a violated constraint) leaves the tables as they are.\<close>

definition exec_if :: "('d \<Rightarrow> string option) \<Rightarrow> ('d \<Rightarrow> 'd) \<Rightarrow> ('d, unit) dact" where
  "exec_if bad u = stmt (\<lambda>d. case bad d of Some c \<Rightarrow> (Err c, d) | None \<Rightarrow> (Inr (), u d))"

text \<open>\<open>BeginTx\<close>, the body, \<open>Commit\<close>, with \<open>defer tx.Rollback()\<close>.\<close>

definition tx :: "('d, 'a) dact \<Rightarrow> ('d, 'a) dact" where
  "tx body = (\<lambda>d w. case stmt (\<lambda>d. (Inr (), d)) d w of
     (Inl e, _, w1) \<Rightarrow> (Inl e, d, w1)
   | (Inr _, _, w1) \<Rightarrow>
      (case body d w1 of
         (Inl e, _, w2) \<Rightarrow> (Inl e, d, w2)
       | (Inr x, d', w2) \<Rightarrow>
          (case w2 of
             Failed # w3 \<Rightarrow> (sql_error, d, w3)
           | Lost # w3 \<Rightarrow> (sql_error, d', w3)
           | _ \<Rightarrow> (Inr x, d', tl w2))))"

text \<open>\<open>errors.Is(err, c)\<close> replaced by another error, and an error handled by other code.\<close>

definition on_error :: "(string \<Rightarrow> ('d, 'a) dact) \<Rightarrow> ('d, 'a) dact \<Rightarrow> ('d, 'a) dact" where
  "on_error h m = (\<lambda>d w. case m d w of
     (Inl e, d', w') \<Rightarrow> h (err_code e) d' w'
   | r \<Rightarrow> r)"

definition need :: "string \<Rightarrow> 'a option \<Rightarrow> ('d, 'a) dact" where
  "need c r = (case r of None \<Rightarrow> raise c | Some x \<Rightarrow> ret x)"

definition guard :: "bool \<Rightarrow> string \<Rightarrow> ('d, unit) dact" where
  "guard ok c = (if ok then ret () else raise c)"

definition when_do :: "bool \<Rightarrow> ('d, unit) dact \<Rightarrow> ('d, unit) dact" where
  "when_do b m = (if b then m else ret ())"

definition discard :: "('d, 'a) dact \<Rightarrow> ('d, unit) dact" where
  "discard m = andthen m (\<lambda>_. ret ())"

text \<open>A duplicate key reported by the server as the conflict of the API.\<close>

definition duplicate_to_conflict :: "string \<Rightarrow> ('d, 'a) dact" where
  "duplicate_to_conflict c = raise (if c = ''Dup'' then ''ErrConflict'' else c)"

fun each :: "('a \<Rightarrow> ('d, unit) dact) \<Rightarrow> 'a list \<Rightarrow> ('d, unit) dact" where
  "each f [] = ret ()"
| "each f (x # xs) = andthen (f x) (\<lambda>_. each f xs)"

section \<open>Laws\<close>

named_theorems act_simps \<open>what an action that succeeded did\<close>

abbreviation yields :: "('d, 'a) dact \<Rightarrow> 'd \<Rightarrow> outcome list \<Rightarrow> 'a \<Rightarrow> 'd \<Rightarrow> outcome list \<Rightarrow> bool" where
  "yields m d w x d' w' \<equiv> m d w = (Inr x, d', w')"

lemma ret_yields [act_simps]: "yields (ret x) d w y d' w' \<longleftrightarrow> y = x \<and> d' = d \<and> w' = w"
  by (auto simp: ret_def)

lemma raise_yields [act_simps]: "\<not> yields (raise c) d w y d' w'"
  by (simp add: raise_def)

lemma andthen_yields [act_simps]:
  "yields (andthen m f) d w y d' w' \<longleftrightarrow>
     (\<exists>x d1 w1. yields m d w x d1 w1 \<and> yields (f x) d1 w1 y d' w')"
  by (auto simp: andthen_def split: prod.splits sum.splits)

lemma stmt_yields:
  "yields (stmt q) d w y d' w' \<Longrightarrow> q d = (Inr y, d')"
  by (auto simp: stmt_def prod_eq_iff split: list.splits outcome.splits)

lemma query_yields: "yields (query q) d w y d' w' \<Longrightarrow> y = q d \<and> d' = d"
  unfolding query_def by (drule stmt_yields) auto

lemma exec_yields: "yields (exec u) d w y d' w' \<Longrightarrow> d' = u d"
  unfolding exec_def by (drule stmt_yields) auto

lemma exec_if_yields: "yields (exec_if bad u) d w y d' w' \<Longrightarrow> bad d = None \<and> d' = u d"
  unfolding exec_if_def by (drule stmt_yields) (auto split: option.splits)

lemma need_yields [act_simps]: "yields (need c r) d w y d' w' \<longleftrightarrow> r = Some y \<and> d' = d \<and> w' = w"
  by (auto simp: need_def act_simps split: option.splits)

lemma guard_yields [act_simps]: "yields (guard ok c) d w y d' w' \<longleftrightarrow> ok \<and> d' = d \<and> w' = w"
  by (auto simp: guard_def act_simps)

lemma when_do_yields:
  "yields (when_do b m) d w x d' w' \<longleftrightarrow> (if b then yields m d w x d' w' else d' = d \<and> w' = w)"
  by (auto simp: when_do_def act_simps)

lemma tx_yields:
  "yields (tx body) d w y d' w' \<Longrightarrow> \<exists>w1 w2. yields body d w1 y d' w2"
  by (auto simp: tx_def stmt_def split: prod.splits sum.splits list.splits outcome.splits)

lemma on_error_yields:
  assumes "yields (on_error h m) d w y d' w'"
  obtains "yields m d w y d' w'"
  | c d1 w1 where "m d w = (Err c, d1, w1)" "yields (h c) d1 w1 y d' w'"
  using assms by (auto simp: on_error_def split: prod.splits sum.splits) (metis apperr.collapse)

lemmas act_dests = query_yields exec_yields exec_if_yields

text \<open>A transaction is all or nothing: an error leaves the tables, or the answer of the commit was lost.\<close>

lemma tx_atomic:
  assumes "tx body d w = (r, d', w')"
  shows "d' = d \<or> (\<exists>w1 w2 x. yields body d w1 x d' w2)"
  using assms
  by (auto simp: tx_def stmt_def split: prod.splits sum.splits list.splits outcome.splits)

text \<open>
  Preservation: \<open>P\<close> relates the tables before and after. A reflexive and transitive \<open>P\<close> that every
  statement keeps is kept by every composition of statements, whatever their outcomes.
\<close>

definition keeps :: "('d \<Rightarrow> 'd \<Rightarrow> bool) \<Rightarrow> ('d, 'a) dact \<Rightarrow> bool" where
  "keeps P m \<longleftrightarrow> (\<forall>d w. P d (fst (snd (m d w))))"

locale preserved =
  fixes P :: "'d \<Rightarrow> 'd \<Rightarrow> bool"
  assumes refl: "P d d"
    and trans: "P d1 d2 \<Longrightarrow> P d2 d3 \<Longrightarrow> P d1 d3"
begin

lemma keep_ret: "keeps P (ret x)"
  by (simp add: keeps_def ret_def refl)

lemma keep_raise: "keeps P (raise c)"
  by (simp add: keeps_def raise_def refl)

lemma keep_andthen:
  assumes "keeps P m" and "\<And>x. keeps P (f x)"
  shows "keeps P (andthen m f)"
  unfolding keeps_def
proof (intro allI)
  fix d w
  obtain r d1 w1 where m: "m d w = (r, d1, w1)" by (metis prod_cases3)
  have "P d d1" using assms(1) m unfolding keeps_def by (metis fst_conv snd_conv)
  moreover have "P d1 (fst (snd (f x d1 w1)))" for x
    using assms(2) unfolding keeps_def by blast
  ultimately show "P d (fst (snd (andthen m f d w)))"
    by (cases r) (auto simp: andthen_def m intro: trans)
qed

lemma keep_stmt: "(\<And>d. P d (snd (q d))) \<Longrightarrow> keeps P (stmt q)"
  by (auto simp: keeps_def stmt_def refl split: list.splits outcome.splits)

lemma keep_query: "keeps P (query q)"
  unfolding query_def by (rule keep_stmt) (simp add: refl)

lemma keep_exec: "(\<And>d. P d (u d)) \<Longrightarrow> keeps P (exec u)"
  unfolding exec_def by (rule keep_stmt) simp

lemma keep_exec_if: "(\<And>d. bad d = None \<Longrightarrow> P d (u d)) \<Longrightarrow> keeps P (exec_if bad u)"
  unfolding exec_if_def by (rule keep_stmt) (auto simp: refl split: option.splits)

lemma keep_tx: "(\<And>d w x d' w'. yields body d w x d' w' \<Longrightarrow> P d d') \<Longrightarrow> keeps P (tx body)"
  unfolding keeps_def by (metis prod.collapse tx_atomic refl)

lemma keep_tx_body: "keeps P body \<Longrightarrow> keeps P (tx body)"
  by (rule keep_tx) (metis keeps_def fst_conv snd_conv)

lemma keep_need: "keeps P (need c r)"
  by (simp add: need_def keep_ret keep_raise split: option.splits)

lemma keep_guard: "keeps P (guard ok c)"
  by (simp add: guard_def keep_ret keep_raise)

lemma keep_each: "(\<And>x. keeps P (f x)) \<Longrightarrow> keeps P (each f xs)"
  by (induction xs) (auto intro: keep_ret keep_andthen)

lemma keep_on_error:
  assumes "keeps P m" and "\<And>c. keeps P (h c)"
  shows "keeps P (on_error h m)"
  unfolding keeps_def
proof (intro allI)
  fix d w
  obtain r d1 w1 where m: "m d w = (r, d1, w1)" by (metis prod_cases3)
  have "P d d1" using assms(1) m unfolding keeps_def by (metis fst_conv snd_conv)
  moreover have "P d1 (fst (snd (h c d1 w1)))" for c
    using assms(2) unfolding keeps_def by blast
  ultimately show "P d (fst (snd (on_error h m d w)))"
    by (cases r) (auto simp: on_error_def m intro: trans)
qed

lemmas keep_intros = keep_ret keep_raise keep_andthen keep_query keep_tx_body keep_need keep_guard
  keep_each keep_on_error

lemma kept: "keeps P m \<Longrightarrow> m d w = (r, d', w') \<Longrightarrow> P d d'"
  unfolding keeps_def by (metis fst_conv snd_conv)

end

text \<open>A read-only action: the relation is equality.\<close>

interpretation readonly: preserved "\<lambda>d d'. d' = d"
  by unfold_locales auto

abbreviation reads :: "('d, 'a) dact \<Rightarrow> bool" where
  "reads \<equiv> keeps (\<lambda>d d'. d' = d)"

lemma reads_yields: "reads m \<Longrightarrow> yields m d w x d' w' \<Longrightarrow> d' = d"
  by (rule readonly.kept)

context preserved
begin

lemma keep_reads: "reads m \<Longrightarrow> keeps P m"
  unfolding keeps_def by (metis refl)

lemma keep_when_do: "keeps P m \<Longrightarrow> keeps P (when_do b m)"
  by (simp add: when_do_def keep_ret)

lemma keep_discard: "keeps P m \<Longrightarrow> keeps P (discard m)"
  by (simp add: discard_def keep_andthen keep_ret)

lemma keep_duplicate: "keeps P (duplicate_to_conflict c)"
  by (simp add: duplicate_to_conflict_def keep_raise)

lemma keep_each_in: "(\<And>x. x \<in> set xs \<Longrightarrow> keeps P (f x)) \<Longrightarrow> keeps P (each f xs)"
  by (induction xs) (auto intro!: keep_ret keep_andthen)

text \<open>An action after one that succeeded: the continuation may rely on what the first established.\<close>

lemma keep_andthen_when:
  assumes "keeps P m" and "\<And>d w x d' w'. yields m d w x d' w' \<Longrightarrow> keeps P (f x)"
  shows "keeps P (andthen m f)"
  unfolding keeps_def
proof (intro allI)
  fix d w
  obtain r d1 w1 where m: "m d w = (r, d1, w1)" by (metis prod_cases3)
  have "P d d1" by (rule kept [OF assms(1) m])
  then show "P d (fst (snd (andthen m f d w)))"
    using assms(2) m unfolding keeps_def
    by (cases r) (auto simp: andthen_def intro: trans)
qed

lemmas keep_more = keep_intros keep_when_do keep_discard keep_duplicate

end

end
