(* ===== verification/PanelDb.thy ===== *)
theory PanelDb
  imports PanelAction GoStrings "HOL-Library.Product_Lexorder" "HOL-Library.List_Lexorder" "HOL-Library.Char_ord"
begin

text \<open>
  The account tables of the panel's database (panel/internal/store): users, groups, permissions,
  sessions and API keys as lists of rows; a statement on them is an action of PanelAction.
\<close>

section \<open>Rows\<close>

record user_row =
  us_id :: string
  us_name :: string
  us_display :: string
  us_hash :: string
  us_group :: string
  us_status :: string
  us_created :: int
  us_updated :: int
  us_login :: "int option"
  us_deleted :: "int option"

record group_row =
  gp_code :: string
  gp_name :: string
  gp_desc :: string
  gp_order :: int
  gp_builtin :: bool
  gp_created :: int
  gp_updated :: int

record override_row =
  ov_user :: string
  ov_perm :: string
  ov_allowed :: bool
  ov_created :: int

record session_row =
  sn_hash :: string
  sn_user :: string
  sn_created :: int
  sn_seen :: int
  sn_expires :: int
  sn_idle :: int
  sn_revoked :: "int option"
  sn_ip :: string
  sn_agent :: string

record key_row =
  ak_id :: string
  ak_user :: string
  ak_hash :: string
  ak_prefix :: string
  ak_created :: int
  ak_used :: "int option"
  ak_revoked :: "int option"

record admin_row =
  ia_node :: string
  ia_inst :: string
  ia_user :: string
  ia_at :: int

record panel_db =
  db_users :: "user_row list"
  db_groups :: "group_row list"
  db_perms :: "(string \<times> string) list"
  db_overrides :: "override_row list"
  db_sessions :: "session_row list"
  db_keys :: "key_row list"
  db_admins :: "admin_row list"

type_synonym 'a act = "(panel_db, 'a) dact"

end
