(* ===== verification/PanelUsers.thy ===== *)
theory PanelUsers
  imports PanelDb
begin

text \<open>
  The accounts of the panel: panel/internal/store/users.go, sessions.go, api_keys.go and
  instance_admins.go. \<open>k\<close> is the collation of the server, \<open>now\<close> the clock the operation reads, and
  the random identifier of \<open>newID\<close> an argument (\<open>None\<close>: no random bytes). Errors carry the name of
  the Go sentinel (\<open>ErrNotFound\<close>, \<open>ErrConflict\<close>, ...), \<open>ErrSQL\<close> for every other failure. The
  rows of a table are in no particular order, times are stored as given.
\<close>

section \<open>Constants and comparisons\<close>

definition group_super_admin :: string where "group_super_admin = ''super_admin''"
definition group_admin :: string where "group_admin = ''admin''"
definition group_observer :: string where "group_observer = ''observer''"
definition user_active :: string where "user_active = ''active''"
definition user_disabled :: string where "user_disabled = ''disabled''"
definition user_deleted :: string where "user_deleted = ''deleted''"

definition by_id :: "collation \<Rightarrow> string \<Rightarrow> user_row \<Rightarrow> bool" where
  "by_id k i u \<longleftrightarrow> aeq k (us_id u) i"

text \<open>The foreign keys \<open>users.group_code\<close> and \<open>*.user_id\<close>.\<close>

definition group_known :: "collation \<Rightarrow> string \<Rightarrow> panel_db \<Rightarrow> bool" where
  "group_known k g d \<longleftrightarrow> list_ex (\<lambda>r. aeq k (gp_code r) g) (db_groups d)"

definition user_known :: "collation \<Rightarrow> string \<Rightarrow> panel_db \<Rightarrow> bool" where
  "user_known k i d \<longleftrightarrow> list_ex (by_id k i) (db_users d)"

section \<open>Users\<close>

definition has_users :: "bool act" where
  "has_users = query (\<lambda>d. db_users d \<noteq> [])"

record new_user =
  nu_id :: string
  nu_name :: string
  nu_display :: string
  nu_group :: string
  nu_hash :: string

record user_changes =
  uc_display :: string
  uc_group :: string
  uc_status :: string

definition user_of :: "int \<Rightarrow> new_user \<Rightarrow> user_row" where
  "user_of now n = \<lparr>us_id = nu_id n, us_name = nu_name n, us_display = nu_display n,
     us_hash = nu_hash n, us_group = nu_group n, us_status = user_active, us_created = now,
     us_updated = now, us_login = None, us_deleted = None\<rparr>"

definition insert_refused :: "collation \<Rightarrow> new_user \<Rightarrow> panel_db \<Rightarrow> string option" where
  "insert_refused k n d =
     (if list_ex (\<lambda>u. by_id k (nu_id n) u \<or> k_text k (us_name u) = k_text k (nu_name n)) (db_users d)
      then Some ''Dup''
      else if \<not> group_known k (nu_group n) d then Some ''ErrSQL'' else None)"

definition insert_user :: "collation \<Rightarrow> int \<Rightarrow> new_user \<Rightarrow> user_row act" where
  "insert_user k now n =
     andthen (on_error duplicate_to_conflict
       (exec_if (insert_refused k n) (\<lambda>d. d\<lparr>db_users := user_of now n # db_users d\<rparr>)))
     (\<lambda>_. ret (user_of now n))"

definition store_create_initial_admin :: "collation \<Rightarrow> int \<Rightarrow> new_user \<Rightarrow> user_row act" where
  "store_create_initial_admin k now n = tx
     (andthen (query (\<lambda>d. length (db_users d))) (\<lambda>count.
      andthen (guard (count = 0) ''ErrConflict'') (\<lambda>_.
      insert_user k now n)))"

definition store_create_user :: "collation \<Rightarrow> int \<Rightarrow> new_user \<Rightarrow> user_row act" where
  "store_create_user k now n = insert_user k now n"

definition find_user_by_username :: "collation \<Rightarrow> string \<Rightarrow> user_row act" where
  "find_user_by_username k name =
     andthen (query (\<lambda>d. find (\<lambda>u. k_text k (us_name u) = k_text k name) (db_users d)))
     (need ''ErrNotFound'')"

definition get_user :: "collation \<Rightarrow> string \<Rightarrow> user_row act" where
  "get_user k i = andthen (query (\<lambda>d. find (by_id k i) (db_users d))) (need ''ErrNotFound'')"

definition other_super_admins :: "collation \<Rightarrow> string \<Rightarrow> panel_db \<Rightarrow> user_row list" where
  "other_super_admins k excluded d =
     filter (\<lambda>u. us_id u \<noteq> excluded)
       (filter (\<lambda>u. aeq k (us_group u) group_super_admin \<and> aeq k (us_status u) user_active \<and>
                    us_deleted u = None) (db_users d))"

definition ensure_another_super_admin :: "collation \<Rightarrow> string \<Rightarrow> unit act" where
  "ensure_another_super_admin k excluded =
     andthen (query (\<lambda>d. length (other_super_admins k excluded d)))
     (\<lambda>count. guard (count \<noteq> 0) ''ErrLastSuperAdmin'')"

definition revoke_sessions :: "collation \<Rightarrow> int \<Rightarrow> string \<Rightarrow> string \<Rightarrow> panel_db \<Rightarrow> panel_db" where
  "revoke_sessions k now i keep d =
     d\<lparr>db_sessions := update_rows
         (\<lambda>s. aeq k (sn_user s) i \<and> sn_revoked s = None \<and> (keep = [] \<or> sn_hash s \<noteq> keep))
         (\<lambda>s. s\<lparr>sn_revoked := Some now\<rparr>) (db_sessions d)\<rparr>"

definition clear_overrides :: "collation \<Rightarrow> string \<Rightarrow> panel_db \<Rightarrow> panel_db" where
  "clear_overrides k i d =
     d\<lparr>db_overrides := filter (\<lambda>r. \<not> aeq k (ov_user r) i) (db_overrides d)\<rparr>"

definition set_users :: "collation \<Rightarrow> string \<Rightarrow> (user_row \<Rightarrow> user_row) \<Rightarrow> panel_db \<Rightarrow> panel_db" where
  "set_users k i f d = d\<lparr>db_users := update_rows (by_id k i) f (db_users d)\<rparr>"

definition changed :: "int \<Rightarrow> user_changes \<Rightarrow> user_row \<Rightarrow> user_row" where
  "changed now c u = u\<lparr>us_display := uc_display c, us_group := uc_group c,
     us_status := uc_status c, us_updated := now\<rparr>"

definition removes_active_super_admin :: "user_changes \<Rightarrow> user_row \<Rightarrow> bool" where
  "removes_active_super_admin c u \<longleftrightarrow>
     us_group u = group_super_admin \<and> us_status u = user_active \<and>
     (uc_group c \<noteq> group_super_admin \<or> uc_status c \<noteq> user_active)"

text \<open>\<open>ListUsers\<close>: \<open>k_like\<close> is the server's \<open>column LIKE '%text%'\<close>.\<close>

record user_filter =
  uf_search :: string
  uf_status :: string
  uf_page :: int
  uf_size :: int

definition user_matches :: "collation \<Rightarrow> user_filter \<Rightarrow> user_row \<Rightarrow> bool" where
  "user_matches k f u \<longleftrightarrow> us_deleted u = None \<and>
     (uf_search f = [] \<or> k_like k (us_name u) (uf_search f) \<or> k_like k (us_display u) (uf_search f)) \<and>
     (uf_status f = [] \<or> aeq k (us_status u) (uf_status f))"

definition list_users :: "collation \<Rightarrow> user_filter \<Rightarrow> (user_row list \<times> nat) act" where
  "list_users k f =
     (let offset = (uf_page f - 1) * uf_size f
      in andthen (query (\<lambda>d. length (filter (user_matches k f) (db_users d)))) (\<lambda>total.
         andthen (guard (0 \<le> uf_size f \<and> 0 \<le> offset) ''ErrSQL'') (\<lambda>_.
         andthen (query (\<lambda>d. take (nat (uf_size f)) (drop (nat offset)
           (sort_key (\<lambda>u. - us_created u) (filter (user_matches k f) (db_users d)))))) (\<lambda>items.
         ret (items, total)))))"

definition update_user :: "collation \<Rightarrow> int \<Rightarrow> string \<Rightarrow> user_changes \<Rightarrow> user_row act" where
  "update_user k now i c = tx
     (andthen (get_user k i) (\<lambda>current.
      andthen (when_do (removes_active_super_admin c current) (ensure_another_super_admin k i)) (\<lambda>_.
      andthen (exec_if (\<lambda>d. if group_known k (uc_group c) d then None else Some ''ErrSQL'')
                       (set_users k i (changed now c))) (\<lambda>_.
      andthen (when_do (us_group current \<noteq> uc_group c) (exec (clear_overrides k i))) (\<lambda>_.
      andthen (when_do (uc_status c \<noteq> user_active) (exec (revoke_sessions k now i []))) (\<lambda>_.
      ret (changed now c current)))))))"

definition removed :: "int \<Rightarrow> user_row \<Rightarrow> user_row" where
  "removed now u = u\<lparr>us_group := group_observer, us_status := user_deleted,
     us_deleted := Some now, us_updated := now\<rparr>"

definition delete_user :: "collation \<Rightarrow> int \<Rightarrow> string \<Rightarrow> unit act" where
  "delete_user k now i = tx
     (andthen (get_user k i) (\<lambda>current.
      andthen (when_do (us_group current = group_super_admin \<and> us_status current = user_active)
                       (ensure_another_super_admin k i)) (\<lambda>_.
      andthen (exec_if (\<lambda>d. if group_known k group_observer d then None else Some ''ErrSQL'')
                       (set_users k i (removed now))) (\<lambda>_.
      andthen (exec (clear_overrides k i)) (\<lambda>_.
      exec (revoke_sessions k now i []))))))"

definition set_password :: "collation \<Rightarrow> int \<Rightarrow> string \<Rightarrow> string \<Rightarrow> string \<Rightarrow> unit act" where
  "set_password k now i hash keep =
     (let P = (\<lambda>u. by_id k i u \<and> us_deleted u = None);
          f = (\<lambda>u. u\<lparr>us_hash := hash, us_updated := now\<rparr>)
      in tx
       (andthen (stmt (\<lambda>d. (Inr (affected P f (db_users d)),
                            d\<lparr>db_users := update_rows P f (db_users d)\<rparr>))) (\<lambda>n.
        andthen (guard (n \<noteq> 0) ''ErrNotFound'') (\<lambda>_.
        exec (revoke_sessions k now i keep)))))"

definition revoke_user_sessions :: "collation \<Rightarrow> int \<Rightarrow> string \<Rightarrow> unit act" where
  "revoke_user_sessions k now i =
     andthen (stmt (\<lambda>d. (Inr (affected (\<lambda>s. aeq k (sn_user s) i \<and> sn_revoked s = None)
                                (\<lambda>s. s\<lparr>sn_revoked := Some now\<rparr>) (db_sessions d)),
                         revoke_sessions k now i [] d))) (\<lambda>n.
     if n = 0 then andthen (get_user k i) (\<lambda>_. ret ()) else ret ())"

definition mark_login :: "collation \<Rightarrow> int \<Rightarrow> string \<Rightarrow> unit act" where
  "mark_login k at i = exec (set_users k i (\<lambda>u. u\<lparr>us_login := Some at, us_updated := at\<rparr>))"

section \<open>Sessions\<close>

definition create_session :: "collation \<Rightarrow> session_row \<Rightarrow> unit act" where
  "create_session k s =
     exec_if (\<lambda>d. if list_ex (\<lambda>r. sn_hash r = sn_hash s) (db_sessions d) \<or>
                     \<not> user_known k (sn_user s) d then Some ''ErrSQL'' else None)
       (\<lambda>d. d\<lparr>db_sessions := s # db_sessions d\<rparr>)"

definition live_session :: "int \<Rightarrow> session_row \<Rightarrow> bool" where
  "live_session now s \<longleftrightarrow> sn_revoked s = None \<and> now < sn_expires s \<and> now < sn_idle s"

definition active_user :: "collation \<Rightarrow> user_row \<Rightarrow> bool" where
  "active_user k u \<longleftrightarrow> aeq k (us_status u) user_active \<and> us_deleted u = None"

definition session_users :: "collation \<Rightarrow> panel_db \<Rightarrow> (session_row \<times> user_row) list" where
  "session_users k d = concat (map (\<lambda>s. map (Pair s) (filter (by_id k (sn_user s)) (db_users d)))
                                   (db_sessions d))"

definition find_session :: "collation \<Rightarrow> int \<Rightarrow> string \<Rightarrow> (session_row \<times> user_row) act" where
  "find_session k now hash =
     andthen (query (\<lambda>d. find (\<lambda>(s, u). sn_hash s = hash \<and> live_session now s \<and> active_user k u)
                           (session_users k d)))
     (need ''ErrNotFound'')"

definition touch_session :: "string \<Rightarrow> int \<Rightarrow> int \<Rightarrow> unit act" where
  "touch_session hash seen idle = exec (\<lambda>d. d\<lparr>db_sessions := update_rows
     (\<lambda>s. sn_hash s = hash \<and> sn_revoked s = None)
     (\<lambda>s. s\<lparr>sn_seen := seen, sn_idle := idle\<rparr>) (db_sessions d)\<rparr>)"

definition revoke_session_row :: "int \<Rightarrow> string \<Rightarrow> unit act" where
  "revoke_session_row now hash = exec (\<lambda>d. d\<lparr>db_sessions := update_rows
     (\<lambda>s. sn_hash s = hash \<and> sn_revoked s = None)
     (\<lambda>s. s\<lparr>sn_revoked := Some now\<rparr>) (db_sessions d)\<rparr>)"

section \<open>API keys\<close>

definition key_refused :: "collation \<Rightarrow> key_row \<Rightarrow> panel_db \<Rightarrow> string option" where
  "key_refused k r d =
     (if list_ex (\<lambda>x. aeq k (ak_id x) (ak_id r) \<or> aeq k (ak_user x) (ak_user r) \<or>
                      ak_hash x = ak_hash r) (db_keys d) then Some ''Dup'' else None)"

definition save_api_key ::
  "collation \<Rightarrow> string option \<Rightarrow> string \<Rightarrow> string \<Rightarrow> string \<Rightarrow> int \<Rightarrow> bool \<Rightarrow> key_row act" where
  "save_api_key k rnd i hash pfx now replace =
     andthen (guard (i \<noteq> [] \<and> length hash = 32 \<and> pfx \<noteq> []) ''ErrConflict'') (\<lambda>_. tx
     (andthen (query (\<lambda>d. find (\<lambda>u. by_id k i u \<and> us_deleted u = None) (db_users d))) (\<lambda>found.
      andthen (need ''ErrNotFound'' found) (\<lambda>u.
      andthen (guard (us_status u = user_active) ''ErrConflict'') (\<lambda>_.
      andthen (when_do replace (exec (\<lambda>d. d\<lparr>db_keys := filter (\<lambda>r. \<not> aeq k (ak_user r) i) (db_keys d)\<rparr>))) (\<lambda>_.
      andthen (need ''ErrRandom'' rnd) (\<lambda>kid.
      let row = \<lparr>ak_id = kid, ak_user = i, ak_hash = hash, ak_prefix = pfx, ak_created = now,
                 ak_used = None, ak_revoked = None\<rparr>
      in andthen (on_error duplicate_to_conflict
                   (exec_if (key_refused k row) (\<lambda>d. d\<lparr>db_keys := row # db_keys d\<rparr>)))
         (\<lambda>_. ret row))))))))"

definition store_create_api_key ::
  "collation \<Rightarrow> string option \<Rightarrow> string \<Rightarrow> string \<Rightarrow> string \<Rightarrow> int \<Rightarrow> key_row act" where
  "store_create_api_key k rnd i hash pfx now = save_api_key k rnd i hash pfx now False"

definition store_rotate_api_key ::
  "collation \<Rightarrow> string option \<Rightarrow> string \<Rightarrow> string \<Rightarrow> string \<Rightarrow> int \<Rightarrow> key_row act" where
  "store_rotate_api_key k rnd i hash pfx now = save_api_key k rnd i hash pfx now True"

definition get_api_key :: "collation \<Rightarrow> string \<Rightarrow> key_row act" where
  "get_api_key k i =
     andthen (query (\<lambda>d. find (\<lambda>r. aeq k (ak_user r) i) (db_keys d))) (need ''ErrNotFound'')"

definition key_users :: "collation \<Rightarrow> panel_db \<Rightarrow> (key_row \<times> user_row) list" where
  "key_users k d = concat (map (\<lambda>r. map (Pair r) (filter (by_id k (ak_user r)) (db_users d)))
                               (db_keys d))"

definition find_api_key :: "collation \<Rightarrow> string \<Rightarrow> (key_row \<times> user_row) act" where
  "find_api_key k hash =
     andthen (query (\<lambda>d. find (\<lambda>(r, u). ak_hash r = hash \<and> ak_revoked r = None \<and> active_user k u)
                           (key_users k d)))
     (need ''ErrNotFound'')"

definition touch_api_key :: "collation \<Rightarrow> string \<Rightarrow> int \<Rightarrow> unit act" where
  "touch_api_key k kid at = exec (\<lambda>d. d\<lparr>db_keys := update_rows
     (\<lambda>r. aeq k (ak_id r) kid \<and> ak_revoked r = None) (\<lambda>r. r\<lparr>ak_used := Some at\<rparr>) (db_keys d)\<rparr>)"

definition store_revoke_api_key :: "collation \<Rightarrow> int \<Rightarrow> string \<Rightarrow> unit act" where
  "store_revoke_api_key k now i =
     (let P = (\<lambda>r. aeq k (ak_user r) i \<and> ak_revoked r = None); f = (\<lambda>r. r\<lparr>ak_revoked := Some now\<rparr>)
      in andthen (stmt (\<lambda>d. (Inr (affected P f (db_keys d)),
                             d\<lparr>db_keys := update_rows P f (db_keys d)\<rparr>))) (\<lambda>n.
         if n = 0 then
           on_error (\<lambda>c. if c = ''ErrNotFound'' then andthen (get_user k i) (\<lambda>_. ret ()) else raise c)
             (andthen (get_api_key k i) (\<lambda>_. ret ()))
         else ret ()))"

section \<open>Instance administrators\<close>

definition admin_users :: "collation \<Rightarrow> string \<Rightarrow> string \<Rightarrow> panel_db \<Rightarrow> (admin_row \<times> user_row) list" where
  "admin_users k node inst d =
     concat (map (\<lambda>a. map (Pair a) (filter (\<lambda>u. by_id k (ia_user a) u \<and> active_user k u) (db_users d)))
       (filter (\<lambda>a. aeq k (ia_node a) node \<and> aeq k (ia_inst a) inst) (db_admins d)))"

definition list_instance_admins ::
  "collation \<Rightarrow> string \<Rightarrow> string \<Rightarrow> (admin_row \<times> user_row) list act" where
  "list_instance_admins k node inst = query (\<lambda>d.
     sort_key (\<lambda>(a, u). (k_text k (us_display u), k_text k (us_name u))) (admin_users k node inst d))"

definition is_instance_admin :: "collation \<Rightarrow> string \<Rightarrow> string \<Rightarrow> string \<Rightarrow> bool act" where
  "is_instance_admin k node inst i =
     query (\<lambda>d. list_ex (\<lambda>(a, _). aeq k (ia_user a) i) (admin_users k node inst d))"

definition instance_admin_set :: "collation \<Rightarrow> string \<Rightarrow> (string list) act" where
  "instance_admin_set k i = query (\<lambda>d.
     map (\<lambda>a. ia_node a @ [CHR 0x00] @ ia_inst a) (filter (\<lambda>a. aeq k (ia_user a) i) (db_admins d)))"

fun dedup_first :: "string list \<Rightarrow> string list \<Rightarrow> string list" where
  "dedup_first seen [] = []"
| "dedup_first seen (x # xs) =
     (let y = trim_space x
      in if y = [] \<or> y \<in> set seen then dedup_first seen xs
         else y # dedup_first (y # seen) xs)"

definition require_active :: "collation \<Rightarrow> string \<Rightarrow> unit act" where
  "require_active k i =
     andthen (query (\<lambda>d. find (\<lambda>u. by_id k i u \<and> us_deleted u = None) (db_users d))) (\<lambda>found.
     andthen (need ''ErrNotFound'' found) (\<lambda>u.
     guard (us_status u = user_active) ''ErrConflict''))"

definition insert_admin :: "collation \<Rightarrow> admin_row \<Rightarrow> unit act" where
  "insert_admin k a =
     exec_if (\<lambda>d. if list_ex (\<lambda>x. aeq k (ia_node x) (ia_node a) \<and> aeq k (ia_inst x) (ia_inst a) \<and>
                                 aeq k (ia_user x) (ia_user a)) (db_admins d) \<or>
                     \<not> user_known k (ia_user a) d then Some ''ErrSQL'' else None)
       (\<lambda>d. d\<lparr>db_admins := a # db_admins d\<rparr>)"

definition set_instance_admins ::
  "collation \<Rightarrow> int \<Rightarrow> string \<Rightarrow> string \<Rightarrow> string list \<Rightarrow> (admin_row \<times> user_row) list act" where
  "set_instance_admins k now node0 inst0 users =
     (let node = trim_space node0; inst = trim_space inst0; ids = dedup_first [] users
      in andthen (guard (node \<noteq> [] \<and> inst \<noteq> [] \<and> rune_count node \<le> 32 \<and> rune_count inst \<le> 64)
                        ''ErrConflict'') (\<lambda>_.
         andthen (tx
           (andthen (each (require_active k) ids) (\<lambda>_.
            andthen (exec (\<lambda>d. d\<lparr>db_admins := filter (\<lambda>a. \<not> (aeq k (ia_node a) node \<and> aeq k (ia_inst a) inst))
                                                (db_admins d)\<rparr>)) (\<lambda>_.
            each (\<lambda>i. insert_admin k \<lparr>ia_node = node, ia_inst = inst, ia_user = i, ia_at = now\<rparr>) ids)))) (\<lambda>_.
         list_instance_admins k node inst)))"

end
