(* ===== verification/PanelAccess.thy ===== *)
theory PanelAccess
  imports PanelUsers
begin

text \<open>
  Groups and permissions of the panel: panel/internal/store/access.go. The permission catalogue is
  the list of codes; the Chinese names and categories the code keeps beside them are display text
  and left out. A Go set of codes is a list without repetitions, sorted where the code sorts it.
\<close>

section \<open>The catalogue\<close>

definition permission_codes :: "string list" where
  "permission_codes =
     [''dashboard.view'', ''node.view'', ''node.create'', ''node.update'', ''node.delete'',
      ''node.terminal'', ''node.terminal.root'', ''server.view'', ''server.create'',
      ''server.configure'', ''server.deploy'', ''server.delete'', ''instance.start'',
      ''instance.stop'', ''instance.restart'', ''instance.kill'', ''console.read'',
      ''console.command'', ''file.read'', ''file.write'', ''file.delete'', ''player.view'',
      ''player.kick'', ''player.message'', ''player.transfer'', ''player.whitelist.manage'',
      ''player.op.manage'', ''mail.send'', ''plugin.view'', ''plugin.upload'', ''plugin.deploy'',
      ''plugin.remove'', ''firewall.view'', ''firewall.manage'', ''task.view'', ''task.cancel'',
      ''task.retry'', ''schedule.view'', ''schedule.manage'', ''alert.view'',
      ''alert.acknowledge'', ''audit.view'', ''user.view'', ''user.create'', ''user.update'',
      ''user.delete'', ''user.password.reset'', ''user.sessions.revoke'', ''permission.manage'',
      ''system.settings'']"

definition instance_admin_permissions :: "string list" where
  "instance_admin_permissions =
     [''instance.start'', ''instance.stop'', ''instance.restart'', ''instance.kill'',
      ''console.read'', ''console.command'', ''file.read'', ''file.write'', ''file.delete'',
      ''player.view'', ''player.kick'', ''player.message'', ''player.whitelist.manage'',
      ''player.op.manage'', ''plugin.view'', ''plugin.upload'', ''plugin.deploy'',
      ''plugin.remove'']"

definition instance_admin_permission_list :: "string list" where
  "instance_admin_permission_list = sort instance_admin_permissions"

definition valid_permission :: "string \<Rightarrow> bool" where
  "valid_permission c \<longleftrightarrow> list_ex (\<lambda>x. x = c) permission_codes"

section \<open>Groups\<close>

definition group_permission_set :: "collation \<Rightarrow> string \<Rightarrow> string list act" where
  "group_permission_set k code = query (\<lambda>d.
     remdups (filter valid_permission (map snd (filter (\<lambda>r. aeq k (fst r) code) (db_perms d)))))"

definition validate_group_permissions :: "string \<Rightarrow> string list \<Rightarrow> unit act" where
  "validate_group_permissions code ps =
     each (\<lambda>p. andthen (guard (valid_permission p) ''ErrNotFound'')
             (\<lambda>_. guard (p \<noteq> ''permission.manage'' \<or> code = group_super_admin) ''ErrProtected'')) ps"

record user_group =
  ug_row :: group_row
  ug_permissions :: "string list"
  ug_count :: nat

definition user_count :: "collation \<Rightarrow> string \<Rightarrow> panel_db \<Rightarrow> nat" where
  "user_count k code d =
     length (filter (\<lambda>u. aeq k (us_group u) code \<and> us_deleted u = None) (db_users d))"

definition group_permissions_of :: "collation \<Rightarrow> string \<Rightarrow> string list act" where
  "group_permissions_of k code =
     (if code = group_super_admin then ret permission_codes
      else andthen (group_permission_set k code) (\<lambda>ps. ret (sort ps)))"

definition get_user_group :: "collation \<Rightarrow> string \<Rightarrow> user_group act" where
  "get_user_group k code =
     andthen (query (\<lambda>d. map_option (\<lambda>g. (g, user_count k (gp_code g) d))
                           (find (\<lambda>g. aeq k (gp_code g) code) (db_groups d)))) (\<lambda>found.
     andthen (need ''ErrNotFound'' found) (\<lambda>(g, n).
     andthen (group_permissions_of k (gp_code g)) (\<lambda>ps.
     ret \<lparr>ug_row = g, ug_permissions = ps, ug_count = n\<rparr>)))"

fun groups_with :: "collation \<Rightarrow> (group_row \<times> nat) list \<Rightarrow> user_group list act" where
  "groups_with k [] = ret []"
| "groups_with k ((g, n) # gs) =
     andthen (group_permissions_of k (gp_code g)) (\<lambda>ps.
     andthen (groups_with k gs) (\<lambda>rest.
     ret (\<lparr>ug_row = g, ug_permissions = ps, ug_count = n\<rparr> # rest)))"

definition list_user_groups :: "collation \<Rightarrow> user_group list act" where
  "list_user_groups k =
     andthen (query (\<lambda>d. map (\<lambda>g. (g, user_count k (gp_code g) d))
       (sort_key (\<lambda>g. (gp_order g, gp_created g, k_text k (gp_name g))) (db_groups d))))
     (groups_with k)"

definition user_group_exists :: "collation \<Rightarrow> string \<Rightarrow> bool act" where
  "user_group_exists k code = query (group_known k code)"

definition group_duplicate :: "collation \<Rightarrow> string \<Rightarrow> string \<Rightarrow> panel_db \<Rightarrow> bool" where
  "group_duplicate k code name d \<longleftrightarrow>
     list_ex (\<lambda>g. \<not> aeq k (gp_code g) code \<and> k_text k (gp_name g) = k_text k name) (db_groups d)"

definition insert_group :: "collation \<Rightarrow> int \<Rightarrow> string \<Rightarrow> string \<Rightarrow> string \<Rightarrow> unit act" where
  "insert_group k now code name desc =
     exec_if (\<lambda>d. if group_known k code d \<or> group_duplicate k code name d then Some ''Dup'' else None)
       (\<lambda>d. d\<lparr>db_groups := \<lparr>gp_code = code, gp_name = name, gp_desc = desc, gp_order = 100,
                gp_builtin = False, gp_created = now, gp_updated = now\<rparr> # db_groups d\<rparr>)"

definition set_groups :: "collation \<Rightarrow> string \<Rightarrow> (group_row \<Rightarrow> group_row) \<Rightarrow> panel_db \<Rightarrow> panel_db" where
  "set_groups k code f d = d\<lparr>db_groups := update_rows (\<lambda>g. aeq k (gp_code g) code) f (db_groups d)\<rparr>"

definition touch_group :: "collation \<Rightarrow> int \<Rightarrow> string \<Rightarrow> string \<Rightarrow> string \<Rightarrow> unit act" where
  "touch_group k now code name desc =
     andthen (query (\<lambda>d. find (\<lambda>g. aeq k (gp_code g) code) (db_groups d))) (\<lambda>found.
     andthen (need ''ErrNotFound'' found) (\<lambda>g.
     andthen (guard (code \<noteq> group_super_admin) ''ErrProtected'') (\<lambda>_.
     if gp_builtin g then exec (set_groups k code (\<lambda>g. g\<lparr>gp_updated := now\<rparr>))
     else exec_if (\<lambda>d. if group_duplicate k code name d then Some ''Dup'' else None)
            (set_groups k code (\<lambda>g. g\<lparr>gp_name := name, gp_desc := desc, gp_updated := now\<rparr>)))))"

definition clear_group_permissions :: "collation \<Rightarrow> string \<Rightarrow> panel_db \<Rightarrow> panel_db" where
  "clear_group_permissions k code d = d\<lparr>db_perms := filter (\<lambda>r. \<not> aeq k (fst r) code) (db_perms d)\<rparr>"

definition insert_group_permission :: "collation \<Rightarrow> string \<Rightarrow> string \<Rightarrow> unit act" where
  "insert_group_permission k code p =
     exec_if (\<lambda>d. if list_ex (\<lambda>r. aeq k (fst r) code \<and> aeq k (snd r) p) (db_perms d) \<or>
                     \<not> group_known k code d then Some ''ErrSQL'' else None)
       (\<lambda>d. d\<lparr>db_perms := (code, p) # db_perms d\<rparr>)"

fun first_occurrences :: "string list \<Rightarrow> string list \<Rightarrow> string list" where
  "first_occurrences seen [] = []"
| "first_occurrences seen (p # ps) =
     (if p \<in> set seen then first_occurrences seen ps else p # first_occurrences (p # seen) ps)"

definition save_user_group ::
  "collation \<Rightarrow> int \<Rightarrow> string \<Rightarrow> string \<Rightarrow> string \<Rightarrow> string list \<Rightarrow> bool \<Rightarrow> user_group act" where
  "save_user_group k now code name0 desc0 ps new =
     (let name = trim_space name0; desc = trim_space desc0
      in andthen (guard (name \<noteq> [] \<and> rune_count name \<le> 100 \<and> rune_count desc \<le> 500) ''ErrConflict'') (\<lambda>_.
         andthen (validate_group_permissions code ps) (\<lambda>_.
         andthen (tx
           (andthen (on_error duplicate_to_conflict
              (if new then insert_group k now code name desc else touch_group k now code name desc)) (\<lambda>_.
            andthen (exec (clear_group_permissions k code)) (\<lambda>_.
            each (insert_group_permission k code) (first_occurrences [] ps))))) (\<lambda>_.
         get_user_group k code))))"

definition create_user_group ::
  "collation \<Rightarrow> int \<Rightarrow> string option \<Rightarrow> string \<Rightarrow> string \<Rightarrow> string list \<Rightarrow> user_group act" where
  "create_user_group k now rnd name desc ps =
     andthen (need ''ErrRandom'' rnd) (\<lambda>code. save_user_group k now code name desc ps True)"

definition update_user_group ::
  "collation \<Rightarrow> int \<Rightarrow> string \<Rightarrow> string \<Rightarrow> string \<Rightarrow> string list \<Rightarrow> user_group act" where
  "update_user_group k now code name desc ps = save_user_group k now code name desc ps False"

text \<open>
  \<open>DELETE FROM user_groups\<close>: refused while a row of \<open>users\<close> refers to the group (a deleted user
  included), cascading to \<open>group_permissions\<close>.
\<close>

definition delete_user_group :: "collation \<Rightarrow> string \<Rightarrow> unit act" where
  "delete_user_group k code =
     andthen (get_user_group k code) (\<lambda>g.
     andthen (guard (\<not> gp_builtin (ug_row g)) ''ErrProtected'') (\<lambda>_.
     andthen (guard (ug_count g = 0) ''ErrInUse'') (\<lambda>_.
     andthen (stmt (\<lambda>d.
       if list_ex (\<lambda>u. aeq k (us_group u) code) (db_users d) then (sql_error, d)
       else (Inr (length (filter (\<lambda>r. aeq k (gp_code r) code) (db_groups d))),
             clear_group_permissions k code
               (d\<lparr>db_groups := filter (\<lambda>r. \<not> aeq k (gp_code r) code) (db_groups d)\<rparr>)))) (\<lambda>n.
     guard (n \<noteq> 0) ''ErrNotFound''))))"

section \<open>Permissions of a user\<close>

fun apply_overrides :: "override_row list \<Rightarrow> string list \<Rightarrow> string list" where
  "apply_overrides [] ps = ps"
| "apply_overrides (r # rs) ps =
     apply_overrides rs (if ov_allowed r then List.insert (ov_perm r) ps else removeAll (ov_perm r) ps)"

definition effective_permissions :: "collation \<Rightarrow> string \<Rightarrow> string \<Rightarrow> string list act" where
  "effective_permissions k i code =
     (if code = group_super_admin then ret [''*'']
      else andthen (group_permission_set k code) (\<lambda>ps.
           andthen (query (\<lambda>d. filter (\<lambda>r. aeq k (ov_user r) i) (db_overrides d))) (\<lambda>rs.
           ret (sort (apply_overrides rs ps)))))"

definition can :: "collation \<Rightarrow> user_row \<Rightarrow> string \<Rightarrow> bool act" where
  "can k u p =
     (if us_group u = group_super_admin then ret True
      else andthen (query (\<lambda>d. find (\<lambda>r. aeq k (ov_user r) (us_id u) \<and> aeq k (ov_perm r) p)
                                 (db_overrides d))) (\<lambda>found.
           case found of
             Some r \<Rightarrow> ret (ov_allowed r)
           | None \<Rightarrow> query (\<lambda>d. list_ex (\<lambda>r. aeq k (fst r) (us_group u) \<and> aeq k (snd r) p) (db_perms d))))"

definition can_instance :: "collation \<Rightarrow> user_row \<Rightarrow> string \<Rightarrow> string \<Rightarrow> string \<Rightarrow> bool act" where
  "can_instance k u p node inst =
     andthen (can k u p) (\<lambda>allowed.
     if allowed then ret True
     else if p \<notin> set instance_admin_permissions then ret False
     else is_instance_admin k node inst (us_id u))"

text \<open>A \<open>store.User\<close> after \<open>DecorateUser\<close>.\<close>

record user =
  ur_row :: user_row
  ur_permissions :: "string list"
  ur_group_code :: string
  ur_group_name :: string
  ur_overrides :: bool
  ur_active :: nat

definition decorate_user :: "collation \<Rightarrow> int \<Rightarrow> user_row \<Rightarrow> user act" where
  "decorate_user k now u =
     andthen (get_user_group k (us_group u)) (\<lambda>g.
     andthen (effective_permissions k (us_id u) (us_group u)) (\<lambda>ps.
     andthen (query (\<lambda>d. length (filter (\<lambda>r. aeq k (ov_user r) (us_id u)) (db_overrides d)))) (\<lambda>n.
     andthen (query (\<lambda>d. length (filter (\<lambda>s. aeq k (sn_user s) (us_id u) \<and> live_session now s)
                                   (db_sessions d)))) (\<lambda>m.
     ret \<lparr>ur_row = u, ur_permissions = ps, ur_group_code = gp_code (ug_row g),
          ur_group_name = gp_name (ug_row g), ur_overrides = (0 < n), ur_active = m\<rparr>))))"

record permission_item =
  pi_code :: string
  pi_group :: bool
  pi_effective :: bool

definition permission_items :: "string list \<Rightarrow> string list \<Rightarrow> permission_item list" where
  "permission_items grp eff =
     map (\<lambda>c. \<lparr>pi_code = c, pi_group = (c \<in> set grp), pi_effective = (c \<in> set eff)\<rparr>) permission_codes"

definition user_permission_profile ::
  "collation \<Rightarrow> string \<Rightarrow> (string \<times> permission_item list) act" where
  "user_permission_profile k i =
     andthen (get_user k i) (\<lambda>u.
     andthen (get_user_group k (us_group u)) (\<lambda>g.
     andthen (effective_permissions k (us_id u) (us_group u)) (\<lambda>eff.
     ret (gp_code (ug_row g),
          permission_items (ug_permissions g)
            (if us_group u = group_super_admin then permission_codes else eff)))))"

definition insert_override :: "collation \<Rightarrow> override_row \<Rightarrow> unit act" where
  "insert_override k r =
     exec_if (\<lambda>d. if list_ex (\<lambda>x. aeq k (ov_user x) (ov_user r) \<and> aeq k (ov_perm x) (ov_perm r))
                       (db_overrides d) \<or> \<not> user_known k (ov_user r) d
                  then Some ''ErrSQL'' else None)
       (\<lambda>d. d\<lparr>db_overrides := r # db_overrides d\<rparr>)"

definition set_user_permissions ::
  "collation \<Rightarrow> int \<Rightarrow> string \<Rightarrow> string list \<Rightarrow> (string \<times> permission_item list) act" where
  "set_user_permissions k now i desired =
     andthen (get_user k i) (\<lambda>u.
     andthen (guard (us_group u \<noteq> group_super_admin) ''ErrProtected'') (\<lambda>_.
     andthen (guard (list_all (\<lambda>c. valid_permission c \<and> c \<noteq> ''permission.manage'') desired)
                    ''ErrProtected'') (\<lambda>_.
     andthen (group_permission_set k (us_group u)) (\<lambda>defaults.
     andthen (tx
       (andthen (exec (clear_overrides k i)) (\<lambda>_.
        each (\<lambda>c. insert_override k \<lparr>ov_user = i, ov_perm = c, ov_allowed = (c \<in> set desired),
                                     ov_created = now\<rparr>)
          (filter (\<lambda>c. (c \<in> set defaults) \<noteq> (c \<in> set desired)) permission_codes)))) (\<lambda>_.
     user_permission_profile k i)))))"

end
