(* ===== verification/PanelAuth.thy ===== *)
theory PanelAuth
  imports PanelAccess GoBase64
begin

text \<open>
  Authentication of the panel: panel/internal/auth/limiter.go, password.go and service.go. \<open>K\<close> is
  \<open>argon2.IDKey\<close> (password, salt, iterations, memory, parallelism, key length) and \<open>H\<close> is SHA-256;
  random bytes are arguments (\<open>None\<close>: the system has none). \<open>now\<close> is the clock of the request;
  where the code reads it twice within one request the two readings are taken to be the same.
\<close>

section \<open>The login limiter\<close>

definition minutes :: "int \<Rightarrow> int" where
  "minutes n = n * 60 * 1000000000"

record attempt =
  at_failures :: int
  at_start :: int
  at_blocked :: int

type_synonym limiter = "(string, attempt) gomap"

definition new_login_limiter :: limiter where
  "new_login_limiter = []"

definition entry_of :: "limiter \<Rightarrow> string \<Rightarrow> attempt" where
  "entry_of l key = (case aget l key of Some a \<Rightarrow> a
     | None \<Rightarrow> \<lparr>at_failures = 0, at_start = 0, at_blocked = 0\<rparr>)"

definition allowed :: "limiter \<Rightarrow> string list \<Rightarrow> int \<Rightarrow> bool" where
  "allowed l keys now \<longleftrightarrow> list_all (\<lambda>key. \<not> now < at_blocked (entry_of l key)) keys"

definition failed_attempt :: "int \<Rightarrow> attempt \<Rightarrow> attempt" where
  "failed_attempt now a =
     (let b = (if at_start a = 0 \<or> minutes 15 < now - at_start a
               then \<lparr>at_failures = 0, at_start = now, at_blocked = 0\<rparr> else a);
          c = b\<lparr>at_failures := at_failures b + 1\<rparr>
      in if 5 \<le> at_failures c then c\<lparr>at_blocked := now + minutes 15\<rparr> else c)"

fun failure :: "string list \<Rightarrow> int \<Rightarrow> limiter \<Rightarrow> limiter" where
  "failure [] now l = l"
| "failure (key # keys) now l = failure keys now (aput key (failed_attempt now (entry_of l key)) l)"

fun success :: "string list \<Rightarrow> limiter \<Rightarrow> limiter" where
  "success [] l = l"
| "success (key # keys) l = success keys (adel key l)"

section \<open>Passwords\<close>

type_synonym kdf = "string \<Rightarrow> string \<Rightarrow> int \<Rightarrow> int \<Rightarrow> int \<Rightarrow> int \<Rightarrow> string"

text \<open>\<open>base64.RawStdEncoding\<close>: the URL alphabet with \<open>+\<close> and \<open>/\<close> in the place of \<open>-\<close> and \<open>_\<close>.\<close>

definition to_std :: "char \<Rightarrow> char" where
  "to_std c = (if c = CHR ''-'' then CHR ''+'' else if c = CHR ''_'' then CHR ''/'' else c)"

definition of_std :: "char \<Rightarrow> char" where
  "of_std c = (if c = CHR ''+'' then CHR ''-'' else if c = CHR ''/'' then CHR ''_''
               else if c = CHR ''-'' \<or> c = CHR ''_'' then CHR ''='' else c)"

definition std_encode :: "string \<Rightarrow> string" where
  "std_encode s = map to_std (b64_encode s)"

definition std_decode :: "string \<Rightarrow> string option" where
  "std_decode s = b64_decode (map of_std s)"

definition hash_password :: "kdf \<Rightarrow> string option \<Rightarrow> string \<Rightarrow> string result" where
  "hash_password K salt pw = (case salt of
     None \<Rightarrow> Err ''ErrRandom''
   | Some s \<Rightarrow> Inr (''$argon2id$v=19$m='' @ itoa (64 * 1024) @ '',t='' @ itoa 3 @ '',p='' @ itoa 2 @
       ''$'' @ std_encode s @ ''$'' @ std_encode (K pw s 3 (64 * 1024) 2 32)))"

text \<open>\<open>strings.Cut(s, "=")\<close> and \<open>strconv.ParseUint(s, 10, 32)\<close>.\<close>

definition cut_eq :: "string \<Rightarrow> (string \<times> string) option" where
  "cut_eq s = (case dropWhile (\<lambda>c. c \<noteq> CHR ''='') s of
     [] \<Rightarrow> None | _ # v \<Rightarrow> Some (takeWhile (\<lambda>c. c \<noteq> CHR ''='') s, v))"

definition parse_u32 :: "string \<Rightarrow> int option" where
  "parse_u32 s = (case atou s of None \<Rightarrow> None | Some n \<Rightarrow> if n < 2 ^ 32 then Some n else None)"

fun parse_costs :: "string list \<Rightarrow> int \<times> int \<times> int \<Rightarrow> (int \<times> int \<times> int) option" where
  "parse_costs [] r = Some r"
| "parse_costs (p # ps) (m, t, q) =
     (case cut_eq p of
        None \<Rightarrow> None
      | Some (name, v) \<Rightarrow>
         (case parse_u32 v of
            None \<Rightarrow> None
          | Some n \<Rightarrow>
             (if name = ''m'' then parse_costs ps (n, t, q)
              else if name = ''t'' then parse_costs ps (m, n, q)
              else if name = ''p'' then parse_costs ps (m, t, n)
              else None)))"

definition verify_password :: "kdf \<Rightarrow> string \<Rightarrow> string \<Rightarrow> bool" where
  "verify_password K encoded pw =
     (let parts = split_on (CHR ''$'') encoded
      in length parts = 6 \<and> parts ! 1 = ''argon2id'' \<and> parts ! 2 = ''v=19'' \<and>
         (case parse_costs (split_on (CHR '','') (parts ! 3)) (0, 0, 0) of
            None \<Rightarrow> False
          | Some (m, t, q) \<Rightarrow>
             m \<noteq> 0 \<and> t \<noteq> 0 \<and> q \<noteq> 0 \<and> q \<le> 255 \<and>
             (case std_decode (parts ! 4) of
                None \<Rightarrow> False
              | Some salt \<Rightarrow> 8 \<le> length salt \<and>
                 (case std_decode (parts ! 5) of
                    None \<Rightarrow> False
                  | Some expected \<Rightarrow> 16 \<le> length expected \<and>
                      K pw salt t m q (int (length expected)) = expected))))"

definition validate_password :: "string \<Rightarrow> unit result" where
  "validate_password pw =
     (let n = rune_count pw
      in if n < 6 then Err ''ErrInvalidInput'' else if 128 < n then Err ''ErrInvalidInput'' else Inr ())"

definition validated_password_hash :: "kdf \<Rightarrow> string option \<Rightarrow> string \<Rightarrow> string result" where
  "validated_password_hash K salt pw =
     (case validate_password pw of Inl e \<Rightarrow> Inl e | Inr _ \<Rightarrow> hash_password K salt pw)"

section \<open>Tokens\<close>

definition new_session_token :: "(string \<Rightarrow> string) \<Rightarrow> string option \<Rightarrow> (string \<times> string) option" where
  "new_session_token H rnd = map_option (\<lambda>raw. (b64_encode raw, H (b64_encode raw))) rnd"

definition key_prefix :: string where "key_prefix = ''ppk_''"

definition new_api_key_token ::
  "(string \<Rightarrow> string) \<Rightarrow> string option \<Rightarrow> (string \<times> string \<times> string) option" where
  "new_api_key_token H rnd =
     map_option (\<lambda>raw. let token = key_prefix @ b64_encode raw in (token, H token, take 12 token)) rnd"

definition session_token_hash :: "(string \<Rightarrow> string) \<Rightarrow> string \<Rightarrow> string option" where
  "session_token_hash H token =
     (case b64_decode token of None \<Rightarrow> None
      | Some raw \<Rightarrow> if length raw = 32 then Some (H token) else None)"

definition api_key_token_hash :: "(string \<Rightarrow> string) \<Rightarrow> string \<Rightarrow> string option" where
  "api_key_token_hash H token =
     (if \<not> has_prefix token key_prefix then None
      else case b64_decode (trim_prefix token key_prefix) of None \<Rightarrow> None
      | Some raw \<Rightarrow> if length raw = 32 then Some (H token) else None)"

section \<open>New users\<close>

definition normalize_username :: "string \<Rightarrow> string" where
  "normalize_username s = to_lower (trim_space s)"

definition is_lower :: "char \<Rightarrow> bool" where
  "is_lower c \<longleftrightarrow> 97 \<le> byte c \<and> byte c \<le> 122"

text \<open>\<open>^[a-z0-9][a-z0-9._-]{2,31}$\<close>\<close>

definition username_ok :: "string \<Rightarrow> bool" where
  "username_ok s \<longleftrightarrow> 3 \<le> length s \<and> length s \<le> 32 \<and>
     (is_lower (hd s) \<or> is_digit (hd s)) \<and>
     list_all (\<lambda>c. is_lower c \<or> is_digit c \<or> c = CHR ''.'' \<or> c = CHR ''_'' \<or> c = CHR ''-'') (tl s)"

definition prepare_user ::
  "kdf \<Rightarrow> string option \<Rightarrow> string option \<Rightarrow> string \<Rightarrow> string \<Rightarrow> string \<Rightarrow> string \<Rightarrow> new_user result" where
  "prepare_user K salt rnd name0 display0 grp pw =
     (let name = normalize_username name0; display = trim_space display0
      in if \<not> username_ok name then Err ''ErrInvalidInput''
         else if display = [] \<or> 100 < rune_count display then Err ''ErrInvalidInput''
         else if trim_space grp = [] then Err ''ErrInvalidInput''
         else case validated_password_hash K salt pw of
           Inl e \<Rightarrow> Inl e
         | Inr hash \<Rightarrow>
            (case rnd of None \<Rightarrow> Err ''ErrRandom''
             | Some raw \<Rightarrow> Inr \<lparr>nu_id = hex_encode raw, nu_name = name, nu_display = display,
                             nu_group = grp, nu_hash = hash\<rparr>))"

definition lift_result :: "'a result \<Rightarrow> 'a act" where
  "lift_result r = (case r of Inl e \<Rightarrow> raise (err_code e) | Inr x \<Rightarrow> ret x)"

definition create_initial_admin ::
  "kdf \<Rightarrow> collation \<Rightarrow> int \<Rightarrow> string option \<Rightarrow> string option \<Rightarrow> string \<Rightarrow> string \<Rightarrow> string \<Rightarrow> user_row act" where
  "create_initial_admin K k now salt rnd name display pw =
     andthen (lift_result (prepare_user K salt rnd name display group_super_admin pw))
     (store_create_initial_admin k now)"

definition create_user ::
  "kdf \<Rightarrow> collation \<Rightarrow> int \<Rightarrow> string option \<Rightarrow> string option \<Rightarrow> string \<Rightarrow> string \<Rightarrow> string \<Rightarrow> string \<Rightarrow> user_row act" where
  "create_user K k now salt rnd name display grp0 pw =
     (let grp = trim_space grp0
      in andthen (user_group_exists k grp) (\<lambda>known.
         andthen (guard known ''ErrInvalidInput'') (\<lambda>_.
         andthen (lift_result (prepare_user K salt rnd name display grp pw))
         (store_create_user k now))))"

section \<open>Sessions\<close>

record auth_options =
  ao_lifetime :: int
  ao_idle :: int

record session =
  se_hash :: string
  se_user :: user
  se_created :: int
  se_seen :: int
  se_expires :: int
  se_idle :: int
  se_method :: string
  se_credential :: string

definition min_time :: "int \<Rightarrow> int \<Rightarrow> int" where
  "min_time a b = (if a < b then a else b)"

definition truncate_runes :: "string \<Rightarrow> nat \<Rightarrow> string" where
  "truncate_runes s n = (if rune_count s \<le> n then s else concat (take n (runes s)))"

definition raise_after :: "'b act \<Rightarrow> string \<Rightarrow> 'a act" where
  "raise_after m c = (\<lambda>d w. case m d w of (_, d', w') \<Rightarrow> (Err c, d', w'))"

definition open_session ::
  "(string \<Rightarrow> string) \<Rightarrow> collation \<Rightarrow> auth_options \<Rightarrow> int \<Rightarrow> string option \<Rightarrow> user_row \<Rightarrow> string \<Rightarrow> string \<Rightarrow> string act" where
  "open_session H k opt now rnd u ip agent =
     andthen (need ''ErrRandom'' (new_session_token H rnd)) (\<lambda>(token, hash).
     let expires = now + ao_lifetime opt; idle = min_time (now + ao_idle opt) expires
     in andthen (create_session k \<lparr>sn_hash = hash, sn_user = us_id u, sn_created = now, sn_seen = now,
           sn_expires = expires, sn_idle = idle, sn_revoked = None, sn_ip = ip,
           sn_agent = truncate_runes agent 255\<rparr>) (\<lambda>_.
        andthen (on_error (raise_after (revoke_session_row now hash)) (mark_login k now (us_id u))) (\<lambda>_.
        ret token)))"

definition account_key :: "string \<Rightarrow> string" where
  "account_key name = ''account:'' @ name"

definition address_key :: "string \<Rightarrow> string" where
  "address_key ip = ''ip:'' @ ip"

definition limiter_keys :: "string \<Rightarrow> string \<Rightarrow> string list" where
  "limiter_keys name ip = [account_key name, address_key ip]"

definition login ::
  "kdf \<Rightarrow> (string \<Rightarrow> string) \<Rightarrow> collation \<Rightarrow> auth_options \<Rightarrow> int \<Rightarrow> string option \<Rightarrow>
   string \<Rightarrow> string \<Rightarrow> string \<Rightarrow> string \<Rightarrow> limiter \<Rightarrow> panel_db \<Rightarrow> outcome list \<Rightarrow>
   limiter \<times> (user \<times> string) result \<times> panel_db \<times> outcome list" where
  "login K H k opt now rnd name0 pw ip agent l d w =
     (let name = normalize_username name0; keys = limiter_keys name ip
      in if \<not> allowed l keys now then (l, Err ''ErrLoginLimited'', d, w)
         else case find_user_by_username k name d w of
           (Inl e, d1, w1) \<Rightarrow>
             (if err_code e \<noteq> ''ErrNotFound'' then (l, Inl e, d1, w1)
              else (failure keys now l, Err ''ErrInvalidCredentials'', d1, w1))
         | (Inr u, d1, w1) \<Rightarrow>
             (if \<not> verify_password K (us_hash u) pw \<or> us_status u \<noteq> user_active \<or> us_deleted u \<noteq> None
              then (failure keys now l, Err ''ErrInvalidCredentials'', d1, w1)
              else case open_session H k opt now rnd u ip agent d1 w1 of
                (Inl e, d2, w2) \<Rightarrow> (l, Inl e, d2, w2)
              | (Inr token, d2, w2) \<Rightarrow>
                 (success keys l,
                  andthen (decorate_user k now (u\<lparr>us_login := Some now\<rparr>)) (\<lambda>ur. ret (ur, token)) d2 w2)))"

definition login_or_initialize ::
  "kdf \<Rightarrow> (string \<Rightarrow> string) \<Rightarrow> collation \<Rightarrow> auth_options \<Rightarrow> int \<Rightarrow> string option \<Rightarrow> string option \<Rightarrow> string option \<Rightarrow>
   string \<Rightarrow> string \<Rightarrow> string \<Rightarrow> string \<Rightarrow> limiter \<Rightarrow> panel_db \<Rightarrow> outcome list \<Rightarrow>
   limiter \<times> (user \<times> string) result \<times> panel_db \<times> outcome list" where
  "login_or_initialize K H k opt now salt uid rnd name pw ip agent l d w =
     (case andthen has_users (\<lambda>some.
             if some then ret ()
             else on_error (\<lambda>c. if c = ''ErrConflict'' then ret () else raise c)
               (andthen (create_initial_admin K k now salt uid name (trim_space name) pw) (\<lambda>_. ret ()))) d w of
        (Inl e, d1, w1) \<Rightarrow> (l, Inl e, d1, w1)
      | (Inr _, d1, w1) \<Rightarrow> login K H k opt now rnd name pw ip agent l d1 w1)"

definition unauthenticated :: "string \<Rightarrow> 'a act" where
  "unauthenticated c = raise (if c = ''ErrNotFound'' then ''ErrUnauthenticated'' else c)"

definition authenticate ::
  "(string \<Rightarrow> string) \<Rightarrow> collation \<Rightarrow> auth_options \<Rightarrow> int \<Rightarrow> string \<Rightarrow> session act" where
  "authenticate H k opt now token =
     andthen (need ''ErrUnauthenticated'' (session_token_hash H token)) (\<lambda>hash.
     andthen (on_error unauthenticated (find_session k now hash)) (\<lambda>(s, u).
     let touch = (minutes 5 \<le> now - sn_seen s);
         idle = min_time (now + ao_idle opt) (sn_expires s)
     in andthen (when_do touch (touch_session hash now idle)) (\<lambda>_.
        andthen (decorate_user k now u) (\<lambda>ur.
        ret \<lparr>se_hash = sn_hash s, se_user = ur, se_created = sn_created s,
             se_seen = (if touch then now else sn_seen s), se_expires = sn_expires s,
             se_idle = (if touch then idle else sn_idle s), se_method = [], se_credential = []\<rparr>))))"

definition authenticate_api_key ::
  "(string \<Rightarrow> string) \<Rightarrow> collation \<Rightarrow> int \<Rightarrow> string \<Rightarrow> session act" where
  "authenticate_api_key H k now token0 =
     (let token = trim_space token0
      in andthen (need ''ErrUnauthenticated'' (api_key_token_hash H token)) (\<lambda>hash.
         andthen (on_error unauthenticated (find_api_key k hash)) (\<lambda>(r, u).
         andthen (touch_api_key k (ak_id r) now) (\<lambda>_.
         andthen (decorate_user k now u) (\<lambda>ur.
         ret \<lparr>se_hash = hash, se_user = ur, se_created = 0, se_seen = 0, se_expires = 0, se_idle = 0,
              se_method = ''api_key'', se_credential = ak_id r\<rparr>)))))"

definition logout :: "(string \<Rightarrow> string) \<Rightarrow> int \<Rightarrow> string \<Rightarrow> unit act" where
  "logout H now token = (case session_token_hash H token of
     None \<Rightarrow> ret () | Some hash \<Rightarrow> revoke_session_row now hash)"

definition create_api_key ::
  "(string \<Rightarrow> string) \<Rightarrow> collation \<Rightarrow> int \<Rightarrow> string option \<Rightarrow> string option \<Rightarrow> string \<Rightarrow> (key_row \<times> string) act" where
  "create_api_key H k now rnd kid i =
     andthen (need ''ErrRandom'' (new_api_key_token H rnd)) (\<lambda>(token, hash, pfx).
     andthen (store_create_api_key k kid i hash pfx now) (\<lambda>r. ret (r, token)))"

definition rotate_api_key ::
  "(string \<Rightarrow> string) \<Rightarrow> collation \<Rightarrow> int \<Rightarrow> string option \<Rightarrow> string option \<Rightarrow> string \<Rightarrow> (key_row \<times> string) act" where
  "rotate_api_key H k now rnd kid i =
     andthen (need ''ErrRandom'' (new_api_key_token H rnd)) (\<lambda>(token, hash, pfx).
     andthen (store_rotate_api_key k kid i hash pfx now) (\<lambda>r. ret (r, token)))"

definition revoke_api_key :: "collation \<Rightarrow> int \<Rightarrow> string \<Rightarrow> unit act" where
  "revoke_api_key k now i = store_revoke_api_key k now i"

definition change_password ::
  "kdf \<Rightarrow> collation \<Rightarrow> int \<Rightarrow> string option \<Rightarrow> session \<Rightarrow> string \<Rightarrow> string \<Rightarrow> unit act" where
  "change_password K k now salt s current new =
     andthen (guard (verify_password K (us_hash (ur_row (se_user s))) current) ''ErrInvalidCredentials'') (\<lambda>_.
     andthen (lift_result (validated_password_hash K salt new)) (\<lambda>hash.
     set_password k now (us_id (ur_row (se_user s))) hash (se_hash s)))"

definition reset_password ::
  "kdf \<Rightarrow> collation \<Rightarrow> int \<Rightarrow> string option \<Rightarrow> string \<Rightarrow> string \<Rightarrow> unit act" where
  "reset_password K k now salt i pw =
     andthen (lift_result (validated_password_hash K salt pw)) (\<lambda>hash. set_password k now i hash [])"

definition valid_status :: "string \<Rightarrow> bool" where
  "valid_status s \<longleftrightarrow> s = user_active \<or> s = user_disabled"

end
