(* ===== verification/PanelApi.thy ===== *)
theory PanelApi
  imports PanelAuth
begin

text \<open>
  The HTTP handlers of the panel that manage accounts: panel/internal/api/middleware.go,
  user_handlers.go, access_handlers.go, instance_scope.go, instance_admin_handlers.go and the error
  mapping of errors.go. A request is its method, path, query, credentials and decoded JSON body
  (\<open>None\<close>: the body cannot be read or decoded; absent fields are zero values, as
  \<open>json.Unmarshal\<close> leaves them). A handler is an action whose errors carry the code of the reply;
  audit rows and logging are left out.
\<close>

section \<open>Errors\<close>

definition public_error :: "string \<Rightarrow> string" where
  "public_error c =
     (if c = ''ErrInvalidCredentials'' then ''INVALID_CREDENTIALS''
      else if c = ''ErrLoginLimited'' then ''RATE_LIMITED''
      else if c = ''ErrUnauthenticated'' then ''UNAUTHENTICATED''
      else if c = ''ErrForbidden'' then ''FORBIDDEN''
      else if c = ''ErrInvalidInput'' then ''INVALID_REQUEST''
      else if c = ''ErrNotFound'' then ''NOT_FOUND''
      else if c = ''ErrConflict'' then ''CONFLICT''
      else if c = ''ErrLastSuperAdmin'' then ''LAST_SUPER_ADMIN''
      else if c = ''ErrProtected'' then ''PROTECTED''
      else if c = ''ErrInUse'' then ''RESOURCE_IN_USE''
      else c)"

definition public :: "'a act \<Rightarrow> 'a act" where
  "public m = on_error (\<lambda>c. raise (public_error c)) m"

text \<open>
  \<open>writeRequestError\<close>: what kind of error value reaches it, and the HTTP status it answers with.
\<close>

datatype api_error = PanelError string | DaemonError string | Disconnected | OtherError

definition panel_status :: "string \<Rightarrow> int" where
  "panel_status c =
     (if c = ''UNAUTHENTICATED'' then 401
      else if c = ''FORBIDDEN'' then 403
      else if c = ''NOT_FOUND'' then 404
      else if c \<in> set [''CONFLICT'', ''LAST_SUPER_ADMIN'', ''PROTECTED'', ''RESOURCE_IN_USE''] then 409
      else if c = ''RATE_LIMITED'' then 429
      else if c = ''NEEDS_VERIFICATION'' then 428
      else if c = ''INTERNAL'' then 500
      else if c = ''FEATURE_DISABLED'' then 404
      else if c = ''PLAYERDATA_UNAVAILABLE'' then 503
      else if c = ''PLAYERDATA_ERROR'' then 502
      else 400)"

definition daemon_status :: "string \<Rightarrow> int" where
  "daemon_status c =
     (if c \<in> set [''SERVER_NOT_FOUND'', ''INSTANCE_NOT_FOUND'', ''FILE_NOT_FOUND''] then 404
      else if c \<in> set [''INSTANCE_BUSY'', ''PORT_CONFLICT'', ''SERVER_ID_CONFLICT'',
        ''DEPLOYMENT_ALREADY_RUNNING'', ''FILE_EXISTS'', ''FILE_CHANGED'', ''PLUGIN_EXISTS'',
        ''PLUGIN_NAME_CONFLICT'', ''PLUGIN_FILE_CONFLICT'', ''FIREWALL_REVISION_CONFLICT'',
        ''FIREWALL_RULE_CONFLICT'', ''FIREWALL_DRIFT'', ''FIREWALL_LOCKOUT_RISK''] then 409
      else if c = ''FIREWALL_RULE_NOT_FOUND'' then 404
      else if c \<in> set [''PERMISSION_DENIED'', ''PATH_ESCAPE''] then 403
      else if c = ''FIREWALL_UNSUPPORTED'' then 422
      else if c \<in> set [''FIREWALL_APPLY_FAILED'', ''FIREWALL_INSPECT_FAILED''] then 502
      else if c = ''FILE_TOO_LARGE'' then 413
      else if c = ''TOO_MANY_REQUESTS'' then 429
      else if c \<in> set [''INTERNAL'', ''CONFIG_WRITE_FAILED''] then 500
      else 400)"

fun write_request_error :: "api_error \<Rightarrow> int \<times> string" where
  "write_request_error (PanelError c) = (panel_status c, c)"
| "write_request_error Disconnected = (503, ''DAEMON_UNAVAILABLE'')"
| "write_request_error (DaemonError c) = (daemon_status c, c)"
| "write_request_error OtherError = (500, ''INTERNAL'')"

definition error_code :: "api_error option \<Rightarrow> string" where
  "error_code e = (case e of None \<Rightarrow> [] | Some (PanelError c) \<Rightarrow> c | Some _ \<Rightarrow> ''INTERNAL'')"

section \<open>Requests\<close>

record body =
  in_username :: string
  in_display :: string
  in_group :: string
  in_password :: string
  in_status :: string
  in_permissions :: "string list"
  in_users :: "string list"
  in_name :: string
  in_desc :: string

record request =
  rq_method :: string
  rq_path :: string
  rq_query :: "string \<Rightarrow> string"
  rq_cookie :: "string option"
  rq_api_key :: string
  rq_body :: "body option"

datatype reply =
    ReplyUser user
  | ReplyUsers "user list" nat
  | ReplyKey key_row
  | ReplyNewKey key_row string
  | ReplyProfile string "permission_item list"
  | ReplyGroup user_group
  | ReplyGroups "user_group list"
  | ReplyAdmins "(admin_row \<times> user_row) list"
  | ReplyNone

definition read_body :: "request \<Rightarrow> body act" where
  "read_body r = need ''ErrBody'' (rq_body r)"

section \<open>Middleware\<close>

definition require_auth ::
  "(string \<Rightarrow> string) \<Rightarrow> collation \<Rightarrow> auth_options \<Rightarrow> int \<Rightarrow> request \<Rightarrow> session act" where
  "require_auth H k opt now r =
     (case rq_cookie r of
        Some c \<Rightarrow>
          (if c \<noteq> [] then public (authenticate H k opt now c)
           else if trim_space (rq_api_key r) = [] then raise ''UNAUTHENTICATED''
           else public (authenticate_api_key H k now (trim_space (rq_api_key r))))
      | None \<Rightarrow>
          (if trim_space (rq_api_key r) = [] then raise ''UNAUTHENTICATED''
           else public (authenticate_api_key H k now (trim_space (rq_api_key r)))))"

definition is_super_admin :: "user \<Rightarrow> bool" where
  "is_super_admin u \<longleftrightarrow> us_group (ur_row u) = group_super_admin"

definition require_super_admin :: "user \<Rightarrow> unit act" where
  "require_super_admin actor = guard (is_super_admin actor) ''FORBIDDEN''"

definition authorize :: "collation \<Rightarrow> user \<Rightarrow> string \<Rightarrow> unit act" where
  "authorize k actor p = andthen (can k (ur_row actor) p) (\<lambda>ok. guard ok ''FORBIDDEN'')"

fun authorize_any :: "collation \<Rightarrow> user \<Rightarrow> string list \<Rightarrow> unit act" where
  "authorize_any k actor [] = raise ''FORBIDDEN''"
| "authorize_any k actor (p # ps) =
     andthen (can k (ur_row actor) p) (\<lambda>ok. if ok then ret () else authorize_any k actor ps)"

text \<open>\<open>checkOrigin\<close>: \<open>host_of\<close> is \<open>url.Parse(origin).Host\<close>, \<open>None\<close> when it does not parse.\<close>

definition check_origin :: "(string \<Rightarrow> string option) \<Rightarrow> string \<Rightarrow> string \<Rightarrow> string \<Rightarrow> bool" where
  "check_origin host_of meth origin host \<longleftrightarrow>
     meth \<in> set [''GET'', ''HEAD'', ''OPTIONS''] \<or> origin = [] \<or>
     (case host_of origin of None \<Rightarrow> False | Some h \<Rightarrow> to_lower h = to_lower host)"

section \<open>Instance scope\<close>

definition authorize_instance ::
  "collation \<Rightarrow> user \<Rightarrow> request \<Rightarrow> string \<Rightarrow> string \<Rightarrow> unit act" where
  "authorize_instance k actor r p inst =
     on_error (\<lambda>_. let node = trim_space (rq_query r ''node_id'') in
        andthen (guard (node \<noteq> [] \<and> inst \<noteq> []) ''FORBIDDEN'') (\<lambda>_.
        andthen (can_instance k (ur_row actor) p node inst) (\<lambda>ok. guard ok ''FORBIDDEN'')))
     (authorize k actor p)"

definition authorize_file_scope ::
  "collation \<Rightarrow> user \<Rightarrow> string \<Rightarrow> string \<Rightarrow> string \<Rightarrow> string \<Rightarrow> unit act" where
  "authorize_file_scope k actor p node0 kind res =
     on_error (\<lambda>_. let node = trim_space node0 in
        andthen (guard (kind = ''instance'' \<and> res \<noteq> []) ''FORBIDDEN'') (\<lambda>_.
        andthen (guard (node \<noteq> []) ''FORBIDDEN'') (\<lambda>_.
        andthen (can_instance k (ur_row actor) p node res) (\<lambda>ok. guard ok ''FORBIDDEN''))))
     (authorize k actor p)"

section \<open>Who may manage whom\<close>

fun contains_all :: "string list \<Rightarrow> string list \<Rightarrow> bool" where
  "contains_all avail [] = True"
| "contains_all avail (p # ps) = (p \<in> set avail \<and> contains_all avail ps)"

definition permission_set_contains :: "string list \<Rightarrow> string list \<Rightarrow> bool" where
  "permission_set_contains available required \<longleftrightarrow>
     ''*'' \<in> set available \<or> contains_all available required"

definition manageable_user :: "collation \<Rightarrow> int \<Rightarrow> user \<Rightarrow> string \<Rightarrow> user act" where
  "manageable_user k now actor i =
     andthen (public (get_user k i)) (\<lambda>row.
     andthen (decorate_user k now row) (\<lambda>target.
     if is_super_admin actor then ret target
     else if is_super_admin target \<or> \<not> permission_set_contains (ur_permissions actor) (ur_permissions target)
     then raise ''FORBIDDEN'' else ret target))"

definition authorize_group_assignment :: "collation \<Rightarrow> user \<Rightarrow> string \<Rightarrow> unit act" where
  "authorize_group_assignment k actor grp =
     andthen (public (get_user_group k (trim_space grp))) (\<lambda>g.
     if is_super_admin actor then ret ()
     else if gp_code (ug_row g) = group_super_admin \<or>
             \<not> permission_set_contains (ur_permissions actor) (ug_permissions g)
     then raise ''FORBIDDEN'' else ret ())"

definition authorize_api_key_management :: "collation \<Rightarrow> int \<Rightarrow> user \<Rightarrow> string \<Rightarrow> unit act" where
  "authorize_api_key_management k now actor i =
     andthen (guard (is_super_admin actor \<or> us_group (ur_row actor) = group_admin) ''FORBIDDEN'') (\<lambda>_.
     andthen (manageable_user k now actor i) (\<lambda>_. ret ()))"

section \<open>Users\<close>

definition query_int :: "request \<Rightarrow> string \<Rightarrow> int \<Rightarrow> int" where
  "query_int r name fallback = (case atoi (rq_query r name) of None \<Rightarrow> fallback | Some n \<Rightarrow> n)"

fun decorate_all :: "collation \<Rightarrow> int \<Rightarrow> user_row list \<Rightarrow> user list act" where
  "decorate_all k now [] = ret []"
| "decorate_all k now (u # us) =
     andthen (decorate_user k now u) (\<lambda>ur. andthen (decorate_all k now us) (\<lambda>rest. ret (ur # rest)))"

definition list_users_handler :: "collation \<Rightarrow> int \<Rightarrow> request \<Rightarrow> reply act" where
  "list_users_handler k now r =
     (let page0 = query_int r ''page'' 1; size0 = query_int r ''page_size'' 20;
          page = (if page0 < 1 then 1 else page0);
          size = (if size0 < 1 \<or> 100 < size0 then 20 else size0);
          status = rq_query r ''status''
      in andthen (guard (status = [] \<or> valid_status status) ''INVALID_REQUEST'') (\<lambda>_.
         andthen (list_users k \<lparr>uf_search = trim_space (rq_query r ''search''), uf_status = status,
                                uf_page = page, uf_size = size\<rparr>) (\<lambda>(rows, total).
         andthen (decorate_all k now rows) (\<lambda>us. ret (ReplyUsers us total)))))"

text \<open>The random values a handler draws: the salt of a password, an identifier, a token.\<close>

record entropy =
  en_salt :: "string option"
  en_id :: "string option"
  en_token :: "string option"

definition create_user_handler ::
  "kdf \<Rightarrow> collation \<Rightarrow> int \<Rightarrow> entropy \<Rightarrow> user \<Rightarrow> request \<Rightarrow> reply act" where
  "create_user_handler K k now en actor r =
     andthen (public
       (andthen (read_body r) (\<lambda>b.
        andthen (authorize_group_assignment k actor (in_group b)) (\<lambda>_.
        create_user K k now (en_salt en) (en_id en) (in_username b) (in_display b) (in_group b)
          (in_password b))))) (\<lambda>row.
     andthen (decorate_user k now row) (\<lambda>u. ret (ReplyUser u)))"

definition update_user_handler :: "collation \<Rightarrow> int \<Rightarrow> user \<Rightarrow> request \<Rightarrow> string \<Rightarrow> reply act" where
  "update_user_handler k now actor r i =
     andthen (public
       (andthen (read_body r) (\<lambda>b.
        let display = trim_space (in_display b); grp = trim_space (in_group b); status = in_status b
        in andthen (guard (display \<noteq> [] \<and> rune_count display \<le> 100) ''INVALID_REQUEST'') (\<lambda>_.
           andthen (guard (valid_status status) ''INVALID_REQUEST'') (\<lambda>_.
           andthen (manageable_user k now actor i) (\<lambda>current.
           andthen (when_do (us_group (ur_row current) \<noteq> grp) (authorize_group_assignment k actor grp)) (\<lambda>_.
           andthen (guard (us_id (ur_row current) \<noteq> us_id (ur_row actor) \<or> status = user_active) ''FORBIDDEN'') (\<lambda>_.
           update_user k now i \<lparr>uc_display = display, uc_group = grp, uc_status = status\<rparr>)))))))) (\<lambda>row.
     andthen (decorate_user k now row) (\<lambda>u. ret (ReplyUser u)))"

definition delete_user_handler :: "collation \<Rightarrow> int \<Rightarrow> user \<Rightarrow> string \<Rightarrow> reply act" where
  "delete_user_handler k now actor i =
     public
       (andthen (guard (i \<noteq> us_id (ur_row actor)) ''FORBIDDEN'') (\<lambda>_.
        andthen (manageable_user k now actor i) (\<lambda>_.
        andthen (delete_user k now i) (\<lambda>_. ret ReplyNone))))"

definition user_permissions_handler :: "collation \<Rightarrow> int \<Rightarrow> user \<Rightarrow> request \<Rightarrow> string \<Rightarrow> reply act" where
  "user_permissions_handler k now actor r i =
     andthen (require_super_admin actor) (\<lambda>_.
     if rq_method r = ''GET'' then
       public (andthen (user_permission_profile k i) (\<lambda>(g, items). ret (ReplyProfile g items)))
     else if rq_method r = ''PUT'' then
       public (andthen (read_body r) (\<lambda>b.
               andthen (set_user_permissions k now i (in_permissions b)) (\<lambda>(g, items).
               ret (ReplyProfile g items))))
     else raise ''METHOD_NOT_ALLOWED'')"

definition user_action_handler ::
  "kdf \<Rightarrow> collation \<Rightarrow> int \<Rightarrow> entropy \<Rightarrow> user \<Rightarrow> request \<Rightarrow> string \<Rightarrow> string \<Rightarrow> reply act" where
  "user_action_handler K k now en actor r i action =
     (if action = ''permissions'' then user_permissions_handler k now actor r i
      else if rq_method r \<noteq> ''POST'' then raise ''METHOD_NOT_ALLOWED''
      else if action = ''reset-password'' then
        andthen (authorize k actor ''user.password.reset'') (\<lambda>_.
        andthen (manageable_user k now actor i) (\<lambda>_.
        public (andthen (read_body r) (\<lambda>b.
                andthen (reset_password K k now (en_salt en) i (in_password b)) (\<lambda>_. ret ReplyNone)))))
      else if action = ''revoke-sessions'' then
        andthen (authorize k actor ''user.sessions.revoke'') (\<lambda>_.
        andthen (manageable_user k now actor i) (\<lambda>_.
        public (andthen (revoke_user_sessions k now i) (\<lambda>_. ret ReplyNone))))
      else raise ''HTTP_NOT_FOUND'')"

definition user_api_key_handler ::
  "(string \<Rightarrow> string) \<Rightarrow> collation \<Rightarrow> int \<Rightarrow> entropy \<Rightarrow> user \<Rightarrow> request \<Rightarrow> string \<Rightarrow> bool \<Rightarrow> reply act" where
  "user_api_key_handler H k now en actor r i renew =
     andthen (authorize_api_key_management k now actor i) (\<lambda>_.
     if rq_method r = ''GET'' then
       (if renew then raise ''METHOD_NOT_ALLOWED''
        else public (andthen (get_api_key k i) (\<lambda>key. ret (ReplyKey key))))
     else if rq_method r = ''POST'' then
       public (andthen (if renew then rotate_api_key H k now (en_token en) (en_id en) i
                        else create_api_key H k now (en_token en) (en_id en) i)
               (\<lambda>(key, token). ret (ReplyNewKey key token)))
     else if rq_method r = ''DELETE'' then
       (if renew then raise ''METHOD_NOT_ALLOWED''
        else public (andthen (revoke_api_key k now i) (\<lambda>_. ret ReplyNone)))
     else raise ''METHOD_NOT_ALLOWED'')"

definition users_handler :: "kdf \<Rightarrow> collation \<Rightarrow> int \<Rightarrow> entropy \<Rightarrow> user \<Rightarrow> request \<Rightarrow> reply act" where
  "users_handler K k now en actor r =
     (if rq_method r = ''GET'' then
        andthen (authorize_any k actor [''user.view'', ''server.configure'']) (\<lambda>_. list_users_handler k now r)
      else if rq_method r = ''POST'' then
        andthen (authorize k actor ''user.create'') (\<lambda>_. create_user_handler K k now en actor r)
      else raise ''METHOD_NOT_ALLOWED'')"

definition trim_slashes :: "string \<Rightarrow> string" where
  "trim_slashes s = rev (dropWhile (\<lambda>c. c = CHR ''/'') (rev (dropWhile (\<lambda>c. c = CHR ''/'') s)))"

definition user_handler ::
  "kdf \<Rightarrow> (string \<Rightarrow> string) \<Rightarrow> collation \<Rightarrow> int \<Rightarrow> entropy \<Rightarrow> user \<Rightarrow> request \<Rightarrow> reply act" where
  "user_handler K H k now en actor r =
     (case split_on (CHR ''/'') (trim_slashes (trim_prefix (rq_path r) ''/api/v1/users/'')) of
        [i] \<Rightarrow>
          (if i = [] then raise ''HTTP_NOT_FOUND''
           else if rq_method r = ''GET'' then
             andthen (authorize k actor ''user.view'') (\<lambda>_.
             public (andthen (get_user k i) (\<lambda>row.
                     andthen (decorate_user k now row) (\<lambda>u. ret (ReplyUser u)))))
           else if rq_method r = ''PUT'' then
             andthen (authorize k actor ''user.update'') (\<lambda>_. update_user_handler k now actor r i)
           else if rq_method r = ''DELETE'' then
             andthen (authorize k actor ''user.delete'') (\<lambda>_. delete_user_handler k now actor i)
           else raise ''METHOD_NOT_ALLOWED'')
      | [i, action] \<Rightarrow>
          (if i = [] then raise ''HTTP_NOT_FOUND''
           else if action = ''api-key'' then user_api_key_handler H k now en actor r i False
           else user_action_handler K k now en actor r i action)
      | [i, a, b] \<Rightarrow>
          (if i \<noteq> [] \<and> a = ''api-key'' \<and> b = ''rotate'' then user_api_key_handler H k now en actor r i True
           else raise ''HTTP_NOT_FOUND'')
      | _ \<Rightarrow> raise ''HTTP_NOT_FOUND'')"

section \<open>Groups\<close>

definition read_user_group_input :: "request \<Rightarrow> (string \<times> string \<times> string list) act" where
  "read_user_group_input r =
     (case rq_body r of
        None \<Rightarrow> raise ''INVALID_REQUEST''
      | Some b \<Rightarrow>
         (let name = trim_space (in_name b); desc = trim_space (in_desc b)
          in andthen (guard (name \<noteq> [] \<and> rune_count name \<le> 100 \<and> rune_count desc \<le> 500) ''INVALID_REQUEST'') (\<lambda>_.
             andthen (guard (list_all valid_permission (in_permissions b)) ''INVALID_REQUEST'') (\<lambda>_.
             ret (name, desc, filter (\<lambda>c. c \<in> set (in_permissions b)) permission_codes)))))"

definition user_groups_handler :: "collation \<Rightarrow> int \<Rightarrow> entropy \<Rightarrow> user \<Rightarrow> request \<Rightarrow> reply act" where
  "user_groups_handler k now en actor r =
     (if rq_method r = ''GET'' then
        andthen (authorize_any k actor [''user.view'', ''user.create'', ''user.update'']) (\<lambda>_.
        andthen (list_user_groups k) (\<lambda>gs. ret (ReplyGroups gs)))
      else if rq_method r = ''POST'' then
        andthen (require_super_admin actor) (\<lambda>_.
        public (andthen (read_user_group_input r) (\<lambda>(name, desc, ps).
                andthen (create_user_group k now (en_id en) name desc ps) (\<lambda>g. ret (ReplyGroup g)))))
      else raise ''METHOD_NOT_ALLOWED'')"

definition user_group_handler :: "collation \<Rightarrow> int \<Rightarrow> user \<Rightarrow> request \<Rightarrow> reply act" where
  "user_group_handler k now actor r =
     (let code = trim_slashes (trim_prefix (rq_path r) ''/api/v1/user-groups/'')
      in if code = [] \<or> CHR ''/'' \<in> set code then raise ''HTTP_NOT_FOUND''
         else if rq_method r = ''GET'' then
           andthen (authorize_any k actor [''user.view'', ''user.create'', ''user.update'']) (\<lambda>_.
           public (andthen (get_user_group k code) (\<lambda>g. ret (ReplyGroup g))))
         else if rq_method r = ''PUT'' then
           andthen (require_super_admin actor) (\<lambda>_.
           public (andthen (read_user_group_input r) (\<lambda>(name, desc, ps).
                   andthen (update_user_group k now code name desc ps) (\<lambda>g. ret (ReplyGroup g)))))
         else if rq_method r = ''DELETE'' then
           andthen (require_super_admin actor) (\<lambda>_.
           public (andthen (delete_user_group k code) (\<lambda>_. ret ReplyNone)))
         else raise ''METHOD_NOT_ALLOWED'')"

section \<open>Instance administrators\<close>

text \<open>\<open>listed\<close> is the daemon's answer to \<open>server.list\<close>: the ids of its instances, or an error.\<close>

definition ensure_instance_exists :: "string list result \<Rightarrow> string \<Rightarrow> unit act" where
  "ensure_instance_exists listed inst =
     andthen (lift_result listed) (\<lambda>ids. guard (list_ex (\<lambda>x. x = inst) ids) ''NOT_FOUND'')"

definition instance_admins_handler ::
  "collation \<Rightarrow> int \<Rightarrow> user \<Rightarrow> string list result \<Rightarrow> request \<Rightarrow> string \<Rightarrow> reply act" where
  "instance_admins_handler k now actor listed r inst =
     andthen (authorize k actor ''server.configure'') (\<lambda>_.
     let node = trim_space (rq_query r ''node_id'')
     in andthen (guard (node \<noteq> [] \<and> inst \<noteq> []) ''INVALID_REQUEST'') (\<lambda>_.
        andthen (ensure_instance_exists listed inst) (\<lambda>_.
        if rq_method r = ''GET'' then
          andthen (list_instance_admins k node inst) (\<lambda>as. ret (ReplyAdmins as))
        else if rq_method r = ''PUT'' then
          public (andthen (read_body r) (\<lambda>b.
                  andthen (guard (length (in_users b) \<le> 100) ''INVALID_REQUEST'') (\<lambda>_.
                  andthen (set_instance_admins k now node inst (in_users b)) (\<lambda>as. ret (ReplyAdmins as)))))
        else raise ''METHOD_NOT_ALLOWED'')))"

end
