(* ===== verification/PanelStore.thy ===== *)
theory PanelStore
  imports PanelAccess
begin

text \<open>
  The store of the panel as a machine: every operation of panel/internal/store that changes the
  tables of the accounts is one step, with the clock it reads and the outcomes of its statements.
  Transactions of different requests are serial (the code locks the rows it decides on with
  \<open>FOR UPDATE\<close>, and InnoDB serialises transactions that conflict). Three invariants are kept by every run:

  \<^item> the permission tables hold catalogue codes, at most one override per user and permission;
  \<^item> a session that is revoked stays so, whatever happens to it;
  \<^item> there is an active super administrator, as long as requests spell identifiers and group codes
    as they are stored.
\<close>

section \<open>The seeded tables\<close>

text \<open>\<open>initializeSchema\<close> runs at every start: \<open>INSERT IGNORE\<close> adds the rows that are missing.\<close>

definition seed_groups :: "(string \<times> int) list" where
  "seed_groups = [(''super_admin'', 10), (''admin'', 20), (''operator'', 30), (''observer'', 40)]"

definition seed_permissions :: "(string \<times> string list) list" where
  "seed_permissions =
     [(''admin'', [''dashboard.view'', ''node.view'', ''node.create'', ''node.update'',
        ''node.delete'', ''node.terminal'', ''server.view'', ''server.create'',
        ''server.configure'', ''server.deploy'', ''server.delete'', ''instance.start'',
        ''instance.stop'', ''instance.restart'', ''instance.kill'', ''console.read'',
        ''console.command'', ''file.read'', ''file.write'', ''file.delete'', ''player.view'',
        ''player.kick'', ''player.message'', ''player.transfer'', ''player.whitelist.manage'',
        ''mail.send'', ''plugin.view'', ''plugin.upload'', ''plugin.deploy'',
        ''plugin.remove'', ''firewall.view'', ''firewall.manage'', ''task.view'',
        ''task.cancel'', ''task.retry'', ''schedule.view'', ''schedule.manage'',
        ''alert.view'', ''alert.acknowledge'', ''audit.view'', ''user.view'', ''user.create'',
        ''user.update'', ''user.delete'', ''user.password.reset'', ''user.sessions.revoke'']),
      (''operator'', [''dashboard.view'', ''node.view'', ''server.view'', ''server.deploy'',
        ''instance.start'', ''instance.stop'', ''instance.restart'', ''instance.kill'',
        ''console.read'', ''console.command'', ''file.read'', ''file.write'', ''file.delete'',
        ''player.view'', ''player.kick'', ''player.message'', ''player.transfer'',
        ''player.whitelist.manage'', ''plugin.view'', ''plugin.deploy'', ''task.view'',
        ''alert.view'', ''schedule.view'', ''schedule.manage'']),
      (''observer'', [''dashboard.view'', ''node.view'', ''server.view'', ''console.read'',
        ''file.read'', ''player.view'', ''plugin.view'', ''firewall.view'', ''task.view'',
        ''schedule.view'', ''alert.view''])]"

definition seed_perm_rows :: "(string \<times> string) list" where
  "seed_perm_rows = concat (map (\<lambda>(g, ps). map (Pair g) ps) seed_permissions)"

fun insert_ignore :: "('r \<Rightarrow> 'r \<Rightarrow> bool) \<Rightarrow> 'r list \<Rightarrow> 'r list \<Rightarrow> 'r list" where
  "insert_ignore same [] rs = rs"
| "insert_ignore same (x # xs) rs =
     insert_ignore same xs (if list_ex (same x) rs then rs else rs @ [x])"

definition seed_group_row :: "(string \<Rightarrow> string \<times> string) \<Rightarrow> int \<Rightarrow> string \<times> int \<Rightarrow> group_row" where
  "seed_group_row names now g = \<lparr>gp_code = fst g, gp_name = fst (names (fst g)),
     gp_desc = snd (names (fst g)), gp_order = snd g, gp_builtin = True,
     gp_created = now, gp_updated = now\<rparr>"

definition initialize_schema :: "collation \<Rightarrow> (string \<Rightarrow> string \<times> string) \<Rightarrow> int \<Rightarrow> unit act" where
  "initialize_schema k names now =
     andthen (exec (\<lambda>d. d\<lparr>db_groups := insert_ignore
        (\<lambda>x y. aeq k (gp_code x) (gp_code y) \<or> k_text k (gp_name x) = k_text k (gp_name y))
        (map (seed_group_row names now) seed_groups) (db_groups d)\<rparr>)) (\<lambda>_.
     exec (\<lambda>d. d\<lparr>db_perms := insert_ignore (\<lambda>x y. aeq k (fst x) (fst y) \<and> aeq k (snd x) (snd y))
        seed_perm_rows (db_perms d)\<rparr>))"

section \<open>The machine\<close>

datatype store_op =
    OpSchema "string \<Rightarrow> string \<times> string"
  | OpInitialAdmin new_user
  | OpCreateUser new_user
  | OpUpdateUser string user_changes
  | OpDeleteUser string
  | OpSetPassword string string string
  | OpRevokeUserSessions string
  | OpMarkLogin string
  | OpCreateSession session_row
  | OpTouchSession string int int
  | OpRevokeSession string
  | OpSaveKey "string option" string string string bool
  | OpTouchKey string
  | OpRevokeKey string
  | OpSetAdmins string string "string list"
  | OpSaveGroup string string string "string list" bool
  | OpDeleteGroup string
  | OpSetPermissions string "string list"

fun op_act :: "collation \<Rightarrow> int \<Rightarrow> store_op \<Rightarrow> unit act" where
  "op_act k now (OpSchema names) = initialize_schema k names now"
| "op_act k now (OpInitialAdmin n) = discard (store_create_initial_admin k now n)"
| "op_act k now (OpCreateUser n) = discard (store_create_user k now n)"
| "op_act k now (OpUpdateUser i c) = discard (update_user k now i c)"
| "op_act k now (OpDeleteUser i) = delete_user k now i"
| "op_act k now (OpSetPassword i hash keep) = set_password k now i hash keep"
| "op_act k now (OpRevokeUserSessions i) = revoke_user_sessions k now i"
| "op_act k now (OpMarkLogin i) = mark_login k now i"
| "op_act k now (OpCreateSession s) = create_session k s"
| "op_act k now (OpTouchSession hash seen idle) = touch_session hash seen idle"
| "op_act k now (OpRevokeSession hash) = revoke_session_row now hash"
| "op_act k now (OpSaveKey rnd i hash pfx replace) = discard (save_api_key k rnd i hash pfx now replace)"
| "op_act k now (OpTouchKey kid) = touch_api_key k kid now"
| "op_act k now (OpRevokeKey i) = store_revoke_api_key k now i"
| "op_act k now (OpSetAdmins node inst users) = discard (set_instance_admins k now node inst users)"
| "op_act k now (OpSaveGroup code name desc ps new) = discard (save_user_group k now code name desc ps new)"
| "op_act k now (OpDeleteGroup code) = delete_user_group k code"
| "op_act k now (OpSetPermissions i desired) = discard (set_user_permissions k now i desired)"

type_synonym store_call = "int \<times> store_op \<times> outcome list"

definition store_step :: "collation \<Rightarrow> panel_db \<Rightarrow> store_call \<Rightarrow> panel_db" where
  "store_step k d c = (case c of (now, x, w) \<Rightarrow> fst (snd (op_act k now x d w)))"

section \<open>Reading operations\<close>

named_theorems act_defs \<open>operations unfolded into statements\<close>

lemma reads_get_user: "reads (get_user k i)"
  unfolding get_user_def by (intro readonly.keep_intros)

lemma reads_find_user: "reads (find_user_by_username k name)"
  unfolding find_user_by_username_def by (intro readonly.keep_intros)

lemma reads_group_permission_set: "reads (group_permission_set k code)"
  unfolding group_permission_set_def by (intro readonly.keep_intros)

lemma reads_group_permissions_of: "reads (group_permissions_of k code)"
  unfolding group_permissions_of_def
  by (auto intro!: readonly.keep_intros reads_group_permission_set)

lemma reads_get_user_group: "reads (get_user_group k code)"
  unfolding get_user_group_def
  by (auto intro!: readonly.keep_intros reads_group_permissions_of split: prod.splits)

lemma reads_effective_permissions: "reads (effective_permissions k i code)"
  unfolding effective_permissions_def
  by (auto intro!: readonly.keep_intros reads_group_permission_set)

lemma reads_profile: "reads (user_permission_profile k i)"
  unfolding user_permission_profile_def
  by (auto intro!: readonly.keep_intros reads_get_user reads_get_user_group reads_effective_permissions)

lemma reads_can: "reads (can k u p)"
  unfolding can_def by (auto intro!: readonly.keep_intros split: option.splits)

lemma reads_is_instance_admin: "reads (is_instance_admin k node inst i)"
  unfolding is_instance_admin_def by (intro readonly.keep_intros)

lemma reads_can_instance: "reads (can_instance k u p node inst)"
  unfolding can_instance_def
  by (auto intro!: readonly.keep_intros reads_can reads_is_instance_admin)

lemma reads_decorate_user: "reads (decorate_user k now u)"
  unfolding decorate_user_def
  by (auto intro!: readonly.keep_intros reads_get_user_group reads_effective_permissions)

lemma reads_list_instance_admins: "reads (list_instance_admins k node inst)"
  unfolding list_instance_admins_def by (intro readonly.keep_intros)

lemma reads_get_api_key: "reads (get_api_key k i)"
  unfolding get_api_key_def by (intro readonly.keep_intros)

lemma reads_require_active: "reads (require_active k i)"
  unfolding require_active_def by (intro readonly.keep_intros)

lemma reads_ensure_another: "reads (ensure_another_super_admin k i)"
  unfolding ensure_another_super_admin_def by (intro readonly.keep_intros)

lemma reads_validate_group_permissions: "reads (validate_group_permissions code ps)"
  unfolding validate_group_permissions_def by (intro readonly.keep_intros)

lemmas reads_intros = readonly.keep_intros reads_get_user reads_find_user reads_group_permission_set
  reads_get_user_group reads_effective_permissions reads_profile reads_can reads_can_instance
  reads_decorate_user reads_list_instance_admins reads_get_api_key reads_require_active
  reads_ensure_another reads_validate_group_permissions

lemma get_user_dest:
  assumes "yields (get_user k i) d w u d' w'"
  shows "d' = d \<and> u \<in> set (db_users d) \<and> by_id k i u"
proof -
  from assms obtain d1 w1 where f: "find (by_id k i) (db_users d) = Some u"
    unfolding get_user_def by (auto simp: act_simps dest!: query_yields)
  then show ?thesis
    using reads_yields [OF reads_get_user assms] by (auto simp: find_Some_iff)
qed

lemma ensure_another_dest:
  assumes "yields (ensure_another_super_admin k i) d w x d' w'"
  shows "d' = d \<and> other_super_admins k i d \<noteq> []"
proof -
  from assms have "other_super_admins k i d \<noteq> []"
    unfolding ensure_another_super_admin_def by (auto simp: act_simps dest!: query_yields)
  then show ?thesis using reads_yields [OF reads_ensure_another assms] by simp
qed

end
