(* ===== verification/PanelStore_Laws.thy ===== *)
theory PanelStore_Laws
  imports PanelStore
begin

text \<open>
  The invariants of the account tables. Each is a relation between the tables before and after
  (\<open>inv d \<longrightarrow> inv d'\<close>), an instance of the locale \<open>preserved\<close>; a statement is checked against it
  once, and the locale carries it through the operations and their error paths.
\<close>

section \<open>Every operation, statement by statement\<close>

lemmas op_defs = discard_def initialize_schema_def store_create_initial_admin_def store_create_user_def
  insert_user_def update_user_def delete_user_def set_password_def revoke_user_sessions_def
  mark_login_def create_session_def touch_session_def revoke_session_row_def save_api_key_def
  touch_api_key_def store_revoke_api_key_def set_instance_admins_def insert_admin_def
  save_user_group_def insert_group_def touch_group_def insert_group_permission_def
  delete_user_group_def set_user_permissions_def insert_override_def

text \<open>The statements of the operations that write.\<close>

locale statements = preserved P for P :: "panel_db \<Rightarrow> panel_db \<Rightarrow> bool" +
  fixes k :: collation
  assumes on_groups: "P d (d\<lparr>db_groups := gs\<rparr>)"
    and on_keys: "P d (d\<lparr>db_keys := ks\<rparr>)"
    and on_admins: "P d (d\<lparr>db_admins := as\<rparr>)"
    and on_perms_less: "set ps \<subseteq> set (db_perms d) \<Longrightarrow> P d (d\<lparr>db_perms := ps\<rparr>)"
    and on_perms_more: "valid_permission p \<Longrightarrow> P d (d\<lparr>db_perms := (g, p) # db_perms d\<rparr>)"
    and on_perms_seed: "P d (d\<lparr>db_perms := insert_ignore (\<lambda>x y. aeq k (fst x) (fst y) \<and> aeq k (snd x) (snd y))
                                           seed_perm_rows (db_perms d)\<rparr>)"
    and on_overrides_less: "P d (d\<lparr>db_overrides := filter Q (db_overrides d)\<rparr>)"
    and on_overrides_more: "valid_permission (ov_perm r) \<Longrightarrow>
      \<not> list_ex (\<lambda>x. aeq k (ov_user x) (ov_user r) \<and> aeq k (ov_perm x) (ov_perm r)) (db_overrides d) \<Longrightarrow>
      P d (d\<lparr>db_overrides := r # db_overrides d\<rparr>)"
    and on_sessions_new: "\<not> list_ex (\<lambda>r. sn_hash r = sn_hash s) (db_sessions d) \<Longrightarrow>
      P d (d\<lparr>db_sessions := s # db_sessions d\<rparr>)"
    and on_sessions_revoke: "P d (d\<lparr>db_sessions := update_rows R (\<lambda>s. s\<lparr>sn_revoked := Some now\<rparr>) (db_sessions d)\<rparr>)"
    and on_sessions_touch: "P d (d\<lparr>db_sessions := update_rows (\<lambda>s. S s \<and> sn_revoked s = None)
      (\<lambda>s. s\<lparr>sn_seen := seen, sn_idle := idle\<rparr>) (db_sessions d)\<rparr>)"
    and on_users_quiet: "(\<And>u. us_id (f u) = us_id u \<and> us_group (f u) = us_group u \<and>
        us_status (f u) = us_status u \<and> us_deleted (f u) = us_deleted u) \<Longrightarrow>
      P d (d\<lparr>db_users := update_rows U f (db_users d)\<rparr>)"
begin

lemma keep_schema: "keeps P (initialize_schema k names now)"
  unfolding initialize_schema_def by (intro keep_more keep_exec on_groups on_perms_seed)

lemma keep_revoke_sessions: "P d (revoke_sessions k now i keep d)"
  unfolding revoke_sessions_def by (rule on_sessions_revoke)

lemma keep_clear_overrides: "P d (clear_overrides k i d)"
  unfolding clear_overrides_def by (rule on_overrides_less)

lemma keep_set_password: "keeps P (set_password k now i hash keep)"
  unfolding set_password_def Let_def
  by (intro keep_more keep_stmt keep_exec) (simp_all add: on_users_quiet keep_revoke_sessions)

lemma keep_revoke_user_sessions: "keeps P (revoke_user_sessions k now i)"
  unfolding revoke_user_sessions_def
  by (intro keep_more keep_stmt) (auto simp: keep_revoke_sessions intro!: keep_more keep_reads [OF reads_get_user])

lemma keep_mark_login: "keeps P (mark_login k now i)"
  unfolding mark_login_def set_users_def by (intro keep_exec on_users_quiet) simp

lemma keep_create_session: "keeps P (create_session k s)"
  unfolding create_session_def by (intro keep_exec_if on_sessions_new) (auto split: if_splits)

lemma keep_touch_session: "keeps P (touch_session hash seen idle)"
  unfolding touch_session_def by (intro keep_exec on_sessions_touch)

lemma keep_revoke_session: "keeps P (revoke_session_row now hash)"
  unfolding revoke_session_row_def by (intro keep_exec on_sessions_revoke)

lemma keep_save_key: "keeps P (save_api_key k rnd i hash pfx now replace)"
  unfolding save_api_key_def Let_def by (intro keep_more keep_exec keep_exec_if on_keys)

lemma keep_touch_key: "keeps P (touch_api_key k kid now)"
  unfolding touch_api_key_def by (intro keep_exec on_keys)

lemma keep_revoke_key: "keeps P (store_revoke_api_key k now i)"
  unfolding store_revoke_api_key_def Let_def
  by (intro keep_more keep_stmt) (auto simp: on_keys intro!: keep_more keep_reads [OF reads_get_api_key] keep_reads [OF reads_get_user])

lemma keep_set_admins: "keeps P (set_instance_admins k now node inst users)"
  unfolding set_instance_admins_def insert_admin_def Let_def
  by (intro keep_more keep_reads reads_require_active reads_list_instance_admins keep_exec keep_exec_if on_admins)

lemma keep_clear_group: "P d (clear_group_permissions k code d)"
  unfolding clear_group_permissions_def by (rule on_perms_less) auto

lemma keep_group_row: "keeps P (if new then insert_group k now code name desc else touch_group k now code name desc)"
  unfolding insert_group_def touch_group_def set_groups_def
  by (auto intro!: keep_more keep_exec keep_exec_if on_groups)

lemma keep_insert_permission: "valid_permission p \<Longrightarrow> keeps P (insert_group_permission k code p)"
  unfolding insert_group_permission_def by (intro keep_exec_if on_perms_more)

lemma each_yields_all:
  "yields (each f xs) d w y d' w' \<Longrightarrow> x \<in> set xs \<Longrightarrow> \<exists>d1 w1 d2 w2. yields (f x) d1 w1 () d2 w2"
proof (induction xs arbitrary: d w)
  case Nil
  then show ?case by simp
next
  case (Cons a xs)
  from Cons.prems(1) obtain d1 w1 where "yields (f a) d w () d1 w1" and "yields (each f xs) d1 w1 y d' w'"
    by (auto simp: act_simps)
  with Cons show ?case by auto
qed

lemma validated: 
  "yields (validate_group_permissions code ps) d w y d' w' \<Longrightarrow> p \<in> set ps \<Longrightarrow> valid_permission p"
  unfolding validate_group_permissions_def by (drule (1) each_yields_all) (auto simp: act_simps)

lemma first_occurrences_subset: "set (first_occurrences seen ps) \<subseteq> set ps"
  by (induction seen ps rule: first_occurrences.induct) auto

lemma keep_save_group: "keeps P (save_user_group k now code name desc ps new)"
proof -
  have perms: "keeps P (each (insert_group_permission k code) (first_occurrences [] ps))"
    if "list_all valid_permission ps"
    using that first_occurrences_subset [of "[]" ps]
    by (intro keep_each_in keep_insert_permission) (auto simp: list_all_iff)
  have valid: "yields (validate_group_permissions code ps) d w x d' w' \<Longrightarrow> list_all valid_permission ps"
    for d w x d' w'
    using validated by (auto simp: list_all_iff)
  show ?thesis
    unfolding save_user_group_def Let_def
    by (rule keep_andthen [OF keep_guard],
        rule keep_andthen_when [OF keep_reads [OF reads_validate_group_permissions]], drule valid,
        intro keep_andthen keep_reads [OF reads_get_user_group] keep_tx_body
          keep_on_error keep_group_row keep_duplicate keep_exec keep_clear_group perms)
qed

lemma keep_delete_group: "keeps P (delete_user_group k code)"
proof -
  have "P d (clear_group_permissions k code (d\<lparr>db_groups := gs\<rparr>))" for d gs
    by (rule trans [OF on_groups keep_clear_group])
  then show ?thesis
    unfolding delete_user_group_def
    by (intro keep_more keep_reads [OF reads_get_user_group] keep_stmt) (auto simp: refl)
qed

lemma keep_insert_override: "valid_permission (ov_perm r) \<Longrightarrow> keeps P (insert_override k r)"
  unfolding insert_override_def by (intro keep_exec_if on_overrides_more) (auto split: if_splits)

lemma keep_set_permissions: "keeps P (set_user_permissions k now i desired)"
  unfolding set_user_permissions_def
  by (intro keep_andthen keep_guard keep_reads [OF reads_get_user] keep_reads [OF reads_group_permission_set]
      keep_reads [OF reads_profile] keep_tx_body keep_exec keep_clear_overrides keep_each_in keep_insert_override)
    (auto simp: valid_permission_def list_ex_iff)

lemmas keep_quiet = keep_schema keep_set_password keep_revoke_user_sessions keep_mark_login
  keep_create_session keep_touch_session keep_revoke_session keep_save_key keep_touch_key
  keep_revoke_key keep_set_admins keep_save_group keep_delete_group keep_set_permissions

end

text \<open>The two kinds of statement that change an account.\<close>

locale account_statements = statements +
  assumes on_users_new: "P d (d\<lparr>db_users := user_of now n # db_users d\<rparr>)"
    and on_users_any: "(\<And>u. us_id (f u) = us_id u) \<Longrightarrow>
      P d (d\<lparr>db_users := update_rows U f (db_users d)\<rparr>)"
begin

lemma keep_insert_user: "keeps P (insert_user k now n)"
  unfolding insert_user_def by (intro keep_more keep_exec_if on_users_new)

lemma keep_initial_admin: "keeps P (store_create_initial_admin k now n)"
  unfolding store_create_initial_admin_def by (intro keep_more keep_insert_user)

lemma keep_update_user: "keeps P (update_user k now i c)"
  unfolding update_user_def set_users_def
  by (intro keep_more keep_reads [OF reads_get_user] keep_reads [OF reads_ensure_another] keep_exec
      keep_exec_if keep_clear_overrides keep_revoke_sessions on_users_any) (simp add: changed_def)

lemma keep_delete_user: "keeps P (delete_user k now i)"
  unfolding delete_user_def set_users_def
  by (intro keep_more keep_reads [OF reads_get_user] keep_reads [OF reads_ensure_another] keep_exec
      keep_exec_if keep_clear_overrides keep_revoke_sessions on_users_any) (simp add: removed_def)

lemma keep_op: "keeps P (op_act k now x)"
  by (cases x) (auto intro!: keep_discard keep_quiet keep_insert_user keep_initial_admin
      keep_update_user keep_delete_user simp: store_create_user_def)

lemma keep_step: "P d (store_step k d c)"
  using keep_op unfolding store_step_def keeps_def by (cases c) auto

lemma keep_run: "P d (run_steps (store_step k) d cs)"
  by (induction cs arbitrary: d) (auto intro: refl trans keep_step)

end

end
