(* ===== verification/PanelStore_Inv.thy ===== *)
theory PanelStore_Inv
  imports PanelStore_Laws
begin

text \<open>
  The three invariants of the account tables, as instances of the locales of
  \<open>PanelStore_Laws\<close>, and the runs that keep them.
\<close>

section \<open>The permission tables\<close>

definition access_wf :: "collation \<Rightarrow> panel_db \<Rightarrow> bool" where
  "access_wf k d \<longleftrightarrow>
     list_all (\<lambda>r. valid_permission (snd r)) (db_perms d) \<and>
     list_all (\<lambda>r. valid_permission (ov_perm r)) (db_overrides d) \<and>
     distinct (map (\<lambda>r. (k_ascii k (ov_user r), k_ascii k (ov_perm r))) (db_overrides d))"

lemma insert_ignore_subset: "set (insert_ignore same xs rs) \<subseteq> set xs \<union> set rs"
  by (induction same xs rs rule: insert_ignore.induct) (auto split: if_splits)

lemma seed_valid: "list_all (\<lambda>r. valid_permission (snd r)) seed_perm_rows"
  by code_simp

lemma distinct_map_filter: "distinct (map f xs) \<Longrightarrow> distinct (map f (filter Q xs))"
  by (induction xs) auto

interpretation access: account_statements "\<lambda>d d'. access_wf k d \<longrightarrow> access_wf k d'" k for k
proof (unfold_locales, goal_cases)
  case (8 d)
  then show ?case
    using insert_ignore_subset seed_valid by (fastforce simp: access_wf_def list_all_iff)
next
  case (9 d Q)
  then show ?case by (auto simp: access_wf_def list_all_iff distinct_map_filter)
next
  case (10 r d)
  then show ?case by (auto simp: access_wf_def list_ex_iff aeq_def image_iff)
next
  case (6 ps d)
  then show ?case by (auto simp: access_wf_def list_all_iff)
next
  case (2 d1 d2 d3)
  then show ?case by blast
qed (simp_all add: access_wf_def)

section \<open>Revoked sessions\<close>

definition dead :: "string \<Rightarrow> panel_db \<Rightarrow> bool" where
  "dead h d \<longleftrightarrow> list_ex (\<lambda>s. sn_hash s = h) (db_sessions d) \<and>
     list_all (\<lambda>s. sn_hash s = h \<longrightarrow> sn_revoked s \<noteq> None) (db_sessions d)"

lemma dead_update:
  assumes "\<And>s. sn_hash (f s) = sn_hash s" and "\<And>s. S s \<Longrightarrow> sn_revoked s \<noteq> None \<Longrightarrow> sn_revoked (f s) \<noteq> None"
    and "dead h d"
  shows "dead h (d\<lparr>db_sessions := update_rows S f (db_sessions d)\<rparr>)"
proof -
  have "list_ex (\<lambda>s. sn_hash s = h) (update_rows S f (db_sessions d))"
  proof -
    obtain s where "s \<in> set (db_sessions d)" and "sn_hash s = h"
      using assms(3) by (auto simp: dead_def list_ex_iff)
    then have "(if S s then f s else s) \<in> set (update_rows S f (db_sessions d))"
      and "sn_hash (if S s then f s else s) = h"
      using assms(1) by (auto simp: update_rows_def)
    then show ?thesis unfolding list_ex_iff by blast
  qed
  moreover have "list_all (\<lambda>s. sn_hash s = h \<longrightarrow> sn_revoked s \<noteq> None) (update_rows S f (db_sessions d))"
    using assms by (auto simp: dead_def update_rows_def list_all_iff)
  ultimately show ?thesis by (simp add: dead_def)
qed

interpretation revoked: account_statements "\<lambda>d d'. dead h d \<longrightarrow> dead h d'" k for h k
proof (unfold_locales, goal_cases)
  case (11 s d)
  then show ?case by (auto simp: dead_def list_ex_iff list_all_iff)
next
  case (12 d R now)
  then show ?case by (auto intro!: dead_update)
next
  case (13 d S seen idle)
  then show ?case by (auto intro!: dead_update)
next
  case (2 d1 d2 d3)
  then show ?case by blast
qed (simp_all add: dead_def)

section \<open>The last super administrator\<close>

definition super_admin_row :: "user_row \<Rightarrow> bool" where
  "super_admin_row u \<longleftrightarrow> us_group u = group_super_admin \<and> us_status u = user_active \<and> us_deleted u = None"

text \<open>A code is spelled as the constant the server takes it for.\<close>

definition spelled :: "collation \<Rightarrow> string \<Rightarrow> string \<Rightarrow> bool" where
  "spelled k s c \<longleftrightarrow> (aeq k s c \<longrightarrow> s = c)"

definition accounts_wf :: "collation \<Rightarrow> panel_db \<Rightarrow> bool" where
  "accounts_wf k d \<longleftrightarrow>
     distinct (map (\<lambda>u. k_ascii k (us_id u)) (db_users d)) \<and>
     list_all (\<lambda>u. spelled k (us_group u) group_super_admin \<and> spelled k (us_status u) user_active)
       (db_users d) \<and>
     list_ex super_admin_row (db_users d)"

definition exact_id :: "collation \<Rightarrow> string \<Rightarrow> panel_db \<Rightarrow> bool" where
  "exact_id k i d \<longleftrightarrow> list_all (\<lambda>u. by_id k i u \<longrightarrow> us_id u = i) (db_users d)"

fun spelled_op :: "collation \<Rightarrow> panel_db \<Rightarrow> store_op \<Rightarrow> bool" where
  "spelled_op k d (OpInitialAdmin n) = spelled k (nu_group n) group_super_admin"
| "spelled_op k d (OpCreateUser n) = spelled k (nu_group n) group_super_admin"
| "spelled_op k d (OpUpdateUser i c) =
     (exact_id k i d \<and> spelled k (uc_group c) group_super_admin \<and> spelled k (uc_status c) user_active)"
| "spelled_op k d (OpDeleteUser i) = exact_id k i d"
| "spelled_op k d _ = True"

text \<open>The codes of the program are told apart by the collation.\<close>

definition codes_apart :: "collation \<Rightarrow> bool" where
  "codes_apart k \<longleftrightarrow> \<not> aeq k group_observer group_super_admin \<and> \<not> aeq k user_deleted user_active"

definition account :: "user_row \<Rightarrow> string \<times> string \<times> string \<times> int option" where
  "account u = (us_id u, us_group u, us_status u, us_deleted u)"

lemma accounts_wf_account:
  assumes "map account (db_users d') = map account (db_users d)" and "accounts_wf k d"
  shows "accounts_wf k d'"
proof -
  have l: "length (db_users d') = length (db_users d)" by (rule map_eq_imp_length_eq [OF assms(1)])
  have n: "account (db_users d' ! j) = account (db_users d ! j)" if "j < length (db_users d)" for j
    using assms(1) that l by (metis nth_map)
  show ?thesis
    using assms(2) n l
    by (auto simp: accounts_wf_def super_admin_row_def account_def distinct_conv_nth list_all_length
        list_ex_length)
qed

interpretation quiet: statements "\<lambda>d d'. map account (db_users d') = map account (db_users d)" k for k
  by unfold_locales (auto simp: update_rows_def account_def)

lemma quiet_step:
  assumes "keeps (\<lambda>d d'. map account (db_users d') = map account (db_users d)) m" and "accounts_wf k d"
  shows "accounts_wf k (fst (snd (m d w)))"
  using assms accounts_wf_account unfolding keeps_def by blast

text \<open>Inserting an account.\<close>

interpretation accounts: preserved "\<lambda>d d'. accounts_wf k d \<longrightarrow> accounts_wf k d'" for k
  by unfold_locales blast+

lemma insert_user_wf:
  assumes "spelled k (nu_group n) group_super_admin"
  shows "keeps (\<lambda>d d'. accounts_wf k d \<longrightarrow> accounts_wf k d') (insert_user k now n)"
proof -
  have "accounts_wf k (d\<lparr>db_users := user_of now n # db_users d\<rparr>)"
    if "insert_refused k n d = None" and "accounts_wf k d" for d
    using that assms
    by (auto simp: insert_refused_def accounts_wf_def user_of_def by_id_def aeq_def list_ex_iff
        spelled_def split: if_splits)
  then show ?thesis
    unfolding insert_user_def
    by (intro accounts.keep_more accounts.keep_exec_if) blast
qed

text \<open>A row with an identifier is the row of the user.\<close>

lemma by_id_unique:
  assumes "accounts_wf k d" and "u \<in> set (db_users d)" and "v \<in> set (db_users d)"
    and "by_id k i u" and "by_id k i v"
  shows "u = v"
  using assms unfolding accounts_wf_def by_id_def aeq_def
  by (metis (mono_tags, lifting) distinct_map inj_onD)

text \<open>Changing one account, when another active super administrator remains or it stays one.\<close>

lemma change_account_wf:
  assumes wf: "accounts_wf k d"
    and f: "\<And>u. us_id (f u) = us_id u"
    and sp: "\<And>u. spelled k (us_group u) group_super_admin \<Longrightarrow> spelled k (us_status u) user_active \<Longrightarrow>
      spelled k (us_group (f u)) group_super_admin \<and> spelled k (us_status (f u)) user_active"
    and left: "(\<exists>u \<in> set (db_users d). super_admin_row u \<and> \<not> by_id k i u) \<or>
      (\<forall>u \<in> set (db_users d). super_admin_row u \<longrightarrow> super_admin_row (f u))"
  shows "accounts_wf k (set_users k i f d)"
proof -
  let ?g = "\<lambda>u. if by_id k i u then f u else u"
  have ids: "map (\<lambda>u. k_ascii k (us_id u)) (map ?g (db_users d)) = map (\<lambda>u. k_ascii k (us_id u)) (db_users d)"
    by (simp add: f)
  have "list_ex super_admin_row (map ?g (db_users d))"
  proof -
    obtain u where u: "u \<in> set (db_users d)" "super_admin_row u" "super_admin_row (?g u)"
      using left wf by (auto simp: accounts_wf_def list_ex_iff)
    then show ?thesis unfolding list_ex_iff by (metis (no_types, lifting) image_eqI set_map)
  qed
  moreover have "list_all (\<lambda>u. spelled k (us_group u) group_super_admin \<and> spelled k (us_status u) user_active)
      (map ?g (db_users d))"
    using wf sp by (auto simp: accounts_wf_def list_all_iff)
  moreover have "distinct (map (\<lambda>u. k_ascii k (us_id u)) (map ?g (db_users d)))"
    using wf unfolding ids by (simp add: accounts_wf_def)
  ultimately show ?thesis
    unfolding accounts_wf_def set_users_def update_rows_def by simp
qed

lemma other_super_admin:
  assumes y: "other_super_admins k i d \<noteq> []" and wf: "accounts_wf k d" and exact: "exact_id k i d"
  shows "\<exists>u \<in> set (db_users d). super_admin_row u \<and> \<not> by_id k i u"
proof -
  from y obtain u where "u \<in> set (other_super_admins k i d)"
    by (cases "other_super_admins k i d") auto
  then have u: "u \<in> set (db_users d)" "us_id u \<noteq> i"
    "aeq k (us_group u) group_super_admin" "aeq k (us_status u) user_active" "us_deleted u = None"
    by (auto simp: other_super_admins_def)
  with wf have "super_admin_row u"
    by (auto simp: accounts_wf_def super_admin_row_def spelled_def list_all_iff)
  with u exact show ?thesis by (auto simp: exact_id_def list_all_iff)
qed

text \<open>The user that is changed is not the only one, or is not one.\<close>

lemma super_admin_left:
  assumes wf: "accounts_wf k d" and exact: "exact_id k i d"
    and cur: "current \<in> set (db_users d)" "by_id k i current"
    and check: "us_group current = group_super_admin \<and> us_status current = user_active \<longrightarrow>
      other_super_admins k i d \<noteq> []"
  shows "\<exists>u \<in> set (db_users d). super_admin_row u \<and> \<not> by_id k i u"
proof (cases "us_group current = group_super_admin \<and> us_status current = user_active")
  case True
  then show ?thesis using other_super_admin check wf exact by blast
next
  case False
  obtain u where u: "u \<in> set (db_users d)" "super_admin_row u"
    using wf by (auto simp: accounts_wf_def list_ex_iff)
  then have "\<not> by_id k i u"
    using by_id_unique [OF wf u(1) cur(1) _ cur(2)] False by (auto simp: super_admin_row_def)
  then show ?thesis using u by blast
qed

lemma sessions_overrides_wf [simp]:
  "accounts_wf k (revoke_sessions k now i keep d) = accounts_wf k d"
  "accounts_wf k (clear_overrides k i d) = accounts_wf k d"
  by (simp_all add: accounts_wf_def revoke_sessions_def clear_overrides_def)

definition only_if :: "bool \<Rightarrow> ('a \<Rightarrow> 'a) \<Rightarrow> 'a \<Rightarrow> 'a" where
  "only_if b f x = (if b then f x else x)"

lemma when_exec_dest: "yields (when_do b (exec u)) d w x d' w' \<Longrightarrow> d' = only_if b u d"
  by (auto simp: when_do_yields only_if_def dest!: exec_yields split: if_splits)

lemma when_ensure_dest:
  "yields (when_do b (ensure_another_super_admin k i)) d w x d' w' \<Longrightarrow>
     d' = d \<and> (b \<longrightarrow> other_super_admins k i d \<noteq> [])"
  by (auto simp: when_do_yields dest!: ensure_another_dest split: if_splits)

text \<open>What the two transactions did when they reached their commit.\<close>

lemma delete_user_body:
  assumes "yields (andthen (get_user k i) (\<lambda>current.
      andthen (when_do (us_group current = group_super_admin \<and> us_status current = user_active)
                       (ensure_another_super_admin k i)) (\<lambda>_.
      andthen (exec_if (\<lambda>d. if group_known k group_observer d then None else Some ''ErrSQL'')
                       (set_users k i (removed now))) (\<lambda>_.
      andthen (exec (clear_overrides k i)) (\<lambda>_.
      exec (revoke_sessions k now i [])))))) d w x d' w'"
  shows "\<exists>current. current \<in> set (db_users d) \<and> by_id k i current \<and>
    (us_group current = group_super_admin \<and> us_status current = user_active \<longrightarrow>
       other_super_admins k i d \<noteq> []) \<and>
    d' = revoke_sessions k now i [] (clear_overrides k i (set_users k i (removed now) d))"
  using assms
  by (auto simp: andthen_yields dest!: get_user_dest when_ensure_dest exec_if_yields exec_yields)

lemma update_user_body:
  assumes "yields (andthen (get_user k i) (\<lambda>current.
      andthen (when_do (removes_active_super_admin c current) (ensure_another_super_admin k i)) (\<lambda>_.
      andthen (exec_if (\<lambda>d. if group_known k (uc_group c) d then None else Some ''ErrSQL'')
                       (set_users k i (changed now c))) (\<lambda>_.
      andthen (when_do (us_group current \<noteq> uc_group c) (exec (clear_overrides k i))) (\<lambda>_.
      andthen (when_do (uc_status c \<noteq> user_active) (exec (revoke_sessions k now i []))) (\<lambda>_.
      ret (changed now c current))))))) d w x d' w'"
  shows "\<exists>current. current \<in> set (db_users d) \<and> by_id k i current \<and>
    (removes_active_super_admin c current \<longrightarrow> other_super_admins k i d \<noteq> []) \<and>
    d' = only_if (uc_status c \<noteq> user_active) (revoke_sessions k now i [])
        (only_if (us_group current \<noteq> uc_group c) (clear_overrides k i) (set_users k i (changed now c) d))"
  using assms
  by (auto simp: andthen_yields ret_yields
      dest!: get_user_dest when_ensure_dest exec_if_yields when_exec_dest)

lemma delete_user_wf:
  assumes "codes_apart k" and "exact_id k i d" and "accounts_wf k d"
  shows "accounts_wf k (fst (snd (delete_user k now i d w)))"
proof -
  obtain r d' w' where run: "delete_user k now i d w = (r, d', w')" by (metis prod_cases3)
  from tx_atomic [OF run [unfolded delete_user_def]] have "accounts_wf k d'"
  proof (elim disjE exE, goal_cases)
    case 1
    then show ?case using assms(3) by simp
  next
    case (2 w1 w2 x)
    from delete_user_body [OF 2] obtain current where
      cur: "current \<in> set (db_users d)" "by_id k i current"
      and check: "us_group current = group_super_admin \<and> us_status current = user_active \<longrightarrow>
        other_super_admins k i d \<noteq> []"
      and d': "d' = revoke_sessions k now i [] (clear_overrides k i (set_users k i (removed now) d))"
      by blast
    have "accounts_wf k (set_users k i (removed now) d)"
      using super_admin_left [OF assms(3,2) cur check] assms(1)
      by (intro change_account_wf [OF assms(3)])
        (auto simp: removed_def spelled_def codes_apart_def)
    then show ?case by (simp add: d')
  qed
  then show ?thesis by (simp add: run)
qed

lemma update_user_wf:
  assumes "spelled k (uc_group c) group_super_admin" and "spelled k (uc_status c) user_active"
    and "exact_id k i d" and "accounts_wf k d"
  shows "accounts_wf k (fst (snd (update_user k now i c d w)))"
proof -
  obtain r d' w' where run: "update_user k now i c d w = (r, d', w')" by (metis prod_cases3)
  from tx_atomic [OF run [unfolded update_user_def]] have "accounts_wf k d'"
  proof (elim disjE exE, goal_cases)
    case 1
    then show ?case using assms(4) by simp
  next
    case (2 w1 w2 x)
    from update_user_body [OF 2] obtain current where
      cur: "current \<in> set (db_users d)" "by_id k i current"
      and check: "removes_active_super_admin c current \<longrightarrow> other_super_admins k i d \<noteq> []"
      and d': "d' = only_if (uc_status c \<noteq> user_active) (revoke_sessions k now i [])
        (only_if (us_group current \<noteq> uc_group c) (clear_overrides k i) (set_users k i (changed now c) d))"
      by blast
    have "accounts_wf k (set_users k i (changed now c) d)"
    proof (intro change_account_wf [OF assms(4)], goal_cases)
      case 3
      show ?case
      proof (cases "us_group current = group_super_admin \<and> us_status current = user_active \<longrightarrow>
          other_super_admins k i d \<noteq> []")
        case True
        then show ?thesis using super_admin_left [OF assms(4,3) cur] by blast
      next
        case False
        then have "uc_group c = group_super_admin" and "uc_status c = user_active"
          using check by (auto simp: removes_active_super_admin_def)
        then show ?thesis by (auto simp: changed_def super_admin_row_def)
      qed
    qed (use assms(1,2) in \<open>auto simp: changed_def\<close>)
    then show ?case by (simp add: d' only_if_def)
  qed
  then show ?thesis by (simp add: run)
qed

lemma accounts_step:
  assumes "accounts_wf k d" and "codes_apart k" and "spelled_op k d x"
  shows "accounts_wf k (fst (snd (op_act k now x d w)))"
proof -
  have bare: "fst (snd (discard m d w)) = fst (snd (m d w))" for m :: "'a act"
    by (auto simp: discard_def andthen_def ret_def split: prod.splits sum.splits)
  have create: "accounts_wf k (fst (snd (m d w)))"
    if "keeps (\<lambda>d d'. accounts_wf k d \<longrightarrow> accounts_wf k d') m" for m :: "user_row act"
    using that assms(1) unfolding keeps_def by blast
  show ?thesis
  proof (cases x)
    case (OpInitialAdmin n)
    then show ?thesis using assms(3)
      by (auto simp: bare store_create_initial_admin_def intro!: create accounts.keep_more insert_user_wf)
  next
    case (OpCreateUser n)
    then show ?thesis using assms(3)
      by (auto simp: bare store_create_user_def intro!: create insert_user_wf)
  next
    case (OpUpdateUser i c)
    then show ?thesis using update_user_wf assms by (simp add: bare)
  next
    case (OpDeleteUser i)
    then show ?thesis using delete_user_wf assms by simp
  qed (auto intro!: quiet_step [OF _ assms(1)] quiet.keep_discard quiet.keep_quiet)
qed

interpretation admins: safe_machine "\<lambda>(k, d). codes_apart k \<and> accounts_wf k d"
  "\<lambda>(k, d) (now, x, w). spelled_op k d x" "\<lambda>(k, d) c. (k, store_step k d c)"
  "\<lambda>(k, d). codes_apart k \<and> accounts_wf k d"
  by unfold_locales (auto simp: store_step_def accounts_step)

lemma run_paired:
  "run_steps (\<lambda>(k, d) c. (k, store_step k d c)) (k, d) cs = (k, run_steps (store_step k) d cs)"
  by (induction cs arbitrary: d) auto

fun spelled_run :: "collation \<Rightarrow> panel_db \<Rightarrow> store_call list \<Rightarrow> bool" where
  "spelled_run k d [] = True"
| "spelled_run k d ((now, x, w) # cs) =
     (spelled_op k d x \<and> spelled_run k (store_step k d (now, x, w)) cs)"

lemma spelled_paired:
  "run_permitted (\<lambda>(k, d) (now, x, w). spelled_op k d x) (\<lambda>(k, d) c. (k, store_step k d c)) (k, d) cs =
     spelled_run k d cs"
  by (induction k d cs rule: spelled_run.induct) auto

lemma accounts_run:
  assumes "codes_apart k" and "accounts_wf k d" and "spelled_run k d cs"
  shows "accounts_wf k (run_steps (store_step k) d cs)"
  using admins.run_inv [of "(k, d)" cs] assms by (simp add: run_paired spelled_paired)

end
