(* ===== verification/PanelStore_Props.thy ===== *)
theory PanelStore_Props
  imports PanelStore_Inv PanelAuth
begin

text \<open>
  Properties of the account store: what the permission checks answer, what setting permissions
  does, that a revoked session never authenticates again, and that the last active super
  administrator stays. The last part shows two behaviours of the code against its intent.
\<close>

section \<open>Overrides\<close>

lemma apply_overrides_mem:
  "distinct (map ov_perm rs) \<Longrightarrow> p \<in> set (apply_overrides rs ps) \<longleftrightarrow>
     (case find (\<lambda>r. ov_perm r = p) rs of Some r \<Rightarrow> ov_allowed r | None \<Rightarrow> p \<in> set ps)"
proof (induction rs arbitrary: ps)
  case Nil
  then show ?case by simp
next
  case (Cons r rs)
  have "find (\<lambda>x. ov_perm x = ov_perm r) rs = None"
    using Cons.prems unfolding find_None_iff by (metis distinct.simps(2) image_eqI list.simps(9) set_map)
  then show ?case using Cons by (auto simp: in_set_insert split: option.splits)
qed

definition catalog_apart :: "collation \<Rightarrow> bool" where
  "catalog_apart k \<longleftrightarrow> distinct (map (k_ascii k) permission_codes)"

lemma catalog_apartD:
  assumes "catalog_apart k" and "valid_permission p" and "valid_permission q" and "aeq k p q"
  shows "p = q"
  using assms unfolding catalog_apart_def valid_permission_def list_ex_iff aeq_def
  by (metis distinct_map inj_onD)

lemma star_not_valid: "\<not> valid_permission ''*''"
  by code_simp

lemma effective_yields:
  assumes "yields (effective_permissions k i g) d w ps d' w'" and "g \<noteq> group_super_admin"
  shows "ps = sort (apply_overrides (filter (\<lambda>r. aeq k (ov_user r) i) (db_overrides d))
    (remdups (filter valid_permission (map snd (filter (\<lambda>r. aeq k (fst r) g) (db_perms d))))))"
  using assms unfolding effective_permissions_def group_permission_set_def
  by (auto simp: act_simps dest!: query_yields)

text \<open>The overrides of one user, told apart by their code.\<close>

lemma user_overrides_distinct:
  assumes "access_wf k d" and "catalog_apart k"
  shows "distinct (map ov_perm (filter (\<lambda>r. aeq k (ov_user r) i) (db_overrides d)))"
proof -
  let ?rs = "filter (\<lambda>r. aeq k (ov_user r) i) (db_overrides d)"
  have "distinct (map (\<lambda>r. (k_ascii k (ov_user r), k_ascii k (ov_perm r))) ?rs)"
    using assms(1) by (simp add: access_wf_def distinct_map_filter)
  then show ?thesis
    unfolding distinct_map inj_on_def by (auto simp: aeq_def)
qed

lemma user_override_find:
  assumes "access_wf k d" and "catalog_apart k" and "valid_permission p"
  shows "find (\<lambda>r. aeq k (ov_user r) i \<and> aeq k (ov_perm r) p) (db_overrides d) =
    find (\<lambda>r. ov_perm r = p) (filter (\<lambda>r. aeq k (ov_user r) i) (db_overrides d))"
proof -
  have "find (\<lambda>r. aeq k (ov_user r) i \<and> aeq k (ov_perm r) p) rs =
      find (\<lambda>r. ov_perm r = p) (filter (\<lambda>r. aeq k (ov_user r) i) rs)"
    if "list_all (\<lambda>r. valid_permission (ov_perm r)) rs" for rs
    using that catalog_apartD [OF assms(2) _ assms(3)] by (induction rs) auto
  moreover have "list_all (\<lambda>r. valid_permission (ov_perm r)) (db_overrides d)"
    using assms(1) by (simp add: access_wf_def)
  ultimately show ?thesis by blast
qed

lemma group_permission_mem:
  assumes "access_wf k d" and "catalog_apart k" and "valid_permission p"
  shows "list_ex (\<lambda>r. aeq k (fst r) g \<and> aeq k (snd r) p) (db_perms d) \<longleftrightarrow>
    p \<in> set (remdups (filter valid_permission (map snd (filter (\<lambda>r. aeq k (fst r) g) (db_perms d)))))"
proof -
  have "aeq k (snd r) p \<longleftrightarrow> snd r = p" if "r \<in> set (db_perms d)" for r
    using that assms(1) catalog_apartD [OF assms(2) _ assms(3)]
    unfolding access_wf_def list_all_iff by auto
  then have "list_ex (\<lambda>r. aeq k (fst r) g \<and> aeq k (snd r) p) (db_perms d) \<longleftrightarrow>
      (\<exists>r \<in> set (db_perms d). aeq k (fst r) g \<and> snd r = p)"
    unfolding list_ex_iff by blast
  also have "\<dots> \<longleftrightarrow> p \<in> set (remdups (filter valid_permission (map snd (filter (\<lambda>r. aeq k (fst r) g) (db_perms d)))))"
    using assms(3) by auto
  finally show ?thesis .
qed

text \<open>
  C16: the two implementations of a permission check agree: \<open>Can\<close>, which asks the database for one
  code, answers as membership in the list \<open>EffectivePermissions\<close> computes (which the handlers and
  the front end use), for every user, code of the catalogue and content of the tables reachable
  through the store.
\<close>

theorem can_is_effective:
  assumes "access_wf k d" and "catalog_apart k" and "valid_permission p"
    and c: "yields (can k u p) d w b d1 w1"
    and e: "yields (effective_permissions k (us_id u) (us_group u)) d w' ps d2 w2"
  shows "b \<longleftrightarrow> p \<in> set ps \<or> ''*'' \<in> set ps"
proof (cases "us_group u = group_super_admin")
  case True
  then show ?thesis using c e by (auto simp: can_def effective_permissions_def act_simps)
next
  case False
  let ?rs = "filter (\<lambda>r. aeq k (ov_user r) (us_id u)) (db_overrides d)"
  let ?S = "remdups (filter valid_permission (map snd (filter (\<lambda>r. aeq k (fst r) (us_group u)) (db_perms d))))"
  note mem = apply_overrides_mem [OF user_overrides_distinct [OF assms(1,2)]]
  have ps: "set ps = set (apply_overrides ?rs ?S)"
    using effective_yields [OF e False] by simp
  have star: "''*'' \<notin> set ps"
  proof -
    have "find (\<lambda>r. ov_perm r = ''*'') ?rs = None"
      using assms(1) star_not_valid by (auto simp: find_None_iff access_wf_def list_all_iff)
    then show ?thesis using star_not_valid by (auto simp: ps mem)
  qed
  have "b \<longleftrightarrow> p \<in> set ps"
  proof (cases "find (\<lambda>r. ov_perm r = p) ?rs")
    case None
    then have "b = list_ex (\<lambda>r. aeq k (fst r) (us_group u) \<and> aeq k (snd r) p) (db_perms d)"
      using c False unfolding can_def
      by (auto simp: act_simps user_override_find [OF assms(1-3)] dest!: query_yields)
    also have "\<dots> \<longleftrightarrow> p \<in> set ?S"
      by (rule group_permission_mem [OF assms(1-3)])
    finally show ?thesis by (simp add: ps mem None del: set_remdups)
  next
    case (Some r)
    then show ?thesis
      using c False unfolding can_def
      by (auto simp: act_simps user_override_find [OF assms(1-3)] ps mem dest!: query_yields)
  qed
  with star show ?thesis by blast
qed

text \<open>A collation that folds letter case, for the witnesses.\<close>

definition folding :: collation where
  "folding = \<lparr>k_ascii = to_lower, k_text = to_lower, k_like = contains_str\<rparr>"

definition seeded :: panel_db where
  "seeded = \<lparr>db_users = [], db_groups = map (seed_group_row (\<lambda>c. (c, c)) 0) seed_groups,
     db_perms = [(''operator'', ''file.read''), (''operator'', ''file.write'')],
     db_overrides = [], db_sessions = [], db_keys = [], db_admins = []\<rparr>"

definition sample_user :: "string \<Rightarrow> string \<Rightarrow> user_row" where
  "sample_user i g = \<lparr>us_id = i, us_name = i, us_display = i, us_hash = [], us_group = g,
     us_status = user_active, us_created = 0, us_updated = 0, us_login = None, us_deleted = None\<rparr>"

definition sample_db :: panel_db where
  "sample_db = seeded\<lparr>db_users := [sample_user ''a1'' ''super_admin'', sample_user ''b2'' ''operator''],
     db_overrides := [\<lparr>ov_user = ''b2'', ov_perm = ''file.write'', ov_allowed = False, ov_created = 0\<rparr>]\<rparr>"

lemma folding_catalog: "catalog_apart folding"
  by code_simp

lemma sample_access: "access_wf folding sample_db"
  by code_simp

theorem can_is_effective_witness:
  "fst (can folding (sample_user ''b2'' ''operator'') ''file.write'' sample_db []) = Inr False \<and>
   fst (effective_permissions folding ''b2'' ''operator'' sample_db []) = Inr [''file.read''] \<and>
   (False \<longleftrightarrow> ''file.write'' \<in> set [''file.read''] \<or> ''*'' \<in> set [''file.read''])"
proof -
  have c: "can folding (sample_user ''b2'' ''operator'') ''file.write'' sample_db [] =
      (Inr False, sample_db, [])" by code_simp
  have e: "effective_permissions folding (us_id (sample_user ''b2'' ''operator''))
      (us_group (sample_user ''b2'' ''operator'')) sample_db [] = (Inr [''file.read''], sample_db, [])"
    by code_simp
  have v: "valid_permission ''file.write''" by code_simp
  show ?thesis
    using can_is_effective [OF sample_access folding_catalog v c e] c e by (simp add: sample_user_def)
qed

section \<open>Setting the permissions of a user\<close>

lemma each_insert_overrides:
  assumes "yields (each (\<lambda>c. insert_override k (row c)) cs) d w x d' w'"
  shows "d' = d\<lparr>db_overrides := rev (map row cs) @ db_overrides d\<rparr>"
  using assms
proof (induction cs arbitrary: d w)
  case Nil
  then show ?case by (simp add: act_simps)
next
  case (Cons c cs)
  from Cons.prems obtain d1 w1 where "yields (insert_override k (row c)) d w () d1 w1"
    and rest: "yields (each (\<lambda>c. insert_override k (row c)) cs) d1 w1 x d' w'"
    by (auto simp: act_simps)
  then have "d1 = d\<lparr>db_overrides := row c # db_overrides d\<rparr>"
    unfolding insert_override_def by (auto dest!: exec_if_yields)
  with Cons.IH [OF rest] show ?case by simp
qed

lemma get_user_find: "yields (get_user k i) d w u d' w' \<Longrightarrow> find (by_id k i) (db_users d) = Some u"
  unfolding get_user_def by (auto simp: act_simps dest!: query_yields)

lemma profile_yields:
  assumes "yields (user_permission_profile k i) d w pr d' w'"
  obtains u gps eff w1 w2 where "find (by_id k i) (db_users d) = Some u" and "d' = d"
    and "yields (effective_permissions k (us_id u) (us_group u)) d w1 eff d w2"
    and "snd pr = permission_items gps (if us_group u = group_super_admin then permission_codes else eff)"
proof -
  from assms obtain u d1 w1 g d2 w2 eff d3 w3 where
    u: "yields (get_user k i) d w u d1 w1" and g: "yields (get_user_group k (us_group u)) d1 w1 g d2 w2"
    and e: "yields (effective_permissions k (us_id u) (us_group u)) d2 w2 eff d3 w3"
    and pr: "snd pr = permission_items (ug_permissions g)
      (if us_group u = group_super_admin then permission_codes else eff)" and d': "d' = d3"
    unfolding user_permission_profile_def by (auto simp: act_simps)
  have "d1 = d" and "d2 = d" and "d3 = d"
    using reads_yields [OF reads_get_user u] reads_yields [OF reads_get_user_group g]
      reads_yields [OF reads_effective_permissions e] by simp_all
  then show ?thesis using that [OF get_user_find [OF u] _ _ pr] d' e by simp
qed

text \<open>The rows \<open>SetUserPermissions\<close> leaves for the user.\<close>

definition override_rows :: "string \<Rightarrow> int \<Rightarrow> string list \<Rightarrow> string list \<Rightarrow> override_row list" where
  "override_rows i now defaults desired =
     map (\<lambda>c. \<lparr>ov_user = i, ov_perm = c, ov_allowed = (c \<in> set desired), ov_created = now\<rparr>)
       (filter (\<lambda>c. (c \<in> set defaults) \<noteq> (c \<in> set desired)) permission_codes)"

definition defaults_of :: "collation \<Rightarrow> string \<Rightarrow> panel_db \<Rightarrow> string list" where
  "defaults_of k g d = remdups (filter valid_permission (map snd (filter (\<lambda>r. aeq k (fst r) g) (db_perms d))))"

lemma find_override_rows:
  "find (\<lambda>r. ov_perm r = p) (rev (override_rows i now defaults desired)) =
     (if p \<in> set permission_codes \<and> (p \<in> set defaults) \<noteq> (p \<in> set desired)
      then Some \<lparr>ov_user = i, ov_perm = p, ov_allowed = (p \<in> set desired), ov_created = now\<rparr> else None)"
proof -
  have "find (\<lambda>r. ov_perm r = p) (rev (map (\<lambda>c. \<lparr>ov_user = i, ov_perm = c, ov_allowed = A c, ov_created = now\<rparr>) cs)) =
      (if p \<in> set cs then Some \<lparr>ov_user = i, ov_perm = p, ov_allowed = A p, ov_created = now\<rparr> else None)"
    for A cs
    by (induction cs rule: rev_induct) auto
  then show ?thesis by (simp add: override_rows_def)
qed

lemma distinct_codes: "distinct permission_codes"
  by code_simp

lemma distinct_override_rows: "distinct (map ov_perm (rev (override_rows i now defaults desired)))"
  by (simp add: override_rows_def rev_map [symmetric] comp_def distinct_codes)

text \<open>
  C21: a successful \<open>SetUserPermissions\<close> makes the wanted set effective exactly: in the profile it
  returns a code of the catalogue is effective if and only if it was asked for, whatever the group
  grants, and \<open>permission.manage\<close> is not granted.
\<close>

theorem set_permissions_exact:
  assumes y: "yields (set_user_permissions k now i desired) d w pr d' w'"
  shows "map pi_code (snd pr) = permission_codes \<and>
    map pi_effective (snd pr) = map (\<lambda>c. c \<in> set desired) permission_codes \<and>
    ''permission.manage'' \<notin> set desired"
proof -
  from y obtain u d1 w1 w3 d2 w4 w5 where
    u: "yields (get_user k i) d w u d1 w1" and ng: "us_group u \<noteq> group_super_admin"
    and ok: "list_all (\<lambda>c. valid_permission c \<and> c \<noteq> ''permission.manage'') desired"
    and t: "yields (tx (andthen (exec (clear_overrides k i)) (\<lambda>_.
        each (\<lambda>c. insert_override k \<lparr>ov_user = i, ov_perm = c, ov_allowed = (c \<in> set desired), ov_created = now\<rparr>)
          (filter (\<lambda>c. (c \<in> set (defaults_of k (us_group u) d1)) \<noteq> (c \<in> set desired)) permission_codes)))) d1 w3 () d2 w4"
    and pf: "yields (user_permission_profile k i) d2 w4 pr d' w5"
    unfolding set_user_permissions_def group_permission_set_def
    by (auto simp: act_simps defaults_of_def dest!: query_yields)
  have d1: "d1 = d" using reads_yields [OF reads_get_user u] .
  from tx_yields [OF t] have d2: "d2 = d\<lparr>db_overrides := rev (override_rows i now (defaults_of k (us_group u) d) desired)
      @ filter (\<lambda>r. \<not> aeq k (ov_user r) i) (db_overrides d)\<rparr>"
    by (auto simp: act_simps d1 clear_overrides_def override_rows_def dest!: exec_yields each_insert_overrides)
  from pf obtain v gps eff w6 w7 where v: "find (by_id k i) (db_users d2) = Some v"
    and e: "yields (effective_permissions k (us_id v) (us_group v)) d2 w6 eff d2 w7"
    and pr: "snd pr = permission_items gps (if us_group v = group_super_admin then permission_codes else eff)"
    by (rule profile_yields)
  have vu: "v = u" using v get_user_find [OF u] by (simp add: d2)
  have id: "aeq k i (us_id u)" using get_user_dest [OF u] by (simp add: by_id_def aeq_def)
  have rows: "filter (\<lambda>r. aeq k (ov_user r) (us_id u)) (db_overrides d2) =
      rev (override_rows i now (defaults_of k (us_group u) d) desired)"
    using id by (auto simp: d2 override_rows_def filter_empty_conv aeq_def intro!: filter_True)
  have "p \<in> set eff \<longleftrightarrow> p \<in> set desired" if "p \<in> set permission_codes" for p
    using that effective_yields [OF e [unfolded vu] ng]
    by (auto simp: rows apply_overrides_mem [OF distinct_override_rows] find_override_rows
        simp flip: defaults_of_def split: if_splits) (auto simp: d2 defaults_of_def)
  then have "map pi_effective (snd pr) = map (\<lambda>c. c \<in> set desired) permission_codes"
    using ng by (simp add: pr vu permission_items_def)
  moreover have "map pi_code (snd pr) = permission_codes"
    by (simp add: pr permission_items_def comp_def)
  ultimately show ?thesis using ok by (auto simp: list_all_iff)
qed

definition sample_set :: "(string \<times> permission_item list) act" where
  "sample_set = set_user_permissions folding 5 ''b2'' [''file.delete'']"

theorem set_permissions_exact_witness:
  "\<exists>g items d' w'. yields sample_set sample_db [] (g, items) d' w' \<and>
     map pi_effective items = map (\<lambda>c. c \<in> set [''file.delete'']) permission_codes"
proof -
  have "(case sample_set sample_db [] of (Inl _, _, _) \<Rightarrow> False | (Inr _, _, _) \<Rightarrow> True)"
    by code_simp
  then obtain pr d' w' where y: "yields sample_set sample_db [] pr d' w'"
    by (auto split: prod.splits sum.splits)
  from set_permissions_exact [OF y [unfolded sample_set_def]] y show ?thesis
    by (cases pr) fastforce
qed

section \<open>Revoked sessions\<close>

definition revoked_rows :: "(session_row \<Rightarrow> bool) \<Rightarrow> int \<Rightarrow> session_row list \<Rightarrow> session_row list" where
  "revoked_rows R now = update_rows R (\<lambda>s. s\<lparr>sn_revoked := Some now\<rparr>)"

lemma dead_after:
  assumes "distinct (map sn_hash (db_sessions d))" and "s \<in> set (db_sessions d)"
    and "db_sessions d' = revoked_rows R now (db_sessions d)" and "sn_revoked s = None \<longrightarrow> R s"
  shows "dead (sn_hash s) d'"
proof -
  have same: "r = s" if "r \<in> set (db_sessions d)" "sn_hash r = sn_hash s" for r
    using that assms(1,2) by (auto simp: distinct_map dest: inj_onD)
  have "list_all (\<lambda>r. sn_hash r = sn_hash s \<longrightarrow> sn_revoked r \<noteq> None) (db_sessions d')"
    using assms(4) same by (auto simp: assms(3) revoked_rows_def update_rows_def list_all_iff)
  moreover have "list_ex (\<lambda>r. sn_hash r = sn_hash s) (db_sessions d')"
  proof -
    have "(if R s then s\<lparr>sn_revoked := Some now\<rparr> else s) \<in> set (db_sessions d')"
      using assms(2) by (auto simp: assms(3) revoked_rows_def update_rows_def)
    then show ?thesis unfolding list_ex_iff by (rule rev_bexI) simp
  qed
  ultimately show ?thesis by (simp add: dead_def)
qed

text \<open>The operations that end the sessions of a user, and the one that ends a single session.\<close>

fun ends_session :: "collation \<Rightarrow> session_row \<Rightarrow> store_op \<Rightarrow> bool" where
  "ends_session k s (OpUpdateUser i c) = (aeq k (sn_user s) i \<and> uc_status c \<noteq> user_active)"
| "ends_session k s (OpDeleteUser i) = aeq k (sn_user s) i"
| "ends_session k s (OpSetPassword i hash keep) = (aeq k (sn_user s) i \<and> (keep = [] \<or> sn_hash s \<noteq> keep))"
| "ends_session k s (OpRevokeUserSessions i) = aeq k (sn_user s) i"
| "ends_session k s (OpRevokeSession hash) = (sn_hash s = hash)"
| "ends_session k s _ = False"

lemma revoke_sessions_rows:
  "db_sessions (revoke_sessions k now i keep d) = revoked_rows (\<lambda>s. aeq k (sn_user s) i \<and>
     sn_revoked s = None \<and> (keep = [] \<or> sn_hash s \<noteq> keep)) now (db_sessions d)"
  by (simp add: revoke_sessions_def revoked_rows_def)

lemma discard_yields: "yields (discard m) d w x d' w' \<Longrightarrow> \<exists>y. yields m d w y d' w'"
  by (auto simp: discard_def act_simps)

lemma other_rows [simp]:
  "db_sessions (clear_overrides k i d) = db_sessions d"
  "db_sessions (set_users k i f d) = db_sessions d"
  by (simp_all add: clear_overrides_def set_users_def)

lemma ended_session:
  assumes "ends_session k s x" and "yields (op_act k now x) d w y d' w'"
  obtains R where "db_sessions d' = revoked_rows R now (db_sessions d)" and "sn_revoked s = None \<longrightarrow> R s"
proof (cases x)
  case (OpUpdateUser i c)
  with assms(2) obtain z where "yields (update_user k now i c) d w z d' w'"
    by (auto dest!: discard_yields)
  from tx_yields [OF this [unfolded update_user_def]] show ?thesis
  proof (elim exE, goal_cases)
    case (1 w1 w2)
    from update_user_body [OF 1] obtain current :: user_row where
      "d' = only_if (uc_status c \<noteq> user_active) (revoke_sessions k now i [])
          (only_if (us_group current \<noteq> uc_group c) (clear_overrides k i) (set_users k i (changed now c) d))"
      by blast
    then show ?case using that assms(1) OpUpdateUser
      by (auto simp: revoke_sessions_rows only_if_def cong: if_cong split: if_splits)
  qed
next
  case (OpDeleteUser i)
  with assms(2) have "yields (delete_user k now i) d w y d' w'" by simp
  from tx_yields [OF this [unfolded delete_user_def]] show ?thesis
  proof (elim exE, goal_cases)
    case (1 w1 w2)
    from delete_user_body [OF 1]
    have "d' = revoke_sessions k now i [] (clear_overrides k i (set_users k i (removed now) d))"
      by blast
    then show ?case using that assms(1) OpDeleteUser by (auto simp: revoke_sessions_rows)
  qed
next
  case (OpSetPassword i hash keep)
  with assms have "\<exists>us. d' = revoke_sessions k now i keep (d\<lparr>db_users := us\<rparr>)"
    by (auto simp: set_password_def Let_def andthen_yields act_simps
        dest!: tx_yields stmt_yields exec_yields)
  then show ?thesis using that assms(1) OpSetPassword by (auto simp: revoke_sessions_rows)
next
  case (OpRevokeUserSessions i)
  with assms have "d' = revoke_sessions k now i [] d"
    by (auto simp: revoke_user_sessions_def andthen_yields act_simps
        dest!: stmt_yields get_user_dest split: if_splits)
  then show ?thesis using that assms(1) OpRevokeUserSessions by (auto simp: revoke_sessions_rows)
next
  case (OpRevokeSession hash)
  with assms have "db_sessions d' = revoked_rows (\<lambda>s. sn_hash s = hash \<and> sn_revoked s = None) now (db_sessions d)"
    by (auto simp: revoke_session_row_def revoked_rows_def dest!: exec_yields)
  then show ?thesis using that assms(1) OpRevokeSession by auto
qed (use assms(1) in auto)

lemma authenticate_live:
  assumes "yields (authenticate H k opt now token) d w se d' w'"
  shows "\<exists>s u. (s, u) \<in> set (session_users k d) \<and> session_token_hash H token = Some (sn_hash s) \<and>
    live_session now s \<and> active_user k u"
proof -
  from assms obtain hash s u d1 w1 where h: "session_token_hash H token = Some hash"
    and f: "yields (on_error unauthenticated (find_session k now hash)) d w (s, u) d1 w1"
    unfolding authenticate_def by (auto simp: act_simps split: prod.splits)
  from f have "find (\<lambda>(s, u). sn_hash s = hash \<and> live_session now s \<and> active_user k u)
      (session_users k d) = Some (s, u)"
    unfolding find_session_def
    by (auto elim!: on_error_yields simp: act_simps unauthenticated_def dest!: query_yields)
  then show ?thesis using h by (auto simp: find_Some_iff in_set_conv_nth)
qed

lemma dead_not_authenticated:
  assumes "dead h d" and "session_token_hash H token = Some h"
  shows "\<not> yields (authenticate H k opt now token) d w se d' w'"
proof
  assume "yields (authenticate H k opt now token) d w se d' w'"
  from authenticate_live [OF this] assms(2) obtain s u where "(s, u) \<in> set (session_users k d)"
    "sn_hash s = h" "sn_revoked s = None" by (auto simp: live_session_def)
  then show False using assms(1) by (auto simp: dead_def session_users_def list_all_iff)
qed

text \<open>
  C9: once an operation has ended a session (logout, disabling or deleting the user, a password
  change, forced sign-out), its token is never accepted again, whatever is done to the tables
  afterwards: re-enabling the user, new sessions, touching the session, restarts.
\<close>

theorem ended_session_stays_dead:
  assumes "distinct (map sn_hash (db_sessions d))" and "s \<in> set (db_sessions d)"
    and "session_token_hash H token = Some (sn_hash s)"
    and "ends_session k s x" and "yields (op_act k now x) d w () d1 w1"
  shows "\<not> yields (authenticate H k opt later token) (run_steps (store_step k) d1 cs) w2 se d2 w3"
proof -
  from ended_session [OF assms(4,5)] obtain R where
    "db_sessions d1 = revoked_rows R now (db_sessions d)" "sn_revoked s = None \<longrightarrow> R s" by blast
  from dead_after [OF assms(1,2) this] have "dead (sn_hash s) d1" .
  then have "dead (sn_hash s) (run_steps (store_step k) d1 cs)"
    using revoked.keep_run [of "sn_hash s" d1 k cs] by blast
  then show ?thesis by (rule dead_not_authenticated [OF _ assms(3)])
qed

text \<open>A stand-in for SHA-256 in the witnesses: the identity.\<close>

definition sample_token :: string where
  "sample_token = b64_encode (replicate 32 (CHR ''x''))"

definition sample_session :: session_row where
  "sample_session = \<lparr>sn_hash = sample_token, sn_user = ''b2'', sn_created = 0, sn_seen = 0,
     sn_expires = 1000, sn_idle = 1000, sn_revoked = None, sn_ip = [], sn_agent = []\<rparr>"

definition session_db :: panel_db where
  "session_db = sample_db\<lparr>db_sessions := [sample_session]\<rparr>"

text \<open>The token works, the user is deleted, and then created again and again.\<close>

theorem ended_session_stays_dead_witness:
  "fst (authenticate id folding \<lparr>ao_lifetime = 1000, ao_idle = 1000\<rparr> 5 sample_token session_db []) \<noteq> Err ''ErrUnauthenticated'' \<and>
   (\<exists>d1. yields (op_act folding 5 (OpDeleteUser ''B2'')) session_db [] () d1 [] \<and>
      (\<forall>cs opt later w2 se d2 w3. \<not> yields (authenticate id folding opt later sample_token)
         (run_steps (store_step folding) d1 cs) w2 se d2 w3))"
proof -
  have t: "session_token_hash id sample_token = Some (sn_hash sample_session)" by code_simp
  have dl: "(case op_act folding 5 (OpDeleteUser ''B2'') session_db [] of
      (r, d1, w) \<Rightarrow> r = Inr () \<and> w = [])" by code_simp
  then obtain d1 where y: "yields (op_act folding 5 (OpDeleteUser ''B2'')) session_db [] () d1 []"
    by (auto split: prod.splits)
  have e: "ends_session folding sample_session (OpDeleteUser ''B2'')" by code_simp
  have d: "distinct (map sn_hash (db_sessions session_db))" and m: "sample_session \<in> set (db_sessions session_db)"
    by (simp_all add: session_db_def)
  have "(case authenticate id folding \<lparr>ao_lifetime = 1000, ao_idle = 1000\<rparr> 5 sample_token session_db [] of
      (Inl _, _) \<Rightarrow> False | (Inr _, _) \<Rightarrow> True)" by code_simp
  then have "fst (authenticate id folding \<lparr>ao_lifetime = 1000, ao_idle = 1000\<rparr> 5 sample_token session_db [])
      \<noteq> Err ''ErrUnauthenticated''" by (auto split: prod.splits sum.splits)
  then show ?thesis using ended_session_stays_dead [OF d m t e y] y by blast
qed

section \<open>The last super administrator\<close>

text \<open>
  C6: an active super administrator is left after every run of the store, with every operation and
  every outcome of its statements, provided that requests spell identifiers and group codes the way
  they are stored (the server compares them by their collation, the code by their bytes); user
  identifiers stay unique.
\<close>

theorem last_super_admin_stays:
  assumes "codes_apart k" and "accounts_wf k d" and "spelled_run k d cs"
  shows "list_ex super_admin_row (db_users (run_steps (store_step k) d cs)) \<and>
    distinct (map (\<lambda>u. k_ascii k (us_id u)) (db_users (run_steps (store_step k) d cs)))"
  using accounts_run [OF assms] by (simp add: accounts_wf_def)

definition demote :: user_changes where
  "demote = \<lparr>uc_display = ''x'', uc_group = ''operator'', uc_status = user_active\<rparr>"

definition promote :: user_changes where
  "promote = \<lparr>uc_display = ''x'', uc_group = group_super_admin, uc_status = user_active\<rparr>"

definition sample_calls :: "store_call list" where
  "sample_calls = [(1, OpDeleteUser ''a1'', []), (2, OpUpdateUser ''b2'' promote, []),
     (3, OpUpdateUser ''a1'' demote, []), (4, OpDeleteUser ''b2'', [])]"

theorem last_super_admin_stays_witness:
  "list_ex super_admin_row (db_users (run_steps (store_step folding) sample_db sample_calls)) \<and>
   map us_group (db_users (run_steps (store_step folding) sample_db sample_calls)) =
     [''operator'', ''super_admin'']"
proof -
  have "codes_apart folding" and "accounts_wf folding sample_db"
    and "spelled_run folding sample_db sample_calls" by code_simp+
  moreover have "map us_group (db_users (run_steps (store_step folding) sample_db sample_calls)) =
      [''operator'', ''super_admin'']" by code_simp
  ultimately show ?thesis using last_super_admin_stays by blast
qed

section \<open>Behaviour against the intent\<close>

text \<open>
  \<open>ensureAnotherSuperAdmin\<close> excludes the user by comparing bytes (\<open>id != excludedUserID\<close>), while the
  statements around it find the user by the collation of the column, which ignores letter case: with
  the identifier in another case the last super administrator counts as another one and is deleted.
\<close>

lemma last_super_admin_deleted:
  "list_ex super_admin_row (db_users sample_db) \<and>
   fst (delete_user folding 5 ''A1'' sample_db []) = Inr () \<and>
   \<not> list_ex super_admin_row (db_users (fst (snd (delete_user folding 5 ''A1'' sample_db []))))"
  by code_simp

text \<open>
  \<open>UpdateUserGroup\<close> lets a super administrator take permissions away from a built-in group, but the
  schema is initialised at every start and \<open>INSERT IGNORE\<close> grants every default again that is missing.
\<close>

lemma insert_ignore_keeps: "list_ex P rs \<Longrightarrow> list_ex P (insert_ignore same xs rs)"
  by (induction same xs rs rule: insert_ignore.induct) auto

lemma insert_ignore_present:
  assumes "\<And>x. same x x"
  shows "x \<in> set xs \<Longrightarrow> list_ex (same x) (insert_ignore same xs rs)"
  using assms by (induction same xs rs rule: insert_ignore.induct) (auto intro: insert_ignore_keeps)

lemma restart_grants_again:
  assumes "yields (initialize_schema k names now) d w x d' w'" and "(g, p) \<in> set seed_perm_rows"
  shows "list_ex (\<lambda>r. aeq k g (fst r) \<and> aeq k p (snd r)) (db_perms d')"
proof -
  from assms(1) have "db_perms d' = insert_ignore (\<lambda>x y. aeq k (fst x) (fst y) \<and> aeq k (snd x) (snd y))
      seed_perm_rows (db_perms d)"
    unfolding initialize_schema_def by (auto simp: act_simps dest!: exec_yields)
  then show ?thesis
    using insert_ignore_present [OF _ assms(2), of "\<lambda>x y. aeq k (fst x) (fst y) \<and> aeq k (snd x) (snd y)"]
    by simp
qed

end
