(* ===== verification/PanelApi_Props.thy ===== *)
theory PanelApi_Props
  imports PanelApi PanelStore_Props
begin

text \<open>
  Properties of the account handlers: a user who is not a super administrator cannot create or
  change a user into one with more permissions than their own, and only super administrators
  change permissions and groups.
\<close>

section \<open>What the steps of a handler establish\<close>

lemma public_yields: "yields (public m) d w x d' w' \<longleftrightarrow> yields m d w x d' w'"
  by (auto simp: public_def on_error_def raise_def split: prod.splits sum.splits)

lemma contains_all_iff: "contains_all avail ps \<longleftrightarrow> set ps \<subseteq> set avail"
  by (induction ps) auto

lemma get_user_group_dest:
  assumes "yields (get_user_group k code) d w g d' w'"
  shows "d' = d \<and> aeq k (gp_code (ug_row g)) code \<and>
    (gp_code (ug_row g) = group_super_admin \<or>
     ug_permissions g = sort (defaults_of k (gp_code (ug_row g)) d))"
proof -
  from assms obtain r d1 w1 n where f: "find (\<lambda>g. aeq k (gp_code g) code) (db_groups d) = Some r"
    and p: "yields (andthen (group_permissions_of k (gp_code r)) (\<lambda>ps.
      ret \<lparr>ug_row = r, ug_permissions = ps, ug_count = n\<rparr>)) d w1 g d' w'"
    unfolding get_user_group_def by (fastforce simp: act_simps dest!: query_yields)
  from f have "aeq k (gp_code r) code" by (auto simp: find_Some_iff)
  with p show ?thesis
    unfolding group_permissions_of_def group_permission_set_def defaults_of_def
    by (auto simp: act_simps dest!: query_yields split: if_splits)
qed

lemma get_user_group_row:
  assumes "yields (get_user_group k code) d w g d' w'"
  shows "ug_row g \<in> set (db_groups d)"
proof -
  from assms obtain r where "find (\<lambda>g. aeq k (gp_code g) code) (db_groups d) = Some r" and "ug_row g = r"
    unfolding get_user_group_def by (fastforce simp: act_simps dest!: query_yields)
  then show ?thesis by (auto simp: find_Some_iff)
qed

lemma decorate_user_dest:
  assumes "yields (decorate_user k now u) d w v d' w'"
  shows "d' = d \<and> ur_row v = u \<and>
    (\<exists>w1 w2. yields (effective_permissions k (us_id u) (us_group u)) d w1 (ur_permissions v) d w2)"
proof -
  from assms obtain g d1 w1 ps d2 w2 where
    g: "yields (get_user_group k (us_group u)) d w g d1 w1"
    and e: "yields (effective_permissions k (us_id u) (us_group u)) d1 w1 ps d2 w2"
    and v: "ur_row v = u" "ur_permissions v = ps"
    unfolding decorate_user_def by (auto simp: act_simps)
  have "d1 = d" and "d2 = d1"
    using get_user_group_dest [OF g] reads_yields [OF reads_effective_permissions e] by simp_all
  moreover have "d' = d" using reads_yields [OF reads_decorate_user assms] .
  ultimately show ?thesis using v e by auto
qed

lemma defaults_aeq: "aeq k a b \<Longrightarrow> defaults_of k a d = defaults_of k b d"
  by (simp add: defaults_of_def aeq_def)

lemma aeq_id_overrides:
  "aeq k a b \<Longrightarrow> filter (\<lambda>r. aeq k (ov_user r) a) rs = filter (\<lambda>r. aeq k (ov_user r) b) rs"
  by (simp add: aeq_def)

text \<open>Permissions of a user without overrides are those of the group.\<close>

lemma effective_plain:
  assumes "yields (effective_permissions k i g) d w ps d' w'" and "g \<noteq> group_super_admin"
    and "filter (\<lambda>r. aeq k (ov_user r) i) (db_overrides d) = []"
  shows "set ps = set (defaults_of k g d)"
  using effective_yields [OF assms(1,2)] assms(3) by (simp add: defaults_of_def)

lemma effective_same:
  assumes "yields (effective_permissions k i g) d w ps d1 w1"
    and "yields (effective_permissions k i g) e v qs e1 v1" and "g \<noteq> group_super_admin"
    and "db_perms e = db_perms d" and "db_overrides e = db_overrides d"
  shows "qs = ps"
  using effective_yields [OF assms(1,3)] effective_yields [OF assms(2,3)] assms(4,5) by simp

text \<open>The group of super administrators is stored under its own spelling; overrides belong to users.\<close>

definition tables_wf :: "collation \<Rightarrow> panel_db \<Rightarrow> bool" where
  "tables_wf k d \<longleftrightarrow>
     list_all (\<lambda>g. spelled k (gp_code g) group_super_admin) (db_groups d) \<and>
     list_all (\<lambda>r. user_known k (ov_user r) d) (db_overrides d)"

lemma assignment_dest:
  assumes y: "yields (authorize_group_assignment k actor grp) d w x d' w'"
    and actor: "\<not> is_super_admin actor" "''*'' \<notin> set (ur_permissions actor)" and wf: "tables_wf k d"
  shows "d' = d \<and> trim_space grp \<noteq> group_super_admin \<and>
    set (defaults_of k (trim_space grp) d) \<subseteq> set (ur_permissions actor)"
proof -
  from y obtain g d1 w1 where g: "yields (get_user_group k (trim_space grp)) d w g d1 w1"
    and c: "gp_code (ug_row g) \<noteq> group_super_admin"
      "permission_set_contains (ur_permissions actor) (ug_permissions g)" and "d' = d1"
    using actor(1) unfolding authorize_group_assignment_def
    by (auto simp: act_simps public_yields split: if_splits)
  have "ug_row g \<in> set (db_groups d)" by (rule get_user_group_row [OF g])
  then have "spelled k (gp_code (ug_row g)) group_super_admin"
    using wf by (auto simp: tables_wf_def list_all_iff)
  with get_user_group_dest [OF g] c(1) have "trim_space grp \<noteq> group_super_admin"
    by (auto simp: spelled_def)
  with get_user_group_dest [OF g] defaults_aeq c actor(2) \<open>d' = d1\<close> show ?thesis
    by (fastforce simp: permission_set_contains_def contains_all_iff)
qed

lemma get_user_full: "yields (get_user k i) d w u d' w' \<Longrightarrow> d' = d \<and> find (by_id k i) (db_users d) = Some u"
  using get_user_find get_user_dest by blast

lemma update_user_dest:
  assumes "yields (update_user k now i c) d w x d' w'"
  shows "\<exists>current. find (by_id k i) (db_users d) = Some current \<and> x = changed now c current \<and>
    d' = only_if (uc_status c \<noteq> user_active) (revoke_sessions k now i [])
      (only_if (us_group current \<noteq> uc_group c) (clear_overrides k i) (set_users k i (changed now c) d))"
  using tx_yields [OF assms [unfolded update_user_def]]
  by (auto simp: andthen_yields ret_yields
      dest!: get_user_full when_ensure_dest exec_if_yields when_exec_dest)

lemma insert_user_dest:
  assumes "yields (insert_user k now n) d w x d' w'"
  shows "x = user_of now n \<and> insert_refused k n d = None \<and> d' = d\<lparr>db_users := user_of now n # db_users d\<rparr>"
  using assms unfolding insert_user_def
  by (auto simp: act_simps duplicate_to_conflict_def elim!: on_error_yields dest!: exec_if_yields)

lemma create_user_dest:
  assumes "yields (create_user K k now salt rnd name display grp pw) d w x d' w'"
  shows "\<exists>n. x = user_of now n \<and> nu_group n = trim_space grp \<and> insert_refused k n d = None \<and>
    d' = d\<lparr>db_users := user_of now n # db_users d\<rparr>"
proof -
  have prep: "nu_group n = g" if "prepare_user K salt rnd name display g pw = Inr n" for n g
    using that by (auto simp: prepare_user_def Let_def split: if_splits sum.splits option.splits)
  have lift: "yields (lift_result r) d w n d1 w1 \<Longrightarrow> r = Inr n \<and> d1 = d" for r d w d1 w1 and n :: new_user
    by (auto simp: lift_result_def act_simps split: sum.splits)
  show ?thesis
    using assms unfolding create_user_def user_group_exists_def store_create_user_def Let_def
    by (auto simp: act_simps dest!: query_yields lift insert_user_dest prep)
qed

section \<open>No escalation\<close>

lemma create_no_more:
  assumes y: "yields (create_user_handler K k now en actor r) d w (ReplyUser u) d' w'"
    and actor: "\<not> is_super_admin actor" "''*'' \<notin> set (ur_permissions actor)" and wf: "tables_wf k d"
  shows "set (ur_permissions u) \<subseteq> set (ur_permissions actor) \<and> \<not> is_super_admin u"
proof -
  from y obtain b d1 w1 d2 w2 row d3 w3 d4 w4 where
    rb: "yields (read_body r) d w b d1 w1"
    and ag: "yields (authorize_group_assignment k actor (in_group b)) d1 w1 () d2 w2"
    and cu: "yields (create_user K k now (en_salt en) (en_id en) (in_username b) (in_display b) (in_group b)
          (in_password b)) d2 w2 row d3 w3"
    and du: "yields (decorate_user k now row) d3 w3 u d4 w4"
    unfolding create_user_handler_def by (auto simp: act_simps public_yields)
  have d1: "d1 = d" using rb by (simp add: read_body_def act_simps)
  note g = assignment_dest [OF ag [unfolded d1] actor wf]
  from create_user_dest [OF cu] g obtain n where row: "row = user_of now n"
    and grp: "nu_group n = trim_space (in_group b)" and new: "insert_refused k n d = None"
    and d3: "d3 = d\<lparr>db_users := user_of now n # db_users d\<rparr>" by auto
  from decorate_user_dest [OF du] obtain v1 v2 where ur: "ur_row u = row"
    and e: "yields (effective_permissions k (us_id row) (us_group row)) d3 v1 (ur_permissions u) d3 v2" by blast
  have "\<not> user_known k (nu_id n) d"
    using new by (auto simp: insert_refused_def user_known_def list_ex_iff split: if_splits)
  then have none: "filter (\<lambda>o'. aeq k (ov_user o') (us_id row)) (db_overrides d3) = []"
    using wf by (auto simp: d3 row user_of_def tables_wf_def list_all_iff filter_empty_conv user_known_def
        list_ex_iff by_id_def aeq_def)
  have "us_group row \<noteq> group_super_admin" using g grp row by (simp add: user_of_def)
  with effective_plain [OF e this none] g grp show ?thesis
    by (auto simp: is_super_admin_def ur row user_of_def d3 defaults_of_def)
qed

lemma manageable_dest:
  assumes y: "yields (manageable_user k now actor i) d w t d' w'"
    and actor: "\<not> is_super_admin actor" "''*'' \<notin> set (ur_permissions actor)"
  shows "d' = d \<and> find (by_id k i) (db_users d) = Some (ur_row t) \<and> \<not> is_super_admin t \<and>
    set (ur_permissions t) \<subseteq> set (ur_permissions actor) \<and>
    (\<exists>w1 w2. yields (effective_permissions k (us_id (ur_row t)) (us_group (ur_row t))) d w1 (ur_permissions t) d w2)"
proof -
  from y obtain row d1 w1 d2 where g: "yields (get_user k i) d w row d1 w1"
    and du: "yields (decorate_user k now row) d1 w1 t d2 w'" and "d' = d2"
    and c: "\<not> is_super_admin t" "permission_set_contains (ur_permissions actor) (ur_permissions t)"
    using actor(1) unfolding manageable_user_def by (auto simp: act_simps public_yields split: if_splits)
  with get_user_full [OF g] decorate_user_dest [OF du] actor(2) show ?thesis
    by (auto simp: permission_set_contains_def contains_all_iff)
qed

text \<open>The steps of a successful \<open>updateUser\<close> request.\<close>

lemma update_handler_dest:
  assumes y: "yields (update_user_handler k now actor r i) d w (ReplyUser u) d' w'"
    and actor: "\<not> is_super_admin actor" "''*'' \<notin> set (ur_permissions actor)" and wf: "tables_wf k d"
  obtains t c row w1 d2 w2 w3 w4 where
    "find (by_id k i) (db_users d) = Some (ur_row t)" and "\<not> is_super_admin t"
    and "set (ur_permissions t) \<subseteq> set (ur_permissions actor)"
    and "yields (effective_permissions k (us_id (ur_row t)) (us_group (ur_row t))) d w1 (ur_permissions t) d w2"
    and "us_group (ur_row t) \<noteq> uc_group c \<longrightarrow> uc_group c \<noteq> group_super_admin \<and>
      set (defaults_of k (uc_group c) d) \<subseteq> set (ur_permissions actor)"
    and "yields (update_user k now i c) d w3 row d2 w4"
    and "yields (decorate_user k now row) d2 w4 u d' w'"
proof -
  from y obtain b d1 w1 t d2 w2 d3 w3 row d4 w4 where
    rb: "yields (read_body r) d w b d1 w1"
    and mu: "yields (manageable_user k now actor i) d1 w1 t d2 w2"
    and ag: "yields (when_do (us_group (ur_row t) \<noteq> trim_space (in_group b))
        (authorize_group_assignment k actor (trim_space (in_group b)))) d2 w2 () d3 w3"
    and uu: "yields (update_user k now i \<lparr>uc_display = trim_space (in_display b),
        uc_group = trim_space (in_group b), uc_status = in_status b\<rparr>) d3 w3 row d4 w4"
    and du: "yields (decorate_user k now row) d4 w4 u d' w'"
    unfolding update_user_handler_def Let_def by (auto simp: act_simps public_yields)
  have d1: "d1 = d" using rb by (simp add: read_body_def act_simps)
  note m = manageable_dest [OF mu [unfolded d1] actor]
  then obtain v1 v2 where te: "yields (effective_permissions k (us_id (ur_row t)) (us_group (ur_row t)))
      d v1 (ur_permissions t) d v2" by blast
  have d2: "d2 = d" using m by simp
  have g: "d3 = d \<and> (us_group (ur_row t) \<noteq> trim_space (in_group b) \<longrightarrow>
      trim_space (in_group b) \<noteq> group_super_admin \<and>
      set (defaults_of k (trim_space (in_group b)) d) \<subseteq> set (ur_permissions actor))"
  proof (cases "us_group (ur_row t) = trim_space (in_group b)")
    case True
    then show ?thesis using ag d2 by (simp add: when_do_yields)
  next
    case False
    then have "yields (authorize_group_assignment k actor (trim_space (in_group b))) d w2 () d3 w3"
      using ag d2 by (simp add: when_do_yields)
    from assignment_dest [OF this actor wf] show ?thesis by simp
  qed
  show ?thesis
    by (rule that [OF _ _ _ te _ uu [unfolded conjunct1 [OF g]] du]) (use m g in simp_all)
qed

lemma update_no_more:
  assumes "yields (update_user_handler k now actor r i) d w (ReplyUser u) d' w'"
    and "\<not> is_super_admin actor" "''*'' \<notin> set (ur_permissions actor)" and "tables_wf k d"
  shows "set (ur_permissions u) \<subseteq> set (ur_permissions actor) \<and> \<not> is_super_admin u"
  using assms
proof (rule update_handler_dest)
  fix t c row d2 w1 w2 w3 w4
  assume f: "find (by_id k i) (db_users d) = Some (ur_row t)" and nt: "\<not> is_super_admin t"
    and tp: "set (ur_permissions t) \<subseteq> set (ur_permissions actor)"
    and te: "yields (effective_permissions k (us_id (ur_row t)) (us_group (ur_row t))) d w1 (ur_permissions t) d w2"
    and ag: "us_group (ur_row t) \<noteq> uc_group c \<longrightarrow> uc_group c \<noteq> group_super_admin \<and>
      set (defaults_of k (uc_group c) d) \<subseteq> set (ur_permissions actor)"
    and uu: "yields (update_user k now i c) d w3 row d2 w4"
    and du: "yields (decorate_user k now row) d2 w4 u d' w'"
  from update_user_dest [OF uu] f have row: "row = changed now c (ur_row t)"
    and d2: "d2 = only_if (uc_status c \<noteq> user_active) (revoke_sessions k now i [])
      (only_if (us_group (ur_row t) \<noteq> uc_group c) (clear_overrides k i) (set_users k i (changed now c) d))"
    by auto
  from decorate_user_dest [OF du] obtain v1 v2 where ur: "ur_row u = row"
    and e: "yields (effective_permissions k (us_id row) (us_group row)) d2 v1 (ur_permissions u) d2 v2" by blast
  have perms: "db_perms d2 = db_perms d"
    by (simp add: d2 only_if_def revoke_sessions_def clear_overrides_def set_users_def)
  have id: "aeq k (us_id (ur_row t)) i" using f by (auto simp: find_Some_iff by_id_def)
  show ?thesis
  proof (cases "us_group (ur_row t) = uc_group c")
    case True
    then have "db_overrides d2 = db_overrides d"
      by (simp add: d2 only_if_def revoke_sessions_def set_users_def)
    then have "ur_permissions u = ur_permissions t"
      using effective_same [OF te _ _ perms] e nt True by (simp add: row changed_def is_super_admin_def)
    then show ?thesis using tp nt True by (simp add: is_super_admin_def ur row changed_def)
  next
    case False
    then have "filter (\<lambda>o'. aeq k (ov_user o') (us_id row)) (db_overrides d2) = []"
      using id by (auto simp: d2 only_if_def revoke_sessions_def clear_overrides_def row changed_def
          filter_empty_conv aeq_def)
    moreover have "us_group row \<noteq> group_super_admin" using ag False by (simp add: row changed_def)
    ultimately show ?thesis
      using effective_plain [OF e] ag False perms
      by (auto simp: is_super_admin_def ur row changed_def defaults_of_def)
  qed
qed

text \<open>
  C10: no escalation: a request by a user who is not a super administrator, when it creates or
  updates an account, leaves that account with no permission the requester does not have, and not
  as a super administrator.
\<close>

theorem no_escalation:
  assumes "yields (create_user_handler K k now en actor r) d w (ReplyUser u) d' w' \<or>
      yields (update_user_handler k now actor r i) d w (ReplyUser u) d' w'"
    and "\<not> is_super_admin actor" and "''*'' \<notin> set (ur_permissions actor)" and "tables_wf k d"
  shows "set (ur_permissions u) \<subseteq> set (ur_permissions actor) \<and> \<not> is_super_admin u"
  using assms(1) create_no_more [OF _ assms(2-4)] update_no_more [OF _ assms(2-4)] by (elim disjE) simp_all

definition api_db :: panel_db where
  "api_db = sample_db\<lparr>db_users := [sample_user ''a1'' ''super_admin'', sample_user ''b2'' ''operator'',
     sample_user ''c3'' ''observer'']\<rparr>"

definition sample_actor :: user where
  "sample_actor = \<lparr>ur_row = sample_user ''b2'' ''operator'', ur_permissions = [''file.read'', ''file.write''],
     ur_group_code = ''operator'', ur_group_name = ''operator'', ur_overrides = True, ur_active = 0\<rparr>"

definition sample_request :: request where
  "sample_request = \<lparr>rq_method = ''PUT'', rq_path = ''/api/v1/users/c3'', rq_query = (\<lambda>_. []),
     rq_cookie = None, rq_api_key = [], rq_body = Some \<lparr>in_username = [], in_display = ''Carol'',
       in_group = ''operator'', in_password = [], in_status = ''active'', in_permissions = [],
       in_users = [], in_name = [], in_desc = []\<rparr>\<rparr>"

definition reply_user :: "reply result \<Rightarrow> user option" where
  "reply_user r = (case r of Inr (ReplyUser u) \<Rightarrow> Some u | _ \<Rightarrow> None)"

theorem no_escalation_witness:
  "\<exists>u d' w'. yields (update_user_handler folding 9 sample_actor sample_request ''c3'') api_db [] (ReplyUser u) d' w' \<and>
     us_group (ur_row u) = ''operator'' \<and> set (ur_permissions u) \<subseteq> {''file.read'', ''file.write''}"
proof -
  let ?run = "update_user_handler folding 9 sample_actor sample_request ''c3'' api_db []"
  have "map_option (\<lambda>u. us_group (ur_row u)) (reply_user (fst ?run)) = Some ''operator''"
    by code_simp
  then obtain u d' w' where u: "?run = (Inr (ReplyUser u), d', w')" "us_group (ur_row u) = ''operator''"
    by (cases ?run) (auto simp: reply_user_def split: sum.splits reply.splits)
  have "\<not> is_super_admin sample_actor" and "tables_wf folding api_db" by code_simp+
  moreover have "''*'' \<notin> set (ur_permissions sample_actor)" by code_simp
  ultimately have "set (ur_permissions u) \<subseteq> set (ur_permissions sample_actor)"
    using no_escalation u(1) by blast
  with u show ?thesis by (auto simp: sample_actor_def)
qed

end
