(* ===== verification/PanelConfig.thy ===== *)
theory PanelConfig
  imports GoNetip
begin

text \<open>
  The panel's configuration (panel/internal/config/config.go) and the address a request is
  attributed to (panel/internal/api/auth_handlers.go). \<open>parse_url\<close> is \<open>net/url.Parse\<close> and
  \<open>parse_duration\<close> is \<open>time.ParseDuration\<close> (in nanoseconds), both \<open>None\<close> on an error; YAML decoding
  and files are left out. An error of validation is its presence: the texts are not modelled.
\<close>

section \<open>The configuration\<close>

record server_config =
  sv_listen :: string
  sv_port :: int

record database_config =
  dc_url :: string
  dc_username :: string
  dc_password :: string
  dc_name :: string
  dc_prefix :: string
  dc_open :: int
  dc_idle :: int

record auth_config =
  ac_cookie :: string
  ac_secure :: bool
  ac_same_site :: string
  ac_lifetime :: string
  ac_idle :: string

record security_config =
  sc_key_file :: string
  sc_origins :: "string list"
  sc_proxies :: "string list"

record player_config =
  pc_base_url :: string
  pc_token :: string

record config =
  cf_server :: server_config
  cf_database :: database_config
  cf_auth :: auth_config
  cf_security :: security_config
  cf_operators :: bool
  cf_player :: player_config
  cf_mail :: bool
  cf_frontend :: string

definition default_config :: config where
  "default_config = \<lparr>
     cf_server = \<lparr>sv_listen = ''127.0.0.1'', sv_port = 8080\<rparr>,
     cf_database = \<lparr>dc_url = ''127.0.0.1:3306'', dc_username = ''root'', dc_password = [],
       dc_name = ''prismpanel'', dc_prefix = ''prism_'', dc_open = 10, dc_idle = 5\<rparr>,
     cf_auth = \<lparr>ac_cookie = ''prism_session'', ac_secure = False, ac_same_site = ''lax'',
       ac_lifetime = ''24h'', ac_idle = ''2h''\<rparr>,
     cf_security = \<lparr>sc_key_file = ''data/master.key'',
       sc_origins = [''wails://wails.localhost'', ''http://wails.localhost'', ''https://wails.localhost''],
       sc_proxies = []\<rparr>,
     cf_operators = True, cf_player = \<lparr>pc_base_url = [], pc_token = []\<rparr>, cf_mail = False,
     cf_frontend = ''../frontend/dist''\<rparr>"

record url =
  u_scheme :: string
  u_host :: string
  u_user :: bool
  u_path :: string
  u_query :: string
  u_fragment :: string

text \<open>\<open>net.SplitHostPort\<close>.\<close>

definition split_host_port :: "string \<Rightarrow> (string \<times> string) option" where
  "split_host_port s =
     (case split_last (CHR '':'') s of
        None \<Rightarrow> None
      | Some (before, port) \<Rightarrow>
         (if s \<noteq> [] \<and> hd s = CHR ''['' then
            (let inner = takeWhile (\<lambda>c. c \<noteq> CHR '']'') s; rest = dropWhile (\<lambda>c. c \<noteq> CHR '']'') s
             in if rest = [] \<or> length before \<noteq> Suc (length inner) then None
                else if CHR ''['' \<in> set (tl inner) \<or> CHR ''['' \<in> set rest \<or> CHR '']'' \<in> set (tl rest) then None
                else Some (tl inner, port))
          else if CHR '':'' \<in> set before then None
          else if CHR ''['' \<in> set s \<or> CHR '']'' \<in> set s then None
          else Some (before, port)))"

definition is_letter :: "char \<Rightarrow> bool" where
  "is_letter c \<longleftrightarrow> (65 \<le> byte c \<and> byte c \<le> 90) \<or> (97 \<le> byte c \<and> byte c \<le> 122)"

definition database_identifier :: "string \<Rightarrow> bool" where
  "database_identifier s \<longleftrightarrow> s \<noteq> [] \<and> is_letter (hd s) \<and>
     list_all (\<lambda>c. is_letter c \<or> is_digit c \<or> c = CHR ''_'') (tl s)"

definition database_ok :: "database_config \<Rightarrow> bool" where
  "database_ok c \<longleftrightarrow>
     (case split_host_port (trim_space (dc_url c)) of
        None \<Rightarrow> False
      | Some (host, port_text) \<Rightarrow> trim_space host \<noteq> [] \<and>
         (case atoi port_text of None \<Rightarrow> False | Some port \<Rightarrow> 1 \<le> port \<and> port \<le> 65535)) \<and>
     trim_space (dc_username c) \<noteq> [] \<and>
     database_identifier (dc_name c) \<and> length (dc_name c) \<le> 64 \<and>
     database_identifier (dc_prefix c) \<and> length (dc_prefix c) \<le> 24"

definition same_site_mode :: "auth_config \<Rightarrow> string" where
  "same_site_mode c =
     (let m = to_lower (trim_space (ac_same_site c))
      in if m = ''strict'' then ''strict'' else if m = ''none'' then ''none'' else ''lax'')"

definition auth_ok :: "auth_config \<Rightarrow> bool" where
  "auth_ok c \<longleftrightarrow>
     (let m = to_lower (trim_space (ac_same_site c))
      in m \<in> set [[], ''lax'', ''strict''] \<or> m = ''none'' \<and> ac_secure c)"

definition positive_duration :: "(string \<Rightarrow> int option) \<Rightarrow> string \<Rightarrow> int option" where
  "positive_duration parse_duration v =
     (case parse_duration v of None \<Rightarrow> None | Some d \<Rightarrow> if d \<le> 0 then None else Some d)"

definition session_lifetime :: "(string \<Rightarrow> int option) \<Rightarrow> config \<Rightarrow> int option" where
  "session_lifetime pd c = positive_duration pd (ac_lifetime (cf_auth c))"

definition idle_timeout :: "(string \<Rightarrow> int option) \<Rightarrow> config \<Rightarrow> int option" where
  "idle_timeout pd c = positive_duration pd (ac_idle (cf_auth c))"

definition normalize_origin :: "(string \<Rightarrow> url option) \<Rightarrow> string \<Rightarrow> string option" where
  "normalize_origin parse_url raw =
     (let value = trim_space raw
      in if value = [] \<or> value \<noteq> raw then None
         else case parse_url value of
           None \<Rightarrow> None
         | Some u \<Rightarrow>
            (if u_scheme u = [] \<or> u_host u = [] \<or> u_user u \<or> (u_path u \<noteq> [] \<and> u_path u \<noteq> ''/'') \<or>
                u_query u \<noteq> [] \<or> u_fragment u \<noteq> [] then None
             else (let scheme = to_lower (u_scheme u)
                   in if scheme \<notin> set [''http'', ''https'', ''wails''] then None
                      else Some (scheme @ ''://'' @ to_lower (u_host u)))))"

definition normalize_trusted_proxy :: "string \<Rightarrow> netprefix option" where
  "normalize_trusted_proxy raw =
     (let value = trim_space raw
      in if value = [] \<or> value \<noteq> raw then None
         else case parse_addr value of
           Some a \<Rightarrow> Some (prefix_from (unmap a) (bit_len (unmap a)))
         | None \<Rightarrow>
            (case parse_prefix value of
               None \<Rightarrow> None
             | Some p \<Rightarrow> if is4in6 (pf_addr p) then None else Some (masked p)))"

text \<open>Normalised values pairwise distinct, each of them defined.\<close>

fun all_distinct :: "('a \<Rightarrow> 'b option) \<Rightarrow> 'b list \<Rightarrow> 'a list \<Rightarrow> bool" where
  "all_distinct f seen [] = True"
| "all_distinct f seen (x # xs) =
     (case f x of None \<Rightarrow> False | Some y \<Rightarrow> y \<notin> set seen \<and> all_distinct f (y # seen) xs)"

definition security_ok :: "(string \<Rightarrow> url option) \<Rightarrow> security_config \<Rightarrow> bool" where
  "security_ok parse_url c \<longleftrightarrow>
     all_distinct (normalize_origin parse_url) [] (sc_origins c) \<and>
     all_distinct (\<lambda>raw. map_option prefix_string (normalize_trusted_proxy raw)) [] (sc_proxies c)"

definition player_ok :: "(string \<Rightarrow> url option) \<Rightarrow> bool \<Rightarrow> player_config \<Rightarrow> bool" where
  "player_ok parse_url mail c \<longleftrightarrow>
     (let base = trim_space (pc_base_url c)
      in (base = [] \<or> (case parse_url base of
            None \<Rightarrow> False
          | Some u \<Rightarrow> u_scheme u \<in> set [''http'', ''https''] \<and> u_host u \<noteq> [] \<and> \<not> u_user u \<and>
              u_query u = [] \<and> u_fragment u = [])) \<and>
         (mail \<longrightarrow> base \<noteq> []) \<and> (mail \<longrightarrow> trim_space (pc_token c) \<noteq> []))"

definition config_ok :: "(string \<Rightarrow> url option) \<Rightarrow> (string \<Rightarrow> int option) \<Rightarrow> config \<Rightarrow> bool" where
  "config_ok parse_url pd c \<longleftrightarrow>
     sv_listen (cf_server c) \<noteq> [] \<and> 1 \<le> sv_port (cf_server c) \<and> sv_port (cf_server c) \<le> 65535 \<and>
     database_ok (cf_database c) \<and>
     1 \<le> dc_open (cf_database c) \<and> 0 \<le> dc_idle (cf_database c) \<and>
     dc_idle (cf_database c) \<le> dc_open (cf_database c) \<and>
     trim_space (ac_cookie (cf_auth c)) \<noteq> [] \<and>
     \<not> list_ex (\<lambda>x. x \<in> set [CHR '' '', CHR '';'', CHR ''='', CHR 0x09, CHR 0x0D, CHR 0x0A]) (ac_cookie (cf_auth c)) \<and>
     auth_ok (cf_auth c) \<and> session_lifetime pd c \<noteq> None \<and> idle_timeout pd c \<noteq> None \<and>
     trim_space (sc_key_file (cf_security c)) \<noteq> [] \<and> security_ok parse_url (cf_security c) \<and>
     cf_frontend c \<noteq> [] \<and> player_ok parse_url (cf_mail c) (cf_player c)"

text \<open>\<open>LoadOrCreate\<close> up to files and YAML: a missing file gives the default, unvalidated.\<close>

definition load_or_create ::
  "(string \<Rightarrow> url option) \<Rightarrow> (string \<Rightarrow> int option) \<Rightarrow> config option option \<Rightarrow> (config \<times> bool) option" where
  "load_or_create parse_url pd contents =
     (case contents of
        None \<Rightarrow> Some (default_config, True)
      | Some None \<Rightarrow> None
      | Some (Some c) \<Rightarrow> if config_ok parse_url pd c then Some (c, False) else None)"

section \<open>The source address of a request\<close>

definition is_trusted_proxy :: "string list \<Rightarrow> addr \<Rightarrow> bool" where
  "is_trusted_proxy cidrs a \<longleftrightarrow>
     list_ex (\<lambda>raw. case normalize_trusted_proxy raw of None \<Rightarrow> False | Some p \<Rightarrow> contains_addr p (unmap a)) cidrs"

definition parse_address_ip :: "string \<Rightarrow> addr option" where
  "parse_address_ip v = map_option unmap (parse_addr (trim_space v))"

definition client_ip :: "string \<Rightarrow> string" where
  "client_ip remote = (case split_host_port remote of Some (host, _) \<Rightarrow> host | None \<Rightarrow> remote)"

definition request_address_ip :: "string \<Rightarrow> addr option" where
  "request_address_ip remote =
     (case split_host_port remote of None \<Rightarrow> None | Some (host, _) \<Rightarrow> parse_address_ip host)"

text \<open>The loop over the forwarded addresses, from the last one backwards.\<close>

fun last_untrusted :: "string list \<Rightarrow> string list \<Rightarrow> addr option" where
  "last_untrusted cidrs [] = None"
| "last_untrusted cidrs (v # vs) =
     (case parse_address_ip v of
        None \<Rightarrow> None
      | Some a \<Rightarrow> if is_trusted_proxy cidrs a then last_untrusted cidrs vs else Some a)"

definition direct_access_source_ip :: "string list \<Rightarrow> string \<Rightarrow> string \<Rightarrow> string option" where
  "direct_access_source_ip cidrs remote_address header =
     (case request_address_ip remote_address of
        None \<Rightarrow> None
      | Some remote \<Rightarrow>
         (let forwarded = trim_space header
          in if forwarded = [] then Some (addr_string remote)
             else if \<not> is_trusted_proxy cidrs remote then None
             else map_option addr_string
               (last_untrusted cidrs (rev (split_on (CHR '','') forwarded)))))"

section \<open>What a client can claim\<close>

lemma last_untrusted_Some:
  assumes "last_untrusted cidrs vs = Some a"
  shows "\<exists>hops v rest. vs = hops @ v # rest \<and> parse_address_ip v = Some a \<and> \<not> is_trusted_proxy cidrs a \<and>
    list_all (\<lambda>h. case parse_address_ip h of None \<Rightarrow> False | Some b \<Rightarrow> is_trusted_proxy cidrs b) hops"
  using assms
proof (induction vs)
  case Nil
  then show ?case by simp
next
  case (Cons v vs)
  then obtain b where b: "parse_address_ip v = Some b" by (auto split: option.splits)
  show ?case
  proof (cases "is_trusted_proxy cidrs b")
    case True
    with Cons b obtain hops x rest where
      "vs = hops @ x # rest" "parse_address_ip x = Some a" "\<not> is_trusted_proxy cidrs a"
      "list_all (\<lambda>h. case parse_address_ip h of None \<Rightarrow> False | Some b \<Rightarrow> is_trusted_proxy cidrs b) hops"
      by auto
    then show ?thesis using True b by (intro exI [of _ "v # hops"]) auto
  next
    case False
    then have "b = a" using Cons.prems b by simp
    with False b show ?thesis
      by (intro exI [of _ "[]"] exI [of _ v] exI [of _ vs]) simp
  qed
qed

lemma last_untrusted_append:
  "last_untrusted cidrs vs = Some a \<Longrightarrow> last_untrusted cidrs (vs @ ws) = Some a"
  by (induction vs) (auto split: option.splits if_splits)

text \<open>
  C30: the address a request is attributed to is the TCP peer's when nothing is forwarded, and
  otherwise an address in front of trusted proxies only: the peer is trusted, and so is every hop
  behind the address in \<open>X-Forwarded-For\<close>. What a client writes in front of the chain the proxies
  append does not change the answer.
\<close>

theorem source_attribution:
  assumes src: "direct_access_source_ip cidrs remote header = Some ip"
    and trimmed: "trim_space header = header"
    and forged: "trim_space (forged @ CHR '','' # header) = forged @ CHR '','' # header"
  shows "(header = [] \<and> map_option addr_string (request_address_ip remote) = Some ip) \<or>
    (\<exists>peer a hops v rest. request_address_ip remote = Some peer \<and> is_trusted_proxy cidrs peer \<and>
       rev (split_on (CHR '','') header) = hops @ v # rest \<and> parse_address_ip v = Some a \<and>
       addr_string a = ip \<and> \<not> is_trusted_proxy cidrs a \<and>
       list_all (\<lambda>h. case parse_address_ip h of None \<Rightarrow> False | Some b \<Rightarrow> is_trusted_proxy cidrs b) hops \<and>
       direct_access_source_ip cidrs remote (forged @ CHR '','' # header) = Some ip)"
proof (cases "header = []")
  case True
  then show ?thesis using src
    by (auto simp: direct_access_source_ip_def trimmed split: option.splits if_splits)
next
  case False
  then obtain peer a where peer: "request_address_ip remote = Some peer" "is_trusted_proxy cidrs peer"
    and a: "last_untrusted cidrs (rev (split_on (CHR '','') header)) = Some a" "addr_string a = ip"
    using src by (auto simp: direct_access_source_ip_def trimmed Let_def split: option.splits if_splits)
  have "direct_access_source_ip cidrs remote (forged @ CHR '','' # header) = Some ip"
    using last_untrusted_append [OF a(1)] peer a(2)
    by (simp add: direct_access_source_ip_def forged split_on_append)
  with last_untrusted_Some [OF a(1)] peer a(2) show ?thesis by blast
qed

theorem source_attribution_witness:
  "direct_access_source_ip [''10.0.0.0/8''] ''10.1.1.1:443'' ''203.0.113.7, 10.2.2.2'' = Some ''203.0.113.7'' \<and>
   direct_access_source_ip [''10.0.0.0/8''] ''10.1.1.1:443'' ''1.2.3.4,203.0.113.7, 10.2.2.2'' = Some ''203.0.113.7''"
proof -
  have "direct_access_source_ip [''10.0.0.0/8''] ''10.1.1.1:443'' ''203.0.113.7, 10.2.2.2'' = Some ''203.0.113.7''"
    and "trim_space ''203.0.113.7, 10.2.2.2'' = ''203.0.113.7, 10.2.2.2''"
    and "trim_space (''1.2.3.4'' @ CHR '','' # ''203.0.113.7, 10.2.2.2'') = ''1.2.3.4'' @ CHR '','' # ''203.0.113.7, 10.2.2.2''"
    by code_simp+
  from source_attribution [OF this] this show ?thesis by auto
qed

end
