(* ===== verification/GoTime.thy ===== *)
theory GoTime
  imports GoStrings
begin

text \<open>
  The part of Go's \<open>time\<close> the schedules use. A \<open>time.Time\<close> is the number of nanoseconds since the
  Unix epoch, a \<open>time.Duration\<close> a 64-bit count of nanoseconds. A \<open>*time.Location\<close> is the table the
  runtime looks offsets up in: for a second it returns the offset from UTC and the half-open
  interval of seconds in which this offset holds; the tables themselves (time/tzdata) are a
  parameter. A calendar date is its day number (1970-01-01 is day 0); the year-month-day form the
  code writes is a bijection with it that \<open>time.Date\<close> and \<open>Time.Date\<close> undo.
\<close>

section \<open>Durations\<close>

definition second_ns :: int where
  "second_ns = 10 ^ 9"

definition max64 :: int where
  "max64 = 2 ^ 63 - 1"

definition wrap64 :: "int \<Rightarrow> int" where
  "wrap64 n = (n + 2 ^ 63) mod 2 ^ 64 - 2 ^ 63"

text \<open>\<open>Time.Sub\<close> saturates, \<open>/\<close> truncates towards zero, \<open>*\<close> wraps.\<close>

definition sub_time :: "int \<Rightarrow> int \<Rightarrow> int" where
  "sub_time a b = max (- (2 ^ 63)) (min max64 (a - b))"

definition quot_int :: "int \<Rightarrow> int \<Rightarrow> int" where
  "quot_int a b = (if a < 0 then - ((- a) div b) else a div b)"

lemma wrap64_id: "- (2 ^ 63) \<le> n \<Longrightarrow> n < 2 ^ 63 \<Longrightarrow> wrap64 n = n"
  by (simp add: wrap64_def)

lemma sub_time_id: "\<bar>a - b\<bar> < 2 ^ 63 \<Longrightarrow> sub_time a b = a - b"
  by (auto simp: sub_time_def max64_def)

section \<open>Locations\<close>

type_synonym zone = "int \<Rightarrow> int \<times> int \<times> int"

definition zone_offset :: "zone \<Rightarrow> int \<Rightarrow> int" where
  "zone_offset z sec = fst (z sec)"

definition local_seconds :: "zone \<Rightarrow> int \<Rightarrow> int" where
  "local_seconds z t = t div second_ns + zone_offset z (t div second_ns)"

definition day_of :: "zone \<Rightarrow> int \<Rightarrow> int" where
  "day_of z t = local_seconds z t div 86400"

definition clock_of :: "zone \<Rightarrow> int \<Rightarrow> int" where
  "clock_of z t = local_seconds z t mod 86400"

text \<open>\<open>time.Weekday\<close>: 0 is Sunday; day 0 was a Thursday.\<close>

definition weekday_of :: "zone \<Rightarrow> int \<Rightarrow> int" where
  "weekday_of z t = (day_of z t + 4) mod 7"

text \<open>
  \<open>time.Date\<close>: the local second is looked up as if it were UTC, and once more if the offset found
  does not hold at the instant it leads to.
\<close>

definition go_date :: "zone \<Rightarrow> int \<Rightarrow> int \<Rightarrow> int \<Rightarrow> int" where
  "go_date z day clock nsec =
     (let unix = day * 86400 + clock
      in case z unix of (off, start, stop) \<Rightarrow>
           (let utc = unix - off;
                off' = (if off \<noteq> 0 \<and> (utc < start \<or> stop \<le> utc) then zone_offset z utc else off)
            in (unix - off') * second_ns + nsec))"

text \<open>\<open>Time.AddDate(0, 0, days)\<close>: the same clock on another day.\<close>

definition add_days :: "zone \<Rightarrow> int \<Rightarrow> int \<Rightarrow> int" where
  "add_days z t days = go_date z (day_of z t + days) (clock_of z t) (t mod second_ns)"

text \<open>A location without transitions (UTC, or a zone that keeps its offset).\<close>

definition fixed_zone :: "int \<Rightarrow> zone" where
  "fixed_zone off = (\<lambda>_. (off, - (2 ^ 63), max64))"

definition steady :: "zone \<Rightarrow> int \<Rightarrow> bool" where
  "steady z off \<longleftrightarrow> (\<forall>sec. zone_offset z sec = off)"

lemma steady_fixed [simp]: "steady (fixed_zone off) off"
  by (simp add: steady_def zone_offset_def fixed_zone_def)

lemma go_date_steady:
  assumes "steady z off"
  shows "go_date z day clock nsec = (day * 86400 + clock - off) * second_ns + nsec"
  using assms unfolding go_date_def Let_def steady_def zone_offset_def
  by (auto split: prod.splits) (metis fst_conv)+

lemma local_seconds_steady:
  "steady z off \<Longrightarrow> local_seconds z t = t div second_ns + off"
  by (simp add: local_seconds_def steady_def)

lemma add_days_steady:
  assumes "steady z off"
  shows "add_days z t n = t + n * 86400 * second_ns"
proof -
  have "day_of z t * 86400 + clock_of z t = t div second_ns + off"
    unfolding day_of_def clock_of_def local_seconds_steady [OF assms] by (rule div_mult_mod_eq)
  then have "(day_of z t + n) * 86400 + clock_of z t - off = t div second_ns + n * 86400"
    by (simp add: algebra_simps)
  then have "add_days z t n = (t div second_ns + n * 86400) * second_ns + t mod second_ns"
    unfolding add_days_def go_date_steady [OF assms] by simp
  also have "\<dots> = ((t div second_ns) * second_ns + t mod second_ns) + n * 86400 * second_ns"
    by (simp add: distrib_right)
  also have "(t div second_ns) * second_ns + t mod second_ns = t"
    by (rule div_mult_mod_eq)
  finally show ?thesis .
qed

section \<open>Clock times\<close>

text \<open>
  \<open>time.Parse\<close> with the layouts \<open>15:04:05\<close> and \<open>15:04\<close>: the hour has one or two digits, minute and
  second exactly two, and a fraction of a second may follow the second.
\<close>

fun get_num :: "bool \<Rightarrow> string \<Rightarrow> (int \<times> string) option" where
  "get_num fixed [] = None"
| "get_num fixed (a # s) =
     (if \<not> is_digit a then None
      else case s of
        b # s' \<Rightarrow> if is_digit b then Some (10 * digit_val a + digit_val b, s')
                  else if fixed then None else Some (digit_val a, s)
      | [] \<Rightarrow> if fixed then None else Some (digit_val a, []))"

definition skip_fraction :: "string \<Rightarrow> string" where
  "skip_fraction s =
     (case s of
        c # d # r \<Rightarrow>
          if (c = CHR ''.'' \<or> c = CHR '','') \<and> is_digit d then dropWhile is_digit r else s
      | _ \<Rightarrow> s)"

definition skip_char :: "char \<Rightarrow> string \<Rightarrow> string option" where
  "skip_char x s = (case s of c # r \<Rightarrow> if c = x then Some r else None | [] \<Rightarrow> None)"

definition below :: "int \<Rightarrow> (int \<times> string) option \<Rightarrow> (int \<times> string) option" where
  "below n r = (case r of Some (v, s) \<Rightarrow> if v < n then Some (v, s) else None | None \<Rightarrow> None)"

definition parse_hm :: "string \<Rightarrow> (int \<times> int \<times> string) option" where
  "parse_hm s =
     (case below 24 (get_num False s) of
        None \<Rightarrow> None
      | Some (h, s1) \<Rightarrow>
          (case skip_char (CHR '':'') s1 of
             None \<Rightarrow> None
           | Some s2 \<Rightarrow>
               (case below 60 (get_num True s2) of
                  None \<Rightarrow> None
                | Some (m, s3) \<Rightarrow> Some (h, m, s3))))"

definition layout_hm :: "string \<Rightarrow> (int \<times> int \<times> int) option" where
  "layout_hm s = (case parse_hm s of Some (h, m, []) \<Rightarrow> Some (h, m, 0) | _ \<Rightarrow> None)"

definition layout_hms :: "string \<Rightarrow> (int \<times> int \<times> int) option" where
  "layout_hms s =
     (case parse_hm s of
        None \<Rightarrow> None
      | Some (h, m, s1) \<Rightarrow>
          (case skip_char (CHR '':'') s1 of
             None \<Rightarrow> None
           | Some s2 \<Rightarrow>
               (case below 60 (get_num True s2) of
                  Some (sec, s3) \<Rightarrow> if skip_fraction s3 = [] then Some (h, m, sec) else None
                | None \<Rightarrow> None)))"

definition clock_ok :: "int \<times> int \<times> int \<Rightarrow> bool" where
  "clock_ok c = (case c of (h, m, s) \<Rightarrow> 0 \<le> h \<and> h < 24 \<and> 0 \<le> m \<and> m < 60 \<and> 0 \<le> s \<and> s < 60)"

lemma get_num_nonneg: "get_num fixed s = Some (v, r) \<Longrightarrow> 0 \<le> v"
  by (cases s) (auto simp: is_digit_def digit_val_def split: list.splits if_splits)

lemma below_bound: "below n (get_num fixed s) = Some (v, r) \<Longrightarrow> 0 \<le> v \<and> v < n"
  by (auto simp: below_def get_num_nonneg split: option.splits prod.splits if_splits)

lemma parse_hm_bound: "parse_hm s = Some (h, m, r) \<Longrightarrow> 0 \<le> h \<and> h < 24 \<and> 0 \<le> m \<and> m < 60"
  unfolding parse_hm_def by (auto split: option.splits prod.splits dest: below_bound)

lemma layout_hm_ok: "layout_hm s = Some c \<Longrightarrow> clock_ok c"
  unfolding layout_hm_def clock_ok_def
  by (auto split: option.splits prod.splits list.splits dest: parse_hm_bound)

lemma layout_hms_ok: "layout_hms s = Some c \<Longrightarrow> clock_ok c"
  unfolding layout_hms_def clock_ok_def
  by (auto split: option.splits prod.splits if_splits dest: parse_hm_bound below_bound)

section \<open>Timestamps\<close>

text \<open>The day number of a date of the Gregorian calendar, and the length of a month.\<close>

definition leap_year :: "int \<Rightarrow> bool" where
  "leap_year y \<longleftrightarrow> y mod 4 = 0 \<and> (y mod 100 \<noteq> 0 \<or> y mod 400 = 0)"

definition days_in :: "int \<Rightarrow> int \<Rightarrow> int" where
  "days_in m y =
     (if m = 2 then (if leap_year y then 29 else 28)
      else if m = 4 \<or> m = 6 \<or> m = 9 \<or> m = 11 then 30 else 31)"

definition day_number :: "int \<Rightarrow> int \<Rightarrow> int \<Rightarrow> int" where
  "day_number y m d =
     (let y' = (if m \<le> 2 then y - 1 else y);
          yoe = y' mod 400;
          doy = (153 * ((m + 9) mod 12) + 2) div 5 + d - 1
      in y' div 400 * 146097 + yoe * 365 + yoe div 4 - yoe div 100 + doy - 719468)"

text \<open>
  \<open>time.Parse(time.RFC3339, s)\<close>: the pieces in order, each taken off the front. The fraction counts
  to nine digits; a numeric zone may be as far as 24:60 from UTC.
\<close>

definition get_year :: "string \<Rightarrow> (int \<times> string) option" where
  "get_year s =
     (if length s < 4 \<or> \<not> list_all is_digit (take 4 s) then None
      else Some (digits_val (take 4 s), drop 4 s))"

definition get_date :: "string \<Rightarrow> (int \<times> int \<times> int \<times> string) option" where
  "get_date s =
     (case get_year s of None \<Rightarrow> None
      | Some (y, s1) \<Rightarrow> (case skip_char (CHR ''-'') s1 of None \<Rightarrow> None
      | Some s2 \<Rightarrow> (case get_num True s2 of None \<Rightarrow> None
      | Some (m, s3) \<Rightarrow> (case skip_char (CHR ''-'') s3 of None \<Rightarrow> None
      | Some s4 \<Rightarrow> (case get_num True s4 of None \<Rightarrow> None
      | Some (d, s5) \<Rightarrow>
          if 1 \<le> m \<and> m \<le> 12 \<and> 1 \<le> d \<and> d \<le> days_in m y then Some (y, m, d, s5) else None)))))"

definition fraction_ns :: "string \<Rightarrow> int" where
  "fraction_ns ds = digits_val (take 9 ds) * 10 ^ (9 - length (take 9 ds))"

definition get_fraction :: "string \<Rightarrow> int \<times> string" where
  "get_fraction s =
     (case s of
        c # d # r \<Rightarrow>
          if (c = CHR ''.'' \<or> c = CHR '','') \<and> is_digit d
          then (fraction_ns (takeWhile is_digit (d # r)), dropWhile is_digit r) else (0, s)
      | _ \<Rightarrow> (0, s))"

definition get_zone :: "string \<Rightarrow> (int \<times> string) option" where
  "get_zone s =
     (case s of
        [] \<Rightarrow> None
      | c # r \<Rightarrow>
          if c = CHR ''Z'' then Some (0, r)
          else if length s < 6 \<or> s ! 3 \<noteq> CHR '':'' then None
          else (case (get_num True (take 2 r), get_num True (take 2 (drop 4 s))) of
                  (Some (h, _), Some (m, _)) \<Rightarrow>
                    if h \<le> 24 \<and> m \<le> 60 \<and> c = CHR ''+'' then Some ((h * 60 + m) * 60, drop 6 s)
                    else if h \<le> 24 \<and> m \<le> 60 \<and> c = CHR ''-'' then Some (- ((h * 60 + m) * 60), drop 6 s)
                    else None
                | _ \<Rightarrow> None))"

definition parse_rfc3339 :: "string \<Rightarrow> int option" where
  "parse_rfc3339 s =
     (case get_date s of None \<Rightarrow> None
      | Some (y, m, d, s1) \<Rightarrow> (case skip_char (CHR ''T'') s1 of None \<Rightarrow> None
      | Some s2 \<Rightarrow> (case parse_hm s2 of None \<Rightarrow> None
      | Some (h, mi, s3) \<Rightarrow> (case skip_char (CHR '':'') s3 of None \<Rightarrow> None
      | Some s4 \<Rightarrow> (case below 60 (get_num True s4) of None \<Rightarrow> None
      | Some (sec, s5) \<Rightarrow> (case get_fraction s5 of (ns, s6) \<Rightarrow> (case get_zone s6 of None \<Rightarrow> None
      | Some (off, rest) \<Rightarrow>
          if rest \<noteq> [] then None
          else Some ((day_number y m d * 86400 + h * 3600 + mi * 60 + sec - off) * second_ns + ns))))))))"

end
