(* ===== verification/GoJson.thy ===== *)
theory GoJson
  imports GoStrings
begin

text \<open>
  Go's \<open>encoding/json\<close>, from the JSON value on: how the decoder stores a value into a struct field.
  The scanner that turns bytes into one JSON value is the boundary: a body is \<open>Absent\<close> (no bytes),
  \<open>Broken\<close> (not exactly one JSON value) or \<open>Parsed\<close>. A number keeps its spelling, as the decoder
  parses it only when it knows the field's type.
\<close>

datatype json =
    JNull
  | JBool bool
  | JNum string
  | JStr string
  | JArr "json list"
  | JObj "(string \<times> json) list"

datatype json_body = Absent | Broken | Parsed json

text \<open>
  A field is found by its name, exactly or up to letter case. \<open>null\<close> leaves a field alone (and
  empties a slice); a value of another kind is an error.
\<close>

definition key_is :: "string \<Rightarrow> string \<Rightarrow> bool" where
  "key_is name key \<longleftrightarrow> to_lower key = to_lower name"

fun json_string :: "string \<Rightarrow> json \<Rightarrow> string option" where
  "json_string old (JStr s) = Some s"
| "json_string old JNull = Some old"
| "json_string old _ = None"

fun json_bool :: "bool \<Rightarrow> json \<Rightarrow> bool option" where
  "json_bool old (JBool b) = Some b"
| "json_bool old JNull = Some old"
| "json_bool old _ = None"

fun json_int :: "int \<Rightarrow> json \<Rightarrow> int option" where
  "json_int old (JNum s) = atoi s"
| "json_int old JNull = Some old"
| "json_int old _ = None"

definition json_list :: "(json \<Rightarrow> 'a option) \<Rightarrow> json \<Rightarrow> 'a list option" where
  "json_list f v =
     (case v of
        JNull \<Rightarrow> Some []
      | JArr vs \<Rightarrow> those (map f vs)
      | _ \<Rightarrow> None)"

text \<open>
  A struct: the members in order, each stored by \<open>put\<close>, which answers \<open>None\<close> on a value the field
  cannot take or (with \<open>DisallowUnknownFields\<close>) on an unknown name. An error anywhere is an error
  of the whole document.
\<close>

fun json_members :: "(string \<Rightarrow> json \<Rightarrow> 'a \<Rightarrow> 'a option) \<Rightarrow> (string \<times> json) list \<Rightarrow> 'a \<Rightarrow> 'a option" where
  "json_members put [] x = Some x"
| "json_members put ((k, v) # ms) x =
     (case put k v x of None \<Rightarrow> None | Some y \<Rightarrow> json_members put ms y)"

definition json_struct :: "(string \<Rightarrow> json \<Rightarrow> 'a \<Rightarrow> 'a option) \<Rightarrow> 'a \<Rightarrow> json \<Rightarrow> 'a option" where
  "json_struct put zero v =
     (case v of
        JObj ms \<Rightarrow> json_members put ms zero
      | JNull \<Rightarrow> Some zero
      | _ \<Rightarrow> None)"

text \<open>\<open>omitempty\<close>.\<close>

definition member_if :: "bool \<Rightarrow> string \<Rightarrow> json \<Rightarrow> (string \<times> json) list" where
  "member_if c k v = (if c then [(k, v)] else [])"

definition json_of_int :: "int \<Rightarrow> json" where
  "json_of_int n = JNum (itoa n)"

lemma json_int_roundtrip:
  "- (2 ^ 63) \<le> n \<Longrightarrow> n < 2 ^ 63 \<Longrightarrow> json_int old (json_of_int n) = Some n"
  by (simp add: json_of_int_def atoi_itoa)

lemma those_map_map:
  "(\<And>x. x \<in> set xs \<Longrightarrow> f (g x) = Some x) \<Longrightarrow> those (map f (map g xs)) = Some xs"
  by (induction xs) auto

lemma json_members_append:
  "json_members put (ms @ ns) x =
     (case json_members put ms x of None \<Rightarrow> None | Some y \<Rightarrow> json_members put ns y)"
  by (induction put ms x rule: json_members.induct) (auto split: option.splits)

end
