(* ===== verification/Schedule.thy ===== *)
theory Schedule
  imports GoTime GoJson
begin

text \<open>
  panel/internal/schedule/spec.go: the rules of scheduled tasks. A rule is decoded from JSON,
  brought into a normal form, and asked for its first run and for the run after a given one. The
  table of time zones (\<open>time.LoadLocation\<close>) is the parameter \<open>zones\<close>. All refusals are the
  \<open>ValidationError\<close> of the code.
\<close>

section \<open>Rules\<close>

record sched_config =
  sc_run_at :: string
  sc_time :: string
  sc_days :: "int list"
  sc_secs :: int

definition empty_config :: sched_config where
  "empty_config = \<lparr>sc_run_at = [], sc_time = [], sc_days = [], sc_secs = 0\<rparr>"

definition minimum_interval :: int where
  "minimum_interval = 60"

definition maximum_interval :: int where
  "maximum_interval = 365 * 24 * 60 * 60"

definition default_timezone :: string where
  "default_timezone = ''Asia/Shanghai''"

abbreviation invalid :: "'a result" where
  "invalid \<equiv> Err ''Validation''"

definition normalize_timezone :: "(string \<Rightarrow> zone option) \<Rightarrow> string \<Rightarrow> (string \<times> zone) result" where
  "normalize_timezone zones v =
     (let name = (if trim_space v = [] then default_timezone else trim_space v)
      in case zones name of None \<Rightarrow> invalid | Some z \<Rightarrow> Inr (name, z))"

text \<open>\<open>json.Decoder\<close> with \<open>DisallowUnknownFields\<close>, and \<open>json.Marshal\<close>.\<close>

definition put_config :: "string \<Rightarrow> json \<Rightarrow> sched_config \<Rightarrow> sched_config option" where
  "put_config key v c =
     (if key_is ''run_at'' key then map_option (\<lambda>s. c\<lparr>sc_run_at := s\<rparr>) (json_string (sc_run_at c) v)
      else if key_is ''time'' key then map_option (\<lambda>s. c\<lparr>sc_time := s\<rparr>) (json_string (sc_time c) v)
      else if key_is ''weekdays'' key then map_option (\<lambda>ds. c\<lparr>sc_days := ds\<rparr>) (json_list (json_int 0) v)
      else if key_is ''interval_seconds'' key then map_option (\<lambda>n. c\<lparr>sc_secs := n\<rparr>) (json_int (sc_secs c) v)
      else None)"

definition decode_config :: "json_body \<Rightarrow> sched_config option" where
  "decode_config raw =
     (case raw of
        Absent \<Rightarrow> Some empty_config
      | Broken \<Rightarrow> None
      | Parsed v \<Rightarrow> json_struct put_config empty_config v)"

definition marshal_config :: "sched_config \<Rightarrow> json_body" where
  "marshal_config c = Parsed (JObj (
     member_if (sc_run_at c \<noteq> []) ''run_at'' (JStr (sc_run_at c)) @
     member_if (sc_time c \<noteq> []) ''time'' (JStr (sc_time c)) @
     member_if (sc_days c \<noteq> []) ''weekdays'' (JArr (map json_of_int (sc_days c))) @
     member_if (sc_secs c \<noteq> 0) ''interval_seconds'' (json_of_int (sc_secs c))))"

definition parse_clock :: "string \<Rightarrow> (int \<times> int \<times> int) result" where
  "parse_clock v =
     (let s = trim_space v
      in case layout_hms s of
           Some c \<Rightarrow> Inr c
         | None \<Rightarrow> (case layout_hm s of Some c \<Rightarrow> Inr c | None \<Rightarrow> invalid))"

definition parse_config :: "string \<Rightarrow> json_body \<Rightarrow> sched_config result" where
  "parse_config kind raw =
     (case decode_config raw of
        None \<Rightarrow> invalid
      | Some c \<Rightarrow>
          if kind = ''once'' then
            (case parse_rfc3339 (sc_run_at c) of
               None \<Rightarrow> invalid
             | Some _ \<Rightarrow> Inr (c\<lparr>sc_time := [], sc_days := [], sc_secs := 0\<rparr>))
          else if kind = ''daily'' then
            (case parse_clock (sc_time c) of
               Inl e \<Rightarrow> Inl e
             | Inr _ \<Rightarrow> Inr (c\<lparr>sc_run_at := [], sc_days := [], sc_secs := 0\<rparr>))
          else if kind = ''weekly'' then
            (case parse_clock (sc_time c) of
               Inl e \<Rightarrow> Inl e
             | Inr _ \<Rightarrow>
                 if sc_days c = [] then invalid
                 else if \<not> list_all (\<lambda>d. 1 \<le> d \<and> d \<le> 7) (sc_days c) then invalid
                 else Inr (c\<lparr>sc_run_at := [], sc_days := sort (remdups (sc_days c)), sc_secs := 0\<rparr>))
          else if kind = ''interval'' then
            (if sc_secs c < minimum_interval \<or> maximum_interval < sc_secs c then invalid
             else Inr (c\<lparr>sc_run_at := [], sc_time := [], sc_days := []\<rparr>))
          else invalid)"

definition normalize_config :: "string \<Rightarrow> json_body \<Rightarrow> json_body result" where
  "normalize_config kind raw =
     (case parse_config kind raw of Inl e \<Rightarrow> Inl e | Inr c \<Rightarrow> Inr (marshal_config c))"

section \<open>Runs\<close>

definition clock_seconds :: "string \<Rightarrow> int" where
  "clock_seconds v = (case parse_clock v of Inl _ \<Rightarrow> 0 | Inr (h, m, s) \<Rightarrow> h * 3600 + m * 60 + s)"

definition next_daily :: "sched_config \<Rightarrow> zone \<Rightarrow> int \<Rightarrow> int" where
  "next_daily c z now =
     (let candidate = go_date z (day_of z now) (clock_seconds (sc_time c)) 0
      in if now < candidate then candidate else add_days z candidate 1)"

definition iso_weekday :: "int \<Rightarrow> int" where
  "iso_weekday d = (if d = 0 then 7 else d)"

fun weekly_from :: "sched_config \<Rightarrow> zone \<Rightarrow> int \<Rightarrow> int list \<Rightarrow> int option" where
  "weekly_from c z now [] = None"
| "weekly_from c z now (off # offs) =
     (let date = add_days z now off;
          candidate = go_date z (day_of z date) (clock_seconds (sc_time c)) 0
      in if iso_weekday (weekday_of z date) \<notin> set (sc_days c) then weekly_from c z now offs
         else if now < candidate then Some candidate
         else weekly_from c z now offs)"

definition next_weekly :: "sched_config \<Rightarrow> zone \<Rightarrow> int \<Rightarrow> int" where
  "next_weekly c z now =
     (case weekly_from c z now [0, 1, 2, 3, 4, 5, 6, 7] of
        Some t \<Rightarrow> t
      | None \<Rightarrow> add_days z now 7)"

definition first_run ::
  "(string \<Rightarrow> zone option) \<Rightarrow> string \<Rightarrow> json_body \<Rightarrow> string \<Rightarrow> int \<Rightarrow> int result" where
  "first_run zones kind raw tz now =
     (case parse_config kind raw of Inl e \<Rightarrow> Inl e
      | Inr c \<Rightarrow> (case normalize_timezone zones tz of Inl e \<Rightarrow> Inl e
      | Inr (_, z) \<Rightarrow>
          if kind = ''once'' then
            (case parse_rfc3339 (sc_run_at c) of
               Some t \<Rightarrow> if now < t then Inr t else invalid
             | None \<Rightarrow> invalid)
          else if kind = ''daily'' then Inr (next_daily c z now)
          else if kind = ''weekly'' then Inr (next_weekly c z now)
          else if kind = ''interval'' then Inr (now + wrap64 (sc_secs c * second_ns))
          else invalid))"

text \<open>The next run after one scheduled for \<open>sched\<close>; \<open>None\<close> ends the task.\<close>

definition interval_steps :: "int \<Rightarrow> int \<Rightarrow> int \<Rightarrow> int" where
  "interval_steps interval sched now = max 1 (wrap64 (quot_int (sub_time now sched) interval + 1))"

definition next_after ::
  "(string \<Rightarrow> zone option) \<Rightarrow> string \<Rightarrow> json_body \<Rightarrow> string \<Rightarrow> int \<Rightarrow> int \<Rightarrow> int option result" where
  "next_after zones kind raw tz sched now =
     (case parse_config kind raw of Inl e \<Rightarrow> Inl e
      | Inr c \<Rightarrow> (case normalize_timezone zones tz of Inl e \<Rightarrow> Inl e
      | Inr (_, z) \<Rightarrow>
          if kind = ''once'' then Inr None
          else if kind = ''daily'' then Inr (Some (next_daily c z now))
          else if kind = ''weekly'' then Inr (Some (next_weekly c z now))
          else if kind = ''interval'' then
            (let interval = wrap64 (sc_secs c * second_ns)
             in Inr (Some (sched + wrap64 (interval_steps interval sched now * interval))))
          else invalid))"

section \<open>The normal form\<close>

definition clock_text_ok :: "string \<Rightarrow> bool" where
  "clock_text_ok v \<longleftrightarrow> (\<exists>c. parse_clock v = Inr c)"

text \<open>What a rule looks like after \<open>parseConfig\<close>.\<close>

definition config_normal :: "string \<Rightarrow> sched_config \<Rightarrow> bool" where
  "config_normal kind c \<longleftrightarrow>
     (if kind = ''once'' then parse_rfc3339 (sc_run_at c) \<noteq> None \<and> sc_time c = [] \<and> sc_days c = [] \<and> sc_secs c = 0
      else if kind = ''daily'' then clock_text_ok (sc_time c) \<and> sc_run_at c = [] \<and> sc_days c = [] \<and> sc_secs c = 0
      else if kind = ''weekly'' then clock_text_ok (sc_time c) \<and> sc_run_at c = [] \<and> sc_secs c = 0 \<and>
        sc_days c \<noteq> [] \<and> sorted (sc_days c) \<and> distinct (sc_days c) \<and> (\<forall>d \<in> set (sc_days c). 1 \<le> d \<and> d \<le> 7)
      else kind = ''interval'' \<and> sc_run_at c = [] \<and> sc_time c = [] \<and> sc_days c = [] \<and>
        minimum_interval \<le> sc_secs c \<and> sc_secs c \<le> maximum_interval)"

lemma sort_remdups_Nil [simp]: "sort (remdups xs) = [] \<longleftrightarrow> xs = []"
  by (metis set_empty set_remdups set_sort)

lemma parse_config_normal:
  assumes "parse_config kind raw = Inr c"
  shows "config_normal kind c"
  using assms unfolding parse_config_def config_normal_def clock_text_ok_def
  by (auto simp: list_all_iff split: option.splits sum.splits if_splits)

lemma decode_marshal:
  assumes "- (2 ^ 63) \<le> sc_secs c" "sc_secs c < 2 ^ 63"
    and "\<And>d. d \<in> set (sc_days c) \<Longrightarrow> - (2 ^ 63) \<le> d \<and> d < 2 ^ 63"
  shows "decode_config (marshal_config c) = Some c"
proof -
  have days: "those (map (json_int 0) (map json_of_int (sc_days c))) = Some (sc_days c)"
    using assms(3) by (intro those_map_map json_int_roundtrip) auto
  have keys: "key_is ''run_at'' ''run_at''" "\<not> key_is ''run_at'' ''time''" "\<not> key_is ''run_at'' ''weekdays''"
    "\<not> key_is ''run_at'' ''interval_seconds''" "key_is ''time'' ''time''" "\<not> key_is ''time'' ''weekdays''"
    "\<not> key_is ''time'' ''interval_seconds''" "key_is ''weekdays'' ''weekdays''"
    "\<not> key_is ''weekdays'' ''interval_seconds''" "key_is ''interval_seconds'' ''interval_seconds''"
    unfolding key_is_def by code_simp+
  have put: "put_config ''run_at'' (JStr s) x = Some (x\<lparr>sc_run_at := s\<rparr>)"
    "put_config ''time'' (JStr s) x = Some (x\<lparr>sc_time := s\<rparr>)"
    "put_config ''weekdays'' (JArr (map json_of_int (sc_days c))) x = Some (x\<lparr>sc_days := sc_days c\<rparr>)"
    "put_config ''interval_seconds'' (json_of_int (sc_secs c)) x = Some (x\<lparr>sc_secs := sc_secs c\<rparr>)" for s x
    using keys days json_int_roundtrip [OF assms(1,2)] by (simp_all add: put_config_def json_list_def)
  have cons: "json_members put_config ((k, v) # ms) x = Option.bind (put_config k v x) (json_members put_config ms)"
    for k v ms x
    by (simp split: option.splits)
  show ?thesis
    unfolding decode_config_def marshal_config_def json_struct_def member_if_def
    by (simp only: json_body.case json.case append.simps if_split)
      (simp add: put cons empty_config_def del: json_members.simps(2))
qed

lemma config_normal_parse:
  assumes "config_normal kind c"
  shows "parse_config kind (marshal_config c) = Inr c"
proof -
  have "decode_config (marshal_config c) = Some c"
    using assms unfolding config_normal_def minimum_interval_def maximum_interval_def
    by (intro decode_marshal) (auto split: if_splits)
  moreover have "sort (remdups (sc_days c)) = sc_days c" if "kind = ''weekly''"
    using assms that by (simp add: config_normal_def sorted_sort_id distinct_remdups_id)
  ultimately show ?thesis
    using assms unfolding parse_config_def config_normal_def clock_text_ok_def
    by (auto simp: list_all_iff split: if_splits option.splits)
qed

interpretation rule: normalizer "normalize_config kind" "\<lambda>raw. \<exists>c. config_normal kind c \<and> raw = marshal_config c" for kind
proof unfold_locales
  fix raw raw'
  assume "normalize_config kind raw = Inr raw'"
  then show "\<exists>c. config_normal kind c \<and> raw' = marshal_config c"
    unfolding normalize_config_def by (auto split: sum.splits dest: parse_config_normal)
next
  fix raw
  assume "\<exists>c. config_normal kind c \<and> raw = marshal_config c"
  then show "normalize_config kind raw = Inr raw"
    by (auto simp: normalize_config_def config_normal_parse)
qed

section \<open>Intervals\<close>

lemma next_after_interval:
  assumes "parse_config ''interval'' raw = Inr c" and "normalize_timezone zones tz = Inr nz"
    and "sched \<le> now" and "now - sched < 2 ^ 62"
  defines "i \<equiv> sc_secs c * second_ns"
  shows "next_after zones ''interval'' raw tz sched now = Inr (Some (sched + ((now - sched) div i + 1) * i))"
proof -
  have c: "60 \<le> sc_secs c" "sc_secs c \<le> 31536000"
    using parse_config_normal [OF assms(1)]
    by (simp_all add: config_normal_def minimum_interval_def maximum_interval_def)
  then have i: "0 < i" "i \<le> 31536000 * second_ns"
    unfolding i_def by (simp_all add: second_ns_def)
  have pow: "(2 :: int) ^ 61 = 2305843009213693952" "(2 :: int) ^ 62 = 4611686018427387904"
    "(2 :: int) ^ 63 = 9223372036854775808"
    by simp_all
  define q where "q = (now - sched) div i"
  have q0: "0 \<le> q" using assms(3) i by (simp add: q_def pos_imp_zdiv_nonneg_iff)
  have qi: "q * i \<le> now - sched" using i by (simp add: q_def) (metis minus_mod_eq_div_mult pos_mod_sign diff_le_eq le_add_same_cancel1)
  have qn: "q \<le> now - sched"
    using mult_left_mono [of 1 i q] q0 i qi by linarith
  have "sub_time now sched = now - sched" using assms(3,4) by (intro sub_time_id) auto
  then have steps: "interval_steps i sched now = q + 1"
    using assms(3,4) q0 qn by (simp add: interval_steps_def quot_int_def q_def [symmetric] wrap64_id)
  have "(q + 1) * i = q * i + i" by (simp add: distrib_right)
  moreover have "0 \<le> q * i" using q0 i by simp
  moreover have "i < 2 ^ 61" using i by (simp add: second_ns_def)
  moreover have "- (2 ^ 63) \<le> q * i + i" "q * i + i < 2 ^ 63"
    using qi assms(4) i(1) calculation unfolding pow by linarith+
  ultimately have "wrap64 ((q + 1) * i) = (q + 1) * i"
    by (simp only: wrap64_id)
  moreover have "wrap64 (sc_secs c * second_ns) = i"
    using i unfolding i_def by (intro wrap64_id) (simp_all add: second_ns_def)
  ultimately show ?thesis
    using assms(1,2) steps by (simp add: next_after_def Let_def q_def split: prod.splits)
qed

section \<open>Days in a zone that keeps its offset\<close>

definition due_clock :: "zone \<Rightarrow> int \<Rightarrow> int \<Rightarrow> bool" where
  "due_clock z cs t \<longleftrightarrow> t mod second_ns = 0 \<and> clock_of z t = cs"

definition local_instant :: "int \<Rightarrow> int \<Rightarrow> int \<Rightarrow> int" where
  "local_instant off cs day = (day * 86400 + cs - off) * second_ns"

lemma parse_clock_ok:
  assumes "parse_clock v = Inr c"
  shows "clock_ok c"
proof (cases "layout_hms (trim_space v)")
  case None
  then have "layout_hm (trim_space v) = Some c"
    using assms unfolding parse_clock_def Let_def by (cases "layout_hm (trim_space v)") simp_all
  then show ?thesis by (rule layout_hm_ok)
next
  case (Some d)
  then have "layout_hms (trim_space v) = Some c"
    using assms unfolding parse_clock_def Let_def by simp
  then show ?thesis by (rule layout_hms_ok)
qed

lemma clock_seconds_range: "0 \<le> clock_seconds v \<and> clock_seconds v < 86400"
proof (cases "parse_clock v")
  case (Inr c)
  obtain h m s where c: "c = (h, m, s)" by (cases c)
  have ok: "clock_ok (h, m, s)" using Inr parse_clock_ok unfolding c by blast
  have "0 \<le> h * 3600 + m * 60 + s \<and> h * 3600 + m * 60 + s < 86400"
    using ok unfolding clock_ok_def prod.case by linarith
  then show ?thesis unfolding clock_seconds_def Inr c sum.case prod.case .
qed (simp add: clock_seconds_def)

definition due_weekly :: "zone \<Rightarrow> int \<Rightarrow> int list \<Rightarrow> int \<Rightarrow> bool" where
  "due_weekly z cs days t \<longleftrightarrow> due_clock z cs t \<and> iso_weekday (weekday_of z t) \<in> set days"

lemma weekday_hits:
  assumes "1 \<le> v \<and> v \<le> 7"
  shows "\<exists>i. 0 \<le> i \<and> i < 7 \<and> iso_weekday ((d + i + 4) mod 7) = v"
proof (intro exI conjI)
  have "(d + (v - d - 4) mod 7 + 4) mod 7 = (d + (v - d - 4) + 4) mod 7"
    by (metis mod_add_left_eq mod_add_right_eq)
  then have "(d + (v - d - 4) mod 7 + 4) mod 7 = v mod 7" by simp
  moreover have "iso_weekday (v mod 7) = v"
    using assms by (cases "v = 7") (simp_all add: iso_weekday_def)
  ultimately show "iso_weekday ((d + (v - d - 4) mod 7 + 4) mod 7) = v" by simp
qed simp_all

lemma weekday_period: "(d + 7 + 4) mod 7 = (d + 4) mod (7 :: int)"
  by presburger

locale steady_zone =
  fixes z :: zone and off :: int
  assumes z: "steady z off"
begin

lemma day_of_instant:
  assumes "0 \<le> cs" "cs < 86400"
  shows "day_of z (local_instant off cs d) = d" and "clock_of z (local_instant off cs d) = cs"
  using assms unfolding day_of_def clock_of_def local_seconds_steady [OF z] local_instant_def
  by (simp_all add: second_ns_def)

lemma due_clock_instant:
  assumes "due_clock z cs t"
  shows "t = local_instant off cs (day_of z t)"
proof -
  have "t div second_ns + off = day_of z t * 86400 + cs"
    using assms unfolding day_of_def due_clock_def clock_of_def local_seconds_steady [OF z]
    by (metis div_mult_mod_eq)
  then have "day_of z t * 86400 + cs - off = t div second_ns" by simp
  moreover have "t div second_ns * second_ns = t"
    using assms div_mult_mod_eq [of t second_ns] by (simp add: due_clock_def)
  ultimately show ?thesis by (simp add: local_instant_def)
qed

lemma day_of_mono: "a \<le> b \<Longrightarrow> day_of z a \<le> day_of z b"
  unfolding day_of_def local_seconds_steady [OF z]
  by (intro zdiv_mono1) (simp_all add: zdiv_mono1 second_ns_def)

lemma instant_mono: "local_instant off cs a \<le> local_instant off cs b \<longleftrightarrow> a \<le> b"
  by (simp add: local_instant_def second_ns_def)

lemma instant_after_day:
  assumes "0 \<le> cs" "cs < 86400" "day_of z now < d"
  shows "now < local_instant off cs d"
proof (rule ccontr)
  assume "\<not> now < local_instant off cs d"
  then have "day_of z (local_instant off cs d) \<le> day_of z now" by (intro day_of_mono) simp
  then show False using day_of_instant(1) [OF assms(1,2), of d] assms(3) by simp
qed

lemma go_date_instant: "go_date z d cs 0 = local_instant off cs d"
  by (simp add: go_date_steady [OF z] local_instant_def)

lemma due_instant:
  "0 \<le> cs \<Longrightarrow> cs < 86400 \<Longrightarrow> due_clock z cs (local_instant off cs d)"
  by (simp add: due_clock_def day_of_instant) (simp add: local_instant_def)

lemma next_daily_least:
  fixes c :: sched_config
  defines "cs \<equiv> clock_seconds (sc_time c)"
  shows "now < next_daily c z now" and "due_clock z cs (next_daily c z now)"
    and "\<And>t. now < t \<Longrightarrow> due_clock z cs t \<Longrightarrow> next_daily c z now \<le> t"
proof -
  have cs: "0 \<le> cs" "cs < 86400" using clock_seconds_range [of "sc_time c"] by (auto simp: cs_def)
  let ?d = "day_of z now"
  have step: "add_days z (local_instant off cs ?d) 1 = local_instant off cs (?d + 1)"
    by (simp add: add_days_steady [OF z] local_instant_def algebra_simps)
  have eq: "next_daily c z now =
      (if now < local_instant off cs ?d then local_instant off cs ?d else local_instant off cs (?d + 1))"
    by (simp add: next_daily_def Let_def go_date_instant step flip: cs_def)
  show "now < next_daily c z now" using instant_after_day [OF cs, of now "?d + 1"] by (simp add: eq)
  show "due_clock z cs (next_daily c z now)" using due_instant [OF cs] by (simp add: eq)
  fix t
  assume t: "now < t" "due_clock z cs t"
  have k: "t = local_instant off cs (day_of z t)" by (rule due_clock_instant [OF t(2)])
  have "?d \<le> day_of z t" using t(1) by (intro day_of_mono) simp
  then have "local_instant off cs ?d \<le> local_instant off cs (day_of z t)"
    and "day_of z t \<noteq> ?d \<Longrightarrow> local_instant off cs (?d + 1) \<le> local_instant off cs (day_of z t)"
    unfolding instant_mono by simp_all
  then have "local_instant off cs ?d \<le> t" and "day_of z t \<noteq> ?d \<Longrightarrow> local_instant off cs (?d + 1) \<le> t"
    using k by simp_all
  moreover have "day_of z t = ?d \<Longrightarrow> now < local_instant off cs ?d"
    using t(1) k by simp
  ultimately show "next_daily c z now \<le> t" unfolding eq by auto
qed

lemma weekly_from_find:
  fixes c :: sched_config
  defines "cs \<equiv> clock_seconds (sc_time c)"
  shows "weekly_from c z now offs =
    map_option (\<lambda>j. local_instant off cs (day_of z now + j))
      (find (\<lambda>j. iso_weekday ((day_of z now + j + 4) mod 7) \<in> set (sc_days c) \<and>
                 now < local_instant off cs (day_of z now + j)) offs)"
proof (induction offs)
  case Nil
  then show ?case by simp
next
  case (Cons a offs)
  have "add_days z now a div second_ns = now div second_ns + a * 86400"
    by (simp add: add_days_steady [OF z] second_ns_def)
  then have "day_of z (add_days z now a) = day_of z now + a"
    unfolding day_of_def local_seconds_steady [OF z] by simp
  then show ?case
    by (simp add: Cons Let_def go_date_instant weekday_of_def flip: cs_def)
qed

lemma next_weekly_least:
  fixes c :: sched_config
  defines "cs \<equiv> clock_seconds (sc_time c)"
  assumes days: "sc_days c \<noteq> []" "\<forall>d \<in> set (sc_days c). 1 \<le> d \<and> d \<le> 7"
  shows "now < next_weekly c z now" and "due_weekly z cs (sc_days c) (next_weekly c z now)"
    and "\<And>t. now < t \<Longrightarrow> due_weekly z cs (sc_days c) t \<Longrightarrow> next_weekly c z now \<le> t"
proof -
  have cs: "0 \<le> cs" "cs < 86400" using clock_seconds_range [of "sc_time c"] by (auto simp: cs_def)
  let ?D = "day_of z now" and ?offs = "[0, 1, 2, 3, 4, 5, 6, 7] :: int list"
  define hit where "hit j \<longleftrightarrow> iso_weekday ((?D + j + 4) mod 7) \<in> set (sc_days c) \<and>
    now < local_instant off cs (?D + j)" for j
  obtain v where v: "v \<in> set (sc_days c)" using days(1) by (meson list.set_sel(1))
  obtain i where i: "0 \<le> i" "i < 7" "iso_weekday ((?D + i + 4) mod 7) = v"
    using weekday_hits days(2) v by blast
  have "hit (if i = 0 then 7 else i)"
    using i v instant_after_day [OF cs, of now] weekday_period [of ?D]
    by (cases "i = 0") (simp_all add: hit_def)
  moreover have "(if i = 0 then 7 else i) \<in> set ?offs" using i by auto
  ultimately have "\<exists>j \<in> set ?offs. hit j" by blast
  then obtain j where j: "find hit ?offs = Some j" by (metis find_None_iff option.exhaust)
  have hj: "hit j" "j \<in> set ?offs" using j find_Some_iff [of hit ?offs j] nth_mem by blast+
  have least: "j \<le> m" if m: "hit m" "m \<in> set ?offs" for m
    using j m by (auto split: if_splits)
  have eq: "next_weekly c z now = local_instant off cs (?D + j)"
    unfolding next_weekly_def weekly_from_find cs_def [symmetric] hit_def [abs_def, symmetric] j
    by simp
  show "now < next_weekly c z now" using hj by (simp add: eq hit_def)
  show "due_weekly z cs (sc_days c) (next_weekly c z now)"
    using hj due_instant [OF cs] by (simp add: eq hit_def due_weekly_def weekday_of_def day_of_instant [OF cs])
  fix t
  assume t: "now < t" "due_weekly z cs (sc_days c) t"
  have k: "t = local_instant off cs (day_of z t)" using t(2) due_clock_instant by (auto simp: due_weekly_def)
  have "?D \<le> day_of z t" using t(1) by (intro day_of_mono) simp
  moreover have "j \<le> day_of z t - ?D"
  proof (cases "day_of z t - ?D \<le> 7")
    case True
    have "hit (day_of z t - ?D)" using t k by (simp add: hit_def due_weekly_def weekday_of_def)
    moreover have "day_of z t - ?D \<in> set ?offs" using True \<open>?D \<le> day_of z t\<close> by auto
    ultimately show ?thesis by (rule least)
  qed (use hj(2) in auto)
  ultimately have "next_weekly c z now \<le> local_instant off cs (day_of z t)"
    by (simp add: eq instant_mono)
  then show "next_weekly c z now \<le> t" using k by simp
qed

end

interpretation fixed: steady_zone "fixed_zone off" off for off
  by unfold_locales simp

end
