(* ===== verification/PanelNodes.thy ===== *)
theory PanelNodes
  imports PanelAction GoStrings "HOL-Library.Product_Lexorder" "HOL-Library.List_Lexorder" "HOL-Library.Char_ord"
begin

text \<open>
  panel/internal/store/nodes.go: the table of the nodes (daemons) and every operation on it. The
  lookup of a node is stated for any database that holds the table, because the scheduler uses it
  too. The column of capabilities is the decoded list.
\<close>

record node_row =
  nd_id :: string
  nd_daemon :: string
  nd_name :: string
  nd_base :: string
  nd_public :: string
  nd_token :: string
  nd_enabled :: bool
  nd_version :: string
  nd_protocol :: string
  nd_caps :: "string list"
  nd_connected :: "int option"
  nd_error :: string
  nd_created :: int
  nd_updated :: int

type_synonym 'a nact = "(node_row list, 'a) dact"

definition node_is :: "collation \<Rightarrow> string \<Rightarrow> node_row \<Rightarrow> bool" where
  "node_is k i n \<longleftrightarrow> aeq k (nd_id n) i"

definition list_nodes :: "collation \<Rightarrow> node_row list nact" where
  "list_nodes k = query (sort_key (\<lambda>n. k_text k (nd_name n)))"

definition get_node :: "('d \<Rightarrow> node_row list) \<Rightarrow> collation \<Rightarrow> string \<Rightarrow> ('d, node_row) dact" where
  "get_node nodes k i = andthen (query (\<lambda>d. find (node_is k i) (nodes d))) (need ''ErrNotFound'')"

text \<open>The unique keys: \<open>id\<close>, and \<open>base_url\<close> byte by byte (\<open>ascii_bin\<close>).\<close>

definition node_duplicate :: "collation \<Rightarrow> node_row \<Rightarrow> node_row list \<Rightarrow> string option" where
  "node_duplicate k n ns =
     (if list_ex (\<lambda>m. node_is k (nd_id n) m \<or> nd_base m = nd_base n) ns then Some ''Dup'' else None)"

definition create_node :: "collation \<Rightarrow> int \<Rightarrow> node_row \<Rightarrow> node_row nact" where
  "create_node k now n =
     (let n' = n\<lparr>nd_created := now, nd_updated := now\<rparr>
      in andthen (on_error duplicate_to_conflict (exec_if (node_duplicate k n') (\<lambda>ns. n' # ns))) (\<lambda>_.
         ret n'))"

definition updated_node :: "int \<Rightarrow> node_row \<Rightarrow> node_row \<Rightarrow> node_row" where
  "updated_node now n m = n\<lparr>nd_id := nd_id m, nd_created := nd_created m, nd_updated := now\<rparr>"

definition update_node :: "collation \<Rightarrow> int \<Rightarrow> node_row \<Rightarrow> node_row nact" where
  "update_node k now n =
     andthen (on_error duplicate_to_conflict
       (stmt (\<lambda>ns.
          if list_ex (node_is k (nd_id n)) ns \<and>
             list_ex (\<lambda>m. \<not> node_is k (nd_id n) m \<and> nd_base m = nd_base n) ns
          then (Err ''Dup'', ns)
          else (Inr (affected (node_is k (nd_id n)) (updated_node now n) ns),
                update_rows (node_is k (nd_id n)) (updated_node now n) ns)))) (\<lambda>c.
     andthen (guard (c \<noteq> 0) ''ErrNotFound'') (\<lambda>_.
     ret (n\<lparr>nd_updated := now\<rparr>)))"

definition delete_node :: "collation \<Rightarrow> string \<Rightarrow> unit nact" where
  "delete_node k i =
     andthen (stmt (\<lambda>ns. (Inr (list_ex (node_is k i) ns), filter (\<lambda>n. \<not> node_is k i n) ns))) (\<lambda>found.
     guard found ''ErrNotFound'')"

definition runtime_node ::
  "string \<Rightarrow> string \<Rightarrow> string \<Rightarrow> string list \<Rightarrow> int option \<Rightarrow> string \<Rightarrow> int \<Rightarrow> node_row \<Rightarrow> node_row" where
  "runtime_node daemon version protocol caps connected err now n =
     n\<lparr>nd_daemon := (if daemon = [] then nd_daemon n else daemon), nd_version := version,
       nd_protocol := protocol, nd_caps := caps,
       nd_connected := (case connected of None \<Rightarrow> nd_connected n | Some t \<Rightarrow> Some t),
       nd_error := err, nd_updated := now\<rparr>"

definition update_node_runtime ::
  "collation \<Rightarrow> int \<Rightarrow> string \<Rightarrow> string \<Rightarrow> string \<Rightarrow> string \<Rightarrow> string list \<Rightarrow> int option \<Rightarrow> string \<Rightarrow> unit nact" where
  "update_node_runtime k now i daemon version protocol caps connected err =
     exec (update_rows (node_is k i) (runtime_node daemon version protocol caps connected err now))"

end
