(* ===== verification/ScheduleStore.thy ===== *)
theory ScheduleStore
  imports Schedule PanelNodes
begin

text \<open>
  panel/internal/store/scheduled_tasks.go and task_runs.go: the tables of scheduled tasks and their
  runs, and every operation on them. A Go struct that carries its targets is the record of the row
  extended by them. Clock readings and the random identifiers of \<open>newID\<close> (\<open>None\<close>: no random bytes)
  are arguments.
\<close>

section \<open>Tables\<close>

record task_target =
  tt_node :: string
  tt_node_name :: string
  tt_server :: string
  tt_inst :: string
  tt_inst_name :: string

record task_row =
  tk_id :: string
  tk_name :: string
  tk_enabled :: bool
  tk_kind :: string
  tk_config :: json_body
  tk_tz :: string
  tk_action :: string
  tk_payload :: string
  tk_next :: "int option"
  tk_last :: "int option"
  tk_by :: string
  tk_by_name :: string
  tk_by_display :: string
  tk_created :: int
  tk_updated :: int

record scheduled_task = task_row +
  tk_targets :: "task_target list"

record run_target =
  rt_node :: string
  rt_node_name :: string
  rt_inst :: string
  rt_inst_name :: string
  rt_status :: string
  rt_started :: "int option"
  rt_finished :: "int option"
  rt_code :: string
  rt_message :: string

record run_row =
  rn_id :: string
  rn_task :: string
  rn_task_name :: string
  rn_trigger :: string
  rn_status :: string
  rn_action :: string
  rn_payload :: string
  rn_for :: "int option"
  rn_created :: int
  rn_started :: "int option"
  rn_finished :: "int option"
  rn_total :: int
  rn_success :: int
  rn_failed :: int
  rn_actor :: string
  rn_actor_name :: string
  rn_actor_display :: string

record task_run = run_row +
  rn_targets :: "run_target list"

record sched_db =
  sd_nodes :: "node_row list"
  sd_tasks :: "task_row list"
  sd_targets :: "(string \<times> task_target) list"
  sd_runs :: "run_row list"
  sd_run_targets :: "(string \<times> run_target) list"

type_synonym 'a sact = "(sched_db, 'a) dact"

definition task_is :: "collation \<Rightarrow> string \<Rightarrow> task_row \<Rightarrow> bool" where
  "task_is k i t \<longleftrightarrow> aeq k (tk_id t) i"

definition run_is :: "collation \<Rightarrow> string \<Rightarrow> run_row \<Rightarrow> bool" where
  "run_is k i r \<longleftrightarrow> aeq k (rn_id r) i"

section \<open>Scheduled tasks\<close>

definition insert_target :: "collation \<Rightarrow> string \<Rightarrow> task_target \<Rightarrow> unit sact" where
  "insert_target k i t = exec_if
     (\<lambda>d. if list_ex (\<lambda>(j, u). aeq k j i \<and> aeq k (tt_node u) (tt_node t) \<and> aeq k (tt_inst u) (tt_inst t)) (sd_targets d)
          then Some ''Dup''
          else if \<not> list_ex (task_is k i) (sd_tasks d) then Some ''ErrSQL'' else None)
     (\<lambda>d. d\<lparr>sd_targets := (i, t) # sd_targets d\<rparr>)"

definition replace_targets :: "collation \<Rightarrow> string \<Rightarrow> task_target list \<Rightarrow> unit sact" where
  "replace_targets k i ts =
     andthen (exec (\<lambda>d. d\<lparr>sd_targets := filter (\<lambda>(j, _). \<not> aeq k j i) (sd_targets d)\<rparr>)) (\<lambda>_.
     each (insert_target k i) ts)"

definition task_duplicate :: "collation \<Rightarrow> task_row \<Rightarrow> sched_db \<Rightarrow> string option" where
  "task_duplicate k t d =
     (if list_ex (\<lambda>u. task_is k (tk_id t) u \<or> k_text k (tk_name u) = k_text k (tk_name t)) (sd_tasks d)
      then Some ''Dup'' else None)"

definition create_scheduled_task ::
  "collation \<Rightarrow> string option \<Rightarrow> int \<Rightarrow> scheduled_task \<Rightarrow> scheduled_task sact" where
  "create_scheduled_task k rnd now task =
     andthen (need ''ErrRandom'' rnd) (\<lambda>i.
     let t = task\<lparr>tk_id := i, tk_created := now, tk_updated := now\<rparr>
     in tx (andthen (on_error duplicate_to_conflict
               (exec_if (task_duplicate k (task_row.truncate t))
                  (\<lambda>d. d\<lparr>sd_tasks := task_row.truncate t # sd_tasks d\<rparr>))) (\<lambda>_.
            andthen (replace_targets k i (tk_targets t)) (\<lambda>_.
            ret t))))"

definition updated_task :: "int \<Rightarrow> scheduled_task \<Rightarrow> task_row \<Rightarrow> task_row" where
  "updated_task now t r = r\<lparr>tk_name := tk_name t, tk_enabled := tk_enabled t, tk_kind := tk_kind t,
     tk_config := tk_config t, tk_tz := tk_tz t, tk_action := tk_action t, tk_payload := tk_payload t,
     tk_next := tk_next t, tk_updated := now\<rparr>"

definition update_duplicate :: "collation \<Rightarrow> scheduled_task \<Rightarrow> sched_db \<Rightarrow> string option" where
  "update_duplicate k t d =
     (if list_ex (task_is k (tk_id t)) (sd_tasks d) \<and>
         list_ex (\<lambda>u. \<not> task_is k (tk_id t) u \<and> k_text k (tk_name u) = k_text k (tk_name t)) (sd_tasks d)
      then Some ''Dup'' else None)"

definition with_targets :: "task_row \<Rightarrow> task_target list \<Rightarrow> scheduled_task" where
  "with_targets r ts = task_row.extend r \<lparr>tk_targets = ts\<rparr>"

definition targets_of :: "collation \<Rightarrow> string \<Rightarrow> sched_db \<Rightarrow> task_target list" where
  "targets_of k i d = sort_key (\<lambda>t. (k_text k (tt_node_name t), k_text k (tt_inst_name t)))
     (map snd (filter (\<lambda>(j, _). aeq k j i) (sd_targets d)))"

definition get_scheduled_task :: "collation \<Rightarrow> string \<Rightarrow> scheduled_task sact" where
  "get_scheduled_task k i =
     andthen (query (\<lambda>d. find (task_is k i) (sd_tasks d))) (\<lambda>row.
     andthen (need ''ErrNotFound'' row) (\<lambda>t.
     andthen (query (targets_of k i)) (\<lambda>ts.
     ret (with_targets t ts))))"

definition update_scheduled_task :: "collation \<Rightarrow> int \<Rightarrow> scheduled_task \<Rightarrow> scheduled_task sact" where
  "update_scheduled_task k now t =
     andthen (tx
       (andthen (on_error duplicate_to_conflict
          (stmt (\<lambda>d. case update_duplicate k t d of
             Some c \<Rightarrow> (Err c, d)
           | None \<Rightarrow> (Inr (affected (task_is k (tk_id t)) (updated_task now t) (sd_tasks d)),
                      d\<lparr>sd_tasks := update_rows (task_is k (tk_id t)) (updated_task now t) (sd_tasks d)\<rparr>)))) (\<lambda>n.
        andthen (guard (n \<noteq> 0) ''ErrNotFound'') (\<lambda>_.
        replace_targets k (tk_id t) (tk_targets t))))) (\<lambda>_.
     get_scheduled_task k (tk_id t))"

definition delete_scheduled_task :: "collation \<Rightarrow> string \<Rightarrow> unit sact" where
  "delete_scheduled_task k i =
     andthen (stmt (\<lambda>d. (Inr (list_ex (task_is k i) (sd_tasks d)),
       d\<lparr>sd_tasks := filter (\<lambda>t. \<not> task_is k i t) (sd_tasks d),
         sd_targets := filter (\<lambda>(j, _). \<not> aeq k j i) (sd_targets d)\<rparr>))) (\<lambda>found.
     guard found ''ErrNotFound'')"

definition list_scheduled_tasks :: "collation \<Rightarrow> scheduled_task list sact" where
  "list_scheduled_tasks k =
     andthen (query (\<lambda>d. rev (sort_key (\<lambda>t. (tk_created t, k_ascii k (tk_id t))) (sd_tasks d)))) (\<lambda>tasks.
     andthen (query (\<lambda>d. sort_key (\<lambda>(_, t). (k_text k (tt_node_name t), k_text k (tt_inst_name t))) (sd_targets d))) (\<lambda>targets.
     ret (map (\<lambda>t. with_targets t (map snd (filter (\<lambda>(j, _). j = tk_id t) targets))) tasks)))"

definition task_due :: "int \<Rightarrow> task_row \<Rightarrow> bool" where
  "task_due at t \<longleftrightarrow> tk_enabled t \<and> (case tk_next t of None \<Rightarrow> False | Some n \<Rightarrow> n \<le> at)"

definition list_due_scheduled_tasks :: "collation \<Rightarrow> int \<Rightarrow> int \<Rightarrow> task_row list sact" where
  "list_due_scheduled_tasks k at limit =
     query (\<lambda>d. take (nat (if limit < 1 then 100 else limit))
       (sort_key (\<lambda>t. (the (tk_next t), k_ascii k (tk_id t))) (filter (task_due at) (sd_tasks d))))"

section \<open>Runs\<close>

text \<open>The user on whose behalf a run is started; the scheduler passes the empty one.\<close>

record actor =
  ac_id :: string
  ac_name :: string
  ac_display :: string

definition no_actor :: actor where
  "no_actor = \<lparr>ac_id = [], ac_name = [], ac_display = []\<rparr>"

definition run_target_of :: "string \<Rightarrow> task_target \<Rightarrow> run_target" where
  "run_target_of status t = \<lparr>rt_node = tt_node t, rt_node_name = tt_node_name t, rt_inst = tt_inst t,
     rt_inst_name = tt_inst_name t, rt_status = (if status = ''missed'' then ''missed'' else ''queued''),
     rt_started = None, rt_finished = None, rt_code = [], rt_message = []\<rparr>"

definition new_task_run ::
  "string \<Rightarrow> int \<Rightarrow> scheduled_task \<Rightarrow> string \<Rightarrow> string \<Rightarrow> int option \<Rightarrow> actor \<Rightarrow> task_run" where
  "new_task_run i now task trigger status for_time a =
     \<lparr>rn_id = i, rn_task = tk_id task, rn_task_name = tk_name task, rn_trigger = trigger,
      rn_status = status, rn_action = tk_action task, rn_payload = tk_payload task, rn_for = for_time,
      rn_created = now, rn_started = None, rn_finished = None, rn_total = int (length (tk_targets task)),
      rn_success = 0, rn_failed = 0, rn_actor = ac_id a, rn_actor_name = ac_name a,
      rn_actor_display = ac_display a, rn_targets = map (run_target_of status) (tk_targets task)\<rparr>"

definition insert_run_target :: "collation \<Rightarrow> string \<Rightarrow> run_target \<Rightarrow> unit sact" where
  "insert_run_target k i t = exec_if
     (\<lambda>d. if list_ex (\<lambda>(j, u). aeq k j i \<and> aeq k (rt_node u) (rt_node t) \<and> aeq k (rt_inst u) (rt_inst t)) (sd_run_targets d)
          then Some ''Dup''
          else if \<not> list_ex (run_is k i) (sd_runs d) then Some ''ErrSQL'' else None)
     (\<lambda>d. d\<lparr>sd_run_targets := (i, t) # sd_run_targets d\<rparr>)"

definition insert_task_run :: "collation \<Rightarrow> task_run \<Rightarrow> unit sact" where
  "insert_task_run k run =
     andthen (exec_if
       (\<lambda>d. if list_ex (run_is k (rn_id run)) (sd_runs d) then Some ''Dup'' else None)
       (\<lambda>d. d\<lparr>sd_runs := run_row.truncate run # sd_runs d\<rparr>)) (\<lambda>_.
     each (insert_run_target k (rn_id run)) (rn_targets run))"

definition claimable :: "collation \<Rightarrow> string \<Rightarrow> int \<Rightarrow> task_row \<Rightarrow> bool" where
  "claimable k i sched t \<longleftrightarrow> task_is k i t \<and> tk_enabled t \<and> tk_next t = Some sched"

definition advance :: "int \<Rightarrow> int \<Rightarrow> int option \<Rightarrow> task_row \<Rightarrow> task_row" where
  "advance now sched next t =
     t\<lparr>tk_enabled := next \<noteq> None, tk_next := next, tk_last := Some sched, tk_updated := now\<rparr>"

definition claimed_run :: "string \<Rightarrow> int \<Rightarrow> scheduled_task \<Rightarrow> int \<Rightarrow> bool \<Rightarrow> task_run" where
  "claimed_run rid now t sched missed =
     (let run = new_task_run rid now t ''scheduled'' (if missed then ''missed'' else ''queued'') (Some sched) no_actor
      in if missed then run\<lparr>rn_started := Some now, rn_finished := Some now\<rparr> else run)"

definition claim_body ::
  "collation \<Rightarrow> string option \<Rightarrow> int \<Rightarrow> string \<Rightarrow> int \<Rightarrow> int option \<Rightarrow> bool \<Rightarrow> task_run option sact" where
  "claim_body k rnd now i sched nxt missed =
     andthen (query (\<lambda>d. find (claimable k i sched) (sd_tasks d))) (\<lambda>row.
      case row of
        None \<Rightarrow> ret None
      | Some t \<Rightarrow>
          andthen (query (targets_of k i)) (\<lambda>ts.
          andthen (exec (\<lambda>d. d\<lparr>sd_tasks := update_rows (task_is k i) (advance now sched nxt) (sd_tasks d)\<rparr>)) (\<lambda>_.
          andthen (need ''ErrRandom'' rnd) (\<lambda>rid.
          andthen (insert_task_run k (claimed_run rid now (with_targets t ts) sched missed)) (\<lambda>_.
          ret (Some (claimed_run rid now (with_targets t ts) sched missed)))))))"

definition claim_scheduled_task ::
  "collation \<Rightarrow> string option \<Rightarrow> int \<Rightarrow> string \<Rightarrow> int \<Rightarrow> int option \<Rightarrow> bool \<Rightarrow> task_run option sact" where
  "claim_scheduled_task k rnd now i sched nxt missed = tx (claim_body k rnd now i sched nxt missed)"

definition create_manual_task_run ::
  "collation \<Rightarrow> string option \<Rightarrow> int \<Rightarrow> string \<Rightarrow> actor \<Rightarrow> task_run sact" where
  "create_manual_task_run k rnd now i a = tx
     (andthen (query (\<lambda>d. find (task_is k i) (sd_tasks d))) (\<lambda>row.
      andthen (need ''ErrNotFound'' row) (\<lambda>t.
      andthen (query (targets_of k i)) (\<lambda>ts.
      andthen (need ''ErrRandom'' rnd) (\<lambda>rid.
      let run = new_task_run rid now (with_targets t ts) ''manual'' ''queued'' None a
      in andthen (insert_task_run k run) (\<lambda>_. ret run))))))"

definition start_task_run :: "collation \<Rightarrow> int \<Rightarrow> string \<Rightarrow> unit sact" where
  "start_task_run k now i = exec (\<lambda>d. d\<lparr>sd_runs := update_rows
     (\<lambda>r. run_is k i r \<and> aeq k (rn_status r) ''queued'')
     (\<lambda>r. r\<lparr>rn_status := ''running'', rn_started := Some now\<rparr>) (sd_runs d)\<rparr>)"

definition run_target_is :: "collation \<Rightarrow> string \<Rightarrow> string \<Rightarrow> string \<Rightarrow> string \<times> run_target \<Rightarrow> bool" where
  "run_target_is k i node inst p \<longleftrightarrow>
     aeq k (fst p) i \<and> aeq k (rt_node (snd p)) node \<and> aeq k (rt_inst (snd p)) inst"

definition start_task_run_target :: "collation \<Rightarrow> int \<Rightarrow> string \<Rightarrow> string \<Rightarrow> string \<Rightarrow> unit sact" where
  "start_task_run_target k now i node inst = exec (\<lambda>d. d\<lparr>sd_run_targets := update_rows
     (run_target_is k i node inst)
     (apsnd (\<lambda>t. t\<lparr>rt_status := ''running'', rt_started := Some now\<rparr>)) (sd_run_targets d)\<rparr>)"

definition complete_task_run_target ::
  "collation \<Rightarrow> int \<Rightarrow> string \<Rightarrow> string \<Rightarrow> string \<Rightarrow> bool \<Rightarrow> string \<Rightarrow> string \<Rightarrow> unit sact" where
  "complete_task_run_target k now i node inst success code message =
     exec (\<lambda>d. d\<lparr>sd_run_targets := update_rows
       (run_target_is k i node inst)
       (apsnd (\<lambda>t. t\<lparr>rt_status := (if success then ''completed'' else ''failed''),
          rt_finished := Some now, rt_code := code, rt_message := message\<rparr>)) (sd_run_targets d)\<rparr>)"

definition run_targets :: "collation \<Rightarrow> string \<Rightarrow> sched_db \<Rightarrow> run_target list" where
  "run_targets k i d = map snd (filter (\<lambda>(j, _). aeq k j i) (sd_run_targets d))"

definition count_status :: "collation \<Rightarrow> string \<Rightarrow> run_target list \<Rightarrow> int" where
  "count_status k status ts = int (length (filter (\<lambda>t. aeq k (rt_status t) status) ts))"

definition final_status :: "int \<Rightarrow> int \<Rightarrow> string" where
  "final_status succeeded failed =
     (if 0 < failed \<and> 0 < succeeded then ''completed_with_errors''
      else if 0 < failed then ''failed'' else ''completed'')"

definition finish_task_run :: "collation \<Rightarrow> int \<Rightarrow> string \<Rightarrow> unit sact" where
  "finish_task_run k now i =
     andthen (query (run_targets k i)) (\<lambda>ts.
     let succeeded = count_status k ''completed'' ts; failed = count_status k ''failed'' ts
     in exec (\<lambda>d. d\<lparr>sd_runs := update_rows (run_is k i)
          (\<lambda>r. r\<lparr>rn_status := final_status succeeded failed, rn_finished := Some now,
             rn_total := int (length ts), rn_success := succeeded, rn_failed := failed\<rparr>) (sd_runs d)\<rparr>))"

text \<open>\<open>status IN ('queued', 'running')\<close>.\<close>

definition incomplete :: "collation \<Rightarrow> string \<Rightarrow> bool" where
  "incomplete k status \<longleftrightarrow> aeq k status ''queued'' \<or> aeq k status ''running''"

definition fail_incomplete_task_runs :: "collation \<Rightarrow> int \<Rightarrow> string \<Rightarrow> string \<Rightarrow> unit sact" where
  "fail_incomplete_task_runs k now code message = tx
     (andthen (exec (\<lambda>d. d\<lparr>sd_run_targets := update_rows
        (\<lambda>(j, t). incomplete k (rt_status t) \<and>
           list_ex (\<lambda>r. run_is k j r \<and> incomplete k (rn_status r)) (sd_runs d))
        (apsnd (\<lambda>t. t\<lparr>rt_status := ''failed'', rt_finished := Some now, rt_code := code,
           rt_message := message\<rparr>)) (sd_run_targets d)\<rparr>)) (\<lambda>_.
      exec (\<lambda>d. d\<lparr>sd_runs := update_rows (\<lambda>r. incomplete k (rn_status r))
        (\<lambda>r. r\<lparr>rn_status := ''failed'', rn_finished := Some now,
           rn_success := count_status k ''completed'' (run_targets k (rn_id r) d),
           rn_failed := count_status k ''failed'' (run_targets k (rn_id r) d)\<rparr>) (sd_runs d)\<rparr>)))"

section \<open>Listing and cleaning up\<close>

record run_filter =
  rf_task :: string
  rf_status :: string
  rf_from :: "int option"
  rf_to :: "int option"
  rf_cursor :: "int option"
  rf_cursor_id :: string
  rf_limit :: int

definition run_limit :: "run_filter \<Rightarrow> nat" where
  "run_limit f = nat (let l = (if rf_limit f < 1 then 30 else rf_limit f) in if 100 < l then 100 else l)"

definition run_matches :: "collation \<Rightarrow> run_filter \<Rightarrow> run_row \<Rightarrow> bool" where
  "run_matches k f r \<longleftrightarrow>
     (rf_task f = [] \<or> aeq k (rn_task r) (rf_task f)) \<and>
     (rf_status f = [] \<or> aeq k (rn_status r) (rf_status f)) \<and>
     (case rf_from f of None \<Rightarrow> True | Some t \<Rightarrow> t \<le> rn_created r) \<and>
     (case rf_to f of None \<Rightarrow> True | Some t \<Rightarrow> rn_created r \<le> t) \<and>
     (case rf_cursor f of
        None \<Rightarrow> True
      | Some t \<Rightarrow> rf_cursor_id f = [] \<or> rn_created r < t \<or>
          (rn_created r = t \<and> k_ascii k (rn_id r) < k_ascii k (rf_cursor_id f)))"

definition run_order :: "collation \<Rightarrow> run_row \<Rightarrow> int \<times> string" where
  "run_order k r = (rn_created r, k_ascii k (rn_id r))"

definition list_task_runs :: "collation \<Rightarrow> run_filter \<Rightarrow> (run_row list \<times> bool) sact" where
  "list_task_runs k f =
     andthen (query (\<lambda>d. take (run_limit f + 1)
       (rev (sort_key (run_order k) (filter (run_matches k f) (sd_runs d)))))) (\<lambda>items.
     ret (take (run_limit f) items, run_limit f < length items))"

definition get_task_run :: "collation \<Rightarrow> string \<Rightarrow> task_run sact" where
  "get_task_run k i =
     andthen (query (\<lambda>d. find (run_is k i) (sd_runs d))) (\<lambda>row.
     andthen (need ''ErrNotFound'' row) (\<lambda>r.
     andthen (query (\<lambda>d. sort_key (\<lambda>t. (k_text k (rt_node_name t), k_text k (rt_inst_name t))) (run_targets k i d))) (\<lambda>ts.
     ret (run_row.extend r \<lparr>rn_targets = ts\<rparr>))))"

definition count_running_task_runs :: "collation \<Rightarrow> int sact" where
  "count_running_task_runs k =
     query (\<lambda>d. int (length (filter (\<lambda>r. incomplete k (rn_status r)) (sd_runs d))))"

definition delete_task_runs_before :: "collation \<Rightarrow> int \<Rightarrow> int sact" where
  "delete_task_runs_before k cutoff = stmt (\<lambda>d.
     (Inr (int (length (filter (\<lambda>r. rn_created r < cutoff) (sd_runs d)))),
      d\<lparr>sd_runs := filter (\<lambda>r. \<not> rn_created r < cutoff) (sd_runs d),
        sd_run_targets := filter (\<lambda>(j, _). \<not> list_ex (\<lambda>r. run_is k j r \<and> rn_created r < cutoff) (sd_runs d))
          (sd_run_targets d)\<rparr>))"

end
