(* ===== verification/ScheduleService.thy ===== *)
theory ScheduleService
  imports ScheduleStore
begin

text \<open>
  panel/internal/schedule/service.go and panel/internal/consolecommand: checking and normalising
  the input of a task, the pass over the tasks that are due, and the execution of a run. The
  answers of the daemons are arguments.
\<close>

section \<open>Commands the panel keeps to itself\<close>

definition after_last :: "char \<Rightarrow> string \<Rightarrow> string" where
  "after_last c s = (if c \<in> set s then rev (takeWhile (\<lambda>x. x \<noteq> c) (rev s)) else s)"

definition command_root :: "string \<Rightarrow> string" where
  "command_root w = after_last (CHR '':'') (to_lower (trim_prefix w ''/''))"

text \<open>\<open>consolecommand.Validate\<close> answers nil.\<close>

definition command_allowed :: "bool \<Rightarrow> string \<Rightarrow> bool" where
  "command_allowed manage command =
     (if \<not> manage then True
      else case str_fields (trim_space command) of
             [] \<Rightarrow> True
           | w # _ \<Rightarrow> command_root w \<noteq> ''op'' \<and> command_root w \<noteq> ''deop'')"

section \<open>The input of a task\<close>

definition max_targets :: nat where "max_targets = 200"
definition max_name_runes :: nat where "max_name_runes = 100"
definition max_command_runes :: nat where "max_command_runes = 2000"
definition missed_grace_period :: int where "missed_grace_period = 30 * second_ns"
definition log_retention :: int where "log_retention = 30 * 24 * 3600 * second_ns"

record task_input =
  ti_name :: string
  ti_enabled :: bool
  ti_kind :: string
  ti_schedule :: json_body
  ti_tz :: string
  ti_action :: string
  ti_payload :: string
  ti_targets :: "task_target list"

definition action_permission :: "string \<Rightarrow> string" where
  "action_permission a =
     (if a = ''start'' then ''instance.start''
      else if a = ''stop'' then ''instance.stop''
      else if a = ''restart'' then ''instance.restart''
      else if a = ''kill'' then ''instance.kill''
      else if a = ''command'' then ''console.command''
      else [])"

text \<open>The key of a target: node and instance, separated by a NUL byte.\<close>

definition target_key :: "task_target \<Rightarrow> string" where
  "target_key t = tt_node t @ CHR 0x00 # tt_inst t"

definition trimmed_target :: "task_target \<Rightarrow> task_target" where
  "trimmed_target t = t\<lparr>tt_node := trim_space (tt_node t), tt_server := trim_space (tt_server t),
     tt_inst := trim_space (tt_inst t), tt_inst_name := trim_space (tt_inst_name t)\<rparr>"

definition named_target :: "string \<Rightarrow> task_target \<Rightarrow> task_target" where
  "named_target node_name t = t\<lparr>tt_node_name := node_name,
     tt_inst_name := (if tt_inst_name t = [] then tt_inst t else tt_inst_name t)\<rparr>"

definition node_lookup :: "collation \<Rightarrow> (string, node_row) gomap \<Rightarrow> string \<Rightarrow> node_row sact" where
  "node_lookup k cache i =
     (case aget cache i of
        Some n \<Rightarrow> ret n
      | None \<Rightarrow> on_error (\<lambda>c. raise (if c = ''ErrNotFound'' then ''Validation'' else c)) (get_node sd_nodes k i))"

fun targets_from ::
  "collation \<Rightarrow> (string, node_row) gomap \<Rightarrow> string list \<Rightarrow> task_target list \<Rightarrow> task_target list sact" where
  "targets_from k cache seen [] = ret []"
| "targets_from k cache seen (item # items) =
     (let t = trimmed_target item
      in if tt_node t = [] \<or> tt_server t = [] \<or> tt_inst t = [] then raise ''Validation''
         else if target_key t \<in> set seen then targets_from k cache seen items
         else andthen (node_lookup k cache (tt_node t)) (\<lambda>n.
              andthen (targets_from k (aput (tt_node t) n cache) (target_key t # seen) items) (\<lambda>rest.
              ret (named_target (nd_name n) t # rest))))"

definition normalize_targets :: "collation \<Rightarrow> task_target list \<Rightarrow> task_target list sact" where
  "normalize_targets k ts =
     (if ts = [] \<or> max_targets < length ts then raise ''Validation'' else targets_from k [] [] ts)"

definition lift_result :: "'a result \<Rightarrow> ('d, 'a) dact" where
  "lift_result r = (case r of Inl e \<Rightarrow> raise (err_code e) | Inr x \<Rightarrow> ret x)"

definition prepared_task ::
  "string \<Rightarrow> task_input \<Rightarrow> json_body \<Rightarrow> string \<Rightarrow> string \<Rightarrow> string \<Rightarrow> int option \<Rightarrow> task_target list \<Rightarrow> scheduled_task" where
  "prepared_task name input config tz act payload next ts =
     \<lparr>tk_id = [], tk_name = name, tk_enabled = ti_enabled input, tk_kind = ti_kind input,
      tk_config = config, tk_tz = tz, tk_action = act, tk_payload = payload, tk_next = next,
      tk_last = None, tk_by = [], tk_by_name = [], tk_by_display = [], tk_created = 0,
      tk_updated = 0, tk_targets = ts\<rparr>"

definition checked_payload :: "bool \<Rightarrow> string \<Rightarrow> string \<Rightarrow> string result" where
  "checked_payload manage act payload =
     (if act = ''command'' then
        if payload = [] \<or> max_command_runes < rune_count payload then invalid
        else if \<not> command_allowed manage payload then invalid
        else Inr payload
      else Inr [])"

definition prepare_task ::
  "(string \<Rightarrow> zone option) \<Rightarrow> collation \<Rightarrow> bool \<Rightarrow> task_input \<Rightarrow> int \<Rightarrow> scheduled_task sact" where
  "prepare_task zones k manage input now =
     (let name = trim_space (ti_name input); act = trim_space (ti_action input);
          payload = trim_space (ti_payload input)
      in if name = [] \<or> max_name_runes < rune_count name then raise ''Validation''
         else andthen (lift_result (normalize_timezone zones (ti_tz input))) (\<lambda>(tz, _).
              andthen (lift_result (normalize_config (ti_kind input) (ti_schedule input))) (\<lambda>config.
              andthen (lift_result (first_run zones (ti_kind input) config tz now)) (\<lambda>first.
              if action_permission act = [] then raise ''Validation''
              else andthen (lift_result (checked_payload manage act payload)) (\<lambda>payload'.
                   andthen (normalize_targets k (ti_targets input)) (\<lambda>ts.
                   ret (prepared_task name input config tz act payload'
                          (if ti_enabled input then Some first else None) ts)))))))"

definition create_task ::
  "(string \<Rightarrow> zone option) \<Rightarrow> collation \<Rightarrow> bool \<Rightarrow> string option \<Rightarrow> int \<Rightarrow> task_input \<Rightarrow> actor \<Rightarrow> scheduled_task sact" where
  "create_task zones k manage rnd now input a =
     andthen (prepare_task zones k manage input now) (\<lambda>t.
     create_scheduled_task k rnd now
       (t\<lparr>tk_by := ac_id a, tk_by_name := ac_name a, tk_by_display := ac_display a\<rparr>))"

definition update_task ::
  "(string \<Rightarrow> zone option) \<Rightarrow> collation \<Rightarrow> bool \<Rightarrow> int \<Rightarrow> string \<Rightarrow> task_input \<Rightarrow> scheduled_task sact" where
  "update_task zones k manage now i input =
     andthen (get_scheduled_task k i) (\<lambda>old.
     andthen (prepare_task zones k manage input now) (\<lambda>t.
     update_scheduled_task k now
       (t\<lparr>tk_id := tk_id old, tk_last := tk_last old, tk_by := tk_by old, tk_by_name := tk_by_name old,
          tk_by_display := tk_by_display old\<rparr>)))"

section \<open>The pass over the due tasks\<close>

text \<open>What the pass decides for a task: its next run, and whether the due time was missed.\<close>

definition due_decision ::
  "(string \<Rightarrow> zone option) \<Rightarrow> int \<Rightarrow> task_row \<Rightarrow> int \<Rightarrow> int option \<times> bool" where
  "due_decision zones now t sched =
     (case next_after zones (tk_kind t) (tk_config t) (tk_tz t) sched now of
        Inl _ \<Rightarrow> (None, True)
      | Inr next \<Rightarrow> (next, missed_grace_period < sub_time now sched))"

text \<open>One task; the answer is the run to execute, if any. Errors are logged and the pass goes on.\<close>

definition process_task ::
  "(string \<Rightarrow> zone option) \<Rightarrow> collation \<Rightarrow> int \<Rightarrow> string option \<times> int \<Rightarrow> task_row \<Rightarrow> task_run option sact" where
  "process_task zones k now env t =
     (case tk_next t of
        None \<Rightarrow> ret None
      | Some sched \<Rightarrow>
          (case due_decision zones now t sched of (next, missed) \<Rightarrow>
             on_error (\<lambda>_. ret None)
               (andthen (claim_scheduled_task k (fst env) (snd env) (tk_id t) sched next missed) (\<lambda>run.
                ret (if missed then None else run)))))"

fun process_tasks ::
  "(string \<Rightarrow> zone option) \<Rightarrow> collation \<Rightarrow> int \<Rightarrow> (string option \<times> int) list \<Rightarrow> task_row list \<Rightarrow> task_run list sact" where
  "process_tasks zones k now envs [] = ret []"
| "process_tasks zones k now [] (t # ts) = ret []"
| "process_tasks zones k now (env # envs) (t # ts) =
     andthen (process_task zones k now env t) (\<lambda>r.
     andthen (process_tasks zones k now envs ts) (\<lambda>rs.
     ret ((case r of None \<Rightarrow> [] | Some run \<Rightarrow> [run]) @ rs)))"

text \<open>
  \<open>envs\<close> holds the random identifier and the clock each claim reads; the pass takes at most 100
  tasks, so a list of 100 serves every pass.
\<close>

definition process_due ::
  "(string \<Rightarrow> zone option) \<Rightarrow> collation \<Rightarrow> int \<Rightarrow> (string option \<times> int) list \<Rightarrow> task_run list sact" where
  "process_due zones k now envs =
     on_error (\<lambda>_. ret [])
       (andthen (list_due_scheduled_tasks k now 100) (process_tasks zones k now envs))"

section \<open>Execution\<close>

datatype call_error =
    ApiError string string
  | Disconnected string
  | DeadlineExceeded string
  | Canceled string
  | OtherError string

fun error_text :: "call_error \<Rightarrow> string" where
  "error_text (ApiError c m) = m"
| "error_text (Disconnected m) = m"
| "error_text (DeadlineExceeded m) = m"
| "error_text (Canceled m) = m"
| "error_text (OtherError m) = m"

fun task_error :: "call_error option \<Rightarrow> string \<times> string" where
  "task_error None = ([], [])"
| "task_error (Some e) =
     (case e of ApiError c _ \<Rightarrow> c | Disconnected _ \<Rightarrow> ''DAEMON_UNAVAILABLE''
      | DeadlineExceeded _ \<Rightarrow> ''TIMEOUT'' | Canceled _ \<Rightarrow> ''CANCELED'' | OtherError _ \<Rightarrow> ''INTERNAL'',
      concat (take 500 (runes (error_text e))))"

text \<open>The two messages in Chinese, in UTF-8.\<close>

definition forbidden_message :: string where
  "forbidden_message = [
    CHR 0xE5, CHR 0xBD, CHR 0x93, CHR 0xE5, CHR 0x89, CHR 0x8D, CHR 0xE9, CHR 0x85, CHR 0x8D,
    CHR 0xE7, CHR 0xBD, CHR 0xAE, CHR 0xE7, CHR 0x94, CHR 0xB1, CHR 0xE9, CHR 0x9D, CHR 0xA2,
    CHR 0xE6, CHR 0x9D, CHR 0xBF, CHR 0xE6, CHR 0x8E, CHR 0xA5, CHR 0xE7, CHR 0xAE, CHR 0xA1,
    CHR 0xE6, CHR 0xB8, CHR 0xB8, CHR 0xE6, CHR 0x88, CHR 0x8F, CHR 0xE5, CHR 0x86, CHR 0x85,
    CHR 0x20, CHR 0x4F, CHR 0x50, CHR 0xEF, CHR 0xBC, CHR 0x8C, CHR 0xE4, CHR 0xB8, CHR 0x8D,
    CHR 0xE8, CHR 0x83, CHR 0xBD, CHR 0xE5, CHR 0x8F, CHR 0x91, CHR 0xE9, CHR 0x80, CHR 0x81,
    CHR 0x20, CHR 0x6F, CHR 0x70, CHR 0x20, CHR 0xE6, CHR 0x88, CHR 0x96, CHR 0x20, CHR 0x64,
    CHR 0x65, CHR 0x6F, CHR 0x70, CHR 0x20, CHR 0xE5, CHR 0x91, CHR 0xBD, CHR 0xE4, CHR 0xBB,
    CHR 0xA4]"

definition restarted_message :: string where
  "restarted_message = [
    CHR 0x50, CHR 0x61, CHR 0x6E, CHR 0x65, CHR 0x6C, CHR 0x20, CHR 0xE9, CHR 0x87, CHR 0x8D,
    CHR 0xE5, CHR 0x90, CHR 0xAF, CHR 0xE5, CHR 0x89, CHR 0x8D, CHR 0xE4, CHR 0xBB, CHR 0xBB,
    CHR 0xE5, CHR 0x8A, CHR 0xA1, CHR 0xE6, CHR 0x9C, CHR 0xAA, CHR 0xE6, CHR 0x89, CHR 0xA7,
    CHR 0xE8, CHR 0xA1, CHR 0x8C, CHR 0xE5, CHR 0xAE, CHR 0x8C, CHR 0xE6, CHR 0x88, CHR 0x90]"

definition command_forbidden :: call_error where
  "command_forbidden = ApiError ''COMMAND_FORBIDDEN'' forbidden_message"

text \<open>The message sent to the daemon: its type and the command, if there is one.\<close>

definition call_message :: "task_run \<Rightarrow> string \<times> string option" where
  "call_message run =
     (if rn_action run = ''command'' then (''console.command'', Some (rn_payload run))
      else (''instance.'' @ rn_action run, None))"

definition call_outcome :: "bool \<Rightarrow> task_run \<Rightarrow> call_error option \<Rightarrow> call_error option" where
  "call_outcome manage run answer =
     (if rn_action run = ''command'' \<and> \<not> command_allowed manage (rn_payload run)
      then Some command_forbidden else answer)"

definition execute_target ::
  "collation \<Rightarrow> bool \<Rightarrow> task_run \<Rightarrow> int \<Rightarrow> int \<Rightarrow> call_error option \<Rightarrow> run_target \<Rightarrow> unit sact" where
  "execute_target k manage run t1 t2 answer target =
     on_error (\<lambda>_. ret ())
       (andthen (start_task_run_target k t1 (rn_id run) (rt_node target) (rt_inst target)) (\<lambda>_.
        let e = call_outcome manage run answer
        in complete_task_run_target k t2 (rn_id run) (rt_node target) (rt_inst target) (e = None)
             (fst (task_error e)) (snd (task_error e))))"

text \<open>
  \<open>execute\<close>: the goroutines of the targets touch different rows, so they are run in the order of
  the list. \<open>answers\<close> gives the daemon's answer for a target, \<open>times\<close> the clock readings.
\<close>

definition execute ::
  "collation \<Rightarrow> bool \<Rightarrow> task_run \<Rightarrow> (run_target \<Rightarrow> call_error option) \<Rightarrow> int \<Rightarrow> int \<Rightarrow> int \<Rightarrow> int \<Rightarrow> unit sact" where
  "execute k manage run answers t0 t1 t2 t3 =
     on_error (\<lambda>_. ret ())
       (andthen (start_task_run k t0 (rn_id run)) (\<lambda>_.
        andthen (each (\<lambda>x. execute_target k manage run t1 t2 (answers x) x) (rn_targets run)) (\<lambda>_.
        finish_task_run k t3 (rn_id run))))"

definition run_now ::
  "collation \<Rightarrow> string option \<Rightarrow> int \<Rightarrow> string \<Rightarrow> actor \<Rightarrow> task_run sact" where
  "run_now k rnd now i a = create_manual_task_run k rnd now i a"

definition start_service :: "collation \<Rightarrow> int \<Rightarrow> unit sact" where
  "start_service k now =
     on_error (\<lambda>_. ret ())
       (fail_incomplete_task_runs k now ''PANEL_RESTARTED'' restarted_message)"

definition cleanup :: "collation \<Rightarrow> int \<Rightarrow> unit sact" where
  "cleanup k now =
     on_error (\<lambda>_. ret ()) (andthen (delete_task_runs_before k (now - log_retention)) (\<lambda>_. ret ()))"

end
