(* ===== verification/Schedule_Laws.thy ===== *)
theory Schedule_Laws
  imports ScheduleService
begin

text \<open>
  The scheduler as a machine: every request and every claim of a due task is one step, with the
  clock it reads and the outcomes of its statements. Several panels may share the database; a claim
  is a step of its own that works on a row read earlier. What is shown is that the next run of a
  task only ever moves past the clock, and that a claim moves it past the time it claims.
\<close>

section \<open>The next run is in the future\<close>

definition zones_steady :: "(string \<Rightarrow> zone option) \<Rightarrow> bool" where
  "zones_steady zones \<longleftrightarrow> (\<forall>name z. zones name = Some z \<longrightarrow> (\<exists>off. steady z off))"

lemma zones_steadyE:
  assumes "zones_steady zones" and "normalize_timezone zones tz = Inr (name, z)"
  obtains off where "steady z off"
  using assms unfolding zones_steady_def normalize_timezone_def Let_def
  by (auto split: option.splits)

lemma weekly_days:
  assumes "parse_config ''weekly'' raw = Inr c"
  shows "sc_days c \<noteq> []" and "\<forall>d \<in> set (sc_days c). 1 \<le> d \<and> d \<le> 7"
  using parse_config_normal [OF assms] by (simp_all add: config_normal_def)

lemma steady_next:
  assumes "zones_steady zones" and "normalize_timezone zones tz = Inr (name, z)"
  shows "now < next_daily c z now"
    and "parse_config ''weekly'' raw = Inr c \<Longrightarrow> now < next_weekly c z now"
proof -
  obtain off where "steady z off" using assms by (rule zones_steadyE)
  then have z: "steady_zone z off" by unfold_locales
  show "now < next_daily c z now" by (rule steady_zone.next_daily_least(1) [OF z])
  show "now < next_weekly c z now" if "parse_config ''weekly'' raw = Inr c"
    using steady_zone.next_weekly_least(1) [OF z] weekly_days [OF that] by blast
qed

lemma interval_range:
  assumes "parse_config ''interval'' raw = Inr c"
  shows "0 < wrap64 (sc_secs c * second_ns)"
proof -
  have "60 \<le> sc_secs c" "sc_secs c \<le> 31536000"
    using parse_config_normal [OF assms]
    by (simp_all add: config_normal_def minimum_interval_def maximum_interval_def)
  then have "wrap64 (sc_secs c * second_ns) = sc_secs c * second_ns"
    by (intro wrap64_id) (simp_all add: second_ns_def)
  then show ?thesis using \<open>60 \<le> sc_secs c\<close> by (simp add: second_ns_def)
qed

lemma config_kind:
  assumes "config_normal kind c"
  shows "kind = ''once'' \<or> kind = ''daily'' \<or> kind = ''weekly'' \<or> kind = ''interval''"
  using assms unfolding config_normal_def
  by (cases "kind = ''once''"; cases "kind = ''daily''"; cases "kind = ''weekly''") simp_all

lemma first_run_later:
  assumes steady: "zones_steady zones" and first: "first_run zones kind raw tz now = Inr t"
  shows "now < t"
proof -
  obtain c name z where p: "parse_config kind raw = Inr c"
    and n: "normalize_timezone zones tz = Inr (name, z)"
    using first by (auto simp: first_run_def split: sum.splits)
  note nx = steady_next [OF steady n]
  consider "kind = ''once''" | "kind = ''daily''" | "kind = ''weekly''" | "kind = ''interval''"
    using config_kind [OF parse_config_normal [OF p]] by blast
  then show ?thesis
  proof cases
    case 4
    then show ?thesis using first p n interval_range [of raw c] by (simp add: first_run_def)
  qed (use first p n nx in \<open>auto simp: first_run_def split: option.splits if_splits\<close>)
qed

lemma next_after_later:
  assumes steady: "zones_steady zones" and after: "next_after zones kind raw tz sched now = Inr (Some t)"
    and bounds: "sched \<le> now" "now - sched < 2 ^ 62"
  shows "now < t"
proof -
  obtain c name z where p: "parse_config kind raw = Inr c"
    and n: "normalize_timezone zones tz = Inr (name, z)"
    using after by (auto simp: next_after_def split: sum.splits)
  note nx = steady_next [OF steady n]
  consider "kind = ''once''" | "kind = ''daily''" | "kind = ''weekly''" | "kind = ''interval''"
    using config_kind [OF parse_config_normal [OF p]] by blast
  then show ?thesis
  proof cases
    case 4
    define i where "i = sc_secs c * second_ns"
    have "0 < i"
      using parse_config_normal [OF p] 4
      by (simp add: i_def config_normal_def minimum_interval_def second_ns_def)
    then have "now - sched < ((now - sched) div i + 1) * i"
      by (metis add.commute distrib_right mod_mult_div_eq mult.commute mult_1 pos_mod_bound
          add_strict_right_mono)
    then show ?thesis
      using next_after_interval [OF p [unfolded 4] n bounds] after 4 by (simp add: i_def)
  qed (use after p n nx in \<open>auto simp: next_after_def\<close>)
qed

section \<open>What a step does to the next runs\<close>

text \<open>
  \<open>moved now ids\<close>: every row was there before with the same next run, or its next run is past the
  clock (or none) and its identifier is an old one or one of \<open>ids\<close>.
\<close>

definition future :: "int \<Rightarrow> int option \<Rightarrow> bool" where
  "future now n \<longleftrightarrow> (case n of None \<Rightarrow> True | Some t \<Rightarrow> now < t)"

definition moved :: "int \<Rightarrow> string set \<Rightarrow> sched_db \<Rightarrow> sched_db \<Rightarrow> bool" where
  "moved now ids d d' \<longleftrightarrow>
     (\<forall>t' \<in> set (sd_tasks d').
        (\<exists>t \<in> set (sd_tasks d). tk_id t = tk_id t' \<and> tk_next t = tk_next t') \<or>
        (future now (tk_next t') \<and> ((\<exists>t \<in> set (sd_tasks d). tk_id t = tk_id t') \<or> tk_id t' \<in> ids)))"

interpretation mv: preserved "moved now ids" for now ids
proof unfold_locales
  show "moved now ids d d" for d by (auto simp: moved_def)
next
  fix d1 d2 d3 :: sched_db
  assume "moved now ids d1 d2" and "moved now ids d2 d3"
  then show "moved now ids d1 d3" unfolding moved_def by metis
qed

lemma moved_same: "sd_tasks d' = sd_tasks d \<Longrightarrow> moved now ids d d'"
  by (auto simp: moved_def)

lemma moved_less: "set (sd_tasks d') \<subseteq> set (sd_tasks d) \<Longrightarrow> moved now ids d d'"
  by (auto simp: moved_def)

lemma moved_update:
  assumes "\<And>t. tk_id (f t) = tk_id t" and "\<And>t. future now (tk_next (f t))"
  shows "moved now ids d (d\<lparr>sd_tasks := update_rows P f (sd_tasks d)\<rparr>)"
  using assms by (auto simp: moved_def update_rows_def split: if_splits)

lemma moved_new:
  "tk_id t \<in> ids \<Longrightarrow> future now (tk_next t) \<Longrightarrow> moved now ids d (d\<lparr>sd_tasks := t # sd_tasks d\<rparr>)"
  by (auto simp: moved_def)

lemmas sched_defs = create_task_def update_task_def create_scheduled_task_def update_scheduled_task_def
  delete_scheduled_task_def get_scheduled_task_def replace_targets_def insert_target_def Let_def

lemma reads_get_task: "reads (get_scheduled_task k i)"
  unfolding get_scheduled_task_def by (intro readonly.keep_intros)

lemma reads_get_node: "reads (get_node nodes k i)"
  unfolding get_node_def by (intro readonly.keep_intros)

lemma reads_lift: "reads (lift_result r)"
  by (auto simp: lift_result_def intro: readonly.keep_intros split: sum.splits)

lemma reads_targets_from: "reads (targets_from k cache seen items)"
proof (induction items arbitrary: cache seen)
  case (Cons item items)
  have "reads (node_lookup k cache i)" for i
    by (auto simp: node_lookup_def intro!: readonly.keep_intros reads_get_node split: option.splits)
  with Cons show ?case
    by (auto simp: Let_def intro!: readonly.keep_intros)
qed (simp add: readonly.keep_ret)

lemma reads_prepare: "reads (prepare_task zones k manage input now)"
  unfolding prepare_task_def normalize_targets_def Let_def
  by (auto intro!: readonly.keep_intros reads_lift reads_targets_from split: prod.splits)

lemma lift_yields [act_simps]: "yields (lift_result r) d w x d' w' \<longleftrightarrow> r = Inr x \<and> d' = d \<and> w' = w"
  by (auto simp: lift_result_def act_simps split: sum.splits)

lemma prepare_next:
  assumes "zones_steady zones" and "yields (prepare_task zones k manage input now) d w t d' w'"
  shows "future now (tk_next t)"
proof -
  obtain kind config tz first where "first_run zones kind config tz now = Inr first"
    and "tk_next t = (if ti_enabled input then Some first else None)"
    using assms(2) unfolding prepare_task_def Let_def
    by (auto simp: act_simps prepared_task_def split: if_splits prod.splits)
  then show ?thesis using first_run_later [OF assms(1)] by (auto simp: future_def)
qed

lemma keep_insert_target: "keeps (moved now ids) (insert_target k i t)"
  unfolding insert_target_def by (intro mv.keep_exec_if moved_same) simp

lemma keep_replace_targets: "keeps (moved now ids) (replace_targets k i ts)"
  unfolding replace_targets_def
  by (intro mv.keep_intros mv.keep_exec moved_same keep_insert_target) simp

lemma truncate_fields [simp]:
  "tk_id (task_row.truncate t) = tk_id t" "tk_next (task_row.truncate t) = tk_next t"
  by (simp_all add: task_row.truncate_def)

lemma keep_create:
  assumes "future now (tk_next t)" and "set_option rnd \<subseteq> ids"
  shows "keeps (moved now ids) (create_scheduled_task k rnd now t)"
  unfolding create_scheduled_task_def Let_def
proof (rule mv.keep_andthen_when [OF mv.keep_need])
  fix d w i d' w'
  assume "yields (need ''ErrRandom'' rnd) d w i d' w'"
  then have "i \<in> ids" using assms(2) by (simp add: act_simps)
  with assms(1) show "keeps (moved now ids) (tx
     (andthen (on_error duplicate_to_conflict
        (exec_if (task_duplicate k (task_row.truncate (t\<lparr>tk_id := i, tk_created := now, tk_updated := now\<rparr>)))
          (\<lambda>d. d\<lparr>sd_tasks := task_row.truncate (t\<lparr>tk_id := i, tk_created := now, tk_updated := now\<rparr>) # sd_tasks d\<rparr>))) (\<lambda>_.
      andthen (replace_targets k i (tk_targets (t\<lparr>tk_id := i, tk_created := now, tk_updated := now\<rparr>))) (\<lambda>_.
      ret (t\<lparr>tk_id := i, tk_created := now, tk_updated := now\<rparr>)))))"
    by (intro mv.keep_more keep_replace_targets mv.keep_exec_if moved_new) simp_all
qed

lemma keep_update:
  assumes "future now (tk_next t)"
  shows "keeps (moved now ids) (update_scheduled_task k now t)"
  unfolding update_scheduled_task_def using assms
  by (intro mv.keep_more mv.keep_stmt keep_replace_targets mv.keep_reads reads_get_task)
    (auto simp: updated_task_def intro!: moved_update mv.refl split: option.splits)

lemma keep_delete: "keeps (moved now ids) (delete_scheduled_task k i)"
  unfolding delete_scheduled_task_def
  by (intro mv.keep_more mv.keep_stmt) (auto intro!: moved_less)

lemma keep_create_task:
  assumes "zones_steady zones" and "set_option rnd \<subseteq> ids"
  shows "keeps (moved now ids) (create_task zones k manage rnd now input a)"
  unfolding create_task_def
  by (rule mv.keep_andthen_when [OF mv.keep_reads [OF reads_prepare] keep_create])
    (auto dest: prepare_next [OF assms(1)] intro: assms(2) [THEN subsetD])

lemma keep_update_task:
  assumes "zones_steady zones"
  shows "keeps (moved now ids) (update_task zones k manage now i input)"
  unfolding update_task_def
  by (rule mv.keep_andthen [OF mv.keep_reads [OF reads_get_task]],
      rule mv.keep_andthen_when [OF mv.keep_reads [OF reads_prepare] keep_update])
    (auto dest: prepare_next [OF assms(1)])

section \<open>Runs do not touch the tasks\<close>

definition same_tasks :: "sched_db \<Rightarrow> sched_db \<Rightarrow> bool" where
  "same_tasks d d' \<longleftrightarrow> sd_tasks d' = sd_tasks d"

interpretation st: preserved same_tasks
  by unfold_locales (simp_all add: same_tasks_def)

lemma same_insert_run: "keeps same_tasks (insert_task_run k run)"
  unfolding insert_task_run_def insert_run_target_def
  by (intro st.keep_intros st.keep_exec_if) (simp_all add: same_tasks_def)

lemma same_manual: "keeps same_tasks (create_manual_task_run k rnd now i a)"
  unfolding create_manual_task_run_def Let_def
  by (intro st.keep_intros same_insert_run)

lemma same_run_statements:
  "keeps same_tasks (start_task_run k now i)"
  "keeps same_tasks (start_task_run_target k now i node inst)"
  "keeps same_tasks (complete_task_run_target k now i node inst ok code msg)"
  "keeps same_tasks (finish_task_run k now i)"
  "keeps same_tasks (fail_incomplete_task_runs k now code msg)"
  "keeps same_tasks (delete_task_runs_before k cutoff)"
  unfolding start_task_run_def start_task_run_target_def complete_task_run_target_def finish_task_run_def
    fail_incomplete_task_runs_def delete_task_runs_before_def Let_def
  by (intro st.keep_intros st.keep_exec st.keep_stmt; simp add: same_tasks_def)+

lemma moved_if_same: "keeps same_tasks m \<Longrightarrow> keeps (moved now ids) m"
  by (auto simp: keeps_def same_tasks_def intro: moved_same)

section \<open>The machine\<close>

datatype sched_op =
    OpCreateTask "string option" task_input actor
  | OpUpdateTask string task_input
  | OpDeleteTask string
  | OpListDue
  | OpDue int "string option" task_row
  | OpRunNow "string option" string actor
  | OpStartRun string
  | OpStartTarget string string string
  | OpCompleteTarget string string string bool string string
  | OpFinishRun string
  | OpRestart
  | OpCleanup

text \<open>\<open>sw_listed\<close>: the rows passes have read, with the clock of the pass; \<open>sw_started\<close>: the runs handed to \<open>execute\<close>.\<close>

record sched_world =
  sw_db :: sched_db
  sw_listed :: "(int \<times> task_row) list"
  sw_started :: "task_run list"
  sw_clock :: int

fun sched_act :: "(string \<Rightarrow> zone option) \<Rightarrow> collation \<Rightarrow> bool \<Rightarrow> int \<Rightarrow> sched_op \<Rightarrow> unit sact" where
  "sched_act zones k manage now (OpCreateTask rnd input a) = discard (create_task zones k manage rnd now input a)"
| "sched_act zones k manage now (OpUpdateTask i input) = discard (update_task zones k manage now i input)"
| "sched_act zones k manage now (OpDeleteTask i) = delete_scheduled_task k i"
| "sched_act zones k manage now OpListDue = ret ()"
| "sched_act zones k manage now (OpDue p rnd t) = ret ()"
| "sched_act zones k manage now (OpRunNow rnd i a) = discard (run_now k rnd now i a)"
| "sched_act zones k manage now (OpStartRun i) = start_task_run k now i"
| "sched_act zones k manage now (OpStartTarget i n j) = start_task_run_target k now i n j"
| "sched_act zones k manage now (OpCompleteTarget i n j ok c m) = complete_task_run_target k now i n j ok c m"
| "sched_act zones k manage now (OpFinishRun i) = finish_task_run k now i"
| "sched_act zones k manage now OpRestart = start_service k now"
| "sched_act zones k manage now OpCleanup = cleanup k now"

type_synonym sched_step = "int \<times> sched_op \<times> outcome list"

fun sched_step ::
  "(string \<Rightarrow> zone option) \<Rightarrow> collation \<Rightarrow> bool \<Rightarrow> sched_world \<Rightarrow> sched_step \<Rightarrow> sched_world" where
  "sched_step zones k manage s (now, OpListDue, w) =
     (case list_due_scheduled_tasks k now 100 (sw_db s) w of
        (Inr ts, d, _) \<Rightarrow> s\<lparr>sw_db := d, sw_listed := sw_listed s @ map (Pair now) ts, sw_clock := now\<rparr>
      | (Inl _, d, _) \<Rightarrow> s\<lparr>sw_db := d, sw_clock := now\<rparr>)"
| "sched_step zones k manage s (now, OpDue p rnd t, w) =
     (case process_task zones k p (rnd, now) t (sw_db s) w of
        (Inr (Some run), d, _) \<Rightarrow> s\<lparr>sw_db := d, sw_started := run # sw_started s, sw_clock := now\<rparr>
      | (_, d, _) \<Rightarrow> s\<lparr>sw_db := d, sw_clock := now\<rparr>)"
| "sched_step zones k manage s (now, x, w) =
     s\<lparr>sw_db := fst (snd (sched_act zones k manage now x (sw_db s) w)), sw_clock := now\<rparr>"

text \<open>The clock does not run backwards, a claim works on a row some pass has read, a new identifier is new.\<close>

definition sched_permitted :: "collation \<Rightarrow> sched_world \<Rightarrow> sched_step \<Rightarrow> bool" where
  "sched_permitted k s x =
     (case x of (now, op, w) \<Rightarrow>
        sw_clock s \<le> now \<and> now < 2 ^ 62 \<and>
        (case op of
           OpCreateTask (Some i) _ _ \<Rightarrow> \<not> list_ex (\<lambda>r. aeq k i (rn_task r)) (sw_started s)
         | OpDue p _ t \<Rightarrow> (p, t) \<in> set (sw_listed s)
         | _ \<Rightarrow> True))"

definition sched_init :: "sched_world \<Rightarrow> bool" where
  "sched_init s \<longleftrightarrow> sw_listed s = [] \<and> sw_started s = [] \<and> 0 \<le> sw_clock s \<and>
     list_all (\<lambda>t. case tk_next t of None \<Rightarrow> True | Some n \<Rightarrow> 0 \<le> n) (sd_tasks (sw_db s))"

section \<open>A due time is started once\<close>

definition past_claims :: "collation \<Rightarrow> sched_db \<Rightarrow> task_run \<Rightarrow> bool" where
  "past_claims k d r \<longleftrightarrow>
     (\<exists>f. rn_for r = Some f \<and> (\<forall>t \<in> set (sd_tasks d). aeq k (tk_id t) (rn_task r) \<longrightarrow> future f (tk_next t)))"

definition next_ok :: "sched_db \<Rightarrow> bool" where
  "next_ok d \<longleftrightarrow> (\<forall>t \<in> set (sd_tasks d). case tk_next t of None \<Rightarrow> True | Some n \<Rightarrow> 0 \<le> n)"

definition claim_key :: "collation \<Rightarrow> task_run \<Rightarrow> string \<times> int option" where
  "claim_key k r = (k_ascii k (rn_task r), rn_for r)"

definition sched_inv :: "collation \<Rightarrow> sched_world \<Rightarrow> bool" where
  "sched_inv k s \<longleftrightarrow>
     0 \<le> sw_clock s \<and> next_ok (sw_db s) \<and>
     (\<forall>(p, t) \<in> set (sw_listed s). p \<le> sw_clock s \<and> p < 2 ^ 62 \<and> 0 \<le> p \<and> (\<exists>n. tk_next t = Some n \<and> 0 \<le> n \<and> n \<le> p)) \<and>
     (\<forall>r \<in> set (sw_started s). past_claims k (sw_db s) r \<and> the (rn_for r) \<le> sw_clock s) \<and>
     distinct (map (claim_key k) (sw_started s))"

lemma future_mono: "future now n \<Longrightarrow> f \<le> now \<Longrightarrow> future f n"
  by (auto simp: future_def split: option.splits)

lemma moved_next_ok:
  assumes "moved now ids d d'" and "next_ok d" and "0 \<le> now"
  shows "next_ok d'"
  unfolding next_ok_def
proof
  fix t'
  assume "t' \<in> set (sd_tasks d')"
  with assms(1) consider t where "t \<in> set (sd_tasks d)" "tk_next t = tk_next t'" | "future now (tk_next t')"
    unfolding moved_def by blast
  then show "case tk_next t' of None \<Rightarrow> True | Some n \<Rightarrow> 0 \<le> n"
    using assms(2,3) by cases (auto simp: next_ok_def future_def split: option.splits)
qed

lemma moved_past_claims:
  assumes m: "moved now ids d d'" and c: "past_claims k d r" and "the (rn_for r) \<le> now"
    and fresh: "\<And>i. i \<in> ids \<Longrightarrow> \<not> aeq k i (rn_task r)"
  shows "past_claims k d' r"
proof -
  obtain f where f: "rn_for r = Some f"
    and old: "\<And>t. t \<in> set (sd_tasks d) \<Longrightarrow> aeq k (tk_id t) (rn_task r) \<Longrightarrow> future f (tk_next t)"
    using c by (auto simp: past_claims_def)
  have "future f (tk_next t')" if t': "t' \<in> set (sd_tasks d')" "aeq k (tk_id t') (rn_task r)" for t'
  proof -
    from m t'(1) consider t where "t \<in> set (sd_tasks d)" "tk_id t = tk_id t'" "tk_next t = tk_next t'"
      | "future now (tk_next t')"
      unfolding moved_def by blast
    then show ?thesis
      using old [of t for t] t'(2) future_mono assms(3) f by cases (auto, metis)
  qed
  then show ?thesis by (auto simp: past_claims_def f)
qed

section \<open>Claims\<close>

lemma decision_future:
  assumes "zones_steady zones" and "due_decision zones p t sched = (nxt, missed)"
    and "sched \<le> p" "p - sched < 2 ^ 62"
  shows "future p nxt"
  using assms next_after_later [OF assms(1) _ assms(3,4)]
  by (auto simp: due_decision_def future_def split: sum.splits option.splits)

lemma moved_advance: "future p nxt \<Longrightarrow>
    moved p ids d (d\<lparr>sd_tasks := update_rows P (advance now sched nxt) (sd_tasks d)\<rparr>)"
  by (rule moved_update) (simp_all add: advance_def)

lemma keep_claim:
  assumes "future p nxt"
  shows "keeps (moved p ids) (claim_scheduled_task k rnd now i sched nxt missed)"
proof -
  have "keeps (moved p ids) (exec (\<lambda>d. d\<lparr>sd_tasks := update_rows P (advance now sched nxt) (sd_tasks d)\<rparr>))" for P
    by (intro mv.keep_exec moved_advance assms)
  then show ?thesis
    unfolding claim_scheduled_task_def claim_body_def
    by (intro mv.keep_tx_body mv.keep_andthen mv.keep_query)
      (simp split: option.split, intro conjI impI allI mv.keep_ret mv.keep_andthen mv.keep_query mv.keep_need
        moved_if_same [OF same_insert_run])
qed

lemma claimed_run_fields [simp]:
  "rn_task (claimed_run rid now (with_targets t ts) sched missed) = tk_id t"
  "rn_for (claimed_run rid now (with_targets t ts) sched missed) = Some sched"
  by (simp_all add: claimed_run_def new_task_run_def with_targets_def task_row.extend_def)

text \<open>Whatever the outcomes, a claim leaves the tasks alone or advances the task it found due.\<close>

definition advanced :: "collation \<Rightarrow> string \<Rightarrow> int \<Rightarrow> int option \<Rightarrow> int \<Rightarrow> sched_db \<Rightarrow> sched_db \<Rightarrow> task_row \<Rightarrow> bool" where
  "advanced k i sched nxt now d d' u \<longleftrightarrow>
     u \<in> set (sd_tasks d) \<and> claimable k i sched u \<and>
     sd_tasks d' = update_rows (task_is k i) (advance now sched nxt) (sd_tasks d)"

lemma claim_body_tx: "claim_scheduled_task k rnd now i sched nxt missed = tx (claim_body k rnd now i sched nxt missed)"
  by (simp add: claim_scheduled_task_def)

lemma claim_body_yields:
  assumes "yields (claim_body k rnd now i sched nxt missed) d w r d' w'"
  shows "r = None \<and> d' = d \<or>
    (\<exists>u run. r = Some run \<and> advanced k i sched nxt now d d' u \<and> rn_task run = tk_id u \<and> rn_for run = Some sched)"
proof (cases "find (claimable k i sched) (sd_tasks d)")
  case None
  then show ?thesis using assms by (auto simp: claim_body_def act_simps dest!: query_yields)
next
  case (Some u)
  then have u: "u \<in> set (sd_tasks d)" "claimable k i sched u" by (auto simp: find_Some_iff)
  from assms Some obtain ts rid w3 w4 where
    ins: "yields (insert_task_run k (claimed_run rid now (with_targets u ts) sched missed))
        (d\<lparr>sd_tasks := update_rows (task_is k i) (advance now sched nxt) (sd_tasks d)\<rparr>) w3 () d' w4"
    and r: "r = Some (claimed_run rid now (with_targets u ts) sched missed)"
    unfolding claim_body_def
    by (auto simp: act_simps dest!: query_yields exec_yields)
  have "same_tasks (d\<lparr>sd_tasks := update_rows (task_is k i) (advance now sched nxt) (sd_tasks d)\<rparr>) d'"
    by (rule st.kept [OF same_insert_run ins])
  then show ?thesis using u r by (auto simp: same_tasks_def advanced_def)
qed

lemma claim_yields:
  assumes "yields (claim_scheduled_task k rnd now i sched nxt missed) d w (Some run) d' w'"
  obtains u where "advanced k i sched nxt now d d' u" and "rn_task run = tk_id u" and "rn_for run = Some sched"
proof -
  obtain w1 w2 where "yields (claim_body k rnd now i sched nxt missed) d w1 (Some run) d' w2"
    using tx_yields [OF assms [unfolded claim_body_tx]] by blast
  then show thesis using claim_body_yields that by blast
qed

lemma claim_effect:
  assumes "claim_scheduled_task k rnd now i sched nxt missed d w = (r, d', w')"
  shows "d' = d \<or> (\<exists>u. advanced k i sched nxt now d d' u)"
  using tx_atomic [OF assms [unfolded claim_body_tx]] claim_body_yields by blast

lemma process_yields:
  assumes "yields (process_task zones k p env t) d w (Some run) d' w'"
  obtains sched nxt w1 where "tk_next t = Some sched" and "due_decision zones p t sched = (nxt, False)"
    and "yields (claim_scheduled_task k (fst env) (snd env) (tk_id t) sched nxt False) d w (Some run) d' w1"
  using assms unfolding process_task_def
  by (auto simp: act_simps elim!: on_error_yields split: option.splits prod.splits if_splits)

lemma process_effect:
  assumes "process_task zones k p env t d w = (r, d', w')" and "tk_next t = Some sched"
    and "due_decision zones p t sched = (nxt, missed)"
  shows "d' = d \<or> (\<exists>u. advanced k (tk_id t) sched nxt (snd env) d d' u)"
proof -
  obtain r1 d1 w1 where c: "claim_scheduled_task k (fst env) (snd env) (tk_id t) sched nxt missed d w = (r1, d1, w1)"
    by (metis prod_cases3)
  have "d' = d1"
    using assms c by (cases r1) (auto simp: process_task_def on_error_def andthen_def ret_def)
  then show ?thesis using claim_effect [OF c] by blast
qed

lemma keep_sched_act:
  assumes "zones_steady zones"
    and "\<And>rnd input a. op = OpCreateTask rnd input a \<Longrightarrow> set_option rnd \<subseteq> ids"
  shows "keeps (moved now ids) (sched_act zones k manage now op)"
proof (cases op)
  case (OpCreateTask rnd input a)
  then show ?thesis using assms by (simp add: mv.keep_discard keep_create_task)
next
  case (OpUpdateTask i input)
  then show ?thesis using assms by (simp add: mv.keep_discard keep_update_task)
next
  case (OpDeleteTask i)
  then show ?thesis by (simp add: keep_delete)
qed (auto simp: run_now_def start_service_def cleanup_def mv.keep_ret
      intro!: moved_if_same st.keep_more same_run_statements same_manual)

section \<open>Every step keeps the invariant\<close>

lemma inv_moved:
  assumes inv: "sched_inv k s" and m: "moved now ids (sw_db s) d'" and t: "sw_clock s \<le> now"
    and fresh: "\<And>i r. i \<in> ids \<Longrightarrow> r \<in> set (sw_started s) \<Longrightarrow> \<not> aeq k i (rn_task r)"
  shows "sched_inv k (s\<lparr>sw_db := d', sw_clock := now\<rparr>)"
  using inv moved_next_ok [OF m] moved_past_claims [OF m] t fresh
  unfolding sched_inv_def by fastforce

lemma inv_clock: "sched_inv k s \<Longrightarrow> sw_clock s \<le> now \<Longrightarrow> sched_inv k (s\<lparr>sw_clock := now\<rparr>)"
  unfolding sched_inv_def by fastforce

lemma inv_listed:
  assumes inv: "sched_inv k s" and t: "sw_clock s \<le> now" "now < 2 ^ 62"
    and l: "yields (list_due_scheduled_tasks k now 100) (sw_db s) w ts d w'"
  shows "sched_inv k (s\<lparr>sw_db := d, sw_listed := sw_listed s @ map (Pair now) ts, sw_clock := now\<rparr>)"
proof -
  have d: "d = sw_db s" and sub: "set ts \<subseteq> {t \<in> set (sd_tasks (sw_db s)). task_due now t}"
    using l unfolding list_due_scheduled_tasks_def
    by (auto dest!: query_yields in_set_takeD)
  have "0 \<le> sw_clock s" and ok: "next_ok (sw_db s)" using inv by (simp_all add: sched_inv_def)
  then have "now < 2 ^ 62 \<and> 0 \<le> now \<and> (\<exists>n. tk_next u = Some n \<and> 0 \<le> n \<and> n \<le> now)"
    if "u \<in> set ts" for u
    using sub that t by (force simp: next_ok_def task_due_def split: option.splits)
  then show ?thesis
    using inv_clock [OF inv t(1)] unfolding sched_inv_def d by auto
qed

lemma started_before:
  assumes "past_claims k d r" and "t \<in> set (sd_tasks d)" and "tk_next t = Some f"
    and "aeq k (tk_id t) (rn_task r)"
  shows "rn_for r \<noteq> Some f"
  using assms by (auto simp: past_claims_def future_def)

lemma advanced_past_claims:
  assumes a: "advanced k i sched nxt now d d' u" and fut: "future p nxt" "sched \<le> p"
    and past: "past_claims k d r"
  shows "past_claims k d' r"
proof -
  obtain f where f: "rn_for r = Some f"
    and old: "\<And>v. v \<in> set (sd_tasks d) \<Longrightarrow> aeq k (tk_id v) (rn_task r) \<Longrightarrow> future f (tk_next v)"
    using past by (auto simp: past_claims_def)
  have "future f (tk_next v)" if v: "v \<in> set (sd_tasks d')" "aeq k (tk_id v) (rn_task r)" for v
  proof (cases "aeq k (tk_id v) i")
    case True
    then have "aeq k (tk_id u) (rn_task r)"
      using a v(2) by (simp add: advanced_def claimable_def task_is_def aeq_def)
    then have "f < sched" using a old by (fastforce simp: advanced_def claimable_def future_def)
    moreover have "tk_next v = nxt"
      using v(1) a True by (auto simp: advanced_def update_rows_def advance_def task_is_def)
    ultimately show ?thesis using fut future_mono by simp
  next
    case False
    then show ?thesis
      using v old a by (auto simp: advanced_def update_rows_def advance_def task_is_def split: if_splits)
  qed
  then show ?thesis by (auto simp: past_claims_def f)
qed

lemma advanced_moved:
  "advanced k i sched nxt now d d' u \<Longrightarrow> future p nxt \<Longrightarrow> moved p {} d d'"
  using moved_advance [of p nxt "{}" d "task_is k i" now sched] by (simp add: advanced_def moved_def)

lemma inv_advanced:
  assumes inv: "sched_inv k s" and clock: "sw_clock s \<le> now" and fut: "future p nxt" "sched \<le> p" "0 \<le> p"
    and d': "d' = sw_db s \<or> (\<exists>u. advanced k i sched nxt now (sw_db s) d' u)"
  shows "sched_inv k (s\<lparr>sw_db := d', sw_clock := now\<rparr>)"
proof (cases "d' = sw_db s")
  case True
  then show ?thesis using inv_clock [OF inv clock] by simp
next
  case False
  then obtain u where a: "advanced k i sched nxt now (sw_db s) d' u" using d' by blast
  have "next_ok d'"
    using moved_next_ok [OF advanced_moved [OF a fut(1)]] inv fut(3) by (simp add: sched_inv_def)
  then show ?thesis
    using inv_clock [OF inv clock] advanced_past_claims [OF a fut(1,2)] by (simp add: sched_inv_def)
qed

lemma listed_due:
  assumes "sched_inv k s" and "(p, t) \<in> set (sw_listed s)" and "zones_steady zones"
  obtains sched nxt missed where "tk_next t = Some sched" "0 \<le> p" "sched \<le> p"
    "due_decision zones p t sched = (nxt, missed)" "future p nxt"
proof -
  obtain sched where s: "tk_next t = Some sched" "0 \<le> sched" "sched \<le> p" "p < 2 ^ 62" "0 \<le> p"
    using assms(1,2) by (fastforce simp: sched_inv_def)
  obtain nxt missed where dec: "due_decision zones p t sched = (nxt, missed)" by fastforce
  have "future p nxt" by (rule decision_future [OF assms(3) dec]) (use s in simp_all)
  then show thesis using that s dec by blast
qed

lemma inv_claimed:
  assumes inv: "sched_inv k s" and clock: "sw_clock s \<le> now"
    and fut: "future p nxt" "sched \<le> p" "p \<le> sw_clock s" "0 \<le> p"
    and a: "advanced k i sched nxt now (sw_db s) d' u" and run: "rn_task run = tk_id u" "rn_for run = Some sched"
  shows "sched_inv k (s\<lparr>sw_db := d', sw_started := run # sw_started s, sw_clock := now\<rparr>)"
proof -
  have u: "u \<in> set (sd_tasks (sw_db s))" "tk_next u = Some sched" "aeq k (tk_id u) i"
    using a by (auto simp: advanced_def claimable_def task_is_def)
  have "past_claims k d' run"
    using u(3) run a future_mono [OF fut(1,2)]
    by (auto simp: past_claims_def advanced_def update_rows_def advance_def task_is_def aeq_def)
  moreover have "claim_key k run \<notin> claim_key k ` set (sw_started s)"
  proof
    assume "claim_key k run \<in> claim_key k ` set (sw_started s)"
    then obtain r where r: "r \<in> set (sw_started s)" "claim_key k run = claim_key k r" by auto
    then have "past_claims k (sw_db s) r" using inv by (simp add: sched_inv_def)
    then show False
      using started_before [OF _ u(1,2)] r(2) run by (auto simp: claim_key_def aeq_def)
  qed
  moreover have "sched_inv k (s\<lparr>sw_db := d', sw_clock := now\<rparr>)"
    using inv_advanced [OF inv clock fut(1,2,4)] a by blast
  moreover have "the (rn_for run) \<le> now" using run fut clock by simp
  ultimately show ?thesis unfolding sched_inv_def by simp
qed

lemma inv_due:
  assumes steady: "zones_steady zones" and inv: "sched_inv k s" and clock: "sw_clock s \<le> now"
    and listed: "(p, t) \<in> set (sw_listed s)"
  shows "sched_inv k (sched_step zones k manage s (now, OpDue p rnd t, w))"
proof -
  obtain r d' w' where l: "process_task zones k p (rnd, now) t (sw_db s) w = (r, d', w')" by (metis prod_cases3)
  obtain sched nxt missed where sched: "tk_next t = Some sched" "0 \<le> p" "sched \<le> p"
    "due_decision zones p t sched = (nxt, missed)" "future p nxt"
    by (rule listed_due [OF inv listed steady])
  have p: "p \<le> sw_clock s" using inv listed by (auto simp: sched_inv_def)
  show ?thesis
  proof (cases "\<exists>run. r = Inr (Some run)")
    case True
    then obtain run where r: "r = Inr (Some run)" by blast
    obtain w1 where "yields (claim_scheduled_task k rnd now (tk_id t) sched nxt False) (sw_db s) w (Some run) d' w1"
      using process_yields [OF l [unfolded r]] sched(1,4) by (metis fst_conv option.inject prod.inject snd_conv)
    then obtain u where "advanced k (tk_id t) sched nxt now (sw_db s) d' u" "rn_task run = tk_id u" "rn_for run = Some sched"
      by (rule claim_yields)
    then show ?thesis using inv_claimed [OF inv clock sched(5,3) p sched(2)] l r by simp
  next
    case False
    then have "sched_step zones k manage s (now, OpDue p rnd t, w) = s\<lparr>sw_db := d', sw_clock := now\<rparr>"
      using l by (auto split: sum.splits option.splits)
    then show ?thesis
      using inv_advanced [OF inv clock sched(5,3,2)] process_effect [OF l sched(1,4)] by simp
  qed
qed

lemma sched_step_inv:
  assumes steady: "zones_steady zones" and inv: "sched_inv k s" and perm: "sched_permitted k s x"
  shows "sched_inv k (sched_step zones k manage s x)"
proof -
  obtain now op w where x: "x = (now, op, w)" by (cases x)
  have t: "sw_clock s \<le> now" "now < 2 ^ 62" using perm by (simp_all add: sched_permitted_def x)
  have act: "sched_inv k (s\<lparr>sw_db := fst (snd (sched_act zones k manage now op (sw_db s) w)), sw_clock := now\<rparr>)"
  proof (rule inv_moved [OF inv _ t(1)])
    let ?ids = "case op of OpCreateTask rnd _ _ \<Rightarrow> set_option rnd | _ \<Rightarrow> {}"
    have "keeps (moved now ?ids) (sched_act zones k manage now op)"
      by (rule keep_sched_act [OF steady]) simp
    then show "moved now ?ids (sw_db s) (fst (snd (sched_act zones k manage now op (sw_db s) w)))"
      by (simp add: keeps_def)
    fix i r
    assume "i \<in> ?ids" "r \<in> set (sw_started s)"
    then show "\<not> aeq k i (rn_task r)"
      using perm by (auto simp: sched_permitted_def x list_ex_iff split: sched_op.splits option.splits)
  qed
  show ?thesis
  proof (cases op)
    case OpListDue
    obtain r d w' where l: "list_due_scheduled_tasks k now 100 (sw_db s) w = (r, d, w')" by (metis prod_cases3)
    have d: "d = sw_db s"
      using readonly.kept [OF readonly.keep_query l [unfolded list_due_scheduled_tasks_def]] .
    show ?thesis
    proof (cases r)
      case (Inl e)
      then show ?thesis using l d inv_clock [OF inv t(1)] by (simp add: x OpListDue)
    next
      case (Inr ts)
      then show ?thesis using l inv_listed [OF inv t l [unfolded Inr]] by (simp add: x OpListDue)
    qed
  next
    case (OpDue p rnd u)
    then show ?thesis
      using inv_due [OF steady inv t(1)] perm by (simp add: x sched_permitted_def)
  qed (use act in \<open>simp_all add: x\<close>)
qed

end
