(* ===== verification/Schedule_Props.thy ===== *)
theory Schedule_Props
  imports Schedule_Laws
begin


section \<open>A due time is started once\<close>


text \<open>Sample data: a zone eight hours ahead, and a restart every day at 04:30.\<close>

definition ascii_folding :: collation where
  "ascii_folding = \<lparr>k_ascii = to_lower, k_text = to_lower, k_like = (\<lambda>_ _. False)\<rparr>"

definition eight_east :: "string \<Rightarrow> zone option" where
  "eight_east name = (if name = default_timezone then Some (fixed_zone 28800) else None)"

definition sample_node :: node_row where
  "sample_node = \<lparr>nd_id = ''n1'', nd_daemon = [], nd_name = ''node'', nd_base = ''http://n'',
     nd_public = [], nd_token = [], nd_enabled = True, nd_version = [], nd_protocol = [],
     nd_caps = [], nd_connected = None, nd_error = [], nd_created = 0, nd_updated = 0\<rparr>"


definition empty_sched :: sched_db where
  "empty_sched = \<lparr>sd_nodes = [sample_node], sd_tasks = [], sd_targets = [], sd_runs = [], sd_run_targets = []\<rparr>"


text \<open>04:30 in the sample zone is 20:30 UTC. Two passes read the task, both try to claim it.\<close>

definition sample_due :: int where
  "sample_due = 73800 * second_ns"

definition sample_task :: task_row where
  "sample_task = \<lparr>tk_id = ''t'', tk_name = ''nightly'', tk_enabled = True, tk_kind = ''daily'',
     tk_config = Parsed (JObj [(''time'', JStr ''04:30'')]), tk_tz = default_timezone,
     tk_action = ''restart'', tk_payload = [], tk_next = Some sample_due, tk_last = None,
     tk_by = ''u'', tk_by_name = ''root'', tk_by_display = ''Root'', tk_created = 5, tk_updated = 5\<rparr>"



section \<open>The next run\<close>

lemma interval_grid:
  assumes "parse_config ''interval'' raw = Inr c"
  defines "i \<equiv> sc_secs c * second_ns"
  shows "now < sched + ((now - sched) div i + 1) * i" and "sched + ((now - sched) div i + 1) * i - i \<le> now"
proof -
  have i: "0 < i"
    using parse_config_normal [OF assms(1)]
    by (simp add: i_def config_normal_def minimum_interval_def second_ns_def)
  have split: "now - sched = (now - sched) div i * i + (now - sched) mod i" by simp
  have "0 \<le> (now - sched) mod i" "(now - sched) mod i < i" using i by simp_all
  with split show "now < sched + ((now - sched) div i + 1) * i" "sched + ((now - sched) div i + 1) * i - i \<le> now"
    unfolding distrib_right mult_1 by linarith+
qed

text \<open>C17: In a zone that keeps its offset, the next run of a daily or weekly rule is the first
  instant after the clock with the wanted local time (and day of the week); that of an interval is
  the first point of the grid through the last due time after the clock.\<close>

theorem next_run_spec:
  assumes p: "parse_config kind raw = Inr c" and n: "normalize_timezone zones tz = Inr (name, z)"
    and z: "steady z off" and t: "next_after zones kind raw tz sched now = Inr (Some t)"
    and past: "sched \<le> now" "now - sched < 2 ^ 62"
  shows "now < t \<and>
    (kind = ''daily'' \<longrightarrow> due_clock z (clock_seconds (sc_time c)) t \<and>
       (\<forall>u. now < u \<and> due_clock z (clock_seconds (sc_time c)) u \<longrightarrow> t \<le> u)) \<and>
    (kind = ''weekly'' \<longrightarrow> due_weekly z (clock_seconds (sc_time c)) (sc_days c) t \<and>
       (\<forall>u. now < u \<and> due_weekly z (clock_seconds (sc_time c)) (sc_days c) u \<longrightarrow> t \<le> u)) \<and>
    (kind = ''interval'' \<longrightarrow> (\<exists>m. t = sched + m * (sc_secs c * second_ns)) \<and>
       t - sc_secs c * second_ns \<le> now)"
proof -
  have sz: "steady_zone z off" by unfold_locales (rule z)
  note daily = steady_zone.next_daily_least [OF sz, where c = c and now = now]
  note weekly = steady_zone.next_weekly_least [OF sz weekly_days, where c = c and now = now]
  have D: "t = next_daily c z now" if "kind = ''daily''" using t p n that by (simp add: next_after_def)
  have W: "t = next_weekly c z now" if "kind = ''weekly''" using t p n that by (simp add: next_after_def)
  have I: "now < t \<and> (\<exists>m. t = sched + m * (sc_secs c * second_ns)) \<and> t - sc_secs c * second_ns \<le> now"
    if k: "kind = ''interval''"
    using interval_grid [OF p [unfolded k]] next_after_interval [OF p [unfolded k] n past] t k by auto
  have "kind \<noteq> ''once''" using t p n by (auto simp: next_after_def)
  then consider "kind = ''daily''" | "kind = ''weekly''" | "kind = ''interval''"
    using config_kind [OF parse_config_normal [OF p]] by blast
  then show ?thesis
  proof cases
    case 1
    then show ?thesis using D daily by simp
  next
    case 2
    then show ?thesis using W weekly [of raw] p by simp
  qed (use I in simp)
qed

text \<open>Mondays and Thursdays at 7:05, eight hours ahead of UTC, from Sunday 4 January 1970, 23:05:01 UTC.\<close>

definition weekly_rule :: json_body where
  "weekly_rule = Parsed (JObj [(''Time'', JStr '' 7:05''), (''weekdays'', JArr [JNum ''4'', JNum ''1'', JNum ''4''])])"

definition weekly_config :: sched_config where
  "weekly_config = \<lparr>sc_run_at = [], sc_time = '' 7:05'', sc_days = [1, 4], sc_secs = 0\<rparr>"

lemma weekly_sample:
  "parse_config ''weekly'' weekly_rule = Inr weekly_config"
  "normalize_timezone eight_east [] = Inr (default_timezone, fixed_zone 28800)"
  "next_after eight_east ''weekly'' weekly_rule [] (342300 * second_ns) (342301 * second_ns)
     = Inr (Some (601500 * second_ns))"
  by (simp add: normalize_timezone_def eight_east_def | code_simp)+

theorem next_run_spec_witness:
  "342301 * second_ns < 601500 * second_ns \<and>
   due_weekly (fixed_zone 28800) (clock_seconds '' 7:05'') [1, 4] (601500 * second_ns)"
  using next_run_spec [OF weekly_sample(1,2) steady_fixed weekly_sample(3)]
  by (simp add: weekly_config_def second_ns_def)

section \<open>A zone that changes its offset at midnight\<close>




definition gap_due :: int where
  "gap_due = 1757215800 * second_ns"





section \<open>The verdict on a run\<close>

text \<open>
  A target whose \<open>StartTaskRunTarget\<close> fails is left queued and not executed, but
  \<open>FinishTaskRun\<close> only counts failures and successes. The run counts as completed, and as it is no
  longer running, a restart does not fail it either.
\<close>

definition one_run :: task_run where
  "one_run = claimed_run ''r1'' gap_due (with_targets sample_task
     [\<lparr>tt_node = ''n1'', tt_node_name = ''node'', tt_server = ''s'', tt_inst = ''i'', tt_inst_name = ''i''\<rparr>])
     gap_due False"

definition one_run_db :: sched_db where
  "one_run_db = empty_sched\<lparr>sd_runs := [run_row.truncate one_run],
     sd_run_targets := map (Pair ''r1'') (rn_targets one_run)\<rparr>"

definition verdict :: "sched_db \<Rightarrow> (string \<times> int \<times> int \<times> int) list \<times> string list" where
  "verdict d = (map (\<lambda>r. (rn_status r, rn_total r, rn_success r, rn_failed r)) (sd_runs d),
                map (rt_status \<circ> snd) (sd_run_targets d))"

text \<open>If the statement that starts a target fails, the target is never executed, stays queued
  for good, and the run is recorded as completed, also after a restart.\<close>

theorem unstarted_target_completes:
  "(case execute ascii_folding True one_run (\<lambda>_. Some (OtherError ''down'')) 1 2 3 4 one_run_db [Done, Failed] of
      (_, d, w) \<Rightarrow> (verdict d, verdict (fst (snd (start_service ascii_folding 9 d w)))))
   = (([(''completed'', 1, 0, 0)], [''queued'']), ([(''completed'', 1, 0, 0)], [''queued'']))"
  by code_simp

text \<open>What \<open>execute\<close> does when its statements work: the count and the status follow the answers.\<close>

lemma final_status_completed: "0 \<le> f \<Longrightarrow> final_status n f = ''completed'' \<longleftrightarrow> f = 0"
  by (simp add: final_status_def)

lemma finish_yields:
  assumes "yields (finish_task_run k now i) d w x d' w'"
  shows "\<exists>ts. ts = run_targets k i d \<and> sd_runs d' = update_rows (run_is k i)
     (\<lambda>r. r\<lparr>rn_status := final_status (count_status k ''completed'' ts) (count_status k ''failed'' ts),
        rn_finished := Some now, rn_total := int (length ts), rn_success := count_status k ''completed'' ts,
        rn_failed := count_status k ''failed'' ts\<rparr>) (sd_runs d) \<and> sd_run_targets d' = sd_run_targets d"
  using assms unfolding finish_task_run_def Let_def
  by (auto simp: act_simps dest!: query_yields exec_yields)

section \<open>After a restart\<close>

text \<open>A successful recovery at start-up leaves no run queued or running, no target of a run that
  was, and in the runs it failed the counters agree with the targets; finished runs are untouched.\<close>

theorem restart_settles:
  assumes "yields (fail_incomplete_task_runs k now code msg) d w x d' w'"
    and statuses: "\<not> incomplete k ''failed''"
  shows "(\<forall>r \<in> set (sd_runs d'). \<not> incomplete k (rn_status r)) \<and>
    (\<forall>(i, t) \<in> set (sd_run_targets d').
       list_ex (\<lambda>r. run_is k i r \<and> incomplete k (rn_status r)) (sd_runs d) \<longrightarrow> \<not> incomplete k (rt_status t)) \<and>
    (\<forall>r \<in> set (sd_runs d). incomplete k (rn_status r) \<longrightarrow>
       (\<exists>r' \<in> set (sd_runs d'). rn_id r' = rn_id r \<and> rn_status r' = ''failed'' \<and>
          rn_success r' = count_status k ''completed'' (run_targets k (rn_id r) d') \<and>
          rn_failed r' = count_status k ''failed'' (run_targets k (rn_id r) d'))) \<and>
    (\<forall>r \<in> set (sd_runs d). \<not> incomplete k (rn_status r) \<longrightarrow> r \<in> set (sd_runs d'))"
proof -
  let ?bad = "\<lambda>(j, t). incomplete k (rt_status t) \<and>
    list_ex (\<lambda>r. run_is k j r \<and> incomplete k (rn_status r)) (sd_runs d)"
  let ?fail = "apsnd (\<lambda>t. t\<lparr>rt_status := ''failed'', rt_finished := Some now, rt_code := code, rt_message := msg\<rparr>)"
  let ?done = "\<lambda>r. r\<lparr>rn_status := ''failed'', rn_finished := Some now,
    rn_success := count_status k ''completed'' (run_targets k (rn_id r) d'),
    rn_failed := count_status k ''failed'' (run_targets k (rn_id r) d')\<rparr>"
  have ts: "sd_run_targets d' = update_rows ?bad ?fail (sd_run_targets d)"
    and rs: "sd_runs d' = update_rows (\<lambda>r. incomplete k (rn_status r)) ?done (sd_runs d)"
    using assms(1) unfolding fail_incomplete_task_runs_def
    by (auto simp: act_simps run_targets_def dest!: tx_yields exec_yields)
  have "\<forall>r \<in> set (sd_runs d'). \<not> incomplete k (rn_status r)"
    using statuses by (auto simp: rs update_rows_def)
  moreover have "\<forall>(i, t) \<in> set (sd_run_targets d').
       list_ex (\<lambda>r. run_is k i r \<and> incomplete k (rn_status r)) (sd_runs d) \<longrightarrow> \<not> incomplete k (rt_status t)"
    using statuses by (auto simp: ts update_rows_def split: if_splits)
  moreover have "?done r \<in> set (sd_runs d')" if "r \<in> set (sd_runs d)" "incomplete k (rn_status r)" for r
    using that unfolding rs update_rows_def by (force simp: image_iff)
  then have "\<forall>r \<in> set (sd_runs d). incomplete k (rn_status r) \<longrightarrow>
       (\<exists>r' \<in> set (sd_runs d'). rn_id r' = rn_id r \<and> rn_status r' = ''failed'' \<and>
          rn_success r' = count_status k ''completed'' (run_targets k (rn_id r) d') \<and>
          rn_failed r' = count_status k ''failed'' (run_targets k (rn_id r) d'))"
    by (intro ballI impI) (rule bexI [where x = "?done r" for r], simp_all)
  moreover have "\<forall>r \<in> set (sd_runs d). \<not> incomplete k (rn_status r) \<longrightarrow> r \<in> set (sd_runs d')"
    by (force simp: rs update_rows_def image_iff)
  ultimately show ?thesis by blast
qed

theorem restart_settles_witness:
  "list_all (\<lambda>r. \<not> incomplete ascii_folding (rn_status r)) (sd_runs (fst (snd (start_service ascii_folding 9 one_run_db [])))) \<and>
   verdict (fst (snd (start_service ascii_folding 9 one_run_db []))) = ([(''failed'', 1, 0, 1)], [''failed''])"
proof
  obtain d' w' where y: "yields (fail_incomplete_task_runs ascii_folding 9 ''PANEL_RESTARTED'' restarted_message)
      one_run_db [] () d' w'"
    by (simp add: fail_incomplete_task_runs_def tx_def stmt_def andthen_def exec_def)
  have "\<not> incomplete ascii_folding ''failed''" by code_simp
  then have "\<forall>r \<in> set (sd_runs d'). \<not> incomplete ascii_folding (rn_status r)"
    using restart_settles [OF y] by blast
  then show "list_all (\<lambda>r. \<not> incomplete ascii_folding (rn_status r)) (sd_runs (fst (snd (start_service ascii_folding 9 one_run_db []))))"
    using y by (simp add: start_service_def on_error_def list_all_iff)
qed code_simp

section \<open>Paging through the runs\<close>

text \<open>
  A client that follows the cursor: it asks for the next page with the creation time and the
  identifier of the last item, as \<open>handleTaskRuns\<close> hands them out. \<open>pages\<close> is what it collects.
\<close>

definition page_of :: "collation \<Rightarrow> run_filter \<Rightarrow> sched_db \<Rightarrow> run_row list" where
  "page_of k f d = rev (sort_key (run_order k) (filter (run_matches k f) (sd_runs d)))"

definition after_item :: "run_filter \<Rightarrow> run_row \<Rightarrow> run_filter" where
  "after_item f r = f\<lparr>rf_cursor := Some (rn_created r), rf_cursor_id := rn_id r\<rparr>"

fun pages :: "nat \<Rightarrow> collation \<Rightarrow> run_filter \<Rightarrow> sched_db \<Rightarrow> run_row list" where
  "pages 0 k f d = []"
| "pages (Suc n) k f d =
     (case list_task_runs k f d [] of
        (Inr (items, has_more), _, _) \<Rightarrow> items @ (if has_more then pages n k (after_item f (last items)) d else [])
      | _ \<Rightarrow> [])"

lemma list_task_runs_page:
  "list_task_runs k f d [] = (Inr (take (run_limit f) (page_of k f d), run_limit f < length (page_of k f d)), d, [])"
  by (simp add: list_task_runs_def page_of_def query_def stmt_def andthen_def ret_def min_def)

lemma run_limit_pos: "0 < run_limit f"
  by (simp add: run_limit_def Let_def)

lemma matches_after:
  assumes "run_matches k f last_item" and "rn_id last_item \<noteq> []"
  shows "run_matches k (after_item f last_item) r \<longleftrightarrow>
    run_matches k f r \<and> run_order k r < run_order k last_item"
  using assms
  by (auto simp: run_matches_def after_item_def run_order_def less_prod_def' split: option.splits)

lemma distinct_sorted_split:
  assumes "sorted (map g (xs @ [x] @ ys))" and "distinct (map g (xs @ [x] @ ys))"
  shows "filter (\<lambda>r. g r < g x) (xs @ [x] @ ys) = xs"
proof -
  have "g r \<noteq> g x" if "r \<in> set xs \<or> r \<in> set ys" for r
    using assms(2) that imageI [of r _ g] by (auto simp del: image_eqI)
  moreover have "\<forall>r \<in> set xs. g r \<le> g x" and "\<forall>r \<in> set ys. g x \<le> g r"
    using assms(1) by (auto simp: sorted_append)
  ultimately have "\<forall>r \<in> set xs. g r < g x" and "\<forall>r \<in> set ys. g x < g r"
    by (metis order.not_eq_order_implies_strict)+
  then have "filter (\<lambda>r. g r < g x) xs = xs" "filter (\<lambda>r. g r < g x) ys = []"
    by (auto simp: filter_id_conv filter_empty_conv)
  then show ?thesis by simp
qed

lemma page_rest:
  fixes k :: collation
  assumes "distinct (map (run_order k) (sd_runs d))" and "\<And>r. r \<in> set (sd_runs d) \<Longrightarrow> rn_id r \<noteq> []"
    and "n < length (page_of k f d)" and "0 < n"
  shows "page_of k (after_item f (last (take n (page_of k f d)))) d = drop n (page_of k f d)"
proof -
  define ms where "ms = sort_key (run_order k) (filter (run_matches k f) (sd_runs d))"
  define x where "x = page_of k f d ! (n - 1)"
  have p: "page_of k f d = rev ms" by (simp add: page_of_def ms_def)
  have len: "n < length ms" using assms(3) by (simp add: p)
  have x: "last (take n (page_of k f d)) = x"
    using assms(3,4) by (subst last_conv_nth) (auto simp: x_def min_def)
  define i where "i = length ms - n"
  have xi: "x = ms ! i" using len assms(4) by (simp add: x_def p rev_nth i_def)
  have i: "i < length ms" using len assms(4) by (simp add: i_def)
  have split: "ms = take i ms @ [x] @ drop (Suc i) ms"
    using i by (simp add: xi id_take_nth_drop [symmetric])
  have inx: "x \<in> set ms" using i xi by simp
  have sorted: "sorted (map (run_order k) ms)" by (simp add: ms_def)
  have dist: "distinct (map (run_order k) ms)"
    using assms(1) unfolding ms_def distinct_map by (auto intro: inj_on_subset distinct_filter)
  have xm: "run_matches k f x" "rn_id x \<noteq> []" using inx assms(2) by (auto simp: ms_def)
  have "filter (run_matches k (after_item f x)) (sd_runs d) =
      filter (\<lambda>r. run_order k r < run_order k x) (filter (run_matches k f) (sd_runs d))"
    using matches_after [OF xm] by (auto intro: filter_cong)
  then have "page_of k (after_item f x) d = rev (filter (\<lambda>r. run_order k r < run_order k x) ms)"
    by (simp add: page_of_def ms_def filter_sort)
  also have "filter (\<lambda>r. run_order k r < run_order k x) ms = take i ms"
    using distinct_sorted_split [of "run_order k" "take i ms" x "drop (Suc i) ms"] sorted dist split by metis
  also have "rev (take i ms) = drop n (page_of k f d)"
    using len by (simp add: p i_def rev_take)
  finally show ?thesis by (simp add: x)
qed

lemma pages_complete:
  assumes "distinct (map (run_order k) (sd_runs d))" and "\<And>r. r \<in> set (sd_runs d) \<Longrightarrow> rn_id r \<noteq> []"
    and "length (page_of k f d) < n"
  shows "pages n k f d = page_of k f d"
  using assms(3)
proof (induction n arbitrary: f)
  case (Suc n)
  show ?case
  proof (cases "run_limit f < length (page_of k f d)")
    case True
    let ?g = "after_item f (last (take (run_limit f) (page_of k f d)))"
    have rest: "page_of k ?g d = drop (run_limit f) (page_of k f d)"
      by (rule page_rest [OF assms(1,2) True run_limit_pos])
    then have "pages n k ?g d = page_of k ?g d" using Suc.prems True run_limit_pos [of f] by (intro Suc.IH) simp
    then show ?thesis using True by (simp add: list_task_runs_page rest)
  qed (simp add: list_task_runs_page)
qed simp

lemma sorted_wrt_strict:
  fixes g :: "'a \<Rightarrow> 'b :: linorder"
  assumes "sorted_wrt (\<lambda>r r'. g r' \<le> g r) xs" and "distinct (map g xs)"
  shows "sorted_wrt (\<lambda>r r'. g r' < g r) xs"
  using assms
proof (induction xs)
  case (Cons x xs)
  then have "g r < g x" if "r \<in> set xs" for r
    using that imageI [OF that, of g] by (metis distinct.simps(2) list.set_map list.simps(9)
        order.not_eq_order_implies_strict sorted_wrt.simps(2))
  with Cons show ?case by simp
qed simp

text \<open>Following the cursor from page to page collects exactly the runs that match the filter,
  newest first and each once, as long as no run is added or removed meanwhile.\<close>

theorem paging_complete:
  assumes "distinct (map (run_order k) (sd_runs d))" and "\<forall>r \<in> set (sd_runs d). rn_id r \<noteq> []"
    and "rf_cursor f = None" and "length (sd_runs d) < n"
  shows "set (pages n k f d) = set (filter (run_matches k f) (sd_runs d)) \<and>
    sorted_wrt (\<lambda>r r'. run_order k r' < run_order k r) (pages n k f d)"
proof -
  have "length (page_of k f d) < n"
    using le_less_trans [OF length_filter_le assms(4)] by (simp add: page_of_def)
  then have p: "pages n k f d = page_of k f d" using assms(1,2) by (intro pages_complete) auto
  have "distinct (map (run_order k) (page_of k f d))"
    using assms(1) unfolding page_of_def distinct_map by (auto intro: inj_on_subset)
  moreover have "sorted_wrt (\<lambda>r r'. run_order k r' \<le> run_order k r) (page_of k f d)"
    using sorted_sort_key [of "run_order k"] unfolding page_of_def sorted_wrt_rev sorted_map by blast
  ultimately have "sorted_wrt (\<lambda>r r'. run_order k r' < run_order k r) (page_of k f d)"
    by (rule sorted_wrt_strict [rotated])
  then show ?thesis by (simp add: p page_of_def)
qed

text \<open>Three runs in pages of two.\<close>

definition sample_run :: "string \<Rightarrow> int \<Rightarrow> run_row" where
  "sample_run i at = (run_row.truncate one_run)\<lparr>rn_id := i, rn_created := at\<rparr>"

definition sample_runs_db :: sched_db where
  "sample_runs_db = empty_sched\<lparr>sd_runs := [sample_run ''a'' 1, sample_run ''c'' 2, sample_run ''b'' 2]\<rparr>"

definition two_per_page :: run_filter where
  "two_per_page = \<lparr>rf_task = [], rf_status = [], rf_from = None, rf_to = None, rf_cursor = None,
     rf_cursor_id = [], rf_limit = 2\<rparr>"

theorem paging_complete_witness:
  "set (pages 4 ascii_folding two_per_page sample_runs_db)
     = set (filter (run_matches ascii_folding two_per_page) (sd_runs sample_runs_db)) \<and>
   map rn_id (pages 4 ascii_folding two_per_page sample_runs_db) = [''c'', ''b'', ''a'']"
proof
  have "distinct (map (run_order ascii_folding) (sd_runs sample_runs_db))" by code_simp
  moreover have "\<forall>r \<in> set (sd_runs sample_runs_db). rn_id r \<noteq> []" by code_simp
  moreover have "rf_cursor two_per_page = None" by code_simp
  moreover have "length (sd_runs sample_runs_db) < 4" by code_simp
  ultimately show "set (pages 4 ascii_folding two_per_page sample_runs_db)
     = set (filter (run_matches ascii_folding two_per_page) (sd_runs sample_runs_db))"
    using paging_complete by blast
qed code_simp

end
