(* ===== verification/Operators.thy ===== *)
theory Operators
  imports GoStrings "HOL-Library.Word" "HOL-Library.List_Lexorder" "HOL-Library.Char_ord"
begin

text \<open>
  daemon/internal/supervisor/operators.go: the registry of Minecraft operators. Every panel that
  manages the node is a source with a revision and a list of operators; the registry merges the
  sources into one catalog with a revision of its own and pushes it to the plugins of the managed
  game servers. Revisions are 64-bit words.
\<close>

section \<open>Data\<close>

record op_entry =
  oe_uuid :: string
  oe_name :: string

record op_source =
  os_panel :: string
  os_rev :: "64 word"
  os_ops :: "op_entry list"

record op_registry =
  og_rev :: "64 word"
  og_sources :: "op_source list"

record op_catalog =
  oc_rev :: "64 word"
  oc_active :: bool
  oc_ops :: "op_entry list"

section \<open>Normal forms\<close>

text \<open>\<open>hex.DecodeString\<close> succeeds: an even number of hexadecimal digits.\<close>

definition hex_digit :: "char \<Rightarrow> bool" where
  "hex_digit c \<longleftrightarrow> is_digit c \<or> (97 \<le> byte c \<and> byte c \<le> 102) \<or> (65 \<le> byte c \<and> byte c \<le> 70)"

definition hex_text :: "string \<Rightarrow> bool" where
  "hex_text s \<longleftrightarrow> even (length s) \<and> list_all hex_digit s"

definition valid_panel_id :: "string \<Rightarrow> bool" where
  "valid_panel_id s \<longleftrightarrow> length s = 32 \<and> hex_text s"

text \<open>\<open>strings.ReplaceAll(s, "-", "")\<close>.\<close>

definition drop_dashes :: "string \<Rightarrow> string" where
  "drop_dashes s = filter (\<lambda>c. c \<noteq> CHR ''-'') s"

definition dashed :: "string \<Rightarrow> string" where
  "dashed s = take 8 s @ ''-'' @ take 4 (drop 8 s) @ ''-'' @ take 4 (drop 12 s) @ ''-'' @
     take 4 (drop 16 s) @ ''-'' @ drop 20 s"

definition normalize_uuid :: "string \<Rightarrow> string option" where
  "normalize_uuid v =
     (let compact = drop_dashes (to_lower (trim_space v))
      in if length compact \<noteq> 32 \<or> \<not> hex_text compact then None else Some (dashed compact))"

text \<open>The operators of a source, in the order the code checks them.\<close>

fun normal_entries :: "string list \<Rightarrow> op_entry list \<Rightarrow> op_entry list result" where
  "normal_entries seen [] = Inr []"
| "normal_entries seen (e # es) =
     (case normalize_uuid (oe_uuid e) of
        None \<Rightarrow> Err ''INVALID_REQUEST''
      | Some u \<Rightarrow>
          if u \<in> set seen then Err ''INVALID_REQUEST''
          else if 64 < rune_count (trim_space (oe_name e)) then Err ''INVALID_REQUEST''
          else (case normal_entries (u # seen) es of
                  Inl x \<Rightarrow> Inl x
                | Inr rest \<Rightarrow> Inr (\<lparr>oe_uuid = u, oe_name = trim_space (oe_name e)\<rparr> # rest)))"

definition normalize_source :: "op_source \<Rightarrow> op_source result" where
  "normalize_source s =
     (let panel = to_lower (trim_space (os_panel s))
      in if \<not> valid_panel_id panel then Err ''INVALID_REQUEST''
         else if 10000 < length (os_ops s) then Err ''INVALID_REQUEST''
         else (case normal_entries [] (os_ops s) of
                 Inl x \<Rightarrow> Inl x
               | Inr es \<Rightarrow> Inr \<lparr>os_panel = panel, os_rev = os_rev s, os_ops = sort_key oe_uuid es\<rparr>))"

definition sort_sources :: "op_source list \<Rightarrow> op_source list" where
  "sort_sources = sort_key os_panel"

fun normal_sources :: "string list \<Rightarrow> op_source list \<Rightarrow> op_source list result" where
  "normal_sources seen [] = Inr []"
| "normal_sources seen (s # ss) =
     (case normalize_source s of
        Inl x \<Rightarrow> Inl x
      | Inr n \<Rightarrow>
          if os_panel n \<in> set seen then Err ''DUPLICATE_SOURCE''
          else (case normal_sources (os_panel n # seen) ss of
                  Inl x \<Rightarrow> Inl x
                | Inr rest \<Rightarrow> Inr (n # rest)))"

definition normalize_state :: "op_registry \<Rightarrow> op_registry result" where
  "normalize_state g =
     (case normal_sources [] (og_sources g) of
        Inl x \<Rightarrow> Inl x
      | Inr ss \<Rightarrow> Inr \<lparr>og_rev = og_rev g, og_sources = sort_sources ss\<rparr>)"

definition source_of :: "op_source list \<Rightarrow> string \<Rightarrow> op_source option" where
  "source_of ss p = find (\<lambda>s. os_panel s = p) ss"

text \<open>The merged catalog: the first entry of a UUID wins, unless its name is empty and another's is not.\<close>

definition merge_entry :: "op_entry \<Rightarrow> (string, op_entry) gomap \<Rightarrow> (string, op_entry) gomap" where
  "merge_entry e m =
     (case aget m (oe_uuid e) of
        None \<Rightarrow> aput (oe_uuid e) e m
      | Some c \<Rightarrow> if oe_name c = [] \<and> oe_name e \<noteq> [] then aput (oe_uuid e) e m else m)"

definition merged :: "op_source list \<Rightarrow> (string, op_entry) gomap" where
  "merged ss = fold merge_entry (concat (map os_ops ss)) []"

definition catalog_of :: "op_registry \<Rightarrow> op_catalog" where
  "catalog_of g = \<lparr>oc_rev = og_rev g, oc_active = (og_sources g \<noteq> []),
     oc_ops = sort_key oe_uuid (map snd (merged (og_sources g)))\<rparr>"

section \<open>Changing the registry\<close>

text \<open>
  The file is replaced atomically; a write that reports an error may have replaced it or not. The
  two operations run under the mutex of the registry.
\<close>

datatype save_outcome = Saved | NotSaved | SavedWithError

record op_memory =
  om_reg :: op_registry
  om_disk :: op_registry

definition persist :: "save_outcome \<Rightarrow> op_registry \<Rightarrow> op_memory \<Rightarrow> bool \<times> op_memory" where
  "persist sv g m = (sv = Saved, if sv = NotSaved then m else m\<lparr>om_disk := g\<rparr>)"

datatype change = Unchanged | Changed op_catalog

fun put_source :: "op_source \<Rightarrow> op_source list \<Rightarrow> op_source list" where
  "put_source n [] = [n]"
| "put_source n (s # ss) = (if os_panel s = os_panel n then n # ss else s # put_source n ss)"

fun drop_source :: "string \<Rightarrow> op_source list \<Rightarrow> op_source list" where
  "drop_source p [] = []"
| "drop_source p (s # ss) = (if os_panel s = p then ss else s # drop_source p ss)"

definition commit :: "save_outcome \<Rightarrow> op_source list \<Rightarrow> op_memory \<Rightarrow> change result \<times> op_memory" where
  "commit sv ss m =
     (let g = \<lparr>og_rev = og_rev (om_reg m) + 1, og_sources = ss\<rparr>
      in case persist sv g m of
           (True, m') \<Rightarrow> (Inr (Changed (catalog_of g)), m'\<lparr>om_reg := g\<rparr>)
         | (False, m') \<Rightarrow> (Err ''CONFIG_WRITE_FAILED'', m'))"

definition replace_source :: "save_outcome \<Rightarrow> op_source \<Rightarrow> op_memory \<Rightarrow> change result \<times> op_memory" where
  "replace_source sv s m =
     (case normalize_source s of
        Inl x \<Rightarrow> (Inl x, m)
      | Inr n \<Rightarrow>
          (let ss = og_sources (om_reg m)
           in case source_of ss (os_panel n) of
                None \<Rightarrow> commit sv (sort_sources (put_source n ss)) m
              | Some c \<Rightarrow>
                  if os_rev n < os_rev c then (Err ''STALE_REVISION'', m)
                  else if os_rev n = os_rev c then
                    (if c = n then (Inr Unchanged, m) else (Err ''REVISION_CONFLICT'', m))
                  else commit sv (sort_sources (put_source n ss)) m))"

definition remove_source :: "save_outcome \<Rightarrow> string \<Rightarrow> op_memory \<Rightarrow> change result \<times> op_memory" where
  "remove_source sv p m =
     (let panel = to_lower (trim_space p); ss = og_sources (om_reg m)
      in if \<not> valid_panel_id panel then (Err ''INVALID_REQUEST'', m)
         else if source_of ss panel = None then (Inr Unchanged, m)
         else commit sv (drop_source panel ss) m)"

text \<open>\<open>ConfigureOperators\<close> with what the file held at the start.\<close>

definition configure_operators :: "op_registry \<Rightarrow> op_memory result" where
  "configure_operators g =
     (case normalize_state g of Inl x \<Rightarrow> Inl x | Inr n \<Rightarrow> Inr \<lparr>om_reg = n, om_disk = g\<rparr>)"

end
