(* ===== verification/PanelOperators.thy ===== *)
theory PanelOperators
  imports PanelApi Operators
begin

text \<open>
  The panel's side of the operators: panel/internal/store/operators.go (the table of operators and
  the single row with the panel's identifier, the revision and the activation) and
  panel/internal/api/operator_handlers.go. \<open>OperatorState\<close> is two statements outside a transaction;
  each is an action of its own here, so that other requests can come between them.
\<close>

section \<open>The store\<close>

record operator_row =
  or_uuid :: string
  or_name :: string
  or_by :: string
  or_by_name :: string
  or_created :: int
  or_updated :: int

record oper_db =
  od_panel :: string
  od_rev :: "64 word"
  od_init :: bool
  od_updated :: int
  od_ops :: "operator_row list"

record oper_state =
  ps_panel :: string
  ps_rev :: "64 word"
  ps_init :: bool
  ps_updated :: int
  ps_ops :: "operator_row list"

type_synonym 'a oact = "(oper_db, 'a) dact"

definition normalize_minecraft_uuid :: "string \<Rightarrow> string option" where
  "normalize_minecraft_uuid v =
     (let c = drop_dashes (to_lower (trim_space v))
      in if length c \<noteq> 32 then None
         else if \<not> hex_text c then None
         else Some (join_with ''-'' [take 8 c, take 4 (drop 8 c), take 4 (drop 12 c), take 4 (drop 16 c), drop 20 c]))"

definition read_state :: "oper_state oact" where
  "read_state = query (\<lambda>d. \<lparr>ps_panel = od_panel d, ps_rev = od_rev d, ps_init = od_init d,
     ps_updated = od_updated d, ps_ops = []\<rparr>)"

definition read_operators :: "collation \<Rightarrow> oper_state \<Rightarrow> oper_state oact" where
  "read_operators k s = andthen (query (\<lambda>d. sort_key (\<lambda>r. (k_text k (or_name r), k_ascii k (or_uuid r))) (od_ops d)))
     (\<lambda>rows. ret (s\<lparr>ps_ops := rows\<rparr>))"

definition operator_state :: "collation \<Rightarrow> oper_state oact" where
  "operator_state k = andthen read_state (read_operators k)"

definition row_is :: "collation \<Rightarrow> string \<Rightarrow> operator_row \<Rightarrow> bool" where
  "row_is k u r \<longleftrightarrow> aeq k (or_uuid r) u"

text \<open>\<open>revision = revision + 1\<close> on an unsigned column: beyond its range the server refuses.\<close>

definition bump :: "int \<Rightarrow> unit oact" where
  "bump now = exec_if (\<lambda>d. if od_rev d = - 1 then Some ''ErrSQL'' else None)
     (\<lambda>d. d\<lparr>od_rev := od_rev d + 1, od_updated := now\<rparr>)"

definition put_body :: "collation \<Rightarrow> int \<Rightarrow> string \<Rightarrow> string \<Rightarrow> string \<Rightarrow> string \<Rightarrow> unit oact" where
  "put_body k now u name by by_name =
     andthen (query (\<lambda>d. find (row_is k u) (od_ops d))) (\<lambda>row.
       case row of
         None \<Rightarrow>
           andthen (exec (\<lambda>d. d\<lparr>od_ops := od_ops d @ [\<lparr>or_uuid = u, or_name = name, or_by = by,
             or_by_name = by_name, or_created = now, or_updated = now\<rparr>]\<rparr>)) (\<lambda>_. bump now)
       | Some r \<Rightarrow>
           if or_name r \<noteq> name then
             andthen (exec (\<lambda>d. d\<lparr>od_ops := update_rows (row_is k u)
               (\<lambda>r. r\<lparr>or_name := name, or_updated := now\<rparr>) (od_ops d)\<rparr>)) (\<lambda>_. bump now)
           else ret ())"

definition put_tx :: "collation \<Rightarrow> int \<Rightarrow> string \<Rightarrow> string \<Rightarrow> string \<Rightarrow> string \<Rightarrow> unit oact" where
  "put_tx k now uuid name by by_name =
     (case normalize_minecraft_uuid uuid of
        None \<Rightarrow> raise ''ErrUUID''
      | Some u \<Rightarrow>
          if 64 < rune_count (trim_space name) then raise ''ErrName''
          else tx (put_body k now u (trim_space name) by by_name))"

definition put_operator :: "collation \<Rightarrow> int \<Rightarrow> string \<Rightarrow> string \<Rightarrow> string \<Rightarrow> string \<Rightarrow> oper_state oact" where
  "put_operator k now uuid name by by_name =
     andthen (put_tx k now uuid name by by_name) (\<lambda>_. operator_state k)"

definition delete_body :: "collation \<Rightarrow> int \<Rightarrow> string \<Rightarrow> unit oact" where
  "delete_body k now u =
     andthen (stmt (\<lambda>d. (Inr (list_ex (row_is k u) (od_ops d)),
       d\<lparr>od_ops := filter (\<lambda>r. \<not> row_is k u r) (od_ops d)\<rparr>))) (\<lambda>found.
     andthen (guard found ''ErrNotFound'') (\<lambda>_. bump now))"

definition delete_tx :: "collation \<Rightarrow> int \<Rightarrow> string \<Rightarrow> unit oact" where
  "delete_tx k now uuid =
     (case normalize_minecraft_uuid uuid of
        None \<Rightarrow> raise ''ErrUUID''
      | Some u \<Rightarrow> tx (delete_body k now u))"

definition delete_operator :: "collation \<Rightarrow> int \<Rightarrow> string \<Rightarrow> oper_state oact" where
  "delete_operator k now uuid = andthen (delete_tx k now uuid) (\<lambda>_. operator_state k)"

definition activate_stmt :: "int \<Rightarrow> unit oact" where
  "activate_stmt now =
     exec_if (\<lambda>d. if \<not> od_init d \<and> od_rev d = - 1 then Some ''ErrSQL'' else None)
       (\<lambda>d. if od_init d then d else d\<lparr>od_init := True, od_rev := od_rev d + 1, od_updated := now\<rparr>)"

definition activate_operator_management :: "collation \<Rightarrow> int \<Rightarrow> oper_state oact" where
  "activate_operator_management k now = andthen (activate_stmt now) (\<lambda>_. operator_state k)"

section \<open>What the nodes are asked\<close>

datatype node_call = ReplaceSource op_source | RemoveSource string | SourceStatus string

definition operator_entry :: "operator_row \<Rightarrow> op_entry" where
  "operator_entry r = \<lparr>oe_uuid = or_uuid r, oe_name = or_name r\<rparr>"

definition source_message :: "oper_state \<Rightarrow> op_source" where
  "source_message s = \<lparr>os_panel = ps_panel s, os_rev = ps_rev s, os_ops = map operator_entry (ps_ops s)\<rparr>"

definition reconcile_call :: "bool \<Rightarrow> oper_state \<Rightarrow> string + node_call" where
  "reconcile_call manage s =
     (if \<not> manage then Inr (RemoveSource (ps_panel s))
      else if \<not> ps_init s then Inl ''uninitialized''
      else Inr (ReplaceSource (source_message s)))"

definition status_call :: "bool \<Rightarrow> oper_state \<Rightarrow> string + node_call" where
  "status_call manage s =
     (if \<not> manage then Inl ''disabled''
      else if \<not> ps_init s then Inl ''uninitialized''
      else Inr (SourceStatus (ps_panel s)))"

text \<open>The connections: the node identifiers, and the outcome of a call to a node that is online.\<close>

datatype node_answer = Offline | NodeError string | NodeResult string

record node_status =
  ns_node :: string
  ns_state :: string
  ns_result :: string
  ns_error :: string

definition status_of :: "node_call \<Rightarrow> (node_call \<Rightarrow> string \<Rightarrow> node_answer) \<Rightarrow> string \<Rightarrow> node_status" where
  "status_of c answer i =
     (case answer c i of
        Offline \<Rightarrow> \<lparr>ns_node = i, ns_state = ''pending'', ns_result = [], ns_error = []\<rparr>
      | NodeError e \<Rightarrow> \<lparr>ns_node = i, ns_state = ''failed'', ns_result = [], ns_error = e\<rparr>
      | NodeResult r \<Rightarrow> \<lparr>ns_node = i, ns_state = ''synced'', ns_result = r, ns_error = []\<rparr>)"

definition call_operator_nodes ::
  "string list \<Rightarrow> (node_call \<Rightarrow> string \<Rightarrow> node_answer) \<Rightarrow> node_call \<Rightarrow> node_status list" where
  "call_operator_nodes ids answer c = sort_key ns_node (map (status_of c answer) ids)"

definition unavailable_statuses :: "string list \<Rightarrow> string \<Rightarrow> node_status list" where
  "unavailable_statuses ids state = map (\<lambda>i. \<lparr>ns_node = i, ns_state = state, ns_result = [], ns_error = []\<rparr>) ids"

definition node_statuses ::
  "string list \<Rightarrow> (node_call \<Rightarrow> string \<Rightarrow> node_answer) \<Rightarrow> string + node_call \<Rightarrow> node_status list" where
  "node_statuses ids answer c =
     (case c of Inl state \<Rightarrow> unavailable_statuses ids state | Inr call \<Rightarrow> call_operator_nodes ids answer call)"

section \<open>Requests\<close>

record oper_response =
  op_state :: oper_state
  op_manage :: bool
  op_nodes :: "node_status list"

record oper_env =
  oe_manage :: bool
  oe_ids :: "string list"
  oe_answer :: "node_call \<Rightarrow> string \<Rightarrow> node_answer"

definition mutation_response :: "oper_env \<Rightarrow> oper_state \<Rightarrow> oper_response" where
  "mutation_response e s =
     \<lparr>op_state = s, op_manage = oe_manage e, op_nodes = node_statuses (oe_ids e) (oe_answer e)
       (if \<not> ps_init s \<or> \<not> oe_manage e then status_call (oe_manage e) s else reconcile_call (oe_manage e) s)\<rparr>"

definition operators_handler :: "collation \<Rightarrow> oper_env \<Rightarrow> request \<Rightarrow> oper_response oact" where
  "operators_handler k e r =
     (if rq_method r \<noteq> ''GET'' then raise ''METHOD_NOT_ALLOWED''
      else andthen (operator_state k) (\<lambda>s. ret \<lparr>op_state = s, op_manage = oe_manage e,
             op_nodes = node_statuses (oe_ids e) (oe_answer e) (status_call (oe_manage e) s)\<rparr>))"

definition activate_handler :: "collation \<Rightarrow> int \<Rightarrow> oper_env \<Rightarrow> request \<Rightarrow> oper_response oact" where
  "activate_handler k now e r =
     (if rq_method r \<noteq> ''POST'' then raise ''METHOD_NOT_ALLOWED''
      else andthen (guard (oe_manage e) ''OPERATOR_MANAGEMENT_DISABLED'') (\<lambda>_.
           andthen (activate_operator_management k now) (\<lambda>s. ret (mutation_response e s))))"

text \<open>The body of a PUT is the decoded name, \<open>None\<close> when it cannot be read or decoded.\<close>

definition operator_handler ::
  "collation \<Rightarrow> int \<Rightarrow> oper_env \<Rightarrow> user \<Rightarrow> request \<Rightarrow> string option \<Rightarrow> oper_response oact" where
  "operator_handler k now e actor r body =
     (let path = trim_slashes (trim_prefix (rq_path r) ''/api/v1/operators/'')
      in if path = ''activate'' then activate_handler k now e r
         else if path = [] \<or> contains_str path ''/'' then raise ''HTTP_NOT_FOUND''
         else case normalize_minecraft_uuid path of
           None \<Rightarrow> raise ''INVALID_REQUEST''
         | Some u \<Rightarrow>
             if rq_method r = ''PUT'' then
               andthen (need ''INVALID_BODY'' body) (\<lambda>name.
               andthen (guard (rune_count (trim_space name) \<le> 64) ''INVALID_REQUEST'') (\<lambda>_.
               andthen (put_operator k now u name (us_id (ur_row actor)) (us_name (ur_row actor))) (\<lambda>s.
               ret (mutation_response e s))))
             else if rq_method r = ''DELETE'' then
               andthen (on_error (\<lambda>c. raise (public_error c)) (delete_operator k now u)) (\<lambda>s.
               ret (mutation_response e s))
             else raise ''METHOD_NOT_ALLOWED'')"

end
