(* ===== verification/OperatorSync.thy ===== *)
theory OperatorSync
  imports Operators
begin

text \<open>
  The second half of daemon/internal/supervisor/operators.go: pushing the catalog to the plugins of
  the game servers, and the plugin's own registry (SpigotOperatorRegistry.replace). Each push is a
  goroutine with three steps: it notes the status and picks the connection, the plugin answers, and
  it notes the outcome. The steps of all pushes interleave with requests, plugin connections and
  each other; the machine at the end has one operation per step.
\<close>

section \<open>Instances\<close>

record op_sync =
  sy_rev :: "64 word"
  sy_state :: string
  sy_applied :: int
  sy_removed :: int
  sy_error :: string
  sy_at :: int

definition no_sync :: op_sync where
  "no_sync = \<lparr>sy_rev = 0, sy_state = [], sy_applied = 0, sy_removed = 0, sy_error = [], sy_at = 0\<rparr>"

text \<open>\<open>oi_conn\<close> is the plugin connection while one is up.\<close>

record op_inst =
  oi_managed :: bool
  oi_proxy :: bool
  oi_conn :: "nat option"
  oi_sync :: op_sync

datatype answer = Applied int int | Refused string

definition begin_status :: "int \<Rightarrow> op_catalog \<Rightarrow> bool \<Rightarrow> op_sync" where
  "begin_status now c connected = \<lparr>sy_rev = oc_rev c,
     sy_state = (if connected then ''syncing'' else ''pending''), sy_applied = 0, sy_removed = 0,
     sy_error = [], sy_at = now\<rparr>"

definition begin_apply :: "int \<Rightarrow> op_catalog \<Rightarrow> op_inst \<Rightarrow> op_inst" where
  "begin_apply now c i =
     (if sy_rev (oi_sync i) \<le> oc_rev c
      then i\<lparr>oi_sync := begin_status now c (oi_conn i \<noteq> None)\<rparr> else i)"

definition end_status :: "int \<Rightarrow> op_catalog \<Rightarrow> answer \<Rightarrow> op_sync" where
  "end_status now c a =
     (case a of
        Applied n r \<Rightarrow> \<lparr>sy_rev = oc_rev c, sy_state = ''synced'', sy_applied = n, sy_removed = r,
          sy_error = [], sy_at = now\<rparr>
      | Refused e \<Rightarrow> \<lparr>sy_rev = oc_rev c, sy_state = ''failed'', sy_applied = 0, sy_removed = 0,
          sy_error = e, sy_at = now\<rparr>)"

definition finish_apply :: "int \<Rightarrow> op_catalog \<Rightarrow> answer \<Rightarrow> op_inst \<Rightarrow> op_inst" where
  "finish_apply now c a i =
     (if sy_rev (oi_sync i) \<le> oc_rev c then i\<lparr>oi_sync := end_status now c a\<rparr> else i)"

text \<open>\<open>registerPlugin\<close> and \<open>PluginConnection.Close\<close>, as far as the operators are concerned.\<close>

definition plugin_up :: "nat \<Rightarrow> op_inst \<Rightarrow> op_inst" where
  "plugin_up conn i = i\<lparr>oi_conn := Some conn\<rparr>"

definition plugin_down :: "int \<Rightarrow> nat \<Rightarrow> op_inst \<Rightarrow> op_inst" where
  "plugin_down now conn i =
     (if oi_conn i = Some conn
      then i\<lparr>oi_conn := None, oi_sync :=
             (if sy_state (oi_sync i) = [] then oi_sync i
              else (oi_sync i)\<lparr>sy_state := ''pending'', sy_error := [], sy_at := now\<rparr>)\<rparr>
      else i)"

text \<open>
  What \<open>waitSession\<close> does to the connection when the process has exited: it drops it and moves on the
  generation, so that the \<open>Close\<close> that follows no longer finds itself current.
\<close>

definition process_exit :: "op_inst \<Rightarrow> op_inst" where
  "process_exit i = i\<lparr>oi_conn := None\<rparr>"

text \<open>\<open>operatorStatusLocked\<close>.\<close>

record op_status =
  st_panel :: string
  st_present :: bool
  st_source :: "64 word"
  st_effective :: "64 word"
  st_active :: bool
  st_targets :: "(string \<times> op_sync) list"

definition target_status :: "int \<Rightarrow> op_registry \<Rightarrow> op_inst \<Rightarrow> op_sync" where
  "target_status now g i =
     (if sy_state (oi_sync i) = []
      then no_sync\<lparr>sy_rev := og_rev g, sy_state := ''pending'', sy_at := now\<rparr> else oi_sync i)"

definition wants_operators :: "op_inst \<Rightarrow> bool" where
  "wants_operators i \<longleftrightarrow> oi_managed i \<and> \<not> oi_proxy i"

definition operator_status :: "int \<Rightarrow> op_registry \<Rightarrow> (string, op_inst) gomap \<Rightarrow> string \<Rightarrow> op_status" where
  "operator_status now g insts p =
     (let panel = to_lower (trim_space p); src = source_of (og_sources g) panel
      in \<lparr>st_panel = panel, st_present = (src \<noteq> None),
          st_source = (case src of None \<Rightarrow> 0 | Some s \<Rightarrow> os_rev s),
          st_effective = og_rev g, st_active = (og_sources g \<noteq> []),
          st_targets = sort_key fst (map (\<lambda>(n, i). (n, target_status now g i))
            (filter (\<lambda>(n, i). wants_operators i) insts))\<rparr>)"

section \<open>The plugin's registry\<close>

text \<open>\<open>pl_rev = None\<close> is the initial -1. \<open>n\<close> and \<open>r\<close> are the operators it had to add and take away.\<close>

record plugin =
  pl_rev :: "64 word option"
  pl_active :: bool
  pl_ops :: "op_entry set"

definition new_plugin :: plugin where
  "new_plugin = \<lparr>pl_rev = None, pl_active = False, pl_ops = {}\<rparr>"

definition plugin_replace :: "op_catalog \<Rightarrow> int \<Rightarrow> int \<Rightarrow> plugin \<Rightarrow> answer \<times> plugin" where
  "plugin_replace c n r p =
     (if \<not> distinct (map oe_uuid (oc_ops c)) then (Refused ''INVALID_REQUEST'', p)
      else case pl_rev p of
        Some v \<Rightarrow>
          if oc_rev c < v then (Refused ''STALE_REVISION'', p)
          else if oc_rev c = v then
            (if pl_active p \<noteq> oc_active c \<or> pl_ops p \<noteq> set (oc_ops c)
             then (Refused ''REVISION_CONFLICT'', p) else (Applied 0 0, p))
          else (Applied (if oc_active c then n else 0) (if oc_active c then r else 0),
                p\<lparr>pl_rev := Some (oc_rev c), pl_active := oc_active c, pl_ops := set (oc_ops c)\<rparr>)
      | None \<Rightarrow> (Applied (if oc_active c then n else 0) (if oc_active c then r else 0),
                p\<lparr>pl_rev := Some (oc_rev c), pl_active := oc_active c, pl_ops := set (oc_ops c)\<rparr>))"

section \<open>The machine\<close>

text \<open>
  A push is \<open>Queued\<close>, \<open>Waiting\<close> for the plugin, back with an answer, or \<open>Over\<close>. \<open>pu_conn\<close> is the
  connection on which its request is still on the way: after a timeout nobody waits for the answer,
  but the request can still arrive. Pushes are numbered by their place in the list.
\<close>

datatype push_state = Queued | Waiting | Answered answer | Over

record push =
  pu_inst :: string
  pu_cat :: op_catalog
  pu_conn :: "nat option"
  pu_state :: push_state

record op_world =
  ow_mem :: op_memory
  ow_insts :: "(string, op_inst) gomap"
  ow_plugins :: "plugin list"
  ow_conns :: "nat list"
  ow_pushes :: "push list"

definition targets :: "(string, op_inst) gomap \<Rightarrow> string list" where
  "targets insts = map fst (filter (\<lambda>(n, i). wants_operators i) insts)"

definition new_push :: "string \<Rightarrow> op_catalog \<Rightarrow> push" where
  "new_push n c = \<lparr>pu_inst = n, pu_cat = c, pu_conn = None, pu_state = Queued\<rparr>"

definition push_all :: "op_catalog \<Rightarrow> op_world \<Rightarrow> op_world" where
  "push_all c w = w\<lparr>ow_pushes := ow_pushes w @
     map (\<lambda>n. new_push n c) (targets (ow_insts w))\<rparr>"

definition after_change :: "change result \<times> op_memory \<Rightarrow> op_world \<Rightarrow> op_world" where
  "after_change r w =
     (case r of
        (Inr (Changed c), m) \<Rightarrow> push_all c (w\<lparr>ow_mem := m\<rparr>)
      | (_, m) \<Rightarrow> w\<lparr>ow_mem := m\<rparr>)"

definition upd_op_inst :: "string \<Rightarrow> (op_inst \<Rightarrow> op_inst) \<Rightarrow> op_world \<Rightarrow> op_world" where
  "upd_op_inst n f w = w\<lparr>ow_insts := map (\<lambda>(k, i). (k, if k = n then f i else i)) (ow_insts w)\<rparr>"

definition upd_push :: "nat \<Rightarrow> (push \<Rightarrow> push) \<Rightarrow> op_world \<Rightarrow> op_world" where
  "upd_push j f w = w\<lparr>ow_pushes := (ow_pushes w)[j := f (ow_pushes w ! j)]\<rparr>"

text \<open>
  \<open>RegisterPlugin\<close>: a connection of plugin process \<open>k\<close>, a new process when there is no such one
  yet. A process that connects again has kept its registry.
\<close>

definition connect :: "string \<Rightarrow> nat \<Rightarrow> op_world \<Rightarrow> op_world" where
  "connect n k w =
     (let known = k < length (ow_plugins w);
          w' = (if known then w else w\<lparr>ow_plugins := ow_plugins w @ [new_plugin]\<rparr>)
      in upd_op_inst n (plugin_up (length (ow_conns w)))
           (w'\<lparr>ow_conns := ow_conns w @ [if known then k else length (ow_plugins w)]\<rparr>))"

text \<open>\<open>RestoreOperators\<close> up to the push.\<close>

definition restore :: "string \<Rightarrow> op_world \<Rightarrow> op_world" where
  "restore n w =
     (case aget (ow_insts w) n of
        None \<Rightarrow> w
      | Some i \<Rightarrow>
          (let c = catalog_of (om_reg (ow_mem w))
           in if oi_proxy i \<or> oc_rev c = 0 \<and> \<not> oc_active c then w
              else w\<lparr>ow_pushes := ow_pushes w @ [new_push n c]\<rparr>))"

text \<open>\<open>applyOperatorToInstance\<close>: up to the request, the plugin's answer, and after the request.\<close>

definition begin_push :: "int \<Rightarrow> nat \<Rightarrow> op_world \<Rightarrow> op_world" where
  "begin_push now j w =
     (if j < length (ow_pushes w) \<and> pu_state (ow_pushes w ! j) = Queued
      then (let p = ow_pushes w ! j
            in case aget (ow_insts w) (pu_inst p) of
                 None \<Rightarrow> upd_push j (\<lambda>p. p\<lparr>pu_state := Over\<rparr>) w
               | Some i \<Rightarrow> upd_op_inst (pu_inst p) (begin_apply now (pu_cat p))
                   (upd_push j (\<lambda>p. p\<lparr>pu_conn := oi_conn i,
                      pu_state := (if oi_conn i = None then Over else Waiting)\<rparr>) w))
      else w)"

definition deliver :: "nat \<Rightarrow> int \<Rightarrow> int \<Rightarrow> op_world \<Rightarrow> op_world" where
  "deliver j n r w =
     (if j < length (ow_pushes w)
      then (case pu_conn (ow_pushes w ! j) of
              None \<Rightarrow> w
            | Some conn \<Rightarrow>
                (if conn < length (ow_conns w) \<and> ow_conns w ! conn < length (ow_plugins w)
                 then (case plugin_replace (pu_cat (ow_pushes w ! j)) n r (ow_plugins w ! (ow_conns w ! conn)) of
                         (a, p) \<Rightarrow> upd_push j (\<lambda>x. x\<lparr>pu_conn := None,
                             pu_state := (if pu_state x = Waiting then Answered a else pu_state x)\<rparr>)
                           (w\<lparr>ow_plugins := (ow_plugins w)[ow_conns w ! conn := p]\<rparr>))
                 else w))
      else w)"

definition in_request :: "push \<Rightarrow> bool" where
  "in_request p \<longleftrightarrow> (case pu_state p of Waiting \<Rightarrow> True | Answered a \<Rightarrow> True | _ \<Rightarrow> False)"

text \<open>\<open>Request\<close> fails: connection closed, time out, capability missing (the request is not sent then).\<close>

definition lose :: "nat \<Rightarrow> string \<Rightarrow> op_world \<Rightarrow> op_world" where
  "lose j e w =
     (if j < length (ow_pushes w) \<and> in_request (ow_pushes w ! j)
      then upd_push j (\<lambda>p. p\<lparr>pu_state := Answered (Refused e)\<rparr>) w else w)"

definition finish_push :: "int \<Rightarrow> nat \<Rightarrow> op_world \<Rightarrow> op_world" where
  "finish_push now j w =
     (if j < length (ow_pushes w)
      then (case pu_state (ow_pushes w ! j) of
              Answered a \<Rightarrow> upd_op_inst (pu_inst (ow_pushes w ! j)) (finish_apply now (pu_cat (ow_pushes w ! j)) a)
                (upd_push j (\<lambda>p. p\<lparr>pu_state := Over\<rparr>) w)
            | _ \<Rightarrow> w)
      else w)"

text \<open>
  The daemon stops and starts again: the registry is read from the file, the instances are known
  without a connection, and nobody waits for an answer. A file that is refused keeps it from starting.
\<close>

definition restart_daemon :: "op_world \<Rightarrow> op_world" where
  "restart_daemon w =
     (case configure_operators (om_disk (ow_mem w)) of
        Inl _ \<Rightarrow> w
      | Inr m \<Rightarrow> w\<lparr>ow_mem := m,
          ow_insts := map (\<lambda>(n, i). (n, i\<lparr>oi_conn := None, oi_sync := no_sync\<rparr>)) (ow_insts w),
          ow_pushes := map (\<lambda>p. p\<lparr>pu_state := Over\<rparr>) (ow_pushes w)\<rparr>)"

datatype op_op =
    OpReplace save_outcome op_source
  | OpRemove save_outcome string
  | OpConnect string nat
  | OpDisconnect string nat
  | OpExit string
  | OpRestore string
  | OpBegin nat
  | OpDeliver nat int int
  | OpLose nat string
  | OpFinish nat
  | OpRestart

fun op_step :: "op_world \<Rightarrow> int \<times> op_op \<Rightarrow> op_world" where
  "op_step w (now, OpReplace sv s) = after_change (replace_source sv s (ow_mem w)) w"
| "op_step w (now, OpRemove sv p) = after_change (remove_source sv p (ow_mem w)) w"
| "op_step w (now, OpConnect n k) = connect n k w"
| "op_step w (now, OpDisconnect n conn) = upd_op_inst n (plugin_down now conn) w"
| "op_step w (now, OpExit n) = upd_op_inst n process_exit w"
| "op_step w (now, OpRestore n) = restore n w"
| "op_step w (now, OpBegin j) = begin_push now j w"
| "op_step w (now, OpDeliver j n r) = deliver j n r w"
| "op_step w (now, OpLose j e) = lose j e w"
| "op_step w (now, OpFinish j) = finish_push now j w"
| "op_step w (now, OpRestart) = restart_daemon w"

end
