(* ===== verification/Operators_Laws.thy ===== *)
theory Operators_Laws
  imports OperatorSync
begin

text \<open>
  Laws of the operator registry: the normal forms of identifiers, sources and registries (the latter
  two instances of \<open>normalizer\<close>), the merged catalog, and what every change keeps.
\<close>

section \<open>Identifiers\<close>

lemma hex_plain: "hex_digit c \<Longrightarrow> plain_byte c"
  by (auto simp: hex_digit_def is_digit_def plain_byte_def ascii_space_def)

lemma dash_plain: "plain_byte CHR ''-''"
  by (simp add: plain_byte_def ascii_space_def byte_def)

lemma dash_not_hex: "\<not> hex_digit CHR ''-''"
  by (simp add: hex_digit_def is_digit_def byte_def)

lemma lower_dash: "lower_char CHR ''-'' = CHR ''-''"
  by (simp add: lower_char_def byte_def)

lemma set_dashed: "set (dashed s) \<subseteq> insert (CHR ''-'') (set s)"
  by (auto simp: dashed_def dest: in_set_takeD in_set_dropD)

lemma take_drop_parts:
  "take 8 s @ take 4 (drop 8 s) @ take 4 (drop 12 s) @ take 4 (drop 16 s) @ drop 20 s = s"
proof -
  have "drop 16 s = take 4 (drop 16 s) @ drop 20 s"
    using append_take_drop_id [of 4 "drop 16 s"] by simp
  moreover have "drop 12 s = take 4 (drop 12 s) @ drop 16 s"
    using append_take_drop_id [of 4 "drop 12 s"] by simp
  moreover have "drop 8 s = take 4 (drop 8 s) @ drop 12 s"
    using append_take_drop_id [of 4 "drop 8 s"] by simp
  ultimately show ?thesis using append_take_drop_id [of 8 s] by metis
qed

lemma filter_no_dash: "CHR ''-'' \<notin> set s \<Longrightarrow> drop_dashes s = s"
  unfolding drop_dashes_def by (induction s) auto

lemma drop_dashes_dashed:
  assumes "CHR ''-'' \<notin> set s"
  shows "drop_dashes (dashed s) = s"
proof -
  have "CHR ''-'' \<notin> set (take n (drop m s))" "CHR ''-'' \<notin> set (drop m s)" "CHR ''-'' \<notin> set (take n s)" for n m
    using assms by (auto dest: in_set_takeD in_set_dropD)
  then have "drop_dashes (dashed s) =
      take 8 s @ take 4 (drop 8 s) @ take 4 (drop 12 s) @ take 4 (drop 16 s) @ drop 20 s"
    using filter_no_dash unfolding drop_dashes_def dashed_def by simp
  then show ?thesis by (simp only: take_drop_parts)
qed

lemma normalize_uuid_cases:
  assumes "normalize_uuid v = Some u"
  obtains s where "u = dashed s" "length s = 32" "hex_text s" "to_lower s = s"
proof -
  let ?s = "drop_dashes (to_lower (trim_space v))"
  have "u = dashed ?s" "length ?s = 32" "hex_text ?s"
    using assms by (auto simp: normalize_uuid_def Let_def split: if_splits)
  moreover have "to_lower ?s = ?s"
    by (rule map_idI [where f = lower_char, folded to_lower_def]) (auto simp: drop_dashes_def to_lower_def)
  ultimately show thesis by (rule that)
qed

lemma normalize_uuid_fixed:
  assumes "normalize_uuid v = Some u"
  shows "normalize_uuid u = Some u"
proof -
  obtain s where u: "u = dashed s" and s: "length s = 32" "hex_text s" "to_lower s = s"
    using assms by (rule normalize_uuid_cases)
  have hex: "list_all hex_digit s" using s(2) by (simp add: hex_text_def)
  have no_dash: "CHR ''-'' \<notin> set s" using hex dash_not_hex by (auto simp: list_all_iff)
  have "list_all plain_byte u"
    unfolding u list_all_iff using set_dashed [of s] hex hex_plain dash_plain by (auto simp: list_all_iff)
  then have "trim_space u = u" by (rule trim_space_all_plain)
  moreover have "lower_char c = c" if "c \<in> set s" for c
    using s(3) that by (metis map_eq_conv map_ident to_lower_def)
  then have "to_lower u = u"
    unfolding to_lower_def u using set_dashed [of s] lower_dash by (intro map_idI) auto
  ultimately show ?thesis using s no_dash by (simp add: normalize_uuid_def u drop_dashes_dashed)
qed

section \<open>Sources\<close>

definition normal_entry :: "op_entry \<Rightarrow> bool" where
  "normal_entry e \<longleftrightarrow> normalize_uuid (oe_uuid e) = Some (oe_uuid e) \<and>
     trim_space (oe_name e) = oe_name e \<and> rune_count (oe_name e) \<le> 64"

definition normal_source :: "op_source \<Rightarrow> bool" where
  "normal_source s \<longleftrightarrow> valid_panel_id (os_panel s) \<and> to_lower (trim_space (os_panel s)) = os_panel s \<and>
     length (os_ops s) \<le> 10000 \<and> list_all normal_entry (os_ops s) \<and>
     sorted (map oe_uuid (os_ops s)) \<and> distinct (map oe_uuid (os_ops s))"

lemma normal_entries_result:
  "normal_entries seen es = Inr ns \<Longrightarrow>
     length ns = length es \<and> list_all normal_entry ns \<and> distinct (map oe_uuid ns) \<and>
     set (map oe_uuid ns) \<inter> set seen = {}"
proof (induction seen es arbitrary: ns rule: normal_entries.induct)
  case (2 seen e es)
  obtain u where u: "normalize_uuid (oe_uuid e) = Some u" "u \<notin> set seen"
    "rune_count (trim_space (oe_name e)) \<le> 64"
    using "2.prems" by (auto split: option.splits if_splits)
  obtain ms where ms: "normal_entries (u # seen) es = Inr ms"
    "ns = \<lparr>oe_uuid = u, oe_name = trim_space (oe_name e)\<rparr> # ms"
    using "2.prems" u by (auto split: sum.splits)
  have "length ms = length es \<and> list_all normal_entry ms \<and> distinct (map oe_uuid ms) \<and>
      set (map oe_uuid ms) \<inter> set (u # seen) = {}"
    using "2.IH" [of u] u ms(1) by (simp add: not_less)
  moreover have "normal_entry \<lparr>oe_uuid = u, oe_name = trim_space (oe_name e)\<rparr>"
    using u normalize_uuid_fixed by (simp add: normal_entry_def)
  ultimately show ?case using u by (auto simp: ms(2))
qed simp

lemma normal_entries_fixed:
  assumes "list_all normal_entry es" and "distinct (map oe_uuid es)" and "set (map oe_uuid es) \<inter> set seen = {}"
  shows "normal_entries seen es = Inr es"
  using assms by (induction es arbitrary: seen) (auto simp: normal_entry_def)

interpretation source: normalizer normalize_source normal_source
proof
  fix s n
  assume "normalize_source s = Inr n"
  then obtain es where v: "valid_panel_id (to_lower (trim_space (os_panel s)))" "length (os_ops s) \<le> 10000"
    and es: "normal_entries [] (os_ops s) = Inr es"
    and n: "n = \<lparr>os_panel = to_lower (trim_space (os_panel s)), os_rev = os_rev s, os_ops = sort_key oe_uuid es\<rparr>"
    unfolding normalize_source_def Let_def by (auto split: if_splits sum.splits)
  have "distinct (map oe_uuid (sort_key oe_uuid es))"
    using normal_entries_result [OF es] by (simp add: distinct_map)
  then show "normal_source n"
    using v normal_entries_result [OF es]
    by (simp add: n normal_source_def trim_space_lower list_all_iff)
next
  fix s
  assume "normal_source s"
  then show "normalize_source s = Inr s"
    by (simp add: normalize_source_def normal_source_def Let_def normal_entries_fixed sort_key_id_if_sorted)
qed

section \<open>Registries\<close>

definition normal_registry :: "op_registry \<Rightarrow> bool" where
  "normal_registry g \<longleftrightarrow> list_all normal_source (og_sources g) \<and>
     sorted (map os_panel (og_sources g)) \<and> distinct (map os_panel (og_sources g))"

lemma normal_sources_result:
  "normal_sources seen ss = Inr ns \<Longrightarrow>
     list_all normal_source ns \<and> distinct (map os_panel ns) \<and> set (map os_panel ns) \<inter> set seen = {}"
proof (induction seen ss arbitrary: ns rule: normal_sources.induct)
  case (2 seen s ss)
  obtain n ms where n: "normalize_source s = Inr n" "os_panel n \<notin> set seen"
    "normal_sources (os_panel n # seen) ss = Inr ms" "ns = n # ms"
    using "2.prems" by (auto split: sum.splits if_splits)
  then show ?case using "2.IH" [of n ms] source.norm_good [OF n(1)] by auto
qed simp

lemma normal_sources_fixed:
  assumes "list_all normal_source ss" and "distinct (map os_panel ss)" and "set (map os_panel ss) \<inter> set seen = {}"
  shows "normal_sources seen ss = Inr ss"
  using assms by (induction ss arbitrary: seen) (auto simp: source.good_fixed)

interpretation registry: normalizer normalize_state normal_registry
proof
  fix g n
  assume "normalize_state g = Inr n"
  then obtain ss where ss: "normal_sources [] (og_sources g) = Inr ss"
    and n: "n = \<lparr>og_rev = og_rev g, og_sources = sort_sources ss\<rparr>"
    unfolding normalize_state_def by (auto split: sum.splits)
  have "distinct (map os_panel (sort_sources ss))"
    using normal_sources_result [OF ss] by (simp add: sort_sources_def distinct_map)
  then show "normal_registry n"
    using normal_sources_result [OF ss] by (simp add: n normal_registry_def sort_sources_def list_all_iff)
next
  fix g
  assume "normal_registry g"
  then show "normalize_state g = Inr g"
    by (simp add: normalize_state_def normal_registry_def normal_sources_fixed sort_sources_def
        sort_key_id_if_sorted)
qed

section \<open>Changes keep the normal form\<close>

lemma set_put_source: "set (put_source n ss) \<subseteq> insert n (set ss)"
  by (induction ss) auto

lemma panels_put_source: "set (map os_panel (put_source n ss)) = insert (os_panel n) (set (map os_panel ss))"
  by (induction ss) auto

lemma distinct_put_source:
  "distinct (map os_panel ss) \<Longrightarrow> distinct (map os_panel (put_source n ss))"
proof (induction ss)
  case (Cons s ss)
  then show ?case using panels_put_source [of n ss] by (auto simp del: set_map)
qed simp

lemma put_source_normal:
  assumes "normal_registry g" and "normal_source n"
  shows "normal_registry \<lparr>og_rev = r, og_sources = sort_sources (put_source n (og_sources g))\<rparr>"
  using assms set_put_source [of n "og_sources g"] distinct_put_source [of "og_sources g" n]
  by (auto simp: normal_registry_def sort_sources_def list_all_iff distinct_map)

lemma drop_source_filter:
  "distinct (map os_panel ss) \<Longrightarrow> drop_source p ss = filter (\<lambda>s. os_panel s \<noteq> p) ss"
proof (induction ss)
  case (Cons s ss)
  then have "filter (\<lambda>x. os_panel x \<noteq> os_panel s) ss = ss" by (simp add: filter_id_conv) (metis image_eqI)
  then show ?case using Cons by (cases "os_panel s = p") simp_all
qed simp

lemma drop_source_normal:
  assumes "normal_registry g"
  shows "normal_registry \<lparr>og_rev = r, og_sources = drop_source p (og_sources g)\<rparr>"
  using assms
  by (auto simp: normal_registry_def drop_source_filter list_all_iff sorted_filter distinct_map_filter)

section \<open>Looking up a source\<close>

lemma source_of_distinct:
  assumes "distinct (map os_panel ss)"
  shows "source_of ss p = Some s \<longleftrightarrow> s \<in> set ss \<and> os_panel s = p"
  using assms unfolding source_of_def by (induction ss) auto

lemma source_of_None: "source_of ss p = None \<longleftrightarrow> p \<notin> os_panel ` set ss"
  unfolding source_of_def find_None_iff by auto

lemma source_of_sort:
  assumes "distinct (map os_panel ss)"
  shows "source_of (sort_sources ss) p = source_of ss p"
proof -
  have d: "distinct (map os_panel (sort_sources ss))"
    using assms by (simp add: sort_sources_def distinct_map)
  have "source_of (sort_sources ss) p = Some s \<longleftrightarrow> source_of ss p = Some s" for s
    unfolding source_of_distinct [OF d] source_of_distinct [OF assms] by (simp add: sort_sources_def)
  then show ?thesis by (cases "source_of ss p"; cases "source_of (sort_sources ss) p") auto
qed

lemma source_of_put:
  "source_of (put_source n ss) p = (if p = os_panel n then Some n else source_of ss p)"
  by (induction ss) (auto simp: source_of_def)

lemma source_of_drop:
  assumes "distinct (map os_panel ss)"
  shows "source_of (drop_source q ss) p = (if p = q then None else source_of ss p)"
  using assms unfolding drop_source_filter [OF assms] source_of_def by (induction ss) auto

section \<open>The merged catalog\<close>

text \<open>
  What the catalog says of a UUID: the first entry with a name, or the first entry when none of
  them has one.
\<close>

definition pick :: "op_entry list \<Rightarrow> string \<Rightarrow> op_entry option" where
  "pick es u =
     (let same = filter (\<lambda>e. oe_uuid e = u) es
      in case find (\<lambda>e. oe_name e \<noteq> []) same of
           Some e \<Rightarrow> Some e
         | None \<Rightarrow> (case same of [] \<Rightarrow> None | e # _ \<Rightarrow> Some e))"

lemma find_append_cases: "find P (xs @ ys) = (case find P xs of None \<Rightarrow> find P ys | Some x \<Rightarrow> Some x)"
  by (induction xs) auto

lemma pick_snoc:
  "pick (es @ [e]) u =
     (if oe_uuid e \<noteq> u then pick es u
      else case pick es u of None \<Rightarrow> Some e | Some c \<Rightarrow> if oe_name c = [] \<and> oe_name e \<noteq> [] then Some e else Some c)"
proof (cases "find (\<lambda>e. oe_name e \<noteq> []) (filter (\<lambda>e. oe_uuid e = u) es)")
  case None
  then show ?thesis
    by (cases "filter (\<lambda>e. oe_uuid e = u) es")
      (auto simp: pick_def Let_def find_append_cases split: if_splits)
next
  case (Some c)
  then have "oe_name c \<noteq> []" by (auto simp: find_Some_iff)
  then show ?thesis using Some by (simp add: pick_def Let_def find_append_cases)
qed

lemma pick_uuid: "pick es u = Some e \<Longrightarrow> oe_uuid e = u \<and> e \<in> set es"
  by (auto simp: pick_def Let_def find_Some_iff filter_eq_Cons_iff split: option.splits list.splits
      dest!: nth_mem)

lemma aget_merge: "aget (fold merge_entry es []) u = pick es u"
proof (induction es rule: rev_induct)
  case Nil
  then show ?case by (simp add: pick_def)
next
  case (snoc e es)
  let ?m = "fold merge_entry es []"
  show ?case
  proof (cases "oe_uuid e = u")
    case True
    then show ?thesis using snoc
      by (cases "pick es u") (simp_all add: merge_entry_def pick_snoc aget_aput)
  next
    case False
    then have "aget (merge_entry e ?m) u = aget ?m u"
      by (cases "aget ?m (oe_uuid e)") (simp_all add: merge_entry_def aget_aput)
    then show ?thesis using snoc False by (simp add: pick_snoc)
  qed
qed

lemma awf_merge: "awf (fold merge_entry es [])"
proof (induction es rule: rev_induct)
  case (snoc e es)
  then show ?case by (simp add: merge_entry_def awf_aput split: option.splits)
qed simp

definition all_entries :: "op_registry \<Rightarrow> op_entry list" where
  "all_entries g = concat (map os_ops (og_sources g))"

lemma merged_entries: "set (map snd (merged (og_sources g))) = {e. pick (all_entries g) (oe_uuid e) = Some e}"
proof -
  have "(u, e) \<in> set (merged (og_sources g)) \<longleftrightarrow> pick (all_entries g) u = Some e" for u e
    using aget_Some_iff [OF awf_merge] by (simp add: merged_def aget_merge all_entries_def)
  then have "e \<in> set (map snd (merged (og_sources g))) \<longleftrightarrow> (\<exists>u. pick (all_entries g) u = Some e)" for e
    by force
  moreover have "(\<exists>u. pick (all_entries g) u = Some e) \<longleftrightarrow> pick (all_entries g) (oe_uuid e) = Some e" for e
    using pick_uuid by metis
  ultimately show ?thesis by blast
qed

lemma merged_keys: "map oe_uuid (map snd (merged (og_sources g))) = map fst (merged (og_sources g))"
proof -
  have "oe_uuid e = u" if "(u, e) \<in> set (merged (og_sources g))" for u e
    using that aget_Some_iff [OF awf_merge] pick_uuid by (simp add: merged_def aget_merge)
  then show ?thesis by auto
qed

lemma catalog_keys: "sorted (map oe_uuid (oc_ops (catalog_of g)))" "distinct (map oe_uuid (oc_ops (catalog_of g)))"
proof -
  show "sorted (map oe_uuid (oc_ops (catalog_of g)))" by (simp add: catalog_of_def)
  have "distinct (map oe_uuid (map snd (merged (og_sources g))))"
    using awf_merge unfolding merged_keys by (simp add: merged_def awf_def)
  then show "distinct (map oe_uuid (oc_ops (catalog_of g)))"
    by (simp add: catalog_of_def distinct_map del: map_map)
qed

lemma catalog_set: "set (oc_ops (catalog_of g)) = {e. pick (all_entries g) (oe_uuid e) = Some e}"
  using merged_entries [of g] by (simp add: catalog_of_def)

text \<open>The order in which Go iterates over the merged map does not show: the result is sorted by key.\<close>

lemma catalog_any_order:
  assumes "set es = set (map snd (merged (og_sources g)))" and "distinct es"
  shows "sort_key oe_uuid es = oc_ops (catalog_of g)"
proof -
  have eq: "set es = set (oc_ops (catalog_of g))" using assms(1) by (simp add: catalog_of_def)
  have inj: "inj_on oe_uuid (set (oc_ops (catalog_of g)))"
    using catalog_keys(2) by (simp add: distinct_map)
  show ?thesis
    by (rule map_sorted_distinct_set_unique [where f = oe_uuid])
      (use assms(2) eq inj catalog_keys [of g] in \<open>auto simp: distinct_map\<close>)
qed

end
