(* ===== verification/OperatorSync_Laws.thy ===== *)
theory OperatorSync_Laws
  imports Operators_Laws
begin

text \<open>
  The invariant of the operator machine. \<open>explains f w\<close> says that one function \<open>f\<close> from revisions
  to contents fits everything there is in \<open>w\<close>: the registry, the catalogs of all pushes (also those
  nobody waits for) and what the plugins hold. Every step keeps such an \<open>f\<close>, as long as the 64-bit
  revision does not wrap.
\<close>

section \<open>The invariant\<close>

definition content :: "op_catalog \<Rightarrow> bool \<times> op_entry list" where
  "content c = (oc_active c, oc_ops c)"

definition reg_of :: "op_world \<Rightarrow> op_registry" where
  "reg_of w = om_reg (ow_mem w)"

definition world_rev :: "op_world \<Rightarrow> 64 word" where
  "world_rev w = og_rev (reg_of w)"

definition cats :: "op_world \<Rightarrow> op_catalog set" where
  "cats w = pu_cat ` set (ow_pushes w)"

definition holds :: "(64 word \<Rightarrow> bool \<times> op_entry list) \<Rightarrow> 64 word \<Rightarrow> plugin \<Rightarrow> bool" where
  "holds f r q \<longleftrightarrow> (case pl_rev q of None \<Rightarrow> True
     | Some v \<Rightarrow> v \<le> r \<and> pl_active q = fst (f v) \<and> pl_ops q = set (snd (f v)))"

definition known_cat :: "(64 word \<Rightarrow> bool \<times> op_entry list) \<Rightarrow> 64 word \<Rightarrow> op_catalog \<Rightarrow> bool" where
  "known_cat f r c \<longleftrightarrow> oc_rev c \<le> r \<and> f (oc_rev c) = content c \<and> distinct (map oe_uuid (oc_ops c))"

definition disk_near :: "op_memory \<Rightarrow> bool" where
  "disk_near m \<longleftrightarrow> normal_registry (om_reg m) \<and> normal_registry (om_disk m) \<and>
     (om_disk m = om_reg m \<or> og_rev (om_disk m) = og_rev (om_reg m) + 1)"

definition explains :: "(64 word \<Rightarrow> bool \<times> op_entry list) \<Rightarrow> op_world \<Rightarrow> bool" where
  "explains f w \<longleftrightarrow> disk_near (ow_mem w) \<and>
     (\<forall>c \<in> insert (catalog_of (reg_of w)) (cats w). known_cat f (world_rev w) c) \<and>
     (\<forall>q \<in> set (ow_plugins w). holds f (world_rev w) q)"

lemma oc_rev_catalog [simp]: "oc_rev (catalog_of g) = og_rev g"
  by (simp add: catalog_of_def)

lemma pushes_upd_op_inst [simp]:
  "ow_pushes (upd_op_inst n h w) = ow_pushes w" "ow_plugins (upd_op_inst n h w) = ow_plugins w"
  "ow_mem (upd_op_inst n h w) = ow_mem w" "ow_conns (upd_op_inst n h w) = ow_conns w"
  by (simp_all add: upd_op_inst_def)

lemma upd_push_frame [simp]:
  "ow_plugins (upd_push j h w) = ow_plugins w" "ow_mem (upd_push j h w) = ow_mem w"
  "ow_insts (upd_push j h w) = ow_insts w" "ow_conns (upd_push j h w) = ow_conns w"
  by (simp_all add: upd_push_def)

lemma map_list_update_same:
  assumes "f y = f (xs ! j)"
  shows "map f (xs[j := y]) = map f xs"
proof (cases "j < length xs")
  case True
  then show ?thesis using assms by (simp add: map_update) (metis list_update_id nth_map)
qed (simp add: list_update_beyond)

lemma cats_upd_push:
  assumes "\<And>p. pu_cat (h p) = pu_cat p"
  shows "cats (upd_push j h w) = cats w"
proof -
  have "map pu_cat (ow_pushes (upd_push j h w)) = map pu_cat (ow_pushes w)"
    unfolding upd_push_def using map_list_update_same [of pu_cat _ "ow_pushes w" j] assms by simp
  then show ?thesis unfolding cats_def by (metis list.set_map)
qed

lemma cats_upd_op_inst [simp]: "cats (upd_op_inst n h w) = cats w"
  by (simp add: cats_def)

text \<open>Steps that leave the registry and the plugins alone and push nothing but the current catalog.\<close>

lemma explains_frame:
  assumes "explains f w" and "ow_mem w' = ow_mem w" and "cats w' \<subseteq> insert (catalog_of (reg_of w)) (cats w)"
    and "\<And>q. q \<in> set (ow_plugins w') \<Longrightarrow> q \<in> set (ow_plugins w) \<or> pl_rev q = None"
  shows "explains f w'"
  using assms unfolding explains_def reg_of_def world_rev_def by (fastforce simp: holds_def)

section \<open>Changes of the registry\<close>

text \<open>The registry \<open>commit\<close> tries to save. The revision does not wrap.\<close>

lemma word_inc_unat: "x \<noteq> - 1 \<Longrightarrow> unat (x + 1) = Suc (unat (x :: 64 word))"
proof -
  assume x: "x \<noteq> - 1"
  have "x + 1 \<noteq> 0" using x by (metis add_eq_0_iff2 add.commute)
  then show ?thesis by (simp add: unatSuc add.commute)
qed

lemma word_inc_greater: "x \<noteq> - 1 \<Longrightarrow> x < x + (1 :: 64 word)"
  by (simp add: word_less_nat_alt word_inc_unat)

lemma known_cat_grow:
  assumes "known_cat f r c" and "r < r'"
  shows "known_cat (f(r' := x)) r' c"
proof -
  have "oc_rev c < r'" using assms unfolding known_cat_def by (metis order.strict_trans1)
  then show ?thesis using assms(1) by (simp add: known_cat_def less_imp_le less_imp_neq)
qed

lemma holds_grow:
  assumes "holds f r q" and "r < r'"
  shows "holds (f(r' := x)) r' q"
proof (cases "pl_rev q")
  case (Some v)
  then have "v < r'" using assms unfolding holds_def by (auto intro: order.strict_trans1)
  then show ?thesis using assms(1) Some by (simp add: holds_def less_imp_le less_imp_neq)
qed (simp add: holds_def)

lemma explains_new_registry:
  assumes "explains f w" and "world_rev w < world_rev w'" and "disk_near (ow_mem w')"
    and "cats w' \<subseteq> insert (catalog_of (reg_of w')) (cats w)" and "ow_plugins w' = ow_plugins w"
  shows "explains (f(world_rev w' := content (catalog_of (reg_of w')))) w'"
proof -
  let ?f = "f(world_rev w' := content (catalog_of (reg_of w')))"
  have "known_cat ?f (world_rev w') (catalog_of (reg_of w'))"
    by (simp add: known_cat_def world_rev_def catalog_keys)
  moreover have "known_cat ?f (world_rev w') c" if "c \<in> cats w" for c
    using assms(1,2) that known_cat_grow unfolding explains_def by blast
  moreover have "holds ?f (world_rev w') q" if "q \<in> set (ow_plugins w)" for q
    using assms(1,2) that holds_grow unfolding explains_def by blast
  ultimately show ?thesis using assms(3,4,5) unfolding explains_def by auto
qed

lemma cats_push_all: "cats (push_all c w) \<subseteq> insert c (cats w)"
  by (auto simp: push_all_def cats_def new_push_def)

lemma explains_mem:
  assumes "explains f w" and "disk_near m" and "om_reg m = om_reg (ow_mem w)"
  shows "explains f (w\<lparr>ow_mem := m\<rparr>)"
  using assms by (simp add: explains_def reg_of_def world_rev_def cats_def)

lemma explains_commit:
  assumes "explains f w" and "world_rev w \<noteq> - 1"
    and normal: "normal_registry \<lparr>og_rev = world_rev w + 1, og_sources = ss\<rparr>"
  shows "\<exists>f'. explains f' (after_change (commit sv ss (ow_mem w)) w)"
    and "world_rev (after_change (commit sv ss (ow_mem w)) w) \<in> {world_rev w, world_rev w + 1}"
proof -
  let ?g = "\<lparr>og_rev = world_rev w + 1, og_sources = ss\<rparr>"
  let ?w = "w\<lparr>ow_mem := (ow_mem w)\<lparr>om_disk := ?g, om_reg := ?g\<rparr>\<rparr>"
  have near: "disk_near (ow_mem w)" using assms(1) by (simp add: explains_def)
  have g: "\<lparr>og_rev = og_rev (om_reg (ow_mem w)) + 1, og_sources = ss\<rparr> = ?g"
    by (simp add: world_rev_def reg_of_def)
  have "(\<exists>f'. explains f' (after_change (commit sv ss (ow_mem w)) w)) \<and>
      world_rev (after_change (commit sv ss (ow_mem w)) w) \<in> {world_rev w, world_rev w + 1}"
  proof (cases sv)
    case Saved
    have eq: "after_change (commit sv ss (ow_mem w)) w = push_all (catalog_of ?g) ?w"
      unfolding commit_def Let_def g persist_def Saved after_change_def by simp
    have rev: "reg_of (push_all (catalog_of ?g) ?w) = ?g" by (simp add: push_all_def reg_of_def)
    have "explains (f(world_rev (push_all (catalog_of ?g) ?w) := content (catalog_of ?g))) (push_all (catalog_of ?g) ?w)"
      using explains_new_registry [OF assms(1), of "push_all (catalog_of ?g) ?w"] rev
        word_inc_greater [OF assms(2)] normal cats_push_all [of "catalog_of ?g" ?w]
      by (simp add: world_rev_def disk_near_def) (simp add: push_all_def cats_def)
    then show ?thesis unfolding eq using rev by (auto simp: world_rev_def)
  next
    case NotSaved
    have "after_change (commit sv ss (ow_mem w)) w = w"
      unfolding commit_def Let_def g persist_def NotSaved after_change_def by simp
    then show ?thesis using assms(1) by auto
  next
    case SavedWithError
    have "after_change (commit sv ss (ow_mem w)) w = w\<lparr>ow_mem := (ow_mem w)\<lparr>om_disk := ?g\<rparr>\<rparr>"
      unfolding commit_def Let_def g persist_def SavedWithError after_change_def by simp
    moreover have "explains f (w\<lparr>ow_mem := (ow_mem w)\<lparr>om_disk := ?g\<rparr>\<rparr>)"
      using assms(1) near normal
      by (intro explains_mem) (auto simp: disk_near_def world_rev_def reg_of_def)
    ultimately show ?thesis by (auto simp: world_rev_def reg_of_def)
  qed
  then show "\<exists>f'. explains f' (after_change (commit sv ss (ow_mem w)) w)"
    and "world_rev (after_change (commit sv ss (ow_mem w)) w) \<in> {world_rev w, world_rev w + 1}" by blast+
qed

text \<open>Every outcome of the two operations is a refusal, no change, or a commit of a normal registry.\<close>

lemma replace_source_cases:
  assumes "normal_registry (om_reg m)"
  obtains (same) r where "replace_source sv s m = (r, m)" "\<And>c. r \<noteq> Inr (Changed c)"
  | (new) n where "normalize_source s = Inr n"
      "replace_source sv s m = commit sv (sort_sources (put_source n (og_sources (om_reg m)))) m"
      "\<And>r. normal_registry \<lparr>og_rev = r, og_sources = sort_sources (put_source n (og_sources (om_reg m)))\<rparr>"
proof (cases "normalize_source s")
  case (Inl x)
  then show thesis using same by (simp add: replace_source_def)
next
  case (Inr n)
  have normal: "normal_registry \<lparr>og_rev = r, og_sources = sort_sources (put_source n (og_sources (om_reg m)))\<rparr>" for r
    by (rule put_source_normal [OF assms source.norm_good [OF Inr]])
  show thesis
  proof (cases "source_of (og_sources (om_reg m)) (os_panel n)")
    case None
    then show ?thesis using Inr normal by (intro new) (simp_all add: replace_source_def)
  next
    case (Some c)
    consider "os_rev n < os_rev c" | "os_rev n = os_rev c" | "os_rev c < os_rev n" by fastforce
    then show ?thesis
    proof cases
      case 3
      then show ?thesis using Inr Some normal by (intro new) (auto simp: replace_source_def)
    next
      case 2
      then show ?thesis using Inr Some by (cases "c = n") (auto intro: same simp: replace_source_def)
    next
      case 1
      then show ?thesis using Inr Some by (intro same) (auto simp: replace_source_def)
    qed
  qed
qed

lemma remove_source_cases:
  assumes "normal_registry (om_reg m)"
  obtains (same) r where "remove_source sv p m = (r, m)" "\<And>c. r \<noteq> Inr (Changed c)"
  | (new) q where "remove_source sv p m = commit sv (drop_source q (og_sources (om_reg m))) m"
      "\<And>r. normal_registry \<lparr>og_rev = r, og_sources = drop_source q (og_sources (om_reg m))\<rparr>"
proof -
  let ?p = "to_lower (trim_space p)"
  consider "\<not> valid_panel_id ?p" | "valid_panel_id ?p" "source_of (og_sources (om_reg m)) ?p = None"
    | "valid_panel_id ?p" "source_of (og_sources (om_reg m)) ?p \<noteq> None" by blast
  then show thesis
  proof cases
    case 3
    then show ?thesis by (intro new [of ?p]) (auto simp: remove_source_def Let_def drop_source_normal [OF assms])
  next
    case 1
    then show ?thesis by (intro same [of "Err ''INVALID_REQUEST''"]) (simp_all add: remove_source_def)
  next
    case 2
    then show ?thesis by (intro same [of "Inr Unchanged"]) (simp_all add: remove_source_def)
  qed
qed

lemma explains_change:
  assumes "explains f w" and "world_rev w \<noteq> - 1"
  shows "\<exists>f'. explains f' (op_step w (now, OpReplace sv s))"
    and "\<exists>f'. explains f' (op_step w (now, OpRemove sv p))"
    and "world_rev (op_step w (now, OpReplace sv s)) \<in> {world_rev w, world_rev w + 1}"
    and "world_rev (op_step w (now, OpRemove sv p)) \<in> {world_rev w, world_rev w + 1}"
proof -
  have normal: "normal_registry (om_reg (ow_mem w))"
    using assms(1) by (simp add: explains_def disk_near_def)
  have stay: "after_change (r, ow_mem w) w = w" if "\<And>c. r \<noteq> Inr (Changed c)" for r
    using that by (simp add: after_change_def split: sum.split change.split)
  show "\<exists>f'. explains f' (op_step w (now, OpReplace sv s))"
    and "world_rev (op_step w (now, OpReplace sv s)) \<in> {world_rev w, world_rev w + 1}"
    using normal by (rule replace_source_cases [of "ow_mem w" sv s];
        use assms stay explains_commit [OF assms] in \<open>auto simp del: after_change_def\<close>)+
  show "\<exists>f'. explains f' (op_step w (now, OpRemove sv p))"
    and "world_rev (op_step w (now, OpRemove sv p)) \<in> {world_rev w, world_rev w + 1}"
    using normal by (rule remove_source_cases [of "ow_mem w" sv p];
        use assms stay explains_commit [OF assms] in \<open>auto simp del: after_change_def\<close>)+
qed

section \<open>The plugin\<close>

lemma plugin_replace_holds:
  assumes "known_cat f r c" and "holds f r q"
  shows "holds f r (snd (plugin_replace c n m q))"
    and "fst (plugin_replace c n m q) \<notin> {Refused ''REVISION_CONFLICT'', Refused ''INVALID_REQUEST''}"
    and "pl_rev (snd (plugin_replace c n m q)) =
      Some (case pl_rev q of None \<Rightarrow> oc_rev c | Some v \<Rightarrow> max v (oc_rev c))"
proof -
  have c: "oc_rev c \<le> r" "f (oc_rev c) = (oc_active c, oc_ops c)" "distinct (map oe_uuid (oc_ops c))"
    using assms(1) by (simp_all add: known_cat_def content_def)
  have "holds f r (snd (plugin_replace c n m q)) \<and>
    fst (plugin_replace c n m q) \<notin> {Refused ''REVISION_CONFLICT'', Refused ''INVALID_REQUEST''} \<and>
    pl_rev (snd (plugin_replace c n m q)) =
      Some (case pl_rev q of None \<Rightarrow> oc_rev c | Some v \<Rightarrow> max v (oc_rev c))"
  proof (cases "pl_rev q")
    case None
    then show ?thesis using c by (simp add: plugin_replace_def holds_def)
  next
    case (Some v)
    then have v: "v \<le> r" "pl_active q = fst (f v)" "pl_ops q = set (snd (f v))"
      using assms(2) by (simp_all add: holds_def)
    consider "oc_rev c < v" | "oc_rev c = v" | "v < oc_rev c" by fastforce
    then show ?thesis
    proof cases
      case 1
      then have "\<not> v \<le> oc_rev c" by simp
      then show ?thesis using 1 Some c v by (simp add: plugin_replace_def holds_def max_def)
    next
      case 2
      then show ?thesis using Some c v by (simp add: plugin_replace_def holds_def)
    next
      case 3
      then have "\<not> oc_rev c < v" "v \<le> oc_rev c" "oc_rev c \<noteq> v" by auto
      then show ?thesis using 3 Some c v by (simp add: plugin_replace_def holds_def max_def)
    qed
  qed
  then show "holds f r (snd (plugin_replace c n m q))"
    and "fst (plugin_replace c n m q) \<notin> {Refused ''REVISION_CONFLICT'', Refused ''INVALID_REQUEST''}"
    and "pl_rev (snd (plugin_replace c n m q)) =
      Some (case pl_rev q of None \<Rightarrow> oc_rev c | Some v \<Rightarrow> max v (oc_rev c))" by blast+
qed

lemma known_push:
  assumes "explains f w" and "j < length (ow_pushes w)"
  shows "known_cat f (world_rev w) (pu_cat (ow_pushes w ! j))"
  using assms by (simp add: explains_def cats_def)

lemma explains_upd_push:
  assumes "explains f w" and "\<And>p. pu_cat (h p) = pu_cat p"
  shows "explains f (upd_push j h w)"
  using assms(1) by (rule explains_frame) (auto simp: cats_upd_push [OF assms(2)])

lemma explains_deliver:
  assumes "explains f w"
  shows "explains f (deliver j n r w)"
proof (cases "j < length (ow_pushes w)")
  case True
  show ?thesis
  proof (cases "pu_conn (ow_pushes w ! j)")
    case None
    then show ?thesis using assms by (simp add: deliver_def)
  next
    case (Some conn)
    let ?k = "ow_conns w ! conn"
    show ?thesis
    proof (cases "conn < length (ow_conns w) \<and> ?k < length (ow_plugins w)")
      case False
      then show ?thesis using assms Some by (auto simp: deliver_def)
    next
      case up: True
      obtain a q where aq: "plugin_replace (pu_cat (ow_pushes w ! j)) n r (ow_plugins w ! ?k) = (a, q)"
        by (cases "plugin_replace (pu_cat (ow_pushes w ! j)) n r (ow_plugins w ! ?k)")
      have "holds f (world_rev w) (ow_plugins w ! ?k)" using assms up by (simp add: explains_def)
      then have q: "holds f (world_rev w) q"
        using plugin_replace_holds(1) [OF known_push [OF assms True]] aq by (metis snd_conv)
      let ?w = "w\<lparr>ow_plugins := (ow_plugins w)[?k := q]\<rparr>"
      have "explains f ?w"
        using assms q set_update_subset_insert [of "ow_plugins w" ?k q]
        by (auto simp: explains_def reg_of_def world_rev_def cats_def)
      moreover have "deliver j n r w = upd_push j (\<lambda>x. x\<lparr>pu_conn := None,
          pu_state := (if pu_state x = Waiting then Answered a else pu_state x)\<rparr>) ?w"
        using True Some up aq by (simp add: deliver_def)
      ultimately show ?thesis
        by (simp add: explains_upd_push)
    qed
  qed
qed (use assms in \<open>simp add: deliver_def\<close>)

section \<open>The other steps\<close>

lemma explains_connect:
  assumes "explains f w"
  shows "explains f (connect n k w)"
  using assms by (rule explains_frame) (auto simp: connect_def Let_def cats_def new_plugin_def split: if_splits)

lemma explains_restore:
  assumes "explains f w"
  shows "explains f (restore n w)"
  using assms by (rule explains_frame)
    (auto simp: restore_def Let_def cats_def new_push_def reg_of_def split: option.splits if_splits)

lemma explains_begin:
  assumes "explains f w"
  shows "explains f (begin_push now j w)"
  using assms by (rule explains_frame) (auto simp: begin_push_def Let_def cats_upd_push split: option.splits if_splits)

lemma explains_lose:
  assumes "explains f w"
  shows "explains f (lose j e w)"
  using assms by (rule explains_frame) (auto simp: lose_def cats_upd_push split: if_splits)

lemma explains_finish:
  assumes "explains f w"
  shows "explains f (finish_push now j w)"
  using assms by (rule explains_frame) (auto simp: finish_push_def cats_upd_push split: push_state.splits if_splits)

lemma explains_upd_inst:
  assumes "explains f w"
  shows "explains f (upd_op_inst n h w)"
  using assms by (rule explains_frame) auto

lemma explains_restart:
  assumes "explains f w" and "world_rev w \<noteq> - 1"
  shows "\<exists>f'. explains f' (restart_daemon w)"
    and "world_rev (restart_daemon w) \<in> {world_rev w, world_rev w + 1}"
proof -
  let ?d = "om_disk (ow_mem w)"
  have near: "disk_near (ow_mem w)" using assms(1) by (simp add: explains_def)
  then have conf: "configure_operators ?d = Inr \<lparr>om_reg = ?d, om_disk = ?d\<rparr>"
    by (simp add: configure_operators_def disk_near_def registry.good_fixed)
  let ?w = "restart_daemon w"
  have w': "reg_of ?w = ?d" "ow_plugins ?w = ow_plugins w" "cats ?w = cats w" "disk_near (ow_mem ?w)"
    using near by (auto simp: restart_daemon_def conf reg_of_def cats_def disk_near_def image_image)
  have "(\<exists>f'. explains f' ?w) \<and> world_rev ?w \<in> {world_rev w, world_rev w + 1}"
  proof (cases "?d = reg_of w")
    case True
    then have "explains f ?w" using assms(1) w' by (simp add: explains_def world_rev_def)
    then show ?thesis using True w'(1) by (auto simp: world_rev_def)
  next
    case False
    then have rev: "world_rev ?w = world_rev w + 1"
      using near w'(1) by (simp add: disk_near_def world_rev_def reg_of_def)
    then have "\<exists>f'. explains f' ?w"
      using explains_new_registry [OF assms(1), of ?w] w' word_inc_greater [OF assms(2)] by fastforce
    then show ?thesis using rev by simp
  qed
  then show "\<exists>f'. explains f' (restart_daemon w)"
    and "world_rev (restart_daemon w) \<in> {world_rev w, world_rev w + 1}" by blast+
qed

section \<open>Every step, and every run\<close>

lemma world_rev_frame: "ow_mem w' = ow_mem w \<Longrightarrow> world_rev w' = world_rev w"
  by (simp add: world_rev_def reg_of_def)

lemma frame_steps [simp]:
  "ow_mem (connect n k w) = ow_mem w" "ow_mem (restore n w) = ow_mem w"
  "ow_mem (begin_push now j w) = ow_mem w" "ow_mem (deliver j m r w) = ow_mem w"
  "ow_mem (lose j e w) = ow_mem w" "ow_mem (finish_push now j w) = ow_mem w"
  by (auto simp: connect_def restore_def begin_push_def deliver_def lose_def finish_push_def Let_def
      split: option.splits prod.splits push_state.splits)

lemma explains_step:
  assumes "explains f w" and "world_rev w \<noteq> - 1"
  shows "\<exists>f'. explains f' (op_step w (now, x))"
    and "world_rev (op_step w (now, x)) \<in> {world_rev w, world_rev w + 1}"
proof -
  have quiet: "(\<exists>f'. explains f' w') \<and> world_rev w' \<in> {world_rev w, world_rev w + 1}"
    if "explains f w'" and "ow_mem w' = ow_mem w" for w'
    using that world_rev_frame by blast
  have "(\<exists>f'. explains f' (op_step w (now, x))) \<and>
      world_rev (op_step w (now, x)) \<in> {world_rev w, world_rev w + 1}"
  proof (cases x)
    case (OpReplace sv s)
    then show ?thesis using explains_change [OF assms] by blast
  next
    case (OpRemove sv p)
    then show ?thesis using explains_change [OF assms] by blast
  next
    case (OpConnect n k)
    then show ?thesis using quiet [OF explains_connect [OF assms(1)]] by simp
  next
    case (OpDisconnect n conn)
    then show ?thesis using quiet [OF explains_upd_inst [OF assms(1)]] by simp
  next
    case (OpExit n)
    then show ?thesis using quiet [OF explains_upd_inst [OF assms(1)]] by simp
  next
    case (OpRestore n)
    then show ?thesis using quiet [OF explains_restore [OF assms(1)]] by simp
  next
    case (OpBegin j)
    then show ?thesis using quiet [OF explains_begin [OF assms(1)]] by simp
  next
    case (OpDeliver j n r)
    then show ?thesis using quiet [OF explains_deliver [OF assms(1)]] by simp
  next
    case (OpLose j e)
    then show ?thesis using quiet [OF explains_lose [OF assms(1)]] by simp
  next
    case (OpFinish j)
    then show ?thesis using quiet [OF explains_finish [OF assms(1)]] by simp
  next
    case OpRestart
    then show ?thesis using explains_restart [OF assms] by simp
  qed
  then show "\<exists>f'. explains f' (op_step w (now, x))"
    and "world_rev (op_step w (now, x)) \<in> {world_rev w, world_rev w + 1}" by blast+
qed

text \<open>A daemon that has just started, with what was in its file and the instances it knows.\<close>

definition started :: "op_registry \<Rightarrow> (string, op_inst) gomap \<Rightarrow> op_world" where
  "started g insts = \<lparr>ow_mem = \<lparr>om_reg = g, om_disk = g\<rparr>, ow_insts = insts, ow_plugins = [],
     ow_conns = [], ow_pushes = []\<rparr>"

definition explained :: "op_world \<Rightarrow> bool" where
  "explained w \<longleftrightarrow> (\<exists>f. explains f w)"

lemma explained_started:
  assumes "normal_registry g"
  shows "explained (started g insts)"
proof -
  have "explains (\<lambda>_. content (catalog_of g)) (started g insts)"
    using assms
    by (simp add: explains_def started_def disk_near_def known_cat_def cats_def reg_of_def world_rev_def catalog_keys)
  then show ?thesis unfolding explained_def by blast
qed

interpretation op_machine: safe_machine
  "\<lambda>w. \<exists>g insts. normal_registry g \<and> w = started g insts" "\<lambda>w x. world_rev w \<noteq> - 1" op_step explained
proof
  show "explained w" if "\<exists>g insts. normal_registry g \<and> w = started g insts" for w
    using that explained_started by blast
  show "explained (op_step w x)" if "explained w" "world_rev w \<noteq> - 1" for w x
    using that explains_step [of _ w "fst x" "snd x"] by (auto simp: explained_def)
qed

text \<open>A run that is short enough for the revision does not wrap.\<close>

lemma short_run_permitted:
  assumes "explained w" and "unat (world_rev w) + length xs < 2 ^ 64"
  shows "run_permitted (\<lambda>w x. world_rev w \<noteq> - 1) op_step w xs"
  using assms
proof (induction xs arbitrary: w)
  case (Cons x xs)
  have small: "world_rev w \<noteq> - 1"
  proof
    assume "world_rev w = - 1"
    then have "unat (world_rev w) = 2 ^ 64 - 1"
      by (simp add: unsigned_minus_1_eq_mask mask_eq_exp_minus_1)
    then show False using Cons.prems(2) by simp
  qed
  obtain f where f: "explains f w" using Cons.prems(1) by (auto simp: explained_def)
  have "world_rev (op_step w x) \<in> {world_rev w, world_rev w + 1}"
    using explains_step(2) [OF f small, of "fst x" "snd x"] by simp
  then have "unat (world_rev (op_step w x)) + length xs < 2 ^ 64"
    using Cons.prems(2) word_inc_unat [OF small] by auto
  moreover have "explained (op_step w x)"
    using op_machine.step_inv Cons.prems(1) small by blast
  ultimately show ?case using Cons.IH small by simp
qed simp

lemma run_explained:
  assumes "normal_registry g" and "unat (og_rev g) + length xs < 2 ^ 64"
  shows "explained (run_steps op_step (started g insts) xs)"
proof (rule op_machine.run_inv)
  show "run_permitted (\<lambda>w x. world_rev w \<noteq> - 1) op_step (started g insts) xs"
    by (rule short_run_permitted [OF explained_started [OF assms(1)]])
      (use assms(2) in \<open>simp add: world_rev_def reg_of_def started_def\<close>)
qed (use assms(1) in blast)

end
