(* ===== verification/PanelOperators_Laws.thy ===== *)
theory PanelOperators_Laws
  imports PanelOperators OperatorSync_Laws
begin

text \<open>
  The panel, its messages on the way, and one daemon as a machine: requests change the panel's
  table, readers take the revision and the list in two statements, what they found is sent, and a
  message may arrive at any later time, more than once, or never. Other panels use the daemon as
  well. The invariant ties the daemon's source to the panel's table.
\<close>

section \<open>The identifiers are normalised the same way on both sides\<close>

lemma normalize_minecraft_uuid_eq: "normalize_minecraft_uuid v = normalize_uuid v"
  by (simp add: normalize_minecraft_uuid_def normalize_uuid_def dashed_def Let_def)

section \<open>Every change of the table moves the revision\<close>

definition rows_ok :: "operator_row list \<Rightarrow> bool" where
  "rows_ok rs \<longleftrightarrow> list_all normal_entry (map operator_entry rs) \<and> distinct (map or_uuid rs)"

definition grows :: "oper_db \<Rightarrow> oper_db \<Rightarrow> bool" where
  "grows d d' \<longleftrightarrow> od_panel d' = od_panel d \<and> (rows_ok (od_ops d) \<longrightarrow> rows_ok (od_ops d')) \<and>
     (d' = d \<or> od_rev d < od_rev d')"

interpretation growing: preserved grows
  by unfold_locales (auto simp: grows_def)

lemma bump_yields:
  "yields (bump now) d w x d' w' \<Longrightarrow> d' = d\<lparr>od_rev := od_rev d + 1, od_updated := now\<rparr> \<and> od_rev d < od_rev d'"
  unfolding bump_def by (drule exec_if_yields) (auto simp: word_inc_greater split: if_splits)

lemma put_body_grows:
  assumes "yields (put_body k now u name by by_name) d w x d' w'"
    and u: "normalize_uuid u = Some u" and name: "trim_space name = name" "rune_count name \<le> 64"
  shows "grows d d'"
proof (cases "find (row_is k u) (od_ops d)")
  case None
  then have fresh: "u \<notin> or_uuid ` set (od_ops d)" by (auto simp: find_None_iff row_is_def)
  have "d' = d\<lparr>od_ops := od_ops d @ [\<lparr>or_uuid = u, or_name = name, or_by = by, or_by_name = by_name,
      or_created = now, or_updated = now\<rparr>], od_rev := od_rev d + 1, od_updated := now\<rparr> \<and> od_rev d < od_rev d'"
    using assms(1) None unfolding put_body_def act_simps
    by (auto simp: act_simps dest!: query_yields exec_yields bump_yields)
  then show ?thesis using fresh u name
    by (auto simp: grows_def rows_ok_def operator_entry_def normal_entry_def)
next
  case (Some r)
  show ?thesis
  proof (cases "or_name r = name")
    case True
    then have "d' = d" using assms(1) Some unfolding put_body_def act_simps
      by (auto dest!: query_yields simp: act_simps)
    then show ?thesis by (simp add: growing.refl)
  next
    case False
    let ?rows = "update_rows (row_is k u) (\<lambda>r. r\<lparr>or_name := name, or_updated := now\<rparr>) (od_ops d)"
    have d': "d' = d\<lparr>od_ops := ?rows, od_rev := od_rev d + 1, od_updated := now\<rparr> \<and> od_rev d < od_rev d'"
      using assms(1) Some False unfolding put_body_def act_simps
      by (auto dest!: query_yields exec_yields bump_yields simp: act_simps)
    have "map or_uuid ?rows = map or_uuid (od_ops d)" by (simp add: update_rows_def)
    moreover have "list_all normal_entry (map operator_entry (od_ops d)) \<Longrightarrow> list_all normal_entry (map operator_entry ?rows)"
      using name by (auto simp: list_all_iff update_rows_def operator_entry_def normal_entry_def)
    ultimately show ?thesis using d' by (auto simp: grows_def rows_ok_def)
  qed
qed

lemma put_tx_grows: "keeps grows (put_tx k now uuid name by by_name)"
proof (cases "normalize_minecraft_uuid uuid")
  case None
  then show ?thesis by (simp add: put_tx_def growing.keep_raise)
next
  case (Some u)
  then have "normalize_uuid u = Some u"
    using normalize_uuid_fixed by (simp add: normalize_minecraft_uuid_eq)
  then show ?thesis using Some
    by (auto simp: put_tx_def growing.keep_raise intro!: growing.keep_tx dest: put_body_grows)
qed

lemma delete_body_grows:
  assumes "yields (delete_body k now u) d w x d' w'"
  shows "grows d d'"
proof -
  have "d' = d\<lparr>od_ops := filter (\<lambda>r. \<not> row_is k u r) (od_ops d), od_rev := od_rev d + 1, od_updated := now\<rparr> \<and>
      od_rev d < od_rev d'"
    using assms unfolding delete_body_def act_simps by (auto dest!: stmt_yields bump_yields)
  then show ?thesis by (auto simp: grows_def rows_ok_def list_all_iff distinct_map_filter)
qed

lemma delete_tx_grows: "keeps grows (delete_tx k now uuid)"
  by (cases "normalize_minecraft_uuid uuid")
    (auto simp: delete_tx_def growing.keep_raise intro!: growing.keep_tx dest: delete_body_grows)

lemma activate_grows: "keeps grows (activate_stmt now)"
  unfolding activate_stmt_def
  by (rule growing.keep_exec_if) (auto simp: grows_def word_inc_greater split: if_splits)

section \<open>The machine\<close>

record pipe =
  pi_db :: oper_db
  pi_half :: "oper_state list"
  pi_sent :: "op_source list"
  pi_mem :: op_memory

datatype pipe_op =
    PiPut int string string string string "outcome list"
  | PiDelete int string "outcome list"
  | PiActivate int "outcome list"
  | PiRead
  | PiSend nat
  | PiDeliver nat save_outcome
  | PiForget save_outcome
  | PiOther save_outcome op_source
  | PiOtherGone save_outcome string
  | PiRestart

definition act_on :: "(oper_db, 'a) dact \<Rightarrow> outcome list \<Rightarrow> pipe \<Rightarrow> pipe" where
  "act_on m outs w = w\<lparr>pi_db := fst (snd (m (pi_db w) outs))\<rparr>"

definition read_half :: "pipe \<Rightarrow> pipe" where
  "read_half w = (case read_state (pi_db w) [] of (Inr s, _) \<Rightarrow> w\<lparr>pi_half := pi_half w @ [s]\<rparr> | _ \<Rightarrow> w)"

definition send :: "collation \<Rightarrow> nat \<Rightarrow> pipe \<Rightarrow> pipe" where
  "send k i w =
     (if i < length (pi_half w)
      then (case read_operators k (pi_half w ! i) (pi_db w) [] of
              (Inr s, _) \<Rightarrow> (case reconcile_call True s of
                               Inr (ReplaceSource m) \<Rightarrow> w\<lparr>pi_sent := pi_sent w @ [m]\<rparr> | _ \<Rightarrow> w)
            | _ \<Rightarrow> w)
      else w)"

definition arrive :: "nat \<Rightarrow> save_outcome \<Rightarrow> pipe \<Rightarrow> pipe" where
  "arrive j sv w =
     (if j < length (pi_sent w) then w\<lparr>pi_mem := snd (replace_source sv (pi_sent w ! j) (pi_mem w))\<rparr> else w)"

definition reload :: "pipe \<Rightarrow> pipe" where
  "reload w = (case configure_operators (om_disk (pi_mem w)) of Inl _ \<Rightarrow> w | Inr m \<Rightarrow> w\<lparr>pi_mem := m\<rparr>)"

fun pipe_step :: "collation \<Rightarrow> pipe \<Rightarrow> pipe_op \<Rightarrow> pipe" where
  "pipe_step k w (PiPut now u n b bn outs) = act_on (put_tx k now u n b bn) outs w"
| "pipe_step k w (PiDelete now u outs) = act_on (delete_tx k now u) outs w"
| "pipe_step k w (PiActivate now outs) = act_on (activate_stmt now) outs w"
| "pipe_step k w PiRead = read_half w"
| "pipe_step k w (PiSend i) = send k i w"
| "pipe_step k w (PiDeliver j sv) = arrive j sv w"
| "pipe_step k w (PiForget sv) = w\<lparr>pi_mem := snd (remove_source sv (od_panel (pi_db w)) (pi_mem w))\<rparr>"
| "pipe_step k w (PiOther sv s) = w\<lparr>pi_mem := snd (replace_source sv s (pi_mem w))\<rparr>"
| "pipe_step k w (PiOtherGone sv p) = w\<lparr>pi_mem := snd (remove_source sv p (pi_mem w))\<rparr>"
| "pipe_step k w PiRestart = reload w"

text \<open>What other panels send carries another identifier.\<close>

fun foreign :: "pipe \<Rightarrow> pipe_op \<Rightarrow> bool" where
  "foreign w (PiOther sv s) = (to_lower (trim_space (os_panel s)) \<noteq> od_panel (pi_db w))"
| "foreign w (PiOtherGone sv p) = (to_lower (trim_space p) \<noteq> od_panel (pi_db w))"
| "foreign w _ = True"

section \<open>The invariant\<close>

definition table_of :: "oper_db \<Rightarrow> op_entry list" where
  "table_of d = sort_key oe_uuid (map operator_entry (od_ops d))"

definition source_fits :: "oper_db \<Rightarrow> op_registry \<Rightarrow> bool" where
  "source_fits d g \<longleftrightarrow> normal_registry g \<and>
     (\<forall>s \<in> set (og_sources g). os_panel s = od_panel d \<longrightarrow>
        os_rev s \<le> od_rev d \<and> (os_rev s = od_rev d \<longrightarrow> os_ops s = table_of d))"

definition message_fits :: "oper_db \<Rightarrow> op_source \<Rightarrow> bool" where
  "message_fits d m \<longleftrightarrow> os_panel m = od_panel d \<and> os_rev m \<le> od_rev d \<and>
     (os_rev m = od_rev d \<longrightarrow> sort_key oe_uuid (os_ops m) = table_of d \<and> set (os_ops m) = set (table_of d) \<and>
        distinct (map oe_uuid (os_ops m)))"

definition in_step :: "pipe \<Rightarrow> bool" where
  "in_step w \<longleftrightarrow> rows_ok (od_ops (pi_db w)) \<and> to_lower (trim_space (od_panel (pi_db w))) = od_panel (pi_db w) \<and>
     (\<forall>h \<in> set (pi_half w). ps_panel h = od_panel (pi_db w) \<and> ps_rev h \<le> od_rev (pi_db w)) \<and>
     (\<forall>m \<in> set (pi_sent w). message_fits (pi_db w) m) \<and>
     source_fits (pi_db w) (om_reg (pi_mem w)) \<and> source_fits (pi_db w) (om_disk (pi_mem w))"

lemma in_step_act:
  assumes "in_step w" and "keeps grows m"
  shows "in_step (act_on m outs w)"
proof -
  let ?d = "pi_db w" and ?d' = "fst (snd (m (pi_db w) outs))"
  have g: "grows ?d ?d'" using assms(2) by (simp add: keeps_def)
  show ?thesis
  proof (cases "?d' = ?d")
    case True
    then show ?thesis using assms(1) by (simp add: act_on_def)
  next
    case False
    then have less: "od_rev ?d < od_rev ?d'" and p: "od_panel ?d' = od_panel ?d"
      using g by (auto simp: grows_def)
    have old: "r \<le> od_rev ?d' \<and> r \<noteq> od_rev ?d'" if "r \<le> od_rev ?d" for r
      using that less by (auto dest: order.strict_trans1)
    have "message_fits ?d' x" if "message_fits ?d x" for x
      using that old p by (simp add: message_fits_def)
    moreover have "source_fits ?d' r" if "source_fits ?d r" for r
      using that old p by (simp add: source_fits_def)
    ultimately show ?thesis using assms(1) g p old
      by (simp add: in_step_def act_on_def grows_def)
  qed
qed

lemma in_step_read: "in_step w \<Longrightarrow> in_step (read_half w)"
  by (auto simp: in_step_def read_half_def read_state_def query_def stmt_def)

lemma distinct_map_sort: "distinct (map f (sort_key g xs)) \<longleftrightarrow> distinct (map f xs)"
  by (simp add: distinct_map)

lemma in_step_send:
  assumes "in_step w"
  shows "in_step (send k i w)"
proof (cases "i < length (pi_half w) \<and> ps_init (pi_half w ! i)")
  case True
  let ?d = "pi_db w" and ?h = "pi_half w ! i"
  let ?rows = "sort_key (\<lambda>r. (k_text k (or_name r), k_ascii k (or_uuid r))) (od_ops ?d)"
  let ?m = "\<lparr>os_panel = ps_panel ?h, os_rev = ps_rev ?h, os_ops = map operator_entry ?rows\<rparr>"
  have eq: "send k i w = w\<lparr>pi_sent := pi_sent w @ [?m]\<rparr>"
    using True by (simp add: send_def read_operators_def andthen_def query_def stmt_def ret_def
        reconcile_call_def source_message_def)
  have ok: "rows_ok (od_ops ?d)" and h: "ps_panel ?h = od_panel ?d" "ps_rev ?h \<le> od_rev ?d"
    using assms True by (simp_all add: in_step_def)
  have keys: "map oe_uuid (map operator_entry rs) = map or_uuid rs" for rs
    by (simp add: operator_entry_def)
  have dist: "distinct (map oe_uuid (map operator_entry ?rows))" "distinct (map oe_uuid (table_of ?d))"
    using ok unfolding table_of_def keys distinct_map_sort by (simp_all add: rows_ok_def)
  have "sort_key oe_uuid (map operator_entry ?rows) = table_of ?d"
    by (rule map_sorted_distinct_set_unique [where f = oe_uuid])
      (use dist in \<open>auto simp: table_of_def distinct_map inj_on_def\<close>)
  then have "message_fits ?d ?m"
    using h dist(1) by (simp add: message_fits_def table_of_def del: map_map)
  then show ?thesis using assms by (simp add: eq in_step_def)
next
  case False
  then have "send k i w = w"
    by (auto simp: send_def read_operators_def andthen_def query_def stmt_def ret_def reconcile_call_def)
  then show ?thesis using assms by simp
qed

section \<open>The daemon's side\<close>

lemma source_fits_commit:
  assumes "source_fits d (om_reg m)" and "source_fits d (om_disk m)"
    and "\<And>r. source_fits d \<lparr>og_rev = r, og_sources = ss\<rparr>"
  shows "source_fits d (om_reg (snd (commit sv ss m)))" and "source_fits d (om_disk (snd (commit sv ss m)))"
  using assms by (cases sv; simp add: commit_def persist_def Let_def)+

lemma source_fits_put:
  assumes fits: "source_fits d g" and n: "normal_source n"
    and own: "os_panel n = od_panel d \<Longrightarrow> os_rev n \<le> od_rev d \<and> (os_rev n = od_rev d \<longrightarrow> os_ops n = table_of d)"
  shows "source_fits d \<lparr>og_rev = r, og_sources = sort_sources (put_source n (og_sources g))\<rparr>"
proof -
  have "normal_registry \<lparr>og_rev = r, og_sources = sort_sources (put_source n (og_sources g))\<rparr>"
    by (rule put_source_normal [OF _ n]) (use fits in \<open>simp add: source_fits_def\<close>)
  then show ?thesis
    using fits own set_put_source [of n "og_sources g"] by (auto simp: source_fits_def sort_sources_def)
qed

lemma source_fits_drop:
  assumes fits: "source_fits d g"
  shows "source_fits d \<lparr>og_rev = r, og_sources = drop_source p (og_sources g)\<rparr>"
proof -
  have g: "normal_registry g" using fits by (simp add: source_fits_def)
  then have "distinct (map os_panel (og_sources g))" by (simp add: normal_registry_def)
  then show ?thesis
    using fits drop_source_normal [OF g] by (auto simp: source_fits_def drop_source_filter)
qed

lemma replace_source_fits:
  assumes fits: "source_fits d (om_reg m)" "source_fits d (om_disk m)"
    and own: "\<And>n. normalize_source s = Inr n \<Longrightarrow> os_panel n = od_panel d \<Longrightarrow>
      os_rev n \<le> od_rev d \<and> (os_rev n = od_rev d \<longrightarrow> os_ops n = table_of d)"
  shows "source_fits d (om_reg (snd (replace_source sv s m))) \<and> source_fits d (om_disk (snd (replace_source sv s m)))"
proof -
  have "normal_registry (om_reg m)" using fits(1) by (simp add: source_fits_def)
  then show ?thesis
  proof (rule replace_source_cases [of m sv s])
    fix n
    assume n: "normalize_source s = Inr n"
      and eq: "replace_source sv s m = commit sv (sort_sources (put_source n (og_sources (om_reg m)))) m"
    have "source_fits d \<lparr>og_rev = r, og_sources = sort_sources (put_source n (og_sources (om_reg m)))\<rparr>" for r
      by (rule source_fits_put [OF fits(1) source.norm_good [OF n] own [OF n]])
    then show ?thesis unfolding eq using source_fits_commit [OF fits] by blast
  qed (use fits in simp)
qed

lemma remove_source_fits:
  assumes fits: "source_fits d (om_reg m)" "source_fits d (om_disk m)"
  shows "source_fits d (om_reg (snd (remove_source sv p m))) \<and> source_fits d (om_disk (snd (remove_source sv p m)))"
proof -
  have "normal_registry (om_reg m)" using fits(1) by (simp add: source_fits_def)
  then show ?thesis
  proof (rule remove_source_cases [of m sv p])
    fix q
    assume eq: "remove_source sv p m = commit sv (drop_source q (og_sources (om_reg m))) m"
    show ?thesis unfolding eq
      using source_fits_commit [OF fits source_fits_drop [OF fits(1)]] by blast
  qed (use fits in simp)
qed

text \<open>A normalised source keeps its revision, and its operators when they were normal, in sorted order.\<close>

lemma normalize_source_parts:
  assumes "normalize_source s = Inr n"
  shows "os_panel n = to_lower (trim_space (os_panel s))" and "os_rev n = os_rev s"
    and "list_all normal_entry (os_ops s) \<Longrightarrow> distinct (map oe_uuid (os_ops s)) \<Longrightarrow>
      os_ops n = sort_key oe_uuid (os_ops s)"
  using assms by (auto simp: normalize_source_def Let_def normal_entries_fixed split: if_splits sum.splits)

lemma table_normal: "rows_ok (od_ops d) \<Longrightarrow> list_all normal_entry (table_of d)"
  by (simp add: rows_ok_def table_of_def list_all_iff)

lemma in_step_mem:
  assumes "in_step w" and "source_fits (pi_db w) (om_reg m) \<and> source_fits (pi_db w) (om_disk m)"
  shows "in_step (w\<lparr>pi_mem := m\<rparr>)"
  using assms by (simp add: in_step_def)

lemma in_step_arrive:
  assumes "in_step w"
  shows "in_step (arrive j sv w)"
proof (cases "j < length (pi_sent w)")
  case True
  let ?m = "pi_sent w ! j" and ?d = "pi_db w"
  have m: "message_fits ?d ?m" and ok: "rows_ok (od_ops ?d)"
    and fits: "source_fits ?d (om_reg (pi_mem w))" "source_fits ?d (om_disk (pi_mem w))"
    using assms True by (simp_all add: in_step_def)
  have "os_rev n \<le> od_rev ?d \<and> (os_rev n = od_rev ?d \<longrightarrow> os_ops n = table_of ?d)"
    if n: "normalize_source ?m = Inr n" for n
  proof -
    have "list_all normal_entry (os_ops ?m)" if "os_rev ?m = od_rev ?d"
      using m that table_normal [OF ok] by (simp add: message_fits_def list_all_iff)
    then show ?thesis
      using m normalize_source_parts [OF n] by (auto simp: message_fits_def)
  qed
  then show ?thesis
    using True assms replace_source_fits [OF fits] by (simp add: arrive_def in_step_mem)
qed (use assms in \<open>simp add: arrive_def\<close>)

lemma in_step_reload:
  assumes "in_step w"
  shows "in_step (reload w)"
proof -
  have d: "source_fits (pi_db w) (om_disk (pi_mem w))" using assms by (simp add: in_step_def)
  then have "configure_operators (om_disk (pi_mem w)) = Inr \<lparr>om_reg = om_disk (pi_mem w), om_disk = om_disk (pi_mem w)\<rparr>"
    by (simp add: configure_operators_def source_fits_def registry.good_fixed)
  then show ?thesis using assms d by (simp add: reload_def in_step_mem)
qed

lemma in_step_step:
  assumes "in_step w" and "foreign w x"
  shows "in_step (pipe_step k w x)"
proof -
  have fits: "source_fits (pi_db w) (om_reg (pi_mem w))" "source_fits (pi_db w) (om_disk (pi_mem w))"
    using assms(1) by (simp_all add: in_step_def)
  show ?thesis
  proof (cases x)
    case (PiOther sv s)
    have "os_panel n \<noteq> od_panel (pi_db w)" if "normalize_source s = Inr n" for n
      using assms(2) normalize_source_parts(1) [OF that] by (simp add: PiOther)
    then show ?thesis
      using assms(1) replace_source_fits [OF fits] by (auto simp: PiOther intro!: in_step_mem)
  qed (use assms(1) remove_source_fits [OF fits] in \<open>simp_all add: in_step_act put_tx_grows delete_tx_grows
      activate_grows in_step_read in_step_send in_step_arrive in_step_reload in_step_mem\<close>)
qed

text \<open>A panel whose table is in order, before anything was sent, and a daemon that does not know it.\<close>

definition fresh_pipe :: "pipe \<Rightarrow> bool" where
  "fresh_pipe w \<longleftrightarrow> rows_ok (od_ops (pi_db w)) \<and> to_lower (trim_space (od_panel (pi_db w))) = od_panel (pi_db w) \<and>
     pi_half w = [] \<and> pi_sent w = [] \<and> normal_registry (om_reg (pi_mem w)) \<and> om_disk (pi_mem w) = om_reg (pi_mem w) \<and>
     list_all (\<lambda>s. os_panel s \<noteq> od_panel (pi_db w)) (og_sources (om_reg (pi_mem w)))"

interpretation pipe_machine: safe_machine fresh_pipe foreign "pipe_step k" in_step for k
proof
  show "in_step w" if "fresh_pipe w" for w
    using that by (auto simp: fresh_pipe_def in_step_def source_fits_def list_all_iff)
qed (rule in_step_step)

end
