(* ===== verification/Operators_Props.thy ===== *)
theory Operators_Props
  imports PanelOperators_Laws
begin

text \<open>
  Properties of the operators from the panel's table over the daemon's registry to the plugins.
\<close>

section \<open>The catalog\<close>

text \<open>The catalog a daemon pushes carries the revision of the registry, is active exactly when some
  panel manages it, lists every UUID once in ascending order, and lists an entry exactly when it is
  the one the sources give for its UUID: the first with a name, or the first if none has one.\<close>

theorem catalog_is_union:
  "oc_rev (catalog_of g) = og_rev g \<and> oc_active (catalog_of g) = (og_sources g \<noteq> []) \<and>
   sorted (map oe_uuid (oc_ops (catalog_of g))) \<and> distinct (map oe_uuid (oc_ops (catalog_of g))) \<and>
   (e \<in> set (oc_ops (catalog_of g))) = (pick (all_entries g) (oe_uuid e) = Some e)"
  using catalog_keys [of g] by (simp add: catalog_set) (simp add: catalog_of_def)

section \<open>The plugins follow the registry\<close>

text \<open>C13: Whatever happens to a daemon that starts with a normal registry (requests, saves that fail
  or only seem to, pushes that overtake each other, answers and requests that are late or lost,
  processes and the daemon starting again): no plugin is ahead of the registry, a plugin at the
  revision of the registry holds exactly its catalog, and a catalog that still arrives is never
  refused as a conflict or as invalid and leaves the plugin at the greater of the two revisions.\<close>

theorem plugins_follow:
  assumes "normal_registry g" and "unat (og_rev g) + length xs < 2 ^ 64"
    and w: "w = run_steps op_step (started g insts) xs"
  shows "(\<forall>q \<in> set (ow_plugins w). case pl_rev q of None \<Rightarrow> True | Some v \<Rightarrow> v \<le> world_rev w \<and>
      (v = world_rev w \<longrightarrow> pl_active q = oc_active (catalog_of (reg_of w)) \<and>
         pl_ops q = set (oc_ops (catalog_of (reg_of w))))) \<and>
    (\<forall>p \<in> set (ow_pushes w). \<forall>q \<in> set (ow_plugins w).
      fst (plugin_replace (pu_cat p) n r q) \<notin> {Refused ''REVISION_CONFLICT'', Refused ''INVALID_REQUEST''} \<and>
      pl_rev (snd (plugin_replace (pu_cat p) n r q)) =
        Some (case pl_rev q of None \<Rightarrow> oc_rev (pu_cat p) | Some v \<Rightarrow> max v (oc_rev (pu_cat p))))"
proof -
  obtain f where f: "explains f w"
    using run_explained [OF assms(1,2)] w by (auto simp: explained_def)
  then have "known_cat f (world_rev w) (catalog_of (reg_of w))" by (simp add: explains_def)
  then have cur: "f (world_rev w) = (oc_active (catalog_of (reg_of w)), oc_ops (catalog_of (reg_of w)))"
    by (simp add: known_cat_def content_def world_rev_def)
  have plugs: "holds f (world_rev w) q" if "q \<in> set (ow_plugins w)" for q
    using f that by (simp add: explains_def)
  have cats: "known_cat f (world_rev w) (pu_cat p)" if "p \<in> set (ow_pushes w)" for p
    using f that by (simp add: explains_def cats_def)
  have "case pl_rev q of None \<Rightarrow> True | Some v \<Rightarrow> v \<le> world_rev w \<and>
      (v = world_rev w \<longrightarrow> pl_active q = oc_active (catalog_of (reg_of w)) \<and>
         pl_ops q = set (oc_ops (catalog_of (reg_of w))))" if "q \<in> set (ow_plugins w)" for q
    using plugs [OF that] cur by (auto simp: holds_def split: option.splits)
  then show ?thesis using plugin_replace_holds(2,3) cats plugs by blast
qed

text \<open>A daemon with one panel and one game server: its plugin connects, then the source changes.\<close>

definition demo_entry :: op_entry where
  "demo_entry = \<lparr>oe_uuid = ''00000000-0000-0000-0000-000000000001'', oe_name = ''ann''\<rparr>"

definition demo_source :: "64 word \<Rightarrow> op_source" where
  "demo_source r = \<lparr>os_panel = ''0123456789abcdef0123456789abcdef'', os_rev = r, os_ops = [demo_entry]\<rparr>"

definition demo_registry :: op_registry where
  "demo_registry = \<lparr>og_rev = 4, og_sources = [demo_source 7]\<rparr>"

definition demo_insts :: "(string, op_inst) gomap" where
  "demo_insts = [(''s1'', \<lparr>oi_managed = True, oi_proxy = False, oi_conn = None, oi_sync = no_sync\<rparr>)]"

definition demo_run :: "(int \<times> op_op) list" where
  "demo_run = [(1, OpConnect ''s1'' 0), (2, OpRestore ''s1''), (3, OpBegin 0), (4, OpDeliver 0 1 0), (5, OpFinish 0)]"

lemma demo_normal: "normal_registry demo_registry"
  by code_simp

theorem plugins_follow_witness:
  "map pl_rev (ow_plugins (run_steps op_step (started demo_registry demo_insts) demo_run)) = [Some 4] \<and>
   list_all (\<lambda>q. pl_ops q = {demo_entry}) (ow_plugins (run_steps op_step (started demo_registry demo_insts) demo_run))"
proof
  let ?w = "run_steps op_step (started demo_registry demo_insts) demo_run"
  have short: "unat (og_rev demo_registry) + length demo_run < 2 ^ 64"
    by (simp add: demo_registry_def demo_run_def)
  have revs: "map pl_rev (ow_plugins ?w) = [Some 4]" "world_rev ?w = 4" by code_simp+
  then show "map pl_rev (ow_plugins ?w) = [Some 4]" by blast
  have "set (oc_ops (catalog_of (reg_of ?w))) = {demo_entry}"
    by code_simp
  moreover have "pl_rev q = Some 4" if "q \<in> set (ow_plugins ?w)" for q
    using revs(1) that by (metis imageI list.set_map list.set(1) list.set(2) singletonD)
  ultimately show "list_all (\<lambda>q. pl_ops q = {demo_entry}) (ow_plugins ?w)"
    using plugins_follow [OF demo_normal short refl, of demo_insts] revs(2) by (fastforce simp: list_all_iff)
qed

section \<open>Panel and daemon in step\<close>

text \<open>C12: Over all interleavings of changes of the panel's table (with any outcome of the statements),
  reads in two statements, messages that arrive late, repeatedly or never, failed saves and restarts
  of the daemon, and other panels' requests: the daemon's source of this panel is never ahead of the
  table, and at the table's revision it lists exactly the table's operators.\<close>

theorem panel_daemon_in_step:
  assumes "fresh_pipe w0" and "run_permitted foreign (pipe_step k) w0 xs"
    and "w = run_steps (pipe_step k) w0 xs"
    and "source_of (og_sources (om_reg (pi_mem w))) (od_panel (pi_db w)) = Some s"
  shows "os_rev s \<le> od_rev (pi_db w) \<and> (os_rev s = od_rev (pi_db w) \<longrightarrow> os_ops s = table_of (pi_db w))"
proof -
  have "source_fits (pi_db w) (om_reg (pi_mem w))"
    using pipe_machine.run_inv [OF assms(1,2)] assms(3) by (simp add: in_step_def)
  then show ?thesis using assms(4) by (simp add: source_fits_def normal_registry_def source_of_distinct)
qed

definition demo_pipe :: pipe where
  "demo_pipe = \<lparr>pi_db = \<lparr>od_panel = ''0123456789abcdef0123456789abcdef'', od_rev = 7, od_init = True,
      od_updated = 0, od_ops = []\<rparr>, pi_half = [], pi_sent = [],
     pi_mem = \<lparr>om_reg = \<lparr>og_rev = 0, og_sources = []\<rparr>, om_disk = \<lparr>og_rev = 0, og_sources = []\<rparr>\<rparr>\<rparr>"

text \<open>The list of revision 8 is sent under revision 7, because the change comes between the statements.\<close>

definition torn_run :: "pipe_op list" where
  "torn_run = [PiRead, PiPut 1 ''00000000-0000-0000-0000-000000000001'' ''ann'' ''u'' ''adm'' [], PiSend 0,
     PiDeliver 0 Saved]"

definition plain_collation :: collation where
  "plain_collation = \<lparr>k_ascii = id, k_text = id, k_like = (\<lambda>_ _. False)\<rparr>"

theorem panel_daemon_in_step_witness:
  "let w = run_steps (pipe_step plain_collation) demo_pipe (torn_run @ [PiRead, PiSend 1, PiDeliver 1 Saved]) in
   map os_rev (og_sources (om_reg (pi_mem w))) = [8] \<and> od_rev (pi_db w) = 8 \<and>
   map os_ops (og_sources (om_reg (pi_mem w))) = [table_of (pi_db w)]"
proof -
  let ?xs = "torn_run @ [PiRead, PiSend 1, PiDeliver 1 Saved]"
  let ?w = "run_steps (pipe_step plain_collation) demo_pipe ?xs"
  have fresh: "fresh_pipe demo_pipe" by code_simp
  have perm: "run_permitted foreign (pipe_step plain_collation) demo_pipe ?xs" by (simp add: torn_run_def)
  have revs: "map os_rev (og_sources (om_reg (pi_mem ?w))) = [8]" "od_rev (pi_db ?w) = 8"
    "map os_panel (og_sources (om_reg (pi_mem ?w))) = [od_panel (pi_db ?w)]" by code_simp+
  then obtain s where s: "og_sources (om_reg (pi_mem ?w)) = [s]" by auto
  then have "source_of (og_sources (om_reg (pi_mem ?w))) (od_panel (pi_db ?w)) = Some s"
    using revs(3) by (simp add: source_of_def)
  then have "os_ops s = table_of (pi_db ?w)"
    using panel_daemon_in_step [OF fresh perm refl] revs s by simp
  then show ?thesis using revs s by (simp add: Let_def)
qed

section \<open>Reconciliation\<close>




section \<open>A stopped server is reported as synced\<close>

lemma aget_upd_op_inst:
  "aget (ow_insts (upd_op_inst n h w)) m = (if m = n then map_option h (aget (ow_insts w) m) else aget (ow_insts w) m)"
proof -
  have "aget (map (\<lambda>(k, i). (k, if k = n then h i else i)) is) m =
      (if m = n then map_option h (aget is m) else aget is m)" for "is"
    by (induction "is") (auto simp: aget_Cons)
  then show ?thesis by (simp add: upd_op_inst_def)
qed

text \<open>C34: When the recording of a process exit comes before the close of its plugin connection, the
  close does nothing, and the stopped server is still reported as synced; in the other order it is
  reported as pending.\<close>

theorem stopped_stays_synced:
  assumes "aget (ow_insts w) n = Some i" and "oi_conn i = Some c" and "sy_state (oi_sync i) = ''synced''"
  shows "aget (ow_insts (run_steps op_step w [(t, OpExit n), (u, OpDisconnect n c)])) n =
      Some (i\<lparr>oi_conn := None\<rparr>) \<and>
    target_status now (reg_of w) (i\<lparr>oi_conn := None\<rparr>) = oi_sync i \<and>
    map_option (\<lambda>i. sy_state (oi_sync i))
      (aget (ow_insts (run_steps op_step w [(t, OpDisconnect n c), (u, OpExit n)])) n) = Some ''pending''"
  using assms by (simp add: aget_upd_op_inst process_exit_def plugin_down_def target_status_def)

theorem stopped_stays_synced_witness:
  "let w = run_steps op_step (started demo_registry demo_insts) (demo_run @ [(6, OpExit ''s1''), (7, OpDisconnect ''s1'' 0)])
   in map_option oi_conn (aget (ow_insts w) ''s1'') = Some None \<and>
      map_option (\<lambda>i. sy_state (oi_sync i)) (aget (ow_insts w) ''s1'') = Some ''synced''"
proof -
  let ?w = "run_steps op_step (started demo_registry demo_insts) demo_run"
  have "map_option oi_conn (aget (ow_insts ?w) ''s1'') = Some (Some 0)"
    and "map_option (\<lambda>i. sy_state (oi_sync i)) (aget (ow_insts ?w) ''s1'') = Some ''synced''" by code_simp+
  then obtain i where "aget (ow_insts ?w) ''s1'' = Some i" "oi_conn i = Some 0" "sy_state (oi_sync i) = ''synced''"
    by auto
  then show ?thesis using stopped_stays_synced [of ?w "''s1''" i 0 6 7] by (simp add: Let_def run_steps_append)
qed

end
