(* ===== verification/FileTree.thy ===== *)
theory FileTree
  imports PanelAction GoPath "HOL-Library.List_Lexorder" "HOL-Library.Char_ord"
begin

text \<open>
  The file system below a working directory, as the daemon's file service (daemon/internal/files)
  sees it, and the system calls it makes. A path is the list of names from the working directory. A
  call is an action of PanelAction whose tables are the tree: it may fail for reasons of its own, so
  that every sequence of outcomes is considered. \<open>ENOENT\<close> and \<open>EEXIST\<close> are the errors the code tests
  for. Times are left out. Other processes do not change the tree between two calls.
\<close>

section \<open>Trees\<close>

text \<open>A symbolic link carries what it leads to, \<open>None\<close> when it is broken.\<close>

datatype tree =
    Reg (reg_mode: int) (reg_bytes: string)
  | Folder (folder_mode: int) (folder_entries: "(string \<times> tree) list")
  | Link "tree option"
  | Special

type_synonym disk = "tree option"

type_synonym 'a fact = "(disk, 'a) dact"

type_synonym path = "string list"

definition is_folder :: "tree \<Rightarrow> bool" where
  "is_folder t \<longleftrightarrow> (case t of Folder m es \<Rightarrow> True | _ \<Rightarrow> False)"

definition is_link :: "tree \<Rightarrow> bool" where
  "is_link t \<longleftrightarrow> (case t of Link x \<Rightarrow> True | _ \<Rightarrow> False)"

definition is_reg :: "tree \<Rightarrow> bool" where
  "is_reg t \<longleftrightarrow> (case t of Reg m b \<Rightarrow> True | _ \<Rightarrow> False)"

text \<open>The node a path names; links on the way are followed, one at the end is not.\<close>

fun resolve :: "tree \<Rightarrow> path \<Rightarrow> tree result" where
  "resolve t [] = Inr t"
| "resolve (Folder m es) (c # cs) =
     (case aget es c of None \<Rightarrow> Err ''ENOENT'' | Some t \<Rightarrow> resolve t cs)"
| "resolve (Link (Some t)) (c # cs) = resolve t (c # cs)"
| "resolve (Link None) (c # cs) = Err ''ENOENT''"
| "resolve t (c # cs) = Err ''ENOTDIR''"

definition node_at :: "disk \<Rightarrow> path \<Rightarrow> tree result" where
  "node_at d p = (case d of None \<Rightarrow> Err ''ENOENT'' | Some t \<Rightarrow> resolve t p)"

fun deref :: "tree \<Rightarrow> tree result" where
  "deref (Link (Some t)) = deref t"
| "deref (Link None) = Err ''ENOENT''"
| "deref t = Inr t"

text \<open>Changing the entry at a path; nothing happens where there is no folder to change.\<close>

fun alter :: "path \<Rightarrow> (tree option \<Rightarrow> tree option) \<Rightarrow> tree \<Rightarrow> tree" where
  "alter [c] f (Folder m es) =
     Folder m (case f (aget es c) of None \<Rightarrow> adel c es | Some t \<Rightarrow> aput c t es)"
| "alter (c # d # cs) f (Folder m es) =
     Folder m (case aget es c of None \<Rightarrow> es | Some t \<Rightarrow> aput c (alter (d # cs) f t) es)"
| "alter cs f t = t"

definition set_node :: "path \<Rightarrow> tree option \<Rightarrow> disk \<Rightarrow> disk" where
  "set_node p x d = map_option (alter p (\<lambda>_. x)) d"

section \<open>System calls\<close>

text \<open>A call that fails with an error of its own or changes the tree.\<close>

definition sys :: "(disk \<Rightarrow> string option) \<Rightarrow> (disk \<Rightarrow> disk) \<Rightarrow> unit fact" where
  "sys bad f = exec_if bad f"

definition lstat :: "path \<Rightarrow> tree fact" where
  "lstat p = stmt (\<lambda>d. (node_at d p, d))"

definition stat_of :: "disk \<Rightarrow> path \<Rightarrow> tree result" where
  "stat_of d p = (case node_at d p of Inl e \<Rightarrow> Inl e | Inr t \<Rightarrow> deref t)"

definition stat :: "path \<Rightarrow> tree fact" where
  "stat p = stmt (\<lambda>d. (stat_of d p, d))"

definition read_file :: "path \<Rightarrow> string fact" where
  "read_file p = stmt (\<lambda>d. (case stat_of d p of
     Inl e \<Rightarrow> Inl e
   | Inr (Reg m b) \<Rightarrow> Inr b
   | Inr (Folder m es) \<Rightarrow> Err ''EISDIR''
   | Inr t \<Rightarrow> Err ''EIO'', d))"

text \<open>\<open>os.ReadDir\<close>: sorted by name.\<close>

definition read_dir :: "path \<Rightarrow> (string \<times> tree) list fact" where
  "read_dir p = stmt (\<lambda>d. (case stat_of d p of
     Inl e \<Rightarrow> Inl e
   | Inr (Folder m es) \<Rightarrow> Inr (sort_key fst es)
   | Inr t \<Rightarrow> Err ''ENOTDIR'', d))"

text \<open>
  The folder a new entry goes to. The service reaches entries only along real folders; a link in
  the place of the parent is outside of the model.
\<close>

definition parent_bad :: "path \<Rightarrow> disk \<Rightarrow> string option" where
  "parent_bad p d =
     (case node_at d (butlast p) of
        Inl e \<Rightarrow> Some (err_code e)
      | Inr t \<Rightarrow> if is_folder t then None else Some ''ENOTDIR'')"

definition new_bad :: "path \<Rightarrow> disk \<Rightarrow> string option" where
  "new_bad p d =
     (case parent_bad p d of
        Some e \<Rightarrow> Some e
      | None \<Rightarrow> (case node_at d p of Inr t \<Rightarrow> Some ''EEXIST'' | Inl e \<Rightarrow> None))"

definition mkdir :: "int \<Rightarrow> path \<Rightarrow> unit fact" where
  "mkdir mode p = sys (new_bad p) (set_node p (Some (Folder mode [])))"

text \<open>\<open>O_CREATE|O_EXCL\<close>, and \<open>os.WriteFile\<close>.\<close>

definition create_new :: "int \<Rightarrow> string \<Rightarrow> path \<Rightarrow> unit fact" where
  "create_new mode bytes p = sys (new_bad p) (set_node p (Some (Reg mode bytes)))"

definition write_file :: "int \<Rightarrow> string \<Rightarrow> path \<Rightarrow> unit fact" where
  "write_file mode bytes p = sys
     (\<lambda>d. case parent_bad p d of
        Some e \<Rightarrow> Some e
      | None \<Rightarrow> (case node_at d p of Inr (Folder m es) \<Rightarrow> Some ''EISDIR'' | _ \<Rightarrow> None))
     (\<lambda>d. set_node p (Some (Reg (case node_at d p of Inr (Reg m b) \<Rightarrow> m | _ \<Rightarrow> mode) bytes)) d)"

text \<open>
  \<open>atomicfile.WriteFile\<close>: a temporary file in the same folder, renamed over the target. The
  temporary file is removed in every case; that the removal fails is not modelled. Its caller has
  read the file it replaces, so that its \<open>MkdirAll\<close> finds the folder there.
\<close>

definition replace_file :: "int \<Rightarrow> string \<Rightarrow> path \<Rightarrow> unit fact" where
  "replace_file mode bytes p = sys
     (\<lambda>d. case parent_bad p d of
        Some e \<Rightarrow> Some e
      | None \<Rightarrow> (case node_at d p of Inr (Folder m es) \<Rightarrow> Some ''EISDIR'' | _ \<Rightarrow> None))
     (set_node p (Some (Reg mode bytes)))"

definition rename_bad :: "path \<Rightarrow> path \<Rightarrow> disk \<Rightarrow> string option" where
  "rename_bad p q d =
     (case node_at d p of
        Inl e \<Rightarrow> Some (err_code e)
      | Inr t \<Rightarrow>
         (case parent_bad q d of
            Some e \<Rightarrow> Some e
          | None \<Rightarrow>
              if strict_prefix p q then Some ''EINVAL''
              else (case node_at d q of
                      Inl e \<Rightarrow> None
                    | Inr (Folder m (e # es)) \<Rightarrow> if p = q then None else Some ''ENOTEMPTY''
                    | Inr u \<Rightarrow> if is_folder u = is_folder t then None
                               else Some (if is_folder u then ''EISDIR'' else ''ENOTDIR''))))"

definition rename_node :: "path \<Rightarrow> path \<Rightarrow> disk \<Rightarrow> disk" where
  "rename_node p q d =
     (if p = q then d
      else (case node_at d p of Inl e \<Rightarrow> d | Inr t \<Rightarrow> set_node q (Some t) (set_node p None d)))"

definition rename :: "path \<Rightarrow> path \<Rightarrow> unit fact" where
  "rename p q = sys (rename_bad p q) (rename_node p q)"

definition link :: "path \<Rightarrow> path \<Rightarrow> unit fact" where
  "link p q = sys
     (\<lambda>d. case node_at d p of Inl e \<Rightarrow> Some (err_code e)
        | Inr t \<Rightarrow> if is_folder t then Some ''EPERM'' else new_bad q d)
     (\<lambda>d. case node_at d p of Inl e \<Rightarrow> d | Inr t \<Rightarrow> set_node q (Some t) d)"

definition remove :: "path \<Rightarrow> unit fact" where
  "remove p = sys
     (\<lambda>d. case node_at d p of Inl e \<Rightarrow> Some (err_code e)
        | Inr (Folder m (e # es)) \<Rightarrow> Some ''ENOTEMPTY'' | Inr t \<Rightarrow> None)
     (set_node p None)"

text \<open>\<open>os.RemoveAll\<close>: nothing to remove is no error.\<close>

definition remove_all :: "path \<Rightarrow> unit fact" where
  "remove_all p = exec (set_node p None)"

text \<open>The outcome of a call as a value, for the code that looks at the error.\<close>

definition attempt :: "('d, 'a) dact \<Rightarrow> ('d, 'a result) dact" where
  "attempt m = (\<lambda>d w. case m d w of (r, d', w') \<Rightarrow> (Inr r, d', w'))"

text \<open>
  \<open>os.MkdirAll\<close> on the reversed path: nothing to do where there is a folder, otherwise the parents
  first, and a folder that has come up meanwhile is fine. The working directory itself exists.
\<close>

fun mkdir_up :: "int \<Rightarrow> path \<Rightarrow> unit fact" where
  "mkdir_up mode [] = ret ()"
| "mkdir_up mode (c # cs) =
     andthen (attempt (stat (rev (c # cs)))) (\<lambda>r.
     case r of
       Inr t \<Rightarrow> guard (is_folder t) ''ENOTDIR''
     | Inl e \<Rightarrow>
         andthen (mkdir_up mode cs) (\<lambda>_.
         on_error (\<lambda>x. andthen (attempt (lstat (rev (c # cs)))) (\<lambda>s.
             case s of Inr t \<Rightarrow> if is_folder t then ret () else raise x | Inl y \<Rightarrow> raise x))
           (mkdir mode (rev (c # cs)))))"

definition mkdir_all :: "int \<Rightarrow> path \<Rightarrow> unit fact" where
  "mkdir_all mode p = mkdir_up mode (rev p)"

end
