(* ===== verification/FileTree_Laws.thy ===== *)
theory FileTree_Laws
  imports FileTree
begin

text \<open>
  Laws of the tree: what a change at one path means at every other, and a calculus of pre- and
  postconditions for actions none of whose calls reports an error after it has taken effect.
\<close>

section \<open>Looking up and changing\<close>

lemma resolve_append:
  "resolve t (p @ q) = (case resolve t p of Inl e \<Rightarrow> Inl e | Inr u \<Rightarrow> resolve u q)"
  by (induction t p rule: resolve.induct) (auto split: option.splits)

text \<open>The parent of a path is reached along real folders.\<close>

fun real_dirs :: "tree \<Rightarrow> path \<Rightarrow> bool" where
  "real_dirs t [] = True"
| "real_dirs (Folder m es) [c] = True"
| "real_dirs (Folder m es) (c # d # cs) = (case aget es c of None \<Rightarrow> False | Some u \<Rightarrow> real_dirs u (d # cs))"
| "real_dirs t cs = False"

lemma real_dirs_snoc:
  assumes "real_dirs t p" and "resolve t p = Inr (Folder m es)"
  shows "real_dirs t (p @ [c])"
  using assms by (induction t p rule: real_dirs.induct) (auto split: option.splits)

lemma real_dirs_parent:
  assumes "real_dirs t (p @ [c])"
  shows "\<exists>m es. resolve t p = Inr (Folder m es)"
  using assms
proof (induction t p rule: resolve.induct)
  case (1 t)
  then show ?case by (cases t) auto
next
  case (2 m es c' cs)
  then show ?case by (cases cs) (auto split: option.splits)
qed auto

definition lookup :: "tree \<Rightarrow> path \<Rightarrow> tree option" where
  "lookup t p = (case resolve t p of Inl e \<Rightarrow> None | Inr u \<Rightarrow> Some u)"

lemma resolve_missing:
  assumes "real_dirs t p" and "p \<noteq> []" and "resolve t p = Inl e"
  shows "e = AppErr ''ENOENT''"
  using assms by (induction t p rule: real_dirs.induct) (auto split: option.splits)

lemma resolve_alter_same:
  assumes "real_dirs t p" and "p \<noteq> []"
  shows "resolve (alter p f t) (p @ r) =
    (case f (lookup t p) of None \<Rightarrow> Err ''ENOENT'' | Some u \<Rightarrow> resolve u r)"
  using assms
proof (induction t p rule: real_dirs.induct)
  case (2 m es c)
  have "lookup (Folder m es) [c] = aget es c"
    by (simp add: lookup_def split: option.split)
  then show ?case by (cases "f (aget es c)") (simp_all add: aget_adel aget_aput)
next
  case (3 m es c d cs)
  then obtain u where u: "aget es c = Some u" "real_dirs u (d # cs)" by (auto split: option.splits)
  then have "lookup (Folder m es) (c # d # cs) = lookup u (d # cs)" by (simp add: lookup_def)
  then show ?case using 3 u by (simp add: aget_aput)
qed auto

text \<open>What can be seen of a node without its entries.\<close>

definition shape :: "tree \<Rightarrow> tree" where
  "shape t = (case t of Folder m es \<Rightarrow> Folder m [] | u \<Rightarrow> u)"

definition shape_at :: "disk \<Rightarrow> path \<Rightarrow> tree result" where
  "shape_at d p = (case node_at d p of Inl e \<Rightarrow> Inl e | Inr t \<Rightarrow> Inr (shape t))"

lemma shape_reg: "shape t = Reg m b \<longleftrightarrow> t = Reg m b"
  by (cases t) (auto simp: shape_def)

lemma shape_folder: "is_folder (shape t) = is_folder t" "is_link (shape t) = is_link t" "is_reg (shape t) = is_reg t"
  by (cases t; simp add: shape_def is_folder_def is_link_def is_reg_def)+

definition shape_of :: "tree \<Rightarrow> path \<Rightarrow> tree result" where
  "shape_of t p = (case resolve t p of Inl e \<Rightarrow> Inl e | Inr u \<Rightarrow> Inr (shape u))"

lemma shape_of_Folder_Cons:
  "shape_of (Folder m es) (c # q) = (case aget es c of None \<Rightarrow> Err ''ENOENT'' | Some u \<Rightarrow> shape_of u q)"
  by (simp add: shape_of_def split: option.split)

lemma shape_of_alter_other:
  assumes "\<not> prefix p q"
  shows "shape_of (alter p f t) q = shape_of t q"
  using assms
proof (induction p f t arbitrary: q rule: alter.induct)
  case (1 c f m es)
  show ?case
  proof (cases q)
    case (Cons a q')
    then have "a \<noteq> c" using 1 by auto
    then show ?thesis
      by (cases "f (aget es c)") (simp_all add: Cons shape_of_Folder_Cons aget_adel aget_aput)
  qed (simp add: shape_of_def shape_def)
next
  case (2 c d cs f m es)
  show ?case
  proof (cases q)
    case (Cons a q')
    show ?thesis
    proof (cases "aget es c")
      case (Some u)
      then show ?thesis
        using 2 by (cases "a = c") (auto simp: Cons shape_of_Folder_Cons aget_aput)
    qed (simp add: Cons)
  qed (simp add: shape_of_def shape_def)
qed auto

lemma shape_at_set_other:
  assumes "\<not> prefix p q"
  shows "shape_at (set_node p x d) q = shape_at d q"
  using shape_of_alter_other [OF assms]
  by (cases d) (simp_all add: shape_at_def node_at_def set_node_def shape_of_def)

definition good_parent :: "disk \<Rightarrow> path \<Rightarrow> bool" where
  "good_parent d p \<longleftrightarrow> p \<noteq> [] \<and> (case d of None \<Rightarrow> False | Some t \<Rightarrow> real_dirs t p)"

lemma node_at_set_same:
  assumes "good_parent d p"
  shows "node_at (set_node p x d) (p @ r) = (case x of None \<Rightarrow> Err ''ENOENT'' | Some u \<Rightarrow> resolve u r)"
  using assms resolve_alter_same
  by (cases d) (auto simp: good_parent_def node_at_def set_node_def split: option.splits)

lemma node_at_set_self:
  assumes "good_parent d p"
  shows "node_at (set_node p x d) p = (case x of None \<Rightarrow> Err ''ENOENT'' | Some u \<Rightarrow> Inr u)"
  using node_at_set_same [OF assms, of x "[]"] by (simp split: option.splits)

text \<open>A changed tree keeps the real folders on the way to other places.\<close>

lemma real_dirs_shape:
  "real_dirs t p \<longleftrightarrow> (\<forall>q. strict_prefix q p \<longrightarrow> (\<exists>m. shape_of t q = Inr (Folder m [])))"
proof (induction t p rule: real_dirs.induct)
  case (1 t)
  then show ?case by simp
next
  case (2 m es c)
  have "strict_prefix q [c] \<longleftrightarrow> q = []" for q by (cases q) auto
  then show ?case by (simp add: shape_of_def shape_def)
next
  case (3 m es c d cs)
  show ?case
  proof (cases "aget es c")
    case None
    then have "shape_of (Folder m es) [c] = Err ''ENOENT''" by (simp add: shape_of_def)
    moreover have "strict_prefix [c] (c # d # cs)" by (simp add: strict_prefix_def)
    ultimately have "\<not> (\<forall>q. strict_prefix q (c # d # cs) \<longrightarrow> (\<exists>n. shape_of (Folder m es) q = Inr (Folder n [])))"
      by (metis sum.distinct(1))
    then show ?thesis using None by simp
  next
    case (Some u)
    have pre: "strict_prefix q (c # d # cs) \<longleftrightarrow> q = [] \<or> (\<exists>q'. q = c # q' \<and> strict_prefix q' (d # cs))" for q
      by (cases q) auto
    have nil: "\<exists>n. shape_of (Folder m es) [] = Inr (Folder n [])" by (simp add: shape_of_def shape_def)
    have sub: "shape_of (Folder m es) (c # q') = shape_of u q'" for q'
      using Some by (simp add: shape_of_Folder_Cons)
    show ?thesis using 3 Some nil by (simp add: pre sub) (metis sub)
  qed
qed (auto simp: shape_of_def shape_def intro!: exI [of _ "[]"])

lemma good_parent_shape:
  "good_parent d p \<longleftrightarrow> p \<noteq> [] \<and> (\<forall>q. strict_prefix q p \<longrightarrow> (\<exists>m. shape_at d q = Inr (Folder m [])))"
proof (cases d)
  case None
  then show ?thesis by (cases p) (auto simp: good_parent_def shape_at_def node_at_def intro!: exI [of _ "[]"])
next
  case (Some t)
  then show ?thesis by (simp add: good_parent_def real_dirs_shape shape_at_def node_at_def shape_of_def)
qed

lemma good_parent_set_other:
  assumes "good_parent d q" and "\<not> strict_prefix p q"
  shows "good_parent (set_node p x d) q"
proof -
  have "\<not> prefix p r" if "strict_prefix r q" for r
    using that assms(2) by (meson prefix_order.le_less_trans)
  then show ?thesis using assms(1) by (simp add: good_parent_shape shape_at_set_other)
qed

lemma good_parent_snoc:
  assumes "good_parent d p" and "node_at d p = Inr (Folder m es)"
  shows "good_parent d (p @ [c])"
  using assms real_dirs_snoc by (cases d) (auto simp: good_parent_def node_at_def)

lemma good_parent_single: "good_parent d [c] \<longleftrightarrow> (\<exists>m es. d = Some (Folder m es))"
  by (auto simp: good_parent_def split: option.splits elim: real_dirs.elims)

lemma good_parent_prefix:
  assumes "good_parent d p" and "prefix q p" and "q \<noteq> []"
  shows "good_parent d q"
proof -
  have "strict_prefix r p" if "strict_prefix r q" for r
    using that assms(2) by (rule prefix_order.less_le_trans)
  then show ?thesis using assms(1,3) unfolding good_parent_shape by blast
qed

lemma good_parent_folder:
  assumes "good_parent d p" and "strict_prefix q p"
  shows "\<exists>m es. node_at d q = Inr (Folder m es)"
proof -
  obtain m where "shape_at d q = Inr (Folder m [])" using assms by (auto simp: good_parent_shape)
  then show ?thesis
    by (cases "node_at d q"; cases "projr (node_at d q)") (auto simp: shape_at_def shape_def)
qed

lemma good_parent_missing:
  assumes "good_parent d p" and "node_at d p = Inl e"
  shows "e = AppErr ''ENOENT''"
  using assms resolve_missing by (cases d) (auto simp: good_parent_def node_at_def)

lemma good_parent_ok:
  assumes "good_parent d p"
  shows "parent_bad p d = None"
proof -
  have "strict_prefix (butlast p) p"
    using assms by (cases p rule: rev_cases) (simp_all add: good_parent_def strict_prefix_def)
  then obtain m es where "node_at d (butlast p) = Inr (Folder m es)" using good_parent_folder [OF assms] by blast
  then show ?thesis by (simp add: parent_bad_def is_folder_def)
qed

section \<open>Pre- and postconditions\<close>

text \<open>
  \<open>ensures P m Q E\<close>: from a state with \<open>P\<close> and outcomes without \<open>Lost\<close>, a result \<open>x\<close> comes with
  \<open>Q x\<close> and an error with \<open>E\<close> of its code.
\<close>

definition outcome_ok :: "('a \<Rightarrow> 'd \<Rightarrow> bool) \<Rightarrow> (string \<Rightarrow> 'd \<Rightarrow> bool) \<Rightarrow> 'a result \<Rightarrow> 'd \<Rightarrow> bool" where
  "outcome_ok Q E r d \<longleftrightarrow> (case r of Inl e \<Rightarrow> E (err_code e) d | Inr x \<Rightarrow> Q x d)"

lemma outcome_ok_simps [simp]:
  "outcome_ok Q E (Inl e) d = E (err_code e) d" "outcome_ok Q E (Inr x) d = Q x d"
  by (simp_all add: outcome_ok_def)

definition ensures :: "('d \<Rightarrow> bool) \<Rightarrow> ('d, 'a) dact \<Rightarrow> ('a \<Rightarrow> 'd \<Rightarrow> bool) \<Rightarrow> (string \<Rightarrow> 'd \<Rightarrow> bool) \<Rightarrow> bool" where
  "ensures P m Q E \<longleftrightarrow> (\<forall>d w r d' w'. P d \<longrightarrow> Lost \<notin> set w \<longrightarrow> m d w = (r, d', w') \<longrightarrow>
     Lost \<notin> set w' \<and> outcome_ok Q E r d')"

lemma ensuresD:
  assumes "ensures P m Q E" and "m d w = (r, d', w')" and "P d" and "Lost \<notin> set w"
  shows "outcome_ok Q E r d'"
  using assms unfolding ensures_def by blast

lemma en_weaken:
  assumes "ensures P m Q E" and "\<And>d. P' d \<Longrightarrow> P d" and "\<And>x d. Q x d \<Longrightarrow> Q' x d" and "\<And>e d. E e d \<Longrightarrow> E' e d"
  shows "ensures P' m Q' E'"
  unfolding ensures_def
proof (intro allI impI)
  fix d w r d' w'
  assume "P' d" "Lost \<notin> set w" "m d w = (r, d', w')"
  then have "Lost \<notin> set w' \<and> outcome_ok Q E r d'" using assms(1,2) unfolding ensures_def by blast
  then show "Lost \<notin> set w' \<and> outcome_ok Q' E' r d'" using assms(3,4) by (cases r) simp_all
qed

lemma en_ret: "(\<And>d. P d \<Longrightarrow> Q x d) \<Longrightarrow> ensures P (ret x) Q E"
  by (simp add: ensures_def ret_def)

lemma en_raise: "(\<And>d. P d \<Longrightarrow> E c d) \<Longrightarrow> ensures P (raise c) Q E"
  by (simp add: ensures_def raise_def)

lemma en_andthen:
  assumes "ensures P m Q E" and "\<And>x. ensures (Q x) (f x) R E"
  shows "ensures P (andthen m f) R E"
  unfolding ensures_def
proof (intro allI impI)
  fix d w r d' w'
  assume P: "P d" and lost: "Lost \<notin> set w" and run: "andthen m f d w = (r, d', w')"
  obtain s d1 w1 where m: "m d w = (s, d1, w1)" by (metis prod_cases3)
  have s: "Lost \<notin> set w1 \<and> outcome_ok Q E s d1"
    using assms(1) P lost m unfolding ensures_def by blast
  show "Lost \<notin> set w' \<and> outcome_ok R E r d'"
  proof (cases s)
    case (Inl e)
    then show ?thesis using run m s by (auto simp: andthen_def)
  next
    case (Inr x)
    then have "f x d1 w1 = (r, d', w')" using run m by (simp add: andthen_def)
    moreover have "Lost \<notin> set w1" "Q x d1" using s Inr by simp_all
    ultimately show ?thesis using assms(2) unfolding ensures_def by blast
  qed
qed

lemma en_stmt:
  assumes "\<And>d. P d \<Longrightarrow> E ''ErrSQL'' d"
    and "\<And>d. P d \<Longrightarrow> outcome_ok Q E (fst (q d)) (snd (q d))"
  shows "ensures P (stmt q) Q E"
  unfolding ensures_def
proof (intro allI impI)
  fix d w r d' w'
  assume P: "P d" and lost: "Lost \<notin> set w" and run: "stmt q d w = (r, d', w')"
  show "Lost \<notin> set w' \<and> outcome_ok Q E r d'"
  proof (cases w)
    case Nil
    then show ?thesis using run assms(2) [OF P] by (auto simp: stmt_def)
  next
    case (Cons o1 w1)
    then show ?thesis using run lost assms(1) [OF P] assms(2) [OF P] by (cases o1) (auto simp: stmt_def)
  qed
qed

lemma en_exec_if:
  assumes "\<And>d. P d \<Longrightarrow> E ''ErrSQL'' d"
    and "\<And>d. P d \<Longrightarrow> bad d = None \<Longrightarrow> Q () (u d)" and "\<And>d c. P d \<Longrightarrow> bad d = Some c \<Longrightarrow> E c d"
  shows "ensures P (exec_if bad u) Q E"
  unfolding exec_if_def by (rule en_stmt) (use assms in \<open>simp_all split: option.split\<close>)

lemma en_exec:
  assumes "\<And>d. P d \<Longrightarrow> E ''ErrSQL'' d" and "\<And>d. P d \<Longrightarrow> Q () (u d)"
  shows "ensures P (exec u) Q E"
  unfolding exec_def by (rule en_stmt) (use assms in simp_all)

lemma en_on_error:
  assumes "ensures P m Q E" and "\<And>c. ensures (E c) (h c) Q F"
  shows "ensures P (on_error h m) Q F"
  unfolding ensures_def
proof (intro allI impI)
  fix d w r d' w'
  assume P: "P d" and lost: "Lost \<notin> set w" and run: "on_error h m d w = (r, d', w')"
  obtain s d1 w1 where m: "m d w = (s, d1, w1)" by (metis prod_cases3)
  have s: "Lost \<notin> set w1 \<and> outcome_ok Q E s d1"
    using assms(1) P lost m unfolding ensures_def by blast
  show "Lost \<notin> set w' \<and> outcome_ok Q F r d'"
  proof (cases s)
    case (Inl e)
    then have "h (err_code e) d1 w1 = (r, d', w')" using run m by (simp add: on_error_def)
    moreover have "Lost \<notin> set w1" "E (err_code e) d1" using s Inl by simp_all
    ultimately show ?thesis using assms(2) unfolding ensures_def by blast
  next
    case (Inr x)
    then show ?thesis using run m s by (auto simp: on_error_def)
  qed
qed

lemma en_attempt:
  assumes "ensures P m (\<lambda>x. Q (Inr x)) (\<lambda>c. Q (Err c))"
  shows "ensures P (attempt m) Q E"
  unfolding ensures_def
proof (intro allI impI)
  fix d w r d' w'
  assume P: "P d" and lost: "Lost \<notin> set w" and run: "attempt m d w = (r, d', w')"
  obtain s d1 w1 where m: "m d w = (s, d1, w1)" by (metis prod_cases3)
  have "Lost \<notin> set w1 \<and> outcome_ok (\<lambda>x. Q (Inr x)) (\<lambda>c. Q (Err c)) s d1"
    using assms P lost m unfolding ensures_def by blast
  then show "Lost \<notin> set w' \<and> outcome_ok Q E r d'"
    using run m by (cases s) (auto simp: attempt_def)
qed

lemma en_guard: "(\<And>d. P d \<Longrightarrow> if b then Q () d else E c d) \<Longrightarrow> ensures P (guard b c) Q E"
  by (auto simp: guard_def intro!: en_ret en_raise)

lemma en_need: "(\<And>d. P d \<Longrightarrow> case x of None \<Rightarrow> E c d | Some y \<Rightarrow> Q y d) \<Longrightarrow> ensures P (need c x) Q E"
  by (auto simp: need_def split: option.splits intro!: en_ret en_raise)

end
