(* ===== verification/FileService.thy ===== *)
theory FileService
  imports FileTree GoBase64
begin

text \<open>
  daemon/internal/files: reading, listing, saving, creating, moving, copying and deleting files below a
  working directory (service.go, copy.go) and the recycle bin (recycle.go). Parameters: \<open>H\<close> is the
  hexadecimal SHA-256 of the contents, \<open>jenc\<close> and \<open>jdec\<close> write and read the JSON text of a recycle
  manifest, \<open>gbk_dec\<close> and \<open>gbk_enc\<close> are the GBK codec.
\<close>

section \<open>Errors\<close>

definition file_error :: "string \<Rightarrow> string" where
  "file_error c =
     (if c = ''ENOENT'' then ''FILE_NOT_FOUND''
      else if c = ''EACCES'' then ''PERMISSION_DENIED''
      else if c = ''ENOSPC'' then ''DISK_FULL''
      else if c = ''EROFS'' then ''READ_ONLY_FILESYSTEM''
      else ''FILE_OPERATION_FAILED'')"

definition as_file :: "('d, 'a) dact \<Rightarrow> ('d, 'a) dact" where
  "as_file m = on_error (\<lambda>c. raise (file_error c)) m"

definition as_error :: "string \<Rightarrow> ('d, 'a) dact \<Rightarrow> ('d, 'a) dact" where
  "as_error e m = on_error (\<lambda>c. raise e) m"

definition lift_result :: "'a result \<Rightarrow> ('d, 'a) dact" where
  "lift_result r = (case r of Inl e \<Rightarrow> raise (err_code e) | Inr x \<Rightarrow> ret x)"

section \<open>Paths\<close>

definition recycle_bin :: string where
  "recycle_bin = ''.prism-recycle-bin''"

definition normalize_relative :: "string \<Rightarrow> string result" where
  "normalize_relative value =
     (let v = replace_char (CHR 0x5C) slash (trim_space value);
          v = (if v = [] then dot else v)
      in if CHR 0x00 \<in> set v \<or> is_abs v then Err ''PATH_ESCAPE''
         else if dotdot \<in> set (split_on slash v) then Err ''PATH_ESCAPE''
         else let c = path_clean v
              in if c = dotdot \<or> has_prefix c (dotdot @ [slash]) then Err ''PATH_ESCAPE'' else Inr c)"

definition is_recycle_path :: "string \<Rightarrow> bool" where
  "is_recycle_path c \<longleftrightarrow> c = recycle_bin \<or> has_prefix c (recycle_bin @ [slash])"

text \<open>The checks along the path: no links, folders up to the last name.\<close>

fun walk :: "path \<Rightarrow> path \<Rightarrow> bool \<Rightarrow> unit fact" where
  "walk base [] allow = ret ()"
| "walk base (c # cs) allow =
     andthen (attempt (lstat (base @ [c]))) (\<lambda>r.
     case r of
       Inl e \<Rightarrow> if err_code e = ''ENOENT'' \<and> cs = [] \<and> allow then ret () else raise (file_error (err_code e))
     | Inr t \<Rightarrow>
         if is_link t then raise ''PATH_ESCAPE''
         else if cs \<noteq> [] \<and> \<not> is_folder t then raise ''INVALID_REQUEST''
         else walk (base @ [c]) cs allow)"

text \<open>
  The last check of \<open>securePath\<close>, that the joined path lies below the root, cannot fail for names
  that are none of \<open>.\<close> and \<open>..\<close>.
\<close>

definition secure_path :: "string \<Rightarrow> bool \<Rightarrow> path fact" where
  "secure_path rel allow =
     andthen (lift_result (normalize_relative rel)) (\<lambda>clean.
     andthen (guard (\<not> is_recycle_path clean) ''PATH_ESCAPE'') (\<lambda>_.
     andthen (as_file (lstat [])) (\<lambda>root.
     andthen (guard (\<not> is_link root \<and> is_folder root) ''PATH_ESCAPE'') (\<lambda>_.
     andthen (walk [] (elems clean) allow) (\<lambda>_.
     ret (elems clean))))))"

text \<open>\<open>normalizeRelative\<close> where the root itself is no answer.\<close>

definition entry_path :: "string \<Rightarrow> string fact" where
  "entry_path rel =
     (case normalize_relative rel of
        Inl e \<Rightarrow> raise ''INVALID_REQUEST''
      | Inr clean \<Rightarrow> if clean = dot then raise ''INVALID_REQUEST'' else ret clean)"

fun ensure_parent_from :: "path \<Rightarrow> path \<Rightarrow> unit fact" where
  "ensure_parent_from base [] = ret ()"
| "ensure_parent_from base (c # cs) =
     andthen (attempt (lstat (base @ [c]))) (\<lambda>r.
     andthen (case r of
        Inr t \<Rightarrow> guard (\<not> is_link t \<and> is_folder t) ''PATH_ESCAPE''
      | Inl e \<Rightarrow>
          if err_code e = ''ENOENT'' then
            on_error (\<lambda>c. if c = ''EEXIST'' then ret () else raise (file_error c)) (mkdir 0x1E8 (base @ [c]))
          else raise (file_error (err_code e))) (\<lambda>_.
     ensure_parent_from (base @ [c]) cs))"

definition ensure_upload_parent :: "string \<Rightarrow> unit fact" where
  "ensure_upload_parent clean = ensure_parent_from [] (butlast (elems clean))"

section \<open>Targets\<close>

text \<open>
  The working directory of an instance, or the image directory of a mirror server: what
  \<open>supervisor.Get\<close> and \<open>servers.Get\<close> answer (type, root, image directory) are arguments.
\<close>

record file_target =
  tg_type :: string
  tg_id :: string

definition target_root ::
  "(string \<Rightarrow> string result) \<Rightarrow> (string \<Rightarrow> (string \<times> string \<times> string) result) \<Rightarrow> file_target \<Rightarrow> string result" where
  "target_root get_instance get_server t =
     (if tg_type t = ''instance'' then
        (case get_instance (tg_id t) of Inl e \<Rightarrow> Inl e | Inr workspace \<Rightarrow> Inr (path_clean workspace))
      else if tg_type t = ''image'' then
        (case get_server (tg_id t) of
           Inl e \<Rightarrow> Inl e
         | Inr (kind, base, sub) \<Rightarrow>
             if kind \<noteq> ''mirror'' then Err ''INVALID_STATE'' else Inr (path_join base sub))
      else Err ''INVALID_REQUEST'')"

text \<open>An operation that only reads: the directory is looked up, no lock is taken.\<close>

definition reading :: "string result \<Rightarrow> 'a fact \<Rightarrow> 'a fact" where
  "reading root op = andthen (lift_result root) (\<lambda>_. op)"

text \<open>The slots for transfers: a buffered channel that never blocks.\<close>

definition acquire_transfer :: "nat \<Rightarrow> nat \<Rightarrow> bool" where
  "acquire_transfer used limit \<longleftrightarrow> used < limit"

text \<open>
  \<open>mutate\<close>: the lock of the instance or image, whose outcome is an argument, the working directory
  (its parents are outside of the tree), and the operation.
\<close>

definition ensure_root :: "unit fact" where
  "ensure_root =
     andthen (attempt (lstat [])) (\<lambda>r.
     case r of
       Inr t \<Rightarrow> guard (\<not> is_link t \<and> is_folder t) ''PATH_ESCAPE''
     | Inl e \<Rightarrow>
         if err_code e = ''ENOENT'' then as_error ''FILE_WRITE_FAILED'' (exec (\<lambda>_. Some (Folder 0x1E8 [])))
         else raise (file_error (err_code e)))"

definition mutate :: "unit result \<Rightarrow> 'a fact \<Rightarrow> 'a fact" where
  "mutate lock op = andthen (lift_result lock) (\<lambda>_. andthen ensure_root (\<lambda>_. op))"

section \<open>The recycle bin\<close>

record manifest =
  rm_name :: string
  rm_path :: string
  rm_type :: string
  rm_size :: int
  rm_mode :: int
  rm_at :: int

record recycle_entry =
  re_id :: string
  re_manifest :: manifest

definition node_size :: "tree \<Rightarrow> int" where
  "node_size t = (case t of Reg m b \<Rightarrow> int (length b) | _ \<Rightarrow> 0)"

definition node_mode :: "tree \<Rightarrow> int" where
  "node_mode t = (case t of Reg m b \<Rightarrow> m | Folder m es \<Rightarrow> m | _ \<Rightarrow> 0)"

fun directory_size :: "tree \<Rightarrow> int" where
  "directory_size (Folder m es) = sum_list (map (\<lambda>(n, t). directory_size t) es)"
| "directory_size (Reg m b) = int (length b)"
| "directory_size t = 0"

definition path_base :: "string \<Rightarrow> string" where
  "path_base p = last (split_on slash p)"

definition bin_path :: path where
  "bin_path = [recycle_bin]"

definition ensure_recycle_bin :: "path fact" where
  "ensure_recycle_bin =
     andthen (attempt (lstat bin_path)) (\<lambda>r.
     andthen (case r of
        Inl e \<Rightarrow>
          if err_code e = ''ENOENT'' then
            andthen (on_error (\<lambda>c. if c = ''EEXIST'' then ret () else raise ''FILE_WRITE_FAILED'')
              (mkdir 0x1E8 bin_path)) (\<lambda>_.
            as_file (lstat bin_path))
          else raise (file_error (err_code e))
      | Inr t \<Rightarrow> ret t) (\<lambda>t.
     andthen (guard (\<not> is_link t \<and> is_folder t) ''PATH_ESCAPE'') (\<lambda>_.
     ret bin_path)))"

definition deleted_manifest :: "int \<Rightarrow> string \<Rightarrow> tree \<Rightarrow> manifest" where
  "deleted_manifest now rel t =
     \<lparr>rm_name = path_base rel, rm_path = rel, rm_type = (if is_folder t then ''directory'' else ''file''),
      rm_size = (if is_folder t then directory_size t else node_size t), rm_mode = node_mode t, rm_at = now\<rparr>"

definition move_to_bin :: "(manifest \<Rightarrow> string) \<Rightarrow> int \<Rightarrow> string option \<Rightarrow> string \<Rightarrow> string fact" where
  "move_to_bin jenc now rid rel =
     andthen (guard (rel \<noteq> dot \<and> \<not> is_recycle_path rel) ''PATH_ESCAPE'') (\<lambda>_.
     andthen (secure_path rel False) (\<lambda>p.
     andthen (as_file (lstat p)) (\<lambda>t.
     andthen (guard (\<not> is_link t) ''PATH_ESCAPE'') (\<lambda>_.
     andthen ensure_recycle_bin (\<lambda>bin.
     andthen (need ''FILE_WRITE_FAILED'' rid) (\<lambda>i.
     andthen (as_error ''FILE_WRITE_FAILED'' (mkdir 0x1E8 (bin @ [i]))) (\<lambda>_.
     andthen (on_error (\<lambda>c. andthen (attempt (remove_all (bin @ [i]))) (\<lambda>_. raise ''FILE_WRITE_FAILED''))
       (andthen (write_file 0x1A0 (jenc (deleted_manifest now rel t)) (bin @ [i, ''manifest.json''])) (\<lambda>_.
        rename p (bin @ [i, ''data''])))) (\<lambda>_.
     ret i))))))))"

definition read_manifest :: "(string \<Rightarrow> manifest option) \<Rightarrow> path \<Rightarrow> manifest fact" where
  "read_manifest jdec dir =
     andthen (read_file (dir @ [''manifest.json''])) (\<lambda>raw.
     andthen (need ''JSON'' (jdec raw)) (\<lambda>m.
     case normalize_relative (rm_path m) of
       Inl e \<Rightarrow> raise ''INVALID_REQUEST''
     | Inr clean \<Rightarrow>
         if clean = dot \<or> is_recycle_path clean \<or> rm_name m = [] then raise ''INVALID_REQUEST''
         else ret (m\<lparr>rm_path := clean\<rparr>)))"

definition valid_entry_id :: "string \<Rightarrow> bool" where
  "valid_entry_id i \<longleftrightarrow> i \<noteq> [] \<and> slash \<notin> set i \<and> CHR 0x5C \<notin> set i \<and> i \<noteq> dot \<and> i \<noteq> dotdot"

definition locate_entry :: "(string \<Rightarrow> manifest option) \<Rightarrow> path \<Rightarrow> string \<Rightarrow> (path \<times> manifest) fact" where
  "locate_entry jdec bin i =
     andthen (guard (valid_entry_id i) ''INVALID_REQUEST'') (\<lambda>_.
     andthen (as_file (lstat (bin @ [i]))) (\<lambda>t.
     andthen (guard (\<not> is_link t \<and> is_folder t) ''INVALID_REQUEST'') (\<lambda>_.
     andthen (on_error (\<lambda>c. raise (if c = ''ENOENT'' then ''FILE_NOT_FOUND'' else ''FILE_READ_FAILED''))
       (read_manifest jdec (bin @ [i]))) (\<lambda>m.
     andthen (guard (rm_type m = ''file'' \<or> rm_type m = ''directory'') ''INVALID_REQUEST'') (\<lambda>_.
     andthen (as_error ''FILE_READ_FAILED'' (lstat (bin @ [i, ''data'']))) (\<lambda>x.
     andthen (guard (\<not> is_link x \<and> (rm_type m = ''directory'' \<longrightarrow> is_folder x) \<and> (rm_type m = ''file'' \<longrightarrow> is_reg x))
       ''INVALID_REQUEST'') (\<lambda>_.
     ret (bin @ [i], m))))))))"

text \<open>The common part of \<open>RecycleRestore\<close> and \<open>restoreRecycleEntry\<close>, up to the last step.\<close>

definition restore_data :: "(string \<Rightarrow> manifest option) \<Rightarrow> string \<Rightarrow> path fact" where
  "restore_data jdec i =
     andthen ensure_recycle_bin (\<lambda>bin.
     andthen (locate_entry jdec bin i) (\<lambda>(dir, m).
     andthen (secure_path (rm_path m) True) (\<lambda>p.
     andthen (attempt (lstat p)) (\<lambda>r.
     andthen (case r of
        Inr t \<Rightarrow> raise ''FILE_EXISTS''
      | Inl e \<Rightarrow> if err_code e = ''ENOENT'' then ret () else raise (file_error (err_code e))) (\<lambda>_.
     andthen (as_file (mkdir_all 0x1E8 (butlast p))) (\<lambda>_.
     andthen (as_error ''FILE_WRITE_FAILED'' (rename (dir @ [''data'']) p)) (\<lambda>_.
     ret dir)))))))"

definition restore_recycle_entry :: "(string \<Rightarrow> manifest option) \<Rightarrow> string \<Rightarrow> unit fact" where
  "restore_recycle_entry jdec i = andthen (restore_data jdec i) remove_all"

definition recycle_restore :: "(string \<Rightarrow> manifest option) \<Rightarrow> unit result \<Rightarrow> string \<Rightarrow> unit fact" where
  "recycle_restore jdec lock i =
     mutate lock (andthen (restore_data jdec i) (\<lambda>dir. as_error ''FILE_WRITE_FAILED'' (remove_all dir)))"

definition recycle_delete :: "(string \<Rightarrow> manifest option) \<Rightarrow> unit result \<Rightarrow> string list \<Rightarrow> unit fact" where
  "recycle_delete jdec lock ids =
     andthen (guard (ids \<noteq> [] \<and> length ids \<le> 100) ''INVALID_REQUEST'') (\<lambda>_.
     mutate lock (andthen ensure_recycle_bin (\<lambda>bin.
       each (\<lambda>i. andthen (locate_entry jdec bin i) (\<lambda>(dir, m). as_error ''FILE_WRITE_FAILED'' (remove_all dir))) ids)))"

definition recycle_clear :: "unit result \<Rightarrow> unit fact" where
  "recycle_clear lock =
     mutate lock (andthen ensure_recycle_bin (\<lambda>bin.
       andthen (as_file (read_dir bin)) (\<lambda>es.
       each (\<lambda>(n, t). as_error ''FILE_WRITE_FAILED'' (remove_all (bin @ [n]))) es)))"

fun recycle_entries :: "(string \<Rightarrow> manifest option) \<Rightarrow> (string \<times> tree) list \<Rightarrow> recycle_entry list fact" where
  "recycle_entries jdec [] = ret []"
| "recycle_entries jdec ((n, t) # es) =
     (if \<not> is_folder t then recycle_entries jdec es
      else andthen (attempt (read_manifest jdec (bin_path @ [n]))) (\<lambda>r.
           andthen (recycle_entries jdec es) (\<lambda>rest.
           ret (case r of Inl e \<Rightarrow> rest | Inr m \<Rightarrow> \<lparr>re_id = n, re_manifest = m\<rparr> # rest))))"

definition recycle_list :: "(string \<Rightarrow> manifest option) \<Rightarrow> string result \<Rightarrow> recycle_entry list fact" where
  "recycle_list jdec root = reading root (
     andthen (attempt (read_dir bin_path)) (\<lambda>r.
     case r of
       Inl e \<Rightarrow> if err_code e = ''ENOENT'' then ret [] else raise (file_error (err_code e))
     | Inr es \<Rightarrow> andthen (recycle_entries jdec es) (\<lambda>items.
         ret (sort_key (\<lambda>x. - rm_at (re_manifest x)) items))))"

text \<open>The previous target stays recoverable while a replacement is published.\<close>

definition publish_with_recycle ::
  "(manifest \<Rightarrow> string) \<Rightarrow> (string \<Rightarrow> manifest option) \<Rightarrow> int \<Rightarrow> string option \<Rightarrow> string \<Rightarrow> unit fact \<Rightarrow> unit fact" where
  "publish_with_recycle jenc jdec now rid rel publish =
     andthen (attempt (move_to_bin jenc now rid rel)) (\<lambda>r.
     case r of
       Inl e \<Rightarrow> if err_code e = ''FILE_NOT_FOUND'' then publish else raise (err_code e)
     | Inr i \<Rightarrow> on_error (\<lambda>c. andthen (attempt (restore_recycle_entry jdec i)) (\<lambda>_. raise c)) publish)"

end
