(* ===== verification/FileOps.thy ===== *)
theory FileOps
  imports FileService
begin

text \<open>
  The operations of the file service on one working directory (service.go and copy.go of
  daemon/internal/files): text and cursors, listing, reading, saving, creating, moving, deleting and
  copying. Modification times are left out; the size of a folder, which the operating system decides,
  is 0.
\<close>

section \<open>Text\<close>

fun utf8_valid :: "string \<Rightarrow> bool" where
  "utf8_valid [] = True"
| "utf8_valid [a] = (byte a < 128)"
| "utf8_valid [a, b] = (if rune_len2 a b then True else byte a < 128 \<and> utf8_valid [b])"
| "utf8_valid [a, b, c] =
     (if rune_len2 a b then utf8_valid [c]
      else if rune_len3 a b c then True else byte a < 128 \<and> utf8_valid [b, c])"
| "utf8_valid (a # b # c # d # s) =
     (if rune_len2 a b then utf8_valid (c # d # s)
      else if rune_len3 a b c then utf8_valid (d # s)
      else if rune_len4 a b c d then utf8_valid s
      else byte a < 128 \<and> utf8_valid (b # c # d # s))"

definition bom :: string where
  "bom = [CHR 0xEF, CHR 0xBB, CHR 0xBF]"

definition decode_text :: "(string \<Rightarrow> string option) \<Rightarrow> string \<Rightarrow> (string \<times> string) result" where
  "decode_text gbk_dec raw =
     (if CHR 0x00 \<in> set raw then Err ''UNSUPPORTED_ENCODING''
      else if has_prefix raw bom then
        (if utf8_valid (drop 3 raw) then Inr (drop 3 raw, ''utf-8-bom'') else Err ''UNSUPPORTED_ENCODING'')
      else if utf8_valid raw then Inr (raw, ''utf-8'')
      else (case gbk_dec raw of
              None \<Rightarrow> Err ''UNSUPPORTED_ENCODING''
            | Some t \<Rightarrow> if utf8_valid t then Inr (t, ''gbk'') else Err ''UNSUPPORTED_ENCODING''))"

definition encode_text :: "(string \<Rightarrow> string option) \<Rightarrow> string \<Rightarrow> string \<Rightarrow> (string \<times> string) result" where
  "encode_text gbk_enc text enc =
     (let e = to_lower (trim_space enc)
      in if e = [] \<or> e = ''utf-8'' \<or> e = ''utf8'' then Inr (text, ''utf-8'')
         else if e = ''utf-8-bom'' then Inr (bom @ text, ''utf-8-bom'')
         else if e = ''gbk'' then
           (case gbk_enc text of None \<Rightarrow> Err ''UNSUPPORTED_ENCODING'' | Some raw \<Rightarrow> Inr (raw, ''gbk''))
         else Err ''UNSUPPORTED_ENCODING'')"

definition encode_cursor :: "int \<Rightarrow> string" where
  "encode_cursor n = b64_encode (itoa n)"

definition decode_cursor :: "string \<Rightarrow> int result" where
  "decode_cursor c =
     (if c = [] then Inr 0
      else case b64_decode c of
        None \<Rightarrow> Err ''INVALID_CURSOR''
      | Some raw \<Rightarrow> (case atoi raw of
            None \<Rightarrow> Err ''INVALID_CURSOR''
          | Some n \<Rightarrow> if n < 0 then Err ''INVALID_CURSOR'' else Inr n))"

section \<open>Listing\<close>

record file_entry =
  fe_name :: string
  fe_path :: string
  fe_type :: string
  fe_size :: int
  fe_mode :: int

record dir_request =
  dq_path :: string
  dq_cursor :: string
  dq_limit :: int

record dir_result =
  dr_path :: string
  dr_entries :: "file_entry list"
  dr_next :: string
  dr_truncated :: bool
  dr_error :: "string option"

definition max_directories :: nat where "max_directories = 32"

definition max_entries :: int where "max_entries = 5000"

text \<open>Folders first, then by the name in lower case; \<open>sort.Slice\<close> on the result of \<open>os.ReadDir\<close>.\<close>

definition list_key :: "string \<times> tree \<Rightarrow> nat \<times> string" where
  "list_key e = (if is_folder (snd e) then 0 else 1, to_lower (fst e))"

definition less_key :: "nat \<times> string \<Rightarrow> nat \<times> string \<Rightarrow> bool" where
  "less_key a b \<longleftrightarrow> fst a < fst b \<or> fst a = fst b \<and> snd a < snd b"

fun insert_entry :: "string \<times> tree \<Rightarrow> (string \<times> tree) list \<Rightarrow> (string \<times> tree) list" where
  "insert_entry x [] = [x]"
| "insert_entry x (y # ys) =
     (if less_key (list_key y) (list_key x) then y # insert_entry x ys else x # y # ys)"

fun sort_entries :: "(string \<times> tree) list \<Rightarrow> (string \<times> tree) list" where
  "sort_entries [] = []"
| "sort_entries (x # xs) = insert_entry x (sort_entries xs)"

definition visible :: "string \<Rightarrow> bool \<Rightarrow> (string \<times> tree) list \<Rightarrow> (string \<times> tree) list" where
  "visible rel hidden es = filter (\<lambda>(n, t).
     \<not> (rel = dot \<and> n = recycle_bin) \<and> (hidden \<or> \<not> has_prefix n ''.'')) es"

definition child_path :: "string \<Rightarrow> string \<Rightarrow> string" where
  "child_path rel n = (if rel = dot then n else path_join rel n)"

definition entry_of :: "string \<Rightarrow> string \<Rightarrow> tree \<Rightarrow> file_entry option" where
  "entry_of rel n t =
     (if is_link t \<or> \<not> is_folder t \<and> \<not> is_reg t then None
      else Some \<lparr>fe_name = n, fe_path = child_path rel n,
        fe_type = (if is_folder t then ''directory'' else ''file''), fe_size = node_size t, fe_mode = node_mode t\<rparr>)"

text \<open>\<open>entry.Info()\<close> is an \<open>lstat\<close> of its own; an entry without an answer is skipped.\<close>

fun list_entries :: "string \<Rightarrow> path \<Rightarrow> (string \<times> tree) list \<Rightarrow> file_entry list fact" where
  "list_entries rel p [] = ret []"
| "list_entries rel p ((n, t) # es) =
     andthen (attempt (lstat (p @ [n]))) (\<lambda>r.
     andthen (list_entries rel p es) (\<lambda>rest.
     ret (case r of
        Inl e \<Rightarrow> rest
      | Inr info \<Rightarrow> (case entry_of rel n info of None \<Rightarrow> rest | Some x \<Rightarrow> x # rest))))"

definition page_limit :: "int \<Rightarrow> int \<Rightarrow> int" where
  "page_limit limit remaining = min (if limit \<le> 0 \<or> 500 < limit then 200 else limit) remaining"

definition list_page :: "string \<Rightarrow> dir_request \<Rightarrow> bool \<Rightarrow> int \<Rightarrow> dir_result fact" where
  "list_page rel q hidden remaining =
     andthen (secure_path rel False) (\<lambda>p.
     andthen (as_file (read_dir p)) (\<lambda>es.
     andthen (lift_result (decode_cursor (dq_cursor q))) (\<lambda>offset.
     let vis = visible rel hidden (sort_entries es);
         from = min offset (int (length vis));
         upto = min (from + page_limit (dq_limit q) remaining) (int (length vis))
     in andthen (list_entries rel p (take (nat (upto - from)) (drop (nat from) vis))) (\<lambda>items.
        ret \<lparr>dr_path = rel, dr_entries = items,
          dr_next = (if upto < int (length vis) then encode_cursor upto else []),
          dr_truncated = (upto < int (length vis)), dr_error = None\<rparr>))))"

definition failed_dir :: "string \<Rightarrow> string \<Rightarrow> dir_result" where
  "failed_dir rel e = \<lparr>dr_path = rel, dr_entries = [], dr_next = [], dr_truncated = False, dr_error = Some e\<rparr>"

definition list_directory :: "dir_request \<Rightarrow> bool \<Rightarrow> int \<Rightarrow> dir_result fact" where
  "list_directory q hidden remaining =
     (case normalize_relative (dq_path q) of
        Inl e \<Rightarrow> ret (failed_dir [] (err_code e))
      | Inr rel \<Rightarrow> andthen (attempt (list_page rel q hidden remaining)) (\<lambda>r.
          ret (case r of Inl e \<Rightarrow> failed_dir rel (err_code e) | Inr x \<Rightarrow> x)))"

fun list_all_directories :: "dir_request list \<Rightarrow> bool \<Rightarrow> int \<Rightarrow> dir_result list fact" where
  "list_all_directories [] hidden sofar = ret []"
| "list_all_directories (q # qs) hidden sofar =
     andthen (list_directory q hidden (max_entries - sofar)) (\<lambda>r.
     andthen (list_all_directories qs hidden (sofar + int (length (dr_entries r)))) (\<lambda>rest.
     ret (r # rest)))"

definition list_files :: "string result \<Rightarrow> dir_request list \<Rightarrow> bool \<Rightarrow> dir_result list fact" where
  "list_files root qs hidden = reading root (
     if qs = [] \<or> max_directories < length qs then raise ''INVALID_REQUEST''
     else list_all_directories qs hidden 0)"

section \<open>Reading and saving\<close>

record file_content =
  fc_path :: string
  fc_text :: string
  fc_encoding :: string
  fc_size :: int
  fc_version :: string

definition read_text ::
  "(string \<Rightarrow> string) \<Rightarrow> (string \<Rightarrow> string option) \<Rightarrow> int \<Rightarrow> string result \<Rightarrow> string \<Rightarrow> file_content fact" where
  "read_text H gbk_dec max_edit root rel = reading root (
     andthen (entry_path rel) (\<lambda>clean.
     andthen (secure_path clean False) (\<lambda>p.
     andthen (as_file (stat p)) (\<lambda>info.
     andthen (guard (is_reg info) ''INVALID_REQUEST'') (\<lambda>_.
     andthen (guard (node_size info \<le> max_edit) ''FILE_TOO_LARGE'') (\<lambda>_.
     andthen (as_file (read_file p)) (\<lambda>raw.
     andthen (lift_result (decode_text gbk_dec raw)) (\<lambda>(text, enc).
     ret \<lparr>fc_path = clean, fc_text = text, fc_encoding = enc, fc_size = int (length raw),
       fc_version = H raw\<rparr>))))))))"

definition save_body ::
  "(string \<Rightarrow> string) \<Rightarrow> (string \<Rightarrow> string option) \<Rightarrow> (manifest \<Rightarrow> string) \<Rightarrow> (string \<Rightarrow> manifest option) \<Rightarrow>
    int \<Rightarrow> int \<Rightarrow> string option \<Rightarrow> string \<Rightarrow> string \<Rightarrow> string \<Rightarrow> string \<Rightarrow> file_content fact" where
  "save_body H gbk_enc jenc jdec max_edit now rid rel text enc expected =
     andthen (entry_path rel) (\<lambda>clean.
     andthen (secure_path clean False) (\<lambda>p.
     andthen (as_file (stat p)) (\<lambda>info.
     andthen (guard (is_reg info) ''INVALID_REQUEST'') (\<lambda>_.
     andthen (as_file (read_file p)) (\<lambda>current.
     andthen (guard (expected \<noteq> [] \<and> H current = expected) ''FILE_CHANGED'') (\<lambda>_.
     andthen (lift_result (encode_text gbk_enc text enc)) (\<lambda>(raw, enc').
     andthen (guard (int (length raw) \<le> max_edit) ''FILE_TOO_LARGE'') (\<lambda>_.
     andthen (as_error ''FILE_WRITE_FAILED''
       (publish_with_recycle jenc jdec now rid clean (replace_file (node_mode info) raw p))) (\<lambda>_.
     andthen (attempt (stat p)) (\<lambda>_.
     ret \<lparr>fc_path = clean, fc_text = text, fc_encoding = enc', fc_size = int (length raw),
       fc_version = H raw\<rparr>))))))))))"

definition save_text ::
  "(string \<Rightarrow> string) \<Rightarrow> (string \<Rightarrow> string option) \<Rightarrow> (manifest \<Rightarrow> string) \<Rightarrow> (string \<Rightarrow> manifest option) \<Rightarrow>
    int \<Rightarrow> int \<Rightarrow> string option \<Rightarrow> unit result \<Rightarrow> string \<Rightarrow> string \<Rightarrow> string \<Rightarrow> string \<Rightarrow> file_content fact" where
  "save_text H gbk_enc jenc jdec max_edit now rid lock rel text enc expected =
     mutate lock (save_body H gbk_enc jenc jdec max_edit now rid rel text enc expected)"

section \<open>Creating, moving, deleting\<close>

text \<open>The final name must be free.\<close>

definition require_absent :: "string \<Rightarrow> path \<Rightarrow> unit fact" where
  "require_absent e p =
     andthen (attempt (lstat p)) (\<lambda>r.
     case r of
       Inr t \<Rightarrow> raise e
     | Inl x \<Rightarrow> if err_code x = ''ENOENT'' then ret () else raise (file_error (err_code x)))"

definition create_entry :: "unit result \<Rightarrow> string \<Rightarrow> string \<Rightarrow> unit fact" where
  "create_entry lock rel kind = mutate lock (
     andthen (entry_path rel) (\<lambda>clean.
     andthen (secure_path clean True) (\<lambda>p.
     andthen (attempt (lstat p)) (\<lambda>r.
     case r of
       Inr t \<Rightarrow> if kind = ''directory'' \<and> is_folder t then ret () else raise ''FILE_EXISTS''
     | Inl x \<Rightarrow>
         if err_code x \<noteq> ''ENOENT'' then raise (file_error (err_code x))
         else if kind = ''file'' then as_file (create_new 0x1A0 [] p)
         else if kind = ''directory'' then
           on_error (\<lambda>c. if c = ''EEXIST'' then
               andthen (attempt (lstat p)) (\<lambda>s. case s of
                 Inr t \<Rightarrow> if is_folder t then ret () else raise (file_error c)
               | Inl y \<Rightarrow> raise (file_error c))
             else raise (file_error c)) (mkdir 0x1E8 p)
         else raise ''INVALID_REQUEST''))))"

definition move_entry :: "unit result \<Rightarrow> string \<Rightarrow> string \<Rightarrow> bool \<Rightarrow> unit fact" where
  "move_entry lock src dst overwrite = mutate lock (
     andthen (entry_path src) (\<lambda>s.
     andthen (entry_path dst) (\<lambda>d.
     andthen (secure_path s False) (\<lambda>p.
     andthen (secure_path d True) (\<lambda>q.
     andthen (require_absent (if overwrite then ''INVALID_REQUEST'' else ''FILE_EXISTS'') q) (\<lambda>_.
     as_error ''FILE_WRITE_FAILED'' (rename p q)))))))"

text \<open>\<open>Delete\<close>: the identifiers of the recycle entries are drawn one after the other.\<close>

definition delete_one :: "(manifest \<Rightarrow> string) \<Rightarrow> int \<Rightarrow> bool \<Rightarrow> string \<times> string option \<Rightarrow> unit fact" where
  "delete_one jenc now recursive x =
     andthen (entry_path (fst x)) (\<lambda>clean.
     andthen (guard (\<not> is_recycle_path clean) ''INVALID_REQUEST'') (\<lambda>_.
     andthen (secure_path clean False) (\<lambda>p.
     andthen (as_file (lstat p)) (\<lambda>info.
     andthen (guard (is_folder info \<longrightarrow> recursive) ''RECURSIVE_REQUIRED'') (\<lambda>_.
     discard (move_to_bin jenc now (snd x) clean))))))"

definition delete_entries ::
  "(manifest \<Rightarrow> string) \<Rightarrow> int \<Rightarrow> unit result \<Rightarrow> bool \<Rightarrow> (string \<times> string option) list \<Rightarrow> unit fact" where
  "delete_entries jenc now lock recursive xs =
     andthen (guard (xs \<noteq> [] \<and> length xs \<le> 100) ''INVALID_REQUEST'') (\<lambda>_.
     mutate lock (each (delete_one jenc now recursive) xs))"

section \<open>Copying\<close>

text \<open>\<open>filepath.WalkDir\<close>: the node itself, then its entries by name.\<close>

fun walk_list :: "path \<Rightarrow> tree \<Rightarrow> (path \<times> tree) list" where
  "walk_list p (Folder m es) = (p, Folder m es) #
     concat (map snd (sort_key fst (map (\<lambda>(c, u). (c, walk_list (p @ [c]) u)) es)))"
| "walk_list p t = [(p, t)]"

text \<open>
  \<open>copyFile\<close>: a temporary file beside the destination, published by a hard link, which fails when
  there is a destination. The temporary file is gone in every case.
\<close>

definition copy_file :: "int \<Rightarrow> path \<Rightarrow> path \<Rightarrow> unit fact" where
  "copy_file mode p q =
     andthen (as_file (read_file p)) (\<lambda>raw.
     on_error (\<lambda>c. raise (if c = ''EEXIST'' then ''FILE_EXISTS'' else ''FILE_WRITE_FAILED'')) (create_new mode raw q))"

definition max_copy_entries :: nat where "max_copy_entries = 100000"

fun copy_items :: "nat \<Rightarrow> path \<Rightarrow> path \<Rightarrow> (path \<times> tree) list \<Rightarrow> unit fact" where
  "copy_items n src dst [] = ret ()"
| "copy_items n src dst ((r, t) # xs) =
     andthen (guard (n < max_copy_entries) ''FILE_TOO_LARGE'') (\<lambda>_.
     andthen (guard (\<not> is_link t) ''PATH_ESCAPE'') (\<lambda>_.
     andthen (if r = [] then ret ()
       else andthen (as_error ''FILE_WRITE_FAILED'' (lstat (src @ r))) (\<lambda>_.
       if is_folder t then as_error ''FILE_WRITE_FAILED'' (mkdir (node_mode t) (dst @ r))
       else if \<not> is_reg t then raise ''INVALID_REQUEST''
       else copy_file (node_mode t) (src @ r) (dst @ r))) (\<lambda>_.
     andthen (when_do (is_folder t) (as_error ''FILE_WRITE_FAILED'' (discard (read_dir (src @ r))))) (\<lambda>_.
     copy_items (Suc n) src dst xs))))"

definition copy_directory :: "path \<Rightarrow> path \<Rightarrow> tree \<Rightarrow> unit fact" where
  "copy_directory src dst t =
     andthen (as_error ''FILE_WRITE_FAILED'' (mkdir 0x1E8 dst)) (\<lambda>_.
     on_error (\<lambda>c. andthen (attempt (remove_all dst)) (\<lambda>_. raise c))
       (copy_items 0 src dst (walk_list [] t)))"

definition copy_entry :: "bool \<Rightarrow> unit result \<Rightarrow> string \<Rightarrow> string \<Rightarrow> file_entry fact" where
  "copy_entry slot_free lock src dst = andthen (guard slot_free ''TOO_MANY_REQUESTS'') (\<lambda>_. mutate lock (
     andthen (entry_path src) (\<lambda>s.
     andthen (entry_path dst) (\<lambda>d.
     andthen (secure_path s False) (\<lambda>p.
     andthen (secure_path d True) (\<lambda>q.
     andthen (require_absent ''FILE_EXISTS'' q) (\<lambda>_.
     andthen (as_file (lstat p)) (\<lambda>info.
     andthen (guard (\<not> is_link info \<and> (is_folder info \<or> is_reg info)) ''INVALID_REQUEST'') (\<lambda>_.
     andthen (guard (is_folder info \<longrightarrow> \<not> strict_prefix p q) ''INVALID_REQUEST'') (\<lambda>_.
     andthen (if is_folder info then copy_directory p q info else copy_file (node_mode info) p q) (\<lambda>_.
     andthen (attempt (stat q)) (\<lambda>r.
     ret \<lparr>fe_name = path_base d, fe_path = d,
       fe_type = (if is_folder info then ''directory'' else ''file''),
       fe_size = (case r of Inl e \<Rightarrow> node_size info | Inr t \<Rightarrow> node_size t), fe_mode = node_mode info\<rparr>))))))))))))"

end
