(* ===== verification/FileService_Laws.thy ===== *)
theory FileService_Laws
  imports FileTree_Laws FileOps
begin

text \<open>
  Laws of the file service: the normal form of paths, what \<open>securePath\<close> guarantees, and the actions
  that only look at the tree.
\<close>

section \<open>Actions that only look\<close>

definition quiet :: "('d, 'a) dact \<Rightarrow> bool" where
  "quiet m \<longleftrightarrow> (\<forall>d w r d' w'. m d w = (r, d', w') \<longrightarrow> d' = d \<and> set w' \<subseteq> set w)"

named_theorems quiet_intros \<open>actions that leave the tables alone\<close>

lemma quiet_ret [quiet_intros]: "quiet (ret x)" and quiet_raise [quiet_intros]: "quiet (raise c)"
  by (auto simp: quiet_def ret_def raise_def)

lemma quiet_stmt: "(\<And>d. snd (q d) = d) \<Longrightarrow> quiet (stmt q)"
  by (auto simp: quiet_def stmt_def split: list.splits outcome.splits)

lemma quiet_query [quiet_intros]: "quiet (query q)"
  unfolding query_def by (rule quiet_stmt) simp

lemma quiet_andthen [quiet_intros]: "quiet m \<Longrightarrow> (\<And>x. quiet (f x)) \<Longrightarrow> quiet (andthen m f)"
  unfolding quiet_def andthen_def by (fastforce split: prod.splits sum.splits)

lemma quiet_on_error [quiet_intros]: "quiet m \<Longrightarrow> (\<And>c. quiet (h c)) \<Longrightarrow> quiet (on_error h m)"
  unfolding quiet_def on_error_def by (fastforce split: prod.splits sum.splits)

lemma quiet_attempt [quiet_intros]: "quiet m \<Longrightarrow> quiet (attempt m)"
  unfolding quiet_def attempt_def by (fastforce split: prod.splits)

lemma quiet_guard [quiet_intros]: "quiet (guard b c)" and quiet_need [quiet_intros]: "quiet (need c x)"
  and quiet_lift [quiet_intros]: "quiet (lift_result r)"
  by (auto simp: guard_def need_def lift_result_def quiet_intros split: option.split sum.split)

lemma quiet_calls [quiet_intros]:
  "quiet (lstat p)" "quiet (stat p)" "quiet (read_file p)" "quiet (read_dir p)"
  unfolding lstat_def stat_def read_file_def read_dir_def by (rule quiet_stmt, simp)+

lemma quiet_as [quiet_intros]: "quiet m \<Longrightarrow> quiet (as_file m)" "quiet m \<Longrightarrow> quiet (as_error c m)"
  by (simp_all add: as_file_def as_error_def quiet_intros)

lemma quiet_walk [quiet_intros]: "quiet (walk base cs allow)"
  by (induction base cs allow rule: walk.induct)
    (auto intro!: quiet_intros split: sum.split)

lemma quiet_secure_path [quiet_intros]: "quiet (secure_path rel allow)"
  unfolding secure_path_def by (intro quiet_intros)

lemma quiet_entry_path [quiet_intros]: "quiet (entry_path rel)"
  by (auto simp: entry_path_def intro: quiet_intros split: sum.split)

lemma quiet_read_manifest [quiet_intros]: "quiet (read_manifest jdec dir)"
  unfolding read_manifest_def by (auto intro!: quiet_intros split: sum.split)

lemma quiet_locate [quiet_intros]: "quiet (locate_entry jdec bin i)"
  unfolding locate_entry_def by (intro quiet_intros)

lemma quiet_same: "quiet m \<Longrightarrow> m d w = (r, d', w') \<Longrightarrow> d' = d"
  unfolding quiet_def by blast

text \<open>A quiet action keeps what holds; what it returns tells what held.\<close>

lemma en_quiet:
  assumes "quiet m" and "\<And>d w x d' w'. P d \<Longrightarrow> yields m d w x d' w' \<Longrightarrow> Q x d"
    and "\<And>d w e d' w'. P d \<Longrightarrow> m d w = (Inl e, d', w') \<Longrightarrow> E (err_code e) d"
  shows "ensures P m Q E"
  unfolding ensures_def
proof (intro allI impI)
  fix d w r d' w'
  assume "P d" and "Lost \<notin> set w" and run: "m d w = (r, d', w')"
  moreover have "d' = d" "set w' \<subseteq> set w" using assms(1) run unfolding quiet_def by blast+
  ultimately show "Lost \<notin> set w' \<and> outcome_ok Q E r d'"
    using assms(2,3) by (cases r) auto
qed

lemma en_keep:
  assumes "quiet m" and "\<And>d. P d \<Longrightarrow> E' d"
  shows "ensures P m (\<lambda>x d. P d) (\<lambda>e d. E' d)"
  by (rule en_quiet) (use assms in auto)

section \<open>What the calls answer\<close>

lemma attempt_yields [act_simps]: "yields (attempt m) d w r d' w' \<longleftrightarrow> m d w = (r, d', w')"
  by (auto simp: attempt_def split: prod.splits)

lemma lstat_run:
  assumes "lstat p d w = (r, d', w')"
  shows "d' = d \<and> (r = node_at d p \<or> r = sql_error)"
  using assms by (auto simp: lstat_def stmt_def split: list.splits outcome.splits)

lemma lstat_yields: "yields (lstat p) d w t d' w' \<Longrightarrow> d' = d \<and> node_at d p = Inr t"
  using lstat_run by fastforce

lemma stat_yields: "yields (stat p) d w t d' w' \<Longrightarrow> d' = d \<and> stat_of d p = Inr t"
  unfolding stat_def by (drule stmt_yields) auto

lemma stat_of_plain: "node_at d p = Inr t \<Longrightarrow> \<not> is_link t \<Longrightarrow> stat_of d p = Inr t"
  by (cases t) (auto simp: stat_of_def is_link_def)

lemma as_file_yields [act_simps]: "yields (as_file m) d w x d' w' \<longleftrightarrow> yields m d w x d' w'"
  by (auto simp: as_file_def on_error_def raise_def split: prod.splits sum.splits)

lemma as_error_yields [act_simps]: "yields (as_error c m) d w x d' w' \<longleftrightarrow> yields m d w x d' w'"
  by (auto simp: as_error_def on_error_def raise_def split: prod.splits sum.splits)

lemma lift_result_yields [act_simps]: "yields (lift_result r) d w x d' w' \<longleftrightarrow> r = Inr x \<and> d' = d \<and> w' = w"
  by (auto simp: lift_result_def act_simps split: sum.split)

section \<open>Normal paths\<close>

lemma normalize_relative_confined:
  assumes "normalize_relative v = Inr c"
  shows "confined c"
  using assms path_clean_confined(1) by (auto simp: normalize_relative_def Let_def split: if_splits)

lemma elems_plain:
  assumes "confined c"
  shows "list_all plain_name (elems c)"
  using assms by (auto simp: confined_def elems_def)

lemma elems_Nil: "confined c \<Longrightarrow> elems c = [] \<longleftrightarrow> c = dot"
  by (auto simp: elems_def)

lemma recycle_path_elems:
  assumes "confined c"
  shows "is_recycle_path c \<longleftrightarrow> elems c \<noteq> [] \<and> hd (elems c) = recycle_bin"
proof (cases "c = dot")
  case True
  then show ?thesis
    by (simp add: elems_def is_recycle_path_def has_prefix_def dot_def recycle_bin_def)
next
  case False
  have bin: "split_on slash recycle_bin = [recycle_bin]" by code_simp
  obtain x xs where c: "split_on slash c = x # xs" by (cases "split_on slash c") auto
  have "has_prefix c (recycle_bin @ [slash]) \<longleftrightarrow> x = recycle_bin \<and> xs \<noteq> []"
    unfolding has_prefix_slash_iff bin c by (auto simp: strict_prefix_def)
  moreover have "c = recycle_bin \<longleftrightarrow> x = recycle_bin \<and> xs = []"
    using c bin join_split [of slash c] by auto
  ultimately show ?thesis using False c by (auto simp: is_recycle_path_def elems_def)
qed

section \<open>The checks of \<open>securePath\<close>\<close>

definition plain_node :: "disk \<Rightarrow> path \<Rightarrow> bool" where
  "plain_node d p \<longleftrightarrow> (\<exists>t. node_at d p = Inr t \<and> \<not> is_link t)"

definition folder_at :: "disk \<Rightarrow> path \<Rightarrow> bool" where
  "folder_at d p \<longleftrightarrow> (\<exists>m es. node_at d p = Inr (Folder m es))"

lemma folder_at_iff: "folder_at d p \<longleftrightarrow> (\<exists>t. node_at d p = Inr t \<and> is_folder t)"
proof
  assume "\<exists>t. node_at d p = Inr t \<and> is_folder t"
  then obtain t where "node_at d p = Inr t" "is_folder t" by blast
  then show "folder_at d p" by (cases t) (auto simp: folder_at_def is_folder_def)
qed (auto simp: folder_at_def is_folder_def)

lemma folder_at_shape: "folder_at d p \<longleftrightarrow> (\<exists>m. shape_at d p = Inr (Folder m []))"
proof
  assume "\<exists>m. shape_at d p = Inr (Folder m [])"
  then show "folder_at d p"
    by (cases "node_at d p"; cases "projr (node_at d p)") (auto simp: folder_at_def shape_at_def shape_def)
qed (auto simp: folder_at_def shape_at_def shape_def)

text \<open>A path whose proper prefixes are folders.\<close>

definition reachable :: "disk \<Rightarrow> path \<Rightarrow> bool" where
  "reachable d p \<longleftrightarrow> folder_at d [] \<and> (p = [] \<or> good_parent d p)"

lemma reachable_snoc:
  assumes "reachable d p" and "folder_at d p"
  shows "good_parent d (p @ [c])"
proof (cases "p = []")
  case True
  then show ?thesis using assms
    by (auto simp: folder_at_def good_parent_single node_at_def split: option.splits)
next
  case False
  then show ?thesis using assms good_parent_snoc by (auto simp: reachable_def folder_at_def)
qed

lemma walk_yields:
  assumes "yields (walk base cs allow) d w x d' w'" and "reachable d base" and "folder_at d base" and "cs \<noteq> []"
  shows "good_parent d (base @ cs) \<and>
    (plain_node d (base @ cs) \<or> allow \<and> node_at d (base @ cs) = Err ''ENOENT'')"
  using assms
proof (induction base cs allow arbitrary: w rule: walk.induct)
  case (2 base c cs allow)
  have gp: "good_parent d (base @ [c])" using reachable_snoc "2.prems"(2,3) by blast
  obtain r w1 where r: "lstat (base @ [c]) d w = (r, d, w1)"
    and rest: "yields (case r of
       Inl e \<Rightarrow> if err_code e = ''ENOENT'' \<and> cs = [] \<and> allow then ret () else raise (file_error (err_code e))
     | Inr t \<Rightarrow> if is_link t then raise ''PATH_ESCAPE''
         else if cs \<noteq> [] \<and> \<not> is_folder t then raise ''INVALID_REQUEST'' else walk (base @ [c]) cs allow) d w1 x d' w'"
    using "2.prems"(1) by (auto simp: act_simps dest: lstat_run)
  show ?case
  proof (cases r)
    case (Inl e)
    then have "err_code e = ''ENOENT''" "cs = []" "allow"
      using rest by (auto simp: act_simps split: if_splits)
    moreover from this have "node_at d (base @ [c]) = Inl e"
      using lstat_run [OF r] Inl by auto
    ultimately show ?thesis using gp by (cases e) auto
  next
    case (Inr t)
    have t: "node_at d (base @ [c]) = Inr t" using lstat_run [OF r] Inr by auto
    have ok: "\<not> is_link t" "cs \<noteq> [] \<Longrightarrow> is_folder t" and next_step: "yields (walk (base @ [c]) cs allow) d w1 x d' w'"
      using rest Inr by (auto simp: act_simps split: if_splits)
    show ?thesis
    proof (cases "cs = []")
      case True
      then show ?thesis using gp t ok by (auto simp: plain_node_def)
    next
      case False
      have "reachable d (base @ [c])" "folder_at d (base @ [c])"
        using gp "2.prems"(2) t ok(2) [OF False] by (auto simp: reachable_def folder_at_iff)
      then show ?thesis using "2.IH" Inr ok False next_step by auto
    qed
  qed
qed simp

theorem secure_path_yields:
  assumes "yields (secure_path rel allow) d w p d' w'"
  obtains clean where "normalize_relative rel = Inr clean" "p = elems clean" "\<not> is_recycle_path clean"
    "d' = d" "reachable d p" "plain_node d p \<or> allow \<and> p \<noteq> [] \<and> node_at d p = Err ''ENOENT''"
proof -
  obtain clean root w1 w2 where c: "normalize_relative rel = Inr clean" "\<not> is_recycle_path clean" "p = elems clean"
    and root: "node_at d [] = Inr root" "\<not> is_link root" "is_folder root"
    and walk: "yields (walk [] (elems clean) allow) d w1 () d' w2"
    using assms by (auto simp: secure_path_def act_simps dest!: lstat_yields)
  have d: "d' = d" using quiet_same [OF quiet_walk walk] .
  have f: "folder_at d []" "reachable d []" using root by (auto simp: folder_at_iff reachable_def)
  show thesis
  proof (cases "elems clean = []")
    case True
    then show ?thesis using that c d f root by (auto simp: plain_node_def)
  next
    case False
    then show ?thesis using that c d f walk_yields [OF walk f(2,1)] by (auto simp: reachable_def)
  qed
qed

text \<open>And the other way round, when no call fails.\<close>

lemma lstat_ok: "lstat p d [] = (node_at d p, d, [])"
  by (simp add: lstat_def stmt_def)

lemma andthen_run: "m d w = (Inr x, d1, w1) \<Longrightarrow> andthen m f d w = f x d1 w1"
  by (simp add: andthen_def)

lemma walk_run:
  assumes "good_parent d (base @ cs)" and "cs \<noteq> []"
    and "plain_node d (base @ cs) \<or> allow \<and> node_at d (base @ cs) = Err ''ENOENT''"
  shows "walk base cs allow d [] = (Inr (), d, [])"
  using assms
proof (induction cs arbitrary: base)
  case (Cons c cs)
  show ?case
  proof (cases "cs = []")
    case True
    then show ?thesis using Cons.prems(3)
      by (auto simp: plain_node_def andthen_def attempt_def lstat_ok ret_def)
  next
    case False
    have "strict_prefix (base @ [c]) (base @ c # cs)" using False by (auto simp: strict_prefix_def)
    then obtain m es where t: "node_at d (base @ [c]) = Inr (Folder m es)"
      using good_parent_folder Cons.prems(1) by blast
    then have "walk (base @ [c]) cs allow d [] = (Inr (), d, [])"
      using Cons.IH [of "base @ [c]"] Cons.prems False by simp
    then show ?thesis using t by (simp add: andthen_def attempt_def lstat_ok is_link_def is_folder_def)
  qed
qed simp

lemma secure_path_run:
  assumes "normalize_relative rel = Inr clean" and "\<not> is_recycle_path clean" and "reachable d (elems clean)"
    and "plain_node d (elems clean) \<or> allow \<and> elems clean \<noteq> [] \<and> node_at d (elems clean) = Err ''ENOENT''"
  shows "secure_path rel allow d [] = (Inr (elems clean), d, [])"
proof -
  obtain m es where root: "node_at d [] = Inr (Folder m es)"
    using assms(3) by (auto simp: reachable_def folder_at_def)
  have "walk [] (elems clean) allow d [] = (Inr (), d, [])"
    using assms(3,4) walk_run [of d "[]" "elems clean" allow]
    by (cases "elems clean = []") (auto simp: reachable_def ret_def)
  then show ?thesis using assms(1,2) root
    by (simp add: secure_path_def andthen_def lift_result_def guard_def as_file_def on_error_def lstat_ok ret_def
        is_link_def is_folder_def)
qed

section \<open>Names in normal paths\<close>

lemma split_on_subset: "n \<in> set (split_on c s) \<Longrightarrow> x \<in> set n \<Longrightarrow> x \<in> set s"
proof (induction s arbitrary: n)
  case (Cons a s)
  then show ?case
    using Cons.IH [of "hd (split_on c s)"] by (cases "split_on c s") (auto split: if_splits)
qed simp

lemma normal_elems:
  assumes "normalize_relative rel = Inr clean"
  obtains v where "CHR 0x5C \<notin> set v" "elems clean = filter plain_name (split_on slash v)"
proof -
  let ?v = "replace_char (CHR 0x5C) slash (trim_space rel)"
  have v: "CHR 0x5C \<notin> set (if ?v = [] then dot else ?v)" by (auto simp: replace_char_def slash_def dot_def)
  have "\<not> is_abs (if ?v = [] then dot else ?v)" "dotdot \<notin> set (split_on slash (if ?v = [] then dot else ?v))"
    "clean = path_clean (if ?v = [] then dot else ?v)"
    using assms by (auto simp: normalize_relative_def Let_def split: if_splits)
  then show thesis using that [OF v] path_clean_confined(2) by simp
qed

lemma normal_names:
  assumes "normalize_relative rel = Inr clean"
  shows "list_all (\<lambda>n. n \<noteq> [] \<and> n \<noteq> ''.'' \<and> n \<noteq> ''..'' \<and> slash \<notin> set n \<and> CHR 0x5C \<notin> set n) (elems clean)"
proof -
  obtain v where v: "CHR 0x5C \<notin> set v" and c: "elems clean = filter plain_name (split_on slash v)"
    using normal_elems [OF assms] .
  have "CHR 0x5C \<notin> set n" if "n \<in> set (split_on slash v)" for n
    using that v split_on_subset by blast
  then show ?thesis
    unfolding c using split_on_no_sep [of _ slash v] by (auto simp: list_all_iff plain_name_def dot_def dotdot_def)
qed

section \<open>Trailing spaces\<close>

lemma space_at_snoc: "s \<noteq> [] \<Longrightarrow> space_at space2 space3 (s @ '' '') = space_at space2 space3 s"
  by (cases s rule: remdups_adj.cases; cases "tl (tl s)") (auto simp: space2_def space3_def byte_def)

lemma trim_left_snoc: "trim_left (s @ '' '') = (if trim_left s = [] then [] else trim_left s @ '' '')"
  unfolding trim_left_def
proof (induction space2 space3 s rule: strip.induct)
  case (1 s)
  show ?case
  proof (cases "s = []")
    case True
    have "strip space2 space3 '' '' = []" by code_simp
    then show ?thesis using True by (simp add: strip_done)
  next
    case False
    note at = space_at_snoc [OF False]
    show ?thesis
    proof (cases "space_at space2 space3 s = 0")
      case True
      then show ?thesis using False at by (simp add: strip_done)
    next
      case non: False
      have "drop (space_at space2 space3 s) (s @ '' '') = drop (space_at space2 space3 s) s @ '' ''"
        using space_at_le [of space2 space3 s] by simp
      then have "strip space2 space3 (s @ '' '') = strip space2 space3 (drop (space_at space2 space3 s) s @ '' '')"
        using non at by (subst strip.simps) simp
      moreover have "strip space2 space3 s = strip space2 space3 (drop (space_at space2 space3 s) s)"
        using non by (subst strip.simps) simp
      ultimately show ?thesis using 1 [OF non] by simp
    qed
  qed
qed

lemma trim_right_snoc: "trim_right (s @ '' '') = trim_right s"
proof -
  have "space_at w2 w3 (CHR '' '' # t) = 1" for w2 w3 t
    by (cases t; cases "tl t") (simp_all add: ascii_space_def byte_def)
  then show ?thesis unfolding trim_right_def by (subst strip.simps) simp
qed

lemma trim_space_snoc: "trim_space (s @ '' '') = trim_space s"
  unfolding trim_space_def trim_left_snoc by (simp add: trim_right_snoc)

section \<open>The working directory\<close>

lemma root_run: "node_at d [] = Inr (Folder m es) \<Longrightarrow> ensure_root d [] = (Inr (), d, [])"
  by (simp add: ensure_root_def andthen_def attempt_def lstat_ok guard_def is_link_def is_folder_def ret_def)

lemma root_same:
  assumes "node_at d [] = Inr (Folder m es)" and "yields ensure_root d w x d' w'"
  shows "d' = d"
proof -
  obtain r w1 where "lstat [] d w = (r, d, w1)" "r = Inr (Folder m es) \<or> r = sql_error"
    using lstat_run [of "[]" d w] assms(1) by (metis prod_cases3)
  then show ?thesis using assms(2)
    by (auto simp: ensure_root_def andthen_def attempt_def ret_def guard_def raise_def split: if_splits)
qed

section \<open>Actions that leave the tree as it is\<close>

text \<open>From this tree, whatever the calls answer, and with a result of which \<open>Q\<close> holds.\<close>

definition leaves :: "disk \<Rightarrow> ('a \<Rightarrow> bool) \<Rightarrow> 'a fact \<Rightarrow> bool" where
  "leaves d Q m \<longleftrightarrow> (\<forall>w r d' w'. m d w = (r, d', w') \<longrightarrow> d' = d \<and> (case r of Inl e \<Rightarrow> True | Inr x \<Rightarrow> Q x))"

lemma leaves_quiet: "quiet m \<Longrightarrow> (\<And>w x w'. yields m d w x d w' \<Longrightarrow> Q x) \<Longrightarrow> leaves d Q m"
  using quiet_same [of m] unfolding leaves_def by (metis (no_types, lifting) sum.case(1) sum.case(2) sum.exhaust)

lemma leaves_andthen:
  assumes "leaves d R m" and "\<And>x. R x \<Longrightarrow> leaves d Q (f x)"
  shows "leaves d Q (andthen m f)"
  unfolding leaves_def
proof (intro allI impI)
  fix w r d' w'
  assume run: "andthen m f d w = (r, d', w')"
  obtain s d1 w1 where m: "m d w = (s, d1, w1)" by (metis prod_cases3)
  then have s: "d1 = d" "case s of Inl e \<Rightarrow> True | Inr x \<Rightarrow> R x" using assms(1) unfolding leaves_def by blast+
  show "d' = d \<and> (case r of Inl e \<Rightarrow> True | Inr x \<Rightarrow> Q x)"
  proof (cases s)
    case (Inl e)
    then show ?thesis using run m s by (auto simp: andthen_def)
  next
    case (Inr x)
    then have "f x d w1 = (r, d', w')" using run m s by (simp add: andthen_def)
    moreover have "leaves d Q (f x)" using assms(2) s Inr by simp
    ultimately show ?thesis unfolding leaves_def by blast
  qed
qed

lemma leaves_then: "leaves d (\<lambda>x. x = v) m \<Longrightarrow> leaves d Q (f v) \<Longrightarrow> leaves d Q (andthen m f)"
  by (rule leaves_andthen [where R = "\<lambda>x. x = v"]) simp_all

lemma leaves_skip: "quiet m \<Longrightarrow> (\<And>x. leaves d Q (f x)) \<Longrightarrow> leaves d Q (andthen m f)"
  by (rule leaves_andthen [OF leaves_quiet]) simp_all

lemma leaves_stop: "leaves d (\<lambda>_. False) m \<Longrightarrow> leaves d Q (andthen m f)"
  by (rule leaves_andthen [where R = "\<lambda>_. False"]) simp_all

lemma leavesD:
  "leaves d Q m \<Longrightarrow> m d w = (r, d', w') \<Longrightarrow> d' = d \<and> (case r of Inl e \<Rightarrow> True | Inr x \<Rightarrow> Q x)"
  unfolding leaves_def by blast

lemma leaves_case:
  assumes "leaves d Q m"
  shows "case m d w of (r, d', w') \<Rightarrow> d' = d \<and> (\<forall>x. r = Inr x \<longrightarrow> Q x)"
proof -
  obtain r d' w' where m: "m d w = (r, d', w')" by (metis prod_cases3)
  then show ?thesis using leavesD [OF assms m] by (cases r) simp_all
qed

lemma leaves_fails:
  assumes "leaves d (\<lambda>_. False) m"
  shows "case m d w of (r, d', w') \<Rightarrow> d' = d \<and> (\<exists>e. r = Inl e)"
proof -
  obtain r d' w' where m: "m d w = (r, d', w')" by (metis prod_cases3)
  then show ?thesis using leavesD [OF assms m] by (cases r) simp_all
qed

lemma leaves_raise: "leaves d Q (raise c)"
  by (simp add: leaves_def raise_def)

lemma leaves_root:
  assumes "node_at d [] = Inr (Folder m es)"
  shows "leaves d (\<lambda>_. True) ensure_root"
  unfolding leaves_def
proof (intro allI impI)
  fix w r d' w'
  assume run: "ensure_root d w = (r, d', w')"
  obtain s w1 where "lstat [] d w = (s, d, w1)" "s = Inr (Folder m es) \<or> s = sql_error"
    using lstat_run [of "[]" d w] assms by (metis prod_cases3)
  then show "d' = d \<and> (case r of Inl e \<Rightarrow> True | Inr x \<Rightarrow> True)" using run
    by (auto simp: ensure_root_def andthen_def attempt_def ret_def guard_def raise_def split: if_splits)
qed

lemma leaves_mutate:
  assumes "node_at d [] = Inr (Folder m es)" and "leaves d Q op"
  shows "leaves d Q (mutate lock op)"
  unfolding mutate_def
  by (rule leaves_andthen [OF leaves_quiet [OF quiet_lift] leaves_andthen [OF leaves_root [OF assms(1)] assms(2)]]) simp

lemma leaves_look:
  assumes "node_at d p = Inr t"
  shows "leaves d (\<lambda>r. r = Inr t \<or> r = sql_error) (attempt (lstat p))"
  by (rule leaves_quiet [OF quiet_attempt [OF quiet_calls(1)]])
    (use assms in \<open>auto simp: act_simps dest: lstat_run\<close>)

lemma leaves_absent:
  assumes "node_at d p = Inr t"
  shows "leaves d (\<lambda>_. False) (require_absent e p)"
  unfolding require_absent_def
  by (rule leaves_andthen [OF leaves_look [OF assms]]) (auto intro: leaves_raise)

lemma leaves_entry:
  assumes "normalize_relative rel = Inr clean"
  shows "leaves d (\<lambda>c. c = clean) (entry_path rel)"
  by (rule leaves_quiet [OF quiet_entry_path]) (use assms in \<open>simp add: entry_path_def act_simps split: if_splits\<close>)

lemma leaves_secure:
  assumes "normalize_relative clean = Inr clean"
  shows "leaves d (\<lambda>p. p = elems clean) (secure_path clean allow)"
  by (rule leaves_quiet [OF quiet_secure_path], erule secure_path_yields) (use assms in simp)

lemma leaves_any: "quiet m \<Longrightarrow> leaves d (\<lambda>_. True) m"
  by (rule leaves_quiet) simp_all

end
