(* ===== verification/RecycleBin_Laws.thy ===== *)
theory RecycleBin_Laws
  imports FileService_Laws
begin

text \<open>
  Laws of the recycle bin: what the tree looks like after an entry was moved there, and that
  restoring it brings back what was there before.
\<close>

section \<open>Places in the bin\<close>

definition slot :: "string \<Rightarrow> path" where
  "slot i = [recycle_bin, i]"

definition slot_data :: "string \<Rightarrow> path" where
  "slot_data i = [recycle_bin, i, ''data'']"

definition slot_manifest :: "string \<Rightarrow> path" where
  "slot_manifest i = [recycle_bin, i, ''manifest.json'']"

lemmas slot_defs = slot_def slot_data_def slot_manifest_def bin_path_def

text \<open>A path outside of the bin.\<close>

definition outside :: "path \<Rightarrow> bool" where
  "outside p \<longleftrightarrow> p \<noteq> [] \<and> hd p \<noteq> recycle_bin"

lemma outside_apart:
  assumes "outside p"
  shows "\<not> prefix p (recycle_bin # q)" and "\<not> prefix (recycle_bin # q) p"
    and "\<not> strict_prefix p (recycle_bin # q)" and "\<not> strict_prefix (recycle_bin # q) p"
  using assms by (cases p; auto simp: outside_def strict_prefix_def)+

lemma node_at_append:
  assumes "node_at d p = Inr t"
  shows "node_at d (p @ r) = resolve t r"
  using assms by (cases d) (simp_all add: node_at_def resolve_append)

lemma folder_at_root: "good_parent d p \<Longrightarrow> folder_at d []"
  using good_parent_folder [of d p "[]"] by (auto simp: folder_at_def good_parent_def strict_prefix_def)

lemma good_parent_in_folder:
  assumes "good_parent d p" and "folder_at d p"
  shows "good_parent d (p @ [c])"
  using assms good_parent_snoc by (auto simp: folder_at_def)

section \<open>Changes that keep a place\<close>

text \<open>What is known of a place after a change elsewhere.\<close>

lemma reg_set_other:
  assumes "node_at d q = Inr (Reg m b)" and "\<not> prefix p q"
  shows "node_at (set_node p x d) q = Inr (Reg m b)"
proof -
  have "shape_at (set_node p x d) q = Inr (Reg m b)"
    using assms by (simp add: shape_at_set_other) (simp add: shape_at_def shape_def)
  then show ?thesis
    by (cases "node_at (set_node p x d) q"; cases "projr (node_at (set_node p x d) q)")
      (auto simp: shape_at_def shape_def)
qed

lemma folder_set_other:
  assumes "folder_at d q" and "\<not> prefix p q"
  shows "folder_at (set_node p x d) q"
  using assms by (simp add: folder_at_shape shape_at_set_other)

lemma missing_set_other:
  assumes "node_at d q = Inl e" and "\<not> prefix p q"
  shows "node_at (set_node p x d) q = Inl e"
proof -
  have "shape_at (set_node p x d) q = Inl e"
    using assms by (simp add: shape_at_set_other) (simp add: shape_at_def)
  then show ?thesis by (cases "node_at (set_node p x d) q") (auto simp: shape_at_def)
qed

text \<open>Changing something that does not lie on the way to \<open>q\<close>, below or above it, keeps the node itself.\<close>

lemma alter_apart:
  assumes "\<not> prefix p q" and "\<not> prefix q p"
  shows "resolve (alter p f t) q = resolve t q"
  using assms
proof (induction p f t arbitrary: q rule: alter.induct)
  case (1 c f m es)
  then obtain a q' where q: "q = a # q'" by (cases q) auto
  then have "a \<noteq> c" using 1 by auto
  then show ?case by (cases "f (aget es c)") (simp_all add: q aget_adel aget_aput)
next
  case (2 c d cs f m es)
  then obtain a q' where q: "q = a # q'" by (cases q) auto
  show ?case
  proof (cases "aget es c")
    case (Some u)
    then show ?thesis using 2 q by (cases "a = c") (auto simp: aget_aput split: option.splits)
  qed (simp add: q)
qed auto

lemma node_set_apart:
  assumes "\<not> prefix p q" and "\<not> prefix q p"
  shows "node_at (set_node p x d) q = node_at d q"
  using alter_apart [OF assms] by (cases d) (simp_all add: node_at_def set_node_def)

section \<open>Moving to the bin\<close>

lemma mkdir_yields:
  "yields (mkdir mode p) d w x d' w' \<Longrightarrow> new_bad p d = None \<and> d' = set_node p (Some (Folder mode [])) d"
  unfolding mkdir_def sys_def by (rule exec_if_yields)

lemma rename_yields:
  "yields (rename p q) d w x d' w' \<Longrightarrow> rename_bad p q d = None \<and> d' = rename_node p q d"
  unfolding rename_def sys_def by (rule exec_if_yields)

lemma ensure_bin_yields:
  assumes "yields ensure_recycle_bin d w b d' w'" and "folder_at d []"
  shows "b = bin_path \<and> folder_at d' bin_path \<and> good_parent d' bin_path \<and>
    (d' = d \<or> node_at d bin_path = Err ''ENOENT'' \<and> d' = set_node bin_path (Some (Folder 0x1E8 [])) d)"
proof -
  have gp: "good_parent d bin_path"
    using assms(2) by (auto simp: bin_path_def good_parent_single folder_at_def node_at_def split: option.splits)
  have gp': "good_parent (set_node bin_path x d) bin_path" for x
    by (rule good_parent_set_other [OF gp]) simp
  obtain r w1 where r: "lstat bin_path d w = (r, d, w1)" and
    rest: "yields (andthen (case r of
        Inl e \<Rightarrow>
          if err_code e = ''ENOENT'' then
            andthen (on_error (\<lambda>c. if c = ''EEXIST'' then ret () else raise ''FILE_WRITE_FAILED'')
              (mkdir 0x1E8 bin_path)) (\<lambda>_. as_file (lstat bin_path))
          else raise (file_error (err_code e))
      | Inr t \<Rightarrow> ret t) (\<lambda>t. andthen (guard (\<not> is_link t \<and> is_folder t) ''PATH_ESCAPE'') (\<lambda>_. ret bin_path)))
      d w1 b d' w'"
    using assms(1) unfolding ensure_recycle_bin_def by (auto simp: act_simps dest: lstat_run)
  show ?thesis
  proof (cases r)
    case (Inr t)
    then have t: "node_at d bin_path = Inr t" using lstat_run [OF r] by simp
    have "is_folder t" "b = bin_path" "d' = d" using rest Inr by (auto simp: act_simps)
    then show ?thesis using t gp by (simp add: folder_at_iff)
  next
    case (Inl e)
    then have "err_code e = ''ENOENT''" using rest by (auto simp: act_simps split: if_splits)
    then have absent: "node_at d bin_path = Err ''ENOENT''"
      using lstat_run [OF r] Inl by (cases e) auto
    obtain d1 w2 w3 t where mk: "yields (on_error (\<lambda>c. if c = ''EEXIST'' then ret () else raise ''FILE_WRITE_FAILED'')
        (mkdir 0x1E8 bin_path)) d w1 () d1 w2" and t: "yields (lstat bin_path) d1 w2 t d' w3"
      and b: "is_folder t" "b = bin_path"
      using rest Inl \<open>err_code e = ''ENOENT''\<close> by (auto simp: act_simps)
    have d': "d' = d1" "node_at d1 bin_path = Inr t" using lstat_yields [OF t] by auto
    have "d1 = d \<or> d1 = set_node bin_path (Some (Folder 0x1E8 [])) d"
    proof (rule on_error_yields [OF mk])
      assume "yields (mkdir 0x1E8 bin_path) d w1 () d1 w2"
      then show ?thesis using mkdir_yields by blast
    next
      fix c d2 w2'
      assume m: "mkdir 0x1E8 bin_path d w1 = (Err c, d2, w2')"
        and "yields (if c = ''EEXIST'' then ret () else raise ''FILE_WRITE_FAILED'') d2 w2' () d1 w2"
      then have "d1 = d2" by (auto simp: act_simps split: if_splits)
      moreover have "d2 = d \<or> d2 = set_node bin_path (Some (Folder 0x1E8 [])) d"
        using m by (auto simp: mkdir_def sys_def exec_if_def stmt_def split: list.splits outcome.splits option.splits)
      ultimately show ?thesis by blast
    qed
    then show ?thesis
      using absent b d' gp' by (auto simp: folder_at_iff)
  qed
qed

text \<open>The tree after the move, by the places that matter.\<close>

definition in_bin :: "(manifest \<Rightarrow> string) \<Rightarrow> manifest \<Rightarrow> string \<Rightarrow> path \<Rightarrow> tree \<Rightarrow> disk \<Rightarrow> bool" where
  "in_bin jenc man i p t d \<longleftrightarrow> good_parent d p \<and> node_at d p = Err ''ENOENT'' \<and>
     folder_at d bin_path \<and> folder_at d (slot i) \<and> node_at d (slot_data i) = Inr t \<and>
     node_at d (slot_manifest i) = Inr (Reg 0x1A0 (jenc man)) \<and>
     good_parent d (slot i) \<and> good_parent d (slot_data i)"

lemma slot_paths: "bin_path @ [i] = slot i" "slot i @ [''data''] = slot_data i"
  "slot i @ [''manifest.json''] = slot_manifest i" "bin_path @ [i, ''data''] = slot_data i"
  "bin_path @ [i, ''manifest.json''] = slot_manifest i"
  by (simp_all add: slot_defs)

lemma move_steps:
  assumes p: "outside p" "good_parent d p" "node_at d p = Inr t"
    and bin: "folder_at d bin_path" "good_parent d bin_path" and fresh: "node_at d (slot i) = Inl e"
    and d3: "d3 = set_node (slot_manifest i) (Some (Reg 0x1A0 (jenc man))) (set_node (slot i) (Some (Folder 0x1E8 [])) d)"
  shows "in_bin jenc man i p t (rename_node p (slot_data i) d3)"
    and "\<And>q. \<not> prefix bin_path q \<Longrightarrow> \<not> prefix p q \<Longrightarrow> shape_at (rename_node p (slot_data i) d3) q = shape_at d q"
proof -
  note apart = outside_apart [OF p(1)]
  let ?d1 = "set_node (slot i) (Some (Folder 0x1E8 [])) d"
  let ?d4 = "set_node p None d3"
  let ?d5 = "rename_node p (slot_data i) d3"
  have s0: "good_parent d (slot i)"
    using good_parent_in_folder [OF bin(2,1), of i] by (simp add: slot_paths)
  have s1: "good_parent ?d1 (slot i)" by (rule good_parent_set_other [OF s0]) simp
  have f1: "node_at ?d1 (slot i) = Inr (Folder 0x1E8 [])" by (simp add: node_at_set_self [OF s0])
  have m1: "good_parent ?d1 (slot_manifest i)" and dt1: "good_parent ?d1 (slot_data i)"
    using good_parent_snoc [OF s1 f1] slot_paths by metis+
  have p1: "good_parent ?d1 p" "node_at ?d1 p = Inr t"
    using p(2,3) apart by (simp_all add: good_parent_set_other node_set_apart slot_defs)
  have p3: "good_parent d3 p" "node_at d3 p = Inr t"
    unfolding d3 using p1 apart by (simp_all add: good_parent_set_other node_set_apart slot_defs)
  have m3: "node_at d3 (slot_manifest i) = Inr (Reg 0x1A0 (jenc man))"
    unfolding d3 by (simp add: node_at_set_self [OF m1])
  have g3: "good_parent d3 (slot i)" "good_parent d3 (slot_data i)" "folder_at d3 (slot i)" "folder_at d3 bin_path"
    unfolding d3 using s1 dt1 bin(1) folder_at_iff [of ?d1 "slot i"] f1
    by (simp_all add: good_parent_set_other folder_set_other is_folder_def slot_defs strict_prefix_def)
  have eq: "?d5 = set_node (slot_data i) (Some t) ?d4"
    using p3(2) apart(1) by (auto simp: rename_node_def slot_data_def)
  have d4: "good_parent ?d4 (slot_data i)" "good_parent ?d4 (slot i)" "folder_at ?d4 (slot i)" "folder_at ?d4 bin_path"
    "node_at ?d4 (slot_manifest i) = Inr (Reg 0x1A0 (jenc man))"
    using g3 m3 apart by (simp_all add: good_parent_set_other folder_set_other reg_set_other slot_defs)
  have p4: "node_at ?d4 p = Err ''ENOENT''" "good_parent ?d4 p"
    using p3(1) by (simp_all add: node_at_set_self good_parent_set_other)
  show "in_bin jenc man i p t ?d5"
    unfolding in_bin_def eq using d4 p4 apart
    by (simp add: good_parent_set_other folder_set_other reg_set_other missing_set_other node_at_set_self slot_defs
        strict_prefix_def)
  show "shape_at ?d5 q = shape_at d q" if "\<not> prefix bin_path q" "\<not> prefix p q" for q
  proof -
    have n: "\<not> prefix (slot i) q" "\<not> prefix (slot_manifest i) q" "\<not> prefix (slot_data i) q"
      using that(1) by (cases q; auto simp: slot_defs)+
    show ?thesis unfolding eq unfolding d3 using n that(2) by (simp add: shape_at_set_other)
  qed
qed

lemma write_file_yields:
  "yields (write_file mode b p) d w x d' w' \<Longrightarrow>
     parent_bad p d = None \<and> d' = set_node p (Some (Reg (case node_at d p of Inr (Reg m c) \<Rightarrow> m | _ \<Rightarrow> mode) b)) d"
  unfolding write_file_def sys_def by (drule exec_if_yields) (simp split: option.splits)

lemma new_bad_fresh: "new_bad p d = None \<Longrightarrow> \<exists>e. node_at d p = Inl e"
  by (auto simp: new_bad_def split: option.splits sum.splits)

lemma outside_elems:
  assumes "normalize_relative rel = Inr clean" and "\<not> is_recycle_path clean" and "elems clean \<noteq> []"
  shows "outside (elems clean)"
  using assms recycle_path_elems [OF normalize_relative_confined] by (auto simp: outside_def)

text \<open>The root cannot be moved: the normal form of what is not \<open>.\<close> may still be \<open>.\<close>, so this is a hypothesis.\<close>

lemma move_to_bin_yields:
  assumes run: "yields (move_to_bin jenc now rid rel) d w i d' w'" and rel: "normalize_relative rel = Inr rel"
  obtains t where "rid = Some i" "outside (elems rel)" "good_parent d (elems rel)" "node_at d (elems rel) = Inr t"
    "\<not> is_link t" "in_bin jenc (deleted_manifest now rel t) i (elems rel) t d'"
    "\<And>q. \<not> prefix bin_path q \<Longrightarrow> \<not> prefix (elems rel) q \<Longrightarrow> shape_at d' q = shape_at d q"
proof -
  let ?p = "elems rel"
  obtain p t b wa wb wc wd we wf d1 d2 where dot: "rel \<noteq> dot" "\<not> is_recycle_path rel"
    and sec: "yields (secure_path rel False) d wa p d wb"
    and t: "node_at d p = Inr t" "\<not> is_link t"
    and bin: "yields ensure_recycle_bin d wc b d1 wd" and rid: "rid = Some i"
    and mk: "yields (mkdir 0x1E8 (b @ [i])) d1 we () d2 wf"
    and last: "yields (on_error (\<lambda>c. andthen (attempt (remove_all (b @ [i]))) (\<lambda>_. raise ''FILE_WRITE_FAILED''))
       (andthen (write_file 0x1A0 (jenc (deleted_manifest now rel t)) (b @ [i, ''manifest.json''])) (\<lambda>_.
        rename p (b @ [i, ''data''])))) d2 wf () d' w'"
    using run quiet_same [OF quiet_secure_path]
    by (fastforce simp: move_to_bin_def act_simps dest!: lstat_yields)
  have p: "p = ?p" and reach: "reachable d p"
    using secure_path_yields [OF sec] rel by auto
  have ne: "?p \<noteq> []" using elems_Nil [OF normalize_relative_confined [OF rel]] dot by simp
  have out: "outside ?p" using outside_elems [OF rel dot(2) ne] .
  have gp: "good_parent d ?p" "folder_at d []" using reach ne by (auto simp: reachable_def p)
  note ens = ensure_bin_yields [OF bin gp(2)]
  have b: "b = bin_path" and bin1: "folder_at d1 bin_path" "good_parent d1 bin_path" using ens by auto
  have d1: "good_parent d1 ?p" "node_at d1 ?p = Inr t"
    "\<And>q. \<not> prefix bin_path q \<Longrightarrow> shape_at d1 q = shape_at d q"
    using ens gp(1) t(1) p outside_apart [OF out, of "[]"]
    by (auto simp: good_parent_set_other node_set_apart shape_at_set_other bin_path_def)
  have mk1: "new_bad (slot i) d1 = None" "d2 = set_node (slot i) (Some (Folder 0x1E8 [])) d1"
    using mkdir_yields [OF mk] by (simp_all add: b slot_paths)
  obtain e where fresh: "node_at d1 (slot i) = Inl e" using new_bad_fresh [OF mk1(1)] by blast
  have s0: "good_parent d1 (slot i)" using good_parent_in_folder [OF bin1(2,1), of i] by (simp add: slot_paths)
  have "node_at d2 (slot_manifest i) = Err ''ENOENT''"
    using node_at_set_same [OF s0, of "Some (Folder 0x1E8 [])" "[''manifest.json'']"] mk1(2)
    by (simp add: slot_defs)
  then have steps: "d' = rename_node ?p (slot_data i) (set_node (slot_manifest i)
      (Some (Reg 0x1A0 (jenc (deleted_manifest now rel t)))) d2)"
    using last
  proof (elim on_error_yields, goal_cases)
    case 1
    then show ?case using p by (auto simp: act_simps b slot_paths dest!: write_file_yields rename_yields)
  next
    case (2 c d3 w3)
    then show ?case by (auto simp: act_simps)
  qed
  note final = move_steps [OF out d1(1,2) bin1 fresh refl, where jenc = jenc and man = "deleted_manifest now rel t"]
  show thesis
    by (rule that [OF rid out gp(1) t(1) [unfolded p] t(2)])
      (use final d1(3) steps mk1(2) in simp_all)
qed

section \<open>Restoring\<close>

text \<open>Locating an entry whose manifest is known.\<close>

lemma read_manifest_yields:
  assumes m: "yields (read_manifest jdec (slot i)) d w m d' w'" and raw: "node_at d (slot_manifest i) = Inr (Reg mode s)"
  obtains m0 where "jdec s = Some m0" "normalize_relative (rm_path m0) = Inr (rm_path m)"
proof -
  obtain b d2 w2 where b: "yields (read_file (slot_manifest i)) d w b d2 w2" and rest: "yields
    (andthen (need ''JSON'' (jdec b)) (\<lambda>m. case normalize_relative (rm_path m) of
       Inl e \<Rightarrow> raise ''INVALID_REQUEST''
     | Inr clean \<Rightarrow> if clean = dot \<or> is_recycle_path clean \<or> rm_name m = [] then raise ''INVALID_REQUEST''
         else ret (m\<lparr>rm_path := clean\<rparr>))) d2 w2 m d' w'"
    using m unfolding read_manifest_def slot_paths andthen_yields by blast
  have "stat_of d (slot_manifest i) = Inr (Reg mode s)" using raw by (simp add: stat_of_plain is_link_def)
  then have "b = s" using stmt_yields [OF b [unfolded read_file_def]] by simp
  then obtain m0 where j: "jdec s = Some m0" and k: "yields (case normalize_relative (rm_path m0) of
       Inl e \<Rightarrow> raise ''INVALID_REQUEST''
     | Inr clean \<Rightarrow> if clean = dot \<or> is_recycle_path clean \<or> rm_name m0 = [] then raise ''INVALID_REQUEST''
         else ret (m0\<lparr>rm_path := clean\<rparr>)) d2 w2 m d' w'"
    using rest by (auto simp: andthen_yields need_yields)
  show thesis
  proof (cases "normalize_relative (rm_path m0)")
    case (Inl e)
    then show thesis using k by (simp add: act_simps)
  next
    case (Inr clean)
    then have "m = m0\<lparr>rm_path := clean\<rparr>" using k by (auto simp: act_simps split: if_splits)
    then show thesis using that j Inr by simp
  qed
qed

lemma locate_yields:
  assumes run: "yields (locate_entry jdec bin_path i) d w x d' w'"
    and raw: "node_at d (slot_manifest i) = Inr (Reg mode (jenc man))"
    and json: "\<exists>m'. jdec (jenc man) = Some m' \<and> rm_path m' = rm_path man"
    and man: "normalize_relative (rm_path man) = Inr (rm_path man)"
  shows "fst x = slot i \<and> rm_path (snd x) = rm_path man"
proof -
  obtain w1 m w2 where m: "yields (read_manifest jdec (slot i)) d w1 m d w2" and x: "x = (slot i, m)"
    using run unfolding locate_entry_def slot_paths
    by (auto simp: act_simps dest!: lstat_yields elim!: on_error_yields dest: quiet_same [OF quiet_read_manifest])
  obtain m0 where "jdec (jenc man) = Some m0" "normalize_relative (rm_path m0) = Inr (rm_path m)"
    using read_manifest_yields [OF m raw] .
  then show ?thesis using json man x by auto
qed

lemma mkdir_all_run:
  assumes "good_parent d p"
  shows "mkdir_all mode (butlast p) d [] = (Inr (), d, [])"
proof (cases "butlast p = []")
  case True
  then show ?thesis by (simp add: mkdir_all_def ret_def)
next
  case False
  then obtain c cs where rv: "rev (butlast p) = c # cs" by (cases "rev (butlast p)") auto
  have "strict_prefix (butlast p) p"
    using assms by (cases p rule: rev_cases) (simp_all add: good_parent_def strict_prefix_def)
  then obtain m es where "node_at d (butlast p) = Inr (Folder m es)" using good_parent_folder [OF assms] by blast
  then have "stat_of d (rev (c # cs)) = Inr (Folder m es)"
    unfolding rv [symmetric] by (simp add: stat_of_plain is_link_def)
  then show ?thesis
    unfolding mkdir_all_def rv
    by (simp add: andthen_def attempt_def stat_def stmt_def guard_def ret_def is_folder_def)
qed

lemma deleted_manifest_good:
  assumes "normalize_relative rel = Inr rel" and "rel \<noteq> dot" and "\<not> is_recycle_path rel"
  shows "rm_path (deleted_manifest now rel t) = rel" and "rm_name (deleted_manifest now rel t) \<noteq> []"
proof -
  have "list_all plain_name (split_on slash rel)"
    using confined_split normalize_relative_confined assms(1,2) by blast
  then have "plain_name (last (split_on slash rel))" by (simp add: list_all_iff)
  then show "rm_name (deleted_manifest now rel t) \<noteq> []"
    by (simp add: deleted_manifest_def path_base_def plain_name_def)
qed (simp add: deleted_manifest_def)

lemma ensure_bin_run: "folder_at d bin_path \<Longrightarrow> ensure_recycle_bin d [] = (Inr bin_path, d, [])"
  by (auto simp: folder_at_def ensure_recycle_bin_def andthen_def attempt_def lstat_ok ret_def guard_def
      is_link_def is_folder_def)

lemma restore_data_run:
  assumes st: "in_bin jenc (deleted_manifest now rel t) i (elems rel) t d" and id: "valid_entry_id i"
    and t: "is_folder t \<or> is_reg t" and json: "jdec (jenc (deleted_manifest now rel t)) = Some (deleted_manifest now rel t)"
    and rel: "normalize_relative rel = Inr rel" "rel \<noteq> dot" "\<not> is_recycle_path rel"
  shows "restore_data jdec i d [] =
    (Inr (slot i), set_node (elems rel) (Some t) (set_node (slot_data i) None d), [])"
proof -
  let ?m = "deleted_manifest now rel t" and ?p = "elems rel"
  note s = st [unfolded in_bin_def]
  have ne: "?p \<noteq> []" using elems_Nil [OF normalize_relative_confined [OF rel(1)]] rel(2) by simp
  have out: "outside ?p" using outside_elems [OF rel(1,3) ne] .
  have nl: "\<not> is_link t" using t by (cases t) (auto simp: is_folder_def is_reg_def is_link_def)
  have stat: "stat_of d (slot_manifest i) = Inr (Reg 0x1A0 (jenc ?m))"
    using s by (simp add: stat_of_plain is_link_def)
  have man: "read_manifest jdec (slot i) d [] = (Inr ?m, d, [])"
    using json rel deleted_manifest_good [OF rel, of now t] stat
    by (simp add: read_manifest_def andthen_def read_file_def stmt_def slot_paths need_def ret_def)
  have loc: "locate_entry jdec bin_path i d [] = (Inr (slot i, ?m), d, [])"
  proof -
    obtain m es where f: "node_at d (slot i) = Inr (Folder m es)" using s by (auto simp: folder_at_def)
    have ty: "rm_type ?m = (if is_folder t then ''directory'' else ''file'')" by (simp add: deleted_manifest_def)
    show ?thesis unfolding locate_entry_def
      using id f s t nl man ty
      by (auto simp: andthen_def guard_def ret_def as_file_def as_error_def on_error_def lstat_ok slot_paths
          is_folder_def is_link_def is_reg_def split: tree.splits)
  qed
  have root: "folder_at d []" using folder_at_root s by blast
  have sec: "secure_path (rm_path ?m) True d [] = (Inr ?p, d, [])"
    using secure_path_run [OF rel(1,3), of d True] s ne root by (simp add: deleted_manifest_def reachable_def)
  have ren: "rename (slot_data i) ?p d [] = (Inr (), set_node ?p (Some t) (set_node (slot_data i) None d), [])"
  proof -
    have "?p \<noteq> slot_data i" using out by (auto simp: outside_def slot_data_def)
    moreover have "\<not> strict_prefix (slot_data i) ?p"
      using outside_apart [OF out] by (simp add: slot_data_def)
    moreover have "parent_bad ?p d = None" using good_parent_ok s by blast
    ultimately show ?thesis using s
      by (simp add: rename_def sys_def exec_if_def stmt_def rename_bad_def rename_node_def)
  qed
  have mk: "mkdir_all 0x1E8 (butlast ?p) d [] = (Inr (), d, [])" using mkdir_all_run s by blast
  show ?thesis
    unfolding restore_data_def
    using s loc sec mk ren
    by (simp add: andthen_def ensure_bin_run attempt_def lstat_ok ret_def as_file_def as_error_def on_error_def slot_paths)
qed

text \<open>Everything outside of the bin is as it was before the entry went there.\<close>

lemma restored_same:
  assumes p: "outside p" "good_parent d p" "node_at d p = Inr t" and in_bin: "in_bin jenc man i p t d1"
    and others: "\<And>q. \<not> prefix bin_path q \<Longrightarrow> \<not> prefix p q \<Longrightarrow> shape_at d1 q = shape_at d q"
    and q: "\<not> prefix bin_path q"
  shows "shape_at (set_node (slot i) None (set_node p (Some t) (set_node (slot_data i) None d1))) q = shape_at d q"
proof -
  have n: "\<not> prefix (slot i) q" "\<not> prefix (slot_data i) q" using q by (cases q; auto simp: slot_defs)+
  show ?thesis
  proof (cases "prefix p q")
    case True
    then obtain r where r: "q = p @ r" by (auto simp: prefix_def)
    have "good_parent (set_node (slot_data i) None d1) p"
      using in_bin outside_apart [OF p(1)] by (simp add: in_bin_def good_parent_set_other slot_defs)
    then have "node_at (set_node p (Some t) (set_node (slot_data i) None d1)) q = resolve t r"
      by (simp add: r node_at_set_same)
    then show ?thesis using node_at_append [OF p(3), of r] n by (simp add: shape_at_set_other) (simp add: shape_at_def r)
  next
    case False
    then show ?thesis using n others [OF q False] by (simp add: shape_at_set_other)
  qed
qed

lemma in_bin_root: "in_bin jenc man i p t d \<Longrightarrow> \<exists>m es. node_at d [] = Inr (Folder m es)"
  using folder_at_root by (auto simp: in_bin_def folder_at_def)

lemma delete_one_yields:
  assumes "yields (delete_one jenc now recursive (rel, rid)) d w x d' w'"
  obtains clean w1 j w2 where "normalize_relative rel = Inr clean" "clean \<noteq> dot" "\<not> is_recycle_path clean"
    "yields (move_to_bin jenc now rid clean) d w1 j d' w2"
proof -
  obtain c d1 w1 p d2 w2 t d3 w3 where c: "yields (entry_path rel) d w c d1 w1" "\<not> is_recycle_path c"
    and p: "yields (secure_path c False) d1 w1 p d2 w2" and t: "yields (lstat p) d2 w2 t d3 w3"
    and m: "yields (discard (move_to_bin jenc now rid c)) d3 w3 () d' w'"
    using assms unfolding delete_one_def by (auto simp: act_simps)
  have d: "d3 = d"
    using quiet_same [OF quiet_entry_path c(1)] quiet_same [OF quiet_secure_path p] lstat_yields [OF t] by simp
  have n: "normalize_relative rel = Inr c" "c \<noteq> dot"
    using c(1) by (auto simp: entry_path_def act_simps split: sum.splits if_splits)
  obtain j w4 where "yields (move_to_bin jenc now rid c) d w3 j d' w4"
    using m by (auto simp: d discard_def act_simps)
  then show thesis using that n c(2) by blast
qed

end
