(* ===== verification/FileSave_Laws.thy ===== *)
theory FileSave_Laws
  imports RecycleBin_Laws
begin

text \<open>
  Saving a file under failures: pre- and postconditions of moving to the bin, publishing and
  restoring, for one file with fixed contents. They assume that a call that reports an error has
  not taken effect.
\<close>

definition at_place :: "path \<Rightarrow> tree \<Rightarrow> string \<Rightarrow> disk \<Rightarrow> bool" where
  "at_place p t i d \<longleftrightarrow> good_parent d p \<and> node_at d p = Inr t \<and> node_at d (slot i) = Err ''ENOENT''"

text \<open>The entry in the bin, with or without something at its old place.\<close>

definition binned :: "(manifest \<Rightarrow> string) \<Rightarrow> manifest \<Rightarrow> string \<Rightarrow> path \<Rightarrow> tree \<Rightarrow> disk \<Rightarrow> bool" where
  "binned jenc man i p t d \<longleftrightarrow> good_parent d p \<and> folder_at d bin_path \<and> folder_at d (slot i) \<and>
     node_at d (slot_data i) = Inr t \<and> node_at d (slot_manifest i) = Inr (Reg 0x1A0 (jenc man)) \<and>
     good_parent d (slot i) \<and> good_parent d (slot_data i)"

definition kept_somewhere :: "path \<Rightarrow> string \<Rightarrow> tree \<Rightarrow> disk \<Rightarrow> bool" where
  "kept_somewhere p i t d \<longleftrightarrow> node_at d p = Inr t \<or> node_at d (slot_data i) = Inr t"

lemma in_bin_binned: "in_bin jenc man i p t d \<Longrightarrow> binned jenc man i p t d"
  by (simp add: in_bin_def binned_def)

section \<open>Errors of the checks\<close>

lemma walk_error:
  assumes "good_parent d (base @ cs)" and "plain_node d (base @ cs)" and "walk base cs allow d w = (Inl e, d', w')"
  shows "err_code e = ''FILE_OPERATION_FAILED''"
  using assms
proof (induction cs arbitrary: base w)
  case Nil
  then show ?case by (simp add: ret_def)
next
  case (Cons c cs)
  have there: "\<exists>t. node_at d (base @ [c]) = Inr t \<and> \<not> is_link t \<and> (cs \<noteq> [] \<longrightarrow> is_folder t)"
  proof (cases "cs = []")
    case True
    then show ?thesis using Cons.prems(2) by (auto simp: plain_node_def)
  next
    case False
    then have "strict_prefix (base @ [c]) (base @ c # cs)" by (auto simp: strict_prefix_def)
    then show ?thesis using good_parent_folder [OF Cons.prems(1)] by (fastforce simp: is_link_def is_folder_def)
  qed
  then obtain t where t: "node_at d (base @ [c]) = Inr t" "\<not> is_link t" "cs \<noteq> [] \<longrightarrow> is_folder t" by blast
  obtain r w1 where r: "lstat (base @ [c]) d w = (r, d, w1)" "r = Inr t \<or> r = sql_error"
    using lstat_run [of "base @ [c]" d w] t(1) by (metis prod_cases3)
  show ?case
  proof (cases "r = Inr t")
    case True
    then have "walk (base @ [c]) cs allow d w1 = (Inl e, d', w')"
      using Cons.prems(3) r(1) t by (auto simp: andthen_def attempt_def)
    then show ?thesis using Cons.IH [of "base @ [c]"] Cons.prems by simp
  next
    case False
    then show ?thesis using Cons.prems(3) r by (auto simp: andthen_def attempt_def raise_def file_error_def)
  qed
qed

lemma secure_path_error:
  assumes "normalize_relative rel = Inr clean" and "\<not> is_recycle_path clean" and "elems clean \<noteq> []"
    and "good_parent d (elems clean)" and "plain_node d (elems clean)"
    and "secure_path rel allow d w = (Inl e, d', w')"
  shows "err_code e = ''FILE_OPERATION_FAILED''"
proof -
  obtain m es where root: "node_at d [] = Inr (Folder m es)"
    using folder_at_root [OF assms(4)] by (auto simp: folder_at_def)
  obtain r w1 where r: "lstat [] d w = (r, d, w1)" "r = Inr (Folder m es) \<or> r = sql_error"
    using lstat_run [of "[]" d w] root by (metis prod_cases3)
  show ?thesis
  proof (cases "r = sql_error")
    case True
    then show ?thesis using assms(1,2,6) r(1)
      by (auto simp: secure_path_def andthen_def lift_result_def guard_def ret_def as_file_def on_error_def raise_def
          file_error_def)
  next
    case False
    then obtain s d1 w2 where s: "walk [] (elems clean) allow d w1 = (s, d1, w2)" by (metis prod_cases3)
    then have "s = Inl e"
      using False assms(1,2,6) r
      by (cases s) (auto simp: secure_path_def andthen_def lift_result_def guard_def ret_def as_file_def on_error_def
          is_link_def is_folder_def)
    then show ?thesis using walk_error [of d "[]" "elems clean"] assms(4,5) s by simp
  qed
qed

section \<open>Moving to the bin under failures\<close>

lemma en_lstat:
  assumes "\<And>d. P d \<Longrightarrow> E ''ErrSQL'' d" and "\<And>d. P d \<Longrightarrow> outcome_ok Q E (node_at d p) d"
  shows "ensures P (lstat p) Q E"
  unfolding lstat_def by (rule en_stmt) (use assms in simp_all)

lemma en_as_file: "ensures P m Q (\<lambda>c. E (file_error c)) \<Longrightarrow> ensures P (as_file m) Q E"
  unfolding as_file_def by (rule en_on_error) (auto intro: en_raise)

lemma en_as_error: "ensures P m Q (\<lambda>c. E e) \<Longrightarrow> ensures P (as_error e m) Q E"
  unfolding as_error_def by (rule en_on_error) (auto intro: en_raise)

lemma en_if: "(b \<Longrightarrow> ensures P m Q E) \<Longrightarrow> (\<not> b \<Longrightarrow> ensures P n Q E) \<Longrightarrow> ensures P (if b then m else n) Q E"
  by simp

lemma en_false: "(\<And>d. \<not> P d) \<Longrightarrow> ensures P m Q E"
  by (simp add: ensures_def)

lemma en_pure: "(b \<Longrightarrow> ensures P m Q E) \<Longrightarrow> ensures (\<lambda>d. b \<and> P d) m Q E"
  by (auto simp: ensures_def)

lemma good_parent_bin: "folder_at d [] \<Longrightarrow> good_parent d bin_path"
  by (auto simp: bin_path_def good_parent_single folder_at_def node_at_def split: option.splits)

lemma at_place_set_bin:
  assumes "outside p" and "at_place p t i d" and "node_at d bin_path = Err ''ENOENT''"
  shows "at_place p t i (set_node bin_path (Some (Folder 0x1E8 [])) d)"
    and "folder_at (set_node bin_path (Some (Folder 0x1E8 [])) d) bin_path"
    and "good_parent (set_node bin_path (Some (Folder 0x1E8 [])) d) bin_path"
proof -
  have root: "folder_at d []" using assms(2) folder_at_root by (auto simp: at_place_def)
  then have gp: "good_parent d bin_path" by (rule good_parent_bin)
  show "folder_at (set_node bin_path (Some (Folder 0x1E8 [])) d) bin_path"
    by (simp add: node_at_set_self [OF gp] folder_at_def)
  show "good_parent (set_node bin_path (Some (Folder 0x1E8 [])) d) bin_path"
    by (rule good_parent_set_other [OF gp]) simp
  show "at_place p t i (set_node bin_path (Some (Folder 0x1E8 [])) d)"
    using assms outside_apart [OF assms(1)] node_at_set_same [OF gp, of "Some (Folder 0x1E8 [])" "[i]"]
    by (simp add: at_place_def good_parent_set_other node_set_apart slot_defs)
qed

lemma en_ensure_bin:
  assumes "outside p"
  shows "ensures (at_place p t i) ensure_recycle_bin
    (\<lambda>b d. b = bin_path \<and> at_place p t i d \<and> folder_at d bin_path \<and> good_parent d bin_path)
    (\<lambda>e d. node_at d p = Inr t \<and> e \<noteq> ''FILE_NOT_FOUND'')"
proof -
  let ?A = "at_place p t i"
  let ?F = "\<lambda>e d. node_at d p = Inr t \<and> e \<noteq> ''FILE_NOT_FOUND''"
  have gp: "good_parent d bin_path" if "?A d" for d
    using that folder_at_root good_parent_bin by (auto simp: at_place_def)
  have look: "ensures ?A (attempt (lstat bin_path)) (\<lambda>r d. ?A d \<and> (r = node_at d bin_path \<or> r = sql_error)) ?F"
    by (intro en_attempt en_lstat) (auto simp: outcome_ok_def split: sum.split)
  have made: "ensures (\<lambda>d. ?A d \<and> node_at d bin_path = Err ''ENOENT'')
      (on_error (\<lambda>c. if c = ''EEXIST'' then ret () else raise ''FILE_WRITE_FAILED'') (mkdir 0x1E8 bin_path))
      (\<lambda>_ d. ?A d \<and> folder_at d bin_path \<and> good_parent d bin_path) ?F"
  proof (rule en_on_error [where E = "\<lambda>c d. ?A d \<and> c \<noteq> ''EEXIST''"])
    show "ensures (\<lambda>d. ?A d \<and> node_at d bin_path = Err ''ENOENT'') (mkdir 0x1E8 bin_path)
        (\<lambda>_ d. ?A d \<and> folder_at d bin_path \<and> good_parent d bin_path) (\<lambda>c d. ?A d \<and> c \<noteq> ''EEXIST'')"
      unfolding mkdir_def sys_def
      by (rule en_exec_if) (use at_place_set_bin [OF assms] gp good_parent_ok in \<open>auto simp: new_bad_def\<close>)
    show "ensures (\<lambda>d. ?A d \<and> c \<noteq> ''EEXIST'') (if c = ''EEXIST'' then ret () else raise ''FILE_WRITE_FAILED'')
        (\<lambda>_ d. ?A d \<and> folder_at d bin_path \<and> good_parent d bin_path) ?F" for c
      by (cases "c = ''EEXIST''") (auto simp: at_place_def ensures_def raise_def)
  qed
  have again: "ensures (\<lambda>d. ?A d \<and> folder_at d bin_path \<and> good_parent d bin_path) (as_file (lstat bin_path))
      (\<lambda>t d. ?A d \<and> node_at d bin_path = Inr t \<and> good_parent d bin_path) ?F"
    by (intro en_as_file en_lstat) (auto simp: at_place_def folder_at_def file_error_def)
  have middle: "ensures (\<lambda>d. ?A d \<and> (r = node_at d bin_path \<or> r = sql_error))
      (case r of
        Inl e \<Rightarrow>
          if err_code e = ''ENOENT'' then
            andthen (on_error (\<lambda>c. if c = ''EEXIST'' then ret () else raise ''FILE_WRITE_FAILED'')
              (mkdir 0x1E8 bin_path)) (\<lambda>_. as_file (lstat bin_path))
          else raise (file_error (err_code e))
      | Inr t \<Rightarrow> ret t)
      (\<lambda>t d. ?A d \<and> node_at d bin_path = Inr t \<and> good_parent d bin_path) ?F" for r
  proof (cases r)
    case (Inr u)
    then show ?thesis using gp by (auto intro!: en_ret)
  next
    case (Inl e)
    show ?thesis
    proof (cases "err_code e = ''ENOENT''")
      case True
      then have "ensures (\<lambda>d. ?A d \<and> (r = node_at d bin_path \<or> r = sql_error))
          (andthen (on_error (\<lambda>c. if c = ''EEXIST'' then ret () else raise ''FILE_WRITE_FAILED'')
              (mkdir 0x1E8 bin_path)) (\<lambda>_. as_file (lstat bin_path)))
          (\<lambda>t d. ?A d \<and> node_at d bin_path = Inr t \<and> good_parent d bin_path) ?F"
        using Inl by (intro en_andthen [OF _ again] en_weaken [OF made]) (cases e; auto)+
      then show ?thesis using Inl True by simp
    next
      case False
      then show ?thesis using Inl by (auto intro!: en_raise simp: at_place_def file_error_def)
    qed
  qed
  show ?thesis unfolding ensure_recycle_bin_def
  proof (rule en_andthen [OF look], rule en_andthen [OF middle])
    show "ensures (\<lambda>d. ?A d \<and> node_at d bin_path = Inr x \<and> good_parent d bin_path)
      (andthen (guard (\<not> is_link x \<and> is_folder x) ''PATH_ESCAPE'') (\<lambda>_. ret bin_path))
      (\<lambda>b d. b = bin_path \<and> ?A d \<and> folder_at d bin_path \<and> good_parent d bin_path) ?F" for x
      by (rule en_andthen [where Q = "\<lambda>_ d. ?A d \<and> folder_at d bin_path \<and> good_parent d bin_path"])
        (auto intro!: en_guard en_ret simp: folder_at_iff at_place_def)
  qed
qed

text \<open>The move as a whole.\<close>

lemma en_move_to_bin:
  assumes rel: "normalize_relative rel = Inr rel" "rel \<noteq> dot" "\<not> is_recycle_path rel" and t: "\<not> is_link t"
  defines "p \<equiv> elems rel"
  shows "ensures (at_place p t i) (move_to_bin jenc now (Some i) rel)
    (\<lambda>j d. j = i \<and> binned jenc (deleted_manifest now rel t) i p t d)
    (\<lambda>e d. node_at d p = Inr t \<and> e \<noteq> ''FILE_NOT_FOUND'')" (is "ensures ?A _ ?Q ?F")
proof -
  let ?m = "deleted_manifest now rel t"
  have ne: "p \<noteq> []" using elems_Nil [OF normalize_relative_confined [OF rel(1)]] rel(2) by (simp add: p_def)
  have out: "outside p" using outside_elems [OF rel(1,3)] ne by (simp add: p_def)
  note apart = outside_apart [OF out]
  let ?A1 = "\<lambda>d. ?A d \<and> folder_at d bin_path \<and> good_parent d bin_path"
  let ?A2 = "\<lambda>d. \<exists>d1. ?A1 d1 \<and> d = set_node (slot i) (Some (Folder 0x1E8 [])) d1"
  let ?A3 = "\<lambda>d. \<exists>d1. ?A1 d1 \<and> d = set_node (slot_manifest i) (Some (Reg 0x1A0 (jenc ?m)))
    (set_node (slot i) (Some (Folder 0x1E8 [])) d1)"
  have keep: "node_at d p = Inr t" if "?A d" for d using that by (simp add: at_place_def)
  have keep2: "node_at d p = Inr t" if "?A2 d" for d
    using that apart by (auto simp: at_place_def node_set_apart slot_defs)
  have keep3: "node_at d p = Inr t" if "?A3 d" for d
    using that apart by (auto simp: at_place_def node_set_apart slot_defs)
  have sec: "ensures ?A (secure_path rel False) (\<lambda>q d. ?A d \<and> q = p) ?F"
  proof (rule en_quiet [OF quiet_secure_path])
    show "?A d \<and> x = p" if "?A d" "yields (secure_path rel False) d w x d' w'" for d w x d' w'
      using secure_path_yields [OF that(2)] that(1) rel(1) by (auto simp: p_def)
    show "?F (err_code e) d" if "?A d" "secure_path rel False d w = (Inl e, d', w')" for d w e d' w'
      using secure_path_error [OF rel(1,3) ne [unfolded p_def] _ _ that(2)] that(1) t
      by (auto simp: at_place_def p_def plain_node_def)
  qed
  have look: "ensures (\<lambda>d. ?A d \<and> q = p) (as_file (lstat q)) (\<lambda>u d. ?A d \<and> q = p \<and> u = t) ?F" for q
    by (intro en_as_file en_lstat) (auto simp: at_place_def file_error_def)
  have mk: "ensures ?A1 (as_error ''FILE_WRITE_FAILED'' (mkdir 0x1E8 (slot i))) (\<lambda>_. ?A2) ?F"
    unfolding mkdir_def sys_def by (intro en_as_error en_exec_if) (auto simp: at_place_def)
  have wr: "ensures ?A2 (write_file 0x1A0 (jenc ?m) (slot_manifest i)) (\<lambda>_. ?A3) (\<lambda>_ d. node_at d p = Inr t)"
    unfolding write_file_def sys_def
  proof (rule en_exec_if)
    fix d assume "?A2 d"
    then obtain d1 where d1: "?A1 d1" and d: "d = set_node (slot i) (Some (Folder 0x1E8 [])) d1" by blast
    have "good_parent d1 (slot i)" using good_parent_in_folder d1 slot_paths(1) by metis
    then have "node_at d (slot_manifest i) = Err ''ENOENT''"
      using node_at_set_same [of d1 "slot i" "Some (Folder 0x1E8 [])" "[''manifest.json'']"] by (simp add: d slot_defs)
    then show "?A3 (set_node (slot_manifest i) (Some (Reg (case node_at d (slot_manifest i) of Inr (Reg m b) \<Rightarrow> m | _ \<Rightarrow> 0x1A0)
        (jenc ?m))) d)" using d1 d by auto
  qed (use keep2 in blast)+
  have ren: "ensures ?A3 (rename p (slot_data i)) (\<lambda>_ d. binned jenc ?m i p t d) (\<lambda>_ d. node_at d p = Inr t)"
    unfolding rename_def sys_def
  proof (rule en_exec_if)
    fix d assume "?A3 d"
    then obtain d1 where d1: "?A1 d1" and d: "d = set_node (slot_manifest i) (Some (Reg 0x1A0 (jenc ?m)))
        (set_node (slot i) (Some (Folder 0x1E8 [])) d1)" by blast
    have "in_bin jenc ?m i p t (rename_node p (slot_data i) d)"
      by (rule move_steps(1) [where d = d1 and e = "AppErr ''ENOENT''"]) (use out d1 d in \<open>simp_all add: at_place_def\<close>)
    then show "binned jenc ?m i p t (rename_node p (slot_data i) d)" by (rule in_bin_binned)
  qed (use keep3 in blast)+
  have undo: "ensures (\<lambda>d. node_at d p = Inr t)
      (andthen (attempt (remove_all (slot i))) (\<lambda>_. raise ''FILE_WRITE_FAILED'')) (\<lambda>_ d. binned jenc ?m i p t d) ?F"
    unfolding remove_all_def
    by (rule en_andthen [where Q = "\<lambda>_ d. node_at d p = Inr t"])
      (use apart in \<open>auto intro!: en_attempt en_exec en_raise simp: node_set_apart slot_defs\<close>)
  have publish: "ensures ?A2 (on_error (\<lambda>c. andthen (attempt (remove_all (slot i))) (\<lambda>_. raise ''FILE_WRITE_FAILED''))
      (andthen (write_file 0x1A0 (jenc ?m) (slot_manifest i)) (\<lambda>_. rename p (slot_data i))))
      (\<lambda>_ d. binned jenc ?m i p t d) ?F"
    by (rule en_on_error [OF en_andthen [OF wr ren] undo])
  have last: "ensures (\<lambda>d. ?A d \<and> q = p \<and> u = t)
     (andthen (guard (\<not> is_link u) ''PATH_ESCAPE'') (\<lambda>_.
     andthen ensure_recycle_bin (\<lambda>bin.
     andthen (need ''FILE_WRITE_FAILED'' (Some i)) (\<lambda>i.
     andthen (as_error ''FILE_WRITE_FAILED'' (mkdir 0x1E8 (bin @ [i]))) (\<lambda>_.
     andthen (on_error (\<lambda>c. andthen (attempt (remove_all (bin @ [i]))) (\<lambda>_. raise ''FILE_WRITE_FAILED''))
       (andthen (write_file 0x1A0 (jenc (deleted_manifest now rel u)) (bin @ [i, ''manifest.json''])) (\<lambda>_.
        rename q (bin @ [i, ''data''])))) (\<lambda>_.
     ret i)))))) ?Q ?F" for q u
  proof (cases "q = p \<and> u = t")
    case True
    have "ensures (\<lambda>d. b = bin_path \<and> j = i \<and> ?A1 d)
     (andthen (as_error ''FILE_WRITE_FAILED'' (mkdir 0x1E8 (b @ [j]))) (\<lambda>_.
     andthen (on_error (\<lambda>c. andthen (attempt (remove_all (b @ [j]))) (\<lambda>_. raise ''FILE_WRITE_FAILED''))
       (andthen (write_file 0x1A0 (jenc ?m) (b @ [j, ''manifest.json''])) (\<lambda>_. rename p (b @ [j, ''data''])))) (\<lambda>_.
     ret j))) ?Q ?F" for b j
    proof (intro en_pure)
      assume "b = bin_path" "j = i"
      then show "ensures ?A1
     (andthen (as_error ''FILE_WRITE_FAILED'' (mkdir 0x1E8 (b @ [j]))) (\<lambda>_.
     andthen (on_error (\<lambda>c. andthen (attempt (remove_all (b @ [j]))) (\<lambda>_. raise ''FILE_WRITE_FAILED''))
       (andthen (write_file 0x1A0 (jenc ?m) (b @ [j, ''manifest.json''])) (\<lambda>_. rename p (b @ [j, ''data''])))) (\<lambda>_.
     ret j))) ?Q ?F"
        unfolding slot_paths by (simp only: slot_paths)
          (rule en_andthen [OF mk], rule en_andthen [OF publish], rule en_ret, simp)
    qed
    then have rest: "ensures (\<lambda>d. b = bin_path \<and> ?A1 d)
     (andthen (need ''FILE_WRITE_FAILED'' (Some i)) (\<lambda>j.
     andthen (as_error ''FILE_WRITE_FAILED'' (mkdir 0x1E8 (b @ [j]))) (\<lambda>_.
     andthen (on_error (\<lambda>c. andthen (attempt (remove_all (b @ [j]))) (\<lambda>_. raise ''FILE_WRITE_FAILED''))
       (andthen (write_file 0x1A0 (jenc ?m) (b @ [j, ''manifest.json''])) (\<lambda>_. rename p (b @ [j, ''data''])))) (\<lambda>_.
     ret j)))) ?Q ?F" for b
      by (intro en_andthen [where Q = "\<lambda>j d. b = bin_path \<and> j = i \<and> ?A1 d"] en_need) auto
    have "ensures ?A (guard (\<not> is_link t) ''PATH_ESCAPE'') (\<lambda>_. ?A) ?F"
      using t by (auto intro!: en_guard)
    from en_andthen [OF this en_andthen [OF en_ensure_bin [OF out] rest]] True
    show ?thesis by simp
  qed (auto intro: en_false)
  have first: "ensures ?A (guard (rel \<noteq> dot \<and> \<not> is_recycle_path rel) ''PATH_ESCAPE'') (\<lambda>_. ?A) ?F"
    using rel by (auto intro!: en_guard)
  show ?thesis unfolding move_to_bin_def
    by (rule en_andthen [OF first en_andthen [OF sec en_andthen [OF look last]]])
qed

section \<open>Restoring under failures\<close>

lemma en_stat:
  assumes "\<And>d. P d \<Longrightarrow> E ''ErrSQL'' d" and "\<And>d. P d \<Longrightarrow> outcome_ok Q E (stat_of d p) d"
  shows "ensures P (stat p) Q E"
  unfolding stat_def by (rule en_stmt) (use assms in simp_all)

text \<open>Where the folders exist, making them changes nothing, whatever fails.\<close>

lemma en_mkdir_up:
  assumes "\<And>d q. P d \<Longrightarrow> suffix q rs \<Longrightarrow> q \<noteq> [] \<Longrightarrow> folder_at d (rev q)"
  shows "ensures P (mkdir_up mode rs) (\<lambda>_. P) (\<lambda>_. P)"
  using assms
proof (induction rs)
  case Nil
  show ?case by (auto intro: en_ret)
next
  case (Cons c cs)
  let ?p = "rev (c # cs)"
  have there: "folder_at d ?p" if "P d" for d using Cons.prems [OF that suffix_order.refl] by blast
  have found: "\<exists>t. node_at d ?p = Inr t" if "P d" for d using there [OF that] unfolding folder_at_def by blast
  have IH: "ensures P (mkdir_up mode cs) (\<lambda>_. P) (\<lambda>_. P)"
  proof (rule Cons.IH)
    show "folder_at d (rev q)" if "P d" "suffix q cs" "q \<noteq> []" for d q
      by (rule Cons.prems [OF that(1) suffix_ConsI [OF that(2)] that(3)])
  qed
  have mk: "ensures P (mkdir mode ?p) (\<lambda>_. P) (\<lambda>_. P)"
    unfolding mkdir_def sys_def
  proof (rule en_exec_if)
    show "P (set_node ?p (Some (Folder mode [])) d)" if "P d" "new_bad ?p d = None" for d
      using found [OF that(1)] new_bad_fresh [OF that(2)] by auto
  qed assumption+
  have undo: "ensures P (andthen (attempt (lstat ?p)) (\<lambda>s.
      case s of Inr t \<Rightarrow> if is_folder t then ret () else raise x | Inl y \<Rightarrow> raise x)) (\<lambda>_. P) (\<lambda>_. P)" for x
  proof (rule en_andthen [where Q = "\<lambda>_. P"])
    show "ensures P (attempt (lstat ?p)) (\<lambda>_. P) (\<lambda>_. P)"
      by (intro en_attempt en_lstat) (auto simp: outcome_ok_def split: sum.split)
    show "ensures P (case s of Inr t \<Rightarrow> if is_folder t then ret () else raise x | Inl y \<Rightarrow> raise x) (\<lambda>_. P) (\<lambda>_. P)" for s
      by (cases s) (simp_all add: en_ret en_raise)
  qed
  have rest: "ensures P (case r of Inr t \<Rightarrow> guard (is_folder t) ''ENOTDIR''
     | Inl e \<Rightarrow> andthen (mkdir_up mode cs) (\<lambda>_. on_error (\<lambda>x. andthen (attempt (lstat ?p)) (\<lambda>s.
             case s of Inr t \<Rightarrow> if is_folder t then ret () else raise x | Inl y \<Rightarrow> raise x)) (mkdir mode ?p)))
     (\<lambda>_. P) (\<lambda>_. P)" for r
  proof (cases r)
    case (Inr t)
    then show ?thesis by (simp add: en_guard)
  next
    case (Inl e)
    show ?thesis unfolding Inl by (simp only: sum.case) (rule en_andthen [OF IH en_on_error [OF mk undo]])
  qed
  have look: "ensures P (attempt (stat ?p)) (\<lambda>_. P) (\<lambda>_. P)"
    by (intro en_attempt en_stat) (auto simp: outcome_ok_def split: sum.split)
  show ?case unfolding mkdir_up.simps by (rule en_andthen [OF look rest])
qed

lemma en_restore:
  assumes rel: "normalize_relative rel = Inr rel" "rel \<noteq> dot" "\<not> is_recycle_path rel"
    and json: "jdec (jenc man) = Some man" and man: "rm_path man = rel"
  defines "p \<equiv> elems rel"
  shows "ensures (binned jenc man i p t) (restore_recycle_entry jdec i)
    (\<lambda>_. kept_somewhere p i t) (\<lambda>_. kept_somewhere p i t)" (is "ensures ?B _ ?Q ?F")
proof -
  have ne: "p \<noteq> []" using elems_Nil [OF normalize_relative_confined [OF rel(1)]] rel(2) by (simp add: p_def)
  have out: "outside p" using outside_elems [OF rel(1,3)] ne by (simp add: p_def)
  note apart = outside_apart [OF out]
  have kept: "kept_somewhere p i t d" if "?B d" for d using that by (simp add: binned_def kept_somewhere_def)
  have bin: "ensures ?B ensure_recycle_bin (\<lambda>b d. b = bin_path \<and> ?B d) ?F"
    unfolding ensure_recycle_bin_def
  proof (rule en_andthen [where Q = "\<lambda>r d. ?B d \<and> (r = node_at d bin_path \<or> r = sql_error)"])
    show "ensures ?B (attempt (lstat bin_path)) (\<lambda>r d. ?B d \<and> (r = node_at d bin_path \<or> r = sql_error)) ?F"
      by (intro en_attempt en_lstat) (auto simp: outcome_ok_def split: sum.split)
    fix r
    let ?rest = "\<lambda>u. andthen (guard (\<not> is_link u \<and> is_folder u) ''PATH_ESCAPE'') (\<lambda>_. ret bin_path)"
    have rest: "ensures ?B (?rest u) (\<lambda>b d. b = bin_path \<and> ?B d) ?F" for u
      by (rule en_andthen [where Q = "\<lambda>_. ?B"]) (auto intro!: en_guard en_ret simp: kept)
    show "ensures (\<lambda>d. ?B d \<and> (r = node_at d bin_path \<or> r = sql_error))
      (andthen (case r of
        Inl e \<Rightarrow>
          if err_code e = ''ENOENT'' then
            andthen (on_error (\<lambda>c. if c = ''EEXIST'' then ret () else raise ''FILE_WRITE_FAILED'')
              (mkdir 0x1E8 bin_path)) (\<lambda>_. as_file (lstat bin_path))
          else raise (file_error (err_code e))
      | Inr t \<Rightarrow> ret t) ?rest) (\<lambda>b d. b = bin_path \<and> ?B d) ?F"
    proof (cases "r = sql_error")
      case True
      then show ?thesis by (auto intro!: en_andthen [OF _ rest] en_raise simp: kept)
    next
      case False
      show ?thesis
      proof (cases r)
        case (Inr u)
        then show ?thesis by (auto intro!: en_andthen [OF _ rest] en_ret)
      next
        case (Inl e)
        then show ?thesis using False by (auto intro!: en_false simp: binned_def folder_at_def)
      qed
    qed
  qed
  have loc: "ensures ?B (locate_entry jdec bin_path i) (\<lambda>x d. ?B d \<and> fst x = slot i \<and> rm_path (snd x) = rel) ?F"
  proof (rule en_quiet [OF quiet_locate])
    show "?B d \<and> fst x = slot i \<and> rm_path (snd x) = rel"
      if B: "?B d" and run: "yields (locate_entry jdec bin_path i) d w x d' w'" for d w x d' w'
      using locate_yields [OF run _ _ , where man = man] B json man rel by (auto simp: binned_def)
  qed (rule kept)
  have sec: "ensures ?B (secure_path rel True) (\<lambda>q d. ?B d \<and> q = p) ?F"
  proof (rule en_quiet [OF quiet_secure_path])
    show "?B d \<and> x = p" if "?B d" "yields (secure_path rel True) d w x d' w'" for d w x d' w'
      using secure_path_yields [OF that(2)] that(1) rel(1) by (auto simp: p_def)
  qed (rule kept)
  have look: "ensures ?B (attempt (lstat p)) (\<lambda>r d. ?B d \<and> (r = node_at d p \<or> r = sql_error)) ?F"
    by (intro en_attempt en_lstat) (auto simp: outcome_ok_def split: sum.split)
  let ?C = "\<lambda>d. ?B d \<and> (\<exists>e. node_at d p = Inl e)"
  have free: "ensures (\<lambda>d. ?B d \<and> (r = node_at d p \<or> r = sql_error))
      (case r of Inr t \<Rightarrow> raise ''FILE_EXISTS''
        | Inl e \<Rightarrow> if err_code e = ''ENOENT'' then ret () else raise (file_error (err_code e))) (\<lambda>_. ?C) ?F" for r
    by (cases r) (auto intro!: en_raise en_ret simp: kept intro: sym)
  have mk: "ensures ?C (as_file (mkdir_all 0x1E8 (butlast p))) (\<lambda>_. ?C) ?F"
    unfolding mkdir_all_def
  proof (rule en_as_file, rule en_weaken [OF en_mkdir_up])
    fix d q
    assume C: "?C d" and q: "suffix q (rev (butlast p))" "q \<noteq> []"
    then have "prefix (rev q) (butlast p)" by (simp add: suffix_to_prefix)
    then have "strict_prefix (rev q) p" using ne
      by (metis append_butlast_last_id prefix_snoc prefix_order.less_le prefixI prefix_order.trans
          append_self_conv not_Cons_self2 prefix_order.antisym)
    then show "folder_at d (rev q)" using C good_parent_folder by (fastforce simp: binned_def folder_at_def)
  qed (use kept in blast)+
  have ren: "ensures ?C (as_error ''FILE_WRITE_FAILED'' (rename (slot_data i) p)) (\<lambda>_ d. node_at d p = Inr t) ?F"
    unfolding rename_def sys_def
  proof (intro en_as_error en_exec_if)
    fix d assume C: "?C d"
    then have "p \<noteq> slot_data i" using out by (auto simp: outside_def slot_data_def)
    moreover have "good_parent (set_node (slot_data i) None d) p"
      using C apart by (simp add: binned_def good_parent_set_other slot_defs)
    ultimately show "node_at (rename_node (slot_data i) p d) p = Inr t"
      using C by (simp add: rename_node_def binned_def node_at_set_self)
  qed (use kept in blast)+
  have data: "ensures ?B (restore_data jdec i) (\<lambda>q d. q = slot i \<and> node_at d p = Inr t) ?F"
    unfolding restore_data_def
  proof (rule en_andthen [OF bin], rule en_pure, simp)
    have tail: "ensures (\<lambda>d. ?B d \<and> q = p) (andthen (attempt (lstat q)) (\<lambda>r.
       andthen (case r of Inr t \<Rightarrow> raise ''FILE_EXISTS''
         | Inl e \<Rightarrow> if err_code e = ''ENOENT'' then ret () else raise (file_error (err_code e))) (\<lambda>_.
       andthen (as_file (mkdir_all 0x1E8 (butlast q))) (\<lambda>_.
       andthen (as_error ''FILE_WRITE_FAILED'' (rename (slot i @ [''data'']) q)) (\<lambda>_. ret (slot i))))))
       (\<lambda>q d. q = slot i \<and> node_at d p = Inr t) ?F" for q
    proof (cases "q = p")
      case True
      have "ensures ?B (andthen (attempt (lstat p)) (\<lambda>r.
       andthen (case r of Inr t \<Rightarrow> raise ''FILE_EXISTS''
         | Inl e \<Rightarrow> if err_code e = ''ENOENT'' then ret () else raise (file_error (err_code e))) (\<lambda>_.
       andthen (as_file (mkdir_all 0x1E8 (butlast p))) (\<lambda>_.
       andthen (as_error ''FILE_WRITE_FAILED'' (rename (slot_data i) p)) (\<lambda>_. ret (slot i))))))
       (\<lambda>q d. q = slot i \<and> node_at d p = Inr t) ?F"
        by (rule en_andthen [OF look en_andthen [OF free en_andthen [OF mk en_andthen [OF ren en_ret]]]]) simp
      then show ?thesis using True by (simp add: slot_paths)
    qed (auto intro: en_false)
    show "ensures ?B (andthen (locate_entry jdec bin_path i) (\<lambda>(dir, m). andthen (secure_path (rm_path m) True) (\<lambda>p.
       andthen (attempt (lstat p)) (\<lambda>r.
       andthen (case r of Inr t \<Rightarrow> raise ''FILE_EXISTS''
         | Inl e \<Rightarrow> if err_code e = ''ENOENT'' then ret () else raise (file_error (err_code e))) (\<lambda>_.
       andthen (as_file (mkdir_all 0x1E8 (butlast p))) (\<lambda>_.
       andthen (as_error ''FILE_WRITE_FAILED'' (rename (dir @ [''data'']) p)) (\<lambda>_. ret dir)))))))
       (\<lambda>q d. q = slot i \<and> node_at d p = Inr t) ?F"
    proof (rule en_andthen [OF loc])
      fix x :: "path \<times> manifest"
      show "ensures (\<lambda>d. ?B d \<and> fst x = slot i \<and> rm_path (snd x) = rel)
       (case x of (dir, m) \<Rightarrow> andthen (secure_path (rm_path m) True) (\<lambda>p.
       andthen (attempt (lstat p)) (\<lambda>r.
       andthen (case r of Inr t \<Rightarrow> raise ''FILE_EXISTS''
         | Inl e \<Rightarrow> if err_code e = ''ENOENT'' then ret () else raise (file_error (err_code e))) (\<lambda>_.
       andthen (as_file (mkdir_all 0x1E8 (butlast p))) (\<lambda>_.
       andthen (as_error ''FILE_WRITE_FAILED'' (rename (dir @ [''data'']) p)) (\<lambda>_. ret dir))))))
       (\<lambda>q d. q = slot i \<and> node_at d p = Inr t) ?F"
      proof (cases "fst x = slot i \<and> rm_path (snd x) = rel")
        case True
        then show ?thesis using en_andthen [OF sec tail] by (cases x) simp
      qed (auto intro: en_false)
    qed
  qed
  show ?thesis unfolding restore_recycle_entry_def
  proof (rule en_andthen [OF data])
    show "ensures (\<lambda>d. q = slot i \<and> node_at d p = Inr t) (remove_all q) ?Q ?F" for q
      unfolding remove_all_def
      by (rule en_exec) (use apart in \<open>auto simp: kept_somewhere_def node_set_apart slot_defs\<close>)
  qed
qed

section \<open>Publishing under failures\<close>

text \<open>Writing the new contents keeps the entry in the bin.\<close>

lemma binned_set:
  assumes "outside p" and "binned jenc man i p t d"
  shows "binned jenc man i p t (set_node p x d)" and "node_at (set_node p (Some u) d) p = Inr u"
proof -
  note s = assms(2) [unfolded binned_def] and apart = outside_apart [OF assms(1)]
  show "binned jenc man i p t (set_node p x d)"
    using s apart by (simp add: binned_def good_parent_set_other folder_set_other node_set_apart slot_defs)
  show "node_at (set_node p (Some u) d) p = Inr u" using s by (simp add: node_at_set_self)
qed

definition replaced :: "path \<Rightarrow> string \<Rightarrow> tree \<Rightarrow> tree \<Rightarrow> disk \<Rightarrow> bool" where
  "replaced p i t u d \<longleftrightarrow> node_at d p = Inr u \<and> node_at d (slot_data i) = Inr t"

lemma replaced_kept: "replaced p i t u d \<Longrightarrow> kept_somewhere p i t d"
  by (simp add: replaced_def kept_somewhere_def)

lemma en_replace_file:
  assumes "outside p"
  shows "ensures (binned jenc man i p t) (replace_file mode raw p) (\<lambda>_. replaced p i t (Reg mode raw))
    (\<lambda>_. binned jenc man i p t)"
  unfolding replace_file_def sys_def
proof (rule en_exec_if)
  fix d assume b: "binned jenc man i p t d"
  show "replaced p i t (Reg mode raw) (set_node p (Some (Reg mode raw)) d)"
    using binned_set [OF assms b] by (auto simp: replaced_def binned_def)
qed assumption+

lemma en_publish:
  assumes rel: "normalize_relative rel = Inr rel" "rel \<noteq> dot" "\<not> is_recycle_path rel" and t: "\<not> is_link t"
    and json: "jdec (jenc (deleted_manifest now rel t)) = Some (deleted_manifest now rel t)"
  defines "p \<equiv> elems rel"
  shows "ensures (at_place p t i) (publish_with_recycle jenc jdec now (Some i) rel (replace_file mode raw p))
    (\<lambda>_. replaced p i t (Reg mode raw)) (\<lambda>_. kept_somewhere p i t)" (is "ensures ?A _ ?Q ?F")
proof -
  let ?m = "deleted_manifest now rel t"
  have ne: "p \<noteq> []" using elems_Nil [OF normalize_relative_confined [OF rel(1)]] rel(2) by (simp add: p_def)
  have out: "outside p" using outside_elems [OF rel(1,3)] ne by (simp add: p_def)
  let ?R = "\<lambda>r d. case r of Inl e \<Rightarrow> node_at d p = Inr t \<and> err_code e \<noteq> ''FILE_NOT_FOUND''
    | Inr j \<Rightarrow> j = i \<and> binned jenc ?m i p t d"
  have moved: "ensures ?A (attempt (move_to_bin jenc now (Some i) rel)) ?R ?F"
    using en_move_to_bin [OF rel t, where jenc = jenc and now = now and i = i]
    by (intro en_attempt) (simp add: p_def)
  have undo: "ensures (binned jenc ?m i p t) (andthen (attempt (restore_recycle_entry jdec i)) (\<lambda>_. raise c)) ?Q ?F" for c
  proof (rule en_andthen)
    show "ensures (binned jenc ?m i p t) (attempt (restore_recycle_entry jdec i)) (\<lambda>_. kept_somewhere p i t) ?F"
      by (rule en_attempt)
        (use en_restore [where jdec = jdec and jenc = jenc and man = ?m and i = i and t = t, OF rel json
          deleted_manifest_good(1) [OF rel]] in \<open>simp add: p_def\<close>)
  qed (simp add: en_raise)
  show ?thesis unfolding publish_with_recycle_def
  proof (rule en_andthen [OF moved])
    fix r
    show "ensures (?R r) (case r of
         Inl e \<Rightarrow> if err_code e = ''FILE_NOT_FOUND'' then replace_file mode raw p else raise (err_code e)
       | Inr j \<Rightarrow> on_error (\<lambda>c. andthen (attempt (restore_recycle_entry jdec j)) (\<lambda>_. raise c)) (replace_file mode raw p))
       ?Q ?F"
    proof (cases r)
      case (Inl e)
      then show ?thesis by (auto simp: kept_somewhere_def intro: en_false en_raise)
    next
      case (Inr j)
      have "ensures (binned jenc ?m i p t)
          (on_error (\<lambda>c. andthen (attempt (restore_recycle_entry jdec i)) (\<lambda>_. raise c)) (replace_file mode raw p)) ?Q ?F"
        by (rule en_on_error [OF en_replace_file [OF out] undo])
      then show ?thesis using Inr by (auto intro!: en_pure)
    qed
  qed
qed

section \<open>Saving\<close>

lemma en_step:
  assumes "quiet m" and "\<And>d. P d \<Longrightarrow> F d" and "\<And>d w x d' w'. P d \<Longrightarrow> yields m d w x d' w' \<Longrightarrow> x = v"
    and "ensures P (f v) Q (\<lambda>_. F)"
  shows "ensures P (andthen m f) Q (\<lambda>_. F)"
proof (rule en_andthen)
  show "ensures P m (\<lambda>x d. x = v \<and> P d) (\<lambda>_. F)"
    by (rule en_quiet [OF assms(1)]) (use assms(2,3) in blast)+
  show "ensures (\<lambda>d. x = v \<and> P d) (f x) Q (\<lambda>_. F)" for x
    using assms(4) by (auto intro: en_pure)
qed

lemma en_check:
  assumes "\<And>d. P d \<Longrightarrow> F d" and "b \<Longrightarrow> ensures P m Q (\<lambda>_. F)"
  shows "ensures P (andthen (guard b c) (\<lambda>_. m)) Q (\<lambda>_. F)"
proof (cases b)
  case True
  then show ?thesis using en_step [OF quiet_guard assms(1), where f = "\<lambda>_. m" and v = "()" and Q = Q and P = P] assms(2)
    by simp
next
  case False
  then show ?thesis using assms(1) by (simp add: guard_def andthen_def raise_def ensures_def)
qed

lemma en_save_body:
  assumes rel: "normalize_relative rel = Inr clean" "normalize_relative clean = Inr clean" "clean \<noteq> dot"
      "\<not> is_recycle_path clean"
    and json: "jdec (jenc (deleted_manifest now clean (Reg mode old))) = Some (deleted_manifest now clean (Reg mode old))"
  defines "p \<equiv> elems clean"
  shows "ensures (at_place p (Reg mode old) i)
    (save_body H gbk_enc jenc jdec max_edit now (Some i) rel text enc expected)
    (\<lambda>c d. \<exists>raw enc'. encode_text gbk_enc text enc = Inr (raw, enc') \<and> H old = expected \<and> fc_version c = H raw \<and>
       replaced p i (Reg mode old) (Reg mode raw) d)
    (\<lambda>_. kept_somewhere p i (Reg mode old))" (is "ensures ?A _ ?Q _")
proof -
  let ?t = "Reg mode old"
  have kept: "kept_somewhere p i ?t d" if "?A d" for d using that by (simp add: at_place_def kept_somewhere_def)
  have stat: "stat_of d p = Inr ?t" if "?A d" for d using that by (simp add: at_place_def stat_of_plain is_link_def)
  have fin: "ensures ?A (andthen (as_error ''FILE_WRITE_FAILED''
       (publish_with_recycle jenc jdec now (Some i) clean (replace_file (node_mode ?t) raw p))) (\<lambda>_.
     andthen (attempt (stat p)) (\<lambda>_.
     ret \<lparr>fc_path = clean, fc_text = text, fc_encoding = enc', fc_size = int (length raw), fc_version = H raw\<rparr>)))
     ?Q (\<lambda>_. kept_somewhere p i ?t)"
    if "encode_text gbk_enc text enc = Inr (raw, enc')" "H old = expected" for raw enc'
  proof (rule en_andthen)
    show "ensures ?A (as_error ''FILE_WRITE_FAILED''
       (publish_with_recycle jenc jdec now (Some i) clean (replace_file (node_mode ?t) raw p)))
       (\<lambda>_. replaced p i ?t (Reg mode raw)) (\<lambda>_. kept_somewhere p i ?t)"
      using en_publish [where jenc = jenc and jdec = jdec and now = now and t = ?t and i = i and raw = raw
          and mode = mode, OF rel(2,3,4) _ json]
      by (intro en_as_error) (simp add: p_def node_mode_def is_link_def)
    show "ensures (replaced p i ?t (Reg mode raw)) (andthen (attempt (stat p)) (\<lambda>_.
      ret \<lparr>fc_path = clean, fc_text = text, fc_encoding = enc', fc_size = int (length raw), fc_version = H raw\<rparr>))
      ?Q (\<lambda>_. kept_somewhere p i ?t)"
      by (rule en_andthen [OF en_keep [OF quiet_attempt [OF quiet_calls(2)] replaced_kept] en_ret]) (use that in auto)
  qed
  have body: "ensures ?A (andthen (lift_result (encode_text gbk_enc text enc)) (\<lambda>(raw, enc').
     andthen (guard (int (length raw) \<le> max_edit) ''FILE_TOO_LARGE'') (\<lambda>_.
     andthen (as_error ''FILE_WRITE_FAILED''
       (publish_with_recycle jenc jdec now (Some i) clean (replace_file (node_mode ?t) raw p))) (\<lambda>_.
     andthen (attempt (stat p)) (\<lambda>_.
     ret \<lparr>fc_path = clean, fc_text = text, fc_encoding = enc', fc_size = int (length raw), fc_version = H raw\<rparr>)))))
     ?Q (\<lambda>_. kept_somewhere p i ?t)" if "H old = expected"
  proof (cases "encode_text gbk_enc text enc")
    case (Inl e)
    then show ?thesis using kept by (simp add: lift_result_def andthen_def raise_def ensures_def)
  next
    case (Inr x)
    then obtain raw enc' where x: "encode_text gbk_enc text enc = Inr (raw, enc')" by (cases x) simp
    show ?thesis unfolding x
      by (rule en_step [where v = "(raw, enc')", OF quiet_lift kept])
        (assumption, simp add: act_simps, simp only: prod.case, rule en_check [OF kept fin [OF x that, unfolded x]])
  qed
  show ?thesis unfolding save_body_def
  proof (rule en_step [where v = clean, OF quiet_entry_path kept])
    show "x = clean" if "yields (entry_path rel) d w x d' w'" for d w x d' w'
      using that rel by (simp add: entry_path_def act_simps)
    show "ensures ?A (andthen (secure_path clean False) (\<lambda>p.
       andthen (as_file (stat p)) (\<lambda>info.
       andthen (guard (is_reg info) ''INVALID_REQUEST'') (\<lambda>_.
       andthen (as_file (read_file p)) (\<lambda>current.
       andthen (guard (expected \<noteq> [] \<and> H current = expected) ''FILE_CHANGED'') (\<lambda>_.
       andthen (lift_result (encode_text gbk_enc text enc)) (\<lambda>(raw, enc').
       andthen (guard (int (length raw) \<le> max_edit) ''FILE_TOO_LARGE'') (\<lambda>_.
       andthen (as_error ''FILE_WRITE_FAILED''
         (publish_with_recycle jenc jdec now (Some i) clean (replace_file (node_mode info) raw p))) (\<lambda>_.
       andthen (attempt (stat p)) (\<lambda>_.
       ret \<lparr>fc_path = clean, fc_text = text, fc_encoding = enc', fc_size = int (length raw),
         fc_version = H raw\<rparr>)))))))))) ?Q (\<lambda>_. kept_somewhere p i ?t)"
    proof (rule en_step [where v = p, OF quiet_secure_path kept], assumption)
      show "x = p" if "yields (secure_path clean False) d w x d' w'" for d w x d' w'
        using secure_path_yields [OF that] rel by (auto simp: p_def)
    qed (rule en_step [where v = ?t, OF quiet_as(1) [OF quiet_calls(2)] kept], assumption,
         use stat stat_yields in \<open>force simp: act_simps\<close>, rule en_check [OF kept], assumption,
         rule en_step [where v = old, OF quiet_as(1) [OF quiet_calls(3)] kept], assumption,
         use stat in \<open>force simp: act_simps read_file_def dest: stmt_yields\<close>, rule en_check [OF kept], assumption,
         rule body, simp)
  qed
qed

end
