(* ===== verification/FileList_Laws.thy ===== *)
theory FileList_Laws
  imports FileService_Laws "HOL-Library.Multiset"
begin

text \<open>
  Listing a folder page by page: what one page holds, and that a client that follows the cursors sees
  every visible entry once.
\<close>

section \<open>Cursors and order\<close>

lemma cursor_back:
  assumes "0 \<le> n" and "n < 2 ^ 63"
  shows "decode_cursor (encode_cursor n) = Inr n" and "encode_cursor n \<noteq> []"
proof -
  have a: "atoi (itoa n) = Some n" using assms by (intro atoi_itoa) simp_all
  have "itoa n \<noteq> []"
  proof
    assume "itoa n = []"
    then show False using a by (simp add: atoi_def atou_def)
  qed
  moreover have "b64_encode [] = []" by code_simp
  ultimately show ne: "encode_cursor n \<noteq> []"
    unfolding encode_cursor_def using b64_encode_inj [of "itoa n" "[]"] by auto
  show "decode_cursor (encode_cursor n) = Inr n"
    using ne a assms unfolding decode_cursor_def encode_cursor_def by simp
qed

lemma mset_insert_entry: "mset (insert_entry x xs) = add_mset x (mset xs)"
  by (induction xs) auto

lemma mset_sort_entries [simp]: "mset (sort_entries xs) = mset xs"
  by (induction xs) (simp_all add: mset_insert_entry)

lemma set_sort_entries [simp]: "set (sort_entries xs) = set xs"
  using mset_sort_entries by (metis set_mset_mset)

definition listed_before :: "string \<times> tree \<Rightarrow> string \<times> tree \<Rightarrow> bool" where
  "listed_before a b \<longleftrightarrow> \<not> less_key (list_key b) (list_key a)"

lemma less_key_trans: "\<not> less_key b a \<Longrightarrow> \<not> less_key c b \<Longrightarrow> \<not> less_key c a"
  unfolding less_key_def by (auto simp: not_less)

lemma less_key_asym: "less_key a b \<Longrightarrow> \<not> less_key b a"
  unfolding less_key_def by auto

lemma sorted_insert_entry:
  "sorted_wrt listed_before xs \<Longrightarrow> sorted_wrt listed_before (insert_entry x xs)"
proof (induction xs)
  case (Cons y ys)
  have ins: "set (insert_entry x ys) = insert x (set ys)"
    by (metis mset_insert_entry set_mset_add_mset_insert set_mset_mset)
  show ?case
  proof (cases "less_key (list_key y) (list_key x)")
    case True
    then show ?thesis using Cons ins less_key_asym by (auto simp: listed_before_def)
  next
    case False
    have "listed_before x z" if "z \<in> set ys" for z
      using Cons.prems that False less_key_trans unfolding listed_before_def by fastforce
    then show ?thesis using Cons.prems False by (auto simp: listed_before_def)
  qed
qed simp

lemma sorted_sort_entries: "sorted_wrt listed_before (sort_entries xs)"
  by (induction xs) (simp_all add: sorted_insert_entry)

section \<open>One page\<close>

lemma node_at_below: "node_at d p = Inr t \<Longrightarrow> node_at d (p @ r) = resolve t r"
  by (cases d) (simp_all add: node_at_def resolve_append)

lemma list_entries_run:
  assumes "\<And>n t. (n, t) \<in> set es \<Longrightarrow> node_at d (p @ [n]) = Inr t"
  shows "list_entries rel p es d [] = (Inr (List.map_filter (\<lambda>(n, t). entry_of rel n t) es), d, [])"
  using assms
proof (induction es)
  case (Cons x xs)
  obtain n t where x: "x = (n, t)" by (cases x)
  have look: "node_at d (p @ [n]) = Inr t" using Cons.prems by (simp add: x)
  have "list_entries rel p xs d [] = (Inr (List.map_filter (\<lambda>(n, t). entry_of rel n t) xs), d, [])"
    by (rule Cons.IH) (use Cons.prems in simp)
  then show ?case using look
    by (cases "entry_of rel n t") (simp_all add: x andthen_def attempt_def lstat_ok ret_def map_filter_simps)
qed (simp add: ret_def map_filter_simps)

definition all_visible :: "string \<Rightarrow> bool \<Rightarrow> (string \<times> tree) list \<Rightarrow> (string \<times> tree) list" where
  "all_visible rel hidden es = visible rel hidden (sort_entries (sort_key fst es))"

lemma all_visible_mset: "mset (all_visible rel hidden es) = mset (visible rel hidden es)"
  by (simp add: all_visible_def visible_def)

lemma all_visible_set: "x \<in> set (all_visible rel hidden es) \<Longrightarrow> x \<in> set es"
  by (simp add: all_visible_def visible_def)

lemma all_visible_sorted: "sorted_wrt listed_before (all_visible rel hidden es)"
  unfolding all_visible_def visible_def by (rule sorted_wrt_filter [OF sorted_sort_entries])

definition shown :: "string \<Rightarrow> (string \<times> tree) list \<Rightarrow> file_entry list" where
  "shown rel es = List.map_filter (\<lambda>(n, t). entry_of rel n t) es"

lemma shown_append: "shown rel (xs @ ys) = shown rel xs @ shown rel ys"
  by (simp add: shown_def map_filter_def)

lemma page_limit_pos: "0 < r \<Longrightarrow> 0 < page_limit limit r"
  by (simp add: page_limit_def)

text \<open>A folder that can be listed.\<close>

definition listable :: "string \<Rightarrow> int \<Rightarrow> (string \<times> tree) list \<Rightarrow> disk \<Rightarrow> bool" where
  "listable rel m es d \<longleftrightarrow> normalize_relative rel = Inr rel \<and> \<not> is_recycle_path rel \<and> reachable d (elems rel) \<and>
     node_at d (elems rel) = Inr (Folder m es) \<and> awf es"

lemma list_page_run:
  assumes ok: "listable rel m es d" and k: "decode_cursor (dq_cursor q) = Inr (int k)"
    and len: "k \<le> length (all_visible rel hidden es)" "int (length (all_visible rel hidden es)) < 2 ^ 63"
    and r: "0 < remaining"
  defines "vis \<equiv> all_visible rel hidden es" and "n \<equiv> nat (page_limit (dq_limit q) remaining)"
  shows "list_page rel q hidden remaining d [] =
    (Inr \<lparr>dr_path = rel, dr_entries = shown rel (take n (drop k vis)),
      dr_next = (if k + n < length vis then encode_cursor (int (k + n)) else []),
      dr_truncated = (k + n < length vis), dr_error = None\<rparr>, d, [])"
proof -
  let ?p = "elems rel"
  have sec: "secure_path rel False d [] = (Inr ?p, d, [])"
    using ok by (intro secure_path_run) (auto simp: listable_def plain_node_def is_link_def)
  have "stat_of d ?p = Inr (Folder m es)" using ok by (simp add: listable_def stat_of_plain is_link_def)
  then have dir: "as_file (read_dir ?p) d [] = (Inr (sort_key fst es), d, [])"
    by (simp add: as_file_def on_error_def read_dir_def stmt_def)
  have find: "node_at d (?p @ [c]) = Inr t" if "(c, t) \<in> set es" for c t
  proof -
    have "aget es c = Some t" using that ok by (simp add: listable_def aget_Some_iff)
    then show ?thesis using ok node_at_below [of d ?p _ "[c]"] by (auto simp: listable_def)
  qed
  have items: "list_entries rel ?p (take a (drop b vis)) d [] = (Inr (shown rel (take a (drop b vis))), d, [])" for a b
    unfolding shown_def
    by (rule list_entries_run) (use find all_visible_set in \<open>auto simp: vis_def dest!: in_set_takeD in_set_dropD\<close>)
  have n: "0 < page_limit (dq_limit q) remaining" "int n = page_limit (dq_limit q) remaining"
    using page_limit_pos [OF r, of "dq_limit q"] by (simp_all add: n_def)
  have "min (int k) (int (length vis)) = int k" using len by (simp add: vis_def)
  moreover have "take (nat (min (int k + int n) (int (length vis)) - int k)) (drop k vis) = take n (drop k vis)"
    by (cases "k + n \<le> length vis") (simp_all add: min_def vis_def len)
  ultimately show ?thesis
    unfolding list_page_def
    using items len by (auto simp: andthen_def sec dir k lift_result_def ret_def n(2) [symmetric] all_visible_def vis_def Let_def)
qed

section \<open>Following the cursors\<close>

text \<open>A client that asks for one folder again and again with the cursor it got, at most \<open>n\<close> times.\<close>

fun all_pages :: "nat \<Rightarrow> string \<Rightarrow> bool \<Rightarrow> int \<Rightarrow> string \<Rightarrow> disk \<Rightarrow> file_entry list option" where
  "all_pages 0 rel hidden limit cursor d = None"
| "all_pages (Suc n) rel hidden limit cursor d =
     (case list_files (Inr []) [\<lparr>dq_path = rel, dq_cursor = cursor, dq_limit = limit\<rparr>] hidden d [] of
        (Inr [r], d', w) \<Rightarrow>
          if dr_error r \<noteq> None then None
          else if dr_next r = [] then Some (dr_entries r)
          else map_option (\<lambda>rest. dr_entries r @ rest) (all_pages n rel hidden limit (dr_next r) d')
      | _ \<Rightarrow> None)"

lemma list_one_run:
  fixes limit :: int
  assumes root: "root = Inr s" and ok: "listable rel m es d" and k: "decode_cursor c = Inr (int k)"
    and len: "k \<le> length (all_visible rel hidden es)" "int (length (all_visible rel hidden es)) < 2 ^ 63"
  defines "vis \<equiv> all_visible rel hidden es" and "n \<equiv> nat (page_limit limit 5000)"
  shows "list_files root [\<lparr>dq_path = rel, dq_cursor = c, dq_limit = limit\<rparr>] hidden d [] =
    (Inr [\<lparr>dr_path = rel, dr_entries = shown rel (take n (drop k vis)),
      dr_next = (if k + n < length vis then encode_cursor (int (k + n)) else []),
      dr_truncated = (k + n < length vis), dr_error = None\<rparr>], d, [])"
proof -
  let ?q = "\<lparr>dq_path = rel, dq_cursor = c, dq_limit = limit\<rparr>"
  have "list_page rel ?q hidden 5000 d [] =
    (Inr \<lparr>dr_path = rel, dr_entries = shown rel (take n (drop k vis)),
      dr_next = (if k + n < length vis then encode_cursor (int (k + n)) else []),
      dr_truncated = (k + n < length vis), dr_error = None\<rparr>, d, [])"
    using list_page_run [OF ok, of ?q k hidden 5000] k len by (simp add: vis_def n_def)
  moreover have "normalize_relative rel = Inr rel" using ok by (simp add: listable_def)
  ultimately show ?thesis
    by (simp add: list_files_def reading_def lift_result_def root max_directories_def max_entries_def list_directory_def andthen_def attempt_def ret_def)
qed

lemma all_pages_run:
  assumes ok: "listable rel m es d" and len: "int (length (all_visible rel hidden es)) < 2 ^ 63"
    and k: "decode_cursor c = Inr (int k)" "k \<le> length (all_visible rel hidden es)"
    and fuel: "length (all_visible rel hidden es) - k < fuel"
  shows "all_pages fuel rel hidden limit c d = Some (shown rel (drop k (all_visible rel hidden es)))"
  using k fuel
proof (induction fuel arbitrary: c k)
  case (Suc fuel)
  let ?vis = "all_visible rel hidden es" and ?n = "nat (page_limit limit 5000)"
  have n: "0 < ?n" using page_limit_pos [of 5000 limit] by simp
  note page = list_one_run [OF refl ok Suc.prems(1,2) len, where limit = limit]
  show ?case
  proof (cases "k + ?n < length ?vis")
    case True
    have range: "int (k + ?n) < 2 ^ 63" using True len by linarith
    have next_c: "decode_cursor (encode_cursor (int (k + ?n))) = Inr (int (k + ?n))"
      "encode_cursor (int (k + ?n)) \<noteq> []" by (rule cursor_back [OF _ range]; simp)+
    have "all_pages fuel rel hidden limit (encode_cursor (int (k + ?n))) d = Some (shown rel (drop (k + ?n) ?vis))"
      by (rule Suc.IH [OF next_c(1)]) (use True n Suc.prems(3) in linarith)+
    moreover have "shown rel (take ?n (drop k ?vis)) @ shown rel (drop (k + ?n) ?vis) = shown rel (drop k ?vis)"
      using append_take_drop_id [of ?n "drop k ?vis"] unfolding shown_append [symmetric] drop_drop by (simp add: add.commute)
    ultimately show ?thesis using True next_c(2) by (simp add: page)
  next
    case False
    then show ?thesis by (simp add: page)
  qed
qed simp

end
