(* ===== verification/FileUpload.thy ===== *)
theory FileUpload
  imports FileOps
begin

text \<open>
  Uploads of daemon/internal/files/service.go: whole files, and sessions that collect a file chunk by
  chunk in a temporary file beside the target. The table of sessions is shared by all working
  directories; the model follows one of them, and the timer of a session is the operation
  \<open>expire_session\<close>. An upload holds the lock of its session, so that it is one step. \<open>now\<close> is the clock,
  \<open>rid\<close> the random identifier of the recycle entry, \<open>part\<close> the number of bytes a write puts down before
  it can fail, and the bytes of a request are \<open>None\<close> when they cannot be read.
\<close>

section \<open>Sessions\<close>

record upload_state =
  us_path :: "string \<times> path"
  us_last :: int
  us_published :: bool
  us_entry :: file_entry
  us_final :: int

type_synonym uploads = "(string, upload_state) gomap"

type_synonym 'a upact = "(disk \<times> uploads, 'a) dact"

record upload_status =
  ut_id :: string
  ut_offset :: int
  ut_complete :: bool
  ut_entry :: "file_entry option"

definition chunk_size :: int where "chunk_size = 2 * 1024 * 1024"

text \<open>\<open>io.ReadAll\<close> of an \<open>io.LimitReader\<close>.\<close>

fun read_limited :: "int \<Rightarrow> string \<Rightarrow> string" where
  "read_limited n [] = []"
| "read_limited n (x # xs) = (if n \<le> 0 then [] else x # read_limited (n - 1) xs)"

definition session_ttl :: int where "session_ttl = 20 * 60 * 1000000000"

definition no_entry :: file_entry where
  "no_entry = \<lparr>fe_name = [], fe_path = [], fe_type = [], fe_size = 0, fe_mode = 0\<rparr>"

definition on_disk :: "'a fact \<Rightarrow> 'a upact" where
  "on_disk m = (\<lambda>(d, u) w. case m d w of (r, d', w') \<Rightarrow> (r, (d', u), w'))"

definition get_uploads :: "uploads upact" where
  "get_uploads = (\<lambda>(d, u) w. (Inr u, (d, u), w))"

definition set_uploads :: "(uploads \<Rightarrow> uploads) \<Rightarrow> unit upact" where
  "set_uploads f = (\<lambda>(d, u) w. (Inr (), (d, f u), w))"

definition session_char :: "char \<Rightarrow> bool" where
  "session_char c \<longleftrightarrow> (97 \<le> byte c \<and> byte c \<le> 122) \<or> (65 \<le> byte c \<and> byte c \<le> 90) \<or>
     (48 \<le> byte c \<and> byte c \<le> 57) \<or> c = CHR ''-'' \<or> c = CHR ''_''"

definition valid_session_id :: "string \<Rightarrow> bool" where
  "valid_session_id s \<longleftrightarrow> s \<noteq> [] \<and> length s \<le> 128 \<and> list_all session_char s"

text \<open>\<open>safeUploadSessionID\<close>; it is only called with a valid identifier, whose characters are single bytes.\<close>

definition safe_session_id :: "string \<Rightarrow> string" where
  "safe_session_id s =
     (let v = trim_space s
      in if v = [] then ''invalid'' else map (\<lambda>c. if session_char c then c else CHR ''_'') v)"

definition temp_path :: "path \<Rightarrow> string \<Rightarrow> path" where
  "temp_path p sid = butlast p @ [''.prism-upload-'' @ sid]"

definition mutate_up :: "unit result \<Rightarrow> 'a upact \<Rightarrow> 'a upact" where
  "mutate_up lock op = andthen (lift_result lock) (\<lambda>_. andthen (on_disk ensure_root) (\<lambda>_. op))"

text \<open>Only the temporary files of this working directory are in the tree.\<close>

definition drop_temp :: "string \<Rightarrow> upload_state \<Rightarrow> unit fact" where
  "drop_temp root s =
     (if fst (us_path s) = root then discard (attempt (remove (snd (us_path s)))) else ret ())"

definition session_expired :: "int \<Rightarrow> upload_state \<Rightarrow> bool" where
  "session_expired now s \<longleftrightarrow> session_ttl < now - us_last s"

definition cleanup_sessions :: "string \<Rightarrow> int \<Rightarrow> unit upact" where
  "cleanup_sessions root now =
     andthen get_uploads (\<lambda>u.
     andthen (set_uploads (filter (\<lambda>x. \<not> session_expired now (snd x)))) (\<lambda>_.
     on_disk (each (\<lambda>x. drop_temp root (snd x)) (filter (\<lambda>x. session_expired now (snd x)) u))))"

definition expire_session :: "string \<Rightarrow> int \<Rightarrow> string \<Rightarrow> unit upact" where
  "expire_session root now sid =
     andthen get_uploads (\<lambda>u.
     case aget u sid of
       None \<Rightarrow> ret ()
     | Some s \<Rightarrow>
         if 0 < session_ttl - (now - us_last s) then ret ()
         else andthen (set_uploads (adel sid)) (\<lambda>_. on_disk (drop_temp root s)))"

section \<open>Steps of an upload\<close>

definition file_version :: "(string \<Rightarrow> string) \<Rightarrow> path \<Rightarrow> string fact" where
  "file_version H p = andthen (read_file p) (\<lambda>raw. ret (H raw))"

text \<open>The target path, whose folders are made when they are missing.\<close>

definition upload_place :: "string \<Rightarrow> path fact" where
  "upload_place clean =
     on_error (\<lambda>c. if c \<noteq> ''FILE_NOT_FOUND'' then raise c
         else andthen (ensure_upload_parent clean) (\<lambda>_. secure_path clean True))
       (secure_path clean True)"

text \<open>What may be at the target; hashes are compared without regard to case.\<close>

definition check_target ::
  "(string \<Rightarrow> string) \<Rightarrow> (string fact \<Rightarrow> string fact) \<Rightarrow> bool \<Rightarrow> string \<Rightarrow> path \<Rightarrow> unit fact" where
  "check_target H wrap overwrite expected p =
     andthen (attempt (lstat p)) (\<lambda>r.
     case r of
       Inr t \<Rightarrow>
         andthen (guard (is_reg t) ''INVALID_REQUEST'') (\<lambda>_.
         andthen (guard overwrite ''FILE_EXISTS'') (\<lambda>_.
         if expected = [] then ret ()
         else andthen (wrap (file_version H p)) (\<lambda>v. guard (to_lower v = to_lower expected) ''FILE_CHANGED'')))
     | Inl e \<Rightarrow> if err_code e = ''ENOENT'' then ret () else raise (file_error (err_code e)))"

text \<open>\<open>atomicfile.Publish\<close> without overwriting: a hard link, then the temporary name goes.\<close>

definition publish_new :: "path \<Rightarrow> path \<Rightarrow> unit fact" where
  "publish_new temp p = andthen (link temp p) (\<lambda>_. remove temp)"

definition publish_upload ::
  "(manifest \<Rightarrow> string) \<Rightarrow> (string \<Rightarrow> manifest option) \<Rightarrow> int \<Rightarrow> string option \<Rightarrow> string \<Rightarrow> path \<Rightarrow> path \<Rightarrow> file_entry fact" where
  "publish_upload jenc jdec now rid clean temp p =
     andthen (on_error (\<lambda>c. raise (if c = ''EEXIST'' then ''FILE_EXISTS'' else ''FILE_WRITE_FAILED''))
       (publish_with_recycle jenc jdec now rid clean (publish_new temp p))) (\<lambda>_.
     andthen (as_file (stat p)) (\<lambda>t.
     ret \<lparr>fe_name = path_base clean, fe_path = clean, fe_type = ''file'', fe_size = node_size t,
       fe_mode = node_mode t\<rparr>))"

text \<open>\<open>O_RDWR|O_CREATE\<close>, and appending at the end of the file.\<close>

definition open_temp :: "path \<Rightarrow> unit fact" where
  "open_temp p = sys
     (\<lambda>d. case node_at d p of
        Inr (Reg m b) \<Rightarrow> None
      | Inr t \<Rightarrow> Some ''EISDIR''
      | Inl e \<Rightarrow> parent_bad p d)
     (\<lambda>d. case node_at d p of Inr t \<Rightarrow> d | Inl e \<Rightarrow> set_node p (Some (Reg 0x1A0 [])) d)"

definition append_bytes :: "path \<Rightarrow> string \<Rightarrow> unit fact" where
  "append_bytes p bytes = exec
     (\<lambda>d. case node_at d p of Inr (Reg m b) \<Rightarrow> set_node p (Some (Reg m (b @ bytes))) d | _ \<Rightarrow> d)"

text \<open>The bytes already there, in a buffer of the length of the chunk that starts as zeros.\<close>

definition existing_bytes :: "string \<Rightarrow> nat \<Rightarrow> nat \<Rightarrow> string" where
  "existing_bytes b offset n =
     (let got = take n (drop offset b) in got @ replicate (n - length got) (CHR 0x00))"

definition put_chunk :: "path \<Rightarrow> string \<Rightarrow> nat \<Rightarrow> nat \<Rightarrow> unit fact" where
  "put_chunk temp chunk offset part =
     andthen (as_error ''FILE_WRITE_FAILED'' (open_temp temp)) (\<lambda>_.
     andthen (as_error ''FILE_WRITE_FAILED'' (stat temp)) (\<lambda>info.
     andthen (guard (int offset \<le> node_size info) ''UPLOAD_OFFSET_MISMATCH'') (\<lambda>_.
     if int offset < node_size info then
       andthen (as_error ''FILE_WRITE_FAILED'' (read_file temp)) (\<lambda>b.
       guard (existing_bytes b offset (length chunk) = chunk) ''UPLOAD_OFFSET_MISMATCH'')
     else if chunk = [] then ret ()
     else as_error ''FILE_WRITE_FAILED''
       (andthen (append_bytes temp (take part chunk)) (\<lambda>_. append_bytes temp (drop part chunk))))))"

definition finish_upload ::
  "(string \<Rightarrow> string) \<Rightarrow> (manifest \<Rightarrow> string) \<Rightarrow> (string \<Rightarrow> manifest option) \<Rightarrow> int \<Rightarrow> string option \<Rightarrow> string \<Rightarrow>
    path \<Rightarrow> path \<Rightarrow> int \<Rightarrow> string \<Rightarrow> bool \<Rightarrow> string \<Rightarrow> file_entry fact" where
  "finish_upload H jenc jdec now rid clean temp p total_size sha overwrite expected =
     andthen (as_error ''FILE_WRITE_FAILED'' (stat temp)) (\<lambda>info.
     andthen (guard (node_size info = total_size) ''FILE_SIZE_MISMATCH'') (\<lambda>_.
     andthen (as_error ''FILE_WRITE_FAILED'' (file_version H temp)) (\<lambda>digest.
     andthen (guard (sha = [] \<or> to_lower sha = to_lower digest) ''FILE_HASH_MISMATCH'') (\<lambda>_.
     andthen (check_target H (as_error ''FILE_WRITE_FAILED'') overwrite expected p) (\<lambda>_.
     publish_upload jenc jdec now rid clean temp p)))))"

section \<open>The operations\<close>

record upload_request =
  uq_path :: string
  uq_bytes :: "string option"
  uq_size :: int
  uq_sha :: string
  uq_overwrite :: bool
  uq_expected :: string
  uq_session :: string
  uq_offset :: int
  uq_last :: bool

definition fresh_session :: "string \<times> path \<Rightarrow> upload_state" where
  "fresh_session tp = \<lparr>us_path = tp, us_last = 0, us_published = False, us_entry = no_entry, us_final = 0\<rparr>"

definition session_step ::
  "(string \<Rightarrow> string) \<Rightarrow> (manifest \<Rightarrow> string) \<Rightarrow> (string \<Rightarrow> manifest option) \<Rightarrow> string \<Rightarrow> int \<Rightarrow> string option \<Rightarrow>
    upload_request \<Rightarrow> string \<Rightarrow> string \<Rightarrow> nat \<Rightarrow> file_entry upact" where
  "session_step H jenc jdec root now rid q sid chunk part =
     andthen (on_disk (entry_path (uq_path q))) (\<lambda>clean.
     andthen (on_disk (upload_place clean)) (\<lambda>p.
     let temp = temp_path p (safe_session_id sid)
     in andthen get_uploads (\<lambda>u.
        let s = (case aget u sid of None \<Rightarrow> fresh_session (root, temp) | Some s \<Rightarrow> s)
        in andthen (guard (us_path s = (root, temp)) ''PERMISSION_DENIED'') (\<lambda>_.
        andthen (set_uploads (aput sid (s\<lparr>us_last := now\<rparr>))) (\<lambda>_.
        if us_published s then
          andthen (guard (uq_last q \<and> uq_offset q = us_final s) ''UPLOAD_OFFSET_MISMATCH'') (\<lambda>_. ret (us_entry s))
        else
          andthen (on_disk (put_chunk temp chunk (nat (uq_offset q)) part)) (\<lambda>_.
          if \<not> uq_last q then ret no_entry
          else
            andthen (on_disk (finish_upload H jenc jdec now rid clean temp p (uq_size q) (uq_sha q)
              (uq_overwrite q) (uq_expected q))) (\<lambda>e.
            andthen (set_uploads (aput sid (s\<lparr>us_last := now, us_published := True, us_entry := e,
              us_final := uq_offset q\<rparr>))) (\<lambda>_.
            ret e)))))))) "

definition upload_chunk ::
  "(string \<Rightarrow> string) \<Rightarrow> (manifest \<Rightarrow> string) \<Rightarrow> (string \<Rightarrow> manifest option) \<Rightarrow> int \<Rightarrow> string \<Rightarrow> bool \<Rightarrow> unit result \<Rightarrow>
    int \<Rightarrow> string option \<Rightarrow> nat \<Rightarrow> upload_request \<Rightarrow> (file_entry \<times> int) upact" where
  "upload_chunk H jenc jdec max_upload root slot_free lock now rid part q =
     (let sid = trim_space (uq_session q)
      in andthen (guard (valid_session_id sid) ''INVALID_REQUEST'') (\<lambda>_.
         andthen (guard (0 \<le> uq_size q \<and> uq_size q \<le> max_upload \<and> 0 \<le> uq_offset q \<and> uq_offset q \<le> uq_size q)
           ''FILE_SIZE_MISMATCH'') (\<lambda>_.
         andthen (guard slot_free ''TOO_MANY_REQUESTS'') (\<lambda>_.
         andthen (need ''FILE_WRITE_FAILED'' (uq_bytes q)) (\<lambda>raw.
         let chunk = read_limited (chunk_size + 1) raw; after = uq_offset q + int (length chunk)
         in andthen (guard (int (length chunk) \<le> chunk_size \<and> int (length chunk) \<le> uq_size q - uq_offset q)
              ''FILE_SIZE_MISMATCH'') (\<lambda>_.
            andthen (guard (uq_last q = (after = uq_size q)) ''FILE_SIZE_MISMATCH'') (\<lambda>_.
            andthen (cleanup_sessions root now) (\<lambda>_.
            andthen (mutate_up lock (session_step H jenc jdec root now rid q sid chunk part)) (\<lambda>e.
            ret (e, after))))))))))"

definition session_status :: "string result \<Rightarrow> string \<Rightarrow> string \<Rightarrow> upload_status upact" where
  "session_status dir rel session =
     (let sid = trim_space session
      in andthen (guard (valid_session_id sid) ''INVALID_REQUEST'') (\<lambda>_.
         andthen (on_disk (entry_path rel)) (\<lambda>clean.
         andthen (lift_result dir) (\<lambda>root.
         andthen (on_disk (secure_path clean True)) (\<lambda>p.
         let temp = temp_path p sid;
             here = (\<lambda>_. andthen (on_disk (attempt (stat temp))) (\<lambda>r.
               case r of
                 Inr t \<Rightarrow> ret \<lparr>ut_id = sid, ut_offset = node_size t, ut_complete = False, ut_entry = None\<rparr>
               | Inl e \<Rightarrow> if err_code e = ''ENOENT''
                   then ret \<lparr>ut_id = sid, ut_offset = 0, ut_complete = False, ut_entry = None\<rparr>
                   else raise (file_error (err_code e))))
         in andthen get_uploads (\<lambda>u.
            case aget u sid of
              None \<Rightarrow> here ()
            | Some s \<Rightarrow>
                andthen (guard (us_path s = (root, temp)) ''PERMISSION_DENIED'') (\<lambda>_.
                if us_published s
                then ret \<lparr>ut_id = sid, ut_offset = fe_size (us_entry s), ut_complete = True, ut_entry = Some (us_entry s)\<rparr>
                else here ())))))))"

text \<open>Cancelling takes the identifier as it was sent.\<close>

definition cancel_upload :: "string result \<Rightarrow> unit result \<Rightarrow> string \<Rightarrow> string \<Rightarrow> upload_status upact" where
  "cancel_upload dir lock rel session =
     andthen (session_status dir rel session) (\<lambda>status.
     if ut_complete status then ret status
     else
       andthen (lift_result dir) (\<lambda>root.
       andthen (mutate_up lock (
         andthen (on_disk (entry_path rel)) (\<lambda>clean.
         andthen (on_disk (secure_path clean True)) (\<lambda>p.
         let temp = temp_path p session
         in andthen get_uploads (\<lambda>u.
            andthen (set_uploads (adel session)) (\<lambda>_.
            andthen (case aget u session of
                None \<Rightarrow> ret ()
              | Some s \<Rightarrow> guard (us_path s = (root, temp)) ''PERMISSION_DENIED'') (\<lambda>_.
            on_disk (on_error (\<lambda>c. if c = ''ENOENT'' then ret () else raise (file_error c)) (remove temp))))))))) (\<lambda>_.
       ret \<lparr>ut_id = session, ut_offset = 0, ut_complete = False, ut_entry = None\<rparr>)))"

text \<open>A step that is taken at the end in every case.\<close>

definition at_end :: "unit fact \<Rightarrow> 'a fact \<Rightarrow> 'a fact" where
  "at_end fin m = (\<lambda>d w. case m d w of (r, d1, w1) \<Rightarrow> (case fin d1 w1 of (_, d2, w2) \<Rightarrow> (r, d2, w2)))"

text \<open>A whole file in one request; \<open>tmp\<close> is the random part of the temporary name.\<close>

definition upload_file ::
  "(string \<Rightarrow> string) \<Rightarrow> (manifest \<Rightarrow> string) \<Rightarrow> (string \<Rightarrow> manifest option) \<Rightarrow> int \<Rightarrow> bool \<Rightarrow> unit result \<Rightarrow>
    int \<Rightarrow> string option \<Rightarrow> string \<Rightarrow> upload_request \<Rightarrow> file_entry fact" where
  "upload_file H jenc jdec max_upload slot_free lock now rid tmp q =
     andthen (guard (0 \<le> uq_size q \<and> uq_size q \<le> max_upload) ''FILE_TOO_LARGE'') (\<lambda>_.
     andthen (guard slot_free ''TOO_MANY_REQUESTS'') (\<lambda>_.
     mutate lock (
       andthen (entry_path (uq_path q)) (\<lambda>clean.
       andthen (upload_place clean) (\<lambda>p.
       andthen (check_target H as_file (uq_overwrite q) (uq_expected q) p) (\<lambda>_.
       let temp = temp_path p tmp
       in andthen (as_error ''FILE_WRITE_FAILED'' (create_new 0x1A0 [] temp)) (\<lambda>_.
          at_end (remove temp) (
            andthen (need ''FILE_WRITE_FAILED'' (uq_bytes q)) (\<lambda>raw.
            let bytes = read_limited (max_upload + 1) raw
            in andthen (as_error ''FILE_WRITE_FAILED'' (append_bytes temp bytes)) (\<lambda>_.
               andthen (guard (int (length bytes) \<le> max_upload \<and> int (length bytes) = uq_size q)
                 ''FILE_SIZE_MISMATCH'') (\<lambda>_.
               andthen (guard (uq_sha q = [] \<or> to_lower (uq_sha q) = to_lower (H bytes)) ''FILE_HASH_MISMATCH'') (\<lambda>_.
               publish_upload jenc jdec now rid clean temp p))))))))))))"

end
