(* ===== verification/FileFrame_Laws.thy ===== *)
theory FileFrame_Laws
  imports RecycleBin_Laws FileUpload
begin

text \<open>
  What an operation can change at all: a frame calculus that holds for every sequence of outcomes.
  \<open>touches P S m\<close>: from a tree with \<open>P\<close>, the action changes nothing but at and below the paths of \<open>S\<close>.
\<close>

definition beyond :: "path set \<Rightarrow> path \<Rightarrow> bool" where
  "beyond S q \<longleftrightarrow> (\<forall>s \<in> S. \<not> prefix s q)"

definition alike :: "path set \<Rightarrow> disk \<Rightarrow> disk \<Rightarrow> bool" where
  "alike S d d' \<longleftrightarrow> (\<forall>q. beyond S q \<longrightarrow> shape_at d' q = shape_at d q)"

definition touches :: "(disk \<Rightarrow> bool) \<Rightarrow> path set \<Rightarrow> 'a fact \<Rightarrow> bool" where
  "touches P S m \<longleftrightarrow> (\<forall>d w r d' w'. m d w = (r, d', w') \<longrightarrow> P d \<longrightarrow> alike S d d')"

lemma shape_at_reg: "shape_at d p = Inr (Reg m b) \<longleftrightarrow> node_at d p = Inr (Reg m b)"
  by (auto simp: shape_at_def shape_reg split: sum.splits)

lemma alike_refl [simp]: "alike S d d"
  by (simp add: alike_def)

lemma alike_trans: "alike S d d1 \<Longrightarrow> alike S d1 d2 \<Longrightarrow> alike S d d2"
  by (simp add: alike_def)

lemma alike_mono: "alike S d d' \<Longrightarrow> (\<And>q. beyond T q \<Longrightarrow> beyond S q) \<Longrightarrow> alike T d d'"
  by (simp add: alike_def)

lemma touchesD: "touches P S m \<Longrightarrow> m d w = (r, d', w') \<Longrightarrow> P d \<Longrightarrow> alike S d d'"
  unfolding touches_def by blast

lemma touches_mono:
  "touches P S m \<Longrightarrow> (\<And>q. beyond T q \<Longrightarrow> beyond S q) \<Longrightarrow> (\<And>d. P' d \<Longrightarrow> P d) \<Longrightarrow> touches P' T m"
  unfolding touches_def using alike_mono by meson

lemma touches_outside:
  assumes "touches P S m" and "P d"
  shows "case m d w of (r, d', w') \<Rightarrow> (\<forall>s \<in> S. \<not> prefix s q) \<longrightarrow> shape_at d' q = shape_at d q"
proof -
  obtain r d' w' where m: "m d w = (r, d', w')" by (metis prod_cases3)
  then show ?thesis using touchesD [OF assms(1) m assms(2)] by (simp add: alike_def beyond_def)
qed

lemma touches_pre: "touches P S m \<Longrightarrow> (\<And>d. P' d \<Longrightarrow> P d) \<Longrightarrow> touches P' S m"
  by (rule touches_mono)

lemma touches_quiet: "quiet m \<Longrightarrow> touches P S m"
  unfolding touches_def using quiet_same by fastforce

lemmas touches_looks = quiet_ret [THEN touches_quiet] quiet_raise [THEN touches_quiet] quiet_guard [THEN touches_quiet]
  quiet_need [THEN touches_quiet] quiet_lift [THEN touches_quiet] quiet_calls [THEN touches_quiet]
  quiet_secure_path [THEN touches_quiet] quiet_entry_path [THEN touches_quiet] quiet_locate [THEN touches_quiet]

text \<open>A condition that a part keeps, whatever the calls answer.\<close>

definition stays :: "(disk \<Rightarrow> bool) \<Rightarrow> path set \<Rightarrow> bool" where
  "stays P S \<longleftrightarrow> (\<forall>d d'. P d \<longrightarrow> alike S d d' \<longrightarrow> P d')"

lemma stays_True [simp]: "stays (\<lambda>_. True) S"
  by (simp add: stays_def)

lemma touches_andthen:
  assumes "touches P S m" and "\<And>d w x d' w'. yields m d w x d' w' \<Longrightarrow> P d \<Longrightarrow> touches P S (f x)" and "stays P S"
  shows "touches P S (andthen m f)"
  unfolding touches_def
proof (intro allI impI)
  fix d w r d' w'
  assume run: "andthen m f d w = (r, d', w')" and P: "P d"
  obtain s d1 w1 where m: "m d w = (s, d1, w1)" by (metis prod_cases3)
  have a: "alike S d d1" using assms(1) m P by (rule touchesD)
  show "alike S d d'"
  proof (cases s)
    case (Inl e)
    then show ?thesis using run m a by (auto simp: andthen_def)
  next
    case (Inr x)
    then have "f x d1 w1 = (r, d', w')" using run m by (simp add: andthen_def)
    moreover have "P d1" using assms(3) P a unfolding stays_def by blast
    moreover have "touches P S (f x)" using assms(2) m Inr P by blast
    ultimately have "alike S d1 d'" using touchesD by blast
    then show ?thesis using a alike_trans by blast
  qed
qed

lemma touches_then:
  "touches P S m \<Longrightarrow> (\<And>x. touches P S (f x)) \<Longrightarrow> stays P S \<Longrightarrow> touches P S (andthen m f)"
  by (rule touches_andthen)

lemma touches_pair: "(\<And>a b. touches P S (f a b)) \<Longrightarrow> touches P S (case x of (a, b) \<Rightarrow> f a b)"
  by (cases x) simp

lemma touches_on_error:
  assumes "touches P S m" and "\<And>c. touches P S (h c)" and "stays P S"
  shows "touches P S (on_error h m)"
  unfolding touches_def
proof (intro allI impI)
  fix d w r d' w'
  assume run: "on_error h m d w = (r, d', w')" and P: "P d"
  obtain s d1 w1 where m: "m d w = (s, d1, w1)" by (metis prod_cases3)
  have a: "alike S d d1" using assms(1) m P by (rule touchesD)
  show "alike S d d'"
  proof (cases s)
    case (Inr x)
    then show ?thesis using run m a by (auto simp: on_error_def)
  next
    case (Inl e)
    then have "h (err_code e) d1 w1 = (r, d', w')" using run m by (simp add: on_error_def)
    moreover have "P d1" using assms(3) P a unfolding stays_def by blast
    ultimately have "alike S d1 d'" using touchesD [OF assms(2)] by blast
    then show ?thesis using a alike_trans by blast
  qed
qed

lemma touches_attempt: "touches P S m \<Longrightarrow> touches P S (attempt m)"
  unfolding touches_def attempt_def by (auto split: prod.splits)

lemma touches_as: "touches P S m \<Longrightarrow> stays P S \<Longrightarrow> touches P S (as_file m)"
  "touches P S m \<Longrightarrow> stays P S \<Longrightarrow> touches P S (as_error c m)"
  unfolding as_file_def as_error_def by (rule touches_on_error; simp add: touches_quiet quiet_raise)+

lemma touches_discard: "touches P S m \<Longrightarrow> stays P S \<Longrightarrow> touches P S (discard m)"
  unfolding discard_def by (rule touches_then) (simp_all add: touches_quiet quiet_ret)

lemma touches_each: "(\<And>x. x \<in> set xs \<Longrightarrow> touches P S (f x)) \<Longrightarrow> stays P S \<Longrightarrow> touches P S (each f xs)"
  by (induction xs) (auto intro!: touches_then touches_looks)

lemma touches_stmt: "(\<And>d. P d \<Longrightarrow> alike S d (snd (q d))) \<Longrightarrow> touches P S (stmt q)"
  unfolding touches_def stmt_def by (auto split: list.splits outcome.splits)

lemma touches_exec_if: "(\<And>d. P d \<Longrightarrow> bad d = None \<Longrightarrow> alike S d (u d)) \<Longrightarrow> touches P S (exec_if bad u)"
  unfolding exec_if_def by (rule touches_stmt) (auto split: option.split)

lemma touches_exec: "(\<And>d. P d \<Longrightarrow> alike S d (u d)) \<Longrightarrow> touches P S (exec u)"
  unfolding exec_def by (rule touches_stmt) simp

lemma alike_set: "\<exists>s \<in> S. prefix s p \<Longrightarrow> alike S d (set_node p x d)"
  unfolding alike_def beyond_def by (meson prefix_order.trans shape_at_set_other)

lemma alike_rename:
  "\<exists>s \<in> S. prefix s p \<Longrightarrow> \<exists>s \<in> S. prefix s q \<Longrightarrow> alike S d (rename_node p q d)"
  unfolding rename_node_def by (auto split: sum.split intro: alike_trans alike_set)

lemma touches_calls:
  "\<exists>s \<in> S. prefix s p \<Longrightarrow> touches P S (mkdir mode p)"
  "\<exists>s \<in> S. prefix s p \<Longrightarrow> touches P S (create_new mode b p)"
  "\<exists>s \<in> S. prefix s p \<Longrightarrow> touches P S (write_file mode b p)"
  "\<exists>s \<in> S. prefix s p \<Longrightarrow> touches P S (replace_file mode b p)"
  "\<exists>s \<in> S. prefix s p \<Longrightarrow> touches P S (remove p)"
  "\<exists>s \<in> S. prefix s p \<Longrightarrow> touches P S (remove_all p)"
  "\<exists>s \<in> S. prefix s p \<Longrightarrow> touches P S (link q p)"
  "\<exists>s \<in> S. prefix s p \<Longrightarrow> touches P S (open_temp p)"
  "\<exists>s \<in> S. prefix s p \<Longrightarrow> touches P S (append_bytes p b)"
  unfolding mkdir_def create_new_def write_file_def replace_file_def remove_def remove_all_def link_def open_temp_def
    append_bytes_def sys_def
  by (rule touches_exec_if touches_exec; auto intro!: alike_set split: sum.split tree.split)+

lemma touches_rename:
  "\<exists>s \<in> S. prefix s p \<Longrightarrow> \<exists>s \<in> S. prefix s q \<Longrightarrow> touches P S (rename p q)"
  unfolding rename_def sys_def by (rule touches_exec_if) (rule alike_rename)

section \<open>The operations\<close>

text \<open>The root is a folder.\<close>

definition rooted :: "disk \<Rightarrow> bool" where
  "rooted d \<longleftrightarrow> folder_at d []"

lemma stays_rooted [simp]:
  assumes "[] \<notin> S"
  shows "stays rooted S"
proof -
  have "beyond S []" using assms by (auto simp: beyond_def)
  then show ?thesis unfolding stays_def rooted_def alike_def folder_at_shape by simp
qed

lemma touches_root: "touches rooted S ensure_root"
  unfolding touches_def
proof (intro allI impI)
  fix d w r d' w'
  assume run: "ensure_root d w = (r, d', w')" and "rooted d"
  then obtain m es where "node_at d [] = Inr (Folder m es)" by (auto simp: rooted_def folder_at_def)
  then have "d' = d" using leavesD [OF leaves_root run] by blast
  then show "alike S d d'" by simp
qed

lemma touches_mutate: "touches rooted S op \<Longrightarrow> [] \<notin> S \<Longrightarrow> touches rooted S (mutate lock op)"
  unfolding mutate_def by (intro touches_then touches_root touches_looks) simp_all

lemma touches_bin:
  assumes "bin_path \<in> S" and "stays P S"
  shows "touches P S ensure_recycle_bin"
proof -
  have b: "\<exists>s \<in> S. prefix s bin_path" using assms(1) by blast
  show ?thesis
    unfolding ensure_recycle_bin_def
    by (intro touches_then touches_attempt touches_looks assms(2))
      (auto split: sum.split intro!: touches_then touches_on_error touches_as touches_calls touches_looks assms(2) b)
qed

lemma bin_below: "bin_path \<in> S \<Longrightarrow> \<exists>s \<in> S. prefix s (bin_path @ q)"
  by (auto intro!: bexI [of _ bin_path])

lemma touches_move_to_bin:
  assumes "bin_path \<in> S" and "elems clean \<in> S" and "normalize_relative rel = Inr clean" and "stays P S"
  shows "touches P S (move_to_bin jenc now rid rel)"
  unfolding move_to_bin_def
proof (rule touches_then [OF touches_quiet [OF quiet_guard]], rule touches_andthen [OF touches_quiet [OF quiet_secure_path]])
  fix d w p d' w'
  assume "yields (secure_path rel False) d w p d' w'"
  then have p: "p = elems clean" using assms(3) by (auto elim: secure_path_yields)
  show "touches P S
     (andthen (as_file (lstat p)) (\<lambda>t.
     andthen (guard (\<not> is_link t) ''PATH_ESCAPE'') (\<lambda>_.
     andthen ensure_recycle_bin (\<lambda>bin.
     andthen (need ''FILE_WRITE_FAILED'' rid) (\<lambda>i.
     andthen (as_error ''FILE_WRITE_FAILED'' (mkdir 0x1E8 (bin @ [i]))) (\<lambda>_.
     andthen (on_error (\<lambda>c. andthen (attempt (remove_all (bin @ [i]))) (\<lambda>_. raise ''FILE_WRITE_FAILED''))
       (andthen (write_file 0x1A0 (jenc (deleted_manifest now rel t)) (bin @ [i, ''manifest.json''])) (\<lambda>_.
        rename p (bin @ [i, ''data''])))) (\<lambda>_.
     ret i)))))))"
  proof (rule touches_then [OF touches_quiet], goal_cases)
    case (2 t)
    show ?case
    proof (rule touches_then [OF touches_quiet [OF quiet_guard] touches_andthen [OF touches_bin [OF assms(1,4)]] assms(4)])
      fix d2 w2 b d3 w3
      assume "yields ensure_recycle_bin d2 w2 b d3 w3"
      then have "b = bin_path" by (auto simp: ensure_recycle_bin_def act_simps)
      then show "touches P S (andthen (need ''FILE_WRITE_FAILED'' rid) (\<lambda>i.
     andthen (as_error ''FILE_WRITE_FAILED'' (mkdir 0x1E8 (b @ [i]))) (\<lambda>_.
     andthen (on_error (\<lambda>c. andthen (attempt (remove_all (b @ [i]))) (\<lambda>_. raise ''FILE_WRITE_FAILED''))
       (andthen (write_file 0x1A0 (jenc (deleted_manifest now rel t)) (b @ [i, ''manifest.json''])) (\<lambda>_.
        rename p (b @ [i, ''data''])))) (\<lambda>_. ret i))))"
        using bin_below [OF assms(1)] assms(2) p
        by (auto intro!: touches_then touches_on_error touches_as touches_calls touches_rename touches_attempt touches_looks
            assms(4))
    qed (rule assms(4))
  qed (intro quiet_intros assms(4))+
qed (rule assms(4))+

section \<open>Restoring and publishing\<close>

lemma touches_leaves:
  assumes "\<And>d. P d \<Longrightarrow> leaves d Q m" and "\<And>x. Q x \<Longrightarrow> touches P S (f x)"
  shows "touches P S (andthen m f)"
  unfolding touches_def
proof (intro allI impI)
  fix d w r d' w'
  assume run: "andthen m f d w = (r, d', w')" and P: "P d"
  obtain s d1 w1 where m: "m d w = (s, d1, w1)" by (metis prod_cases3)
  have s: "d1 = d \<and> (case s of Inl e \<Rightarrow> True | Inr x \<Rightarrow> Q x)" using leavesD [OF assms(1) [OF P] m] .
  show "alike S d d'"
  proof (cases s)
    case (Inl e)
    then show ?thesis using run m s by (auto simp: andthen_def)
  next
    case (Inr x)
    then have "f x d w1 = (r, d', w')" "Q x" using run m s by (simp_all add: andthen_def)
    then show ?thesis using touchesD [OF assms(2)] P by blast
  qed
qed

lemma leaves_bin:
  assumes "folder_at d bin_path"
  shows "leaves d (\<lambda>b. b = bin_path) ensure_recycle_bin"
  unfolding leaves_def
proof (intro allI impI)
  fix w r d' w'
  assume run: "ensure_recycle_bin d w = (r, d', w')"
  obtain m es where t: "node_at d bin_path = Inr (Folder m es)" using assms by (auto simp: folder_at_def)
  obtain s w1 where "lstat bin_path d w = (s, d, w1)" "s = Inr (Folder m es) \<or> s = sql_error"
    using lstat_run [of bin_path d w] t by (metis prod_cases3)
  then show "d' = d \<and> (case r of Inl e \<Rightarrow> True | Inr b \<Rightarrow> b = bin_path)" using run
    by (auto simp: ensure_recycle_bin_def andthen_def attempt_def ret_def guard_def raise_def split: if_splits)
qed

text \<open>Making folders that exist changes nothing.\<close>

lemma touches_mkdir_up:
  assumes "\<And>d q. P d \<Longrightarrow> suffix q rs \<Longrightarrow> q \<noteq> [] \<Longrightarrow> folder_at d (rev q)" and "stays P S"
  shows "touches P S (mkdir_up mode rs)"
  using assms(1)
proof (induction rs)
  case Nil
  show ?case by (simp add: touches_looks)
next
  case (Cons c cs)
  let ?p = "rev (c # cs)"
  have "touches P S (mkdir_up mode cs)"
  proof (rule Cons.IH)
    show "folder_at d (rev q)" if "P d" "suffix q cs" "q \<noteq> []" for d q
      by (rule Cons.prems [OF that(1) suffix_ConsI [OF that(2)] that(3)])
  qed
  moreover have "touches P S (mkdir mode ?p)"
    unfolding mkdir_def sys_def
  proof (rule touches_exec_if)
    show "alike S d (set_node ?p (Some (Folder mode [])) d)" if "P d" "new_bad ?p d = None" for d
      using Cons.prems [OF that(1) suffix_order.refl] new_bad_fresh [OF that(2)] by (auto simp: folder_at_def)
  qed
  ultimately show ?case
    by (auto intro!: touches_then touches_on_error touches_attempt touches_looks assms(2) split: sum.split)
qed

lemma good_parent_above:
  assumes "good_parent d p" and "prefix q (butlast p)"
  shows "folder_at d q"
proof -
  have "strict_prefix (butlast p) p"
    using assms(1) by (cases p rule: rev_cases) (simp_all add: good_parent_def strict_prefix_def)
  then have "strict_prefix q p" using assms(2) by (rule prefix_order.le_less_trans [rotated])
  then show ?thesis using good_parent_folder [OF assms(1)] by (simp add: folder_at_def)
qed

lemma stays_good_parent:
  assumes "\<And>s. s \<in> S \<Longrightarrow> \<not> strict_prefix s p"
  shows "stays (\<lambda>d. good_parent d p) S"
proof -
  have "beyond S q" if "strict_prefix q p" for q
    unfolding beyond_def using that assms by (meson prefix_order.le_less_trans)
  then show ?thesis by (auto simp: stays_def good_parent_shape alike_def)
qed

text \<open>A restore puts back what the manifest names, and that only.\<close>

definition restorable :: "(manifest \<Rightarrow> string) \<Rightarrow> manifest \<Rightarrow> string \<Rightarrow> path \<Rightarrow> disk \<Rightarrow> bool" where
  "restorable jenc man i p d \<longleftrightarrow> good_parent d p \<and> folder_at d bin_path \<and>
     (\<exists>m. node_at d (slot_manifest i) = Inr (Reg m (jenc man)))"

lemma touches_restore:
  assumes rel: "normalize_relative rel = Inr rel" "rel \<noteq> dot" "\<not> is_recycle_path rel"
    and json: "\<exists>m'. jdec (jenc man) = Some m' \<and> rm_path m' = rm_path man" and man: "rm_path man = rel"
    and S: "bin_path \<in> S" "elems rel \<in> S" "\<And>s. s \<in> S \<Longrightarrow> \<not> strict_prefix s (elems rel)"
  shows "touches (restorable jenc man i (elems rel)) S (restore_recycle_entry jdec i)"
proof -
  let ?p = "elems rel" and ?R = "restorable jenc man i (elems rel)" and ?G = "\<lambda>d. good_parent d (elems rel)"
  have stay: "stays ?G S" by (rule stays_good_parent [OF S(3)])
  have place: "touches ?G S (andthen (secure_path rel True) (\<lambda>p.
     andthen (attempt (lstat p)) (\<lambda>r.
     andthen (case r of
        Inr t \<Rightarrow> raise ''FILE_EXISTS''
      | Inl e \<Rightarrow> if err_code e = ''ENOENT'' then ret () else raise (file_error (err_code e))) (\<lambda>_.
     andthen (as_file (mkdir_all 0x1E8 (butlast p))) (\<lambda>_.
     andthen (as_error ''FILE_WRITE_FAILED'' (rename (slot i @ [''data'']) p)) (\<lambda>_.
     ret (slot i)))))))" 
  proof (rule touches_leaves [OF leaves_secure [OF rel(1)]])
    fix q assume q: "q = ?p"
    have mk: "touches ?G S (mkdir_all 0x1E8 (butlast q))"
      unfolding mkdir_all_def
    proof (rule touches_mkdir_up [OF _ stay])
      show "folder_at d (rev u)" if "?G d" "suffix u (rev (butlast q))" for d u
        using good_parent_above [OF that(1)] that(2) q by (simp add: suffix_to_prefix)
    qed
    have "\<exists>s \<in> S. prefix s (slot i @ [''data''])" "\<exists>s \<in> S. prefix s q"
      using bin_below [OF S(1), of "[i, ''data'']"] S(2) q by (auto simp: slot_paths)
    then show "touches ?G S (andthen (attempt (lstat q)) (\<lambda>r.
       andthen (case r of
          Inr t \<Rightarrow> raise ''FILE_EXISTS''
        | Inl e \<Rightarrow> if err_code e = ''ENOENT'' then ret () else raise (file_error (err_code e))) (\<lambda>_.
       andthen (as_file (mkdir_all 0x1E8 (butlast q))) (\<lambda>_.
       andthen (as_error ''FILE_WRITE_FAILED'' (rename (slot i @ [''data'']) q)) (\<lambda>_.
       ret (slot i))))))"
      by (intro touches_then touches_as touches_attempt touches_rename touches_looks mk stay)
        (auto simp: touches_looks split: sum.split)
  qed
  have data: "touches ?R S (restore_data jdec i)"
    unfolding restore_data_def
  proof (rule touches_leaves [where Q = "\<lambda>b. b = bin_path"])
    show "leaves d (\<lambda>b. b = bin_path) ensure_recycle_bin" if "?R d" for d
      using that leaves_bin by (simp add: restorable_def)
    fix b assume b: "b = bin_path"
    show "touches ?R S (andthen (locate_entry jdec b i) (\<lambda>(dir, m).
     andthen (secure_path (rm_path m) True) (\<lambda>p.
     andthen (attempt (lstat p)) (\<lambda>r.
     andthen (case r of
        Inr t \<Rightarrow> raise ''FILE_EXISTS''
      | Inl e \<Rightarrow> if err_code e = ''ENOENT'' then ret () else raise (file_error (err_code e))) (\<lambda>_.
     andthen (as_file (mkdir_all 0x1E8 (butlast p))) (\<lambda>_.
     andthen (as_error ''FILE_WRITE_FAILED'' (rename (dir @ [''data'']) p)) (\<lambda>_.
     ret dir)))))))"
    proof (rule touches_leaves [where Q = "\<lambda>x. fst x = slot i \<and> rm_path (snd x) = rel"])
      show "leaves d (\<lambda>x. fst x = slot i \<and> rm_path (snd x) = rel) (locate_entry jdec b i)" if "?R d" for d
        using that json rel man unfolding b restorable_def
        by (intro leaves_quiet [OF quiet_locate]) (auto dest: locate_yields)
      show "touches ?R S (case x of (dir, m) \<Rightarrow> andthen (secure_path (rm_path m) True) (\<lambda>p.
     andthen (attempt (lstat p)) (\<lambda>r.
     andthen (case r of
        Inr t \<Rightarrow> raise ''FILE_EXISTS''
      | Inl e \<Rightarrow> if err_code e = ''ENOENT'' then ret () else raise (file_error (err_code e))) (\<lambda>_.
     andthen (as_file (mkdir_all 0x1E8 (butlast p))) (\<lambda>_.
     andthen (as_error ''FILE_WRITE_FAILED'' (rename (dir @ [''data'']) p)) (\<lambda>_.
     ret dir))))))" if "fst x = slot i \<and> rm_path (snd x) = rel" for x
        using that touches_pre [OF place, where P' = ?R] by (cases x) (simp add: restorable_def)
    qed
  qed
  show ?thesis unfolding restore_recycle_entry_def touches_def
  proof (intro allI impI)
    fix d w r d' w'
    assume run: "andthen (restore_data jdec i) remove_all d w = (r, d', w')" and R: "?R d"
    obtain s d1 w1 where m: "restore_data jdec i d w = (s, d1, w1)" by (metis prod_cases3)
    have a: "alike S d d1" using touchesD [OF data m R] .
    show "alike S d d'"
    proof (cases s)
      case (Inl e)
      then show ?thesis using run m a by (auto simp: andthen_def)
    next
      case (Inr x)
      then have "x = slot i" using m by (auto simp: restore_data_def locate_entry_def act_simps slot_paths ensure_recycle_bin_def)
      then have "\<exists>s \<in> S. prefix s x" using bin_below [OF S(1), of "[i]"] by (simp add: slot_paths)
      moreover have "remove_all x d1 w1 = (r, d', w')" using Inr run m by (simp add: andthen_def)
      ultimately have "alike S d1 d'" using touchesD [OF touches_calls(6) [where P = "\<lambda>_. True"]] by blast
      then show ?thesis using a alike_trans by blast
    qed
  qed
qed

text \<open>
  Publishing: when the move to the bin succeeded and publishing failed, the manifest is still there
  and names the path.
\<close>

lemma publish_steps:
  assumes rel: "normalize_relative rel = Inr rel"
    and json: "\<And>m. \<exists>m'. jdec (jenc m) = Some m' \<and> rm_path m' = rm_path m"
    and publish: "touches (\<lambda>_. True) T publish"
    and T: "\<And>s. s \<in> T \<Longrightarrow> outside s \<and> \<not> strict_prefix s (elems rel)"
    and S: "bin_path \<in> S" "elems rel \<in> S" "\<And>s. s \<in> S \<Longrightarrow> \<not> strict_prefix s (elems rel)"
    and run: "publish_with_recycle jenc jdec now rid rel publish d w = (r, d', w')"
  obtains d1 d2 where "alike S d d1"
    "d2 = d1 \<and> (\<exists>e. r = Inl e) \<or> (\<exists>w1 s w2. publish d1 w1 = (s, d2, w2) \<and> (r = Inr () \<longrightarrow> s = Inr ()))"
    "alike S d2 d'" "r = Inr () \<longrightarrow> d' = d2"
proof -
  let ?p = "elems rel"
  obtain s d1 w1 where m: "move_to_bin jenc now rid rel d w = (s, d1, w1)" by (metis prod_cases3)
  have a: "alike S d d1"
    using touchesD [OF touches_move_to_bin [OF S(1,2) rel, where P = "\<lambda>_. True"] m] by simp
  show thesis
  proof (cases s)
    case (Inl e)
    then have "publish d1 w1 = (r, d', w') \<or> d' = d1 \<and> (\<exists>e. r = Inl e)"
      using run m by (auto simp: publish_with_recycle_def andthen_def attempt_def raise_def split: if_splits)
    then show ?thesis using that [OF a, of d'] by auto
  next
    case (Inr i)
    obtain t d2 w2 where p: "publish d1 w1 = (t, d2, w2)" by (metis prod_cases3)
    have b: "alike T d1 d2" using touchesD [OF publish p] by simp
    obtain u where bin: "in_bin jenc (deleted_manifest now rel u) i ?p u d1" and dot: "rel \<noteq> dot" "\<not> is_recycle_path rel"
      using move_to_bin_yields [OF m [unfolded Inr] rel] m Inr by (auto simp: move_to_bin_def act_simps)
    have far: "beyond T (recycle_bin # q)" for q using T outside_apart by (auto simp: beyond_def)
    have "shape_at d2 (slot_manifest i) = shape_at d1 (slot_manifest i)" "shape_at d2 bin_path = shape_at d1 bin_path"
      using b far by (simp_all add: alike_def slot_defs)
    moreover have "shape_at d1 (slot_manifest i) = Inr (Reg 0x1A0 (jenc (deleted_manifest now rel u)))"
      unfolding shape_at_reg using bin by (simp add: in_bin_def)
    ultimately have "node_at d2 (slot_manifest i) = Inr (Reg 0x1A0 (jenc (deleted_manifest now rel u)))"
      and "folder_at d2 bin_path"
      using bin by (simp_all add: shape_at_reg folder_at_shape in_bin_def)
    moreover have "good_parent d2 ?p"
      using bin stays_good_parent [of T ?p] T b by (auto simp: in_bin_def stays_def)
    ultimately have "restorable jenc (deleted_manifest now rel u) i ?p d2" by (simp add: restorable_def)
    then have undone: "alike S d2 d3" if "restore_recycle_entry jdec i d2 w2 = (v, d3, w3)" for v d3 w3
      using touchesD [OF touches_restore [where jenc = jenc and jdec = jdec and man = "deleted_manifest now rel u" and i = i,
          OF rel dot json _ S] that] by (simp add: deleted_manifest_def)
    show ?thesis
    proof (cases t)
      case (Inl e)
      obtain v d3 w3 where v: "restore_recycle_entry jdec i d2 w2 = (v, d3, w3)" by (metis prod_cases3)
      then have "d' = d3 \<and> (\<exists>e. r = Inl e)"
        using run m \<open>s = Inr i\<close> p Inl
        by (auto simp: publish_with_recycle_def andthen_def attempt_def on_error_def raise_def)
      then show ?thesis using that [OF a, of d2] p undone [OF v] by auto
    next
      case (Inr x)
      then have "d' = d2 \<and> r = Inr x"
        using run m \<open>s = Inr i\<close> p by (auto simp: publish_with_recycle_def andthen_def attempt_def on_error_def)
      then show ?thesis using that [OF a, of d2] p Inr by auto
    qed
  qed
qed

lemma touches_publish:
  assumes rel: "normalize_relative rel = Inr rel"
    and json: "\<And>m. \<exists>m'. jdec (jenc m) = Some m' \<and> rm_path m' = rm_path m"
    and publish: "touches (\<lambda>_. True) T publish"
    and T: "\<And>s. s \<in> T \<Longrightarrow> outside s \<and> \<not> strict_prefix s (elems rel)"
    and S: "T \<subseteq> S" "bin_path \<in> S" "elems rel \<in> S" "\<And>s. s \<in> S \<Longrightarrow> \<not> strict_prefix s (elems rel)"
  shows "touches (\<lambda>_. True) S (publish_with_recycle jenc jdec now rid rel publish)"
  unfolding touches_def
proof (intro allI impI)
  fix d w r d' w'
  assume run: "publish_with_recycle jenc jdec now rid rel publish d w = (r, d', w')"
  have widen: "alike S a b" if "alike T a b" for a b using that S(1) by (auto simp: alike_def beyond_def)
  obtain d1 d2 where "alike S d d1" "d2 = d1 \<or> (\<exists>w1 s w2. publish d1 w1 = (s, d2, w2))" "alike S d2 d'"
    using publish_steps [OF rel json publish T S(2,3,4) run] by metis
  moreover from this have "alike S d1 d2" using touchesD [OF publish] widen by (metis alike_refl)
  ultimately show "alike S d d'" using alike_trans by blast
qed

section \<open>The operations of the service\<close>

lemma beyond_below: "beyond S q \<Longrightarrow> s \<in> S \<Longrightarrow> prefix s p \<Longrightarrow> \<not> prefix p q"
  unfolding beyond_def by (meson prefix_order.trans)

lemma touches_copy_file: "q \<in> S \<Longrightarrow> stays P S \<Longrightarrow> touches P S (copy_file mode p (q @ r))"
  unfolding copy_file_def
  by (intro touches_then touches_as touches_on_error touches_looks touches_calls) (auto intro!: bexI [of _ q])

lemma touches_copy_items:
  assumes "q \<in> S" and "stays P S"
  shows "touches P S (copy_items n src q xs)"
proof (induction xs arbitrary: n)
  case Nil
  show ?case by (simp add: touches_looks)
next
  case (Cons x xs)
  obtain r t where x: "x = (r, t)" by (cases x)
  have "touches P S (mkdir m (q @ r))" for m by (rule touches_calls) (auto intro!: bexI [of _ q] assms(1))
  then show ?case
    unfolding x copy_items.simps when_do_def
    by (auto intro!: touches_then touches_as touches_discard touches_looks touches_copy_file [OF assms(1)] Cons.IH assms(2))
qed

lemma touches_copy_directory:
  assumes "q \<in> S" and "stays P S"
  shows "touches P S (copy_directory p q t)"
  unfolding copy_directory_def
  by (intro touches_then touches_as touches_on_error touches_attempt touches_looks touches_copy_items [OF assms]
      touches_calls assms(2)) (auto intro!: bexI [of _ q] assms(1))

text \<open>A path that was accepted is the one that was asked for.\<close>

lemma touches_secure:
  assumes "normalize_relative clean = Inr clean" and "touches P S (f (elems clean))"
  shows "touches P S (andthen (secure_path clean allow) f)"
  by (rule touches_leaves [OF leaves_secure [OF assms(1)]]) (use assms(2) in simp)

lemma touches_entry:
  assumes "normalize_relative rel = Inr clean" and "touches P S (f clean)"
  shows "touches P S (andthen (entry_path rel) f)"
  by (rule touches_leaves [OF leaves_entry [OF assms(1)]]) (use assms(2) in simp)

definition normal :: "string \<Rightarrow> string \<Rightarrow> bool" where
  "normal rel clean \<longleftrightarrow> normalize_relative rel = Inr clean \<and> normalize_relative clean = Inr clean \<and> clean \<noteq> dot"

lemma normal_elems_not_Nil: "normal rel clean \<Longrightarrow> elems clean \<noteq> []"
  using elems_Nil normalize_relative_confined by (auto simp: normal_def)

lemma touches_create:
  assumes "normal rel clean"
  shows "touches rooted {elems clean} (create_entry lock rel kind)"
proof -
  note n = assms [unfolded normal_def] and ne = normal_elems_not_Nil [OF assms]
  have "touches rooted {elems clean} (mkdir m (elems clean))" "touches rooted {elems clean} (create_new m b (elems clean))" for m b
    by (rule touches_calls; simp)+
  then show ?thesis
    unfolding create_entry_def
    by (intro touches_mutate touches_entry [OF conjunct1 [OF n]] touches_secure [OF conjunct1 [OF conjunct2 [OF n]]] touches_then
        touches_attempt touches_looks)
      (use ne in \<open>auto intro!: touches_as touches_on_error touches_then touches_attempt touches_looks split: sum.split\<close>)
qed

lemma touches_move:
  assumes "normal src a" and "normal dst b"
  shows "touches rooted {elems a, elems b} (move_entry lock src dst overwrite)"
proof -
  note n = assms [unfolded normal_def] and ne = assms [THEN normal_elems_not_Nil]
  have "touches rooted {elems a, elems b} (rename (elems a) (elems b))" by (rule touches_rename) auto
  then show ?thesis
    unfolding move_entry_def require_absent_def
    by (intro touches_mutate touches_entry [OF conjunct1 [OF n(1)]] touches_entry [OF conjunct1 [OF n(2)]]
        touches_secure [OF conjunct1 [OF conjunct2 [OF n(1)]]] touches_secure [OF conjunct1 [OF conjunct2 [OF n(2)]]] touches_then)
      (use ne in \<open>auto intro!: touches_as touches_then touches_attempt touches_looks split: sum.split\<close>)
qed

lemma touches_copy:
  assumes "normal src a" and "normal dst b"
  shows "touches rooted {elems b} (copy_entry slot_free lock src dst)"
proof -
  note n = assms [unfolded normal_def] and ne = assms [THEN normal_elems_not_Nil]
  have stay: "stays rooted {elems b}" using ne by simp
  have one: "touches rooted {elems b} (copy_file m p (elems b))" for m p
    using touches_copy_file [of "elems b" "{elems b}" rooted m p "[]"] stay by simp
  have all: "touches rooted {elems b} (copy_directory p (elems b) t)" for p t
    by (rule touches_copy_directory) (simp_all add: stay)
  show ?thesis
    unfolding copy_entry_def require_absent_def
    by (intro touches_then [OF touches_looks(3)] touches_mutate touches_entry [OF conjunct1 [OF n(1)]] touches_entry [OF conjunct1 [OF n(2)]]
        touches_secure [OF conjunct1 [OF conjunct2 [OF n(1)]]] touches_secure [OF conjunct1 [OF conjunct2 [OF n(2)]]] touches_then)
      (use ne one all stay in \<open>auto intro!: touches_as touches_then touches_attempt touches_looks split: sum.split\<close>)
qed

lemma touches_save:
  assumes "normal rel clean" and json: "\<And>m. \<exists>m'. jdec (jenc m) = Some m' \<and> rm_path m' = rm_path m"
  shows "touches rooted {bin_path, elems clean}
    (save_text H gbk_enc jenc jdec max_edit now rid lock rel text enc expected)"
proof -
  let ?p = "elems clean"
  note n = assms(1) [unfolded normal_def] and ne = normal_elems_not_Nil [OF assms(1)]
  have stay: "stays rooted {bin_path, ?p}" using ne by (simp add: bin_path_def)
  show ?thesis
  proof (cases "is_recycle_path clean")
    case True
    have "touches rooted {bin_path, ?p} (andthen (secure_path clean False) f)" for f :: "path \<Rightarrow> file_content fact"
      by (rule touches_leaves [where Q = "\<lambda>_. False"])
        (use True n in \<open>auto intro!: leaves_quiet quiet_secure_path elim: secure_path_yields\<close>)
    then show ?thesis
      unfolding save_text_def save_body_def
      by (intro touches_mutate touches_entry [OF conjunct1 [OF n]]) (use ne in \<open>simp_all add: bin_path_def\<close>)
  next
    case False
    have out: "outside ?p" using outside_elems [of clean clean] n False ne by simp
    then have top: "\<not> strict_prefix s ?p" if "s \<in> {bin_path, ?p}" for s
      using that outside_apart [OF out, of "[]"] by (auto simp: bin_path_def)
    have put: "touches (\<lambda>_. True) {?p} (replace_file m raw ?p)" for m raw by (rule touches_calls) simp
    have publish: "touches rooted {bin_path, ?p} (publish_with_recycle jenc jdec now rid clean (replace_file m raw ?p))" for m raw
      by (rule touches_pre [OF touches_publish [OF conjunct1 [OF conjunct2 [OF n]] json put]]) (use out top in auto)
    show ?thesis
      unfolding save_text_def save_body_def
      by (intro touches_mutate touches_entry [OF conjunct1 [OF n]] touches_secure [OF conjunct1 [OF conjunct2 [OF n]]]
          touches_then touches_pair touches_as touches_attempt touches_looks publish stay)
        (use ne in \<open>simp add: bin_path_def\<close>)
  qed
qed

lemma touches_delete:
  assumes "\<And>x. x \<in> set xs \<Longrightarrow> \<exists>c. normal (fst x) c \<and> elems c \<in> S" and "bin_path \<in> S" and ne: "[] \<notin> S"
  shows "touches rooted S (delete_entries jenc now lock recursive xs)"
proof -
  have stay: "stays rooted S" using ne by simp
  have one: "touches rooted S (delete_one jenc now recursive x)" if x: "x \<in> set xs" for x
  proof -
    obtain c where c: "normal (fst x) c" "elems c \<in> S" using assms(1) [OF x] by blast
    then have n: "normalize_relative (fst x) = Inr c" "normalize_relative c = Inr c" by (auto simp: normal_def)
    have "touches rooted S (move_to_bin jenc now (snd x) c)"
      by (rule touches_move_to_bin [OF assms(2) c(2) n(2) stay])
    then show ?thesis
      unfolding delete_one_def
      by (intro touches_entry [OF n(1)] touches_secure [OF n(2)] touches_then touches_discard touches_looks touches_as stay)
  qed
  show ?thesis
    unfolding delete_entries_def
    by (intro touches_then touches_mutate touches_each one touches_looks stay ne)
qed

end
