(* ===== verification/FileOps_Props.thy ===== *)
theory FileOps_Props
  imports FileSave_Laws FileList_Laws FileFrame_Laws
begin

text \<open>
  Properties of the file service: what a path may reach, what a save leaves of the old contents, that
  the recycle bin gives back what it took, that nothing is overwritten, and what a listing shows.
\<close>

section \<open>Confinement\<close>

text \<open>C8: Whatever the calls answer, a path that the service accepts consists of ordinary names, does not
  start in the recycle bin, leads along real folders only and does not end in a link (its last name
  may be missing where that is allowed); the check changes nothing. And when no call fails, every such
  path is accepted.\<close>

theorem secure_path_confines:
  "(yields (secure_path rel allow) d w p d' w' \<longrightarrow>
      d' = d \<and> list_all (\<lambda>n. n \<noteq> [] \<and> n \<noteq> ''.'' \<and> n \<noteq> ''..'' \<and> slash \<notin> set n \<and> CHR 0x5C \<notin> set n) p \<and>
      (p = [] \<or> hd p \<noteq> recycle_bin) \<and>
      (\<forall>q. strict_prefix q p \<longrightarrow> (\<exists>m es. node_at d q = Inr (Folder m es))) \<and>
      (case node_at d p of Inr t \<Rightarrow> \<not> is_link t | Inl e \<Rightarrow> allow \<and> p \<noteq> [])) \<and>
   (normalize_relative rel = Inr clean \<and> \<not> is_recycle_path clean \<and>
      (\<forall>q. strict_prefix q (elems clean) \<longrightarrow> (\<exists>m es. node_at d q = Inr (Folder m es))) \<and>
      (\<exists>m es. node_at d [] = Inr (Folder m es)) \<and>
      (case node_at d (elems clean) of Inr t \<Rightarrow> \<not> is_link t | Inl e \<Rightarrow> allow \<and> clean \<noteq> dot) \<longrightarrow>
      secure_path rel allow d [] = (Inr (elems clean), d, []))"
proof (intro conjI impI, goal_cases)
  case 1
  then show ?case by (rule secure_path_yields) simp
next
  case 2
  then show ?case by (rule secure_path_yields) (auto intro: normal_names)
next
  case 3
  then show ?case
    by (rule secure_path_yields) (auto simp: recycle_path_elems [OF normalize_relative_confined])
next
  case 4
  then show ?case by (rule secure_path_yields) (auto simp: reachable_def dest: good_parent_folder)
next
  case 5
  then show ?case by (rule secure_path_yields) (auto simp: plain_node_def)
next
  case 6
  then have c: "confined clean" using normalize_relative_confined by blast
  have gp: "elems clean = [] \<or> good_parent d (elems clean)"
    using 6 by (auto simp: good_parent_shape shape_at_def shape_def)
  moreover have "reachable d (elems clean)" using gp 6 by (auto simp: reachable_def folder_at_def)
  moreover have "plain_node d (elems clean) \<or> allow \<and> elems clean \<noteq> [] \<and> node_at d (elems clean) = Err ''ENOENT''"
    using 6 gp elems_Nil [OF c] good_parent_missing
    by (cases "node_at d (elems clean)") (auto simp: plain_node_def)
  ultimately show ?case using 6 by (intro secure_path_run) auto
qed

definition demo_disk :: disk where
  "demo_disk = Some (Folder 0x1E8
     [(''world'', Folder 0x1E8 [(''level.dat'', Reg 0x1A0 ''L'')]), (''out'', Link (Some (Folder 0x1E8 []))),
      (''ops'', Reg 0x1A0 ''old'')])"

theorem secure_path_confines_witness:
  "secure_path ''world//./level.dat'' False demo_disk [] = (Inr [''world'', ''level.dat''], demo_disk, []) \<and>
   fst (secure_path ''out'' False demo_disk []) = Err ''PATH_ESCAPE'' \<and>
   fst (secure_path ''world/../ops'' False demo_disk []) = Err ''PATH_ESCAPE''"
proof (intro conjI)
  have run: "yields (secure_path ''world//./level.dat'' False) demo_disk [] [''world'', ''level.dat''] demo_disk []"
    by code_simp
  show "secure_path ''world//./level.dat'' False demo_disk [] = (Inr [''world'', ''level.dat''], demo_disk, [])"
    using conjunct1 [OF secure_path_confines, rule_format, OF run] run by simp
qed code_simp+

section \<open>What an operation can change\<close>




section \<open>Saving\<close>

text \<open>C5: Whichever of the calls of a save fail, and although taking the old file to the bin, writing and
  taking it back are separate steps: if no call reports an error after it has taken effect, the old
  contents are still at the path or under the entry of the bin. A save that succeeds was asked for
  with the hash of the old contents, leaves the encoded text at the path, the old contents in the bin,
  and returns the hash of what it wrote.\<close>

theorem save_keeps_old:
  assumes "normalize_relative rel = Inr clean" and "normalize_relative clean = Inr clean" and "clean \<noteq> dot"
    and "\<not> is_recycle_path clean" and "good_parent d (elems clean)" and "node_at d (elems clean) = Inr (Reg mode old)"
    and "node_at d (slot i) = Err ''ENOENT''" and "Lost \<notin> set w"
    and "jdec (jenc (deleted_manifest now clean (Reg mode old))) = Some (deleted_manifest now clean (Reg mode old))"
    and "save_body H gbk_enc jenc jdec max_edit now (Some i) rel text enc expected d w = (r, d', w')"
  shows "(node_at d' (elems clean) = Inr (Reg mode old) \<or> node_at d' (slot_data i) = Inr (Reg mode old)) \<and>
    (case r of
       Inl e \<Rightarrow> True
     | Inr c \<Rightarrow> H old = expected \<and> node_at d' (slot_data i) = Inr (Reg mode old) \<and>
         (\<exists>raw enc'. encode_text gbk_enc text enc = Inr (raw, enc') \<and> fc_version c = H raw \<and>
            node_at d' (elems clean) = Inr (Reg mode raw)))"
proof -
  have "at_place (elems clean) (Reg mode old) i d" using assms(5,6,7) by (simp add: at_place_def)
  from ensuresD [OF en_save_body [where jenc = jenc and jdec = jdec, OF assms(1-4,9)] assms(10) this assms(8)]
  show ?thesis by (cases r) (auto simp: kept_somewhere_def replaced_def)
qed

definition demo_manifest :: manifest where
  "demo_manifest = deleted_manifest 7 ''ops'' (Reg 0x1A0 ''old'')"

definition demo_save :: "outcome list \<Rightarrow> file_content result \<times> disk \<times> outcome list" where
  "demo_save w = save_body (\<lambda>s. s) (\<lambda>s. None) (\<lambda>m. ''{}'') (\<lambda>s. Some demo_manifest) 1000 7 (Some ''e1'')
     ''ops'' ''new'' ''utf-8'' ''old'' demo_disk w"

text \<open>A save where publishing and then taking back both fail: the file is only in the bin.\<close>

theorem save_keeps_old_witness:
  "node_at (fst (snd (demo_save (replicate 13 Done @ [Failed, Failed])))) [''ops''] = Err ''ENOENT'' \<and>
   node_at (fst (snd (demo_save (replicate 13 Done @ [Failed, Failed])))) (slot_data ''e1'') = Inr (Reg 0x1A0 ''old'') \<and>
   node_at (fst (snd (demo_save []))) [''ops''] = Inr (Reg 0x1A0 ''new'')"
proof (intro conjI)
  let ?w = "replicate 13 Done @ [Failed, Failed]"
  show gone: "node_at (fst (snd (demo_save ?w))) [''ops''] = Err ''ENOENT''" by code_simp
  have lost: "Lost \<notin> set ?w" by code_simp
  have run: "demo_save ?w = (fst (demo_save ?w), fst (snd (demo_save ?w)), snd (snd (demo_save ?w)))" by simp
  have el: "elems ''ops'' = [''ops'']" by code_simp
  have "node_at (fst (snd (demo_save ?w))) (elems ''ops'') = Inr (Reg 0x1A0 ''old'') \<or>
     node_at (fst (snd (demo_save ?w))) (slot_data ''e1'') = Inr (Reg 0x1A0 ''old'')"
    by (rule conjunct1 [OF save_keeps_old [where clean = "''ops''", OF _ _ _ _ _ _ _ lost _ run [unfolded demo_save_def]],
          folded demo_save_def]) (simp_all only: demo_manifest_def, code_simp+)
  then show "node_at (fst (snd (demo_save ?w))) (slot_data ''e1'') = Inr (Reg 0x1A0 ''old'')"
    using gone by (simp add: el)
  show "node_at (fst (snd (demo_save []))) [''ops''] = Inr (Reg 0x1A0 ''new'')" by code_simp
qed

section \<open>Deleting and restoring\<close>

text \<open>C20: What a delete moved to the recycle bin comes back: whatever the calls of a successful delete
  answered, the entry is gone from its place, and restoring it, when no call fails, succeeds, removes it
  from the bin and leaves every path outside of the bin with the kind, mode and contents it had.\<close>

theorem delete_restore:
  assumes "normalize_relative rel = Inr clean" and "normalize_relative clean = Inr clean"
    and "node_at d [] = Inr (Folder m es)" and "node_at d (elems clean) = Inr t" and "is_folder t \<or> is_reg t"
    and "valid_entry_id i"
    and "jdec (jenc (deleted_manifest now clean t)) = Some (deleted_manifest now clean t)"
    and "yields (delete_entries jenc now lock recursive [(rel, Some i)]) d w () d1 w1"
  shows "node_at d1 (elems clean) = Err ''ENOENT'' \<and>
    (\<exists>d2. recycle_restore jdec (Inr ()) i d1 [] = (Inr (), d2, []) \<and> node_at d2 (slot i) = Err ''ENOENT'' \<and>
       (\<forall>q. \<not> prefix bin_path q \<longrightarrow> shape_at d2 q = shape_at d q))"
proof -
  obtain d0 wx wy where root0: "yields ensure_root d wx () d0 wy"
    and one: "yields (delete_one jenc now recursive (rel, Some i)) d0 wy () d1 w1"
    using assms(8) by (auto simp: delete_entries_def mutate_def act_simps)
  obtain wa wb j where dot: "clean \<noteq> dot" "\<not> is_recycle_path clean"
    and run: "yields (move_to_bin jenc now (Some i) clean) d wa j d1 wb"
    by (rule delete_one_yields [OF one]) (use assms(1) root_same [OF assms(3) root0] in simp)
  obtain t' where b: "outside (elems clean)" "good_parent d (elems clean)" "node_at d (elems clean) = Inr t'"
    "in_bin jenc (deleted_manifest now clean t') i (elems clean) t' d1"
    and others: "\<And>q. \<not> prefix bin_path q \<Longrightarrow> \<not> prefix (elems clean) q \<Longrightarrow> shape_at d1 q = shape_at d q"
    by (rule move_to_bin_yields [OF run assms(2)]) auto
  have t: "t' = t" using b(3) assms(4) by simp
  let ?x = "set_node (elems clean) (Some t) (set_node (slot_data i) None d1)"
  have data: "restore_data jdec i d1 [] = (Inr (slot i), ?x, [])"
    by (rule restore_data_run [where jenc = jenc and jdec = jdec and now = now, OF b(4) [unfolded t] assms(6,5,7,2) dot])
  have root: "ensure_root d1 [] = (Inr (), d1, [])" using root_run in_bin_root b(4) by blast
  have rest: "recycle_restore jdec (Inr ()) i d1 [] = (Inr (), set_node (slot i) None ?x, [])"
    using data root by (simp add: recycle_restore_def mutate_def lift_result_def andthen_def as_error_def on_error_def
        remove_all_def exec_def stmt_def ret_def)
  have "good_parent ?x (slot i)"
    using b(1,4) outside_apart [OF b(1)] by (simp add: in_bin_def good_parent_set_other slot_defs)
  then have "node_at (set_node (slot i) None ?x) (slot i) = Err ''ENOENT''" by (simp add: node_at_set_self)
  moreover have "shape_at (set_node (slot i) None ?x) q = shape_at d q" if "\<not> prefix bin_path q" for q
    using restored_same [OF b(1,2,3,4) others that] by (simp add: t)
  ultimately show ?thesis using rest b(4) by (auto simp: in_bin_def)
qed

theorem delete_restore_witness:
  "node_at (fst (snd (delete_entries (\<lambda>m. ''{}'') 7 (Inr ()) False [(''ops'', Some ''e1'')] demo_disk []))) [''ops'']
     = Err ''ENOENT''"
proof -
  let ?d = "fst (snd (delete_entries (\<lambda>m. ''{}'') 7 (Inr ()) False [(''ops'', Some ''e1'')] demo_disk []))"
  have run: "yields (delete_entries (\<lambda>m. ''{}'') 7 (Inr ()) False [(''ops'', Some ''e1'')]) demo_disk [] () ?d []"
    by code_simp
  have "node_at ?d (elems ''ops'') = Err ''ENOENT''"
    by (rule conjunct1 [OF delete_restore [where clean = "''ops''" and jdec = "\<lambda>s. Some demo_manifest", OF _ _ _ _ _ _ _ run]])
      (simp_all only: demo_manifest_def, code_simp+)
  moreover have "elems ''ops'' = [''ops'']" by code_simp
  ultimately show ?thesis by simp
qed

section \<open>Listing\<close>

text \<open>C26: A client that asks for a folder page by page with the cursors it gets, whatever page size it
  asks for, reads every visible entry that is a file or a folder exactly once, folders first and each
  kind by name without regard to case, and gets to the end.\<close>

theorem listing_complete:
  assumes "normalize_relative rel = Inr rel" and "\<not> is_recycle_path rel" and "reachable d (elems rel)"
    and "node_at d (elems rel) = Inr (Folder m es)" and "awf es" and "int (length es) < 2 ^ 63"
    and "length es < n"
  shows "\<exists>vis. all_pages n rel hidden limit [] d = Some (List.map_filter (\<lambda>(c, t). entry_of rel c t) vis) \<and>
    mset vis = mset (visible rel hidden es) \<and>
    sorted_wrt (\<lambda>a b. \<not> less_key (list_key b) (list_key a)) vis"
proof -
  let ?vis = "all_visible rel hidden es"
  have "size (mset ?vis) \<le> length es" unfolding all_visible_mset size_mset visible_def by (rule length_filter_le)
  then have len: "length ?vis \<le> length es" by simp
  have ok: "listable rel m es d" using assms(1-5) by (simp add: listable_def)
  have "all_pages n rel hidden limit [] d = Some (shown rel (drop 0 ?vis))"
    by (rule all_pages_run [OF ok]) (use len assms(6,7) in \<open>simp_all add: decode_cursor_def\<close>)
  moreover have "sorted_wrt (\<lambda>a b. \<not> less_key (list_key b) (list_key a)) ?vis"
    by (rule sorted_wrt_mono_rel [OF _ all_visible_sorted]) (simp add: listed_before_def)
  ultimately show ?thesis using all_visible_mset [of rel hidden es] by (auto simp: shown_def)
qed

theorem listing_complete_witness:
  "map_option (map fe_name) (all_pages 4 ''.'' False 1 [] demo_disk) = Some [''world'', ''ops''] \<and>
   (\<exists>vis. all_pages 4 ''.'' False 1 [] demo_disk = Some (List.map_filter (\<lambda>(c, t). entry_of ''.'' c t) vis))"
proof
  show "map_option (map fe_name) (all_pages 4 ''.'' False 1 [] demo_disk) = Some [''world'', ''ops'']" by code_simp
  have el: "elems ''.'' = []" by code_simp
  have norm: "normalize_relative ''.'' = Inr ''.''" "\<not> is_recycle_path ''.''" by code_simp+
  have reach: "reachable demo_disk (elems ''.'')" by (simp add: el reachable_def folder_at_def demo_disk_def node_at_def)
  let ?es = "[(''world'', Folder 0x1E8 [(''level.dat'', Reg 0x1A0 ''L'')]), (''out'', Link (Some (Folder 0x1E8 []))),
      (''ops'', Reg 0x1A0 ''old'')]"
  have es: "node_at demo_disk (elems ''.'') = Inr (Folder 0x1E8 ?es)" "awf ?es"
    by (simp_all add: el demo_disk_def node_at_def awf_def)
  show "\<exists>vis. all_pages 4 ''.'' False 1 [] demo_disk = Some (List.map_filter (\<lambda>(c, t). entry_of ''.'' c t) vis)"
    using listing_complete [OF _ _ reach es, where n = 4 and hidden = False and limit = 1] norm by auto
qed

section \<open>Nothing is overwritten\<close>

text \<open>C27: Whatever the calls answer, creating, moving and copying never touch what is already at the
  destination: the tree stays as it is, moving and copying fail, and creating fails too unless a folder
  was asked for where there is one.\<close>

theorem nothing_replaced:
  assumes "normalize_relative dst = Inr clean" and "normalize_relative clean = Inr clean"
    and "node_at d (elems clean) = Inr t" and "node_at d [] = Inr (Folder m es)"
  shows "(case move_entry lock src dst overwrite d w of (r, d', w') \<Rightarrow> d' = d \<and> (\<exists>e. r = Inl e)) \<and>
    (case copy_entry slot_free lock src dst d w of (r, d', w') \<Rightarrow> d' = d \<and> (\<exists>e. r = Inl e)) \<and>
    (case create_entry lock dst kind d w of (r, d', w') \<Rightarrow>
       d' = d \<and> (r = Inr () \<longrightarrow> kind = ''directory'' \<and> is_folder t))"
proof -
  note root = leaves_mutate [OF assms(4)] and dst = leaves_entry [OF assms(1)]
    and place = leaves_secure [OF assms(2)] and absent = leaves_absent [OF assms(3)]
  have move: "leaves d (\<lambda>_. False) (move_entry lock src dst overwrite)"
    unfolding move_entry_def
    by (rule root, rule leaves_skip [OF quiet_entry_path], rule leaves_then [OF dst],
        rule leaves_skip [OF quiet_secure_path], rule leaves_then [OF place], rule leaves_stop [OF absent])
  have copy: "leaves d (\<lambda>_. False) (copy_entry slot_free lock src dst)"
    unfolding copy_entry_def
    by (rule leaves_skip [OF quiet_guard], rule root, rule leaves_skip [OF quiet_entry_path], rule leaves_then [OF dst],
        rule leaves_skip [OF quiet_secure_path], rule leaves_then [OF place], rule leaves_stop [OF absent])
  have create: "leaves d (\<lambda>_. kind = ''directory'' \<and> is_folder t) (create_entry lock dst kind)"
    unfolding create_entry_def
    by (rule root, rule leaves_then [OF dst], rule leaves_then [OF place],
        rule leaves_andthen [OF leaves_look [OF assms(3)]])
      (auto intro!: leaves_raise leaves_quiet [OF quiet_ret])
  show ?thesis
    using leaves_fails [OF move] leaves_fails [OF copy] leaves_case [OF create] by (simp add: case_prod_beta)
qed

theorem nothing_replaced_witness:
  "fst (move_entry (Inr ()) ''ops'' ''world'' True demo_disk []) = Err ''INVALID_REQUEST'' \<and>
   fst (snd (copy_entry True (Inr ()) ''world'' ''ops'' demo_disk [])) = demo_disk"
proof
  show "fst (move_entry (Inr ()) ''ops'' ''world'' True demo_disk []) = Err ''INVALID_REQUEST''" by code_simp
  have n: "normalize_relative ''ops'' = Inr ''ops''" by code_simp
  have el: "elems ''ops'' = [''ops'']" by code_simp
  have t: "node_at demo_disk (elems ''ops'') = Inr (Reg 0x1A0 ''old'')"
    by (simp add: el demo_disk_def node_at_def aget_Cons)
  obtain m es where root: "node_at demo_disk [] = Inr (Folder m es)" by (auto simp: demo_disk_def node_at_def)
  show "fst (snd (copy_entry True (Inr ()) ''world'' ''ops'' demo_disk [])) = demo_disk"
    using conjunct1 [OF conjunct2 [OF nothing_replaced [OF n n t root]], of True "Inr ()" "''world''" "[]"]
    by (simp add: case_prod_beta)
qed

section \<open>Names with spaces around them\<close>

definition padded_disk :: disk where
  "padded_disk = Some (Folder 0x1E8 [(''a '', Reg 0x1A0 ''padded''), (''a'', Reg 0x1A0 ''plain'')])"

text \<open>C36: The service trims every path it gets. So the path it lists for an entry whose name ends in a
  space is not the path of that entry: reading it, saving to it or deleting it acts on the entry with the
  trimmed name, if there is one, and otherwise finds nothing.\<close>

theorem padded_names_alias:
  "normalize_relative (rel @ '' '') = normalize_relative rel \<and>
   map_option (map fe_path) (all_pages 3 ''.'' False 9 [] padded_disk) = Some [''a'', ''a ''] \<and>
   (case read_text (\<lambda>s. s) (\<lambda>s. None) 1000 (Inr []) ''a '' padded_disk [] of
      (Inr c, d, w) \<Rightarrow> fc_path c = ''a'' \<and> fc_text c = ''plain'' | _ \<Rightarrow> False) \<and>
   (case delete_entries (\<lambda>m. ''{}'') 7 (Inr ()) False [(''a '', Some ''e1'')] padded_disk [] of
      (r, d, w) \<Rightarrow> r = Inr () \<and> node_at d [''a''] = Err ''ENOENT'' \<and> node_at d [''a ''] = Inr (Reg 0x1A0 ''padded''))"
proof (intro conjI)
  have "trim_space (rel @ '' '') = trim_space rel" by (rule trim_space_snoc)
  then show "normalize_relative (rel @ '' '') = normalize_relative rel" by (simp only: normalize_relative_def)
qed code_simp+

end
