(* ===== verification/FileUpload_Laws.thy ===== *)
theory FileUpload_Laws
  imports FileFrame_Laws
begin

text \<open>
  Laws of upload sessions: what the temporary file holds while the chunks of one source arrive, in any
  order, more than once and with calls that fail, and what a finished session has published.
\<close>

section \<open>The temporary file and the target\<close>

definition temp_ok :: "string \<Rightarrow> path \<Rightarrow> disk \<Rightarrow> bool" where
  "temp_ok src temp d \<longleftrightarrow> (case shape_at d temp of Inl e \<Rightarrow> True | Inr t \<Rightarrow> (\<exists>m b. t = Reg m b \<and> prefix b src))"

definition published :: "string \<Rightarrow> path \<Rightarrow> disk \<Rightarrow> bool" where
  "published src p d \<longleftrightarrow> good_parent d p \<and> (\<exists>m. node_at d p = Inr (Reg m src))"

definition spares :: "string \<Rightarrow> path \<Rightarrow> path \<Rightarrow> disk \<Rightarrow> disk \<Rightarrow> bool" where
  "spares src temp p d d' \<longleftrightarrow> (temp_ok src temp d \<longrightarrow> temp_ok src temp d') \<and> (published src p d \<longrightarrow> published src p d')"

interpretation spared: preserved "spares src temp p" for src temp p
  by unfold_locales (auto simp: spares_def)

lemma quiet_reads: "quiet m \<Longrightarrow> reads m"
  unfolding keeps_def quiet_def by (metis prod.exhaust_sel)

lemma temp_ok_cases:
  assumes "temp_ok src temp d"
  obtains e where "node_at d temp = Inl e" | m b where "node_at d temp = Inr (Reg m b)" "prefix b src"
  using assms by (auto simp: temp_ok_def shape_at_def shape_reg split: sum.splits)

lemma temp_ok_missing: "node_at d temp = Inl e \<Longrightarrow> temp_ok src temp d"
  by (simp add: temp_ok_def shape_at_def)

lemma temp_ok_reg: "node_at d temp = Inr (Reg m b) \<Longrightarrow> prefix b src \<Longrightarrow> temp_ok src temp d"
  by (simp add: temp_ok_def shape_at_def shape_def)

text \<open>Without real folders on the way, changing a node changes nothing that can be seen.\<close>

lemma shape_of_alter_unreached:
  assumes "\<not> real_dirs t p"
  shows "shape_of (alter p f t) q = shape_of t q"
  using assms
proof (induction p f t arbitrary: q rule: alter.induct)
  case (2 c d cs f m es)
  show ?case
  proof (cases "aget es c")
    case (Some u)
    then have "\<not> real_dirs u (d # cs)" using 2 by simp
    then have IH: "shape_of (alter (d # cs) f u) r = shape_of u r" for r using 2 Some by simp
    show ?thesis
    proof (cases q)
      case Nil
      then show ?thesis by (simp add: shape_of_def shape_def)
    next
      case (Cons a r)
      then show ?thesis using IH Some by (auto simp: shape_of_Folder_Cons aget_aput)
    qed
  qed simp
qed auto

lemma shape_at_unreached:
  assumes "\<not> good_parent d p" and "p \<noteq> []"
  shows "shape_at (set_node p x d) q = shape_at d q"
  using assms shape_of_alter_unreached
  by (cases d) (simp_all add: good_parent_def shape_at_def node_at_def set_node_def shape_of_def)

lemma strict_prefix_split: "strict_prefix y q \<Longrightarrow> \<exists>c cs. q = y @ c # cs"
  by (metis append_Nil2 neq_Nil_conv prefix_def strict_prefix_def)

text \<open>An empty folder or nothing in place of another node: what lay below is gone.\<close>

lemma shape_at_hidden:
  assumes "strict_prefix y q" and "y \<noteq> []" and "x = None \<or> x = Some (Folder m [])"
  shows "shape_at (set_node y x d) q = shape_at d q \<or> (\<exists>e. shape_at (set_node y x d) q = Inl e)"
proof (cases "good_parent d y")
  case True
  obtain c cs where "q = y @ c # cs" using strict_prefix_split [OF assms(1)] by blast
  then show ?thesis using node_at_set_same [OF True] assms(3) by (auto simp: shape_at_def)
qed (simp add: shape_at_unreached assms(2))

lemma temp_ok_change:
  assumes "y \<noteq> temp \<or> x = None" and "y \<noteq> []" and "x = None \<or> x = Some (Folder m [])" and "temp_ok src temp d"
  shows "temp_ok src temp (set_node y x d)"
proof (cases "y = temp")
  case True
  then have x: "x = None" using assms(1) by simp
  show ?thesis
  proof (cases "good_parent d y")
    case good: True
    then show ?thesis using node_at_set_self [OF good, of x] x True by (auto intro: temp_ok_missing)
  next
    case False
    then show ?thesis using shape_at_unreached [OF False assms(2)] assms(4) by (simp add: temp_ok_def)
  qed
next
  case False
  consider "\<not> prefix y temp" | "strict_prefix y temp" using False by (auto simp: strict_prefix_def)
  then show ?thesis
  proof cases
    case 1
    then show ?thesis using assms(4) by (simp add: temp_ok_def shape_at_set_other)
  next
    case 2
    then show ?thesis using shape_at_hidden [OF 2 assms(2,3), of d] assms(4) by (auto simp: temp_ok_def)
  qed
qed

text \<open>The published file is not in the way of a change that was allowed.\<close>

lemma published_other:
  assumes "published src p d" and "\<not> prefix y p"
  shows "published src p (set_node y x d)"
proof -
  have "\<not> strict_prefix y p" using assms(2) by auto
  then show ?thesis using assms reg_set_other good_parent_set_other unfolding published_def by blast
qed

lemma published_above:
  assumes "published src p d" and "strict_prefix y p"
  shows "\<exists>m c es. node_at d y = Inr (Folder m (c # es))"
proof -
  obtain m es where f: "node_at d y = Inr (Folder m es)"
    using good_parent_folder [of d p y] assms by (auto simp: published_def)
  obtain c cs where p: "p = y @ c # cs" using strict_prefix_split [OF assms(2)] by blast
  have "node_at d p = resolve (Folder m es) (c # cs)" using node_at_append [OF f] by (simp add: p)
  then have "es \<noteq> []" using assms(1) by (auto simp: published_def)
  then show ?thesis using f by (cases es) auto
qed

lemma spares_remove:
  assumes "x \<noteq> p" and "x \<noteq> []"
  shows "keeps (spares src temp p) (remove x)"
  unfolding remove_def sys_def
proof (rule spared.keep_exec_if)
  fix d
  let ?bad = "case node_at d x of Inl e \<Rightarrow> Some (err_code e) | Inr (Folder m (e # es)) \<Rightarrow> Some ''ENOTEMPTY'' | Inr t \<Rightarrow> None"
  assume ok: "?bad = None"
  have "published src p (set_node x None d)" if pub: "published src p d"
  proof (cases "prefix x p")
    case True
    then have "strict_prefix x p" using assms(1) by (simp add: strict_prefix_def)
    then show ?thesis using published_above [OF pub] ok by force
  qed (rule published_other [OF pub])
  then show "spares src temp p d (set_node x None d)"
    using temp_ok_change [of x temp None] assms(2) by (auto simp: spares_def)
qed

lemma spares_mkdir:
  assumes "strict_prefix x p" and "x \<noteq> temp" and "x \<noteq> []"
  shows "keeps (spares src temp p) (mkdir mode x)"
  unfolding mkdir_def sys_def
proof (rule spared.keep_exec_if)
  fix d
  assume "new_bad x d = None"
  then obtain e where "node_at d x = Inl e" using new_bad_fresh by blast
  then have "\<not> published src p d" using published_above assms(1) by fastforce
  then show "spares src temp p d (set_node x (Some (Folder mode [])) d)"
    using temp_ok_change [of x temp "Some (Folder mode [])"] assms(2,3) by (auto simp: spares_def)
qed

section \<open>The paths of an upload\<close>

definition temp_name :: "string \<Rightarrow> bool" where
  "temp_name n \<longleftrightarrow> has_prefix n ''.prism-upload-''"

text \<open>A normal path outside of the bin whose name is not that of a temporary file.\<close>

definition upload_target :: "string \<Rightarrow> bool" where
  "upload_target clean \<longleftrightarrow> normalize_relative clean = Inr clean \<and> clean \<noteq> dot \<and> \<not> is_recycle_path clean \<and>
     \<not> temp_name (last (elems clean))"

lemma has_prefix_append [simp]: "has_prefix (a @ b) a"
  by (simp add: has_prefix_def)

lemma upload_target_paths:
  fixes sid :: string
  assumes "upload_target clean"
  defines "p \<equiv> elems clean" and "temp \<equiv> temp_path (elems clean) sid"
  shows "p \<noteq> []" "outside p" "temp \<noteq> p" "outside temp" "\<not> prefix temp p" "\<not> prefix p temp" "length temp = length p"
proof -
  show ne: "p \<noteq> []"
    using assms(1) elems_Nil [OF normalize_relative_confined, of clean clean] by (simp add: upload_target_def p_def)
  show out: "outside p" using assms(1) outside_elems [of clean clean] ne by (simp add: upload_target_def p_def)
  have last: "last temp = ''.prism-upload-'' @ sid" by (simp add: temp_def temp_path_def)
  have "temp_name (last temp)" unfolding temp_name_def last by (rule has_prefix_append)
  then show "temp \<noteq> p" using assms(1) by (auto simp: upload_target_def p_def)
  show len: "length temp = length p" using ne by (simp add: temp_def temp_path_def p_def)
  show "\<not> prefix temp p" "\<not> prefix p temp" using \<open>temp \<noteq> p\<close> len by (auto simp: prefix_def)
  show "outside temp"
  proof (cases "butlast p")
    case Nil
    then show ?thesis by (simp add: temp_def temp_path_def p_def outside_def recycle_bin_def)
  next
    case (Cons a as)
    then have "a = hd p" using ne by (cases p) (auto split: if_splits)
    then show ?thesis using Cons out by (simp add: temp_def temp_path_def p_def outside_def)
  qed
qed

lemma good_parent_sibling:
  assumes "good_parent d p"
  shows "good_parent d (temp_path p sid)"
proof -
  have "strict_prefix q p" if "strict_prefix q (temp_path p sid)" for q
  proof -
    have "prefix q (butlast p)" using that unfolding temp_path_def by (metis prefix_snoc strict_prefix_def)
    moreover have "strict_prefix (butlast p) p"
      using assms by (cases p rule: rev_cases) (simp_all add: good_parent_def strict_prefix_def)
    ultimately show ?thesis by (rule prefix_order.le_less_trans)
  qed
  then show ?thesis using assms by (auto simp: good_parent_shape temp_path_def)
qed

lemma spares_parents:
  assumes "upload_target clean" and "base @ cs = butlast (elems clean)"
  shows "keeps (spares src (temp_path (elems clean) sid) (elems clean)) (ensure_parent_from base cs)"
  using assms(2)
proof (induction cs arbitrary: base)
  case Nil
  show ?case by (simp add: spared.keep_ret)
next
  case (Cons c cs)
  let ?p = "elems clean"
  note paths = upload_target_paths [OF assms(1)]
  have pre: "prefix (base @ [c]) (butlast ?p)" using Cons.prems by (metis append.assoc append_Cons append_Nil prefixI)
  then have less: "length (base @ [c]) < length ?p"
    using prefix_length_le [OF pre] paths(1) by (cases "length ?p") auto
  have "strict_prefix (base @ [c]) ?p"
    using pre less by (metis append_butlast_last_id nat_neq_iff paths(1) prefix_order.trans prefixI strict_prefix_def)
  moreover have "base @ [c] \<noteq> temp_path ?p sid"
  proof
    assume "base @ [c] = temp_path ?p sid"
    then have "length (base @ [c]) = length ?p" using paths(7) by simp
    then show False using less by simp
  qed
  ultimately have mk: "keeps (spares src (temp_path ?p sid) ?p) (mkdir 0x1E8 (base @ [c]))" by (rule spares_mkdir) simp
  have "reads (attempt (lstat (base @ [c])))" by (rule quiet_reads [OF quiet_attempt [OF quiet_calls(1)]])
  then show ?case
    unfolding ensure_parent_from.simps
    by (rule spared.keep_andthen [OF spared.keep_reads])
      (use Cons.IH [of "base @ [c]"] Cons.prems mk in \<open>auto intro!: spared.keep_more split: sum.split\<close>)
qed

lemma spares_place:
  assumes "upload_target clean"
  shows "keeps (spares src (temp_path (elems clean) sid) (elems clean)) (upload_place clean)"
  unfolding upload_place_def ensure_upload_parent_def
  by (rule spared.keep_on_error)
    (auto intro!: spared.keep_andthen spared.keep_raise spares_parents [OF assms]
      spared.keep_reads [OF quiet_reads [OF quiet_secure_path]])

lemma upload_place_yields:
  assumes "yields (upload_place clean) d w p d' w'" and "upload_target clean"
  shows "p = elems clean \<and> good_parent d' p"
proof -
  have sec: "p = elems clean \<and> good_parent d2 p" if "yields (secure_path clean True) d1 w1 p d2 w2" for d1 w1 d2 w2
    using secure_path_yields [OF that] assms(2) upload_target_paths(1) [OF assms(2)]
    by (auto simp: upload_target_def reachable_def)
  show ?thesis
    using assms(1) unfolding upload_place_def
    by (elim on_error_yields) (auto simp: act_simps split: if_splits dest: sec)
qed

section \<open>Chunks\<close>

text \<open>
  Pre- and postconditions for every sequence of outcomes: \<open>R\<close> whenever there is no result, and also
  where a call reports an error after it has taken effect.
\<close>

definition always :: "('d \<Rightarrow> bool) \<Rightarrow> ('d, 'a) dact \<Rightarrow> ('a \<Rightarrow> 'd \<Rightarrow> bool) \<Rightarrow> ('d \<Rightarrow> bool) \<Rightarrow> bool" where
  "always P m Q R \<longleftrightarrow> (\<forall>d w r d' w'. P d \<longrightarrow> m d w = (r, d', w') \<longrightarrow> (case r of Inl e \<Rightarrow> R d' | Inr x \<Rightarrow> Q x d'))"

lemma alwaysD: "always P m Q R \<Longrightarrow> m d w = (r, d', w') \<Longrightarrow> P d \<Longrightarrow> case r of Inl e \<Rightarrow> R d' | Inr x \<Rightarrow> Q x d'"
  unfolding always_def by blast

lemma al_andthen:
  assumes "always P m Q R" and "\<And>x. always (Q x) (f x) Q' R"
  shows "always P (andthen m f) Q' R"
  unfolding always_def
proof (intro allI impI)
  fix d w r d' w'
  assume P: "P d" and run: "andthen m f d w = (r, d', w')"
  obtain s d1 w1 where m: "m d w = (s, d1, w1)" by (metis prod_cases3)
  show "case r of Inl e \<Rightarrow> R d' | Inr x \<Rightarrow> Q' x d'"
  proof (cases s)
    case (Inl e)
    then show ?thesis using run m alwaysD [OF assms(1) m P] by (auto simp: andthen_def)
  next
    case (Inr x)
    then have "f x d1 w1 = (r, d', w')" "Q x d1" using run m alwaysD [OF assms(1) m P] by (simp_all add: andthen_def)
    then show ?thesis using alwaysD [OF assms(2)] by blast
  qed
qed

lemma al_as_error:
  assumes "always P m Q R"
  shows "always P (as_error c m) Q R"
  unfolding always_def
proof (intro allI impI)
  fix d w r d' w'
  assume P: "P d" and run: "as_error c m d w = (r, d', w')"
  obtain s d1 w1 where m: "m d w = (s, d1, w1)" by (metis prod_cases3)
  then show "case r of Inl e \<Rightarrow> R d' | Inr x \<Rightarrow> Q x d'"
    using run alwaysD [OF assms m P] by (cases s) (auto simp: as_error_def on_error_def raise_def)
qed

lemma al_exec_if:
  assumes "\<And>d. P d \<Longrightarrow> R d" and "\<And>d. P d \<Longrightarrow> bad d = None \<Longrightarrow> Q () (u d) \<and> R (u d)"
  shows "always P (exec_if bad u) Q R"
  unfolding always_def exec_if_def stmt_def using assms by (auto split: list.splits outcome.splits option.splits)

lemma al_exec:
  assumes "\<And>d. P d \<Longrightarrow> R d" and "\<And>d. P d \<Longrightarrow> Q () (u d) \<and> R (u d)"
  shows "always P (exec u) Q R"
  unfolding always_def exec_def stmt_def using assms by (auto split: list.splits outcome.splits)

lemma al_quiet:
  assumes "quiet m" and "\<And>d. P d \<Longrightarrow> R d" and "\<And>d w x w'. P d \<Longrightarrow> yields m d w x d w' \<Longrightarrow> Q x d"
  shows "always P m Q R"
  unfolding always_def
proof (intro allI impI)
  fix d w r d' w'
  assume P: "P d" and run: "m d w = (r, d', w')"
  then have "d' = d" using quiet_same [OF assms(1)] by blast
  then show "case r of Inl e \<Rightarrow> R d' | Inr x \<Rightarrow> Q x d'" using assms(2,3) P run by (cases r) auto
qed

lemma al_guard: "(\<And>d. P d \<Longrightarrow> R d) \<Longrightarrow> (\<And>d. P d \<Longrightarrow> b \<Longrightarrow> Q () d) \<Longrightarrow> always P (guard b c) Q R"
  by (rule al_quiet [OF quiet_guard]) (auto simp: act_simps)

lemma al_ret: "(\<And>d. P d \<Longrightarrow> Q x d) \<Longrightarrow> always P (ret x) Q R"
  by (auto simp: always_def ret_def)

lemma al_pre: "always P m Q R \<Longrightarrow> (\<And>d. P' d \<Longrightarrow> P d) \<Longrightarrow> always P' m Q R"
  unfolding always_def by blast

lemma al_post:
  assumes "always P m Q R" and "\<And>x d. Q x d \<Longrightarrow> Q' x d"
  shows "always P m Q' R"
  unfolding always_def
proof (intro allI impI)
  fix d w r d' w'
  assume "P d" and "m d w = (r, d', w')"
  then show "case r of Inl e \<Rightarrow> R d' | Inr x \<Rightarrow> Q' x d'" using alwaysD [OF assms(1)] assms(2) by (cases r) fastforce+
qed

lemma al_weaken:
  assumes "always P m Q R" and "\<And>d. P' d \<Longrightarrow> P d" and "\<And>x d. Q x d \<Longrightarrow> Q' x d" and "\<And>d. R d \<Longrightarrow> R' d"
  shows "always P' m Q' R'"
  unfolding always_def
proof (intro allI impI)
  fix d w r d' w'
  assume "P' d" and "m d w = (r, d', w')"
  then show "case r of Inl e \<Rightarrow> R' d' | Inr x \<Rightarrow> Q' x d'" using alwaysD [OF assms(1)] assms(2-4) by (cases r) fastforce+
qed

lemma al_false: "(\<And>d. \<not> P d) \<Longrightarrow> always P m Q R"
  by (simp add: always_def)

text \<open>A temporary file with these contents.\<close>

definition holds_bytes :: "path \<Rightarrow> string \<Rightarrow> disk \<Rightarrow> bool" where
  "holds_bytes temp b d \<longleftrightarrow> good_parent d temp \<and> (\<exists>m. node_at d temp = Inr (Reg m b))"

lemma al_append:
  assumes "prefix b src" and "prefix (b @ x) src"
  shows "always (holds_bytes temp b) (append_bytes temp x) (\<lambda>_. holds_bytes temp (b @ x)) (temp_ok src temp)"
  unfolding append_bytes_def
proof (rule al_exec)
  fix d assume h: "holds_bytes temp b d"
  then show "temp_ok src temp d" using assms(1) by (auto simp: holds_bytes_def intro: temp_ok_reg)
  have "holds_bytes temp (b @ x) (case node_at d temp of Inr (Reg m c) \<Rightarrow> set_node temp (Some (Reg m (c @ x))) d | _ \<Rightarrow> d)"
    using h by (auto simp: holds_bytes_def node_at_set_self good_parent_set_other)
  then show "holds_bytes temp (b @ x) (case node_at d temp of Inr (Reg m c) \<Rightarrow> set_node temp (Some (Reg m (c @ x))) d | _ \<Rightarrow> d) \<and>
    temp_ok src temp (case node_at d temp of Inr (Reg m c) \<Rightarrow> set_node temp (Some (Reg m (c @ x))) d | _ \<Rightarrow> d)"
    using assms(2) by (auto simp: holds_bytes_def intro: temp_ok_reg)
qed

lemma put_chunk_keeps:
  assumes src: "prefix chunk (drop off src)" "off \<le> length src"
  shows "always (\<lambda>d. good_parent d temp \<and> temp_ok src temp d) (put_chunk temp chunk off part)
    (\<lambda>_. temp_ok src temp) (temp_ok src temp)"
proof -
  let ?I = "\<lambda>d. \<exists>b. prefix b src \<and> holds_bytes temp b d"
  have ok: "temp_ok src temp d" if "?I d" for d using that by (auto simp: holds_bytes_def intro: temp_ok_reg)
  have opened: "always (\<lambda>d. good_parent d temp \<and> temp_ok src temp d) (open_temp temp) (\<lambda>_. ?I) (temp_ok src temp)"
    unfolding open_temp_def sys_def
  proof (rule al_exec_if)
    fix d assume d: "good_parent d temp \<and> temp_ok src temp d"
    then show "temp_ok src temp d" by simp
    have "?I (case node_at d temp of Inr t \<Rightarrow> d | Inl e \<Rightarrow> set_node temp (Some (Reg 0x1A0 [])) d)"
    proof (rule temp_ok_cases [of src temp d])
      show "temp_ok src temp d" using d by simp
      show "?I (case node_at d temp of Inr t \<Rightarrow> d | Inl e \<Rightarrow> set_node temp (Some (Reg 0x1A0 [])) d)"
        if "node_at d temp = Inl e" for e
        using that d by (auto simp: holds_bytes_def node_at_set_self good_parent_set_other intro!: exI [of _ "[]"])
      show "?I (case node_at d temp of Inr t \<Rightarrow> d | Inl e \<Rightarrow> set_node temp (Some (Reg 0x1A0 [])) d)"
        if "node_at d temp = Inr (Reg m b)" "prefix b src" for m b
        using that d by (auto simp: holds_bytes_def)
    qed
    then show "?I (case node_at d temp of Inr t \<Rightarrow> d | Inl e \<Rightarrow> set_node temp (Some (Reg 0x1A0 [])) d) \<and>
      temp_ok src temp (case node_at d temp of Inr t \<Rightarrow> d | Inl e \<Rightarrow> set_node temp (Some (Reg 0x1A0 [])) d)"
      using ok by blast
  qed
  have look: "always ?I (as_error ''FILE_WRITE_FAILED'' (stat temp))
      (\<lambda>t d. \<exists>m b. t = Reg m b \<and> prefix b src \<and> holds_bytes temp b d) (temp_ok src temp)"
  proof (rule al_quiet [OF quiet_as(2) [OF quiet_calls(2)] ok])
    fix d w t w' assume I: "?I d" and run: "yields (as_error ''FILE_WRITE_FAILED'' (stat temp)) d w t d w'"
    obtain m b where b: "prefix b src" "holds_bytes temp b d" "node_at d temp = Inr (Reg m b)"
      using I by (auto simp: holds_bytes_def)
    then have "stat_of d temp = Inr (Reg m b)" by (simp add: stat_of_plain is_link_def)
    then have "t = Reg m b" using run stat_yields by (fastforce simp: act_simps)
    then show "\<exists>m b. t = Reg m b \<and> prefix b src \<and> holds_bytes temp b d" using b by blast
  qed
  have appended: "always (holds_bytes temp b) (as_error ''FILE_WRITE_FAILED''
      (andthen (append_bytes temp (take part chunk)) (\<lambda>_. append_bytes temp (drop part chunk))))
      (\<lambda>_. temp_ok src temp) (temp_ok src temp)" if b: "prefix b src" "length b = off" for b
  proof -
    have "b @ drop off src = src" using b by (auto simp: prefix_def)
    then have all: "prefix (b @ chunk) src" using src(1) by (metis same_prefix_prefix)
    then have one: "prefix (b @ take part chunk) src"
      by (metis append_take_drop_id append.assoc prefix_def prefix_order.trans)
    have two: "prefix ((b @ take part chunk) @ drop part chunk) src" using all by simp
    have "always (holds_bytes temp (b @ take part chunk)) (append_bytes temp (drop part chunk))
        (\<lambda>_. temp_ok src temp) (temp_ok src temp)"
      by (rule al_post [OF al_append [OF one two]]) (use two in \<open>auto simp: holds_bytes_def intro: temp_ok_reg\<close>)
    then show ?thesis by (intro al_as_error al_andthen [OF al_append [OF b(1) one]])
  qed
  have rest: "always (\<lambda>d. \<exists>m b. t = Reg m b \<and> prefix b src \<and> holds_bytes temp b d)
     (andthen (guard (int off \<le> node_size t) ''UPLOAD_OFFSET_MISMATCH'') (\<lambda>_.
     if int off < node_size t then
       andthen (as_error ''FILE_WRITE_FAILED'' (read_file temp)) (\<lambda>b.
       guard (existing_bytes b off (length chunk) = chunk) ''UPLOAD_OFFSET_MISMATCH'')
     else if chunk = [] then ret ()
     else as_error ''FILE_WRITE_FAILED''
       (andthen (append_bytes temp (take part chunk)) (\<lambda>_. append_bytes temp (drop part chunk)))))
     (\<lambda>_. temp_ok src temp) (temp_ok src temp)" (is "always _ (?rest t) _ _") for t
  proof (cases "\<exists>m b. t = Reg m b \<and> prefix b src")
    case True
    then obtain m b where t: "t = Reg m b" "prefix b src" by blast
    have ok_b: "temp_ok src temp d" if "holds_bytes temp b d" for d using that t(2) by (auto simp: holds_bytes_def intro: temp_ok_reg)
    have "always (holds_bytes temp b) (?rest t) (\<lambda>_. temp_ok src temp) (temp_ok src temp)"
    proof (rule al_andthen [OF al_guard [where Q = "\<lambda>_ d. off \<le> length b \<and> holds_bytes temp b d"]])
      show "off \<le> length b \<and> holds_bytes temp b d" if "holds_bytes temp b d" "int off \<le> node_size t" for d
        using that by (simp add: t node_size_def)
      show "always (\<lambda>d. off \<le> length b \<and> holds_bytes temp b d)
        (if int off < node_size t then
           andthen (as_error ''FILE_WRITE_FAILED'' (read_file temp)) (\<lambda>b.
           guard (existing_bytes b off (length chunk) = chunk) ''UPLOAD_OFFSET_MISMATCH'')
         else if chunk = [] then ret ()
         else as_error ''FILE_WRITE_FAILED''
           (andthen (append_bytes temp (take part chunk)) (\<lambda>_. append_bytes temp (drop part chunk))))
        (\<lambda>_. temp_ok src temp) (temp_ok src temp)" for x
      proof (cases "off < length b")
        case True
        have "quiet (andthen (as_error ''FILE_WRITE_FAILED'' (read_file temp)) (\<lambda>b.
           guard (existing_bytes b off (length chunk) = chunk) ''UPLOAD_OFFSET_MISMATCH''))" by (intro quiet_intros)
        then show ?thesis using True by (auto simp: t node_size_def intro!: al_quiet ok_b)
      next
        case False
        show ?thesis
        proof (cases "length b = off")
          case True
          then show ?thesis using al_pre [OF appended [OF t(2) True]] by (auto simp: t node_size_def intro!: al_ret ok_b)
        qed (use False in \<open>auto intro: al_false\<close>)
      qed
    qed (rule ok_b)
    then show ?thesis by (rule al_pre) (auto simp: t)
  qed (auto intro: al_false)
  show ?thesis
    unfolding put_chunk_def by (rule al_andthen [OF al_as_error [OF opened] al_andthen [OF look rest]])
qed

section \<open>Publishing\<close>

lemma temp_ok_agree: "temp_ok src temp d \<Longrightarrow> alike S d d' \<Longrightarrow> beyond S temp \<Longrightarrow> temp_ok src temp d'"
  by (simp add: temp_ok_def alike_def)

lemma holds_bytes_agree:
  assumes "holds_bytes temp b d" and "alike S d d'" and "beyond S temp"
  shows "\<exists>m. node_at d' temp = Inr (Reg m b)"
proof -
  obtain m where "shape_at d temp = Inr (Reg m b)" using assms(1) by (auto simp: holds_bytes_def shape_at_reg)
  then have "shape_at d' temp = Inr (Reg m b)" using assms(2,3) by (simp add: alike_def)
  then show ?thesis by (auto simp: shape_at_reg)
qed

lemma link_yields:
  assumes "yields (link temp p) d w x d' w'"
  shows "\<exists>t. node_at d temp = Inr t \<and> \<not> is_folder t \<and> d' = set_node p (Some t) d"
  using exec_if_yields [OF assms [unfolded link_def sys_def]] by (auto split: sum.splits if_splits)

lemma remove_yields: "yields (remove p) d w x d' w' \<Longrightarrow> d' = set_node p None d"
  unfolding remove_def sys_def by (drule exec_if_yields) simp

lemma publish_new_touches: "touches (\<lambda>_. True) {p, temp} (publish_new temp p)"
  unfolding publish_new_def by (intro touches_then touches_calls) auto

lemma publish_new_temp:
  assumes "\<not> prefix p temp" and "temp \<noteq> []"
  shows "always (temp_ok src temp) (publish_new temp p) (\<lambda>_. temp_ok src temp) (temp_ok src temp)"
  unfolding publish_new_def
proof (rule al_andthen)
  show "always (temp_ok src temp) (link temp p) (\<lambda>_. temp_ok src temp) (temp_ok src temp)"
    unfolding link_def sys_def
    by (rule al_exec_if)
      (use assms(1) in \<open>auto simp: temp_ok_def shape_at_set_other split: sum.splits\<close>)
  show "always (temp_ok src temp) (remove temp) (\<lambda>_. temp_ok src temp) (temp_ok src temp)"
    unfolding remove_def sys_def
    by (rule al_exec_if) (use temp_ok_change [of temp temp None] assms(2) in auto)
qed

text \<open>Publishing keeps the temporary file in order, and when it succeeds the target has its contents.\<close>

lemma publish_file:
  fixes sid :: string
  assumes up: "upload_target clean" and json: "\<And>m. \<exists>m'. jdec (jenc m) = Some m' \<and> rm_path m' = rm_path m"
  defines "p \<equiv> elems clean" and "temp \<equiv> temp_path (elems clean) sid"
  assumes run: "publish_with_recycle jenc jdec now rid clean (publish_new temp p) d w = (r, d', w')"
    and d: "temp_ok src temp d" "good_parent d p"
  shows "temp_ok src temp d'" and "r = Inr () \<Longrightarrow> holds_bytes temp src d \<Longrightarrow> published src p d'"
proof -
  note paths = upload_target_paths [OF up, folded p_def] and tpaths = upload_target_paths(3-7) [OF up, of sid, folded p_def temp_def]
  have n: "normalize_relative clean = Inr clean" using up by (simp add: upload_target_def)
  have top: "\<not> strict_prefix s p" if "s \<in> {bin_path, p}" for s
    using that outside_apart [OF paths(2), of "[]"] by (auto simp: bin_path_def)
  have T: "outside s \<and> \<not> strict_prefix s p" if "s \<in> {p, temp}" for s
    using that paths(2) tpaths by (auto simp: strict_prefix_def)
  have far: "beyond {bin_path, p} temp"
    using outside_apart(2) [OF tpaths(2), of "[]"] tpaths(4) by (simp add: beyond_def bin_path_def)
  have S: "bin_path \<in> {bin_path, elems clean}" "elems clean \<in> {bin_path, elems clean}" by simp_all
  obtain d1 d2 where s1: "alike {bin_path, p} d d1" and
    s2: "d2 = d1 \<and> (\<exists>e. r = Inl e) \<or> (\<exists>w1 s w2. publish_new temp p d1 w1 = (s, d2, w2) \<and> (r = Inr () \<longrightarrow> s = Inr ()))" and
    s3: "alike {bin_path, p} d2 d'" "r = Inr () \<longrightarrow> d' = d2"
    by (rule publish_steps [where jenc = jenc and jdec = jdec, OF n json publish_new_touches T [unfolded p_def] S
          top [unfolded p_def] run [unfolded p_def], folded p_def])
  have ok1: "temp_ok src temp d1" using temp_ok_agree [OF d(1) s1 far] .
  have ne: "temp \<noteq> []" by (simp add: temp_def temp_path_def)
  have "temp_ok src temp d2"
    using s2
  proof (elim disjE conjE exE)
    fix w1 s w2 assume "publish_new temp p d1 w1 = (s, d2, w2)"
    then show ?thesis using alwaysD [OF publish_new_temp [OF tpaths(4) ne] _ ok1] by (cases s) fastforce+
  qed (use ok1 in simp)
  then show "temp_ok src temp d'" using s3(1) far by (rule temp_ok_agree)
  show "published src p d'" if ok: "r = Inr ()" and bytes: "holds_bytes temp src d"
  proof -
    obtain w1 w2 where "yields (publish_new temp p) d1 w1 () d2 w2" using s2 ok by auto
    then obtain d3 w3 where l: "yields (link temp p) d1 w1 () d3 w3" and rem: "yields (remove temp) d3 w3 () d2 w2"
      by (auto simp: publish_new_def act_simps)
    obtain m where "node_at d1 temp = Inr (Reg m src)" using holds_bytes_agree [OF bytes s1 far] by blast
    then have d3: "d3 = set_node p (Some (Reg m src)) d1" using link_yields [OF l] by auto
    have gp: "good_parent d1 p"
      using stays_good_parent [OF top] s1 d(2) unfolding stays_def by blast
    have "published src p d3"
      using gp by (auto simp: d3 published_def node_at_set_self good_parent_set_other)
    then have "published src p d2" unfolding remove_yields [OF rem] using tpaths(3) by (rule published_other)
    then show ?thesis using s3(2) ok by simp
  qed
qed

lemma quiet_version: "quiet (file_version H p)"
  unfolding file_version_def by (intro quiet_intros)

lemma quiet_check: "(\<And>m. quiet m \<Longrightarrow> quiet (wrap m)) \<Longrightarrow> quiet (check_target H wrap overwrite expected p)"
  unfolding check_target_def
  by (intro quiet_intros) (auto intro!: quiet_intros quiet_version split: sum.split)

lemma finish_file:
  fixes sid :: string
  assumes up: "upload_target clean" and json: "\<And>m. \<exists>m'. jdec (jenc m) = Some m' \<and> rm_path m' = rm_path m"
  defines "p \<equiv> elems clean" and "temp \<equiv> temp_path (elems clean) sid"
  assumes run: "finish_upload H jenc jdec now rid clean temp p (int (length src)) sha overwrite expected d w = (r, d', w')"
    and d: "temp_ok src temp d" "good_parent d p"
  shows "temp_ok src temp d' \<and> (\<forall>e. r = Inr e \<longrightarrow> published src p d' \<and> fe_path e = clean \<and> fe_size e = int (length src))"
proof -
  let ?Q = "\<lambda>e d'. temp_ok src temp d' \<and> published src p d' \<and> fe_path e = clean \<and> fe_size e = int (length src)"
  have gp: "good_parent d temp" if "good_parent d p" for d using that by (simp add: temp_def p_def good_parent_sibling)
  have pub: "always (\<lambda>d. good_parent d p \<and> temp_ok src temp d \<and> holds_bytes temp src d)
      (publish_upload jenc jdec now rid clean temp p) ?Q (temp_ok src temp)"
    unfolding publish_upload_def
  proof (rule al_andthen [where Q = "\<lambda>_ d. temp_ok src temp d \<and> published src p d"])
    show "always (\<lambda>d. good_parent d p \<and> temp_ok src temp d \<and> holds_bytes temp src d)
       (on_error (\<lambda>c. raise (if c = ''EEXIST'' then ''FILE_EXISTS'' else ''FILE_WRITE_FAILED''))
         (publish_with_recycle jenc jdec now rid clean (publish_new temp p)))
       (\<lambda>_ d. temp_ok src temp d \<and> published src p d) (temp_ok src temp)"
      unfolding always_def
    proof (intro allI impI)
      fix d w r d' w'
      assume P: "good_parent d p \<and> temp_ok src temp d \<and> holds_bytes temp src d"
        and run: "on_error (\<lambda>c. raise (if c = ''EEXIST'' then ''FILE_EXISTS'' else ''FILE_WRITE_FAILED''))
         (publish_with_recycle jenc jdec now rid clean (publish_new temp p)) d w = (r, d', w')"
      obtain s d1 w1 where m: "publish_with_recycle jenc jdec now rid clean (publish_new temp p) d w = (s, d1, w1)"
        by (metis prod_cases3)
      note result = publish_file [OF up json m [unfolded temp_def p_def], folded temp_def p_def]
      show "case r of Inl e \<Rightarrow> temp_ok src temp d' | Inr x \<Rightarrow> temp_ok src temp d' \<and> published src p d'"
        using run m result P by (cases s) (auto simp: on_error_def raise_def)
    qed
    show "always (\<lambda>d. temp_ok src temp d \<and> published src p d) (andthen (as_file (stat p)) (\<lambda>t.
       ret \<lparr>fe_name = path_base clean, fe_path = clean, fe_type = ''file'', fe_size = node_size t, fe_mode = node_mode t\<rparr>))
       ?Q (temp_ok src temp)"
    proof (rule al_quiet)
      fix d w e w'
      assume P: "temp_ok src temp d \<and> published src p d"
        and run: "yields (andthen (as_file (stat p)) (\<lambda>t.
         ret \<lparr>fe_name = path_base clean, fe_path = clean, fe_type = ''file'', fe_size = node_size t, fe_mode = node_mode t\<rparr>)) d w e d w'"
      obtain m where "node_at d p = Inr (Reg m src)" using P by (auto simp: published_def)
      then have "stat_of d p = Inr (Reg m src)" by (simp add: stat_of_plain is_link_def)
      then show "?Q e d" using P run by (auto simp: act_simps node_size_def dest!: stat_yields)
    qed (auto intro!: quiet_intros)
  qed
  have "always (\<lambda>d. good_parent d p \<and> temp_ok src temp d)
      (finish_upload H jenc jdec now rid clean temp p (int (length src)) sha overwrite expected) ?Q (temp_ok src temp)"
    unfolding finish_upload_def
  proof (rule al_andthen [OF al_quiet [where Q = "\<lambda>t d. good_parent d p \<and> temp_ok src temp d \<and> stat_of d temp = Inr t"]])
    fix t
    let ?P = "\<lambda>d. good_parent d p \<and> temp_ok src temp d \<and> holds_bytes temp src d"
    have "always ?P (andthen (as_error ''FILE_WRITE_FAILED'' (file_version H temp)) (\<lambda>digest.
       andthen (guard (sha = [] \<or> to_lower sha = to_lower digest) ''FILE_HASH_MISMATCH'') (\<lambda>_.
       andthen (check_target H (as_error ''FILE_WRITE_FAILED'') overwrite expected p) (\<lambda>_.
       publish_upload jenc jdec now rid clean temp p)))) ?Q (temp_ok src temp)"
      by (rule al_andthen [OF al_quiet [where Q = "\<lambda>_. ?P"] al_andthen [OF al_guard [where Q = "\<lambda>_. ?P"]
            al_andthen [OF al_quiet [where Q = "\<lambda>_. ?P"] pub]]])
        (auto intro!: quiet_intros quiet_version quiet_check)
    then show "always (\<lambda>d. good_parent d p \<and> temp_ok src temp d \<and> stat_of d temp = Inr t)
       (andthen (guard (node_size t = int (length src)) ''FILE_SIZE_MISMATCH'') (\<lambda>_.
       andthen (as_error ''FILE_WRITE_FAILED'' (file_version H temp)) (\<lambda>digest.
       andthen (guard (sha = [] \<or> to_lower sha = to_lower digest) ''FILE_HASH_MISMATCH'') (\<lambda>_.
       andthen (check_target H (as_error ''FILE_WRITE_FAILED'') overwrite expected p) (\<lambda>_.
       publish_upload jenc jdec now rid clean temp p))))) ?Q (temp_ok src temp)"
    proof (rule al_andthen [OF al_guard, rotated 2])
      fix d assume P: "good_parent d p \<and> temp_ok src temp d \<and> stat_of d temp = Inr t" and len: "node_size t = int (length src)"
      obtain m b where b: "node_at d temp = Inr (Reg m b)" "prefix b src"
        using P by (auto simp: stat_of_def elim!: temp_ok_cases)
      then have "t = Reg m b" using P by (auto simp: stat_of_def)
      then have "length b = length src" using len by (simp add: node_size_def)
      then have "b = src" using b(2) by (auto simp: prefix_def)
      then show "?P d" using P b gp by (auto simp: holds_bytes_def)
    qed auto
  qed (auto intro!: quiet_intros simp: act_simps dest!: stat_yields)
  from alwaysD [OF this run] d show ?thesis by (cases r) auto
qed

section \<open>The table of sessions\<close>

lemma al_on_disk:
  assumes "\<And>u. always (\<lambda>d. P (d, u)) m (\<lambda>x d. Q x (d, u)) (\<lambda>d. R (d, u))"
  shows "always P (on_disk m) Q R"
  unfolding always_def
proof (intro allI impI)
  fix du :: "disk \<times> uploads" and w r du' w'
  assume P: "P du" and run: "on_disk m du w = (r, du', w')"
  obtain d u where du: "du = (d, u)" by (cases du)
  obtain s d1 w1 where m: "m d w = (s, d1, w1)" by (metis prod_cases3)
  then show "case r of Inl e \<Rightarrow> R du' | Inr x \<Rightarrow> Q x du'"
    using run alwaysD [OF assms m, of u] P by (auto simp: on_disk_def du)
qed

lemma al_get: "(\<And>d u. P (d, u) \<Longrightarrow> Q u (d, u)) \<Longrightarrow> always P get_uploads Q R"
  by (auto simp: always_def get_uploads_def)

lemma al_set: "(\<And>d u. P (d, u) \<Longrightarrow> Q () (d, f u)) \<Longrightarrow> always P (set_uploads f) Q R"
  by (auto simp: always_def set_uploads_def)

lemma al_pure: "(b \<Longrightarrow> always P m Q R) \<Longrightarrow> always (\<lambda>d. b \<and> P d) m Q R"
  unfolding always_def by blast

text \<open>Sessions name temporary files only.\<close>

definition temp_paths :: "uploads \<Rightarrow> bool" where
  "temp_paths u \<longleftrightarrow> (\<forall>(k, s) \<in> set u. \<exists>dir c. snd (us_path s) = dir @ [''.prism-upload-'' @ c])"

definition upload_inv :: "string \<Rightarrow> string \<Rightarrow> string \<Rightarrow> string \<Rightarrow> disk \<times> uploads \<Rightarrow> bool" where
  "upload_inv root src clean sid = (\<lambda>(d, u). temp_ok src (temp_path (elems clean) sid) d \<and> temp_paths u \<and>
     (\<forall>s. (sid, s) \<in> set u \<and> us_path s = (root, temp_path (elems clean) sid) \<and> us_published s \<longrightarrow>
        published src (elems clean) d))"

lemma temp_paths_subset: "temp_paths u \<Longrightarrow> set v \<subseteq> set u \<Longrightarrow> temp_paths v"
  by (auto simp: temp_paths_def)

lemma al_spares:
  assumes "keeps (spares src (temp_path (elems clean) sid) (elems clean)) m"
  shows "always (\<lambda>d. upload_inv root src clean sid (d, u)) m (\<lambda>_ d. upload_inv root src clean sid (d, u))
    (\<lambda>d. upload_inv root src clean sid (d, u))"
  unfolding always_def
proof (intro allI impI)
  fix d w r d' w'
  assume inv: "upload_inv root src clean sid (d, u)" and "m d w = (r, d', w')"
  then have "spares src (temp_path (elems clean) sid) (elems clean) d d'" using spared.kept [OF assms] by blast
  then have "upload_inv root src clean sid (d', u)" using inv by (auto simp: upload_inv_def spares_def)
  then show "case r of Inl e \<Rightarrow> upload_inv root src clean sid (d', u) | Inr x \<Rightarrow> upload_inv root src clean sid (d', u)"
    by (cases r) simp_all
qed

lemma spares_drop:
  assumes "upload_target clean" and "\<exists>dir c. snd (us_path s) = dir @ [''.prism-upload-'' @ c]"
  shows "keeps (spares src temp (elems clean)) (drop_temp root s)"
proof -
  obtain dir c where x: "snd (us_path s) = dir @ [''.prism-upload-'' @ c]" using assms(2) by blast
  have "snd (us_path s) \<noteq> elems clean"
  proof
    assume "snd (us_path s) = elems clean"
    then have "last (elems clean) = ''.prism-upload-'' @ c" using x by (metis last_snoc)
    then have "temp_name (last (elems clean))" unfolding temp_name_def by (metis has_prefix_append)
    then show False using assms(1) by (simp add: upload_target_def)
  qed
  then have rem: "keeps (spares src temp (elems clean)) (remove (snd (us_path s)))"
    by (rule spares_remove) (simp add: x)
  have "keeps (spares src temp (elems clean)) (attempt (remove (snd (us_path s))))"
    using rem unfolding keeps_def attempt_def by (simp add: case_prod_beta)
  then show ?thesis by (auto simp: drop_temp_def intro: spared.keep_more)
qed

lemma spares_root:
  assumes "temp \<noteq> []"
  shows "keeps (spares src temp p) ensure_root"
  unfolding keeps_def
proof (intro allI)
  fix d w
  obtain s w1 where s: "lstat [] d w = (s, d, w1)" "s = node_at d [] \<or> s = sql_error"
    using lstat_run [of "[]" d w] by (metis prod_cases3)
  obtain c cs where temp: "temp = c # cs" using assms by (cases temp) auto
  show "spares src temp p d (fst (snd (ensure_root d w)))"
  proof (cases d)
    case None
    have empty: "temp_ok src temp (Some (Folder 0x1E8 []))" by (rule temp_ok_missing) (simp add: temp node_at_def)
    have "fst (snd (ensure_root d w)) \<in> {d, Some (Folder 0x1E8 [])}"
      using s None
      by (auto simp: ensure_root_def andthen_def attempt_def as_error_def on_error_def exec_def stmt_def raise_def
          node_at_def split: list.splits outcome.splits)
    then show ?thesis using None empty by (auto simp: spares_def published_def good_parent_def)
  next
    case (Some t)
    then have "node_at d [] = Inr t" by (simp add: node_at_def)
    then have "fst (snd (ensure_root d w)) = d"
      using s by (auto simp: ensure_root_def andthen_def attempt_def guard_def ret_def raise_def)
    then show ?thesis by (simp add: spares_def)
  qed
qed

lemma al_cleanup:
  assumes "upload_target clean"
  shows "always (upload_inv root src clean sid) (cleanup_sessions root now) (\<lambda>_. upload_inv root src clean sid)
    (upload_inv root src clean sid)" (is "always ?I _ _ _")
  unfolding cleanup_sessions_def
proof (rule al_andthen [OF al_get [where Q = "\<lambda>u du. temp_paths u \<and> ?I du \<and> snd du = u"]])
  show "temp_paths u \<and> ?I (d, u) \<and> snd (d, u) = u" if "?I (d, u)" for d u
    using that by (simp add: upload_inv_def)
  fix u
  have "always ?I (on_disk (each (\<lambda>x. drop_temp root (snd x)) (filter (\<lambda>x. session_expired now (snd x)) u))) (\<lambda>_. ?I) ?I"
    if u: "temp_paths u"
  proof (rule al_on_disk, rule al_spares, rule spared.keep_each_in)
    show "keeps (spares src (temp_path (elems clean) sid) (elems clean)) (drop_temp root (snd x))"
      if "x \<in> set (filter (\<lambda>x. session_expired now (snd x)) u)" for x
      using that u spares_drop [OF assms] by (auto simp: temp_paths_def)
  qed
  moreover have "always (\<lambda>du. ?I du \<and> snd du = u) (set_uploads (filter (\<lambda>x. \<not> session_expired now (snd x)))) (\<lambda>_. ?I) ?I"
    by (rule al_set) (auto simp: upload_inv_def intro: temp_paths_subset)
  ultimately show "always (\<lambda>du. temp_paths u \<and> ?I du \<and> snd du = u)
     (andthen (set_uploads (filter (\<lambda>x. \<not> session_expired now (snd x)))) (\<lambda>_.
      on_disk (each (\<lambda>x. drop_temp root (snd x)) (filter (\<lambda>x. session_expired now (snd x)) u)))) (\<lambda>_. ?I) ?I"
    by (intro al_pure al_andthen)
qed

section \<open>One request\<close>

definition honest :: "string \<Rightarrow> string \<Rightarrow> string \<Rightarrow> upload_request \<Rightarrow> bool" where
  "honest src clean sid q \<longleftrightarrow> normalize_relative (uq_path q) = Inr clean \<and> trim_space (uq_session q) = sid \<and>
     uq_size q = int (length src) \<and>
     (case uq_bytes q of None \<Rightarrow> True | Some b \<Rightarrow> prefix b (drop (nat (uq_offset q)) src))"

lemma safe_session: "valid_session_id sid \<Longrightarrow> trim_space sid = sid \<Longrightarrow> safe_session_id sid = sid"
  by (auto simp: safe_session_id_def valid_session_id_def Let_def list_all_iff intro!: map_idI)

lemma put_chunk_touches: "touches (\<lambda>_. True) {temp} (put_chunk temp chunk off part)"
  unfolding put_chunk_def
  by (intro touches_then touches_as) (auto intro!: touches_then touches_as touches_calls touches_looks)

lemma put_chunk_good:
  fixes sid :: string
  assumes up: "upload_target clean" and src: "prefix chunk (drop off src)" "off \<le> length src"
  defines "p \<equiv> elems clean" and "temp \<equiv> temp_path (elems clean) sid"
  shows "always (\<lambda>d. good_parent d p \<and> temp_ok src temp d) (put_chunk temp chunk off part)
    (\<lambda>_ d. good_parent d p \<and> temp_ok src temp d) (temp_ok src temp)"
  unfolding always_def
proof (intro allI impI)
  fix d w r d' w'
  assume P: "good_parent d p \<and> temp_ok src temp d" and run: "put_chunk temp chunk off part d w = (r, d', w')"
  have "\<not> strict_prefix s p" if "s \<in> {temp}" for s
    using that upload_target_paths(5) [OF up, of sid] by (auto simp: p_def temp_def)
  then have "good_parent d' p"
    using touchesD [OF put_chunk_touches run] stays_good_parent [of "{temp}" p] P by (auto simp: stays_def)
  moreover have "good_parent d temp" using P by (simp add: temp_def p_def good_parent_sibling)
  ultimately show "case r of Inl e \<Rightarrow> temp_ok src temp d' | Inr x \<Rightarrow> good_parent d' p \<and> temp_ok src temp d'"
    using alwaysD [OF put_chunk_keeps [OF src, of temp part] run] P by (cases r) auto
qed

text \<open>No session with this identifier is finished.\<close>

definition waiting :: "string \<Rightarrow> uploads \<Rightarrow> bool" where
  "waiting sid u \<longleftrightarrow> temp_paths u \<and> (\<forall>s. (sid, s) \<in> set u \<longrightarrow> \<not> us_published s)"

lemma waiting_inv: "waiting sid u \<Longrightarrow> upload_inv root src clean sid (d, u) = temp_ok src (temp_path (elems clean) sid) d"
  by (auto simp: waiting_def upload_inv_def)

definition receiving :: "string \<Rightarrow> string \<Rightarrow> string \<Rightarrow> disk \<times> uploads \<Rightarrow> bool" where
  "receiving src clean sid x \<longleftrightarrow> waiting sid (snd x) \<and> good_parent (fst x) (elems clean) \<and>
     temp_ok src (temp_path (elems clean) sid) (fst x)"

definition received :: "string \<Rightarrow> string \<Rightarrow> string \<Rightarrow> disk \<times> uploads \<Rightarrow> bool" where
  "received src clean sid x \<longleftrightarrow> temp_paths (snd x) \<and> temp_ok src (temp_path (elems clean) sid) (fst x) \<and>
     published src (elems clean) (fst x)"

lemma al_put:
  assumes "upload_target clean" and "prefix chunk (drop off src)" "off \<le> length src"
  shows "always (receiving src clean sid) (on_disk (put_chunk (temp_path (elems clean) sid) chunk off part))
    (\<lambda>_. receiving src clean sid) (upload_inv root src clean sid)"
proof (rule al_on_disk)
  fix u
  have "always (\<lambda>d. waiting sid u \<and> (good_parent d (elems clean) \<and> temp_ok src (temp_path (elems clean) sid) d))
     (put_chunk (temp_path (elems clean) sid) chunk off part)
     (\<lambda>_ d. receiving src clean sid (d, u)) (\<lambda>d. upload_inv root src clean sid (d, u))"
    by (rule al_pure, rule al_weaken [OF put_chunk_good [OF assms, of sid part]])
      (auto simp: receiving_def waiting_inv)
  then show "always (\<lambda>d. receiving src clean sid (d, u)) (put_chunk (temp_path (elems clean) sid) chunk off part)
     (\<lambda>_ d. receiving src clean sid (d, u)) (\<lambda>d. upload_inv root src clean sid (d, u))"
    by (simp add: receiving_def)
qed

lemma al_finish:
  assumes up: "upload_target clean" and json: "\<And>m. \<exists>m'. jdec (jenc m) = Some m' \<and> rm_path m' = rm_path m"
  shows "always (receiving src clean sid)
    (on_disk (finish_upload H jenc jdec now rid clean (temp_path (elems clean) sid) (elems clean) (int (length src)) sha
      overwrite expected)) (\<lambda>_. received src clean sid) (upload_inv root src clean sid)"
proof (rule al_on_disk)
  fix u
  let ?m = "finish_upload H jenc jdec now rid clean (temp_path (elems clean) sid) (elems clean) (int (length src)) sha
    overwrite expected"
  have "always (\<lambda>d. waiting sid u \<and> (good_parent d (elems clean) \<and> temp_ok src (temp_path (elems clean) sid) d)) ?m
     (\<lambda>_ d. received src clean sid (d, u)) (\<lambda>d. upload_inv root src clean sid (d, u))"
  proof (rule al_pure)
    assume u: "waiting sid u"
    show "always (\<lambda>d. good_parent d (elems clean) \<and> temp_ok src (temp_path (elems clean) sid) d) ?m
     (\<lambda>_ d. received src clean sid (d, u)) (\<lambda>d. upload_inv root src clean sid (d, u))"
      unfolding always_def
    proof (intro allI impI)
      fix d w r d' w'
      assume P: "good_parent d (elems clean) \<and> temp_ok src (temp_path (elems clean) sid) d" and run: "?m d w = (r, d', w')"
      have "temp_ok src (temp_path (elems clean) sid) d' \<and> (\<forall>e. r = Inr e \<longrightarrow> published src (elems clean) d')"
        using finish_file [where jenc = jenc and jdec = jdec, OF up json run] P by simp
      then show "case r of Inl e \<Rightarrow> upload_inv root src clean sid (d', u) | Inr e \<Rightarrow> received src clean sid (d', u)"
        using u by (cases r) (auto simp: waiting_inv received_def waiting_def)
    qed
  qed
  then show "always (\<lambda>d. receiving src clean sid (d, u)) ?m (\<lambda>_ d. received src clean sid (d, u))
     (\<lambda>d. upload_inv root src clean sid (d, u))"
    by (simp add: receiving_def)
qed

text \<open>The part of a step after the session has been looked up and is not finished.\<close>

lemma al_receive:
  assumes up: "upload_target clean" and json: "\<And>m. \<exists>m'. jdec (jenc m) = Some m' \<and> rm_path m' = rm_path m"
    and src: "prefix chunk (drop (nat (uq_offset q)) src)" "nat (uq_offset q) \<le> length src"
    and size: "uq_size q = int (length src)" and s: "\<And>e. \<exists>dir c. snd (us_path (s e)) = dir @ [''.prism-upload-'' @ c]"
  shows "always (receiving src clean sid)
    (andthen (on_disk (put_chunk (temp_path (elems clean) sid) chunk (nat (uq_offset q)) part)) (\<lambda>_.
     if \<not> uq_last q then ret no_entry
     else
       andthen (on_disk (finish_upload H jenc jdec now rid clean (temp_path (elems clean) sid) (elems clean) (uq_size q)
         (uq_sha q) (uq_overwrite q) (uq_expected q))) (\<lambda>e. andthen (set_uploads (aput sid (s e))) (\<lambda>_. ret e))))
    (\<lambda>e x. upload_inv root src clean sid x \<and> (uq_last q \<longrightarrow> published src (elems clean) (fst x)))
    (upload_inv root src clean sid)"
proof (rule al_andthen [OF al_put [OF up src]])
  let ?I = "upload_inv root src clean sid"
  let ?Q = "\<lambda>e x. ?I x \<and> (uq_last q \<longrightarrow> published src (elems clean) (fst x))"
  have store: "always (received src clean sid) (andthen (set_uploads (aput sid (s e))) (\<lambda>_. ret e)) ?Q ?I" for e
  proof (rule al_andthen [OF al_set al_ret])
    show "?I (d, aput sid (s e) u) \<and> published src (elems clean) (fst (d, aput sid (s e) u))"
      if "received src clean sid (d, u)" for d u
      using that s by (auto simp: received_def upload_inv_def temp_paths_def set_aput)
  qed simp
  show "always (receiving src clean sid) (if \<not> uq_last q then ret no_entry
     else
       andthen (on_disk (finish_upload H jenc jdec now rid clean (temp_path (elems clean) sid) (elems clean) (uq_size q)
         (uq_sha q) (uq_overwrite q) (uq_expected q))) (\<lambda>e. andthen (set_uploads (aput sid (s e))) (\<lambda>_. ret e))) ?Q ?I" for x
  proof (cases "uq_last q")
    case True
    then show ?thesis using al_andthen [OF al_finish [where jenc = jenc and jdec = jdec, OF up json] store] by (simp add: size)
  next
    case False
    then show ?thesis by (auto intro!: al_ret simp: receiving_def waiting_inv)
  qed
qed

lemma temp_paths_put:
  "temp_paths u \<Longrightarrow> snd (us_path s) = temp_path p sid \<Longrightarrow> temp_paths (aput k s u)"
  by (auto simp: temp_paths_def set_aput temp_path_def)

lemma al_session:
  assumes up: "upload_target clean" and json: "\<And>m. \<exists>m'. jdec (jenc m) = Some m' \<and> rm_path m' = rm_path m"
    and sid: "valid_session_id sid" "trim_space sid = sid"
    and src: "prefix chunk (drop (nat (uq_offset q)) src)" "nat (uq_offset q) \<le> length src"
    and size: "uq_size q = int (length src)" and path: "normalize_relative (uq_path q) = Inr clean"
  shows "always (upload_inv root src clean sid) (session_step H jenc jdec root now rid q sid chunk part)
    (\<lambda>e x. upload_inv root src clean sid x \<and> (uq_last q \<longrightarrow> published src (elems clean) (fst x)))
    (upload_inv root src clean sid)" (is "always ?I _ ?Q _")
  unfolding session_step_def
proof (rule al_andthen [where Q = "\<lambda>c x. c = clean \<and> ?I x"])
  let ?p = "elems clean" and ?temp = "temp_path (elems clean) sid"
  show "always ?I (on_disk (entry_path (uq_path q))) (\<lambda>c x. c = clean \<and> ?I x) ?I"
    by (rule al_on_disk, rule al_quiet [OF quiet_entry_path])
      (use path in \<open>auto simp: entry_path_def act_simps split: if_splits\<close>)
  have found: "always (\<lambda>x. snd x = u \<and> good_parent (fst x) ?p \<and> ?I x)
    (andthen (guard (us_path s = (root, ?temp)) ''PERMISSION_DENIED'') (\<lambda>_.
     andthen (set_uploads (aput sid (s\<lparr>us_last := now\<rparr>))) (\<lambda>_.
     if us_published s then
       andthen (guard (uq_last q \<and> uq_offset q = us_final s) ''UPLOAD_OFFSET_MISMATCH'') (\<lambda>_. ret (us_entry s))
     else
       andthen (on_disk (put_chunk ?temp chunk (nat (uq_offset q)) part)) (\<lambda>_.
       if \<not> uq_last q then ret no_entry
       else
         andthen (on_disk (finish_upload H jenc jdec now rid clean ?temp ?p (uq_size q) (uq_sha q)
           (uq_overwrite q) (uq_expected q))) (\<lambda>e.
         andthen (set_uploads (aput sid (s\<lparr>us_last := now, us_published := True, us_entry := e,
           us_final := uq_offset q\<rparr>))) (\<lambda>_.
         ret e)))))) ?Q ?I"
    if s: "s = (case aget u sid of None \<Rightarrow> fresh_session (root, ?temp) | Some s \<Rightarrow> s)" for s u
  proof (rule al_andthen [OF al_guard [where Q = "\<lambda>_ x. us_path s = (root, ?temp) \<and> snd x = u \<and> good_parent (fst x) ?p \<and> ?I x"]])
    show "?I x" if "snd x = u \<and> good_parent (fst x) ?p \<and> ?I x" for x using that by simp
    let ?set = "\<lambda>x. if us_published s then ?I x \<and> published src ?p (fst x) else receiving src clean sid x"
    show "us_path s = (root, ?temp) \<and> snd x = u \<and> good_parent (fst x) ?p \<and> ?I x"
      if "snd x = u \<and> good_parent (fst x) ?p \<and> ?I x" "us_path s = (root, ?temp)" for x
      using that by simp
    show "always (\<lambda>x. us_path s = (root, ?temp) \<and> snd x = u \<and> good_parent (fst x) ?p \<and> ?I x)
     (andthen (set_uploads (aput sid (s\<lparr>us_last := now\<rparr>))) (\<lambda>_.
     if us_published s then
       andthen (guard (uq_last q \<and> uq_offset q = us_final s) ''UPLOAD_OFFSET_MISMATCH'') (\<lambda>_. ret (us_entry s))
     else
       andthen (on_disk (put_chunk ?temp chunk (nat (uq_offset q)) part)) (\<lambda>_.
       if \<not> uq_last q then ret no_entry
       else
         andthen (on_disk (finish_upload H jenc jdec now rid clean ?temp ?p (uq_size q) (uq_sha q)
           (uq_overwrite q) (uq_expected q))) (\<lambda>e.
         andthen (set_uploads (aput sid (s\<lparr>us_last := now, us_published := True, us_entry := e,
           us_final := uq_offset q\<rparr>))) (\<lambda>_.
         ret e))))) ?Q ?I" for y
    proof (rule al_pure, rule al_andthen [where Q = "\<lambda>_. ?set"])
      assume tp: "us_path s = (root, ?temp)"
      show "always (\<lambda>x. snd x = u \<and> good_parent (fst x) ?p \<and> ?I x) (set_uploads (aput sid (s\<lparr>us_last := now\<rparr>))) (\<lambda>_. ?set) ?I"
      proof (rule al_set)
        fix d v assume x: "snd (d, v) = u \<and> good_parent (fst (d, v)) ?p \<and> ?I (d, v)"
        have paths: "temp_paths (aput sid (s\<lparr>us_last := now\<rparr>) u)"
          using x tp by (intro temp_paths_put [where p = ?p and sid = sid]) (auto simp: upload_inv_def)
        have "published src ?p d" if "us_published s"
        proof -
          have "aget u sid = Some s" using s that by (cases "aget u sid") (simp_all add: fresh_session_def)
          then have "(sid, s) \<in> set u" by (rule aget_SomeD)
          then show ?thesis using x tp that by (auto simp: upload_inv_def)
        qed
        then show "?set (d, aput sid (s\<lparr>us_last := now\<rparr>) v)"
          using x paths by (auto simp: upload_inv_def receiving_def waiting_def set_aput)
      qed
      show "always ?set (if us_published s then
       andthen (guard (uq_last q \<and> uq_offset q = us_final s) ''UPLOAD_OFFSET_MISMATCH'') (\<lambda>_. ret (us_entry s))
     else
       andthen (on_disk (put_chunk ?temp chunk (nat (uq_offset q)) part)) (\<lambda>_.
       if \<not> uq_last q then ret no_entry
       else
         andthen (on_disk (finish_upload H jenc jdec now rid clean ?temp ?p (uq_size q) (uq_sha q)
           (uq_overwrite q) (uq_expected q))) (\<lambda>e.
         andthen (set_uploads (aput sid (s\<lparr>us_last := now, us_published := True, us_entry := e,
           us_final := uq_offset q\<rparr>))) (\<lambda>_.
         ret e)))) ?Q ?I" for z
      proof (cases "us_published s")
        case True
        then show ?thesis by (auto intro!: al_quiet quiet_intros)
      next
        case False
        then show ?thesis
          using al_receive [where jenc = jenc and jdec = jdec, OF up json src size] tp by (simp add: temp_path_def)
      qed
    qed
  qed
  show "always (\<lambda>x. c = clean \<and> ?I x) (andthen (on_disk (upload_place c)) (\<lambda>p.
     let temp = temp_path p (safe_session_id sid)
     in andthen get_uploads (\<lambda>u.
        let s = (case aget u sid of None \<Rightarrow> fresh_session (root, temp) | Some s \<Rightarrow> s)
        in andthen (guard (us_path s = (root, temp)) ''PERMISSION_DENIED'') (\<lambda>_.
        andthen (set_uploads (aput sid (s\<lparr>us_last := now\<rparr>))) (\<lambda>_.
        if us_published s then
          andthen (guard (uq_last q \<and> uq_offset q = us_final s) ''UPLOAD_OFFSET_MISMATCH'') (\<lambda>_. ret (us_entry s))
        else
          andthen (on_disk (put_chunk temp chunk (nat (uq_offset q)) part)) (\<lambda>_.
          if \<not> uq_last q then ret no_entry
          else
            andthen (on_disk (finish_upload H jenc jdec now rid c temp p (uq_size q) (uq_sha q)
              (uq_overwrite q) (uq_expected q))) (\<lambda>e.
            andthen (set_uploads (aput sid (s\<lparr>us_last := now, us_published := True, us_entry := e,
              us_final := uq_offset q\<rparr>))) (\<lambda>_.
            ret e)))))))) ?Q ?I" for c
  proof (rule al_pure, rule al_andthen [where Q = "\<lambda>p x. p = ?p \<and> good_parent (fst x) ?p \<and> ?I x"])
    assume c: "c = clean"
    show "always ?I (on_disk (upload_place c)) (\<lambda>p x. p = ?p \<and> good_parent (fst x) ?p \<and> ?I x) ?I"
    proof (rule al_on_disk)
      fix u
      show "always (\<lambda>d. ?I (d, u)) (upload_place c) (\<lambda>p d. p = ?p \<and> good_parent (fst (d, u)) ?p \<and> ?I (d, u)) (\<lambda>d. ?I (d, u))"
        unfolding always_def c
      proof (intro allI impI)
        fix d w r d' w'
        assume I: "?I (d, u)" and run: "upload_place clean d w = (r, d', w')"
        note keep = alwaysD [OF al_spares [OF spares_place [OF up]] run I]
        show "case r of Inl e \<Rightarrow> ?I (d', u) | Inr p \<Rightarrow> p = ?p \<and> good_parent (fst (d', u)) ?p \<and> ?I (d', u)"
          using keep run upload_place_yields [OF _ up] by (cases r) auto
      qed
    qed
    show "always (\<lambda>x. p = ?p \<and> good_parent (fst x) ?p \<and> ?I x)
     (let temp = temp_path p (safe_session_id sid)
     in andthen get_uploads (\<lambda>u.
        let s = (case aget u sid of None \<Rightarrow> fresh_session (root, temp) | Some s \<Rightarrow> s)
        in andthen (guard (us_path s = (root, temp)) ''PERMISSION_DENIED'') (\<lambda>_.
        andthen (set_uploads (aput sid (s\<lparr>us_last := now\<rparr>))) (\<lambda>_.
        if us_published s then
          andthen (guard (uq_last q \<and> uq_offset q = us_final s) ''UPLOAD_OFFSET_MISMATCH'') (\<lambda>_. ret (us_entry s))
        else
          andthen (on_disk (put_chunk temp chunk (nat (uq_offset q)) part)) (\<lambda>_.
          if \<not> uq_last q then ret no_entry
          else
            andthen (on_disk (finish_upload H jenc jdec now rid c temp p (uq_size q) (uq_sha q)
              (uq_overwrite q) (uq_expected q))) (\<lambda>e.
            andthen (set_uploads (aput sid (s\<lparr>us_last := now, us_published := True, us_entry := e,
              us_final := uq_offset q\<rparr>))) (\<lambda>_.
            ret e))))))) ?Q ?I" for p
      unfolding Let_def c safe_session [OF sid]
      by (rule al_pure, hypsubst, rule al_andthen [OF al_get [where Q = "\<lambda>u x. snd x = u \<and> good_parent (fst x) ?p \<and> ?I x"]
            found [OF refl]]) simp
  qed
qed

section \<open>Runs of a session\<close>

lemma al_raise: "(\<And>d. P d \<Longrightarrow> R d) \<Longrightarrow> always P (raise c) Q R"
  by (auto simp: always_def raise_def)

lemma al_on_error:
  assumes "always P m Q R" and "\<And>c. always R (h c) Q R"
  shows "always P (on_error h m) Q R"
  unfolding always_def
proof (intro allI impI)
  fix d w r d' w'
  assume P: "P d" and run: "on_error h m d w = (r, d', w')"
  obtain s d1 w1 where m: "m d w = (s, d1, w1)" by (metis prod_cases3)
  show "case r of Inl e \<Rightarrow> R d' | Inr x \<Rightarrow> Q x d'"
    using run alwaysD [OF assms(1) m P] alwaysD [OF assms(2)] m
    by (cases s) (auto simp: on_error_def)
qed

lemma al_inv: "always P m (\<lambda>_. R) R \<Longrightarrow> P du \<Longrightarrow> R (fst (snd (m du w)))"
  by (cases "m du w"; cases "fst (m du w)") (fastforce dest: alwaysD)+

lemma spares_always: "keeps (spares src (temp_path (elems clean) sid) (elems clean)) m \<Longrightarrow>
  always (upload_inv root src clean sid) (on_disk m) (\<lambda>_. upload_inv root src clean sid) (upload_inv root src clean sid)"
  by (rule al_on_disk, rule al_spares)

lemma al_mutate:
  assumes "always (upload_inv root src clean sid) m Q (upload_inv root src clean sid)"
  shows "always (upload_inv root src clean sid) (mutate_up lock m) Q (upload_inv root src clean sid)"
  unfolding mutate_up_def
proof (rule al_andthen [OF al_quiet [where Q = "\<lambda>_. upload_inv root src clean sid"]])
  show "always (upload_inv root src clean sid) (andthen (on_disk ensure_root) (\<lambda>_. m)) Q (upload_inv root src clean sid)" for x
    by (rule al_andthen [OF spares_always [OF spares_root] assms]) (simp add: temp_path_def)
qed (auto intro: quiet_intros)

lemma read_limited_prefix: "prefix (read_limited n xs) xs"
  by (induction n xs rule: read_limited.induct) simp_all

lemma al_chunk:
  assumes up: "upload_target clean" and json: "\<And>m. \<exists>m'. jdec (jenc m) = Some m' \<and> rm_path m' = rm_path m"
    and sid: "trim_space sid = sid" and q: "honest src clean sid q"
  shows "always (upload_inv root src clean sid) (upload_chunk H jenc jdec max_upload root slot_free lock now rid part q)
    (\<lambda>e x. upload_inv root src clean sid x \<and> (uq_last q \<longrightarrow> published src (elems clean) (fst x)))
    (upload_inv root src clean sid)" (is "always ?I _ ?Q _")
proof -
  have s: "trim_space (uq_session q) = sid" using q by (simp add: honest_def)
  let ?chunk = "\<lambda>raw. read_limited (chunk_size + 1) raw"
  let ?G = "\<lambda>x. ?I x \<and> (uq_last q \<longrightarrow> published src (elems clean) (fst x))"
  have step: "always ?I (mutate_up lock (session_step H jenc jdec root now rid q sid (?chunk raw) part)) (\<lambda>_. ?G) ?I"
    if "valid_session_id sid" "0 \<le> uq_offset q" "uq_offset q \<le> uq_size q" "uq_bytes q = Some raw" for raw
  proof (rule al_mutate, rule al_session [where jenc = jenc and jdec = jdec, OF up json that(1) sid])
    show "prefix (?chunk raw) (drop (nat (uq_offset q)) src)"
      using q that(4) by (simp add: honest_def) (metis prefix_order.trans read_limited_prefix)
  qed (use q that in \<open>auto simp: honest_def\<close>)
  have rest: "always ?I (let chunk = ?chunk raw; after = uq_offset q + int (length chunk)
       in andthen (guard (int (length chunk) \<le> chunk_size \<and> int (length chunk) \<le> uq_size q - uq_offset q)
            ''FILE_SIZE_MISMATCH'') (\<lambda>_.
          andthen (guard (uq_last q = (after = uq_size q)) ''FILE_SIZE_MISMATCH'') (\<lambda>_.
          andthen (cleanup_sessions root now) (\<lambda>_.
          andthen (mutate_up lock (session_step H jenc jdec root now rid q sid chunk part)) (\<lambda>e.
          ret (e, after)))))) ?Q ?I"
    if "valid_session_id sid" "0 \<le> uq_offset q" "uq_offset q \<le> uq_size q" "uq_bytes q = Some raw" for raw
    unfolding Let_def
    by (rule al_andthen [OF al_guard [where Q = "\<lambda>_. ?I"] al_andthen [OF al_guard [where Q = "\<lambda>_. ?I"]
          al_andthen [OF al_cleanup [OF up] al_andthen [OF step [OF that] al_ret]]]]) auto
  show ?thesis
    unfolding upload_chunk_def Let_def s
    by (rule al_andthen [OF al_guard [where Q = "\<lambda>_ x. valid_session_id sid \<and> ?I x"] al_pure [OF
          al_andthen [OF al_guard [where Q = "\<lambda>_ x. (0 \<le> uq_offset q \<and> uq_offset q \<le> uq_size q) \<and> ?I x"] al_pure [OF
          al_andthen [OF al_guard [where Q = "\<lambda>_. ?I"]
          al_andthen [OF al_quiet [where Q = "\<lambda>raw x. uq_bytes q = Some raw \<and> ?I x"] al_pure [OF
            rest [unfolded Let_def]]]]]]]])
      (auto intro: quiet_intros simp: act_simps need_def split: option.splits)
qed

lemma quiet_on_disk [quiet_intros]: "quiet m \<Longrightarrow> quiet (on_disk m)"
  and quiet_get_uploads [quiet_intros]: "quiet get_uploads"
  unfolding quiet_def on_disk_def get_uploads_def by (auto split: prod.splits)

lemma quiet_status: "quiet (session_status dir rel session)"
  unfolding session_status_def Let_def
  by (intro quiet_intros; auto intro!: quiet_intros split: option.split sum.split)

lemma al_remove_session:
  assumes up: "upload_target clean"
  shows "always (upload_inv root src clean sid) (set_uploads (adel k)) (\<lambda>_. upload_inv root src clean sid)
    (upload_inv root src clean sid)"
proof (rule al_set)
  fix d u assume "upload_inv root src clean sid (d, u)"
  then show "upload_inv root src clean sid (d, adel k u)"
    using temp_paths_subset [of u "adel k u"] by (auto simp: upload_inv_def adel_def)
qed

lemma al_expire:
  assumes up: "upload_target clean"
  shows "always (upload_inv root src clean sid) (expire_session root now k) (\<lambda>_. upload_inv root src clean sid)
    (upload_inv root src clean sid)" (is "always ?I _ _ _")
  unfolding expire_session_def
proof (rule al_andthen [OF al_get [where Q = "\<lambda>u du. temp_paths u \<and> ?I du"] al_pure])
  show "temp_paths u \<and> ?I (d, u)" if "?I (d, u)" for d u using that by (simp add: upload_inv_def)
  fix u assume u: "temp_paths u"
  show "always ?I (case aget u k of None \<Rightarrow> ret () | Some s \<Rightarrow> if 0 < session_ttl - (now - us_last s) then ret ()
      else andthen (set_uploads (adel k)) (\<lambda>_. on_disk (drop_temp root s))) (\<lambda>_. ?I) ?I"
  proof (cases "aget u k")
    case None
    then show ?thesis by (auto intro: al_ret)
  next
    case (Some s)
    then have "(k, s) \<in> set u" by (rule aget_SomeD)
    then have "\<exists>dir c. snd (us_path s) = dir @ [''.prism-upload-'' @ c]" using u by (auto simp: temp_paths_def)
    then have "always ?I (andthen (set_uploads (adel k)) (\<lambda>_. on_disk (drop_temp root s))) (\<lambda>_. ?I) ?I"
      by (intro al_andthen [OF al_remove_session [OF up]] spares_always [OF spares_drop [OF up]])
    then show ?thesis using Some by (auto intro: al_ret)
  qed
qed

lemma al_cancel:
  assumes up: "upload_target clean"
  shows "always (upload_inv root src clean sid) (cancel_upload dir lock rel session) (\<lambda>_. upload_inv root src clean sid)
    (upload_inv root src clean sid)" (is "always ?I _ _ _")
proof -
  have looks: "always ?I m (\<lambda>_. ?I) ?I" if "quiet m" for m :: "'a upact" using that by (rule al_quiet)
  have rem: "keeps (spares src temp (elems clean)) (remove (temp_path p session))" for p temp
  proof (rule spares_remove)
    have "last (temp_path p session) = ''.prism-upload-'' @ session" by (simp add: temp_path_def)
    then have "temp_name (last (temp_path p session))" by (simp only: temp_name_def has_prefix_append)
    then show "temp_path p session \<noteq> elems clean" using up by (auto simp: upload_target_def)
    show "temp_path p session \<noteq> []" by (simp add: temp_path_def)
  qed
  have gone: "keeps (spares src temp (elems clean))
      (on_error (\<lambda>c. if c = ''ENOENT'' then ret () else raise (file_error c)) (remove (temp_path p session)))" for p temp
    by (rule spared.keep_on_error [OF rem]) (auto intro: spared.keep_ret spared.keep_raise)
  have drop: "always ?I (mutate_up lock (
       andthen (on_disk (entry_path rel)) (\<lambda>clean.
       andthen (on_disk (secure_path clean True)) (\<lambda>p.
       andthen get_uploads (\<lambda>u.
       andthen (set_uploads (adel session)) (\<lambda>_.
       andthen (case aget u session of None \<Rightarrow> ret ()
         | Some s \<Rightarrow> guard (us_path s = (r, temp_path p session)) ''PERMISSION_DENIED'') (\<lambda>_.
       on_disk (on_error (\<lambda>c. if c = ''ENOENT'' then ret () else raise (file_error c))
         (remove (temp_path p session)))))))))) (\<lambda>_. ?I) ?I" for r
    by (intro al_mutate al_andthen [OF looks] al_andthen [OF al_remove_session [OF up]] spares_always [OF gone])
      (auto intro!: quiet_intros split: option.split)
  have "always ?I (if ut_complete status then ret status
     else andthen (lift_result dir) (\<lambda>r. andthen (mutate_up lock (
       andthen (on_disk (entry_path rel)) (\<lambda>clean.
       andthen (on_disk (secure_path clean True)) (\<lambda>p.
       andthen get_uploads (\<lambda>u.
       andthen (set_uploads (adel session)) (\<lambda>_.
       andthen (case aget u session of None \<Rightarrow> ret ()
         | Some s \<Rightarrow> guard (us_path s = (r, temp_path p session)) ''PERMISSION_DENIED'') (\<lambda>_.
       on_disk (on_error (\<lambda>c. if c = ''ENOENT'' then ret () else raise (file_error c))
         (remove (temp_path p session)))))))))) (\<lambda>_.
       ret \<lparr>ut_id = session, ut_offset = 0, ut_complete = False, ut_entry = None\<rparr>))) (\<lambda>_. ?I) ?I" for status
  proof (cases "ut_complete status")
    case False
    show ?thesis unfolding if_not_P [OF False]
      by (intro al_andthen [OF looks] al_andthen [OF drop]) (auto intro!: quiet_intros al_ret)
  qed (auto intro: al_ret)
  then show ?thesis
    unfolding cancel_upload_def Let_def by (rule al_andthen [OF looks [OF quiet_status]])
qed

text \<open>What can happen to a session: requests, cancellations, timers, and a restart of the daemon, which forgets
  the sessions and leaves their temporary files.\<close>

datatype upload_event =
    Send "unit result" int "string option" nat bool upload_request
  | Cancel "string result" "unit result" string string
  | Timeout int string
  | Restart

fun upload_step ::
  "(string \<Rightarrow> string) \<Rightarrow> (manifest \<Rightarrow> string) \<Rightarrow> (string \<Rightarrow> manifest option) \<Rightarrow> int \<Rightarrow> string \<Rightarrow> upload_event \<Rightarrow>
    outcome list \<Rightarrow> disk \<times> uploads \<Rightarrow> disk \<times> uploads" where
  "upload_step H jenc jdec max_upload root (Send lock now rid part free q) w du =
     fst (snd (upload_chunk H jenc jdec max_upload root free lock now rid part q du w))"
| "upload_step H jenc jdec max_upload root (Cancel dir lock rel session) w du =
     fst (snd (cancel_upload dir lock rel session du w))"
| "upload_step H jenc jdec max_upload root (Timeout now k) w du = fst (snd (expire_session root now k du w))"
| "upload_step H jenc jdec max_upload root Restart w du = (fst du, [])"

fun upload_run ::
  "(string \<Rightarrow> string) \<Rightarrow> (manifest \<Rightarrow> string) \<Rightarrow> (string \<Rightarrow> manifest option) \<Rightarrow> int \<Rightarrow> string \<Rightarrow>
    (upload_event \<times> outcome list) list \<Rightarrow> disk \<times> uploads \<Rightarrow> disk \<times> uploads" where
  "upload_run H jenc jdec max_upload root [] du = du"
| "upload_run H jenc jdec max_upload root ((e, w) # es) du =
     upload_run H jenc jdec max_upload root es (upload_step H jenc jdec max_upload root e w du)"

text \<open>The client sends the bytes of \<open>src\<close>, in any order, as often as it likes.\<close>

fun sends_from :: "string \<Rightarrow> string \<Rightarrow> string \<Rightarrow> upload_event \<Rightarrow> bool" where
  "sends_from src clean sid (Send lock now rid part free q) = honest src clean sid q"
| "sends_from src clean sid e = True"

lemma upload_event_inv:
  assumes up: "upload_target clean" and json: "\<And>m. \<exists>m'. jdec (jenc m) = Some m' \<and> rm_path m' = rm_path m"
    and sid: "trim_space sid = sid" and "sends_from src clean sid e" and inv: "upload_inv root src clean sid du"
  shows "upload_inv root src clean sid (upload_step H jenc jdec max_upload root e w du)"
proof (cases e)
  case (Send lock now rid part free q)
  then have q: "honest src clean sid q" using assms(4) by simp
  note chunk = al_chunk [where jenc = jenc and jdec = jdec, OF up json sid q]
  show ?thesis unfolding Send upload_step.simps by (rule al_inv [OF al_post [OF chunk] inv]) simp
next
  case (Cancel dir lock rel session)
  then show ?thesis using al_inv [OF al_cancel [OF up] inv] by simp
next
  case (Timeout now k)
  then show ?thesis using al_inv [OF al_expire [OF up] inv] by simp
next
  case Restart
  then show ?thesis using inv by (cases du) (simp add: upload_inv_def temp_paths_def)
qed

lemma upload_run_inv:
  assumes up: "upload_target clean" and json: "\<And>m. \<exists>m'. jdec (jenc m) = Some m' \<and> rm_path m' = rm_path m"
    and sid: "trim_space sid = sid"
  shows "list_all (\<lambda>x. sends_from src clean sid (fst x)) es \<Longrightarrow> upload_inv root src clean sid du \<Longrightarrow>
    upload_inv root src clean sid (upload_run H jenc jdec max_upload root es du)"
proof (induction es arbitrary: du)
  case (Cons x es)
  obtain e w where x: "x = (e, w)" by (cases x)
  have "upload_inv root src clean sid (upload_step H jenc jdec max_upload root e w du)"
    using Cons.prems by (intro upload_event_inv [where jenc = jenc and jdec = jdec, OF up json sid]) (simp_all add: x)
  then show ?case using Cons by (simp add: x)
qed simp

end
