(* ===== verification/FileUpload_Props.thy ===== *)
theory FileUpload_Props
  imports FileUpload_Laws
begin

text \<open>
  Uploads in chunks: a session that succeeds has published the bytes of its source, whatever happened on
  the way; and cancelling with white space around the identifier, which cancels nothing.
\<close>

section \<open>The published file\<close>


text \<open>Five bytes in three chunks: the first write stops after a byte, the daemon restarts, a chunk is sent twice.\<close>

definition demo_request :: "int \<Rightarrow> string \<Rightarrow> bool \<Rightarrow> upload_request" where
  "demo_request off bytes final = \<lparr>uq_path = ''new'', uq_bytes = Some bytes, uq_size = 5, uq_sha = [], uq_overwrite = False,
     uq_expected = [], uq_session = ''s1'', uq_offset = off, uq_last = final\<rparr>"

definition demo_decode :: "string \<Rightarrow> manifest option" where
  "demo_decode s = Some \<lparr>rm_name = ''x'', rm_path = s, rm_type = ''file'', rm_size = 0, rm_mode = 0, rm_at = 0\<rparr>"

definition demo_events :: "(upload_event \<times> outcome list) list" where
  "demo_events =
     [(Send (Inr ()) 0 (Some ''e1'') 1 True (demo_request 0 ''hel'' False), replicate 6 Done @ [Failed]),
      (Restart, []),
      (Send (Inr ()) 1 (Some ''e1'') 1 True (demo_request 1 ''el'' False), []),
      (Send (Inr ()) 2 (Some ''e1'') 1 True (demo_request 1 ''el'' False), [])]"

definition demo_upload :: "disk \<times> uploads" where
  "demo_upload = upload_run (\<lambda>s. s) rm_path demo_decode 1000 ''/srv'' demo_events (Some (Folder 0x1E8 []), [])"


section \<open>Cancelling\<close>

lemma on_disk_run: "m d w = (r, d', w') \<Longrightarrow> on_disk m (d, u) w = (r, (d', u), w')"
  by (simp add: on_disk_def)

lemma entry_path_run: "upload_target clean \<Longrightarrow> entry_path clean d w = (Inr clean, d, w)"
  by (simp add: upload_target_def entry_path_def ret_def)

lemma place_run:
  assumes "upload_target clean" and "good_parent d (elems clean)"
    and "node_at d (elems clean) = Err ''ENOENT'' \<or> (\<exists>m b. node_at d (elems clean) = Inr (Reg m b))"
  shows "secure_path clean True d [] = (Inr (elems clean), d, [])"
proof (rule secure_path_run)
  show "reachable d (elems clean)"
    using assms(2) good_parent_folder [OF assms(2), of "[]"] upload_target_paths(1) [OF assms(1)]
    by (auto simp: reachable_def folder_at_def strict_prefix_def)
qed (use assms upload_target_paths(1) [OF assms(1)] in \<open>auto simp: upload_target_def plain_node_def is_link_def\<close>)

lemma status_run:
  assumes up: "upload_target clean" and place: "good_parent d (elems clean)"
    "node_at d (elems clean) = Err ''ENOENT'' \<or> (\<exists>m b. node_at d (elems clean) = Inr (Reg m b))"
    and sid: "valid_session_id sid" "trim_space session = sid"
    and temp: "node_at d (temp_path (elems clean) sid) = Inr (Reg m b)"
    and s: "aget u sid = Some s" "us_path s = (root, temp_path (elems clean) sid)" "\<not> us_published s"
  shows "session_status (Inr root) clean session (d, u) [] =
    (Inr \<lparr>ut_id = sid, ut_offset = int (length b), ut_complete = False, ut_entry = None\<rparr>, (d, u), [])"
proof -
  have st: "stat (temp_path (elems clean) sid) d [] = (Inr (Reg m b), d, [])"
    using temp by (simp add: stat_def stmt_def stat_of_plain is_link_def)
  show ?thesis
    using sid s st entry_path_run [OF up, of d "[]"] place_run [OF up place]
    by (simp add: session_status_def Let_def andthen_def on_disk_def guard_def ret_def lift_result_def get_uploads_def
        attempt_def node_size_def)
qed

text \<open>C37: A session that is receiving, asked to be cancelled with white space around its identifier: when
  no call fails, success is reported and everything stays, the temporary file and the session. With the
  identifier itself the temporary file goes.\<close>

theorem padded_cancel_ignored:
  assumes up: "upload_target clean" and place: "good_parent d (elems clean)"
    "node_at d (elems clean) = Err ''ENOENT'' \<or> (\<exists>m b. node_at d (elems clean) = Inr (Reg m b))"
    and sid: "valid_session_id sid" "trim_space sid = sid" "trim_space padded = sid"
    and temp: "node_at d (temp_path (elems clean) sid) = Inr (Reg m b)"
    "node_at d (temp_path (elems clean) padded) = Err ''ENOENT''"
    and s: "aget u sid = Some s" "us_path s = (root, temp_path (elems clean) sid)" "\<not> us_published s"
    "aget u padded = None"
  shows "cancel_upload (Inr root) (Inr ()) clean padded (d, u) [] =
      (Inr \<lparr>ut_id = padded, ut_offset = 0, ut_complete = False, ut_entry = None\<rparr>, (d, u), []) \<and>
    (\<exists>d' e. cancel_upload (Inr root) (Inr ()) clean sid (d, u) [] =
      (Inr \<lparr>ut_id = sid, ut_offset = 0, ut_complete = False, ut_entry = None\<rparr>, (d', adel sid u), []) \<and>
      node_at d' (temp_path (elems clean) sid) = Inl e)"
proof
  obtain m0 es where root: "node_at d [] = Inr (Folder m0 es)"
    using good_parent_folder [OF place(1), of "[]"] upload_target_paths(1) [OF up] by (auto simp: strict_prefix_def)
  note runs = root_run [OF root] entry_path_run [OF up, of d "[]"] place_run [OF up place]
  note status = status_run [OF up place sid(1) _ temp(1) s(1-3)]
  have same: "adel padded u = u" using s(4) by (induction u) (auto simp: adel_def aget_Cons split: if_splits)
  have missing: "remove (temp_path (elems clean) padded) d [] = (Err ''ENOENT'', d, [])"
    using temp(2) by (simp add: remove_def sys_def exec_if_def stmt_def)
  show "cancel_upload (Inr root) (Inr ()) clean padded (d, u) [] =
      (Inr \<lparr>ut_id = padded, ut_offset = 0, ut_complete = False, ut_entry = None\<rparr>, (d, u), [])"
    using status [OF sid(3)] runs missing s(4) same
    by (simp add: cancel_upload_def Let_def andthen_def lift_result_def mutate_up_def on_disk_def get_uploads_def
        set_uploads_def on_error_def ret_def)
  have there: "remove (temp_path (elems clean) sid) d [] = (Inr (), set_node (temp_path (elems clean) sid) None d, [])"
    using temp(1) by (simp add: remove_def sys_def exec_if_def stmt_def)
  have "cancel_upload (Inr root) (Inr ()) clean sid (d, u) [] =
      (Inr \<lparr>ut_id = sid, ut_offset = 0, ut_complete = False, ut_entry = None\<rparr>,
       (set_node (temp_path (elems clean) sid) None d, adel sid u), [])"
    using status [OF sid(2)] runs there s(1,2)
    by (simp add: cancel_upload_def Let_def andthen_def lift_result_def mutate_up_def on_disk_def get_uploads_def
        set_uploads_def on_error_def ret_def guard_def)
  moreover have "\<exists>e. node_at (set_node (temp_path (elems clean) sid) None d) (temp_path (elems clean) sid) = Inl e"
    using node_at_set_self [OF good_parent_sibling [OF place(1)], of sid None] by auto
  ultimately show "\<exists>d' e. cancel_upload (Inr root) (Inr ()) clean sid (d, u) [] =
      (Inr \<lparr>ut_id = sid, ut_offset = 0, ut_complete = False, ut_entry = None\<rparr>, (d', adel sid u), []) \<and>
      node_at d' (temp_path (elems clean) sid) = Inl e" by blast
qed

theorem padded_cancel_ignored_witness:
  "fst (snd (cancel_upload (Inr ''/srv'') (Inr ()) ''new'' ''s1 '' demo_upload [])) = demo_upload"
proof -
  let ?d = "fst demo_upload" and ?u = "snd demo_upload"
  have el: "elems ''new'' = [''new'']" by code_simp
  have up: "upload_target ''new''" by code_simp
  have d: "?d = Some (Folder 0x1E8 [(''.prism-upload-s1'', Reg 0x1A0 ''hel'')])" by code_simp
  have gp: "good_parent ?d (elems ''new'')" by (simp add: d el good_parent_def)
  have place: "node_at ?d (elems ''new'') = Err ''ENOENT''" by code_simp
  have sid: "valid_session_id ''s1''" "trim_space ''s1'' = ''s1''" "trim_space ''s1 '' = ''s1''" by code_simp+
  have temp: "node_at ?d (temp_path (elems ''new'') ''s1'') = Inr (Reg 0x1A0 ''hel'')"
    "node_at ?d (temp_path (elems ''new'') ''s1 '') = Err ''ENOENT''" by code_simp+
  have u: "aget ?u ''s1'' = Some \<lparr>us_path = (''/srv'', temp_path (elems ''new'') ''s1''), us_last = 2, us_published = False,
      us_entry = no_entry, us_final = 0\<rparr>" "aget ?u ''s1 '' = None" by code_simp+
  show ?thesis
    using conjunct1 [OF padded_cancel_ignored [OF up gp disjI1 [OF place] sid temp u(1) _ _ u(2)]] by simp
qed

end
