(* ===== verification/Spec2Isabelle.thy ===== *)
theory Spec2Isabelle
  imports Ticket_Props ServerModel Firewall_Props Supervisor_Props ServerProperties PanelApi_Props PanelConfig PanelAuth_Props Schedule_Props Operators_Props FileOps_Props FileUpload_Props
begin

text \<open>
  PrismPanel is a panel for Minecraft server networks. The \<^emph>\<open>panel\<close> (src/panel, a web server with a
  MySQL store) manages accounts, permissions, nodes, schedules and operators; a \<^emph>\<open>daemon\<close> on each
  node (src/daemon) runs the server instances, keeps their files and the node's packet filter; a
  \<^emph>\<open>session daemon\<close> (src/sessiond) holds the processes so that they survive a restart of the daemon;
  a \<^emph>\<open>plugin\<close> (src/prism-plugin, Java) runs inside each game server and talks to the daemon. The
  browser talks to the panel, the panel calls its daemons over a WebSocket, and files and consoles go
  from the browser to the daemon directly, with tickets the panel asked the daemon for.

  The development models the Go services. What the model takes as given stands at the end.

  \<^bold>\<open>Foundations.\<close>
  \<^item> \<open>Prelude\<close>: results (\<open>apperr\<close> errors are their codes), Go maps as association lists, and the
    interfaces \<open>kv_store\<close>, \<open>normalizer\<close> and \<open>safe_machine\<close>. Every state machine below is an
    interpretation of \<open>safe_machine\<close>; every normal form one of \<open>normalizer\<close>.
  \<^item> \<open>GoStrings\<close>, \<open>GoPath\<close>, \<open>GoNetip\<close>, \<open>GoBase64\<close>, \<open>GoTime\<close>, \<open>GoJson\<close>: the parts of Go's library
    the program uses. Strings are byte sequences; trimming and rune counts follow UTF-8, letter case
    is that of ASCII. A time is the number of nanoseconds since the zero time, a duration wraps or
    saturates at 64 bits as Go's does. JSON starts at the decoded value.
  \<^item> \<open>PanelAction\<close>: statements and transactions against the panel's database. Every statement may
    fail, or succeed with its answer lost; the locale \<open>preserved\<close> carries a relation over them.

  \<^bold>\<open>The daemon.\<close>
  \<^item> \<open>Ticket\<close> (daemon/internal/ticket/manager.go): one-time and restricted tickets behind file
    transfers and consoles, on a heap of ticket objects because the two maps of the manager share
    them; a creation is two critical sections. \<open>Ticket_Laws\<close> has the invariant of the machine,
    \<open>Ticket_Props\<close> the limits on uses, the soundness of a granted use and the nil dereference
    between the sections.
  \<^item> \<open>ServerModel\<close> (daemon/internal/model/server.go): server configurations, their normal form and
    validation, mirrors, the instances of a server. \<open>ServerService\<close> (internal/server/service.go and
    internal/store/server_store.go): create, update and delete with their undo steps.
  \<^item> \<open>Firewall\<close>, \<open>FirewallService\<close> (daemon/internal/firewall): rules, the generated nftables chain,
    revisions, temporary grants and drift. \<open>Firewall_Laws\<close> and \<open>Firewall_Props\<close> read the chain as a
    packet filter and prove it to be the white list the rules describe, or show where it is not.
  \<^item> \<open>Instance\<close>, \<open>Instance_Run\<close> (daemon/internal/supervisor): one supervised process. The console
    ring and its subscribers, and the life cycle as a machine whose steps are what happens between
    two waits of a goroutine. \<open>Instance_Frame\<close> and \<open>Instance_Props\<close>: the invariant, the console
    stream, the bound on automatic restarts, the end of every operation.
  \<^item> \<open>Supervisor\<close> (supervisor/manager.go, deployment_lock.go): the table of instances, ports, reservations.
    \<open>Supervisor_Laws\<close>, \<open>Service_Props\<close>, \<open>Supervisor_Props\<close>: files, configurations and instances stay in
    step over all operations and outcomes; ports stay separate; two ways a lock or a process escapes.
  \<^item> \<open>ServerProperties\<close> (supervisor/properties.go): reading and writing the port of server.properties.
  \<^item> \<open>Operators\<close>, \<open>OperatorSync\<close> (supervisor/operators.go): the registry of operators, its merged
    catalog, and its distribution to the plugins as a machine with requests and answers on the way.

  \<^bold>\<open>The daemon's file service\<close> (daemon/internal/files).
  \<^item> \<open>FileTree\<close>: what Go's os package does to a tree of folders, files and links under the working
    directory, each call with the outcomes \<open>Done\<close>, \<open>Failed\<close> and \<open>Lost\<close> (it took effect and reported an
    error); links in the middle of a path are followed. The time stamps of the tree are left out,
    the size of a folder is 0, and no other process changes the tree while an operation runs.
  \<^item> \<open>FileService\<close> (service.go, recycle.go): resolving a path below a root, reading, saving, creating,
    renaming, moving, deleting into the recycle bin, restoring and emptying it. \<open>FileOps\<close> (service.go, copy.go): listing with
    its order and pages, text with its encodings, copying and its transfer slots. \<open>FileUpload\<close>:
    upload sessions, chunks, whole uploads, their end and expiry. Parameters: the SHA-256 \<open>H\<close>, the
    codecs \<open>jenc\<close>/\<open>jdec\<close> of the JSON of an entry and those of GBK, the result of resolving the root.
  \<^item> \<open>FileTree_Laws\<close>, \<open>FileService_Laws\<close>: the calls read through \<open>shape_at\<close>, and what a resolved path
    guarantees. \<open>RecycleBin_Laws\<close>: deletion and restoration. \<open>FileSave_Laws\<close>: saving through a temporary
    file. \<open>FileList_Laws\<close>: sorting and paging. \<open>FileFrame_Laws\<close>: a calculus for the paths an
    operation can touch. \<open>FileOps_Props\<close>: paths stay below the root, effects stay where they are named,
    a save keeps the old or the new content, restoring undoes deleting, pages list every entry once.
    \<open>FileUpload_Laws\<close> follows a session through all outcomes, and \<open>FileUpload_Props\<close> shows that it
    publishes the bytes of its source.

  \<^bold>\<open>The panel.\<close>
  \<^item> \<open>PanelDb\<close>, \<open>PanelUsers\<close>, \<open>PanelAccess\<close>, \<open>PanelStore\<close> (panel/internal/store: users, sessions, API
    keys, groups, permissions, start-up): the account tables and every operation on them;
    \<open>PanelStore_Laws\<close> and \<open>PanelStore_Inv\<close> the invariant over runs, \<open>PanelStore_Props\<close> the last
    administrator, ended sessions and effective permissions.
  \<^item> \<open>PanelAuth\<close> (panel/internal/auth): login, limiter, password hashes. \<open>PanelApi\<close> (panel/internal/api):
    the handlers that manage accounts, with the rule that nobody grants more than they have.
    \<open>PanelConfig\<close>: configuration and the source address of a request behind proxies.
  \<^item> \<open>Schedule\<close>, \<open>ScheduleStore\<close>, \<open>ScheduleService\<close>, \<open>PanelNodes\<close> (panel/internal/schedule and the
    tables it uses): rules, due times, runs and recovery. \<open>Schedule_Laws\<close>, \<open>Schedule_Props\<close>: a due time
    is executed once, the next run is the first the rule describes, paging is complete.
  \<^item> \<open>PanelOperators\<close> (store/operators.go, api/operator_handlers.go): the panel's table of operators.
    \<open>PanelOperators_Laws\<close> joins it with \<open>Operators\<close>, and \<open>Operators_Props\<close> proves the chain from the
    table over the registry to the plugins.

  \<^bold>\<open>How state is modelled.\<close> A struct is a record with the code's fields, an operation a function from
  state to result and state with the branches of the code. Operations that run under one mutex are
  one step; where the code releases it in between, or waits, there are several steps and the
  machine interleaves them. The clock, random bytes, results of other systems and outcomes of
  statements are arguments, so the theorems hold for all of them. Where a map is iterated and the
  order shows, the order is an argument.

  \<^bold>\<open>Bounds and fuel.\<close> Integers the code may wrap are words or are wrapped explicitly (\<open>GoTime\<close>); the
  others are \<open>int\<close>. There is no fuel in the models of the code: every loop is a structural recursion
  or has a termination proof. \<open>pages\<close> in \<open>Schedule_Props\<close> has a counter for the client's requests, and
  its theorem says how many are enough; \<open>plugins_follow\<close> asks for runs shorter than the distance of
  the 64-bit revision from its end.

  \<^bold>\<open>Parameters.\<close> SHA-256 (\<open>H\<close>), argon2 (\<open>K\<close>), \<open>url.Parse\<close>, \<open>time.ParseDuration\<close>, the tables of time
  zones and the collations of the database are arguments of the definitions that use them. Hypotheses
  on them are named in the theorems, and the witnesses instantiate them.

  \<^bold>\<open>Not modelled.\<close> Archives, extraction and downloads of the file service; plugin repositories,
  server deployment, process groups and pseudo-terminals, WebSocket framing, host metrics. The folders
  above the working directory of the file service are outside its tree. Request handlers that only decode, check a permission and forward. The
  Windows client and the web front ends. Of the database the rounding of times and the length limits
  of text columns are left out; Unix paths are assumed.
\<close>

end
